(* ===== verification/Koi_Prelude.thy ===== *)
theory Koi_Prelude
  imports Main "HOL-Library.Word"
begin

text \<open>
  Shared vocabulary of the model of the KOI daemon (\<open>koi-2.2.0\<close>): the ways a C operation can
  go wrong, results that may carry such a fault, the C integer types of the target platform
  (FreeBSD/i386: 16-bit \<open>short\<close>, 32-bit \<open>int\<close> and \<open>long\<close>), and the constants of
  \<open>include/koi.h\<close> that several components use.
\<close>

section \<open>Faults and results\<close>

text \<open>
  A C function of the model returns \<open>Inr\<close> of its value, or \<open>Inl\<close> of the first
  undefined behaviour it runs into: a dereferenced null pointer, an access to a freed or never
  allocated object, a write past the end of a buffer, a read past the end of an array or
  buffer, an object accessed through a pointer to another struct, or a loop that
  never ends. \<open>OutOfFuel\<close> is no fault of the code: it says that a bound on the rounds of a loop,
  chosen for the model, was too small to tell. \<open>Abort\<close> is a call of \<open>abort\<close>.
\<close>

datatype fault = NullDeref | UseAfterFree | BufferOverflow | OutOfBounds | TypeConfusion | Endless
  | OutOfFuel | Abort

type_synonym 'a res = "fault + 'a"

definition bind_res :: "'a res \<Rightarrow> ('a \<Rightarrow> 'b res) \<Rightarrow> 'b res" where
  "bind_res m f = (case m of Inl e \<Rightarrow> Inl e | Inr x \<Rightarrow> f x)"

named_theorems koi_simps "unfolding rules of the operations, for closed evaluation"

lemma bind_res_Inr [simp]: "bind_res (Inr x) f = f x"
  by (simp add: bind_res_def)

lemma bind_res_Inl [simp]: "bind_res (Inl e) f = Inl e"
  by (simp add: bind_res_def)

lemma bind_res_eq_Inr: "bind_res m f = Inr y \<longleftrightarrow> (\<exists>x. m = Inr x \<and> f x = Inr y)"
  by (cases m) auto

lemma bind_res_assoc: "bind_res (bind_res m f) g = bind_res m (\<lambda>x. bind_res (f x) g)"
  by (cases m) auto

lemma bind_res_cong [fundef_cong]:
  "m = m' \<Longrightarrow> (\<And>x. m' = Inr x \<Longrightarrow> f x = f' x) \<Longrightarrow> bind_res m f = bind_res m' f'"
  by (cases m') auto

section \<open>C integer types\<close>

text \<open>
  Machine integers are HOL integers; a conversion to a narrower type, or an arithmetic
  operation that may leave the type's range, is written with the wrap-around function of
  that type.
\<close>

definition short_of :: "int \<Rightarrow> int" where
  "short_of x = (x + 32768) mod 65536 - 32768"

definition long_of :: "int \<Rightarrow> int" where
  "long_of x = (x + 2147483648) mod 4294967296 - 2147483648"

definition uchar_of :: "int \<Rightarrow> int" where
  "uchar_of x = x mod 256"

definition ushort_of :: "int \<Rightarrow> int" where
  "ushort_of x = x mod 65536"

definition ulong_of :: "int \<Rightarrow> int" where
  "ulong_of x = x mod 4294967296"

lemma short_of_id [simp]: "-32768 \<le> x \<Longrightarrow> x < 32768 \<Longrightarrow> short_of x = x"
  by (simp add: short_of_def)

lemma long_of_id [simp]: "-2147483648 \<le> x \<Longrightarrow> x < 2147483648 \<Longrightarrow> long_of x = x"
  by (simp add: long_of_def)

lemma ushort_of_id [simp]: "0 \<le> x \<Longrightarrow> x < 65536 \<Longrightarrow> ushort_of x = x"
  by (simp add: ushort_of_def)

lemma uchar_of_id [simp]: "0 \<le> x \<Longrightarrow> x < 256 \<Longrightarrow> uchar_of x = x"
  by (simp add: uchar_of_def)

lemma short_of_range: "-32768 \<le> short_of x \<and> short_of x < 32768"
  unfolding short_of_def by simp

lemma long_of_range: "-2147483648 \<le> long_of x \<and> long_of x < 2147483648"
  unfolding long_of_def by simp

lemma short_of_wrap: "0 \<le> x \<Longrightarrow> x < 65538 \<Longrightarrow> short_of x = (if x < 32768 then x
    else if x < 98304 then x - 65536 else x - 131072)"
proof -
  assume "0 \<le> x" "x < 65538"
  moreover have "(x + 32768) mod 65536 = x + 32768 - 65536" if "32768 \<le> x" "x < 98304"
    using that by (simp add: mod_pos_pos_trivial flip: minus_mod_self2 [of "x + 32768"])
  ultimately show ?thesis by (auto simp: short_of_def)
qed

section \<open>Byte buffers\<close>

type_synonym byte = "8 word"

text \<open>
  \<open>malloc(n)\<close> of a data buffer: whether it succeeds is decided by the environment, except
  that a negative length (a \<open>size_t\<close> of 2 GB or more) is never available. The bytes of a
  fresh buffer are unspecified; every caller overwrites them, so they are 0 here.
  \<open>memset\<close> and \<open>memcpy\<close> fault when they leave a buffer.
\<close>

definition malloc_bytes :: "bool \<Rightarrow> int \<Rightarrow> byte list option" where
  "malloc_bytes ok n = (if ok \<and> 0 \<le> n then Some (replicate (nat n) 0) else None)"

definition cmemset :: "byte list \<Rightarrow> byte \<Rightarrow> nat \<Rightarrow> byte list res" where
  "cmemset dst v n = (if n > length dst then Inl BufferOverflow
     else Inr (replicate n v @ drop n dst))"

definition cmemcpy :: "byte list \<Rightarrow> nat \<Rightarrow> byte list \<Rightarrow> nat \<Rightarrow> byte list res" where
  "cmemcpy dst off src n = (if n > length src then Inl OutOfBounds
     else if off + n > length dst then Inl BufferOverflow
     else Inr (take off dst @ take n src @ drop (off + n) dst))"

lemma cmemset_ok [simp]: "n \<le> length dst \<Longrightarrow> cmemset dst v n = Inr (replicate n v @ drop n dst)"
  by (simp add: cmemset_def)

lemma cmemcpy_ok [simp]:
  "n \<le> length src \<Longrightarrow> off + n \<le> length dst \<Longrightarrow>
   cmemcpy dst off src n = Inr (take off dst @ take n src @ drop (off + n) dst)"
  by (simp add: cmemcpy_def)

lemmas buffer_op_defs [koi_simps] = malloc_bytes_def cmemset_def cmemcpy_def

text \<open>Splitting an association list with distinct keys at a key is unique.\<close>

lemma split_unique:
  assumes "us @ (i, c) # ws = ys @ (i, d) # zs" "distinct (map fst (ys @ (i, d) # zs))"
  shows "us = ys \<and> ws = zs"
  using assms
proof (induction us arbitrary: ys)
  case Nil
  then show ?case by (cases ys) auto
next
  case (Cons u us)
  show ?case
  proof (cases ys)
    case Nil
    with Cons.prems(1) have "(i, c) \<in> set zs" by auto
    with Cons.prems(2) Nil show ?thesis by force
  next
    case (Cons y ys')
    with Cons.IH [of ys'] Cons.prems show ?thesis by auto
  qed
qed

text \<open>Searching a list.\<close>

lemma find_append: "List.find P (xs @ ys) =
    (case List.find P xs of None \<Rightarrow> List.find P ys | Some x \<Rightarrow> Some x)"
  by (induction xs) auto

lemma find_None: "List.find P xs = None \<longleftrightarrow> (\<forall>x \<in> set xs. \<not> P x)"
  by (induction xs) auto

section \<open>Constants of koi.h and time values\<close>

definition RETURN_OK :: int where "RETURN_OK = 0"
definition RETURN_NG :: int where "RETURN_NG = -1"

lemmas return_codes [simp] = RETURN_OK_def RETURN_NG_def

record timeval =
  tv_sec :: int
  tv_usec :: int

text \<open>
  The two-stage comparison of \<open>kCloseTimerProc\<close> and \<open>kRecvTimerProc\<close>: a deadline is
  still pending when its seconds lie ahead, or are equal and its microseconds lie ahead.
\<close>

definition tv_pending :: "timeval \<Rightarrow> timeval \<Rightarrow> bool" where
  "tv_pending expire now \<longleftrightarrow>
     tv_sec expire > tv_sec now \<or> (tv_sec expire = tv_sec now \<and> tv_usec expire > tv_usec now)"

definition tv_usecs :: "timeval \<Rightarrow> int" where
  "tv_usecs t = tv_sec t * 1000000 + tv_usec t"

definition tv_ok :: "timeval \<Rightarrow> bool" where
  "tv_ok t \<longleftrightarrow> 0 \<le> tv_usec t \<and> tv_usec t < 1000000"

lemma tv_pending_usecs: "tv_ok t \<Longrightarrow> tv_ok u \<Longrightarrow> tv_pending t u \<longleftrightarrow> tv_usecs u < tv_usecs t"
  unfolding tv_pending_def tv_usecs_def tv_ok_def by auto

end
