(* ===== verification/Koi_Heap.thy ===== *)
theory Koi_Heap
  imports Koi_Prelude
begin

text \<open>
  The dynamic memory of the daemon and the singly linked tables kept in it. Four components
  (\<open>kBuffer\<close>, \<open>kData\<close>, \<open>kRecvTimeoutTimer\<close>, \<open>kSocket\<close>) keep a table as a linked
  list of malloc'ed nodes with a pointer to the first and one to the last node, and share
  the same loops over it. The heap is typed by node (one heap per node struct); addresses are
  numbers and the null pointer is \<open>None\<close>.
\<close>

section \<open>Heaps\<close>

datatype 'n obj = Unalloc | Live 'n | Freed 'n

text \<open>
  \<open>keeps_freed\<close> is a parameter that stands for the C allocator: whether a block keeps its
  contents between \<open>free\<close> and its reuse, so that a read through a dangling pointer still
  sees the old node, or such a read is a fault (as the C standard has it). A write through a
  dangling pointer and a second \<open>free\<close> are faults for every allocator.
\<close>

record 'n heap =
  cells :: "nat \<Rightarrow> 'n obj"
  brk :: nat
  keeps_freed :: bool

definition empty_heap :: "bool \<Rightarrow> 'n heap" where
  "empty_heap k = \<lparr>cells = (\<lambda>_. Unalloc), brk = 0, keeps_freed = k\<rparr>"

definition halloc :: "'n \<Rightarrow> 'n heap \<Rightarrow> nat \<times> 'n heap" where
  "halloc n h = (brk h, h\<lparr>cells := (cells h)(brk h := Live n), brk := Suc (brk h)\<rparr>)"

definition load :: "'n heap \<Rightarrow> nat option \<Rightarrow> 'n res" where
  "load h p = (case p of None \<Rightarrow> Inl NullDeref
     | Some a \<Rightarrow> (case cells h a of Live n \<Rightarrow> Inr n
         | Freed n \<Rightarrow> if keeps_freed h then Inr n else Inl UseAfterFree
         | Unalloc \<Rightarrow> Inl UseAfterFree))"

definition hstore :: "'n heap \<Rightarrow> nat option \<Rightarrow> 'n \<Rightarrow> 'n heap res" where
  "hstore h p n = (case p of None \<Rightarrow> Inl NullDeref
     | Some a \<Rightarrow> (case cells h a of Live _ \<Rightarrow> Inr (h\<lparr>cells := (cells h)(a := Live n)\<rparr>)
         | _ \<Rightarrow> Inl UseAfterFree))"

definition hfree :: "'n heap \<Rightarrow> nat option \<Rightarrow> 'n heap res" where
  "hfree h p = (case p of None \<Rightarrow> Inr h
     | Some a \<Rightarrow> (case cells h a of Live n \<Rightarrow> Inr (h\<lparr>cells := (cells h)(a := Freed n)\<rparr>)
         | _ \<Rightarrow> Inl UseAfterFree))"

definition heap_ok :: "'n heap \<Rightarrow> bool" where
  "heap_ok h \<longleftrightarrow> (\<forall>a \<ge> brk h. cells h a = Unalloc)"

lemmas heap_op_defs [koi_simps] = halloc_def load_def hstore_def hfree_def empty_heap_def

lemma load_None [simp]: "load h None = Inl NullDeref"
  by (simp add: load_def)

lemma load_Live [simp]: "cells h a = Live n \<Longrightarrow> load h (Some a) = Inr n"
  by (simp add: load_def)

lemma hstore_Live [simp]:
  "cells h a = Live m \<Longrightarrow> hstore h (Some a) n = Inr (h\<lparr>cells := (cells h)(a := Live n)\<rparr>)"
  by (simp add: hstore_def)

lemma hfree_None [simp]: "hfree h None = Inr h"
  by (simp add: hfree_def)

lemma hfree_Live [simp]:
  "cells h a = Live n \<Longrightarrow> hfree h (Some a) = Inr (h\<lparr>cells := (cells h)(a := Freed n)\<rparr>)"
  by (simp add: hfree_def)

lemma heap_ok_empty [simp]: "heap_ok (empty_heap k)"
  by (simp add: heap_ok_def empty_heap_def)

lemma heap_ok_upd [simp]:
  "heap_ok h \<Longrightarrow> a < brk h \<Longrightarrow> heap_ok (h\<lparr>cells := (cells h)(a := ob)\<rparr>)"
  by (simp add: heap_ok_def)

lemma heap_ok_upd2:
  "heap_ok h \<Longrightarrow> a < brk h \<Longrightarrow> b < brk h \<Longrightarrow>
   heap_ok (h\<lparr>cells := (cells h)(a := ob, b := ob')\<rparr>)"
  by (simp add: heap_ok_def)

lemma heap_ok_live: "heap_ok h \<Longrightarrow> cells h a = Live n \<Longrightarrow> a < brk h"
  by (metis heap_ok_def leI obj.distinct(1))

section \<open>Linked tables\<close>

text \<open>The two global pointers of a table and the heap of its nodes.\<close>

record 'n tbl =
  hp :: "'n heap"
  first :: "nat option"
  final :: "nat option"

definition empty_tbl :: "bool \<Rightarrow> 'n tbl" where
  "empty_tbl k = \<lparr>hp = empty_heap k, first = None, final = None\<rparr>"

text \<open>
  The search loop the components share:
  \<open>for(;;) { if(match) found; if(!cur->next) not found; prev = cur; cur = cur->next; }\<close>.
  It returns the previous node's address, the node's address and the node. The loop changes
  nothing, so after as many steps as there are allocated addresses it has met a node twice
  and runs forever: the fuel \<open>brk\<close> of the heap is exact.
\<close>

fun scan :: "nat \<Rightarrow> ('n \<Rightarrow> nat option) \<Rightarrow> ('n \<Rightarrow> bool) \<Rightarrow> 'n heap \<Rightarrow> nat option \<Rightarrow> nat option
    \<Rightarrow> (nat option \<times> nat \<times> 'n) option res" where
  "scan 0 nx P h prev cur = Inl Endless"
| "scan (Suc k) nx P h prev cur =
     (case cur of None \<Rightarrow> Inl NullDeref
      | Some a \<Rightarrow> bind_res (load h cur) (\<lambda>n.
          if P n then Inr (Some (prev, a, n))
          else case nx n of None \<Rightarrow> Inr None | Some b \<Rightarrow> scan k nx P h cur (Some b)))"

text \<open>
  The loop that frees every node of a table:
  \<open>for(;;) { next = cur->next; free(cur); if(next) cur = next; else break; }\<close>.
\<close>

fun free_nodes :: "nat \<Rightarrow> ('n \<Rightarrow> nat option) \<Rightarrow> 'n heap \<Rightarrow> nat option \<Rightarrow> 'n heap res" where
  "free_nodes 0 nx h cur = Inl Endless"
| "free_nodes (Suc k) nx h cur = bind_res (load h cur) (\<lambda>n.
     bind_res (hfree h cur) (\<lambda>h'.
       case nx n of None \<Rightarrow> Inr h' | Some b \<Rightarrow> free_nodes k nx h' (Some b)))"

text \<open>
  Appending a new node, as every component does it: the old last node's next pointer (or the
  first pointer of an empty table) is set to the new node, the new node's next pointer to
  null, and the last pointer to the new node.
\<close>

definition link_last :: "(nat option \<Rightarrow> 'n \<Rightarrow> 'n) \<Rightarrow> 'n tbl \<Rightarrow> nat \<Rightarrow> 'n tbl res" where
  "link_last setnx t new =
     bind_res
       (case first t of
          Some _ \<Rightarrow> bind_res (load (hp t) (final t)) (\<lambda>l.
             bind_res (hstore (hp t) (final t) (setnx (Some new) l)) (\<lambda>h. Inr (t\<lparr>hp := h\<rparr>)))
        | None \<Rightarrow> Inr (t\<lparr>first := Some new\<rparr>))
       (\<lambda>t1. bind_res (load (hp t1) (Some new)) (\<lambda>n.
          bind_res (hstore (hp t1) (Some new) (setnx None n)) (\<lambda>h.
            Inr (t1\<lparr>hp := h, final := Some new\<rparr>))))"

text \<open>
  Removing the node \<open>a\<close> found by \<open>scan\<close> behind \<open>prev\<close>, as \<open>kBufferGet\<close> and
  \<open>kRecvTimerRemove\<close> do it. Note that the last pointer is set to the previous node whether
  or not the removed node was the last one.
\<close>

definition unlink :: "('n \<Rightarrow> nat option) \<Rightarrow> (nat option \<Rightarrow> 'n \<Rightarrow> 'n) \<Rightarrow> 'n tbl \<Rightarrow> nat option \<Rightarrow> nat
    \<Rightarrow> 'n tbl res" where
  "unlink nx setnx t prev a = bind_res (load (hp t) (Some a)) (\<lambda>n.
     bind_res
       (case prev of
          Some p \<Rightarrow> bind_res (load (hp t) prev) (\<lambda>m.
             bind_res (hstore (hp t) prev (setnx (nx n) m)) (\<lambda>h.
               Inr (t\<lparr>hp := h, final := prev\<rparr>)))
        | None \<Rightarrow> Inr (t\<lparr>first := nx n\<rparr>))
       (\<lambda>t1. bind_res (hfree (hp t1) (Some a)) (\<lambda>h. Inr (t1\<lparr>hp := h\<rparr>))))"

lemmas table_op_defs [koi_simps] = link_last_def unlink_def empty_tbl_def

section \<open>What a table contains\<close>

text \<open>
  \<open>chain nx h p xs q\<close>: following the next pointers from \<open>p\<close> visits exactly the live
  nodes \<open>xs\<close> (address and node) and ends at the pointer \<open>q\<close>.
\<close>

fun chain :: "('n \<Rightarrow> nat option) \<Rightarrow> 'n heap \<Rightarrow> nat option \<Rightarrow> (nat \<times> 'n) list \<Rightarrow> nat option \<Rightarrow> bool" where
  "chain nx h p [] q \<longleftrightarrow> p = q"
| "chain nx h p ((a, n) # xs) q \<longleftrightarrow> p = Some a \<and> cells h a = Live n \<and> chain nx h (nx n) xs q"

lemma chain_append:
  "chain nx h p (xs @ ys) q \<longleftrightarrow> (\<exists>r. chain nx h p xs r \<and> chain nx h r ys q)"
  by (induction xs arbitrary: p) auto

lemma chain_unique:
  "chain nx h p xs None \<Longrightarrow> chain nx h p ys None \<Longrightarrow> xs = ys"
proof (induction xs arbitrary: p ys)
  case Nil
  then show ?case by (cases ys) auto
next
  case (Cons x xs)
  then show ?case by (cases x; cases ys) auto
qed

lemma chain_head_not_in_tail:
  assumes "chain nx h (Some a) ((a, n) # xs) None"
  shows "a \<notin> fst ` set xs"
proof
  assume "a \<in> fst ` set xs"
  then obtain m ys zs where xs: "xs = ys @ (a, m) # zs"
    by (fastforce simp: in_set_conv_decomp)
  with assms have "chain nx h (Some a) ((a, m) # zs) None"
    by (auto simp: chain_append)
  with assms have "(a, n) # xs = (a, m) # zs"
    by (rule chain_unique)
  with xs show False by (auto dest: arg_cong [of _ _ length])
qed

lemma chain_distinct: "chain nx h p xs None \<Longrightarrow> distinct (map fst xs)"
proof (induction xs arbitrary: p)
  case (Cons x xs)
  then show ?case
    using chain_head_not_in_tail [of nx h "fst x" "snd x" xs] by (cases x) auto
qed simp

lemma chain_live: "chain nx h p xs q \<Longrightarrow> (a, n) \<in> set xs \<Longrightarrow> cells h a = Live n"
  by (induction xs arbitrary: p) auto

lemma chain_frame:
  "a \<notin> fst ` set xs \<Longrightarrow>
   chain nx (h\<lparr>cells := (cells h)(a := ob)\<rparr>) p xs q = chain nx h p xs q"
  by (induction xs arbitrary: p) auto

text \<open>Overwriting a node without changing its next pointer.\<close>

lemma chain_set:
  assumes "chain nx h p (us @ (a, n) # ws) q" "nx n' = nx n" "a \<notin> fst ` set us" "a \<notin> fst ` set ws"
  shows "chain nx (h\<lparr>cells := (cells h)(a := Live n')\<rparr>) p (us @ (a, n') # ws) q"
  using assms by (auto simp: chain_append chain_frame)

lemma chain_cells_cong:
  "(\<And>a n. (a, n) \<in> set xs \<Longrightarrow> cells h' a = cells h a) \<Longrightarrow>
   chain nx h' p xs q = chain nx h p xs q"
proof (induction xs arbitrary: p)
  case (Cons x xs)
  obtain a n where x: "x = (a, n)" by (cases x)
  have "cells h' a = cells h a" using Cons.prems [of a n] x by simp
  moreover have "chain nx h' (nx n) xs q = chain nx h (nx n) xs q"
    by (rule Cons.IH) (use Cons.prems in auto)
  ultimately show ?case by (simp add: x)
qed simp

lemma chain_length:
  assumes "heap_ok h" "chain nx h p xs None"
  shows "length xs \<le> brk h"
proof -
  have "fst ` set xs \<subseteq> {..< brk h}"
    using assms by (auto dest!: chain_live heap_ok_live)
  then have "card (fst ` set xs) \<le> card {..< brk h}"
    by (rule card_mono [rotated]) simp
  moreover have "card (fst ` set xs) = length xs"
    using distinct_card [OF chain_distinct [OF assms(2)]] by simp
  ultimately show ?thesis by simp
qed

text \<open>The first matching element of a list, with the address before it.\<close>

fun seek :: "('n \<Rightarrow> bool) \<Rightarrow> nat option \<Rightarrow> (nat \<times> 'n) list \<Rightarrow> (nat option \<times> nat \<times> 'n) option" where
  "seek P prev [] = None"
| "seek P prev ((a, n) # xs) = (if P n then Some (prev, a, n) else seek P (Some a) xs)"

lemma seek_None: "seek P prev xs = None \<longleftrightarrow> (\<forall>x \<in> set xs. \<not> P (snd x))"
proof (induction xs arbitrary: prev)
  case (Cons x xs)
  then show ?case by (cases x) auto
qed simp

lemma seek_SomeD:
  assumes "seek P prev xs = Some (r, a, n)"
  obtains ys zs where "xs = ys @ (a, n) # zs" "P n" "\<forall>x \<in> set ys. \<not> P (snd x)"
    "r = (if ys = [] then prev else Some (fst (last ys)))"
  using assms
proof (induction xs arbitrary: prev thesis)
  case (Cons x xs)
  obtain b m where x: "x = (b, m)" by (cases x)
  show ?case
  proof (cases "P m")
    case True
    with Cons.prems x show ?thesis
      using Cons.prems(1) [of "[]" xs] by auto
  next
    case False
    with Cons.prems(2) x have "seek P (Some b) xs = Some (r, a, n)" by simp
    then obtain ys zs where *: "xs = ys @ (a, n) # zs" "P n" "\<forall>x \<in> set ys. \<not> P (snd x)"
      "r = (if ys = [] then Some b else Some (fst (last ys)))"
      using Cons.IH by blast
    then show ?thesis
      using Cons.prems(1) [of "x # ys" zs] False x by auto
  qed
qed simp

lemma seek_split:
  assumes "\<forall>x \<in> set ys. \<not> P (snd x)" "P n"
  shows "seek P prev (ys @ (a, n) # zs) =
     Some (if ys = [] then prev else Some (fst (last ys)), a, n)"
  using assms by (induction ys arbitrary: prev) auto

lemma scan_chain:
  assumes "chain nx h p xs None" "xs \<noteq> []" "length xs \<le> k"
  shows "scan k nx P h prev p = Inr (seek P prev xs)"
  using assms
proof (induction xs arbitrary: k p prev)
  case (Cons x xs)
  obtain a n where x: "x = (a, n)" by (cases x)
  obtain k' where k: "k = Suc k'" using Cons.prems(3) by (cases k) auto
  show ?case
  proof (cases xs)
    case Nil
    with Cons.prems x k show ?thesis by auto
  next
    case (Cons y ys)
    obtain b m where y: "y = (b, m)" by (cases y)
    have "scan k' nx P h (Some a) (Some b) = Inr (seek P (Some a) xs)"
      using Cons.IH [of "nx n" k' "Some a"] Cons.prems x k Cons y by auto
    with Cons.prems x k Cons y show ?thesis by auto
  qed
qed simp


text \<open>
  The content of a table, computed: the live nodes met from the first pointer on. For a table
  that is a chain these are its nodes.
\<close>

fun nodes_from :: "nat \<Rightarrow> ('n \<Rightarrow> nat option) \<Rightarrow> 'n heap \<Rightarrow> nat option \<Rightarrow> (nat \<times> 'n) list" where
  "nodes_from 0 nx h p = []"
| "nodes_from (Suc k) nx h p = (case p of None \<Rightarrow> []
     | Some a \<Rightarrow> (case cells h a of Live n \<Rightarrow> (a, n) # nodes_from k nx h (nx n) | _ \<Rightarrow> []))"

definition nodes :: "('n \<Rightarrow> nat option) \<Rightarrow> 'n tbl \<Rightarrow> (nat \<times> 'n) list" where
  "nodes nx t = nodes_from (brk (hp t)) nx (hp t) (first t)"

lemma nodes_from_chain:
  "chain nx h p xs None \<Longrightarrow> length xs \<le> k \<Longrightarrow> nodes_from k nx h p = xs"
proof (induction xs arbitrary: k p)
  case Nil
  then show ?case by (cases k) auto
next
  case (Cons x xs)
  then show ?case by (cases x; cases k) auto
qed

lemma free_nodes_chain:
  assumes "chain nx h p xs None" "xs \<noteq> []" "length xs \<le> k" "heap_ok h"
  shows "\<exists>h'. free_nodes k nx h p = Inr h' \<and> heap_ok h' \<and> brk h' = brk h \<and>
     keeps_freed h' = keeps_freed h \<and>
     (\<forall>a. cells h' a = (if a \<in> fst ` set xs then Freed (the (map_of xs a)) else cells h a))"
  using assms
proof (induction xs arbitrary: k p h)
  case (Cons x xs)
  obtain a n where x: "x = (a, n)" by (cases x)
  obtain k' where k: "k = Suc k'" using Cons.prems(3) by (cases k) auto
  let ?h = "h\<lparr>cells := (cells h)(a := Freed n)\<rparr>"
  have p: "p = Some a" and live: "cells h a = Live n" and c: "chain nx h (nx n) xs None"
    using Cons.prems(1) x by auto
  have a: "a \<notin> fst ` set xs"
    using chain_distinct [OF Cons.prems(1)] x by auto
  have hok: "heap_ok ?h" using Cons.prems(4) live by (simp add: heap_ok_live)
  show ?case
  proof (cases xs)
    case Nil
    with p live c k x hok show ?thesis by auto
  next
    case (Cons y ys)
    obtain b m where y: "y = (b, m)" by (cases y)
    have "chain nx ?h (nx n) xs None" using c a by (simp add: chain_frame)
    from Cons.IH [OF this _ _ hok, of k'] Cons Cons.prems(3) k obtain h' where
      h': "free_nodes k' nx ?h (nx n) = Inr h'" "heap_ok h'" "brk h' = brk h"
        "keeps_freed h' = keeps_freed h"
        "\<forall>c. cells h' c = (if c \<in> fst ` set xs then Freed (the (map_of xs c)) else cells ?h c)"
      by auto
    have nx: "nx n = Some b" using c Cons y by simp
    show ?thesis using h' p live k x a nx by auto
  qed
qed simp

section \<open>The node interface and the laws of the table operations\<close>

text \<open>
  A table is in order when its heap is, its next pointers lead from the first node to null,
  and its last pointer, unless the table is empty, points to the last of these nodes.
\<close>

definition tbl_chain :: "('n \<Rightarrow> nat option) \<Rightarrow> 'n tbl \<Rightarrow> (nat \<times> 'n) list \<Rightarrow> bool" where
  "tbl_chain nx t xs \<longleftrightarrow> heap_ok (hp t) \<and> chain nx (hp t) (first t) xs None"

definition tbl_ok :: "('n \<Rightarrow> nat option) \<Rightarrow> 'n tbl \<Rightarrow> (nat \<times> 'n) list \<Rightarrow> bool" where
  "tbl_ok nx t xs \<longleftrightarrow>
     tbl_chain nx t xs \<and> (xs \<noteq> [] \<longrightarrow> final t = Some (fst (last xs)))"

lemma tbl_okD:
  assumes "tbl_ok nx t xs"
  shows "tbl_chain nx t xs" "heap_ok (hp t)" "chain nx (hp t) (first t) xs None"
    "xs \<noteq> [] \<Longrightarrow> final t = Some (fst (last xs))"
  using assms by (auto simp: tbl_ok_def tbl_chain_def)

lemma tbl_chain_nodes: "tbl_chain nx t xs \<Longrightarrow> nodes nx t = xs"
  by (auto simp: tbl_chain_def nodes_def intro!: nodes_from_chain chain_length)

lemma tbl_ok_nodes: "tbl_ok nx t xs \<Longrightarrow> nodes nx t = xs"
  by (simp add: tbl_ok_def tbl_chain_nodes)

lemma tbl_chain_first: "tbl_chain nx t xs \<Longrightarrow> first t = None \<longleftrightarrow> xs = []"
  by (cases xs) (auto simp: tbl_chain_def)

lemma tbl_ok_empty [simp]: "tbl_ok nx (empty_tbl k) xs \<longleftrightarrow> xs = []"
  by (cases xs) (auto simp: tbl_ok_def tbl_chain_def empty_tbl_def empty_heap_def heap_ok_def)

lemma scan_tbl:
  assumes "tbl_chain nx t xs" "xs \<noteq> []"
  shows "scan (brk (hp t)) nx P (hp t) None (first t) = Inr (seek P None xs)"
  using assms chain_length by (auto simp: tbl_chain_def intro!: scan_chain)

lemma chain_search:
  assumes "tbl_chain nx t xs"
  shows "(case first t of Some _ \<Rightarrow> scan (brk (hp t)) nx P (hp t) None (first t)
     | None \<Rightarrow> Inr None) = Inr (seek P None xs)"
  using scan_tbl [OF assms] tbl_chain_first [OF assms] by (cases "xs = []") auto

definition fresh_in :: "'n tbl \<Rightarrow> (nat \<times> 'n) list \<Rightarrow> nat \<Rightarrow> 'n \<Rightarrow> bool" where
  "fresh_in t xs a n \<longleftrightarrow> cells (hp t) a = Live n \<and> a \<notin> fst ` set xs"

text \<open>Allocating a node leaves the table as it was and provides a fresh node.\<close>

lemma halloc_chain:
  assumes "tbl_chain nx t xs" "halloc n (hp t) = (a, h)"
  shows "tbl_chain nx (t\<lparr>hp := h\<rparr>) xs" "fresh_in (t\<lparr>hp := h\<rparr>) xs a n"
    "keeps_freed h = keeps_freed (hp t)"
proof -
  from assms(2) have a: "a = brk (hp t)"
    and h: "h = (hp t)\<lparr>cells := (cells (hp t))(a := Live n), brk := Suc a\<rparr>"
    by (auto simp: halloc_def)
  have hok: "heap_ok (hp t)" "chain nx (hp t) (first t) xs None"
    using assms(1) by (auto simp: tbl_chain_def)
  then have notin: "a \<notin> fst ` set xs"
    using a by (auto dest!: chain_live heap_ok_live)
  have "chain nx h (first t) xs None = chain nx (hp t) (first t) xs None"
    using notin h by (intro chain_cells_cong) force
  moreover have "heap_ok h"
    using hok(1) a h by (auto simp: heap_ok_def)
  ultimately show "tbl_chain nx (t\<lparr>hp := h\<rparr>) xs"
    using hok by (simp add: tbl_chain_def)
  show "fresh_in (t\<lparr>hp := h\<rparr>) xs a n" "keeps_freed h = keeps_freed (hp t)"
    using notin h by (auto simp: fresh_in_def)
qed

lemma halloc_tbl:
  assumes "tbl_ok nx t xs" "halloc n (hp t) = (a, h)"
  shows "tbl_ok nx (t\<lparr>hp := h\<rparr>) xs" "fresh_in (t\<lparr>hp := h\<rparr>) xs a n"
    "keeps_freed h = keeps_freed (hp t)"
  using assms halloc_chain [OF tbl_okD(1) [OF assms(1)] assms(2)] by (auto simp: tbl_ok_def)

lemma tbl_chain_set:
  assumes "tbl_chain nx t (us @ (a, n) # ws)" "nx n' = nx n"
  shows "tbl_chain nx (t\<lparr>hp := (hp t)\<lparr>cells := (cells (hp t))(a := Live n')\<rparr>\<rparr>) (us @ (a, n') # ws)"
proof -
  from assms(1) have hok: "heap_ok (hp t)" and c: "chain nx (hp t) (first t) (us @ (a, n) # ws) None"
    by (auto simp: tbl_chain_def)
  from chain_distinct [OF c] have "a \<notin> fst ` set us" "a \<notin> fst ` set ws" by auto
  moreover from c have "cells (hp t) a = Live n" by (auto simp: chain_append)
  ultimately show ?thesis
    using chain_set [OF c assms(2)] hok by (auto simp: tbl_chain_def heap_ok_live)
qed

text \<open>The nodes of a table after the next pointer of the last one was redirected.\<close>

definition relink :: "(nat option \<Rightarrow> 'n \<Rightarrow> 'n) \<Rightarrow> nat option \<Rightarrow> (nat \<times> 'n) list \<Rightarrow> (nat \<times> 'n) list" where
  "relink setnx q xs = (if xs = [] then []
     else butlast xs @ [(fst (last xs), setnx q (snd (last xs)))])"

lemma relink_Nil [simp]: "relink setnx q [] = []"
  by (simp add: relink_def)

lemma relink_snoc [simp]: "relink setnx q (xs @ [x]) = xs @ [(fst x, setnx q (snd x))]"
  by (simp add: relink_def)

lemma map_fst_relink [simp]: "map fst (relink setnx q xs) = map fst xs"
  by (cases xs rule: rev_cases) auto

lemma relink_eq_Nil [simp]: "relink setnx q xs = [] \<longleftrightarrow> xs = []"
  by (cases xs rule: rev_cases) auto

lemma length_relink [simp]: "length (relink setnx q xs) = length xs"
  by (cases xs rule: rev_cases) auto

text \<open>
  The interface of a node struct: its next pointer can be read and written, and writing it
  leaves the payload (every other field) alone. Each component provides it for its struct.
\<close>

locale linked_node =
  fixes nx :: "'n \<Rightarrow> nat option"
    and setnx :: "nat option \<Rightarrow> 'n \<Rightarrow> 'n"
    and pay :: "'n \<Rightarrow> 'p"
  assumes nx_setnx: "nx (setnx q n) = q"
    and pay_setnx: "pay (setnx q n) = pay n"
begin

lemma pay_relink: "map (pay \<circ> snd) (relink setnx q xs) = map (pay \<circ> snd) xs"
  by (cases xs rule: rev_cases) (auto simp: pay_setnx)

lemma chain_relink:
  assumes "chain nx h p (xs @ [(a, n)]) r" "a \<notin> fst ` set xs"
  shows "chain nx (h\<lparr>cells := (cells h)(a := Live (setnx q n))\<rparr>) p (xs @ [(a, setnx q n)]) q"
  using assms by (auto simp: chain_append chain_frame nx_setnx)

text \<open>
  Appending behind the node the last pointer points to, wherever that node is: everything
  behind it is cut off.
\<close>

lemma link_last_at:
  assumes ch: "tbl_chain nx t (us @ (b, m) # ws)" and fin: "final t = Some b"
    and fresh: "fresh_in t (us @ (b, m) # ws) a n"
  shows "\<exists>t'. link_last setnx t a = Inr t' \<and>
     tbl_ok nx t' (us @ [(b, setnx (Some a) m), (a, setnx None n)]) \<and>
     keeps_freed (hp t') = keeps_freed (hp t)"
proof -
  from ch have hok: "heap_ok (hp t)" and c: "chain nx (hp t) (first t) (us @ (b, m) # ws) None"
    by (auto simp: tbl_chain_def)
  from c have b: "cells (hp t) b = Live m" and bn: "b \<notin> fst ` set us"
    and pre: "chain nx (hp t) (first t) (us @ [(b, m)]) (nx m)"
    using chain_distinct [OF c] by (auto simp: chain_append)
  from fresh have a: "cells (hp t) a = Live n" "a \<notin> fst ` set us" "a \<noteq> b"
    by (auto simp: fresh_in_def)
  let ?h1 = "(hp t)\<lparr>cells := (cells (hp t))(b := Live (setnx (Some a) m))\<rparr>"
  let ?h2 = "?h1\<lparr>cells := (cells ?h1)(a := Live (setnx None n))\<rparr>"
  have "chain nx ?h1 (first t) (us @ [(b, setnx (Some a) m)]) (Some a)"
    using chain_relink [OF pre bn, of "Some a"] .
  then have "chain nx ?h2 (first t) (us @ [(b, setnx (Some a) m)]) (Some a)"
    using a by (subst chain_frame) auto
  then have "chain nx ?h2 (first t) ((us @ [(b, setnx (Some a) m)]) @ [(a, setnx None n)]) None"
    unfolding chain_append by (auto simp: nx_setnx)
  moreover have "first t \<noteq> None"
    using tbl_chain_first [OF ch] by simp
  moreover have "heap_ok ?h2"
    using a b heap_ok_live [OF hok] by (simp add: heap_ok_upd2 hok)
  ultimately show ?thesis
    using fin a b by (auto simp: link_last_def tbl_ok_def tbl_chain_def)
qed

lemma link_last_ok:
  assumes ok: "tbl_ok nx t xs" and fresh: "fresh_in t xs a n"
  shows "\<exists>t'. link_last setnx t a = Inr t' \<and>
     tbl_ok nx t' (relink setnx (Some a) xs @ [(a, setnx None n)]) \<and>
     keeps_freed (hp t') = keeps_freed (hp t)"
proof (cases xs rule: rev_cases)
  case Nil
  with ok fresh show ?thesis
    by (auto simp: link_last_def tbl_ok_def tbl_chain_def fresh_in_def nx_setnx
        intro: heap_ok_upd heap_ok_live)
next
  case (snoc ys y)
  with ok fresh show ?thesis
    using link_last_at [of t ys "fst y" "snd y" "[]" a n] tbl_okD [OF ok] by auto
qed

lemma unlink_ok:
  assumes ch: "tbl_chain nx t (ys @ (a, n) # zs)"
    and prev: "prev = (if ys = [] then None else Some (fst (last ys)))"
  shows "\<exists>t'. unlink nx setnx t prev a = Inr t' \<and>
     tbl_chain nx t' (relink setnx (nx n) ys @ zs) \<and>
     final t' = (if ys = [] then final t else prev) \<and>
     cells (hp t') a = Freed n \<and> keeps_freed (hp t') = keeps_freed (hp t)"
proof -
  from ch have hok: "heap_ok (hp t)" and c: "chain nx (hp t) (first t) (ys @ (a, n) # zs) None"
    by (auto simp: tbl_chain_def)
  from chain_distinct [OF c]
  have dist: "a \<notin> fst ` set ys" "a \<notin> fst ` set zs" "fst ` set ys \<inter> fst ` set zs = {}"
    "distinct (map fst ys)" by auto
  from c have a: "cells (hp t) a = Live n" by (auto simp: chain_append)
  from c have zs: "chain nx (hp t) (nx n) zs None" by (auto simp: chain_append)
  show ?thesis
  proof (cases ys rule: rev_cases)
    case Nil
    with hok a zs dist prev show ?thesis
      by (auto simp: unlink_def tbl_chain_def chain_frame intro: heap_ok_upd heap_ok_live)
  next
    case (snoc us u)
    obtain b m where u: "u = (b, m)" by (cases u)
    from snoc u prev have p: "prev = Some b" by simp
    from snoc u dist have ab: "a \<noteq> b" "b \<notin> fst ` set us" "b \<notin> fst ` set zs" by auto
    from c snoc u have b: "cells (hp t) b = Live m" by (auto simp: chain_append)
    let ?h1 = "(hp t)\<lparr>cells := (cells (hp t))(b := Live (setnx (nx n) m))\<rparr>"
    let ?h2 = "?h1\<lparr>cells := (cells ?h1)(a := Freed n)\<rparr>"
    have "chain nx (hp t) (first t) (us @ [(b, m)]) (Some a)"
      using c snoc u by (auto simp: chain_append)
    from chain_relink [OF this ab(2), of "nx n"]
    have "chain nx ?h2 (first t) (us @ [(b, setnx (nx n) m)]) (nx n)"
      using dist snoc u ab by (subst chain_frame) auto
    moreover have "chain nx ?h2 (nx n) zs None = chain nx (hp t) (nx n) zs None"
    proof (rule chain_cells_cong)
      fix c k assume "(c, k) \<in> set zs"
      then have "c \<in> fst ` set zs" by (rule image_eqI [rotated]) simp
      with dist(2) ab(3) show "cells ?h2 c = cells (hp t) c" by auto
    qed
    with zs have "chain nx ?h2 (nx n) zs None" by simp
    ultimately have "chain nx ?h2 (first t) ((us @ [(b, setnx (nx n) m)]) @ zs) None"
      unfolding chain_append by blast
    moreover have "heap_ok ?h2"
      using a b heap_ok_live [OF hok] by (simp add: heap_ok_upd2 hok)
    ultimately show ?thesis
      using snoc u p a b ab by (auto simp: unlink_def tbl_chain_def)
  qed
qed

text \<open>
  Unlinking keeps the whole table in order when the removed node is the first or the last
  one; otherwise the last pointer is left on a node in the middle.
\<close>

lemma unlink_tbl_ok:
  assumes ok: "tbl_ok nx t (ys @ (a, n) # zs)" and "ys = [] \<or> zs = []"
    and prev: "prev = (if ys = [] then None else Some (fst (last ys)))"
  shows "\<exists>t'. unlink nx setnx t prev a = Inr t' \<and> tbl_ok nx t' (relink setnx (nx n) ys @ zs)"
proof -
  from unlink_ok [OF tbl_okD(1) [OF ok] prev] obtain t' where
    t': "unlink nx setnx t prev a = Inr t'" "tbl_chain nx t' (relink setnx (nx n) ys @ zs)"
      "final t' = (if ys = [] then final t else prev)" by blast
  have "relink setnx (nx n) ys @ zs \<noteq> [] \<longrightarrow>
      final t' = Some (fst (last (relink setnx (nx n) ys @ zs)))"
    using assms(2) t'(3) tbl_okD(4) [OF ok] prev by (auto simp: relink_def)
  with t' show ?thesis by (auto simp: tbl_ok_def)
qed

end

end
