(* ===== verification/KParser.thy ===== *)
theory KParser
  imports Koi_Prelude
begin

text \<open>
  \<open>lib/kParser\<close>: the table that maps a payload type to the function that cuts one message out
  of a TCP byte stream, and the DNS, NULL, UDP/DNS, IKEv2 and KINK parsers. The SIP parser rests
  on POSIX regular expressions; the compiled patterns are parameters of its model.
\<close>

section \<open>State\<close>

text \<open>
  A function pointer of type \<open>int (*)(long, unsigned char *, unsigned char **, short *)\<close>:
  one of the built-in parsers, a symbol that \<open>dlsym\<close> returned, or four bytes that were never
  a function's address. The null pointer is \<open>None\<close> of \<open>parser_fn option\<close>.
\<close>

datatype parser_fn = FnSIP | FnNULL | FnDNS | FnUDPDNS | FnIKEv2 | FnKINK | FnDl nat | FnWild "byte list"

record parser_info =
  pi_peyload_type :: int
  pi_parser :: "parser_fn option"
  pi_attachhandle :: "nat option"

definition P_SIP :: int where "P_SIP = 1"
definition P_NULL :: int where "P_NULL = 2"
definition P_DNS :: int where "P_DNS = 3"
definition P_IKEv2 :: int where "P_IKEv2 = 5"
definition P_UDPDNS :: int where "P_UDPDNS = 6"
definition P_KINK :: int where "P_KINK = 7"
definition P_MAXNUMBER :: nat where "P_MAXNUMBER = 20"

definition PA_ERROR :: int where "PA_ERROR = -1"
definition PA_JUSTONE :: int where "PA_JUSTONE = 0"
definition PA_LEFTDATA :: int where "PA_LEFTDATA = 1"
definition PA_NOMATCH :: int where "PA_NOMATCH = 2"

lemmas parser_consts [koi_simps] = P_SIP_def P_NULL_def P_DNS_def P_IKEv2_def P_UDPDNS_def
  P_KINK_def P_MAXNUMBER_def

lemmas pa_consts [simp] = PA_ERROR_def PA_JUSTONE_def PA_LEFTDATA_def PA_NOMATCH_def

text \<open>The array \<open>g_pi_table\<close>.\<close>

type_synonym pi_table = "parser_info list"

section \<open>Operations on the table\<close>

definition kParserGet :: "int \<Rightarrow> pi_table \<Rightarrow> parser_fn option option" where
  "kParserGet keyword t = map_option pi_parser (List.find (\<lambda>p. pi_peyload_type p = keyword) t)"

definition kParserClear :: "pi_table \<Rightarrow> pi_table" where
  "kParserClear t = map (\<lambda>p. p\<lparr>pi_peyload_type := -1\<rparr>) t"

text \<open>
  One pass over the array remembers the first empty slot and stops at a slot that already has
  the keyword: \<open>None\<close> for the latter, otherwise \<open>emp_point\<close>.
\<close>

fun set_scan :: "int \<Rightarrow> nat \<Rightarrow> int \<Rightarrow> pi_table \<Rightarrow> int option" where
  "set_scan keyword counter emp_point [] = Some emp_point"
| "set_scan keyword counter emp_point (p # t) =
     (let emp = (if pi_peyload_type p = -1 \<and> emp_point < 0 then int counter else emp_point) in
      if pi_peyload_type p = keyword then None else set_scan keyword (Suc counter) emp t)"

text \<open>The payload type is stored in a \<open>short\<close>.\<close>

definition kParserSet ::
    "int \<Rightarrow> parser_fn option \<Rightarrow> nat option \<Rightarrow> pi_table \<Rightarrow> bool \<times> pi_table" where
  "kParserSet keyword parser attachhandle t =
     (if parser = None then (False, t)
      else if keyword < 1 then (False, t)
      else case set_scan keyword 0 (-1) t of
        None \<Rightarrow> (False, t)
      | Some emp_point \<Rightarrow>
          if emp_point < 0 then (False, t)
          else (True, t[nat emp_point := \<lparr>pi_peyload_type = short_of keyword, pi_parser = parser,
                  pi_attachhandle = attachhandle\<rparr>]))"

text \<open>\<open>dlopen\<close> and \<open>dlsym\<close> are parameters.\<close>

definition kParserSet2 :: "(string \<Rightarrow> nat option) \<Rightarrow> (nat \<Rightarrow> string \<Rightarrow> parser_fn option) \<Rightarrow>
    int \<Rightarrow> string \<Rightarrow> string \<Rightarrow> pi_table \<Rightarrow> bool \<times> pi_table" where
  "kParserSet2 dlopen dlsym keyword parsername modulepath t =
     (case dlopen modulepath of
        None \<Rightarrow> (False, t)
      | Some attachhandle \<Rightarrow>
          (case dlsym attachhandle parsername of
             None \<Rightarrow> (False, t)
           | Some parser \<Rightarrow>
               let (ok, t') = kParserSet keyword (Some parser) (Some attachhandle) t in
               if \<not> ok then (False, t') else (True, t')))"

text \<open>
  Deleting also closes the shared object the parser came from: the second component is the
  handle given to \<open>dlclose\<close>, if any.
\<close>

fun kParserDelete :: "int \<Rightarrow> pi_table \<Rightarrow> bool \<times> nat option \<times> pi_table" where
  "kParserDelete keyword [] = (False, None, [])"
| "kParserDelete keyword (p # t) =
     (if pi_peyload_type p = keyword
      then (True, pi_attachhandle p,
            \<lparr>pi_peyload_type = -1, pi_parser = None, pi_attachhandle = None\<rparr> # t)
      else let (ok, closed, t') = kParserDelete keyword t in (ok, closed, p # t'))"

text \<open>The table after \<open>memset(g_pi_table, 0, sizeof(g_pi_table))\<close>.\<close>

definition pi_zero :: pi_table where
  "pi_zero = replicate P_MAXNUMBER \<lparr>pi_peyload_type = 0, pi_parser = None, pi_attachhandle = None\<rparr>"

fun set_all :: "(int \<times> parser_fn) list \<Rightarrow> pi_table \<Rightarrow> bool \<times> pi_table" where
  "set_all [] t = (True, t)"
| "set_all ((k, f) # ks) t =
     (let (ok, t') = kParserSet k (Some f) None t in if \<not> ok then (False, t') else set_all ks t')"

definition kParserInit :: "pi_table \<Rightarrow> bool \<times> pi_table" where
  "kParserInit t = set_all [(P_NULL, FnNULL), (P_SIP, FnSIP), (P_DNS, FnDNS),
      (P_UDPDNS, FnUDPDNS), (P_IKEv2, FnIKEv2), (P_KINK, FnKINK)] (kParserClear pi_zero)"

lemmas kparser_defs [koi_simps] = kParserGet_def kParserClear_def kParserSet_def
  kParserSet2_def pi_zero_def kParserInit_def

section \<open>The parsers\<close>

text \<open>
  A parser returns its verdict and, when it writes them, the offset of the message in
  \<open>indata\<close> and its size; \<open>indata\<close> is the whole buffer the pointer leads into, of which
  the first \<open>indatalen\<close> bytes hold received data.
\<close>

type_synonym parse_result = "int \<times> (nat \<times> int) option"

definition kParserNULL :: "int \<Rightarrow> byte list \<Rightarrow> parse_result res" where
  "kParserNULL indatalen indata = Inr (PA_JUSTONE, None)"

definition kParserUDPDNS :: "int \<Rightarrow> byte list \<Rightarrow> parse_result res" where
  "kParserUDPDNS indatalen indata = Inr (PA_JUSTONE, None)"

definition kParserIKEv2 :: "int \<Rightarrow> byte list \<Rightarrow> parse_result res" where
  "kParserIKEv2 indatalen indata = Inr (PA_JUSTONE, None)"

definition kParserKINK :: "int \<Rightarrow> byte list \<Rightarrow> parse_result res" where
  "kParserKINK indatalen indata = Inr (PA_JUSTONE, None)"

text \<open>
  \<open>memcpy\<close> reads four bytes whatever \<open>indatalen\<close> is; \<open>ntohs\<close> takes the low 16 bits of
  the little-endian \<open>int\<close>, the first two bytes, and swaps them. The message length plus two
  goes to a \<open>short\<close>.
\<close>

definition kParserDNS :: "int \<Rightarrow> byte list \<Rightarrow> parse_result res" where
  "kParserDNS indatalen indata =
     (if length indata < 4 then Inl OutOfBounds
      else let h_messagelen = uint (indata ! 0) * 256 + uint (indata ! 1) in
        if h_messagelen + 2 > indatalen then Inr (PA_NOMATCH, None)
        else Inr (if h_messagelen + 2 < indatalen then PA_LEFTDATA else PA_JUSTONE,
                  Some (0, short_of (h_messagelen + 2))))"

lemmas kparser_fun_defs [koi_simps] =
  kParserNULL_def kParserUDPDNS_def kParserIKEv2_def kParserKINK_def kParserDNS_def

text \<open>
  The SIP parser. \<open>re1\<close>, \<open>re2\<close> and \<open>re3\<close> stand for \<open>regexec\<close> with the compiled patterns
  \<open>SIPPAT1\<close>, \<open>SIPPAT2\<close> and \<open>SIPPAT3\<close>: \<open>None\<close> for no match, otherwise the array
  \<open>match\<close> of start and end offsets. \<open>regexec\<close> reads a C string.
\<close>

type_synonym regexec = "byte list \<Rightarrow> (int \<times> int) list option"

definition cstring_at :: "byte list \<Rightarrow> int \<Rightarrow> byte list res" where
  "cstring_at buf i = (if i < 0 \<or> 0 \<notin> set (drop (nat i) buf) then Inl OutOfBounds
     else Inr (takeWhile (\<lambda>b. b \<noteq> 0) (drop (nat i) buf)))"

text \<open>\<open>atoi\<close>: white space, an optional sign, digits; out of range values are clamped.\<close>

fun digits_val :: "int \<Rightarrow> byte list \<Rightarrow> int" where
  "digits_val acc [] = acc"
| "digits_val acc (b # bs) =
     (if 48 \<le> uint b \<and> uint b \<le> 57 then digits_val (acc * 10 + (uint b - 48)) bs else acc)"

fun atoi :: "byte list \<Rightarrow> int" where
  "atoi [] = 0"
| "atoi (b # bs) =
     (if b = 32 \<or> (9 \<le> uint b \<and> uint b \<le> 13) then atoi bs
      else if b = 45 then max (-2147483648) (- digits_val 0 bs)
      else if b = 43 then min 2147483647 (digits_val 0 bs)
      else min 2147483647 (digits_val 0 (b # bs)))"

text \<open>The loops that look for an empty line among the offsets from \<open>i\<close> on.\<close>

definition CRLF2 :: "byte list" where
  "CRLF2 = [13, 10, 13, 10]"

fun find_crlf2 :: "nat \<Rightarrow> byte list \<Rightarrow> int \<Rightarrow> int option res" where
  "find_crlf2 0 indata i = Inr None"
| "find_crlf2 (Suc n) indata i =
     (if i < 0 \<or> nat i + 4 > length indata then Inl OutOfBounds
      else if take 4 (drop (nat i) indata) = CRLF2 then Inr (Some i)
      else find_crlf2 n indata (i + 1))"

text \<open>What follows the header when there is no usable Content-Length.\<close>

definition sip_no_length :: "regexec \<Rightarrow> byte list \<Rightarrow> int \<Rightarrow> int \<Rightarrow> int \<Rightarrow> parse_result res" where
  "sip_no_length re3 indata startPos endPos bodyPos =
     bind_res (cstring_at indata bodyPos) (\<lambda>body.
       case re3 body of
         Some m \<Rightarrow> Inr (PA_LEFTDATA, Some (nat startPos, short_of (bodyPos + fst (m ! 2) - startPos)))
       | None \<Rightarrow> bind_res (find_crlf2 (nat (endPos - bodyPos)) indata bodyPos) (\<lambda>r.
           case r of
             Some i \<Rightarrow> Inr (PA_LEFTDATA, Some (nat startPos, short_of (i - startPos + 2)))
           | None \<Rightarrow> Inr (PA_JUSTONE, Some (nat startPos, short_of (endPos - startPos)))))"

text \<open>
  The Content-Length branch: the digits and the character behind them are copied to
  \<open>tmpBuff[256]\<close> and a 0 is stored behind them.
\<close>

definition sip_with_length ::
    "byte list \<Rightarrow> int \<Rightarrow> int \<Rightarrow> int \<Rightarrow> int \<Rightarrow> int \<Rightarrow> int \<Rightarrow> parse_result res" where
  "sip_with_length indata indatalen startPos endPos bodyPos so eo =
     (let n = eo - so + 1 in
      if n < 0 \<or> n \<ge> 256 then Inl BufferOverflow
      else if startPos + so < 0 \<or> startPos + so + n > int (length indata) then Inl OutOfBounds
      else let contentLen = atoi (take (nat n) (drop (nat (startPos + so)) indata));
               total = long_of (bodyPos + contentLen) in
        if total < indatalen
        then Inr (PA_LEFTDATA, Some (nat startPos, short_of (total - startPos)))
        else if total = indatalen
        then Inr (PA_JUSTONE, Some (nat startPos, short_of (total - startPos)))
        else Inr (PA_NOMATCH, Some (nat startPos, short_of (endPos - startPos))))"

definition kParserSIP ::
    "regexec \<Rightarrow> regexec \<Rightarrow> regexec \<Rightarrow> int \<Rightarrow> byte list \<Rightarrow> parse_result res" where
  "kParserSIP re1 re2 re3 indatalen indata =
     (if indatalen = 0 then Inr (PA_ERROR, None)
      else bind_res (cstring_at indata 0) (\<lambda>str.
        case re1 str of
          None \<Rightarrow> Inr (PA_NOMATCH, None)
        | Some m \<Rightarrow>
            let startPos = fst (m ! 2); endPos = snd (m ! 0) in
            bind_res (find_crlf2 (nat (endPos - startPos)) indata startPos) (\<lambda>r.
            case r of
              None \<Rightarrow> Inr (PA_ERROR, Some (nat startPos, short_of (endPos - startPos)))
            | Some i \<Rightarrow>
                let bodyPos = i + 4 in
                bind_res (cstring_at indata startPos) (\<lambda>msg.
                case re2 msg of
                  None \<Rightarrow> sip_no_length re3 indata startPos endPos bodyPos
                | Some m2 \<Rightarrow>
                    let (so, eo) = m2 ! 2 in
                    if so \<noteq> -1 \<and> eo \<noteq> -1 \<and> so < bodyPos
                    then sip_with_length indata indatalen startPos endPos bodyPos so eo
                    else sip_no_length re3 indata startPos endPos bodyPos))))"

lemmas kparser_sip_defs [koi_simps] =
  cstring_at_def sip_no_length_def sip_with_length_def kParserSIP_def CRLF2_def

section \<open>Abstraction: a finite map with a capacity\<close>

definition pi_map :: "pi_table \<Rightarrow> int \<Rightarrow> (parser_fn option \<times> nat option) option" where
  "pi_map t k = (if k = -1 then None
     else map_option (\<lambda>p. (pi_parser p, pi_attachhandle p)) (List.find (\<lambda>p. pi_peyload_type p = k) t))"

definition pi_free :: "pi_table \<Rightarrow> bool" where
  "pi_free t \<longleftrightarrow> (\<exists>p \<in> set t. pi_peyload_type p = -1)"

definition pi_ok :: "pi_table \<Rightarrow> bool" where
  "pi_ok t \<longleftrightarrow> length t = P_MAXNUMBER \<and>
     distinct (filter (\<lambda>k. k \<noteq> -1) (map pi_peyload_type t)) \<and>
     (\<forall>p \<in> set t. pi_peyload_type p = -1 \<or> (1 \<le> pi_peyload_type p \<and> pi_parser p \<noteq> None))"

lemma pi_map_None: "k \<noteq> -1 \<Longrightarrow> pi_map t k = None \<longleftrightarrow> k \<notin> pi_peyload_type ` set t"
  by (auto simp: pi_map_def find_None)

lemma set_scan_None: "keyword \<noteq> -1 \<Longrightarrow>
    set_scan keyword c e t = None \<longleftrightarrow> keyword \<in> pi_peyload_type ` set t"
  by (induction t arbitrary: c e) (auto simp: Let_def)

lemma set_scan_kept: "keyword \<noteq> -1 \<Longrightarrow> 0 \<le> e \<Longrightarrow> set_scan keyword c e t = Some r \<Longrightarrow> r = e"
  by (induction t arbitrary: c) (auto split: if_splits)

lemma set_scan_Some:
  assumes "set_scan keyword c (-1) t = Some r" "keyword \<noteq> -1"
  shows "(r = -1 \<and> \<not> pi_free t) \<or>
     (\<exists>us p vs. t = us @ p # vs \<and> pi_peyload_type p = -1 \<and> r = int (c + length us) \<and>
        \<not> pi_free us)"
  using assms
proof (induction t arbitrary: c)
  case Nil
  then show ?case by (simp add: pi_free_def)
next
  case (Cons p t)
  show ?case
  proof (cases "pi_peyload_type p = -1")
    case True
    with Cons.prems have "r = int c"
      using set_scan_kept [of keyword "int c" "Suc c" t r] by (simp add: Let_def split: if_splits)
    with True show ?thesis by (intro disjI2 exI [of _ "[]"]) (auto simp: pi_free_def)
  next
    case False
    with Cons.prems have "set_scan keyword (Suc c) (-1) t = Some r"
      by (auto simp: Let_def split: if_splits)
    from Cons.IH [OF this Cons.prems(2)] show ?thesis
    proof
      assume "r = -1 \<and> \<not> pi_free t"
      with False show ?thesis by (simp add: pi_free_def)
    next
      assume "\<exists>us q vs. t = us @ q # vs \<and> pi_peyload_type q = -1 \<and>
         r = int (Suc c + length us) \<and> \<not> pi_free us"
      then obtain us q vs where "t = us @ q # vs" "pi_peyload_type q = -1"
        "r = int (Suc c + length us)" "\<not> pi_free us" by blast
      with False show ?thesis
        by (intro disjI2 exI [of _ "p # us"] exI [of _ q] exI [of _ vs]) (simp add: pi_free_def)
    qed
  qed
qed

text \<open>How the table changes when one slot is overwritten.\<close>

lemma pi_map_slot:
  assumes "pi_peyload_type p = -1 \<or> pi_peyload_type p \<notin> pi_peyload_type ` set (us @ vs)" "k \<noteq> -1"
  shows "pi_map (us @ q # vs) k =
     (if k = pi_peyload_type q \<and> k \<notin> pi_peyload_type ` set us then Some (pi_parser q, pi_attachhandle q)
      else if k = pi_peyload_type p then None else pi_map (us @ p # vs) k)"
proof (cases "List.find (\<lambda>p. pi_peyload_type p = k) us")
  case None
  moreover have "List.find (\<lambda>p. pi_peyload_type p = k) vs = None" if "k = pi_peyload_type p"
  proof -
    from assms that have "k \<notin> pi_peyload_type ` set vs" by auto
    then show ?thesis unfolding find_None by blast
  qed
  moreover from None have "k \<notin> pi_peyload_type ` set us" unfolding find_None by blast
  ultimately show ?thesis
    using assms(2) by (auto simp: pi_map_def find_append)
next
  case (Some x)
  then have k: "k \<in> pi_peyload_type ` set us" by (auto simp: find_Some_iff)
  with assms have "k \<noteq> pi_peyload_type p" unfolding set_append image_Un by blast
  with k Some assms(2) show ?thesis by (simp add: pi_map_def find_append)
qed

lemma pi_ok_slot:
  assumes "pi_ok (us @ p # vs)" "pi_peyload_type p = -1 \<or> pi_peyload_type q = -1"
    "pi_peyload_type q = -1 \<or> 1 \<le> pi_peyload_type q \<and> pi_parser q \<noteq> None \<and>
       pi_peyload_type q \<notin> pi_peyload_type ` set (us @ vs)"
  shows "pi_ok (us @ q # vs)"
  using assms unfolding pi_ok_def by (auto split: if_splits)

lemma pi_ok_clear: "pi_ok (kParserClear pi_zero)"
  by (simp add: pi_ok_def koi_simps)

lemma kParserInit_table: "kParserInit t =
    (True, map (\<lambda>(k, f). \<lparr>pi_peyload_type = k, pi_parser = Some f, pi_attachhandle = None\<rparr>)
        [(2, FnNULL), (1, FnSIP), (3, FnDNS), (6, FnUDPDNS), (5, FnIKEv2), (7, FnKINK)] @
      replicate 14 \<lparr>pi_peyload_type = -1, pi_parser = None, pi_attachhandle = None\<rparr>)"
  by code_simp

lemma find_replicate: "List.find P (replicate n x) = (if 0 < n \<and> P x then Some x else None)"
  by (induction n) auto

section \<open>Properties\<close>

text \<open>
  C30: \<open>kParserSet\<close> implements insertion into a finite map of limited capacity: it succeeds
  exactly when the payload type is new and a slot is free, then the map has the new parser and
  nothing else changed; otherwise the table is as before. Slots stay free of duplicates.
\<close>

theorem kParserSet_refines:
  assumes ok: "pi_ok t" and k: "1 \<le> k" "k \<le> 32767"
  shows "fst (kParserSet k (Some f) h t) = (pi_map t k = None \<and> pi_free t) \<and>
     pi_ok (snd (kParserSet k (Some f) h t)) \<and>
     pi_map (snd (kParserSet k (Some f) h t)) =
       (if pi_map t k = None \<and> pi_free t then (pi_map t)(k \<mapsto> (Some f, h)) else pi_map t)"
proof (cases "set_scan k 0 (-1) t")
  case None
  then have "pi_map t k \<noteq> None"
    using k by (simp add: set_scan_None pi_map_None)
  with None ok show ?thesis by (simp add: kParserSet_def)
next
  case (Some r)
  then have new: "k \<notin> pi_peyload_type ` set t"
    using k set_scan_None [of k 0 "-1" t] by auto
  then have none: "pi_map t k = None" using k by (simp add: pi_map_None)
  from set_scan_Some [OF Some] k consider
      (full) "r = -1" "\<not> pi_free t"
    | (slot) us p vs where "t = us @ p # vs" "pi_peyload_type p = -1" "r = int (length us)" "\<not> pi_free us"
    by force
  then show ?thesis
  proof cases
    case full
    with Some ok none show ?thesis by (simp add: kParserSet_def)
  next
    case slot
    let ?q = "\<lparr>pi_peyload_type = k, pi_parser = Some f, pi_attachhandle = h\<rparr>"
    have free: "pi_free t" using slot by (auto simp: pi_free_def)
    have run: "kParserSet k (Some f) h t = (True, us @ ?q # vs)"
      using Some k slot by (simp add: kParserSet_def)
    have ok': "pi_ok (us @ ?q # vs)"
      using pi_ok_slot [of us p vs ?q] ok slot new k by auto
    have "pi_map (us @ ?q # vs) j = ((pi_map t)(k \<mapsto> (Some f, h))) j" for j
      using pi_map_slot [of p us vs j ?q] slot new k
      by (cases "j = -1") (auto simp: pi_map_def)
    with run ok' none free show ?thesis by auto
  qed
qed

theorem kParserSet_refines_witness:
  "fst (kParserSet 9 (Some FnNULL) None (kParserClear pi_zero)) \<and>
   pi_ok (snd (kParserSet 9 (Some FnNULL) None (kParserClear pi_zero)))"
  using kParserSet_refines [of "kParserClear pi_zero" 9 FnNULL None] pi_ok_clear
  by (simp add: koi_simps pi_map_def pi_free_def find_None)

text \<open>
  \<open>kParserDelete\<close> implements removal: it succeeds exactly when the payload type is
  registered, closes the shared object its parser came from, and changes nothing else.
\<close>

theorem kParserDelete_refines:
  assumes "pi_ok t" "k \<noteq> -1"
  shows "\<exists>t'. kParserDelete k t = (pi_map t k \<noteq> None,
       (case pi_map t k of Some (f, h) \<Rightarrow> h | None \<Rightarrow> None), t') \<and>
     pi_ok t' \<and> pi_map t' = (pi_map t)(k := None)"
proof (cases "k \<in> pi_peyload_type ` set t")
  case False
  then have "kParserDelete k t = (False, None, t)"
    by (induction t) auto
  moreover have "pi_map t k = None" using False assms(2) by (simp add: pi_map_None)
  ultimately show ?thesis using assms(1) by auto
next
  case True
  then obtain us p vs where sp: "t = us @ p # vs" "pi_peyload_type p = k"
    "\<forall>q \<in> set us. pi_peyload_type q \<noteq> k"
    using split_list_first_prop [of t "\<lambda>p. pi_peyload_type p = k"] by auto
  let ?q = "\<lparr>pi_peyload_type = -1, pi_parser = None, pi_attachhandle = None\<rparr>"
  have run: "kParserDelete k t = (True, pi_attachhandle p, us @ ?q # vs)"
    unfolding sp(1) using sp(2,3) by (induction us) auto
  have entry: "pi_map t k = Some (pi_parser p, pi_attachhandle p)"
    using sp assms(2) by (auto simp: pi_map_def find_append find_None split: option.split dest: find_Some_iff [THEN iffD1])
  have uniq: "k \<notin> pi_peyload_type ` set (us @ vs)"
    using assms sp by (auto simp: pi_ok_def)
  have "pi_map (us @ ?q # vs) j = ((pi_map t)(k := None)) j" for j
    using pi_map_slot [of p us vs j ?q] sp uniq by (cases "j = -1") (auto simp: pi_map_def)
  then have map': "pi_map (us @ ?q # vs) = (pi_map t)(k := None)" by blast
  moreover have "pi_ok (us @ ?q # vs)"
    using pi_ok_slot [of us p vs ?q] assms(1) sp by auto
  ultimately show ?thesis
    using run entry by auto
qed

theorem kParserDelete_refines_witness:
  "pi_map (snd (snd (kParserDelete P_DNS (snd (kParserInit []))))) P_DNS = None"
proof -
  have "pi_ok (snd (kParserInit []))"
    by (simp add: kParserInit_table pi_ok_def P_MAXNUMBER_def)
  from kParserDelete_refines [OF this, of P_DNS] show ?thesis
    by (auto simp: P_DNS_def)
qed

text \<open>
  \<open>kParserInit\<close> always succeeds and registers exactly the six built-in parsers.
\<close>

theorem kParserInit_builtins:
  "fst (kParserInit t) \<and> pi_ok (snd (kParserInit t)) \<and>
   pi_map (snd (kParserInit t)) = map_option (\<lambda>f. (Some f, None)) \<circ>
     [P_NULL \<mapsto> FnNULL, P_SIP \<mapsto> FnSIP, P_DNS \<mapsto> FnDNS, P_UDPDNS \<mapsto> FnUDPDNS,
      P_IKEv2 \<mapsto> FnIKEv2, P_KINK \<mapsto> FnKINK]"
  by (simp add: kParserInit_table pi_ok_def pi_map_def fun_eq_iff find_replicate parser_consts)

text \<open>
  A lookup of payload type \<open>-1\<close> succeeds on a table with a free slot and delivers the
  null pointer as the parser.
\<close>

theorem kParserGet_minus_one:
  assumes "pi_free t" "\<forall>p \<in> set t. pi_peyload_type p = -1 \<longrightarrow> pi_parser p = None"
  shows "kParserGet (-1) t = Some None"
  using assms unfolding pi_free_def kParserGet_def
  by (induction t) auto

theorem kParserGet_minus_one_witness: "kParserGet (-1) (snd (kParserInit [])) = Some None"
  by (rule kParserGet_minus_one) (auto simp: kParserInit_table pi_free_def)

text \<open>
  C31: The DNS parser frames a message by its two-byte length: with \<open>indatalen\<close> bytes received
  (at least 4 and at most the buffer) it asks for more exactly when the message is incomplete,
  and otherwise delivers the length field plus the message as the first message, telling
  whether bytes are left over. Messages of 32766 bytes and more come out with a wrapped,
  negative size.
\<close>

theorem kParserDNS_frames:
  assumes "length msg < 65536" "4 \<le> length (hi # lo # msg @ rest)"
    "uint hi * 256 + uint lo = int (length msg)"
    "indatalen = int n" "n \<le> length (hi # lo # msg @ rest)"
  shows "kParserDNS indatalen (hi # lo # msg @ rest) =
     Inr (if n < length msg + 2 then (PA_NOMATCH, None)
          else (if length msg + 2 < n then PA_LEFTDATA else PA_JUSTONE,
                Some (0, if length msg < 32766 then int (length msg) + 2
                         else int (length msg) + 2 - 65536)))"
proof -
  have "short_of (int (length msg) + 2) = (if length msg < 32766 then int (length msg) + 2
       else int (length msg) + 2 - 65536)"
    using assms(1) by (simp add: short_of_wrap)
  with assms show ?thesis by (auto simp: kParserDNS_def Let_def)
qed

theorem kParserDNS_frames_witness:
  "kParserDNS 9 [0, 3, 1, 2, 3, 0, 1, 2, 2, 0] = Inr (PA_LEFTDATA, Some (0, 5))"
  using kParserDNS_frames [of "[1, 2, 3]" 0 3 "[0, 1, 2, 2, 0]" 9 9] by simp

end
