(* ===== verification/KSocket.thy ===== *)
theory KSocket
  imports KParser
begin

text \<open>
  \<open>lib/kSocket\<close>, the socket table: the records of \<open>koi.h\<close> for sockets, the lookups the
  other components use, registration, closing, and the checks made before a socket is opened.
  Sockets are appended at the end of the table and leave it only when it is cleared as a
  whole, so the linked list with its last pointer is a HOL list in link order.
\<close>

section \<open>Data\<close>

text \<open>\<open>struct in6_addr\<close> is its 16 bytes, \<open>struct sockaddr_storage\<close> its 128 bytes.\<close>

type_synonym in6_addr = "byte list"
type_synonym sockaddr = "byte list"

record unixd_info =
  ui_sockpath :: string

record datasocket_info =
  di_s_port :: int
  di_d_port :: int
  di_s_addr :: in6_addr
  di_d_addr :: in6_addr
  di_parser :: "parser_fn option"
  di_close_waitvalue :: timeval
  di_parent_socketid :: int
  di_family :: int
  di_sss_addr :: sockaddr
  di_ssd_addr :: sockaddr

record listenport_info =
  li_s_port :: int
  li_s_addr :: in6_addr
  li_family :: int

text \<open>What \<open>si_uniq_info_ptr\<close> points to.\<close>

datatype uniq_info = UnixdI unixd_info | DataI datasocket_info | ListenI listenport_info

record socket_info =
  si_type :: int
  si_socketid :: int
  si_sockethandle :: int
  si_linkname :: string
  si_socket_status :: int
  si_uniq :: uniq_info
  si_peyload_type :: int
  si_tls_mode :: int
  si_tls_ssl :: "nat option"

definition SI_TYPE_UNIX :: int where "SI_TYPE_UNIX = 1"
definition SI_TYPE_UNIX_DATA :: int where "SI_TYPE_UNIX_DATA = 2"
definition SI_TYPE_UDP :: int where "SI_TYPE_UDP = 3"
definition SI_TYPE_DATA :: int where "SI_TYPE_DATA = 4"
definition SI_TYPE_LISTEN_UDP :: int where "SI_TYPE_LISTEN_UDP = 5"
definition SI_TYPE_LISTEN_TCP :: int where "SI_TYPE_LISTEN_TCP = 6"
definition SI_TYPE_RAW :: int where "SI_TYPE_RAW = 7"
definition SI_STATUS_ALIVE :: int where "SI_STATUS_ALIVE = 1"
definition SI_STATUS_CLOSE :: int where "SI_STATUS_CLOSE = 2"
definition SOCKET_MAXNUM :: int where "SOCKET_MAXNUM = 32767"
definition P_COMMAND :: int where "P_COMMAND = 0"
definition SELECT_IN :: int where "SELECT_IN = 1"
definition SELECT_OUT :: int where "SELECT_OUT = 2"
definition FD_SETSIZE :: int where "FD_SETSIZE = 1024"
definition AF_INET :: int where "AF_INET = 2"
definition AF_INET6 :: int where "AF_INET6 = 28"
definition CM_IP_IPV4 :: int where "CM_IP_IPV4 = 4"
definition CM_IP_IPV6 :: int where "CM_IP_IPV6 = 6"
definition CM_PROT_TCP :: int where "CM_PROT_TCP = 1"
definition CM_PROT_UDP :: int where "CM_PROT_UDP = 2"
definition CM_PROT_ICMP :: int where "CM_PROT_ICMP = 3"
definition CM_PROT_TLS :: int where "CM_PROT_TLS = 4"

lemmas si_types = SI_TYPE_UNIX_def SI_TYPE_UNIX_DATA_def SI_TYPE_UDP_def SI_TYPE_DATA_def
  SI_TYPE_LISTEN_UDP_def SI_TYPE_LISTEN_TCP_def SI_TYPE_RAW_def

lemmas socket_consts [koi_simps] = si_types SI_STATUS_ALIVE_def SI_STATUS_CLOSE_def
  SOCKET_MAXNUM_def P_COMMAND_def SELECT_IN_def SELECT_OUT_def FD_SETSIZE_def
  AF_INET_def AF_INET6_def CM_IP_IPV4_def CM_IP_IPV6_def CM_PROT_TCP_def CM_PROT_UDP_def
  CM_PROT_ICMP_def CM_PROT_TLS_def

text \<open>
  The global variables of \<open>kSocket.c\<close>; \<open>g_execfds\<close> is the set \<open>select\<close> left, and
  \<open>closed_fds\<close> records the descriptors closed so far.
\<close>

record ksocket =
  sk_table :: "socket_info list"
  g_socket_socketid :: int
  g_readfds :: "int set"
  g_execfds :: "int set"
  closed_fds :: "int list"

definition ksocket_boot :: ksocket where
  "ksocket_boot = \<lparr>sk_table = [], g_socket_socketid = 0, g_readfds = {}, g_execfds = {},
     closed_fds = []\<rparr>"

section \<open>Initialisation, select list\<close>

definition kSocketInit :: "ksocket \<Rightarrow> int \<times> ksocket" where
  "kSocketInit s = (RETURN_OK, s\<lparr>sk_table := [], g_socket_socketid := 0\<rparr>)"

text \<open>A descriptor of \<open>FD_SETSIZE\<close> or more lies outside the bit array.\<close>

definition kSocketSelectOperation :: "int \<Rightarrow> int \<Rightarrow> ksocket \<Rightarrow> (int \<times> ksocket) res" where
  "kSocketSelectOperation fds opt s =
     (if fds < 0 then Inr (RETURN_NG, s)
      else if opt = SELECT_IN then
        (if fds < FD_SETSIZE then Inr (RETURN_OK, s\<lparr>g_readfds := insert fds (g_readfds s)\<rparr>)
         else Inl BufferOverflow)
      else if opt = SELECT_OUT then
        (if fds < FD_SETSIZE then Inr (RETURN_OK, s\<lparr>g_readfds := g_readfds s - {fds}\<rparr>)
         else Inl BufferOverflow)
      else Inr (RETURN_NG, s))"

section \<open>Lookups\<close>

text \<open>
  The loop \<open>for(loop = 0; loop < SOCKET_MAXNUM; loop++)\<close> over the links: the position of
  the node \<open>si\<close> points to when the loop is left, by a match or because the counter ran out,
  or \<open>None\<close> when the end of the table was reached.
\<close>

fun si_loop :: "int \<Rightarrow> (socket_info \<Rightarrow> bool) \<Rightarrow> socket_info list \<Rightarrow> nat option" where
  "si_loop loop P [] = None"
| "si_loop loop P (si # rest) =
     (if loop < SOCKET_MAXNUM then
        (if P si then Some 0
         else if rest = [] then None
         else map_option Suc (si_loop (loop + 1) P rest))
      else Some 0)"

text \<open>
  The caller's variables for the results; \<open>None\<close> is a null pointer argument.
\<close>

record si_bufs =
  b_socketinfo :: "socket_info option"
  b_unixd :: "unixd_info option"
  b_data :: "datasocket_info option"
  b_listen :: "listenport_info option"

text \<open>
  Copying the found entry: the general part, then the part for its type. \<open>raw\<close> says whether
  the switch has the label \<open>SI_TYPE_RAW\<close>, as it does in the lookup by id but not in the lookup
  by handle.
\<close>

definition copy_uniq :: "bool \<Rightarrow> socket_info \<Rightarrow> si_bufs \<Rightarrow> (int \<times> si_bufs) res" where
  "copy_uniq raw si b =
     (case b_socketinfo b of
        None \<Rightarrow> Inr (RETURN_NG, b)
      | Some _ \<Rightarrow>
          let b = b\<lparr>b_socketinfo := Some si\<rparr> in
          if si_type si = SI_TYPE_UNIX \<or> si_type si = SI_TYPE_UNIX_DATA then
            (case b_unixd b of
               None \<Rightarrow> Inr (RETURN_NG, b)
             | Some _ \<Rightarrow> (case si_uniq si of
                 UnixdI u \<Rightarrow> Inr (RETURN_OK, b\<lparr>b_unixd := Some u\<rparr>)
               | _ \<Rightarrow> Inl TypeConfusion))
          else if si_type si = SI_TYPE_UDP \<or> si_type si = SI_TYPE_LISTEN_UDP \<or>
                  si_type si = SI_TYPE_DATA \<or> (raw \<and> si_type si = SI_TYPE_RAW) then
            (case b_data b of
               None \<Rightarrow> Inr (RETURN_NG, b)
             | Some _ \<Rightarrow> (case si_uniq si of
                 DataI d \<Rightarrow> Inr (RETURN_OK, b\<lparr>b_data := Some d\<rparr>)
               | _ \<Rightarrow> Inl TypeConfusion))
          else if si_type si = SI_TYPE_LISTEN_TCP then
            (case b_listen b of
               None \<Rightarrow> Inr (RETURN_NG, b)
             | Some _ \<Rightarrow> (case si_uniq si of
                 ListenI l \<Rightarrow> Inr (RETURN_OK, b\<lparr>b_listen := Some l\<rparr>)
               | _ \<Rightarrow> Inl TypeConfusion))
          else Inr (RETURN_OK, b))"

definition kSocketGetSIBySocketId :: "int \<Rightarrow> si_bufs \<Rightarrow> ksocket \<Rightarrow> (int \<times> si_bufs) res" where
  "kSocketGetSIBySocketId socketid b s =
     (if sk_table s = [] then Inr (RETURN_NG, b)
      else if socketid < 0 then Inr (RETURN_NG, b)
      else case si_loop 0 (\<lambda>si. si_socketid si = socketid) (sk_table s) of
        None \<Rightarrow> Inr (RETURN_NG, b)
      | Some i \<Rightarrow> copy_uniq True (sk_table s ! i) b)"

definition kSocketGetSIBySocketHandle :: "int \<Rightarrow> si_bufs \<Rightarrow> ksocket \<Rightarrow> (int \<times> si_bufs) res" where
  "kSocketGetSIBySocketHandle sockethandle b s =
     (if sk_table s = [] then Inr (RETURN_NG, b)
      else if sockethandle < 0 then Inr (RETURN_NG, b)
      else case si_loop 0 (\<lambda>si. si_sockethandle si = sockethandle \<and>
                 si_socket_status si = SI_STATUS_ALIVE) (sk_table s) of
        None \<Rightarrow> Inr (RETURN_NG, b)
      | Some i \<Rightarrow> copy_uniq False (sk_table s ! i) b)"

text \<open>The result: the return value, and \<open>*handle\<close> and \<open>*type\<close> when they were written.\<close>

definition kSocketGetSelectedHandle :: "bool \<Rightarrow> bool \<Rightarrow> ksocket \<Rightarrow> int \<times> (int \<times> int) option" where
  "kSocketGetSelectedHandle handle type s =
     (if \<not> handle then (RETURN_NG, None)
      else if \<not> type then (RETURN_NG, None)
      else case List.find (\<lambda>si. si_socket_status si \<noteq> SI_STATUS_CLOSE \<and>
                 si_sockethandle si \<in> g_execfds s) (sk_table s) of
        None \<Rightarrow> (RETURN_NG, None)
      | Some si \<Rightarrow> (RETURN_OK, Some (si_sockethandle si, si_type si)))"

lemmas ksocket_lookup_defs [koi_simps] = ksocket_boot_def kSocketInit_def
  kSocketSelectOperation_def copy_uniq_def kSocketGetSIBySocketId_def
  kSocketGetSIBySocketHandle_def kSocketGetSelectedHandle_def

section \<open>Registration\<close>

text \<open>\<open>strcpy\<close> into an array of \<open>n\<close> characters.\<close>

definition cstrcpy :: "nat \<Rightarrow> string \<Rightarrow> string res" where
  "cstrcpy n str = (if length str < n then Inr str else Inl BufferOverflow)"

definition si_append :: "socket_info \<Rightarrow> ksocket \<Rightarrow> ksocket" where
  "si_append si s = s\<lparr>sk_table := sk_table s @ [si]\<rparr>"

definition kSocketRegistUnixdSocketInfo ::
    "bool \<Rightarrow> bool \<Rightarrow> int \<Rightarrow> int \<Rightarrow> string option \<Rightarrow> ksocket \<Rightarrow> (int \<times> ksocket) res" where
  "kSocketRegistUnixdSocketInfo m1 m2 type sockethandle sockpath s =
     (case sockpath of
        None \<Rightarrow> Inr (RETURN_NG, s)
      | Some path \<Rightarrow>
          if g_socket_socketid s = SOCKET_MAXNUM then Inr (RETURN_NG, s)
          else if \<not> m1 \<or> \<not> m2 then Inr (RETURN_NG, s)
          else bind_res (cstrcpy 256 path) (\<lambda>p.
            let g = short_of (g_socket_socketid s + 1) in
            Inr (RETURN_OK, si_append
              \<lparr>si_type = type, si_socketid = g, si_sockethandle = sockethandle, si_linkname = [],
               si_socket_status = SI_STATUS_ALIVE, si_uniq = UnixdI \<lparr>ui_sockpath = p\<rparr>,
               si_peyload_type = P_COMMAND, si_tls_mode = 0, si_tls_ssl = None\<rparr>
              (s\<lparr>g_socket_socketid := g\<rparr>))))"

text \<open>Reading multi-byte fields: big endian for ports, little endian for the host's own words.\<close>

definition be16 :: "byte list \<Rightarrow> nat \<Rightarrow> int" where
  "be16 b i = uint (b ! i) * 256 + uint (b ! (i + 1))"

definition le32 :: "byte list \<Rightarrow> nat \<Rightarrow> int" where
  "le32 b i = uint (b ! i) + 256 * uint (b ! (i + 1)) + 65536 * uint (b ! (i + 2)) +
     16777216 * uint (b ! (i + 3))"

text \<open>The four bytes of a stored function pointer.\<close>

definition fn_of_bytes :: "byte list \<Rightarrow> parser_fn option" where
  "fn_of_bytes b = (if b = replicate 4 0 then None else Some (FnWild b))"

text \<open>
  The address part of \<open>kSocketRegistDataSocketInfo\<close>. The copies are \<open>ss_len\<close> bytes long
  (the first byte of the address), which is 16 for IPv4 and 28 for IPv6, into fields of 16
  bytes. Longer copies run into the fields behind: the source address into \<open>di_d_addr\<close>, which
  is overwritten right after, and the destination address into \<open>di_parser\<close> (4 bytes) and
  \<open>di_close_waitvalue\<close> (8 bytes), which lie behind it. The lengths between 17 and 27, which no
  address family has, would write a part of a field; they are a fault here.
\<close>

definition di_copy_addr ::
    "nat \<Rightarrow> sockaddr \<Rightarrow> sockaddr \<Rightarrow> datasocket_info \<Rightarrow> datasocket_info res" where
  "di_copy_addr off s_addr d_addr d =
     (let ns = unat (s_addr ! 0); nd = unat (d_addr ! 0);
          sb = take ns (drop off s_addr); db = take nd (drop off d_addr) in
      if off + ns > 128 \<or> off + nd > 128 then Inl OutOfBounds
      else if ns > 28 \<or> nd > 28 then Inl BufferOverflow
      else
        let d1 = d\<lparr>di_s_addr := take 16 sb @ drop ns (di_s_addr d),
                   di_d_addr := drop 16 sb @ drop (ns - 16) (di_d_addr d)\<rparr>;
            d2 = d1\<lparr>di_d_addr := take 16 db @ drop nd (di_d_addr d1)\<rparr> in
        if nd \<le> 16 then Inr d2
        else if nd = 28 then
          Inr (d2\<lparr>di_parser := fn_of_bytes (take 4 (drop 16 db)),
                  di_close_waitvalue := \<lparr>tv_sec = long_of (le32 db 20), tv_usec = long_of (le32 db 24)\<rparr>\<rparr>)
        else Inl TypeConfusion)"

definition di_zero :: datasocket_info where
  "di_zero = \<lparr>di_s_port = 0, di_d_port = 0, di_s_addr = replicate 16 0, di_d_addr = replicate 16 0,
     di_parser = None, di_close_waitvalue = \<lparr>tv_sec = 0, tv_usec = 0\<rparr>, di_parent_socketid = 0,
     di_family = 0, di_sss_addr = replicate 128 0, di_ssd_addr = replicate 128 0\<rparr>"

definition kSocketRegistDataSocketInfo ::
    "bool \<Rightarrow> bool \<Rightarrow> int \<Rightarrow> int \<Rightarrow> string option \<Rightarrow> int \<Rightarrow> sockaddr \<Rightarrow> sockaddr \<Rightarrow>
     parser_fn option \<Rightarrow> int \<Rightarrow> int \<Rightarrow> int \<Rightarrow> nat option \<Rightarrow> ksocket \<Rightarrow> (int \<times> ksocket) res" where
  "kSocketRegistDataSocketInfo m1 m2 type handle linkname peyload_type s_addr d_addr
       parser socketid family tls_mode tls_ssl s =
     (case linkname of
        None \<Rightarrow> Inr (RETURN_NG, s)
      | Some link \<Rightarrow>
          if g_socket_socketid s = SOCKET_MAXNUM then Inr (RETURN_NG, s)
          else if \<not> m1 \<or> \<not> m2 then Inr (RETURN_NG, s)
          else
            let g = short_of (g_socket_socketid s + 1) in
            bind_res (cstrcpy 16 link) (\<lambda>link.
            bind_res (di_copy_addr (if family = AF_INET then 4 else 8) s_addr d_addr
              (di_zero\<lparr>di_parser := parser, di_parent_socketid := socketid, di_family := family,
                 di_s_port := be16 s_addr 2, di_d_port := be16 d_addr 2\<rparr>)) (\<lambda>d.
            Inr (g, si_append
              \<lparr>si_type = type, si_socketid = g, si_sockethandle = handle, si_linkname = link,
               si_socket_status = SI_STATUS_ALIVE, si_uniq = DataI d,
               si_peyload_type = peyload_type, si_tls_mode = tls_mode, si_tls_ssl = tls_ssl\<rparr>
              (s\<lparr>g_socket_socketid := g\<rparr>)))))"

lemmas ksocket_regist_defs [koi_simps] = cstrcpy_def si_append_def
  kSocketRegistUnixdSocketInfo_def be16_def le32_def fn_of_bytes_def di_copy_addr_def
  di_zero_def kSocketRegistDataSocketInfo_def

section \<open>Closing\<close>

definition si_set_status :: "nat \<Rightarrow> int \<Rightarrow> ksocket \<Rightarrow> ksocket" where
  "si_set_status i st s = s\<lparr>sk_table := (sk_table s)[i := (sk_table s ! i)\<lparr>si_socket_status := st\<rparr>]\<rparr>"

text \<open>
  What every pattern does with a socket once \<open>close()\<close> succeeded: out of the select list, and
  the status is CLOSE.
\<close>

definition close_entry :: "nat \<Rightarrow> ksocket \<Rightarrow> ksocket res" where
  "close_entry i s =
     (let h = si_sockethandle (sk_table s ! i); s = s\<lparr>closed_fds := closed_fds s @ [h]\<rparr> in
      bind_res (kSocketSelectOperation h SELECT_OUT s) (\<lambda>(_, s).
        Inr (si_set_status i SI_STATUS_CLOSE s)))"

definition is_unix :: "socket_info \<Rightarrow> bool" where
  "is_unix si \<longleftrightarrow> si_type si = SI_TYPE_UNIX \<or> si_type si = SI_TYPE_UNIX_DATA"

text \<open>
  Pattern 1, socket id 0. \<open>cl i\<close> says whether \<open>close()\<close> in round \<open>i\<close> of the loop succeeds;
  the round is the position in the table, and the last argument is the rest of the table from
  there on (the loop itself changes only the status of entries already visited).
\<close>

fun close_pattern1 :: "(nat \<Rightarrow> bool) \<Rightarrow> nat \<Rightarrow> socket_info list \<Rightarrow> ksocket \<Rightarrow> ksocket res" where
  "close_pattern1 cl loop [] s = Inr s"
| "close_pattern1 cl loop (si # rest) s =
     (if int loop < SOCKET_MAXNUM then
        (if si_socket_status si = SI_STATUS_CLOSE then close_pattern1 cl (Suc loop) rest s
         else if is_unix si then close_pattern1 cl (Suc loop) rest s
         else if \<not> cl loop then close_pattern1 cl (Suc loop) rest s
         else bind_res (close_entry loop s) (close_pattern1 cl (Suc loop) rest))
      else Inr s)"

text \<open>
  Pattern 2, a TCP listening socket. The local variables \<open>socketinfo\<close> and \<open>datasocketinfo\<close> keep
  their values of an earlier round when the lookup does not write them.
\<close>

fun close_pattern2 ::
    "(nat \<Rightarrow> bool) \<Rightarrow> int \<Rightarrow> nat \<Rightarrow> socket_info list \<Rightarrow> si_bufs \<Rightarrow> ksocket \<Rightarrow> ksocket res" where
  "close_pattern2 cl socketid loop [] b s = Inr s"
| "close_pattern2 cl socketid loop (si # rest) b s =
     (if int loop < g_socket_socketid s then
        (if si_socket_status si = SI_STATUS_CLOSE then close_pattern2 cl socketid (Suc loop) rest b s
         else if is_unix si then close_pattern2 cl socketid (Suc loop) rest b s
         else bind_res (kSocketGetSIBySocketId (si_socketid si) b s) (\<lambda>(_, b).
           if si_socketid si = socketid \<or>
              si_type (the (b_socketinfo b)) = SI_TYPE_DATA \<or>
              di_parent_socketid (the (b_data b)) = socketid
           then (if \<not> cl loop then close_pattern2 cl socketid (Suc loop) rest b s
                 else bind_res (close_entry loop s) (close_pattern2 cl socketid (Suc loop) rest b))
           else close_pattern2 cl socketid (Suc loop) rest b s))
      else Inr s)"

text \<open>Pattern 3, any other socket.\<close>

definition close_pattern3 :: "(nat \<Rightarrow> bool) \<Rightarrow> int \<Rightarrow> ksocket \<Rightarrow> (int \<times> ksocket) res" where
  "close_pattern3 cl socketid s =
     (case si_loop 0 (\<lambda>si. si_socketid si = socketid) (sk_table s) of
        None \<Rightarrow> Inr (RETURN_NG, s)
      | Some i \<Rightarrow>
          let si = sk_table s ! i in
          if si_type si = SI_TYPE_UNIX then Inr (RETURN_NG, s)
          else if si_socket_status si = SI_STATUS_CLOSE then Inr (RETURN_NG, s)
          else if \<not> cl i then Inr (RETURN_NG, s)
          else bind_res (close_entry i s) (\<lambda>s. Inr (RETURN_OK, s)))"

text \<open>
  \<open>locals\<close> are the uninitialised local variables the lookup writes to; all four pointers
  are given.
\<close>

definition kSocketClose :: "(nat \<Rightarrow> bool) \<Rightarrow> si_bufs \<Rightarrow> int \<Rightarrow> ksocket \<Rightarrow> (int \<times> ksocket) res" where
  "kSocketClose cl locals socketid s =
     (if socketid < 0 then Inr (RETURN_NG, s)
      else bind_res (if socketid \<noteq> 0 then kSocketGetSIBySocketId socketid locals s
                     else Inr (RETURN_OK, locals)) (\<lambda>(ret, b).
        if ret < 0 then Inr (RETURN_NG, s)
        else if sk_table s = [] then Inr (RETURN_NG, s)
        else if socketid = 0 then
          bind_res (close_pattern1 cl 0 (sk_table s) s) (\<lambda>s. Inr (RETURN_OK, s))
        else if si_type (the (b_socketinfo b)) = SI_TYPE_LISTEN_TCP then
          bind_res (close_pattern2 cl socketid 0 (sk_table s) b s) (\<lambda>s. Inr (RETURN_OK, s))
        else close_pattern3 cl socketid s))"

definition kSocketMakeSocketStatusClose :: "int \<Rightarrow> ksocket \<Rightarrow> int \<times> ksocket" where
  "kSocketMakeSocketStatusClose sockethandle s =
     (if sk_table s = [] then (RETURN_OK, s)
      else if sockethandle < 0 then (RETURN_NG, s)
      else case si_loop 0 (\<lambda>si. si_sockethandle si = sockethandle) (sk_table s) of
        None \<Rightarrow> (RETURN_OK, s)
      | Some i \<Rightarrow> (RETURN_OK, si_set_status i SI_STATUS_CLOSE s))"

lemmas ksocket_close_defs [koi_simps] = si_set_status_def close_entry_def is_unix_def
  close_pattern3_def kSocketClose_def kSocketMakeSocketStatusClose_def

section \<open>Checks before a socket is opened\<close>

text \<open>Reading \<open>si_uniq_info_ptr\<close> as a \<open>DatasocketInfo\<close>.\<close>

definition as_datasocket :: "uniq_info \<Rightarrow> datasocket_info res" where
  "as_datasocket u = (case u of DataI d \<Rightarrow> Inr d | _ \<Rightarrow> Inl TypeConfusion)"

text \<open>
  The loop of \<open>kSocketCheckNewSocket\<close>: its condition is \<open>si->si_next_socket_info_ptr != NULL\<close>,
  so the body is not run for the last node. State: the flag and the position of \<open>reuseinfo\<close>.
\<close>

fun check_new_loop :: "int \<Rightarrow> in6_addr \<Rightarrow> int \<Rightarrow> int \<Rightarrow> nat \<Rightarrow> socket_info list \<Rightarrow>
    bool \<times> nat option \<Rightarrow> (bool \<times> nat option) res" where
  "check_new_loop s_port s_addr d_port protocol i [] st = Inl NullDeref"
| "check_new_loop s_port s_addr d_port protocol i [si] st = Inr st"
| "check_new_loop s_port s_addr d_port protocol i (si # rest) st =
     (if (protocol = CM_PROT_TCP \<and> si_type si = SI_TYPE_UDP) \<or>
         (protocol = CM_PROT_UDP \<and> (si_type si = SI_TYPE_DATA \<or>
            si_type si = SI_TYPE_LISTEN_TCP \<or> si_type si = SI_TYPE_LISTEN_UDP))
      then check_new_loop s_port s_addr d_port protocol (Suc i) rest st
      else if si_type si = SI_TYPE_UDP \<and> si_socket_status si = SI_STATUS_ALIVE then
        bind_res (as_datasocket (si_uniq si)) (\<lambda>d.
          if di_s_port d = s_port \<and> (d_port = 0 \<or> di_d_port d = d_port) then
            let flg = di_s_addr d \<noteq> replicate 16 0 \<and> s_addr \<noteq> replicate 16 0 \<and> s_addr \<noteq> di_s_addr d in
            check_new_loop s_port s_addr d_port protocol (Suc i) rest (flg, Some i)
          else check_new_loop s_port s_addr d_port protocol (Suc i) rest st)
      else check_new_loop s_port s_addr d_port protocol (Suc i) rest st)"

text \<open>The result: the return value, \<open>*socketid\<close>, and the state.\<close>

definition kSocketCheckNewSocket :: "int \<Rightarrow> in6_addr \<Rightarrow> int \<Rightarrow> in6_addr \<Rightarrow> int \<Rightarrow> bool \<Rightarrow> ksocket \<Rightarrow>
    (int \<times> int option \<times> ksocket) res" where
  "kSocketCheckNewSocket s_port s_addr d_port d_addr protocol socketid s =
     (if \<not> socketid then Inr (RETURN_NG, None, s)
      else bind_res (check_new_loop s_port s_addr d_port protocol 0 (sk_table s) (True, None))
        (\<lambda>(flg, reuse). case (flg, reuse) of
           (False, Some i) \<Rightarrow>
             bind_res (as_datasocket (si_uniq (sk_table s ! i))) (\<lambda>d.
               Inr (RETURN_OK, Some (si_socketid (sk_table s ! i)),
                 s\<lparr>sk_table := (sk_table s)[i := (sk_table s ! i)
                    \<lparr>si_uniq := DataI (d\<lparr>di_d_port := d_port, di_d_addr := d_addr\<rparr>)\<rparr>]\<rparr>))
         | (False, None) \<Rightarrow> Inl NullDeref
         | (True, _) \<Rightarrow> Inr (RETURN_OK, Some 0, s)))"

text \<open>
  \<open>IsExistSameSocket\<close> casts \<open>si_uniq_info_ptr\<close> to a \<open>ListenportInfo\<close>; a listening UDP socket has a
  \<open>DatasocketInfo\<close> there.
\<close>

definition as_listenport :: "uniq_info \<Rightarrow> listenport_info res" where
  "as_listenport u = (case u of
     ListenI l \<Rightarrow> Inr l
   | _ \<Rightarrow> Inl TypeConfusion)"

fun same_socket_loop :: "int \<Rightarrow> int \<Rightarrow> int \<Rightarrow> int \<Rightarrow> socket_info list \<Rightarrow> int res" where
  "same_socket_loop type af s_port loop [] = Inr 0"
| "same_socket_loop type af s_port loop (si # rest) =
     (if loop < SOCKET_MAXNUM then
        (if (type = SI_TYPE_LISTEN_UDP \<or> type = SI_TYPE_LISTEN_TCP) \<and> si_type si = type \<and>
            si_socket_status si = SI_STATUS_ALIVE
         then bind_res (as_listenport (si_uniq si)) (\<lambda>l.
           if li_s_port l = s_port \<and> li_family l = af then Inr 1
           else same_socket_loop type af s_port (loop + 1) rest)
         else same_socket_loop type af s_port (loop + 1) rest)
      else Inr 0)"

definition IsExistSameSocket :: "int \<Rightarrow> int \<Rightarrow> int \<Rightarrow> ksocket \<Rightarrow> int res" where
  "IsExistSameSocket type addressFamily s_port s =
     same_socket_loop type (if addressFamily = CM_IP_IPV6 then AF_INET6 else AF_INET) s_port 0
       (sk_table s)"

section \<open>TLS sessions\<close>

definition kSocketTLSClose :: "nat option \<Rightarrow> ksocket \<Rightarrow> ksocket" where
  "kSocketTLSClose tlsssl s = s\<lparr>sk_table := map (\<lambda>si.
     if si_tls_ssl si = tlsssl then si\<lparr>si_tls_ssl := None\<rparr> else si) (sk_table s)\<rparr>"

text \<open>The test of one entry; \<open>n\<close> address bytes are compared, from offset \<open>off\<close> of the arguments.\<close>

definition tls_match :: "nat \<Rightarrow> nat \<Rightarrow> sockaddr \<Rightarrow> sockaddr \<Rightarrow> int \<Rightarrow> socket_info \<Rightarrow> bool res" where
  "tls_match off n src dst port si =
     (if si_tls_mode si \<noteq> 0 \<and> si_tls_ssl si \<noteq> None \<and> si_type si = SI_TYPE_DATA
      then bind_res (as_datasocket (si_uniq si)) (\<lambda>info.
        Inr ((di_d_port info = port \<or> di_s_port info = port) \<and>
             take n (di_s_addr info) = take n (drop off src) \<and>
             take n (di_d_addr info) = take n (drop off dst)))
      else Inr False)"

fun tls_session_loop :: "(socket_info \<Rightarrow> bool res) \<Rightarrow> socket_info list \<Rightarrow> (int \<times> nat option) res" where
  "tls_session_loop m [] = Inr (RETURN_NG, None)"
| "tls_session_loop m (si # rest) = bind_res (m si) (\<lambda>ok.
     if ok then Inr (RETURN_OK, si_tls_ssl si) else tls_session_loop m rest)"

text \<open>The address family is the second byte of a \<open>sockaddr\<close>.\<close>

definition kSocketTLSSession :: "sockaddr \<Rightarrow> sockaddr \<Rightarrow> int \<Rightarrow> ksocket \<Rightarrow> (int \<times> nat option) res" where
  "kSocketTLSSession src dst port s =
     (if uint (src ! 1) = AF_INET
      then tls_session_loop (tls_match 4 4 src dst port) (sk_table s)
      else tls_session_loop (tls_match 8 16 src dst port) (sk_table s))"

section \<open>Checksum and address text\<close>

text \<open>The 16-bit words of the buffer as the little-endian host reads them.\<close>

fun sum_words :: "byte list \<Rightarrow> int" where
  "sum_words (a # b # bs) = uint a + 256 * uint b + sum_words bs"
| "sum_words [a] = uint a"
| "sum_words [] = 0"

definition checksum :: "byte list \<Rightarrow> int" where
  "checksum buf =
     (let sum = ulong_of (sum_words buf);
          sum = ulong_of (sum mod 256 + sum div 65536);
          sum = ulong_of (sum mod 256 + sum div 65536) in
      ushort_of (4294967295 - sum))"

definition hex_digit :: "nat \<Rightarrow> char" where
  "hex_digit n = ''0123456789abcdef'' ! n"

definition hex04 :: "nat \<Rightarrow> string" where
  "hex04 n = [hex_digit (n div 4096 mod 16), hex_digit (n div 256 mod 16),
     hex_digit (n div 16 mod 16), hex_digit (n mod 16)]"

fun dec_digits :: "nat \<Rightarrow> nat \<Rightarrow> string" where
  "dec_digits 0 n = []"
| "dec_digits (Suc k) n = (if n < 10 then [char_of (48 + n)]
     else dec_digits k (n div 10) @ [char_of (48 + n mod 10)])"

fun join :: "string \<Rightarrow> string list \<Rightarrow> string" where
  "join sep [] = []"
| "join sep [x] = x"
| "join sep (x # xs) = x @ sep @ join sep xs"

definition kAddr2Str0 :: "int \<Rightarrow> byte list \<Rightarrow> string" where
  "kAddr2Str0 family addr =
     (if family = AF_INET then join ''.'' (map (\<lambda>i. dec_digits 3 (unat (addr ! i))) [0..<4])
      else if family = AF_INET6
      then join '':'' (map (\<lambda>i. hex04 (unat (addr ! (2 * i)) + 256 * unat (addr ! (2 * i + 1)))) [0..<8])
      else [])"

lemmas ksocket_misc_defs [koi_simps] = as_datasocket_def kSocketCheckNewSocket_def
  as_listenport_def IsExistSameSocket_def kSocketTLSClose_def tls_match_def
  kSocketTLSSession_def checksum_def hex_digit_def hex04_def kAddr2Str0_def

section \<open>Invariant\<close>

text \<open>
  A table entry is in order when its unique part is the struct its type calls for; the table is
  when the ids grow along it, within the range of the counter.
\<close>

definition si_ok :: "socket_info \<Rightarrow> bool" where
  "si_ok si \<longleftrightarrow> si_socket_status si \<in> {SI_STATUS_ALIVE, SI_STATUS_CLOSE} \<and>
     (case si_uniq si of
        UnixdI _ \<Rightarrow> si_type si \<in> {SI_TYPE_UNIX, SI_TYPE_UNIX_DATA}
      | DataI _ \<Rightarrow> si_type si \<in> {SI_TYPE_UDP, SI_TYPE_DATA, SI_TYPE_LISTEN_UDP, SI_TYPE_RAW}
      | ListenI _ \<Rightarrow> si_type si = SI_TYPE_LISTEN_TCP)"

definition ksocket_inv :: "ksocket \<Rightarrow> bool" where
  "ksocket_inv s \<longleftrightarrow> sorted_wrt (<) (map si_socketid (sk_table s)) \<and>
     (\<forall>si \<in> set (sk_table s). si_ok si \<and> 1 \<le> si_socketid si \<and> si_socketid si \<le> g_socket_socketid s) \<and>
     0 \<le> g_socket_socketid s \<and> g_socket_socketid s \<le> SOCKET_MAXNUM"

lemma ksocket_inv_boot: "ksocket_inv ksocket_boot"
  by (simp add: ksocket_inv_def koi_simps)

lemma ksocket_inv_init: "ksocket_inv (snd (kSocketInit s))"
  by (simp add: ksocket_inv_def koi_simps)

lemma sorted_wrt_less_distinct: "sorted_wrt (<) (xs :: int list) \<Longrightarrow> distinct xs"
  by (induction xs) auto

lemma ksocket_inv_distinct: "ksocket_inv s \<Longrightarrow> distinct (map si_socketid (sk_table s))"
  unfolding ksocket_inv_def by (blast intro: sorted_wrt_less_distinct)

lemma ksocket_inv_length:
  assumes "ksocket_inv s"
  shows "int (length (sk_table s)) \<le> g_socket_socketid s" "int (length (sk_table s)) \<le> SOCKET_MAXNUM"
proof -
  have "set (map si_socketid (sk_table s)) \<subseteq> {1..g_socket_socketid s}"
    using assms by (auto simp: ksocket_inv_def)
  then have "card (set (map si_socketid (sk_table s))) \<le> card {1..g_socket_socketid s}"
    by (intro card_mono) auto
  then show "int (length (sk_table s)) \<le> g_socket_socketid s"
    using distinct_card [OF ksocket_inv_distinct [OF assms]] assms
    by (simp add: ksocket_inv_def le_nat_iff)
  then show "int (length (sk_table s)) \<le> SOCKET_MAXNUM"
    using assms by (simp add: ksocket_inv_def)
qed

text \<open>Within the bound of the loop counter the search finds the first match.\<close>

fun first_index :: "('a \<Rightarrow> bool) \<Rightarrow> 'a list \<Rightarrow> nat option" where
  "first_index P [] = None"
| "first_index P (x # xs) = (if P x then Some 0 else map_option Suc (first_index P xs))"

lemma si_loop_first_index:
  "loop + int (length xs) \<le> SOCKET_MAXNUM \<Longrightarrow> si_loop loop P xs = first_index P xs"
  by (induction loop P xs rule: si_loop.induct) auto

lemma first_index_find: "List.find P xs = map_option ((!) xs) (first_index P xs)"
  by (induction xs) (auto simp: option.map_comp comp_def)

lemma first_index_Some: "first_index P xs = Some i \<Longrightarrow> i < length xs \<and> P (xs ! i)"
  by (induction xs arbitrary: i) (auto split: if_splits)

lemma first_index_None: "first_index P xs = None \<longleftrightarrow> (\<forall>x \<in> set xs. \<not> P x)"
  by (induction xs) auto

lemma first_index_before: "first_index P xs = Some i \<Longrightarrow> \<forall>x \<in> set (take i xs). \<not> P x"
proof (induction xs arbitrary: i)
  case (Cons x xs)
  then show ?case by (cases i) (auto split: if_splits)
qed simp

lemma first_index_unique:
  "distinct (map f xs) \<Longrightarrow> i < length xs \<Longrightarrow> first_index (\<lambda>x. f x = f (xs ! i)) xs = Some i"
  by (induction xs arbitrary: i) (auto simp: less_Suc_eq_0_disj)

lemma si_loop_inv: "ksocket_inv s \<Longrightarrow> si_loop 0 P (sk_table s) = first_index P (sk_table s)"
  using ksocket_inv_length [of s] by (intro si_loop_first_index) auto

section \<open>The lookup interface\<close>

text \<open>The socket with an id, and what a successful lookup writes into the caller's variables.\<close>

definition sock :: "ksocket \<Rightarrow> int \<Rightarrow> socket_info option" where
  "sock s i = List.find (\<lambda>si. si_socketid si = i) (sk_table s)"

definition fill :: "socket_info \<Rightarrow> si_bufs \<Rightarrow> si_bufs" where
  "fill si b = (let b = b\<lparr>b_socketinfo := Some si\<rparr> in
     case si_uniq si of UnixdI u \<Rightarrow> b\<lparr>b_unixd := Some u\<rparr> | DataI d \<Rightarrow> b\<lparr>b_data := Some d\<rparr>
     | ListenI l \<Rightarrow> b\<lparr>b_listen := Some l\<rparr>)"

definition all_bufs :: "si_bufs \<Rightarrow> bool" where
  "all_bufs b \<longleftrightarrow> b_socketinfo b \<noteq> None \<and> b_unixd b \<noteq> None \<and> b_data b \<noteq> None \<and> b_listen b \<noteq> None"

lemma fill_simps [simp]:
  "b_socketinfo (fill si b) = Some si" "all_bufs b \<Longrightarrow> all_bufs (fill si b)"
  by (auto simp: fill_def all_bufs_def Let_def split: uniq_info.split)

lemma fill_data [simp]: "si_uniq si = DataI d \<Longrightarrow> b_data (fill si b) = Some d"
  by (simp add: fill_def)

lemma fill_other [simp]: "si_uniq si = ListenI l \<Longrightarrow> b_data (fill si b) = b_data b"
  by (simp add: fill_def)

lemma copy_uniq_fill:
  "si_ok si \<Longrightarrow> all_bufs b \<Longrightarrow> copy_uniq True si b = Inr (RETURN_OK, fill si b)"
  by (auto simp: copy_uniq_def fill_def si_ok_def all_bufs_def si_types split: uniq_info.splits)

locale socket_lookup =
  fixes get :: "int \<Rightarrow> si_bufs \<Rightarrow> 's \<Rightarrow> (int \<times> si_bufs) res"
    and wf :: "'s \<Rightarrow> bool"
    and look :: "'s \<Rightarrow> int \<Rightarrow> socket_info option"
  assumes get_none: "wf s \<Longrightarrow> look s i = None \<Longrightarrow> get i b s = Inr (RETURN_NG, b)"
    and get_some: "wf s \<Longrightarrow> look s i = Some si \<Longrightarrow> all_bufs b \<Longrightarrow> get i b s = Inr (RETURN_OK, fill si b)"
    and look_ok: "wf s \<Longrightarrow> look s i = Some si \<Longrightarrow> si_ok si \<and> si_socketid si = i \<and> 1 \<le> i"
begin

text \<open>A client that gives all four variables never sees a fault, and branches on the sign.\<close>

lemma get_bind:
  assumes "wf s" "all_bufs b"
  shows "bind_res (get i b s) k = (case look s i of None \<Rightarrow> k (RETURN_NG, b)
     | Some si \<Rightarrow> k (RETURN_OK, fill si b))"
  using assms by (cases "look s i") (auto simp: get_none get_some)

lemma get_total: "wf s \<Longrightarrow> all_bufs b \<Longrightarrow> \<exists>r b'. get i b s = Inr (r, b') \<and> all_bufs b'"
  by (cases "look s i") (auto simp: get_none get_some)

lemma look_nonpos: "wf s \<Longrightarrow> i \<le> 0 \<Longrightarrow> look s i = None"
  using look_ok [of s i] by (cases "look s i") auto

end

lemma sock_ok: "ksocket_inv s \<Longrightarrow> sock s i = Some si \<Longrightarrow>
    si \<in> set (sk_table s) \<and> si_ok si \<and> si_socketid si = i \<and> 1 \<le> i"
  by (auto simp: sock_def find_Some_iff ksocket_inv_def)

lemma sock_Some: "ksocket_inv s \<Longrightarrow> si \<in> set (sk_table s) \<Longrightarrow> sock s (si_socketid si) = Some si"
proof -
  assume inv: "ksocket_inv s" and "si \<in> set (sk_table s)"
  then obtain i where i: "i < length (sk_table s)" "sk_table s ! i = si"
    by (auto simp: in_set_conv_nth)
  from first_index_unique [OF ksocket_inv_distinct [OF inv] i(1)] i(2) show ?thesis
    by (simp add: sock_def first_index_find)
qed

lemma sock_index: "ksocket_inv s \<Longrightarrow>
    sock s i = map_option ((!) (sk_table s)) (si_loop 0 (\<lambda>si. si_socketid si = i) (sk_table s))"
  by (simp add: sock_def first_index_find si_loop_inv)

lemma get_si_sock:
  assumes "ksocket_inv s"
  shows "kSocketGetSIBySocketId i b s =
     (case sock s i of None \<Rightarrow> Inr (RETURN_NG, b) | Some si \<Rightarrow> copy_uniq True si b)"
proof (cases "sock s i")
  case None
  then show ?thesis
    using assms by (auto simp: kSocketGetSIBySocketId_def sock_index)
next
  case (Some si)
  moreover from this have "sk_table s \<noteq> []" "0 \<le> i"
    using sock_ok [OF assms] by fastforce+
  ultimately show ?thesis
    using sock_index [OF assms, of i] by (auto simp: kSocketGetSIBySocketId_def)
qed

interpretation sk: socket_lookup kSocketGetSIBySocketId ksocket_inv sock
  by unfold_locales (auto simp: get_si_sock copy_uniq_fill dest: sock_ok)

section \<open>Registration keeps the table in order\<close>

lemma sock_fresh: "ksocket_inv s \<Longrightarrow> g_socket_socketid s < i \<Longrightarrow> sock s i = None"
  by (auto simp: sock_def find_None_iff ksocket_inv_def)

lemma append_inv:
  assumes inv: "ksocket_inv s" and "g_socket_socketid s \<noteq> SOCKET_MAXNUM"
    and si: "si_ok si" "si_socketid si = g_socket_socketid s + 1"
    and s': "sk_table s' = sk_table s @ [si]" "g_socket_socketid s' = g_socket_socketid s + 1"
  shows "ksocket_inv s'" "sock s' = (sock s)(g_socket_socketid s + 1 \<mapsto> si)"
proof -
  show "ksocket_inv s'"
    using assms unfolding ksocket_inv_def by (fastforce simp: sorted_wrt_append)
  have "sock s' i = ((sock s)(g_socket_socketid s + 1 \<mapsto> si)) i" for i
    using sock_fresh [OF inv, of i] si(2) s'(1)
    by (auto simp: sock_def find_append split: option.split)
  then show "sock s' = (sock s)(g_socket_socketid s + 1 \<mapsto> si)" by blast
qed

lemma next_id: "ksocket_inv s \<Longrightarrow> g_socket_socketid s \<noteq> SOCKET_MAXNUM \<Longrightarrow>
    short_of (g_socket_socketid s + 1) = g_socket_socketid s + 1"
  by (auto simp: ksocket_inv_def SOCKET_MAXNUM_def)

text \<open>What the address copies store for the two address families.\<close>

lemma di_copy_addr_v4:
  assumes "length s_addr = 128" "length d_addr = 128" "s_addr ! 0 = 16" "d_addr ! 0 = 16"
    and "length (di_s_addr d) = 16" "length (di_d_addr d) = 16"
  shows "di_copy_addr 4 s_addr d_addr d =
     Inr (d\<lparr>di_s_addr := take 16 (drop 4 s_addr), di_d_addr := take 16 (drop 4 d_addr)\<rparr>)"
proof -
  have "unat (s_addr ! 0) = 16" "unat (d_addr ! 0) = 16"
    unfolding assms(3,4) by code_simp+
  with assms(1,2,5,6) show ?thesis
    by (simp add: di_copy_addr_def Let_def)
qed

lemma di_copy_addr_v6:
  assumes "length s_addr = 128" "length d_addr = 128" "s_addr ! 0 = 28" "d_addr ! 0 = 28"
    and "length (di_s_addr d) = 16" "length (di_d_addr d) = 16"
  shows "di_copy_addr 8 s_addr d_addr d =
     Inr (d\<lparr>di_s_addr := take 16 (drop 8 s_addr), di_d_addr := take 16 (drop 8 d_addr),
       di_parser := fn_of_bytes (take 4 (drop 24 d_addr)),
       di_close_waitvalue := \<lparr>tv_sec = long_of (le32 (drop 8 d_addr) 20),
         tv_usec = long_of (le32 (drop 8 d_addr) 24)\<rparr>\<rparr>)"
proof -
  have "unat (s_addr ! 0) = 28" "unat (d_addr ! 0) = 28"
    unfolding assms(3,4) by code_simp+
  with assms(1,2,5,6) show ?thesis
    by (simp add: di_copy_addr_def Let_def le32_def min_def drop_take)
qed

section \<open>Closing\<close>

abbreviation closed :: "socket_info \<Rightarrow> socket_info" where
  "closed si \<equiv> si\<lparr>si_socket_status := SI_STATUS_CLOSE\<rparr>"

definition fds_ok :: "socket_info list \<Rightarrow> bool" where
  "fds_ok xs \<longleftrightarrow> (\<forall>si \<in> set xs. 0 \<le> si_sockethandle si \<and> si_sockethandle si < FD_SETSIZE)"

lemma close_entry_at:
  assumes "sk_table s = us @ si # rest" "0 \<le> si_sockethandle si" "si_sockethandle si < FD_SETSIZE"
  shows "close_entry (length us) s = Inr (s\<lparr>sk_table := us @ closed si # rest,
     g_readfds := g_readfds s - {si_sockethandle si},
     closed_fds := closed_fds s @ [si_sockethandle si]\<rparr>)"
  using assms by (simp add: close_entry_def kSocketSelectOperation_def si_set_status_def
      SELECT_IN_def SELECT_OUT_def Let_def)

lemma closed_si_ok: "si_ok si \<Longrightarrow> si_ok (closed si)"
  by (cases "si_uniq si") (auto simp: si_ok_def)

lemma closed_inv:
  assumes "ksocket_inv s" "sk_table s = us @ si # rest"
    "sk_table s' = us @ closed si # rest" "g_socket_socketid s' = g_socket_socketid s"
  shows "ksocket_inv s'"
  using assms by (auto simp: ksocket_inv_def closed_si_ok sorted_wrt_append)

text \<open>Pattern 1 closes the sockets \<open>hit\<close> that are alive and no UNIX sockets.\<close>

definition hit1 :: "socket_info \<Rightarrow> bool" where
  "hit1 si \<longleftrightarrow> si_socket_status si \<noteq> SI_STATUS_CLOSE \<and> \<not> is_unix si"

lemma close_pattern1_step: "close_pattern1 cl loop (si # rest) s =
    (if int loop < SOCKET_MAXNUM then
       (if hit1 si \<and> cl loop then bind_res (close_entry loop s) (close_pattern1 cl (Suc loop) rest)
        else close_pattern1 cl (Suc loop) rest s)
     else Inr s)"
  by (simp add: hit1_def)

lemma close_pattern1_closes:
  assumes "sk_table s = us @ rest" "fds_ok rest"
    "int (length (us @ rest)) \<le> SOCKET_MAXNUM"
  shows "\<exists>s'. close_pattern1 (\<lambda>_. True) (length us) rest s = Inr s' \<and>
     sk_table s' = us @ map (\<lambda>si. if hit1 si then closed si else si) rest \<and>
     g_readfds s' = g_readfds s - si_sockethandle ` {si \<in> set rest. hit1 si} \<and>
     closed_fds s' = closed_fds s @ map si_sockethandle (filter hit1 rest) \<and>
     g_socket_socketid s' = g_socket_socketid s"
  using assms
proof (induction rest arbitrary: us s)
  case Nil
  then show ?case by simp
next
  case (Cons si rest)
  show ?case
  proof (cases "hit1 si")
    case True
    let ?s1 = "s\<lparr>sk_table := us @ closed si # rest,
       g_readfds := g_readfds s - {si_sockethandle si},
       closed_fds := closed_fds s @ [si_sockethandle si]\<rparr>"
    from Cons.prems close_entry_at [OF Cons.prems(1)]
    have run: "close_entry (length us) s = Inr ?s1" by (simp add: fds_ok_def)
    from Cons.IH [of ?s1 "us @ [closed si]"] Cons.prems obtain s' where
      "close_pattern1 (\<lambda>_. True) (Suc (length us)) rest ?s1 = Inr s'"
      "sk_table s' = us @ closed si # map (\<lambda>si. if hit1 si then closed si else si) rest"
      "g_readfds s' = g_readfds s - {si_sockethandle si} - si_sockethandle ` {si \<in> set rest. hit1 si}"
      "closed_fds s' = closed_fds s @ si_sockethandle si # map si_sockethandle (filter hit1 rest)"
      "g_socket_socketid s' = g_socket_socketid s"
      by (auto simp: fds_ok_def)
    with True run Cons.prems(3) show ?thesis
      by (auto simp del: close_pattern1.simps simp: close_pattern1_step)
  next
    case False
    with Cons.IH [of s "us @ [si]"] Cons.prems obtain s' where
      "close_pattern1 (\<lambda>_. True) (Suc (length us)) rest s = Inr s'"
      "sk_table s' = us @ si # map (\<lambda>si. if hit1 si then closed si else si) rest"
      "g_readfds s' = g_readfds s - si_sockethandle ` {si \<in> set rest. hit1 si}"
      "closed_fds s' = closed_fds s @ map si_sockethandle (filter hit1 rest)"
      "g_socket_socketid s' = g_socket_socketid s"
      by (auto simp: fds_ok_def)
    moreover have "si_sockethandle ` {x \<in> set (si # rest). hit1 x} =
        si_sockethandle ` {x \<in> set rest. hit1 x}"
      using False by auto
    ultimately show ?thesis using False Cons.prems(3)
      by (auto simp del: close_pattern1.simps simp: close_pattern1_step)
  qed
qed

text \<open>
  Pattern 2, when every \<open>close()\<close> succeeds: each entry is closed or left alone, and it is closed
  when it is the given socket or any TCP data socket.
\<close>

definition after2 :: "int \<Rightarrow> socket_info \<Rightarrow> socket_info \<Rightarrow> bool" where
  "after2 socketid si si' \<longleftrightarrow> (si' = si \<or> si' = closed si) \<and> (is_unix si \<longrightarrow> si' = si) \<and>
     (\<not> is_unix si \<and> (si_socketid si = socketid \<or> si_type si = SI_TYPE_DATA) \<longrightarrow>
        si_socket_status si' = SI_STATUS_CLOSE)"

lemma after2_closed: "\<not> is_unix si \<Longrightarrow> after2 socketid si (closed si)"
  by (simp add: after2_def)

lemma after2_same: "si_socket_status si = SI_STATUS_CLOSE \<or> is_unix si \<or>
    si_socketid si \<noteq> socketid \<and> si_type si \<noteq> SI_TYPE_DATA \<Longrightarrow> after2 socketid si si"
  by (auto simp: after2_def)

lemma close_pattern2_closes:
  assumes "sk_table s = us @ rest" "fds_ok rest" "ksocket_inv s" "all_bufs b"
  shows "\<exists>s'. close_pattern2 (\<lambda>_. True) socketid (length us) rest b s = Inr s' \<and>
     (\<exists>rest'. sk_table s' = us @ rest' \<and> list_all2 (after2 socketid) rest rest') \<and> ksocket_inv s'"
  using assms
proof (induction rest arbitrary: us s b)
  case Nil
  then show ?case by simp
next
  case (Cons si rest)
  have bound: "int (length us) < g_socket_socketid s"
    using ksocket_inv_length(1) [OF Cons.prems(3)] Cons.prems(1) by simp
  have skip: ?case if "close_pattern2 (\<lambda>_. True) socketid (length us) (si # rest) b s =
      close_pattern2 (\<lambda>_. True) socketid (Suc (length us)) rest b' s" "all_bufs b'" "after2 socketid si si" for b'
  proof -
    from Cons.IH [of s "us @ [si]" b'] Cons.prems that(2) obtain s' rest' where
      "close_pattern2 (\<lambda>_. True) socketid (Suc (length us)) rest b' s = Inr s'"
      "sk_table s' = us @ si # rest'" "list_all2 (after2 socketid) rest rest'" "ksocket_inv s'"
      by (auto simp: fds_ok_def)
    with that show ?thesis by auto
  qed
  show ?case
  proof (cases "si_socket_status si = SI_STATUS_CLOSE \<or> is_unix si")
    case True
    with skip [of b] bound Cons.prems(4) show ?thesis by (auto simp: after2_same)
  next
    case alive: False
    have "sock s (si_socketid si) = Some si"
      using sock_Some [OF Cons.prems(3), of si] Cons.prems(1) by simp
    then have get: "kSocketGetSIBySocketId (si_socketid si) b s = Inr (RETURN_OK, fill si b)"
      using sk.get_some Cons.prems(3,4) by blast
    let ?b = "fill si b"
    show ?thesis
    proof (cases "si_socketid si = socketid \<or> si_type si = SI_TYPE_DATA \<or>
        di_parent_socketid (the (b_data ?b)) = socketid")
      case False
      with skip [of ?b] bound alive get Cons.prems(4) show ?thesis by (auto simp: after2_same)
    next
      case True
      let ?s1 = "s\<lparr>sk_table := us @ closed si # rest,
         g_readfds := g_readfds s - {si_sockethandle si},
         closed_fds := closed_fds s @ [si_sockethandle si]\<rparr>"
      from Cons.prems close_entry_at [OF Cons.prems(1)]
      have run: "close_entry (length us) s = Inr ?s1" by (simp add: fds_ok_def)
      have "ksocket_inv ?s1" by (rule closed_inv [OF Cons.prems(3,1)]) auto
      with Cons.IH [of ?s1 "us @ [closed si]" ?b] Cons.prems obtain s' rest' where
        "close_pattern2 (\<lambda>_. True) socketid (Suc (length us)) rest ?b ?s1 = Inr s'"
        "sk_table s' = us @ closed si # rest'" "list_all2 (after2 socketid) rest rest'" "ksocket_inv s'"
        by (auto simp: fds_ok_def)
      with True alive get run bound show ?thesis
        by (auto simp: after2_closed)
    qed
  qed
qed

section \<open>A small table\<close>

text \<open>
  A command socket, two TCP listening sockets (ids 2 and 3) with one connection each (4 and 5),
  and a UDP socket; the properties' examples are evaluated on it.
\<close>

definition demo_data :: "int \<Rightarrow> datasocket_info" where
  "demo_data parent = di_zero\<lparr>di_s_port := 53, di_d_port := 1053, di_parser := Some FnDNS,
     di_parent_socketid := parent, di_family := AF_INET\<rparr>"

definition demo_si :: "int \<Rightarrow> int \<Rightarrow> int \<Rightarrow> uniq_info \<Rightarrow> socket_info" where
  "demo_si type sid handle u = \<lparr>si_type = type, si_socketid = sid, si_sockethandle = handle,
     si_linkname = ''Link0'', si_socket_status = SI_STATUS_ALIVE, si_uniq = u,
     si_peyload_type = P_DNS, si_tls_mode = 0, si_tls_ssl = None\<rparr>"

definition demo :: ksocket where
  "demo = \<lparr>sk_table =
       [demo_si SI_TYPE_UNIX 1 3 (UnixdI \<lparr>ui_sockpath = ''/tmp/koi''\<rparr>),
        demo_si SI_TYPE_LISTEN_TCP 2 4 (ListenI \<lparr>li_s_port = 53, li_s_addr = replicate 16 0, li_family = AF_INET\<rparr>),
        demo_si SI_TYPE_LISTEN_TCP 3 5 (ListenI \<lparr>li_s_port = 80, li_s_addr = replicate 16 0, li_family = AF_INET\<rparr>),
        demo_si SI_TYPE_DATA 4 6 (DataI (demo_data 2)),
        demo_si SI_TYPE_DATA 5 7 (DataI (demo_data 3)),
        demo_si SI_TYPE_UDP 6 8 (DataI (demo_data 0))],
     g_socket_socketid = 6, g_readfds = {3, 4, 5, 6, 7, 8}, g_execfds = {7}, closed_fds = []\<rparr>"

definition demo_bufs :: si_bufs where
  "demo_bufs = \<lparr>b_socketinfo = Some (demo_si 0 0 0 (DataI di_zero)), b_unixd = Some \<lparr>ui_sockpath = []\<rparr>,
     b_data = Some di_zero, b_listen = Some \<lparr>li_s_port = 0, li_s_addr = [], li_family = 0\<rparr>\<rparr>"

lemmas demo_defs = demo_def demo_si_def demo_bufs_def

lemma demo_inv: "ksocket_inv demo" "all_bufs demo_bufs" "fds_ok (sk_table demo)"
  by (simp_all add: ksocket_inv_def si_ok_def demo_defs all_bufs_def fds_ok_def koi_simps)

section \<open>Properties: lookups\<close>

text \<open>
  Looking a socket up by its id finds the one entry with that id and fills the variable for
  its type, and fails without touching the caller's variables when there is none.
\<close>

theorem kSocketGetSIBySocketId_correct:
  assumes "ksocket_inv s" "all_bufs b"
  shows "(\<forall>si \<in> set (sk_table s). kSocketGetSIBySocketId (si_socketid si) b s = Inr (RETURN_OK, fill si b)) \<and>
     (\<forall>i. i \<notin> si_socketid ` set (sk_table s) \<longrightarrow> kSocketGetSIBySocketId i b s = Inr (RETURN_NG, b))"
proof (intro conjI ballI allI impI)
  fix si assume "si \<in> set (sk_table s)"
  with assms show "kSocketGetSIBySocketId (si_socketid si) b s = Inr (RETURN_OK, fill si b)"
    by (blast intro: sk.get_some sock_Some)
next
  fix i assume "i \<notin> si_socketid ` set (sk_table s)"
  then have "sock s i = None" by (auto simp: sock_def find_None_iff)
  with assms(1) show "kSocketGetSIBySocketId i b s = Inr (RETURN_NG, b)" by (rule sk.get_none)
qed

theorem kSocketGetSIBySocketId_correct_witness:
  "kSocketGetSIBySocketId 9 demo_bufs demo = Inr (RETURN_NG, demo_bufs)"
  using kSocketGetSIBySocketId_correct [of demo demo_bufs] demo_inv by (simp add: demo_defs)

text \<open>
  The handle that \<open>kSocketGetSelectedHandle\<close> picks for the dispatcher is ready, and looking
  it up by handle finds a socket of the type that was returned with it; a raw socket is found
  without its \<open>DatasocketInfo\<close>.
\<close>

theorem kSocketGetSelectedHandle_lookup:
  assumes inv: "ksocket_inv s" and b: "all_bufs b"
    and sel: "kSocketGetSelectedHandle True True s = (RETURN_OK, Some (h, ty))" "0 \<le> h"
  shows "h \<in> g_execfds s \<and> (\<exists>si \<in> set (sk_table s). si_sockethandle si = h \<and> si_type si = ty \<and>
     si_socket_status si = SI_STATUS_ALIVE \<and>
     kSocketGetSIBySocketHandle h b s =
       Inr (RETURN_OK, if ty = SI_TYPE_RAW then b\<lparr>b_socketinfo := Some si\<rparr> else fill si b))"
proof -
  let ?P = "\<lambda>si. si_socket_status si \<noteq> SI_STATUS_CLOSE \<and> si_sockethandle si \<in> g_execfds s"
  let ?Q = "\<lambda>si. si_sockethandle si = h \<and> si_socket_status si = SI_STATUS_ALIVE"
  from sel obtain i where i: "first_index ?P (sk_table s) = Some i"
    "si_sockethandle (sk_table s ! i) = h" "si_type (sk_table s ! i) = ty"
    by (auto simp: kSocketGetSelectedHandle_def first_index_find split: option.splits)
  let ?si = "sk_table s ! i"
  from first_index_Some [OF i(1)] have mem: "i < length (sk_table s)" "?P ?si" by auto
  then have ok: "si_ok ?si" "?si \<in> set (sk_table s)" using inv by (auto simp: ksocket_inv_def)
  with mem have alive: "si_socket_status ?si = SI_STATUS_ALIVE" by (auto simp: si_ok_def)
  have "first_index ?Q xs = Some j"
    if "first_index ?P xs = Some j" "?Q (xs ! j)" "\<forall>x \<in> set xs. si_ok x" "h \<in> g_execfds s" for xs j
    using that
  proof (induction xs arbitrary: j)
    case (Cons x xs)
    then show ?case
      by (cases j) (auto simp: socket_consts si_ok_def split: if_splits)
  qed simp
  from this [OF i(1)] have "first_index ?Q (sk_table s) = Some i"
    using i mem alive inv by (auto simp: ksocket_inv_def)
  moreover have "copy_uniq False ?si b =
      Inr (RETURN_OK, if ty = SI_TYPE_RAW then b\<lparr>b_socketinfo := Some ?si\<rparr> else fill ?si b)"
    using ok(1) b i(3)
    by (auto simp: copy_uniq_def fill_def si_ok_def all_bufs_def si_types split: uniq_info.splits)
  moreover have "sk_table s \<noteq> []" using mem by auto
  ultimately have "kSocketGetSIBySocketHandle h b s =
       Inr (RETURN_OK, if ty = SI_TYPE_RAW then b\<lparr>b_socketinfo := Some ?si\<rparr> else fill ?si b)"
    using sel(2) by (simp add: kSocketGetSIBySocketHandle_def si_loop_inv [OF inv])
  with ok(2) i mem alive show ?thesis by auto
qed

theorem kSocketGetSelectedHandle_lookup_witness:
  "\<exists>si \<in> set (sk_table demo). si_socketid si = 5 \<and>
     kSocketGetSIBySocketHandle 7 demo_bufs demo = Inr (RETURN_OK, fill si demo_bufs)"
  using kSocketGetSelectedHandle_lookup [of demo demo_bufs 7 SI_TYPE_DATA] demo_inv
  by (auto simp: kSocketGetSelectedHandle_def demo_defs socket_consts)

section \<open>Properties: registration\<close>

definition data_socket :: "int \<Rightarrow> int \<Rightarrow> int \<Rightarrow> string \<Rightarrow> int \<Rightarrow> datasocket_info \<Rightarrow> int \<Rightarrow> nat option \<Rightarrow> socket_info" where
  "data_socket type i handle link pt d tls_mode tls_ssl =
     \<lparr>si_type = type, si_socketid = i, si_sockethandle = handle, si_linkname = link,
      si_socket_status = SI_STATUS_ALIVE, si_uniq = DataI d, si_peyload_type = pt,
      si_tls_mode = tls_mode, si_tls_ssl = tls_ssl\<rparr>"

text \<open>What registration does once the address part is built.\<close>

lemma regist_data:
  assumes inv: "ksocket_inv s" and g: "g_socket_socketid s \<noteq> SOCKET_MAXNUM"
    and type: "type \<in> {SI_TYPE_UDP, SI_TYPE_DATA}" and link: "length link < 16"
    and d: "di_copy_addr (if family = AF_INET then 4 else 8) s_addr d_addr
       (di_zero\<lparr>di_parser := parser, di_parent_socketid := parent, di_family := family,
          di_s_port := be16 s_addr 2, di_d_port := be16 d_addr 2\<rparr>) = Inr d"
  shows "\<exists>s'. kSocketRegistDataSocketInfo True True type handle (Some link) pt s_addr d_addr
       parser parent family tls_mode tls_ssl s = Inr (g_socket_socketid s + 1, s') \<and>
     ksocket_inv s' \<and> sock s' = (sock s)(g_socket_socketid s + 1 \<mapsto>
       data_socket type (g_socket_socketid s + 1) handle link pt d tls_mode tls_ssl)"
proof -
  let ?g = "g_socket_socketid s + 1"
  let ?si = "data_socket type ?g handle link pt d tls_mode tls_ssl"
  let ?s' = "si_append ?si (s\<lparr>g_socket_socketid := ?g\<rparr>)"
  have "kSocketRegistDataSocketInfo True True type handle (Some link) pt s_addr d_addr
       parser parent family tls_mode tls_ssl s = Inr (?g, ?s')"
    using g link d next_id [OF inv g]
    by (simp add: kSocketRegistDataSocketInfo_def cstrcpy_def data_socket_def Let_def)
  moreover have "si_ok ?si" using type by (auto simp: si_ok_def data_socket_def)
  ultimately show ?thesis
    using append_inv [OF inv g, of ?si ?s'] by (auto simp: data_socket_def si_append_def)
qed

text \<open>
  Registering an accepted IPv4 connection gives it the next id, under which exactly this
  socket is found afterwards with its ports, addresses, parser and parent; all other ids keep
  their sockets and the table stays in order.
\<close>

theorem kSocketRegistDataSocketInfo_v4:
  assumes "ksocket_inv s" "g_socket_socketid s \<noteq> SOCKET_MAXNUM"
    "type \<in> {SI_TYPE_UDP, SI_TYPE_DATA}" "length link < 16"
    "length s_addr = 128" "length d_addr = 128" "s_addr ! 0 = 16" "d_addr ! 0 = 16"
  shows "\<exists>s'. kSocketRegistDataSocketInfo True True type handle (Some link) pt s_addr d_addr
       parser parent AF_INET tls_mode tls_ssl s = Inr (g_socket_socketid s + 1, s') \<and>
     ksocket_inv s' \<and> sock s' = (sock s)(g_socket_socketid s + 1 \<mapsto>
       data_socket type (g_socket_socketid s + 1) handle link pt
         (di_zero\<lparr>di_s_port := be16 s_addr 2, di_d_port := be16 d_addr 2,
            di_s_addr := take 16 (drop 4 s_addr), di_d_addr := take 16 (drop 4 d_addr),
            di_parser := parser, di_parent_socketid := parent, di_family := AF_INET\<rparr>)
         tls_mode tls_ssl)"
  by (rule regist_data [OF assms(1-4)]) (simp add: di_copy_addr_v4 assms(5-8) di_zero_def)

definition demo_addr :: "byte list" where
  "demo_addr = [16, 2, 0, 53, 127, 0, 0, 1] @ replicate 120 0"

theorem kSocketRegistDataSocketInfo_v4_witness:
  "\<exists>s'. kSocketRegistDataSocketInfo True True SI_TYPE_DATA 9 (Some ''Link0'') 3 demo_addr demo_addr
       (Some FnDNS) 2 AF_INET 0 None demo = Inr (7, s') \<and> ksocket_inv s'"
  using kSocketRegistDataSocketInfo_v4 [of demo SI_TYPE_DATA "''Link0''" demo_addr demo_addr 9 3
      "Some FnDNS" 2 0 None] demo_inv
  by (auto simp: demo_addr_def demo_def SOCKET_MAXNUM_def)

text \<open>
  Registering an IPv6 connection copies \<open>ss_len\<close> (28) bytes into a 16-byte field: ports and
  addresses are stored, but the parser given by the caller is replaced by the scope id of the
  peer's address, read as a pointer (null for a global address).
\<close>

theorem kSocketRegistDataSocketInfo_v6_overrun:
  assumes "ksocket_inv s" "g_socket_socketid s \<noteq> SOCKET_MAXNUM"
    "type \<in> {SI_TYPE_UDP, SI_TYPE_DATA}" "length link < 16"
    "length s_addr = 128" "length d_addr = 128" "s_addr ! 0 = 28" "d_addr ! 0 = 28"
  shows "\<exists>s' d. kSocketRegistDataSocketInfo True True type handle (Some link) pt s_addr d_addr
       parser parent AF_INET6 tls_mode tls_ssl s = Inr (g_socket_socketid s + 1, s') \<and>
     ksocket_inv s' \<and> sock s' = (sock s)(g_socket_socketid s + 1 \<mapsto>
       data_socket type (g_socket_socketid s + 1) handle link pt d tls_mode tls_ssl) \<and>
     di_s_addr d = take 16 (drop 8 s_addr) \<and> di_d_addr d = take 16 (drop 8 d_addr) \<and>
     di_s_port d = be16 s_addr 2 \<and> di_d_port d = be16 d_addr 2 \<and>
     di_parser d = (if take 4 (drop 24 d_addr) = replicate 4 0 then None
        else Some (FnWild (take 4 (drop 24 d_addr))))"
proof -
  let ?d0 = "di_zero\<lparr>di_parser := parser, di_parent_socketid := parent, di_family := AF_INET6,
     di_s_port := be16 s_addr 2, di_d_port := be16 d_addr 2\<rparr>"
  obtain d where d: "di_copy_addr (if AF_INET6 = AF_INET then 4 else 8) s_addr d_addr ?d0 = Inr d"
    "di_s_addr d = take 16 (drop 8 s_addr)" "di_d_addr d = take 16 (drop 8 d_addr)"
    "di_parser d = fn_of_bytes (take 4 (drop 24 d_addr))"
    "di_s_port d = be16 s_addr 2" "di_d_port d = be16 d_addr 2"
    using di_copy_addr_v6 [OF assms(5-8), of ?d0] by (simp add: AF_INET6_def AF_INET_def di_zero_def)
  from regist_data [OF assms(1-4) d(1)] obtain s' where
    "kSocketRegistDataSocketInfo True True type handle (Some link) pt s_addr d_addr
       parser parent AF_INET6 tls_mode tls_ssl s = Inr (g_socket_socketid s + 1, s')"
    "ksocket_inv s'" "sock s' = (sock s)(g_socket_socketid s + 1 \<mapsto>
       data_socket type (g_socket_socketid s + 1) handle link pt d tls_mode tls_ssl)" by blast
  with d(2-) show ?thesis
    by (intro exI [of _ s'] exI [of _ d]) (simp add: fn_of_bytes_def)
qed

definition demo_addr6 :: "byte list" where
  "demo_addr6 = [28, 28, 0, 53] @ replicate 4 0 @ [254, 128] @ replicate 14 0 @ [2] @ replicate 103 0"

theorem kSocketRegistDataSocketInfo_v6_overrun_witness:
  "\<exists>s' d. kSocketRegistDataSocketInfo True True SI_TYPE_DATA 9 (Some ''Link0'') 3 demo_addr6 demo_addr6
       (Some FnDNS) 2 AF_INET6 0 None demo = Inr (7, s') \<and>
     sock s' 7 = Some (data_socket SI_TYPE_DATA 7 9 ''Link0'' 3 d 0 None) \<and>
     di_parser d = Some (FnWild [2, 0, 0, 0])"
  using kSocketRegistDataSocketInfo_v6_overrun [of demo SI_TYPE_DATA "''Link0''" demo_addr6
      demo_addr6 9 3 "Some FnDNS" 2 0 None] demo_inv
  by (auto simp: demo_addr6_def demo_def SOCKET_MAXNUM_def numeral_eq_Suc)

section \<open>Properties: closing\<close>

lemma sock_set_status:
  assumes "ksocket_inv s" "sk_table s = us @ si # rest" "sk_table s' = us @ closed si # rest"
  shows "sock s' = (sock s)(si_socketid si \<mapsto> closed si)"
proof -
  have "si_socketid si \<notin> si_socketid ` set us"
    using ksocket_inv_distinct [OF assms(1)] assms(2) by auto
  then have "List.find (\<lambda>x. si_socketid x = si_socketid si) us = None"
    unfolding find_None_iff by (metis imageI)
  then have "sock s' i = ((sock s)(si_socketid si \<mapsto> closed si)) i" for i
    using assms(2,3) by (auto simp: sock_def find_append split: option.split)
  then show ?thesis by blast
qed

text \<open>
  C28: Closing a socket that is no TCP listener and not the command socket, and is alive, closes
  its descriptor, takes it out of the select list and marks exactly this socket CLOSE; a second
  close, a failing \<open>close()\<close> and an unknown id are refused without any change.
\<close>

theorem kSocketClose_single:
  assumes inv: "ksocket_inv s" and b: "all_bufs b" and i: "0 < i"
    and fd: "fds_ok (sk_table s)"
    and tcp: "\<forall>si. sock s i = Some si \<longrightarrow> si_type si \<noteq> SI_TYPE_LISTEN_TCP"
    and cl: "\<forall>j. cl j = ok"
  shows "case sock s i of
      None \<Rightarrow> kSocketClose cl b i s = Inr (RETURN_NG, s)
    | Some si \<Rightarrow>
        if si_type si = SI_TYPE_UNIX \<or> si_socket_status si = SI_STATUS_CLOSE \<or> \<not> ok
        then kSocketClose cl b i s = Inr (RETURN_NG, s)
        else \<exists>s'. kSocketClose cl b i s = Inr (RETURN_OK, s') \<and> ksocket_inv s' \<and>
          sock s' = (sock s)(i \<mapsto> closed si) \<and>
          g_readfds s' = g_readfds s - {si_sockethandle si} \<and>
          closed_fds s' = closed_fds s @ [si_sockethandle si]"
proof (cases "sock s i")
  case None
  with inv i b show ?thesis by (simp add: kSocketClose_def sk.get_none)
next
  case (Some si)
  from Some sock_index [OF inv, of i] obtain k where
    k: "si_loop 0 (\<lambda>si. si_socketid si = i) (sk_table s) = Some k" "sk_table s ! k = si" by auto
  with first_index_Some [of "\<lambda>si. si_socketid si = i" "sk_table s" k]
  have len: "k < length (sk_table s)" "si_socketid si = i" by (auto simp: si_loop_inv [OF inv])
  let ?us = "take k (sk_table s)" and ?rest = "drop (Suc k) (sk_table s)"
  have sp: "sk_table s = ?us @ si # ?rest" using id_take_nth_drop [OF len(1)] k(2) by simp
  have fd': "0 \<le> si_sockethandle si" "si_sockethandle si < FD_SETSIZE"
    using fd len(1) k(2) by (auto simp: fds_ok_def)
  have ent: "close_entry k s = Inr (s\<lparr>sk_table := ?us @ closed si # ?rest,
     g_readfds := g_readfds s - {si_sockethandle si},
     closed_fds := closed_fds s @ [si_sockethandle si]\<rparr>)" (is "_ = Inr ?s'")
    using close_entry_at [OF sp fd'] len(1) by simp
  have run: "kSocketClose cl b i s = close_pattern3 cl i s"
    using inv b i Some tcp sp by (auto simp: kSocketClose_def sk.get_some)
  have "ksocket_inv ?s'" by (rule closed_inv [OF inv sp]) auto
  moreover have "sock ?s' = (sock s)(i \<mapsto> closed si)"
    using sock_set_status [OF inv sp, of ?s'] len(2) by simp
  ultimately show ?thesis
    using Some run k ent cl by (auto simp: close_pattern3_def Let_def)
qed

theorem kSocketClose_single_witness:
  "\<exists>s'. kSocketClose (\<lambda>_. True) demo_bufs 6 demo = Inr (RETURN_OK, s') \<and>
     g_readfds s' = {3, 4, 5, 6, 7} \<and> closed_fds s' = [8]"
proof -
  have s6: "sock demo 6 = Some (demo_si SI_TYPE_UDP 6 8 (DataI (demo_data 0)))"
    by (simp add: sock_def demo_defs)
  have "g_readfds demo - {8} = {3, 4, 5, 6, 7}" by (auto simp: demo_def)
  with kSocketClose_single [of demo demo_bufs 6 "\<lambda>_. True" True] demo_inv s6 show ?thesis
    by (auto simp: demo_si_def socket_consts demo_def)
qed

text \<open>
  Socket id 0 closes every socket that is alive and no UNIX socket, when \<open>close()\<close>
  succeeds, and no other: their descriptors are closed in table order and leave the select
  list.
\<close>

theorem kSocketClose_all:
  assumes "ksocket_inv s" "fds_ok (sk_table s)" "sk_table s \<noteq> []"
  shows "\<exists>s'. kSocketClose (\<lambda>_. True) b 0 s = Inr (RETURN_OK, s') \<and>
     sk_table s' = map (\<lambda>si. if hit1 si then closed si else si) (sk_table s) \<and>
     g_readfds s' = g_readfds s - si_sockethandle ` {si \<in> set (sk_table s). hit1 si} \<and>
     closed_fds s' = closed_fds s @ map si_sockethandle (filter hit1 (sk_table s))"
  using close_pattern1_closes [of s "[]" "sk_table s"] assms ksocket_inv_length [OF assms(1)]
  by (auto simp: kSocketClose_def)

theorem kSocketClose_all_witness:
  "\<exists>s'. kSocketClose (\<lambda>_. True) demo_bufs 0 demo = Inr (RETURN_OK, s') \<and>
     closed_fds s' = [4, 5, 6, 7, 8]"
proof -
  have "filter hit1 (sk_table demo) = tl (sk_table demo)" "sk_table demo \<noteq> []"
    by (simp_all add: demo_defs hit1_def is_unix_def socket_consts)
  with kSocketClose_all [of demo demo_bufs] demo_inv show ?thesis
    by (auto simp: demo_defs)
qed

text \<open>
  C36: Closing a TCP listening socket also closes every TCP connection that is alive, whichever
  listening socket it belongs to: the condition that is to select the listener's children
  joins its two halves with \<open>||\<close>. UNIX sockets are spared.
\<close>

theorem kSocketClose_listener_closes_all_connections:
  assumes inv: "ksocket_inv s" and b: "all_bufs b" and "fds_ok (sk_table s)"
    and si: "sock s i = Some si" "si_type si = SI_TYPE_LISTEN_TCP"
  shows "\<exists>s'. kSocketClose (\<lambda>_. True) b i s = Inr (RETURN_OK, s') \<and> ksocket_inv s' \<and>
     list_all2 (after2 i) (sk_table s) (sk_table s') \<and>
     (\<forall>x \<in> set (sk_table s'). si_type x = SI_TYPE_DATA \<or> si_socketid x = i \<longrightarrow>
        si_socket_status x = SI_STATUS_CLOSE)"
proof -
  from sock_ok [OF inv si(1)] have pos: "1 \<le> i" "sk_table s \<noteq> []" by auto
  from close_pattern2_closes [of s "[]" "sk_table s" "fill si b" i] assms obtain s' where
    s': "close_pattern2 (\<lambda>_. True) i 0 (sk_table s) (fill si b) s = Inr s'" "ksocket_inv s'"
      "list_all2 (after2 i) (sk_table s) (sk_table s')" by auto
  have "kSocketClose (\<lambda>_. True) b i s = Inr (RETURN_OK, s')"
    using inv b si pos s'(1) by (simp add: kSocketClose_def sk.get_some)
  moreover have "si_socket_status x = SI_STATUS_CLOSE"
    if "x \<in> set (sk_table s')" "si_type x = SI_TYPE_DATA \<or> si_socketid x = i" for x
  proof -
    from that(1) s'(3) obtain y where y: "y \<in> set (sk_table s)" "after2 i y x"
      by (metis in_set_conv_nth list_all2_conv_all_nth)
    then have "si_type x = si_type y" "si_socketid x = si_socketid y" by (auto simp: after2_def)
    moreover have "\<not> is_unix y"
      using sock_Some [OF inv y(1)] si that(2) calculation by (auto simp: is_unix_def si_types)
    ultimately show ?thesis using y(2) that(2) by (auto simp: after2_def)
  qed
  ultimately show ?thesis using s' by blast
qed

theorem kSocketClose_listener_closes_all_connections_witness:
  "\<exists>s'. kSocketClose (\<lambda>_. True) demo_bufs 2 demo = Inr (RETURN_OK, s') \<and>
     (\<forall>x \<in> set (sk_table s'). si_type x = SI_TYPE_DATA \<or> si_socketid x = 2 \<longrightarrow>
        si_socket_status x = SI_STATUS_CLOSE)"
proof -
  have "sock demo 2 = Some (sk_table demo ! 1)" "si_type (sk_table demo ! 1) = SI_TYPE_LISTEN_TCP"
    by (simp_all add: sock_def demo_defs)
  from kSocketClose_listener_closes_all_connections [OF demo_inv this] show ?thesis by blast
qed

end
