(* ===== verification/KData.thy ===== *)
theory KData
  imports Koi_Heap KSocket
begin

text \<open>
  \<open>lib/kData\<close>: the table of all messages sent and received. Messages are registered with the
  addresses of their socket, handed out once per reader in order of arrival, and dropped by a
  flush.
\<close>

section \<open>State\<close>

definition MSG_SOCKETMODE_RECV :: int where "MSG_SOCKETMODE_RECV = 1"
definition MSG_SOCKETMODE_SEND :: int where "MSG_SOCKETMODE_SEND = 2"
definition MSG_RECVFLG_NOT_READ :: int where "MSG_RECVFLG_NOT_READ = 1"
definition MSG_RECVFLG_READ :: int where "MSG_RECVFLG_READ = 2"
definition MSG_MAXMSGNUM :: int where "MSG_MAXMSGNUM = 2147483647"

lemmas msg_consts [koi_simps] = MSG_SOCKETMODE_RECV_def MSG_SOCKETMODE_SEND_def
  MSG_RECVFLG_NOT_READ_def MSG_RECVFLG_READ_def MSG_MAXMSGNUM_def

text \<open>\<open>MsgData\<close>; the block behind \<open>msg_data_ptr\<close> is owned by the node.\<close>

record msg_data =
  msg_dataid :: int
  msg_socketid :: int
  msg_timestamp :: timeval
  msg_socketmode :: int
  msg_s_port :: int
  msg_d_port :: int
  msg_s_addr :: in6_addr
  msg_d_addr :: in6_addr
  msg_recvflg :: int
  msg_family :: int
  msg_datalen :: int
  msg_bytes :: "byte list"
  msg_next :: "nat option"

definition msg_setnext :: "nat option \<Rightarrow> msg_data \<Rightarrow> msg_data" where
  "msg_setnext q n = n\<lparr>msg_next := q\<rparr>"

record kdata =
  md_tbl :: "msg_data tbl"
  g_msg_dataid :: int

definition kdata_boot :: "bool \<Rightarrow> kdata" where
  "kdata_boot k = \<lparr>md_tbl = empty_tbl k, g_msg_dataid = 0\<rparr>"

section \<open>Operations\<close>

definition kDataInit :: "kdata \<Rightarrow> (bool \<times> kdata) res" where
  "kDataInit s =
     (let t = (md_tbl s)\<lparr>final := None\<rparr> in
      bind_res
        (case first t of
           Some _ \<Rightarrow> bind_res (free_nodes (brk (hp t)) msg_next (hp t) (first t)) (\<lambda>h.
             Inr (t\<lparr>hp := h, first := None\<rparr>))
         | None \<Rightarrow> Inr t)
        (\<lambda>t. Inr (True, \<lparr>md_tbl = t, g_msg_dataid = 0\<rparr>)))"

text \<open>
  The loop of \<open>kDataClear\<close>: \<open>m\<close> says whether \<open>clear_flag\<close> is set for a node. Nodes are unlinked
  from the first pointer or their predecessor and freed; the last pointer is not touched.
\<close>

fun clear_loop :: "nat \<Rightarrow> (msg_data \<Rightarrow> bool) \<Rightarrow> nat option \<Rightarrow> nat option \<Rightarrow> msg_data tbl
    \<Rightarrow> msg_data tbl res" where
  "clear_loop k m prev None t = Inr t"
| "clear_loop 0 m prev (Some a) t = Inl Endless"
| "clear_loop (Suc k) m prev (Some a) t = bind_res (load (hp t) (Some a)) (\<lambda>n.
     if \<not> m n then clear_loop k m (Some a) (msg_next n) t
     else bind_res
       (case prev of
          Some p \<Rightarrow> bind_res (load (hp t) prev) (\<lambda>pn.
             bind_res (hstore (hp t) prev (msg_setnext (msg_next n) pn)) (\<lambda>h. Inr (t\<lparr>hp := h\<rparr>)))
        | None \<Rightarrow> Inr (t\<lparr>first := msg_next n\<rparr>))
       (\<lambda>t. let t = (if first t = Some a then t\<lparr>first := prev\<rparr> else t) in
          bind_res (hfree (hp t) (Some a)) (\<lambda>h.
            clear_loop k m prev (msg_next n) (t\<lparr>hp := h\<rparr>))))"

definition clear_match :: "int \<Rightarrow> int \<Rightarrow> int \<Rightarrow> int \<Rightarrow> msg_data \<Rightarrow> bool" where
  "clear_match socketid_flag dataid_flag socketid dataid n \<longleftrightarrow>
     (dataid_flag = 1 \<and> msg_dataid n = dataid) \<or> (socketid_flag = 1 \<and> msg_socketid n = socketid)"

definition kDataClear :: "int \<Rightarrow> int \<Rightarrow> int \<Rightarrow> int \<Rightarrow> kdata \<Rightarrow> (bool \<times> kdata) res" where
  "kDataClear socketid_flag dataid_flag socketid dataid s =
     (if first (md_tbl s) = None then Inr (True, s)
      else if socketid_flag = 0 \<and> dataid_flag = 0 then
        (if socketid = 0 \<and> dataid = 0
         then bind_res (kDataInit s) (\<lambda>(_, s). Inr (True, s))
         else Inr (False, s))
      else bind_res (clear_loop (brk (hp (md_tbl s)))
             (clear_match socketid_flag dataid_flag socketid dataid) None (first (md_tbl s)) (md_tbl s))
        (\<lambda>t. Inr (True, s\<lparr>md_tbl := t\<rparr>)))"

text \<open>The zeroed local variables the lookups of this component write to.\<close>

definition zero_bufs :: si_bufs where
  "zero_bufs = \<lparr>b_socketinfo = Some \<lparr>si_type = 0, si_socketid = 0, si_sockethandle = 0,
       si_linkname = [], si_socket_status = 0, si_uniq = UnixdI \<lparr>ui_sockpath = []\<rparr>,
       si_peyload_type = 0, si_tls_mode = 0, si_tls_ssl = None\<rparr>,
     b_unixd = Some \<lparr>ui_sockpath = []\<rparr>, b_data = Some di_zero,
     b_listen = Some \<lparr>li_s_port = 0, li_s_addr = replicate 16 0, li_family = 0\<rparr>\<rparr>"

text \<open>The message that \<open>kDataRegist\<close> builds from the socket's data and the arguments.\<close>

definition build_msg :: "int \<Rightarrow> int \<Rightarrow> int \<Rightarrow> datasocket_info \<Rightarrow> listenport_info \<Rightarrow> int \<Rightarrow> byte list
    \<Rightarrow> timeval \<Rightarrow> msg_data" where
  "build_msg dataid socketid mode d l datalen bytes datatime =
     (let send = (mode = MSG_SOCKETMODE_SEND); recv = (mode = MSG_SOCKETMODE_RECV) in
      \<lparr>msg_dataid = dataid, msg_socketid = socketid, msg_timestamp = datatime, msg_socketmode = mode,
       msg_s_port = (if send then di_s_port d else if recv then di_d_port d else 0),
       msg_d_port = (if send then di_d_port d else if recv then di_s_port d else 0),
       msg_s_addr = (if send then di_s_addr d else if recv then di_d_addr d else replicate 16 0),
       msg_d_addr = (if send then di_d_addr d else if recv then di_s_addr d else replicate 16 0),
       msg_recvflg = MSG_RECVFLG_NOT_READ,
       msg_family = (if di_family d \<noteq> 0 then di_family d else li_family l),
       msg_datalen = datalen, msg_bytes = bytes, msg_next = None\<rparr>)"

definition kDataRegist :: "ksocket \<Rightarrow> bool \<Rightarrow> bool \<Rightarrow> int \<Rightarrow> int \<Rightarrow> int \<Rightarrow> byte list \<Rightarrow> timeval
    \<Rightarrow> kdata \<Rightarrow> (int \<times> kdata) res" where
  "kDataRegist sks m1 m2 socketid mode datalen data datatime s =
     (if g_msg_dataid s = MSG_MAXMSGNUM then Inr (RETURN_NG, s)
      else bind_res (kSocketGetSIBySocketId socketid zero_bufs sks) (\<lambda>(ret, b).
        if ret \<noteq> 0 then Inr (RETURN_NG, s)
        else let si = the (b_socketinfo b) in
          if si_type si = SI_TYPE_UNIX \<or> si_type si = SI_TYPE_UNIX_DATA \<or>
             si_type si = SI_TYPE_LISTEN_UDP \<or> si_type si = SI_TYPE_LISTEN_TCP
          then Inr (RETURN_NG, s)
          else if \<not> m1 then Inr (RETURN_NG, s)
          else case malloc_bytes m2 datalen of
            None \<Rightarrow> Inr (RETURN_NG, s)
          | Some buf \<Rightarrow>
              bind_res (cmemcpy buf 0 data (nat datalen)) (\<lambda>buf.
              let (a, h) = halloc (build_msg (long_of (g_msg_dataid s + 1)) (si_socketid si) mode
                    (the (b_data b)) (the (b_listen b)) datalen buf datatime) (hp (md_tbl s)) in
              bind_res (link_last msg_setnext ((md_tbl s)\<lparr>hp := h\<rparr>) a) (\<lambda>t.
                Inr (RETURN_OK, \<lparr>md_tbl = t, g_msg_dataid = long_of (g_msg_dataid s + 1)\<rparr>)))))"

text \<open>
  The result of a lookup: the return value, \<open>*msginfo\<close> if it was written, and the caller's
  buffer \<open>data\<close>.
\<close>

definition kDataGetDataByDataid :: "int \<Rightarrow> bool \<Rightarrow> byte list option \<Rightarrow> kdata \<Rightarrow>
    (int \<times> msg_data option \<times> byte list option) res" where
  "kDataGetDataByDataid dataid msginfo data s =
     (case data of
        None \<Rightarrow> Inr (RETURN_NG, None, data)
      | Some dst \<Rightarrow>
          if \<not> msginfo then Inr (RETURN_NG, None, data)
          else if first (md_tbl s) = None then Inr (1, None, data)
          else bind_res (scan (brk (hp (md_tbl s))) msg_next (\<lambda>n. msg_dataid n = dataid)
                 (hp (md_tbl s)) None (first (md_tbl s)))
            (\<lambda>found. case found of
               None \<Rightarrow> Inr (1, None, data)
             | Some (prev, a, n) \<Rightarrow>
                 bind_res (cmemcpy dst 0 (msg_bytes n) (nat (msg_datalen n))) (\<lambda>dst.
                   Inr (RETURN_OK, Some n, Some dst))))"

text \<open>
  The search for a listening socket: each message's own socket is looked up, and the local
  variables keep what the last successful lookup wrote.
\<close>

definition listen_match :: "int \<Rightarrow> int \<Rightarrow> si_bufs \<Rightarrow> msg_data \<Rightarrow> bool" where
  "listen_match socketid ret b n \<longleftrightarrow> ret > -1 \<and>
     (let si = the (b_socketinfo b) in
      (si_type si = SI_TYPE_DATA \<or> si_type si = SI_TYPE_UDP) \<and> si_socket_status si = SI_STATUS_ALIVE) \<and>
     msg_socketmode n = MSG_SOCKETMODE_RECV \<and> msg_recvflg n = MSG_RECVFLG_NOT_READ \<and>
     di_parent_socketid (the (b_data b)) = socketid"

fun listen_scan :: "nat \<Rightarrow> int \<Rightarrow> ksocket \<Rightarrow> msg_data heap \<Rightarrow> nat option \<Rightarrow> si_bufs \<Rightarrow>
    ((nat \<times> msg_data) option \<times> si_bufs) res" where
  "listen_scan 0 socketid sks h cur b = Inl Endless"
| "listen_scan (Suc k) socketid sks h cur b =
     (case cur of None \<Rightarrow> Inl NullDeref
      | Some a \<Rightarrow> bind_res (load h cur) (\<lambda>n.
          bind_res (kSocketGetSIBySocketId (msg_socketid n) b sks) (\<lambda>(ret, b).
            if listen_match socketid ret b n then Inr (Some (a, n), b)
            else case msg_next n of None \<Rightarrow> Inr (None, b)
              | Some c \<Rightarrow> listen_scan k socketid sks h (Some c) b)))"

definition unread :: "msg_data \<Rightarrow> bool" where
  "unread n \<longleftrightarrow> msg_socketmode n = MSG_SOCKETMODE_RECV \<and> msg_recvflg n = MSG_RECVFLG_NOT_READ"

text \<open>Which message is meant, by the type of the socket asked for; \<open>None\<close> is an invalid type.\<close>

definition find_data :: "int \<Rightarrow> ksocket \<Rightarrow> msg_data tbl \<Rightarrow> si_bufs \<Rightarrow>
    ((nat \<times> msg_data) option \<times> si_bufs) option res" where
  "find_data socketid sks t b =
     (let ty = si_type (the (b_socketinfo b)) in
      if socketid = 0 then
        bind_res (scan (brk (hp t)) msg_next unread (hp t) None (first t)) (\<lambda>f.
          Inr (Some (map_option snd f, b)))
      else if ty = SI_TYPE_UDP \<or> ty = SI_TYPE_DATA \<or> ty = SI_TYPE_RAW then
        bind_res (scan (brk (hp t)) msg_next (\<lambda>n. unread n \<and> msg_socketid n = socketid)
            (hp t) None (first t)) (\<lambda>f. Inr (Some (map_option snd f, b)))
      else if ty = SI_TYPE_LISTEN_TCP \<or> ty = SI_TYPE_LISTEN_UDP then
        bind_res (listen_scan (brk (hp t)) socketid sks (hp t) (first t) b) (\<lambda>r. Inr (Some r))
      else Inr None)"

definition kDataGetDataBySocketid :: "ksocket \<Rightarrow> int \<Rightarrow> byte list \<Rightarrow> kdata \<Rightarrow>
    (int \<times> msg_data option \<times> byte list \<times> kdata) res" where
  "kDataGetDataBySocketid sks socketid data s =
     (if first (md_tbl s) = None then Inr (1, None, data, s)
      else bind_res
        (if socketid > 0 then kSocketGetSIBySocketId socketid zero_bufs sks
         else if socketid < 0 then Inr (RETURN_NG, zero_bufs) else Inr (RETURN_OK, zero_bufs))
        (\<lambda>(ret, b).
          if ret < 0 then Inr (RETURN_NG, None, data, s)
          else bind_res (find_data socketid sks (md_tbl s) b) (\<lambda>r. case r of
            None \<Rightarrow> Inr (RETURN_NG, None, data, s)
          | Some (None, b) \<Rightarrow> Inr (1, None, data, s)
          | Some (Some (a, n), b) \<Rightarrow>
              bind_res (cmemcpy data 0 (msg_bytes n) (nat (msg_datalen n))) (\<lambda>data.
              let msg = n\<lparr>msg_recvflg := MSG_RECVFLG_READ,
                    msg_family := (if di_family (the (b_data b)) \<noteq> 0 then di_family (the (b_data b))
                      else if li_family (the (b_listen b)) \<noteq> 0 then li_family (the (b_listen b))
                      else msg_family n)\<rparr> in
              bind_res (hstore (hp (md_tbl s)) (Some a) (n\<lparr>msg_recvflg := MSG_RECVFLG_READ\<rparr>)) (\<lambda>h.
                Inr (RETURN_OK, Some msg, data, s\<lparr>md_tbl := (md_tbl s)\<lparr>hp := h\<rparr>\<rparr>))))))"

lemmas kdata_defs [koi_simps] = msg_setnext_def kdata_boot_def kDataInit_def clear_match_def
  kDataClear_def zero_bufs_def build_msg_def kDataRegist_def kDataGetDataByDataid_def
  listen_match_def unread_def find_data_def kDataGetDataBySocketid_def

section \<open>Invariant and abstraction\<close>

abbreviation msg_pay :: "msg_data \<Rightarrow> msg_data" where
  "msg_pay \<equiv> msg_setnext None"

interpretation md: linked_node msg_next msg_setnext msg_pay
  by unfold_locales (auto simp: msg_setnext_def)

text \<open>The messages in order of registration.\<close>

definition messages :: "kdata \<Rightarrow> msg_data list" where
  "messages s = map (msg_pay \<circ> snd) (nodes msg_next (md_tbl s))"

definition msgs_ok :: "int \<Rightarrow> msg_data list \<Rightarrow> bool" where
  "msgs_ok g ms \<longleftrightarrow> sorted_wrt (<) (map msg_dataid ms) \<and>
     (\<forall>m \<in> set ms. 1 \<le> msg_dataid m \<and> msg_dataid m \<le> g \<and> msg_datalen m = int (length (msg_bytes m)))"

definition kdata_inv :: "kdata \<Rightarrow> bool" where
  "kdata_inv s \<longleftrightarrow> tbl_chain msg_next (md_tbl s) (nodes msg_next (md_tbl s)) \<and>
     msgs_ok (g_msg_dataid s) (messages s) \<and> 0 \<le> g_msg_dataid s \<and> g_msg_dataid s \<le> MSG_MAXMSGNUM"

text \<open>The last pointer is where an append needs it.\<close>

definition appendable :: "kdata \<Rightarrow> bool" where
  "appendable s \<longleftrightarrow> tbl_ok msg_next (md_tbl s) (nodes msg_next (md_tbl s))"

lemma messages_chain:
  "tbl_chain msg_next (md_tbl s) xs \<Longrightarrow> messages s = map (msg_pay \<circ> snd) xs"
  by (simp add: messages_def tbl_chain_nodes)

lemma kdata_invI:
  assumes "tbl_chain msg_next (md_tbl s) xs" "map (msg_pay \<circ> snd) xs = ms"
    "msgs_ok (g_msg_dataid s) ms" "0 \<le> g_msg_dataid s" "g_msg_dataid s \<le> MSG_MAXMSGNUM"
  shows "kdata_inv s" "messages s = ms"
  using assms messages_chain [OF assms(1)] tbl_chain_nodes [OF assms(1)]
  by (auto simp: kdata_inv_def)

lemma kdata_inv_boot: "kdata_inv (kdata_boot k)" "appendable (kdata_boot k)" "messages (kdata_boot k) = []"
  by (simp_all add: kdata_inv_def appendable_def messages_def kdata_boot_def tbl_ok_def nodes_def
      tbl_chain_def msgs_ok_def empty_tbl_def empty_heap_def heap_ok_def MSG_MAXMSGNUM_def)

lemma msg_pay_simps [simp]:
  "msg_dataid (msg_setnext q n) = msg_dataid n" "msg_socketid (msg_setnext q n) = msg_socketid n"
  "unread (msg_setnext q n) = unread n" "msg_bytes (msg_setnext q n) = msg_bytes n"
  "msg_datalen (msg_setnext q n) = msg_datalen n" "msg_family (msg_setnext q n) = msg_family n"
  "listen_match i r b (msg_setnext q n) = listen_match i r b n"
  "clear_match f1 f2 i d (msg_setnext q n) = clear_match f1 f2 i d n"
  by (simp_all add: msg_setnext_def unread_def listen_match_def clear_match_def)

lemma first_nodes: "kdata_inv s \<Longrightarrow> first (md_tbl s) = None \<longleftrightarrow> messages s = []"
  by (auto simp: kdata_inv_def messages_def dest: tbl_chain_first)

section \<open>kDataInit\<close>

lemma kDataInit_clears:
  assumes "kdata_inv s"
  shows "\<exists>s'. kDataInit s = Inr (True, s') \<and> kdata_inv s' \<and> appendable s' \<and> messages s' = [] \<and>
     g_msg_dataid s' = 0"
proof -
  let ?xs = "nodes msg_next (md_tbl s)"
  from assms have ch: "tbl_chain msg_next (md_tbl s) ?xs" by (simp add: kdata_inv_def)
  then have c: "chain msg_next (hp (md_tbl s)) (first (md_tbl s)) ?xs None" "heap_ok (hp (md_tbl s))"
    by (auto simp: tbl_chain_def)
  have clear: "kdata_inv s' \<and> appendable s' \<and> messages s' = []"
    if "s' = \<lparr>md_tbl = t, g_msg_dataid = 0\<rparr>" "first t = None" "heap_ok (hp t)" for s' t
  proof -
    have "tbl_chain msg_next t []" using that by (simp add: tbl_chain_def)
    from tbl_chain_nodes [OF this] this show ?thesis
      using that by (simp add: kdata_inv_def appendable_def messages_def tbl_ok_def msgs_ok_def
          MSG_MAXMSGNUM_def)
  qed
  show ?thesis
  proof (cases "?xs = []")
    case True
    then have "first (md_tbl s) = None" using tbl_chain_first [OF ch] by simp
    then show ?thesis using clear c(2) by (simp add: kDataInit_def Let_def)
  next
    case False
    then obtain f where f: "first (md_tbl s) = Some f" using tbl_chain_first [OF ch] by auto
    from free_nodes_chain [OF c(1) False chain_length [OF c(2,1)] c(2)] obtain h where
      "free_nodes (brk (hp (md_tbl s))) msg_next (hp (md_tbl s)) (first (md_tbl s)) = Inr h" "heap_ok h"
      by blast
    then show ?thesis using f clear by (simp add: kDataInit_def Let_def)
  qed
qed

section \<open>kDataRegist\<close>

definition data_type :: "int \<Rightarrow> bool" where
  "data_type ty \<longleftrightarrow> ty = SI_TYPE_UDP \<or> ty = SI_TYPE_DATA \<or> ty = SI_TYPE_RAW"

lemma zero_bufs_all [simp]: "all_bufs zero_bufs"
  by (simp add: all_bufs_def zero_bufs_def)

lemma msgs_ok_snoc:
  assumes "msgs_ok g ms" "msg_dataid m = g + 1" "msg_datalen m = int (length (msg_bytes m))" "0 \<le> g"
  shows "msgs_ok (g + 1) (ms @ [m])"
  using assms unfolding msgs_ok_def by (fastforce simp: sorted_wrt_append)

lemma kDataRegist_append:
  assumes inv: "kdata_inv s" "appendable s" and sks: "ksocket_inv sks"
    and si: "sock sks i = Some si" "si_uniq si = DataI d" "data_type (si_type si)"
    and g: "g_msg_dataid s \<noteq> MSG_MAXMSGNUM" and len: "0 \<le> datalen" "datalen \<le> int (length data)"
  shows "\<exists>s'. kDataRegist sks True True i mode datalen data time s = Inr (RETURN_OK, s') \<and>
     kdata_inv s' \<and> appendable s' \<and> g_msg_dataid s' = g_msg_dataid s + 1 \<and>
     messages s' = messages s @ [build_msg (g_msg_dataid s + 1) i mode d
       (the (b_listen zero_bufs)) datalen (take (nat datalen) data) time]"
proof -
  let ?xs = "nodes msg_next (md_tbl s)" and ?g = "g_msg_dataid s + 1"
  let ?n = "build_msg ?g i mode d (the (b_listen zero_bufs)) datalen (take (nat datalen) data) time"
  have ok: "tbl_ok msg_next (md_tbl s) ?xs" using inv(2) by (simp add: appendable_def)
  obtain a h where ah: "halloc ?n (hp (md_tbl s)) = (a, h)" by (cases "halloc ?n (hp (md_tbl s))")
  note al = halloc_tbl [OF ok ah]
  from md.link_last_ok [OF al(1,2)] obtain t where
    t: "link_last msg_setnext ((md_tbl s)\<lparr>hp := h\<rparr>) a = Inr t"
      "tbl_ok msg_next t (relink msg_setnext (Some a) ?xs @ [(a, msg_pay ?n)])" by blast
  let ?s' = "\<lparr>md_tbl = t, g_msg_dataid = ?g\<rparr>"
  from inv(1) g have bounds: "0 \<le> g_msg_dataid s" "g_msg_dataid s < MSG_MAXMSGNUM"
    by (auto simp: kdata_inv_def)
  then have long: "long_of ?g = ?g" by (simp add: MSG_MAXMSGNUM_def)
  have sid: "si_socketid si = i" using sock_ok [OF sks si(1)] by simp
  have bl: "b_listen (fill si zero_bufs) = b_listen zero_bufs" using si(2) by (simp add: fill_def)
  have "kDataRegist sks True True i mode datalen data time s = Inr (RETURN_OK, ?s')"
    using g len t(1) ah long sid bl si(3) sk.get_some [OF sks si(1), of zero_bufs] si(2)
    by (auto simp: kDataRegist_def malloc_bytes_def data_type_def si_types)
  moreover
  have pay: "map (msg_pay \<circ> snd) (relink msg_setnext (Some a) ?xs @ [(a, msg_pay ?n)]) = messages s @ [?n]"
    using md.pay_relink [of "Some a" ?xs]
    by (simp add: messages_def md.pay_setnx) (simp add: build_msg_def msg_setnext_def Let_def)
  have "msgs_ok ?g (messages s @ [?n])"
    using inv(1) len by (intro msgs_ok_snoc) (auto simp: kdata_inv_def build_msg_def Let_def)
  with kdata_invI [of ?s', OF _ pay] tbl_okD(1) [OF t(2)] bounds
  have "kdata_inv ?s'" "messages ?s' = messages s @ [?n]" by auto
  moreover have "appendable ?s'" using t(2) tbl_ok_nodes [OF t(2)] by (simp add: appendable_def)
  ultimately show ?thesis by auto
qed

lemma kDataRegist_refused:
  assumes sks: "ksocket_inv sks"
    and bad: "g_msg_dataid s = MSG_MAXMSGNUM \<or> \<not> m1 \<or> \<not> m2 \<or>
       (case sock sks i of None \<Rightarrow> True | Some si \<Rightarrow> \<not> data_type (si_type si))"
  shows "kDataRegist sks m1 m2 i mode datalen data time s = Inr (RETURN_NG, s)"
proof (cases "sock sks i")
  case None
  then show ?thesis using sks by (simp add: kDataRegist_def sk.get_none)
next
  case (Some si)
  have "data_type (si_type si) \<or> si_type si = SI_TYPE_UNIX \<or> si_type si = SI_TYPE_UNIX_DATA \<or>
     si_type si = SI_TYPE_LISTEN_UDP \<or> si_type si = SI_TYPE_LISTEN_TCP"
    using sock_ok [OF sks Some] by (auto simp: si_ok_def data_type_def split: uniq_info.splits)
  then show ?thesis
    using bad Some sk.get_some [OF sks Some, of zero_bufs]
    by (auto simp: kDataRegist_def malloc_bytes_def data_type_def split: option.split)
qed

section \<open>Handing out a message\<close>

text \<open>Where a message sits in the node list.\<close>

lemma messages_split:
  assumes "messages s = us @ m # ws"
  obtains xs a n zs where "nodes msg_next (md_tbl s) = xs @ (a, n) # zs"
    "map (msg_pay \<circ> snd) xs = us" "msg_pay n = m" "map (msg_pay \<circ> snd) zs = ws"
proof -
  from assms obtain xs r where "nodes msg_next (md_tbl s) = xs @ r"
    "map (msg_pay \<circ> snd) xs = us" "map (msg_pay \<circ> snd) r = m # ws"
    by (auto simp: messages_def map_eq_append_conv)
  moreover from this(3) obtain y zs where "r = y # zs" "msg_pay (snd y) = m"
    "map (msg_pay \<circ> snd) zs = ws" by (auto simp: map_eq_Cons_conv)
  ultimately show ?thesis using that [of xs "fst y" "snd y" zs] by simp
qed

definition stable :: "(msg_data \<Rightarrow> bool) \<Rightarrow> bool" where
  "stable P \<longleftrightarrow> (\<forall>q n. P (msg_setnext q n) = P n)"

lemma stable_pay: "stable P \<Longrightarrow> (\<forall>x \<in> set xs. \<not> P (snd x)) \<longleftrightarrow> (\<forall>u \<in> set (map (msg_pay \<circ> snd) xs). \<not> P u)"
  by (auto simp: stable_def)

lemma scan_messages_found:
  assumes "kdata_inv s" "stable P" "nodes msg_next (md_tbl s) = xs @ (a, n) # zs"
    "\<forall>u \<in> set (map (msg_pay \<circ> snd) xs). \<not> P u" "P (msg_pay n)"
  shows "\<exists>r. scan (brk (hp (md_tbl s))) msg_next P (hp (md_tbl s)) None (first (md_tbl s)) =
     Inr (Some (r, a, n))"
proof -
  have "P n" using assms(2,5) by (simp add: stable_def)
  then have "seek P None (xs @ (a, n) # zs) = Some (if xs = [] then None else Some (fst (last xs)), a, n)"
    using assms(2,4) stable_pay by (intro seek_split) auto
  moreover have "tbl_chain msg_next (md_tbl s) (xs @ (a, n) # zs)"
    using assms(1,3) by (simp add: kdata_inv_def)
  ultimately show ?thesis using scan_tbl [of msg_next "md_tbl s" "xs @ (a, n) # zs" P] by auto
qed

lemma scan_messages_none:
  assumes "kdata_inv s" "stable P" "messages s \<noteq> []" "\<forall>u \<in> set (messages s). \<not> P u"
  shows "scan (brk (hp (md_tbl s))) msg_next P (hp (md_tbl s)) None (first (md_tbl s)) = Inr None"
proof -
  let ?xs = "nodes msg_next (md_tbl s)"
  have "seek P None ?xs = None"
    using assms(4) stable_pay [OF assms(2), of ?xs] by (simp add: seek_None messages_def)
  with scan_tbl [of msg_next "md_tbl s" ?xs P] assms(1,3) show ?thesis
    by (auto simp: kdata_inv_def messages_def)
qed

text \<open>Setting the read flag of a node.\<close>

lemma hand_out:
  assumes inv: "kdata_inv s" and sp: "nodes msg_next (md_tbl s) = xs @ (a, n) # zs"
  shows "\<exists>h. hstore (hp (md_tbl s)) (Some a) (n\<lparr>msg_recvflg := MSG_RECVFLG_READ\<rparr>) = Inr h \<and>
     (let s' = s\<lparr>md_tbl := (md_tbl s)\<lparr>hp := h\<rparr>\<rparr> in
      kdata_inv s' \<and> (appendable s \<longrightarrow> appendable s') \<and>
      messages s' = map (msg_pay \<circ> snd) xs @ (msg_pay n)\<lparr>msg_recvflg := MSG_RECVFLG_READ\<rparr> #
        map (msg_pay \<circ> snd) zs)"
proof -
  let ?n = "n\<lparr>msg_recvflg := MSG_RECVFLG_READ\<rparr>"
  let ?h = "(hp (md_tbl s))\<lparr>cells := (cells (hp (md_tbl s)))(a := Live ?n)\<rparr>"
  let ?s' = "s\<lparr>md_tbl := (md_tbl s)\<lparr>hp := ?h\<rparr>\<rparr>"
  have ch: "tbl_chain msg_next (md_tbl s) (xs @ (a, n) # zs)"
    using inv sp by (simp add: kdata_inv_def)
  then have "cells (hp (md_tbl s)) a = Live n" by (auto simp: tbl_chain_def chain_append)
  then have st: "hstore (hp (md_tbl s)) (Some a) ?n = Inr ?h" by simp
  have ch': "tbl_chain msg_next (md_tbl ?s') (xs @ (a, ?n) # zs)"
    using tbl_chain_set [OF ch, of ?n] by simp
  let ?ms = "map (msg_pay \<circ> snd) xs @ (msg_pay n)\<lparr>msg_recvflg := MSG_RECVFLG_READ\<rparr> # map (msg_pay \<circ> snd) zs"
  have pay: "map (msg_pay \<circ> snd) (xs @ (a, ?n) # zs) = ?ms"
    by (simp add: msg_setnext_def)
  have "msgs_ok (g_msg_dataid s) ?ms"
    using inv sp by (simp add: kdata_inv_def messages_def msgs_ok_def)
  with kdata_invI [of ?s', OF ch' pay] inv have "kdata_inv ?s'" "messages ?s' = ?ms"
    by (auto simp: kdata_inv_def)
  moreover have "appendable s \<Longrightarrow> appendable ?s'"
    using ch' tbl_chain_nodes [OF ch'] sp
    by (cases zs rule: rev_cases) (auto simp: appendable_def tbl_ok_def)
  ultimately show ?thesis using st by (auto simp: Let_def)
qed

text \<open>The message as it is handed out: read, and with the address family of its socket.\<close>

definition handed :: "si_bufs \<Rightarrow> msg_data \<Rightarrow> msg_data" where
  "handed b m = m\<lparr>msg_recvflg := MSG_RECVFLG_READ,
     msg_family := (if di_family (the (b_data b)) \<noteq> 0 then di_family (the (b_data b))
       else if li_family (the (b_listen b)) \<noteq> 0 then li_family (the (b_listen b))
       else msg_family m)\<rparr>"

text \<open>What remains to be done once the node is found.\<close>

lemma deliver:
  assumes inv: "kdata_inv s" and m: "messages s = us @ m # ws"
    and nodes: "nodes msg_next (md_tbl s) = xs @ (a, n) # zs" "length us = length xs"
    and ret: "(if i > 0 then kSocketGetSIBySocketId i zero_bufs sks
         else if i < 0 then Inr (RETURN_NG, zero_bufs) else Inr (RETURN_OK, zero_bufs)) = Inr (r, b)" "0 \<le> r"
    and find: "find_data i sks (md_tbl s) b = Inr (Some (Some (a, n), b'))"
    and len: "length (msg_bytes m) \<le> length data"
  shows "\<exists>s' q. kDataGetDataBySocketid sks i data s = Inr (RETURN_OK, Some (msg_setnext q (handed b' m)),
       msg_bytes m @ drop (length (msg_bytes m)) data, s') \<and> kdata_inv s' \<and>
     (appendable s \<longrightarrow> appendable s') \<and> messages s' = us @ m\<lparr>msg_recvflg := MSG_RECVFLG_READ\<rparr> # ws"
proof -
  have eq: "map (msg_pay \<circ> snd) xs = us" "msg_pay n = m" "map (msg_pay \<circ> snd) zs = ws"
    using m nodes by (auto simp: messages_def)
  then have fields: "msg_bytes n = msg_bytes m" "msg_datalen n = msg_datalen m"
    by auto
  have "msg_datalen m = int (length (msg_bytes m))"
    using inv m by (auto simp: kdata_inv_def msgs_ok_def)
  then have cp: "cmemcpy data 0 (msg_bytes n) (nat (msg_datalen n)) =
      Inr (msg_bytes m @ drop (length (msg_bytes m)) data)"
    using len by (simp add: fields)
  from hand_out [OF inv nodes(1)] obtain h where h:
    "hstore (hp (md_tbl s)) (Some a) (n\<lparr>msg_recvflg := MSG_RECVFLG_READ\<rparr>) = Inr h"
    "kdata_inv (s\<lparr>md_tbl := (md_tbl s)\<lparr>hp := h\<rparr>\<rparr>)"
    "appendable s \<longrightarrow> appendable (s\<lparr>md_tbl := (md_tbl s)\<lparr>hp := h\<rparr>\<rparr>)"
    "messages (s\<lparr>md_tbl := (md_tbl s)\<lparr>hp := h\<rparr>\<rparr>) = us @ m\<lparr>msg_recvflg := MSG_RECVFLG_READ\<rparr> # ws"
    by (auto simp: Let_def eq)
  have ne: "first (md_tbl s) \<noteq> None" using first_nodes [OF inv] m by auto
  have msg: "n\<lparr>msg_recvflg := MSG_RECVFLG_READ,
       msg_family := (if di_family (the (b_data b')) \<noteq> 0 then di_family (the (b_data b'))
         else if li_family (the (b_listen b')) \<noteq> 0 then li_family (the (b_listen b'))
         else msg_family n)\<rparr> = msg_setnext (msg_next n) (handed b' m)"
    using eq(2) by (auto simp: handed_def msg_setnext_def)
  have "kDataGetDataBySocketid sks i data s = Inr (RETURN_OK, Some (msg_setnext (msg_next n) (handed b' m)),
       msg_bytes m @ drop (length (msg_bytes m)) data, s\<lparr>md_tbl := (md_tbl s)\<lparr>hp := h\<rparr>\<rparr>)"
    unfolding kDataGetDataBySocketid_def using ne ret find cp h(1) msg by (simp add: Let_def)
  with h show ?thesis by blast
qed

section \<open>kDataGetDataBySocketid\<close>

definition wanted :: "int \<Rightarrow> msg_data \<Rightarrow> bool" where
  "wanted i m \<longleftrightarrow> unread m \<and> (i = 0 \<or> msg_socketid m = i)"

lemma stable_wanted: "stable (wanted i)" "stable unread"
    "stable (\<lambda>n. unread n \<and> msg_socketid n = i)"
  by (simp_all add: stable_def wanted_def)

lemma wanted_eq: "i \<noteq> 0 \<Longrightarrow> wanted i = (\<lambda>n. unread n \<and> msg_socketid n = i)" "wanted 0 = unread"
  by (auto simp: wanted_def fun_eq_iff)

text \<open>The lookup of the socket, and the local variables it leaves.\<close>

definition own_bufs :: "ksocket \<Rightarrow> int \<Rightarrow> si_bufs" where
  "own_bufs sks i = (case sock sks i of None \<Rightarrow> zero_bufs | Some si \<Rightarrow> fill si zero_bufs)"

definition readable :: "ksocket \<Rightarrow> int \<Rightarrow> bool" where
  "readable sks i \<longleftrightarrow> i = 0 \<or> (\<exists>si. sock sks i = Some si \<and> data_type (si_type si))"

lemma readable_ret:
  assumes "ksocket_inv sks" "readable sks i"
  shows "(if i > 0 then kSocketGetSIBySocketId i zero_bufs sks
         else if i < 0 then Inr (RETURN_NG, zero_bufs) else Inr (RETURN_OK, zero_bufs)) =
     Inr (RETURN_OK, own_bufs sks i)"
proof (cases "i = 0")
  case True
  then show ?thesis
    using sk.look_nonpos [OF assms(1), of 0] by (simp add: own_bufs_def)
next
  case False
  with assms(2) obtain si where si: "sock sks i = Some si" by (auto simp: readable_def)
  with sock_ok [OF assms(1) si] sk.get_some [OF assms(1) si, of zero_bufs] show ?thesis
    by (simp add: own_bufs_def)
qed

lemma find_data_readable:
  assumes "ksocket_inv sks" "readable sks i"
  shows "find_data i sks t (own_bufs sks i) =
     bind_res (scan (brk (hp t)) msg_next (wanted i) (hp t) None (first t)) (\<lambda>f.
       Inr (Some (map_option snd f, own_bufs sks i)))"
proof (cases "i = 0")
  case True
  then show ?thesis by (simp add: find_data_def wanted_eq)
next
  case False
  with assms(2) obtain si where "sock sks i = Some si" "data_type (si_type si)" by (auto simp: readable_def)
  with False show ?thesis
    by (simp add: find_data_def own_bufs_def wanted_eq data_type_def Let_def)
qed

lemma get_first:
  assumes inv: "kdata_inv s" and sks: "ksocket_inv sks" "readable sks i"
    and m: "messages s = us @ m # ws" "\<forall>u \<in> set us. \<not> wanted i u" "wanted i m"
    and len: "length (msg_bytes m) \<le> length data"
  shows "\<exists>s' q. kDataGetDataBySocketid sks i data s =
       Inr (RETURN_OK, Some (msg_setnext q (handed (own_bufs sks i) m)),
         msg_bytes m @ drop (length (msg_bytes m)) data, s') \<and>
     kdata_inv s' \<and> (appendable s \<longrightarrow> appendable s') \<and>
     messages s' = us @ m\<lparr>msg_recvflg := MSG_RECVFLG_READ\<rparr> # ws"
proof -
  from messages_split [OF m(1)] obtain xs a n zs where
    sp: "nodes msg_next (md_tbl s) = xs @ (a, n) # zs"
      "map (msg_pay \<circ> snd) xs = us" "msg_pay n = m" by metis
  from scan_messages_found [OF inv stable_wanted(1) sp(1), of i] m(2,3) sp(2,3) obtain r where
    "scan (brk (hp (md_tbl s))) msg_next (wanted i) (hp (md_tbl s)) None (first (md_tbl s)) =
       Inr (Some (r, a, n))" by auto
  then have "find_data i sks (md_tbl s) (own_bufs sks i) = Inr (Some (Some (a, n), own_bufs sks i))"
    by (simp add: find_data_readable [OF sks])
  from deliver [OF inv m(1) sp(1) _ readable_ret [OF sks] _ this len] sp(2) show ?thesis
    by auto
qed

text \<open>A message table with one unread message received on socket \<open>i\<close>.\<close>

definition demo_msg :: "int \<Rightarrow> msg_data" where
  "demo_msg i = build_msg 1 i MSG_SOCKETMODE_RECV (demo_data 0) (the (b_listen zero_bufs)) 4
     [1, 2, 3, 4] \<lparr>tv_sec = 0, tv_usec = 0\<rparr>"

definition demo_kdata :: "int \<Rightarrow> kdata" where
  "demo_kdata i = \<lparr>md_tbl = \<lparr>hp = \<lparr>cells = (\<lambda>_. Unalloc)(0 := Live (demo_msg i)), brk = 1,
       keeps_freed = False\<rparr>, first = Some 0, final = Some 0\<rparr>, g_msg_dataid = 1\<rparr>"

lemma demo_msg_fields [simp]:
  "msg_dataid (demo_msg i) = 1" "msg_socketid (demo_msg i) = i" "msg_bytes (demo_msg i) = [1, 2, 3, 4]"
  "msg_datalen (demo_msg i) = 4" "msg_next (demo_msg i) = None" "unread (demo_msg i)"
  by (simp_all add: demo_msg_def build_msg_def Let_def unread_def)

lemma demo_nodes: "nodes msg_next (md_tbl (demo_kdata i)) = [(0, demo_msg i)]"
  by (simp add: nodes_def demo_kdata_def)

lemma demo_messages: "messages (demo_kdata i) = [demo_msg i]"
  by (simp add: messages_def demo_nodes msg_setnext_def)

lemma demo_kdata_ok: "kdata_inv (demo_kdata i)" "appendable (demo_kdata i)"
proof -
  have ok: "tbl_ok msg_next (md_tbl (demo_kdata i)) [(0, demo_msg i)]"
    by (simp add: tbl_ok_def tbl_chain_def demo_kdata_def heap_ok_def)
  then show "appendable (demo_kdata i)" by (simp add: appendable_def demo_nodes)
  from ok show "kdata_inv (demo_kdata i)"
    by (simp add: kdata_inv_def demo_nodes demo_messages msgs_ok_def tbl_okD(1))
      (simp add: demo_kdata_def MSG_MAXMSGNUM_def)
qed

lemma demo_readable: "readable demo 6"
  by (simp add: readable_def sock_def demo_defs data_type_def si_types)

lemma get_none:
  assumes inv: "kdata_inv s" and sks: "ksocket_inv sks"
    and i: "readable sks i" and none: "\<forall>m \<in> set (messages s). \<not> wanted i m"
  shows "kDataGetDataBySocketid sks i data s = Inr (1, None, data, s)"
proof (cases "messages s = []")
  case True
  then show ?thesis using first_nodes [OF inv] by (simp add: kDataGetDataBySocketid_def)
next
  case False
  have "find_data i sks (md_tbl s) (own_bufs sks i) = Inr (Some (None, own_bufs sks i))"
    using scan_messages_none [OF inv stable_wanted(1) False none]
    by (simp add: find_data_readable [OF sks i])
  then show ?thesis
    unfolding kDataGetDataBySocketid_def readable_ret [OF sks i]
    using first_nodes [OF inv] False by simp
qed

text \<open>
  C26: Asking for the data of a UDP, TCP data or raw socket, or of any socket (id 0), hands out
  the oldest received message of that socket that was not handed out before: its bytes go to
  the caller's buffer, it is marked as read and no other message changes. When there is none the
  answer is 1 and nothing changes.
\<close>

theorem kDataGetDataBySocketid_fifo:
  assumes inv: "kdata_inv s" and sks: "ksocket_inv sks" "readable sks i"
    and len: "\<forall>m \<in> set (messages s). length (msg_bytes m) \<le> length data"
  shows "case first_index (wanted i) (messages s) of
      None \<Rightarrow> kDataGetDataBySocketid sks i data s = Inr (1, None, data, s)
    | Some k \<Rightarrow> \<exists>s' q. kDataGetDataBySocketid sks i data s =
         Inr (RETURN_OK, Some (msg_setnext q (handed (own_bufs sks i) (messages s ! k))),
           msg_bytes (messages s ! k) @ drop (length (msg_bytes (messages s ! k))) data, s') \<and>
       kdata_inv s' \<and>
       messages s' = (messages s)[k := (messages s ! k)\<lparr>msg_recvflg := MSG_RECVFLG_READ\<rparr>]"
proof (cases "first_index (wanted i) (messages s)")
  case None
  then have "\<forall>m \<in> set (messages s). \<not> wanted i m" by (simp only: first_index_None)
  then show ?thesis using get_none [OF inv sks] None by simp
next
  case (Some k)
  from first_index_Some [OF Some] have k: "k < length (messages s)" "wanted i (messages s ! k)" by auto
  have sp: "messages s = take k (messages s) @ messages s ! k # drop (Suc k) (messages s)"
    using id_take_nth_drop [OF k(1)] .
  have "length (msg_bytes (messages s ! k)) \<le> length data" using len k(1) by simp
  from get_first [OF inv sks sp first_index_before [OF Some] k(2) this] k(1) Some show ?thesis
    by (auto simp: upd_conv_take_nth_drop)
qed

theorem kDataGetDataBySocketid_fifo_witness:
  "\<exists>s' msg. kDataGetDataBySocketid demo 6 (replicate 5 0) (demo_kdata 6) =
     Inr (RETURN_OK, Some msg, [1, 2, 3, 4, 0], s')"
  using kDataGetDataBySocketid_fifo [OF demo_kdata_ok(1) demo_inv(1) demo_readable, of 6 "replicate 5 0"]
  by (auto simp: demo_messages wanted_def numeral_eq_Suc)

text \<open>
  While there are messages, an id without a socket and a UNIX socket are refused, without
  any change; a negative id is one without a socket.
\<close>

theorem kDataGetDataBySocketid_refused:
  assumes inv: "kdata_inv s" and sks: "ksocket_inv sks"
    and ms: "messages s \<noteq> []" and i: "i \<noteq> 0"
    and no: "case sock sks i of None \<Rightarrow> True | Some si \<Rightarrow> is_unix si"
  shows "kDataGetDataBySocketid sks i data s = Inr (RETURN_NG, None, data, s)"
proof (cases "sock sks i")
  case None
  with sks i ms first_nodes [OF inv] show ?thesis
    by (simp add: kDataGetDataBySocketid_def sk.get_none)
next
  case (Some si)
  with no sock_ok [OF sks Some] sk.get_some [OF sks Some, of zero_bufs] i ms first_nodes [OF inv]
  show ?thesis
    by (auto simp: kDataGetDataBySocketid_def find_data_def is_unix_def si_types)
qed

theorem kDataGetDataBySocketid_refused_witness:
  "kDataGetDataBySocketid demo 1 [0] (demo_kdata 6) = Inr (RETURN_NG, None, [0], demo_kdata 6)"
  by (rule kDataGetDataBySocketid_refused [OF demo_kdata_ok(1) demo_inv(1)])
    (simp_all add: demo_messages sock_def demo_defs is_unix_def)

section \<open>Listening sockets\<close>

text \<open>A message that waits for a reader of the listening socket \<open>i\<close>.\<close>

definition child_wanted :: "ksocket \<Rightarrow> int \<Rightarrow> msg_data \<Rightarrow> bool" where
  "child_wanted sks i m \<longleftrightarrow> unread m \<and> (case sock sks (msg_socketid m) of
     None \<Rightarrow> False
   | Some si \<Rightarrow> (si_type si = SI_TYPE_DATA \<or> si_type si = SI_TYPE_UDP) \<and>
       si_socket_status si = SI_STATUS_ALIVE \<and>
       (case si_uniq si of DataI d \<Rightarrow> di_parent_socketid d = i | _ \<Rightarrow> False))"

lemma stable_child_wanted: "stable (child_wanted sks i)"
  by (simp add: stable_def child_wanted_def)

lemma listen_lookup:
  assumes "ksocket_inv sks" "all_bufs b"
  shows "\<exists>r b'. kSocketGetSIBySocketId (msg_socketid n) b sks = Inr (r, b') \<and> all_bufs b' \<and>
     listen_match i r b' n = child_wanted sks i n"
proof (cases "sock sks (msg_socketid n)")
  case None
  with assms show ?thesis
    by (auto simp: sk.get_none listen_match_def child_wanted_def)
next
  case (Some si)
  from sock_ok [OF assms(1) Some] have "si_ok si" by simp
  then have "listen_match i RETURN_OK (fill si b) n = child_wanted sks i n"
    using Some by (auto simp: listen_match_def child_wanted_def unread_def Let_def si_ok_def si_types
        split: uniq_info.splits)
  with assms Some show ?thesis by (auto simp: sk.get_some)
qed

lemma listen_scan_chain:
  assumes "chain msg_next h p xs None" "xs \<noteq> []" "length xs \<le> k" "ksocket_inv sks" "all_bufs b"
  shows "\<exists>b'. all_bufs b' \<and> listen_scan k i sks h p b =
     Inr (map_option snd (seek (child_wanted sks i) prev xs), b')"
  using assms
proof (induction xs arbitrary: k p prev b)
  case (Cons x xs)
  obtain a n where x: "x = (a, n)" by (cases x)
  obtain k' where k: "k = Suc k'" using Cons.prems(3) by (cases k) auto
  from listen_lookup [OF Cons.prems(4,5), of n i] obtain r b1 where
    b1: "kSocketGetSIBySocketId (msg_socketid n) b sks = Inr (r, b1)" "all_bufs b1"
      "listen_match i r b1 n = child_wanted sks i n" by blast
  show ?case
  proof (cases "child_wanted sks i n \<or> xs = []")
    case True
    with Cons.prems x k b1 show ?thesis by auto
  next
    case False
    then obtain y ys where xs: "xs = y # ys" by (cases xs) auto
    with Cons.prems x obtain c where c: "msg_next n = Some c" by (cases y) auto
    with Cons.IH [of "Some c" k' b1 "Some a"] Cons.prems x k b1 False show ?thesis by auto
  qed
qed simp

lemma get_child:
  assumes inv: "kdata_inv s" and sks: "ksocket_inv sks"
    and si: "sock sks i = Some si" "si_type si = SI_TYPE_LISTEN_TCP \<or> si_type si = SI_TYPE_LISTEN_UDP"
    and len: "\<forall>m \<in> set (messages s). length (msg_bytes m) \<le> length data"
  shows "case first_index (child_wanted sks i) (messages s) of
      None \<Rightarrow> kDataGetDataBySocketid sks i data s = Inr (1, None, data, s)
    | Some k \<Rightarrow> \<exists>s' q b. kDataGetDataBySocketid sks i data s = Inr (RETURN_OK, Some (msg_setnext q (handed b (messages s ! k))),
         msg_bytes (messages s ! k) @ drop (length (msg_bytes (messages s ! k))) data, s') \<and>
       kdata_inv s' \<and>
       messages s' = (messages s)[k := (messages s ! k)\<lparr>msg_recvflg := MSG_RECVFLG_READ\<rparr>]"
proof (cases "messages s = []")
  case True
  then show ?thesis using first_nodes [OF inv] by (simp add: kDataGetDataBySocketid_def)
next
  case False
  let ?xs = "nodes msg_next (md_tbl s)" and ?P = "child_wanted sks i"
  have pos: "1 \<le> i" using sock_ok [OF sks si(1)] by simp
  have ret: "(if i > 0 then kSocketGetSIBySocketId i zero_bufs sks
         else if i < 0 then Inr (RETURN_NG, zero_bufs) else Inr (RETURN_OK, zero_bufs)) =
     Inr (RETURN_OK, fill si zero_bufs)"
    using pos sk.get_some [OF sks si(1), of zero_bufs] by simp
  have ch: "tbl_chain msg_next (md_tbl s) ?xs" using inv by (simp add: kdata_inv_def)
  then have c: "chain msg_next (hp (md_tbl s)) (first (md_tbl s)) ?xs None" "heap_ok (hp (md_tbl s))"
    by (auto simp: tbl_chain_def)
  have "?xs \<noteq> []" using False by (auto simp: messages_def)
  from listen_scan_chain [OF c(1) this chain_length [OF c(2,1)] sks, of "fill si zero_bufs" i None]
  obtain b' where ls: "find_data i sks (md_tbl s) (fill si zero_bufs) =
      Inr (Some (map_option snd (seek ?P None ?xs), b'))"
    using pos si(2) by (auto simp: find_data_def si_types)
  show ?thesis
  proof (cases "first_index ?P (messages s)")
    case None
    then have "seek ?P None ?xs = None"
      using stable_pay [OF stable_child_wanted, of ?xs sks i]
      by (simp add: seek_None first_index_None messages_def)
    with ls ret None first_nodes [OF inv] False show ?thesis
      unfolding kDataGetDataBySocketid_def by auto
  next
    case (Some k)
    from first_index_Some [OF Some] have k: "k < length (messages s)" "?P (messages s ! k)" by auto
    have before: "\<forall>u \<in> set (take k (messages s)). \<not> ?P u"
      using Some by (rule first_index_before)
    have sp: "messages s = take k (messages s) @ messages s ! k # drop (Suc k) (messages s)"
      using id_take_nth_drop [OF k(1)] .
    from messages_split [OF sp] obtain ys a n zs where
      n: "?xs = ys @ (a, n) # zs" "map (msg_pay \<circ> snd) ys = take k (messages s)"
        "msg_pay n = messages s ! k" by metis
    have "seek ?P None ?xs = Some (if ys = [] then None else Some (fst (last ys)), a, n)"
    proof -
      have "?P n" using k(2) stable_child_wanted [of sks i] unfolding n(3) [symmetric] stable_def by simp
      then show ?thesis
        unfolding n(1) using before n(2) stable_pay [OF stable_child_wanted, of ys sks i]
        by (intro seek_split) auto
    qed
    with ls have fd: "find_data i sks (md_tbl s) (fill si zero_bufs) = Inr (Some (Some (a, n), b'))" by simp
    have "length (take k (messages s)) = length ys" "length (msg_bytes (messages s ! k)) \<le> length data"
      using arg_cong [OF n(2), of length] len k(1) by auto
    from deliver [OF inv sp n(1) this(1) ret _ fd this(2)]
    obtain s' q where "kDataGetDataBySocketid sks i data s =
         Inr (RETURN_OK, Some (msg_setnext q (handed b' (messages s ! k))),
           msg_bytes (messages s ! k) @ drop (length (msg_bytes (messages s ! k))) data, s')"
      "kdata_inv s'"
      "messages s' = take k (messages s) @
         (messages s ! k)\<lparr>msg_recvflg := MSG_RECVFLG_READ\<rparr> # drop (Suc k) (messages s)"
      by auto
    with Some k(1) show ?thesis
      by (auto simp: upd_conv_take_nth_drop)
  qed
qed

text \<open>
  Asking for the data of a listening socket hands out the oldest unread message received on
  one of its connections that is still alive, and marks it as read; without one the answer
  is 1 and nothing changes.
\<close>

theorem kDataGetDataBySocketid_listen:
  assumes inv: "kdata_inv s" and sks: "ksocket_inv sks"
    and si: "sock sks i = Some si" "si_type si = SI_TYPE_LISTEN_TCP \<or> si_type si = SI_TYPE_LISTEN_UDP"
    and len: "\<forall>m \<in> set (messages s). length (msg_bytes m) \<le> length data"
  shows "case first_index (child_wanted sks i) (messages s) of
      None \<Rightarrow> kDataGetDataBySocketid sks i data s = Inr (1, None, data, s)
    | Some k \<Rightarrow> \<exists>s' msg. kDataGetDataBySocketid sks i data s = Inr (RETURN_OK, Some msg,
         msg_bytes (messages s ! k) @ drop (length (msg_bytes (messages s ! k))) data, s') \<and>
       msg_dataid msg = msg_dataid (messages s ! k) \<and> msg_socketid msg = msg_socketid (messages s ! k) \<and>
       kdata_inv s' \<and>
       messages s' = (messages s)[k := (messages s ! k)\<lparr>msg_recvflg := MSG_RECVFLG_READ\<rparr>]"
  using get_child [OF assms] by (fastforce simp: handed_def msg_setnext_def split: option.splits)

theorem kDataGetDataBySocketid_listen_witness:
  "\<exists>s' msg. kDataGetDataBySocketid demo 2 (replicate 5 0) (demo_kdata 4) =
     Inr (RETURN_OK, Some msg, [1, 2, 3, 4, 0], s') \<and> msg_socketid msg = 4"
proof -
  have "sock demo 2 = Some (sk_table demo ! 1)" "si_type (sk_table demo ! 1) = SI_TYPE_LISTEN_TCP"
    by (simp_all add: sock_def demo_defs)
  moreover have "child_wanted demo 2 (demo_msg 4)"
    by (simp add: child_wanted_def sock_def demo_defs demo_data_def SI_STATUS_ALIVE_def)
  ultimately show ?thesis
    using kDataGetDataBySocketid_listen [OF demo_kdata_ok(1) demo_inv(1), of 2 "sk_table demo ! 1" 4
        "replicate 5 0"]
    by (auto simp: demo_messages numeral_eq_Suc)
qed

section \<open>Any socket id\<close>

definition unanswerable :: "ksocket \<Rightarrow> int \<Rightarrow> bool" where
  "unanswerable sks i \<longleftrightarrow> i \<noteq> 0 \<and> (case sock sks i of None \<Rightarrow> True | Some si \<Rightarrow> is_unix si)"

lemma not_unanswerable:
  assumes "ksocket_inv sks" "\<not> unanswerable sks i" "\<not> readable sks i"
  obtains si where "sock sks i = Some si" "si_type si = SI_TYPE_LISTEN_TCP \<or> si_type si = SI_TYPE_LISTEN_UDP"
proof -
  from assms(2,3) obtain si where si: "sock sks i = Some si" "\<not> is_unix si" "\<not> data_type (si_type si)"
    by (auto simp: unanswerable_def readable_def split: option.splits)
  with sock_ok [OF assms(1) si(1)] have "si_type si = SI_TYPE_LISTEN_TCP \<or> si_type si = SI_TYPE_LISTEN_UDP"
    by (auto simp: si_ok_def is_unix_def data_type_def split: uniq_info.splits)
  with si(1) that show ?thesis by blast
qed

text \<open>A request for data hands out a message, finds none, or is refused.\<close>

lemma get_any:
  assumes inv: "kdata_inv s" and sks: "ksocket_inv sks"
    and len: "\<forall>m \<in> set (messages s). length (msg_bytes m) \<le> length data"
  shows "(\<exists>k s' q b. k < length (messages s) \<and> kDataGetDataBySocketid sks i data s =
         Inr (RETURN_OK, Some (msg_setnext q (handed b (messages s ! k))),
           msg_bytes (messages s ! k) @ drop (length (msg_bytes (messages s ! k))) data, s') \<and>
       kdata_inv s' \<and> messages s' = (messages s)[k := (messages s ! k)\<lparr>msg_recvflg := MSG_RECVFLG_READ\<rparr>]) \<or>
     kDataGetDataBySocketid sks i data s = Inr (1, None, data, s) \<or>
     kDataGetDataBySocketid sks i data s = Inr (RETURN_NG, None, data, s) \<and> unanswerable sks i \<and> messages s \<noteq> []"
    (is "?found \<or> ?none \<or> ?refused")
proof (cases "unanswerable sks i")
  case True
  have ?none if "messages s = []" using first_nodes [OF inv] that by (simp add: kDataGetDataBySocketid_def)
  moreover have ?refused if "messages s \<noteq> []"
    using kDataGetDataBySocketid_refused [OF inv sks that, of i data] True that by (simp add: unanswerable_def)
  ultimately show ?thesis by blast
next
  case False
  show ?thesis
  proof (cases "readable sks i")
    case True
    show ?thesis
    proof (cases "first_index (wanted i) (messages s)")
      case None
      then have "\<forall>m \<in> set (messages s). \<not> wanted i m" by (simp only: first_index_None)
      then show ?thesis using get_none [OF inv sks True] by blast
    next
      case (Some k)
      from first_index_Some [OF Some] have k: "k < length (messages s)" "wanted i (messages s ! k)" by auto
      have "length (msg_bytes (messages s ! k)) \<le> length data" using len k(1) by simp
      from get_first [OF inv sks True id_take_nth_drop [OF k(1)] first_index_before [OF Some] k(2) this] k(1)
      have ?found by (fastforce simp: upd_conv_take_nth_drop)
      then show ?thesis ..
    qed
  next
    case nr: False
    obtain si where "sock sks i = Some si" "si_type si = SI_TYPE_LISTEN_TCP \<or> si_type si = SI_TYPE_LISTEN_UDP"
      using not_unanswerable [OF sks False nr] .
    note child = get_child [OF inv sks this len]
    show ?thesis
    proof (cases "first_index (child_wanted sks i) (messages s)")
      case None
      then show ?thesis using child by simp
    next
      case (Some k)
      then have "k < length (messages s)" using first_index_Some by blast
      then have ?found using child unfolding Some option.case by blast
      then show ?thesis ..
    qed
  qed
qed

section \<open>Registration\<close>

text \<open>
  Registering a message for a UDP, TCP data or raw socket appends exactly one message, with
  the next id, a copy of the bytes and the socket's ports and addresses: its own as the source
  of what it sends, as the destination of what it receives. In every other case (no such
  socket, a listening or UNIX socket, ids used up, no memory) nothing is registered.
\<close>

theorem kDataRegist_spec:
  assumes inv: "kdata_inv s" "appendable s" and sks: "ksocket_inv sks"
    and len: "0 \<le> datalen" "datalen \<le> int (length data)"
  shows "if g_msg_dataid s = MSG_MAXMSGNUM \<or> \<not> m1 \<or> \<not> m2 \<or>
       (case sock sks i of None \<Rightarrow> True | Some si \<Rightarrow> \<not> data_type (si_type si))
     then kDataRegist sks m1 m2 i mode datalen data time s = Inr (RETURN_NG, s)
     else \<exists>s' si d. kDataRegist sks m1 m2 i mode datalen data time s = Inr (RETURN_OK, s') \<and>
       sock sks i = Some si \<and> si_uniq si = DataI d \<and>
       kdata_inv s' \<and> appendable s' \<and> g_msg_dataid s' = g_msg_dataid s + 1 \<and>
       messages s' = messages s @ [build_msg (g_msg_dataid s + 1) i mode d
         (the (b_listen zero_bufs)) datalen (take (nat datalen) data) time]"
proof (cases "g_msg_dataid s = MSG_MAXMSGNUM \<or> \<not> m1 \<or> \<not> m2 \<or>
       (case sock sks i of None \<Rightarrow> True | Some si \<Rightarrow> \<not> data_type (si_type si))")
  case True
  then show ?thesis using kDataRegist_refused [OF sks True] by simp
next
  case False
  then obtain si where si: "sock sks i = Some si" "data_type (si_type si)" "m1" "m2"
    "g_msg_dataid s \<noteq> MSG_MAXMSGNUM" by (cases "sock sks i") auto
  from sock_ok [OF sks si(1)] si(2) obtain d where d: "si_uniq si = DataI d"
    by (auto simp: si_ok_def data_type_def si_types split: uniq_info.splits)
  from kDataRegist_append [OF inv sks si(1) d si(2,5) len] si d False show ?thesis by auto
qed

theorem kDataRegist_spec_witness:
  "\<exists>s'. kDataRegist demo True True 6 MSG_SOCKETMODE_RECV 2 [7, 8] \<lparr>tv_sec = 1, tv_usec = 2\<rparr> (demo_kdata 6) =
     Inr (RETURN_OK, s') \<and> length (messages s') = 2"
proof -
  have "\<not> (case sock demo 6 of None \<Rightarrow> True | Some si \<Rightarrow> \<not> data_type (si_type si))"
    by (simp add: sock_def demo_defs data_type_def)
  moreover have "g_msg_dataid (demo_kdata 6) \<noteq> MSG_MAXMSGNUM" by (simp add: demo_kdata_def MSG_MAXMSGNUM_def)
  ultimately show ?thesis
    using kDataRegist_spec [OF demo_kdata_ok demo_inv(1), of 2 "[7, 8]" 6 True True 6 MSG_SOCKETMODE_RECV
        "\<lparr>tv_sec = 1, tv_usec = 2\<rparr>"]
    by (auto simp: demo_messages)
qed

text \<open>
  C25: What is registered as received on a socket is what the next reader of this socket gets, once:
  with no older unread message the bytes come back, with the peer as the source, and a second
  read finds nothing.
\<close>

theorem kDataRegist_then_get:
  assumes inv: "kdata_inv s" "appendable s" and sks: "ksocket_inv sks"
    and si: "sock sks i = Some si" "si_uniq si = DataI d" "data_type (si_type si)"
    and g: "g_msg_dataid s \<noteq> MSG_MAXMSGNUM"
    and none: "\<forall>m \<in> set (messages s). \<not> wanted i m" and len: "length bytes \<le> length dst"
  shows "\<exists>s1 s2 msg. kDataRegist sks True True i MSG_SOCKETMODE_RECV (int (length bytes)) bytes time s =
       Inr (RETURN_OK, s1) \<and>
     kDataGetDataBySocketid sks i dst s1 =
       Inr (RETURN_OK, Some msg, bytes @ drop (length bytes) dst, s2) \<and>
     msg_s_port msg = di_d_port d \<and> msg_d_port msg = di_s_port d \<and>
     msg_s_addr msg = di_d_addr d \<and> msg_d_addr msg = di_s_addr d \<and> msg_timestamp msg = time \<and>
     kDataGetDataBySocketid sks i dst s2 = Inr (1, None, dst, s2)"
proof -
  let ?m = "build_msg (g_msg_dataid s + 1) i MSG_SOCKETMODE_RECV d (the (b_listen zero_bufs))
     (int (length bytes)) bytes time"
  from kDataRegist_append [OF inv sks si g, of "int (length bytes)" bytes] obtain s1 where
    s1: "kDataRegist sks True True i MSG_SOCKETMODE_RECV (int (length bytes)) bytes time s =
       Inr (RETURN_OK, s1)" "kdata_inv s1" "messages s1 = messages s @ [?m]" by auto
  have rd: "readable sks i" using si by (auto simp: readable_def)
  have m: "unread ?m" "msg_socketid ?m = i" "msg_bytes ?m = bytes"
    by (simp_all add: build_msg_def unread_def Let_def)
  have none': "\<forall>u \<in> set (messages s). \<not> wanted i u" "wanted i ?m"
    using none m by (auto simp: wanted_def)
  from get_first [OF s1(2) sks rd s1(3) none', of dst] m(3) len obtain s2 q where
    s2: "kDataGetDataBySocketid sks i dst s1 =
      Inr (RETURN_OK, Some (msg_setnext q (handed (own_bufs sks i) ?m)), bytes @ drop (length bytes) dst, s2)"
    "kdata_inv s2" "messages s2 = messages s @ [?m\<lparr>msg_recvflg := MSG_RECVFLG_READ\<rparr>]" by auto
  have "\<forall>m \<in> set (messages s2). \<not> wanted i m"
    using none s2(3) by (auto simp: wanted_def unread_def msg_consts)
  then have "kDataGetDataBySocketid sks i dst s2 = Inr (1, None, dst, s2)"
    using get_none [OF s2(2) sks rd] by blast
  with s1(1) s2(1) show ?thesis
    by (auto simp: msg_setnext_def handed_def build_msg_def Let_def msg_consts)
qed

theorem kDataRegist_then_get_witness:
  "\<exists>s1 s2 msg. kDataRegist demo True True 6 MSG_SOCKETMODE_RECV 2 [7, 8] \<lparr>tv_sec = 1, tv_usec = 2\<rparr>
       (kdata_boot False) = Inr (RETURN_OK, s1) \<and>
     kDataGetDataBySocketid demo 6 [0, 0, 0] s1 = Inr (RETURN_OK, Some msg, [7, 8, 0], s2) \<and>
     msg_s_port msg = 1053"
proof -
  have "sock demo 6 = Some (demo_si SI_TYPE_UDP 6 8 (DataI (demo_data 0)))"
    by (simp add: sock_def demo_defs)
  moreover have "g_msg_dataid (kdata_boot False) \<noteq> MSG_MAXMSGNUM"
    by (simp add: kdata_boot_def MSG_MAXMSGNUM_def)
  moreover have "data_type (si_type (demo_si SI_TYPE_UDP 6 8 (DataI (demo_data 0))))"
      "si_uniq (demo_si SI_TYPE_UDP 6 8 (DataI (demo_data 0))) = DataI (demo_data 0)"
    by (simp_all add: demo_si_def data_type_def)
  ultimately show ?thesis
    using kDataRegist_then_get [OF kdata_inv_boot(1,2) demo_inv(1), of 6
        "demo_si SI_TYPE_UDP 6 8 (DataI (demo_data 0))" "demo_data 0" False "[7, 8]"
        "[0, 0, 0]" "\<lparr>tv_sec = 1, tv_usec = 2\<rparr>"]
    by (simp add: kdata_inv_boot(3) demo_data_def) blast
qed

end
