(* ===== verification/KIF.thy ===== *)
theory KIF
  imports Koi_Prelude
begin

text \<open>
  \<open>lib/kIF\<close>: the table of network interfaces, read from a definition file at start-up, which maps
  link names (\<open>Link0\<close>) to device names; and \<open>lib/kUtils\<close>.
\<close>

section \<open>State\<close>

record if_info =
  ii_linkname :: string
  ii_devicename :: string
  ii_scope_id :: int

definition IF_MAXNUMBER :: nat where "IF_MAXNUMBER = 8"
definition IF_KEYWORD :: string where "IF_KEYWORD = ''Link''"
definition IF_KEYSIZE :: nat where "IF_KEYSIZE = 4"
definition IF_NAMELEN :: nat where "IF_NAMELEN = 16"

text \<open>The array \<open>g_ii_table\<close>; a cleared entry has empty names.\<close>

type_synonym if_table = "if_info list"

definition if_clear :: if_table where
  "if_clear = replicate IF_MAXNUMBER \<lparr>ii_linkname = [], ii_devicename = [], ii_scope_id = 0\<rparr>"

section \<open>Tokens\<close>

text \<open>
  \<open>strtok\<close> with the delimiters tab, blank and newline: the next token, if any, and the rest of the
  line behind the delimiter that ended it.
\<close>

definition is_delim :: "char \<Rightarrow> bool" where
  "is_delim c \<longleftrightarrow> c = CHR 0x09 \<or> c = CHR '' '' \<or> c = CHR 0x0A"

definition strtok :: "string \<Rightarrow> (string \<times> string) option" where
  "strtok line = (let s = dropWhile is_delim line in
     if s = [] then None
     else Some (takeWhile (\<lambda>c. \<not> is_delim c) s, drop 1 (dropWhile (\<lambda>c. \<not> is_delim c) s)))"

section \<open>Operations\<close>

text \<open>
  What \<open>kIFInit\<close> makes of one line: \<open>None\<close> when the line is skipped. \<open>idx\<close> is
  \<open>if_nametoindex\<close>. A device name of 16 characters or more overflows \<open>tmp_devicename\<close>.
\<close>

definition if_line :: "(string \<Rightarrow> int) \<Rightarrow> string \<Rightarrow> if_info option res" where
  "if_line idx line = (case strtok line of
     None \<Rightarrow> Inr None
   | Some (linkname, rest) \<Rightarrow>
       if take IF_KEYSIZE linkname \<noteq> IF_KEYWORD then Inr None
       else (case strtok rest of
         None \<Rightarrow> Inr None
       | Some (devicename, _) \<Rightarrow>
           if length devicename \<ge> IF_NAMELEN then Inl BufferOverflow
           else let scopeid = idx devicename in
             if scopeid = 0 then Inr None
             else Inr (Some \<lparr>ii_linkname = linkname, ii_devicename = devicename, ii_scope_id = scopeid\<rparr>)))"

text \<open>
  The loop over the lines \<open>fgets\<close> returns. An entry is stored at \<open>record_counter\<close> without a look
  at the size of the array.
\<close>

fun if_lines :: "(string \<Rightarrow> int) \<Rightarrow> string list \<Rightarrow> nat \<Rightarrow> if_table \<Rightarrow> if_table res" where
  "if_lines idx [] record_counter t = Inr t"
| "if_lines idx (line # lines) record_counter t = bind_res (if_line idx line) (\<lambda>r. case r of
     None \<Rightarrow> if_lines idx lines record_counter t
   | Some e \<Rightarrow>
       if length (ii_linkname e) \<ge> IF_NAMELEN \<or> record_counter \<ge> length t then Inl BufferOverflow
       else if_lines idx lines (Suc record_counter) (t[record_counter := e]))"

definition kIFInit :: "(string \<Rightarrow> string list option) \<Rightarrow> (string \<Rightarrow> int) \<Rightarrow> string option \<Rightarrow> if_table \<Rightarrow>
    (bool \<times> if_table) res" where
  "kIFInit fopen idx deffilename t =
     (case fopen (case deffilename of None \<Rightarrow> ''/usr/local/koi/etc/tn.def'' | Some f \<Rightarrow> f) of
        None \<Rightarrow> Inr (False, t)
      | Some lines \<Rightarrow> bind_res (if_lines idx lines 0 if_clear) (\<lambda>t.
          Inr (ii_linkname (t ! 0) \<noteq> [], t)))"

definition kIFGetDevicenameByLinkname :: "string option \<Rightarrow> if_table \<Rightarrow> string option" where
  "kIFGetDevicenameByLinkname linkname t = (case linkname of
     None \<Rightarrow> None
   | Some l \<Rightarrow> map_option ii_devicename (List.find (\<lambda>e. ii_linkname e = l) t))"

lemmas if_defs [koi_simps] = IF_MAXNUMBER_def IF_KEYWORD_def IF_KEYSIZE_def IF_NAMELEN_def if_clear_def
  is_delim_def strtok_def if_line_def kIFInit_def kIFGetDevicenameByLinkname_def

section \<open>kUtils\<close>

text \<open>The loop of \<open>xbasename\<close>; \<open>base\<close> is the offset of \<open>basename\<close> in the path.\<close>

fun basename_loop :: "nat \<Rightarrow> nat \<Rightarrow> string \<Rightarrow> nat" where
  "basename_loop d base [] = base"
| "basename_loop d base (c # cs) =
     basename_loop (Suc d) (if c = CHR ''/'' \<and> cs \<noteq> [] then Suc d else base) cs"

definition xbasename :: "string \<Rightarrow> string" where
  "xbasename path = drop (basename_loop 0 0 path) path"

section \<open>Lemmas\<close>

text \<open>The entries the lines of the file define, in order.\<close>

fun if_entries :: "(string \<Rightarrow> int) \<Rightarrow> string list \<Rightarrow> if_info list res" where
  "if_entries idx [] = Inr []"
| "if_entries idx (line # lines) = bind_res (if_line idx line) (\<lambda>r.
     bind_res (if_entries idx lines) (\<lambda>es. Inr (case r of None \<Rightarrow> es | Some e \<Rightarrow> e # es)))"

lemma if_lines_entries:
  assumes "if_entries idx lines = Inr es" "\<forall>e \<in> set es. length (ii_linkname e) < IF_NAMELEN"
    "length us + length es \<le> length us + length vs"
  shows "if_lines idx lines (length us) (us @ vs) = Inr (us @ es @ drop (length es) vs)"
  using assms
proof (induction lines arbitrary: es us vs)
  case (Cons line lines)
  from Cons.prems(1) obtain r es' where r: "if_line idx line = Inr r" "if_entries idx lines = Inr es'"
    "es = (case r of None \<Rightarrow> es' | Some e \<Rightarrow> e # es')" by (auto simp: bind_res_eq_Inr)
  show ?case
  proof (cases r)
    case None
    with Cons.IH [OF r(2)] r Cons.prems(2,3) show ?thesis by simp
  next
    case (Some e)
    with r(3) Cons.prems(3) obtain v vs' where vs: "vs = v # vs'" by (cases vs) auto
    have "if_lines idx lines (length (us @ [e])) ((us @ [e]) @ vs') = Inr ((us @ [e]) @ es' @ drop (length es') vs')"
      by (rule Cons.IH [OF r(2)]) (use Cons.prems(2,3) r(3) Some vs in auto)
    with Some r vs Cons.prems(2) show ?thesis by simp
  qed
qed simp

lemma if_lines_overflow:
  assumes "if_entries idx lines = Inr es" "length t - n < length es" "n \<le> length t"
  shows "if_lines idx lines n t = Inl BufferOverflow"
  using assms
proof (induction lines arbitrary: es n t)
  case (Cons line lines)
  from Cons.prems(1) obtain r es' where r: "if_line idx line = Inr r" "if_entries idx lines = Inr es'"
    "es = (case r of None \<Rightarrow> es' | Some e \<Rightarrow> e # es')" by (auto simp: bind_res_eq_Inr)
  show ?case
  proof (cases r)
    case None
    with Cons.IH [OF r(2)] r Cons.prems(2,3) show ?thesis by simp
  next
    case (Some e)
    show ?thesis
    proof (cases "length (ii_linkname e) \<ge> IF_NAMELEN \<or> n \<ge> length t")
      case False
      then have n: "n < length t" using Cons.prems(3) by auto
      moreover from n have "length t - Suc n < length es'" using Cons.prems(2) r(3) Some by auto
      ultimately show ?thesis
        using Cons.IH [OF r(2), of "t[n := e]" "Suc n"] False Some r by simp
    qed (use r(1) Some in simp)
  qed
qed simp

lemma basename_loop_none:
  "CHR ''/'' \<notin> set (butlast cs) \<Longrightarrow> basename_loop d base cs = base"
  by (induction cs arbitrary: d) (auto split: if_splits)

lemma basename_loop_last:
  "f \<noteq> [] \<Longrightarrow> CHR ''/'' \<notin> set (butlast f) \<Longrightarrow>
   basename_loop d base (cs @ CHR ''/'' # f) = d + length cs + 1"
  by (induction cs arbitrary: d base) (auto simp: basename_loop_none)

section \<open>Properties\<close>

text \<open>
  Reading the definition file: the lines whose first word begins with \<open>Link\<close>, whose second word
  is a device the system knows, are stored in order, up to 8 of them, and a link name is looked up
  as the first entry with that name; the file is refused when it defines none. A ninth such line
  writes behind the table.
\<close>

theorem kIFInit_table:
  assumes opened: "fopen f = Some lines" and es: "if_entries idx lines = Inr es"
    and names: "\<forall>e \<in> set es. length (ii_linkname e) < IF_NAMELEN"
  shows "if length es \<le> IF_MAXNUMBER
     then \<exists>t'. kIFInit fopen idx (Some f) t = Inr (es \<noteq> [], t') \<and>
       (\<forall>l \<noteq> []. kIFGetDevicenameByLinkname (Some l) t' =
          map_option ii_devicename (List.find (\<lambda>e. ii_linkname e = l) es))
     else kIFInit fopen idx (Some f) t = Inl BufferOverflow"
proof (cases "length es \<le> IF_MAXNUMBER")
  case True
  let ?t = "es @ drop (length es) if_clear"
  have "if_lines idx lines 0 if_clear = Inr ?t"
    using if_lines_entries [OF es names, of "[]" if_clear] True by (simp add: if_clear_def)
  moreover have "ii_linkname (?t ! 0) \<noteq> [] \<longleftrightarrow> es \<noteq> []"
  proof (cases es)
    case Nil
    then show ?thesis by (simp add: if_clear_def IF_MAXNUMBER_def)
  next
    case (Cons e es')
    from es have "\<forall>e \<in> set es. ii_linkname e \<noteq> []"
      by (induction lines arbitrary: es)
        (auto simp: bind_res_eq_Inr if_line_def IF_KEYWORD_def Let_def split: option.splits if_splits)
    with Cons show ?thesis by simp
  qed
  moreover have "List.find (\<lambda>e. ii_linkname e = l) ?t = List.find (\<lambda>e. ii_linkname e = l) es" if "l \<noteq> []" for l
  proof -
    have "List.find (\<lambda>e. ii_linkname e = l) (drop (length es) if_clear) = None"
      using that by (auto simp: find_None if_clear_def)
    then show ?thesis by (simp add: find_append split: option.split)
  qed
  ultimately show ?thesis using True opened by (simp add: kIFInit_def kIFGetDevicenameByLinkname_def)
next
  case False
  then have "if_lines idx lines 0 if_clear = Inl BufferOverflow"
    using if_lines_overflow [OF es, of if_clear 0] by (simp add: if_clear_def)
  with False opened show ?thesis by (simp add: kIFInit_def)
qed

theorem kIFInit_table_witness:
  "\<exists>t'. kIFInit (\<lambda>_. Some [''# comment'', ''Link0 fxp0'', ''Link1 nosuch'']) (\<lambda>d. if d = ''fxp0'' then 1 else 0)
       (Some ''tn.def'') [] = Inr (True, t') \<and> kIFGetDevicenameByLinkname (Some ''Link0'') t' = Some ''fxp0''"
proof -
  have "if_entries (\<lambda>d. if d = ''fxp0'' then 1 else 0) [''# comment'', ''Link0 fxp0'', ''Link1 nosuch''] =
      Inr [\<lparr>ii_linkname = ''Link0'', ii_devicename = ''fxp0'', ii_scope_id = 1\<rparr>]"
    by (simp add: if_line_def strtok_def is_delim_def IF_KEYSIZE_def IF_KEYWORD_def IF_NAMELEN_def)
  from kIFInit_table [of "\<lambda>_. Some [''# comment'', ''Link0 fxp0'', ''Link1 nosuch'']" "''tn.def''", OF refl this, of "[]"]
  show ?thesis by (auto simp: IF_NAMELEN_def IF_MAXNUMBER_def)
qed

text \<open>
  \<open>xbasename\<close> returns what follows the last slash that has something behind it; a path without
  a slash, or with one only at its end, is returned as it is.
\<close>

theorem xbasename_last:
  assumes "f \<noteq> []" "CHR ''/'' \<notin> set (butlast f)"
  shows "xbasename (cs @ CHR ''/'' # f) = f \<and> xbasename f = f"
  using assms by (simp add: xbasename_def basename_loop_last basename_loop_none)

theorem xbasename_last_witness:
  "xbasename ''/usr/local/koi/bin/koid/'' = ''koid/''"
  using xbasename_last [of "''koid/''" "''/usr/local/koi/bin''"] by simp

end
