(* ===== verification/KAck.thy ===== *)
theory KAck
  imports KData KIF
begin

text \<open>
  The answers of \<open>lib/kDispatcher\<close>: one function per acknowledgement struct of \<open>kDispatcher.h\<close>.
  Each fills the struct, swaps its fields to network byte order and writes it to the control
  connection. A struct is modelled as the bytes of its memory on the target (little endian,
  no padding in any of them).
\<close>

section \<open>Fields in network byte order\<close>

definition put16 :: "int \<Rightarrow> byte list" where
  "put16 x = [word_of_int (x div 256), word_of_int x]"

definition put32 :: "int \<Rightarrow> byte list" where
  "put32 x = [word_of_int (x div 16777216), word_of_int (x div 65536), word_of_int (x div 256), word_of_int x]"

definition be32 :: "byte list \<Rightarrow> nat \<Rightarrow> int" where
  "be32 bs i = be16 bs i * 65536 + be16 bs (i + 2)"

text \<open>A \<open>short\<close> and a \<open>long\<close> field after \<open>ntohs\<close> and \<open>ntohl\<close>.\<close>

definition get16 :: "byte list \<Rightarrow> nat \<Rightarrow> int" where
  "get16 bs i = short_of (be16 bs i)"

definition get32 :: "byte list \<Rightarrow> nat \<Rightarrow> int" where
  "get32 bs i = long_of (be32 bs i)"

lemma length_put [simp]: "length (put16 x) = 2" "length (put32 x) = 4"
  by (simp_all add: put16_def put32_def)

lemma be16_skip [simp]: "length xs \<le> i \<Longrightarrow> be16 (xs @ ys) i = be16 ys (i - length xs)"
  by (auto simp: be16_def nth_append Suc_diff_le)

lemma be16_take [simp]: "Suc i < length xs \<Longrightarrow> be16 (xs @ ys) i = be16 xs i"
  by (auto simp: be16_def nth_append)

lemma mod_split: "(x div 256) mod 256 * 256 + x mod 256 = x mod (65536 :: int)"
  using zmod_zmult2_eq [of 256 x 256] by simp

lemma be16_put16: "be16 (put16 x) 0 = x mod 65536"
  by (simp add: be16_def put16_def uint_word_of_int mod_split)

lemma be32_put32: "be32 (put32 x) 0 = x mod 4294967296"
proof -
  have "x div 16777216 = x div 65536 div 256" by (simp flip: zdiv_zmult2_eq)
  then have "be32 (put32 x) 0 = (x div 65536) mod 65536 * 65536 + x mod 65536"
    using mod_split [of "x div 65536"] mod_split [of x]
    by (simp add: be32_def be16_def put32_def uint_word_of_int)
  also have "\<dots> = x mod 4294967296"
    using zmod_zmult2_eq [of 65536 x 65536] by simp
  finally show ?thesis .
qed

lemma short_of_mod [simp]: "short_of (x mod 65536) = short_of x"
  by (simp add: short_of_def mod_add_left_eq)

lemma long_of_mod [simp]: "long_of (x mod 4294967296) = long_of x"
  by (simp add: long_of_def mod_add_left_eq)

text \<open>Reading back a field at the front, and skipping over one.\<close>

lemma get16_put16 [simp]: "get16 (put16 x @ ys) 0 = short_of x"
  by (simp add: get16_def be16_put16)

lemma get32_put32 [simp]: "get32 (put32 x @ ys) 0 = long_of x"
  using be32_put32 [of x] by (simp add: get32_def be32_def)

lemma get16_skip [simp]: "length xs \<le> i \<Longrightarrow> get16 (xs @ ys) i = get16 ys (i - length xs)"
  by (simp add: get16_def)

lemma get32_skip [simp]: "length xs \<le> i \<Longrightarrow> get32 (xs @ ys) i = get32 ys (i - length xs)"
  by (simp add: get32_def be32_def Suc_diff_le)

section \<open>Commands and results\<close>

definition CM_CM_SIG_CONNEC_ACK :: int where "CM_CM_SIG_CONNEC_ACK = 33025"
definition CM_CM_SIG_SEND_ACK :: int where "CM_CM_SIG_SEND_ACK = 33026"
definition CM_CM_SIG_RECV_ACK :: int where "CM_CM_SIG_RECV_ACK = 33027"
definition CM_CM_SIG_CLOSE_ACK :: int where "CM_CM_SIG_CLOSE_ACK = 33028"
definition CM_CM_SIG_WAIT_ACK :: int where "CM_CM_SIG_WAIT_ACK = 33029"
definition CM_CM_SIG_SOCKINFO_ACK :: int where "CM_CM_SIG_SOCKINFO_ACK = 33030"
definition CM_CM_SIG_DATAINFO_ACK :: int where "CM_CM_SIG_DATAINFO_ACK = 33031"
definition CM_CM_SIG_FLUSH_ACK :: int where "CM_CM_SIG_FLUSH_ACK = 33032"
definition CM_CM_SIG_TLS_SETUP_ACK :: int where "CM_CM_SIG_TLS_SETUP_ACK = 33033"
definition CM_CM_SIG_TLS_CLEAR_ACK :: int where "CM_CM_SIG_TLS_CLEAR_ACK = 33034"
definition CM_CM_SIG_PARSER_ATTACH_ACK :: int where "CM_CM_SIG_PARSER_ATTACH_ACK = 33035"

definition CM_RESULT_OK :: int where "CM_RESULT_OK = 0"
definition CM_RESULT_SIG_NG_TIMEOUT :: int where "CM_RESULT_SIG_NG_TIMEOUT = 33025"
definition CM_RESULT_SIG_NG_OTHER :: int where "CM_RESULT_SIG_NG_OTHER = 33029"
definition CM_RESULT_SIG_TLS_NOINIT :: int where "CM_RESULT_SIG_TLS_NOINIT = 33030"

lemmas cm_acks = CM_CM_SIG_CONNEC_ACK_def CM_CM_SIG_SEND_ACK_def CM_CM_SIG_RECV_ACK_def
  CM_CM_SIG_CLOSE_ACK_def CM_CM_SIG_WAIT_ACK_def CM_CM_SIG_SOCKINFO_ACK_def
  CM_CM_SIG_DATAINFO_ACK_def CM_CM_SIG_FLUSH_ACK_def CM_CM_SIG_TLS_SETUP_ACK_def
  CM_CM_SIG_TLS_CLEAR_ACK_def CM_CM_SIG_PARSER_ATTACH_ACK_def

lemmas cm_results = CM_RESULT_OK_def CM_RESULT_SIG_NG_TIMEOUT_def CM_RESULT_SIG_NG_OTHER_def
  CM_RESULT_SIG_TLS_NOINIT_def

definition CM_STATUS_LISTEN :: int where "CM_STATUS_LISTEN = 1"
definition CM_STATUS_CONNEC :: int where "CM_STATUS_CONNEC = 2"
definition CM_STATUS_CLOSE :: int where "CM_STATUS_CLOSE = 3"

definition MSG_MAXDATALEN :: int where "MSG_MAXDATALEN = 65536"

section \<open>Writing\<close>

text \<open>
  What was written to which handle, in order. Whether a \<open>write\<close> succeeds is up to the parameter
  \<open>wr\<close>; a failed one sends nothing.
\<close>

type_synonym wire = "(int \<times> byte list) list"

definition cwrite :: "(int \<Rightarrow> byte list \<Rightarrow> bool) \<Rightarrow> int \<Rightarrow> byte list \<Rightarrow> wire \<Rightarrow> int \<times> wire" where
  "cwrite wr handle bs out =
     (if wr handle bs then (RETURN_OK, out @ [(handle, bs)]) else (RETURN_NG, out))"

text \<open>
  The variable part of an acknowledgement: \<open>memcpy\<close> of \<open>n\<close> bytes into \<open>data[MSG_MAXDATALEN]\<close>,
  of which the first \<open>n\<close> are written.
\<close>

definition ack_data :: "int \<Rightarrow> byte list \<Rightarrow> byte list res" where
  "ack_data n src = (if n < 0 \<or> n > int (length src) then Inl OutOfBounds
     else if n > MSG_MAXDATALEN then Inl BufferOverflow
     else Inr (take (nat n) src))"

section \<open>The acknowledgements\<close>

text \<open>\<open>msgdata\<close> is the message and the bytes its \<open>msg_data_ptr\<close> leads to, or null.\<close>

definition recv_ack :: "int \<Rightarrow> int \<Rightarrow> int \<Rightarrow> int \<Rightarrow> (msg_data \<times> byte list) option \<Rightarrow> byte list res" where
  "recv_ack command request_num result socketid msgdata =
     (if result \<noteq> 0
      then Inr (put16 command @ put16 request_num @ put16 result @ put16 socketid @ replicate 56 0)
      else case msgdata of
        None \<Rightarrow> Inl NullDeref
      | Some (m, src) \<Rightarrow> bind_res (ack_data (msg_datalen m) src) (\<lambda>data.
          Inr (put16 command @ put16 request_num @ put16 result @ put16 socketid @
            put32 (msg_dataid m) @ put32 (tv_sec (msg_timestamp m)) @ put32 (tv_usec (msg_timestamp m)) @
            put16 (msg_s_port m) @ put16 (msg_d_port m) @
            [word_of_int (if msg_family m = AF_INET then CM_IP_IPV4
               else if msg_family m = AF_INET6 then CM_IP_IPV6 else 0), 0, 0, 0] @
            msg_s_addr m @ msg_d_addr m @ put32 (msg_datalen m) @ data)))"

definition recv_ack_return :: "(int \<Rightarrow> byte list \<Rightarrow> bool) \<Rightarrow> int \<Rightarrow> int \<Rightarrow> int \<Rightarrow> int \<Rightarrow> int \<Rightarrow>
    (msg_data \<times> byte list) option \<Rightarrow> wire \<Rightarrow> (int \<times> wire) res" where
  "recv_ack_return wr handle command request_num result socketid msgdata out =
     bind_res (recv_ack command request_num result socketid msgdata) (\<lambda>bs.
       Inr (cwrite wr handle bs out))"

definition connec_ack :: "int \<Rightarrow> int \<Rightarrow> int \<Rightarrow> int \<Rightarrow> int \<Rightarrow> timeval \<Rightarrow> byte list" where
  "connec_ack command request_num result socketid dataid timestamp =
     (if result \<noteq> 0 then put16 command @ put16 request_num @ put16 result @ replicate 14 0
      else put16 command @ put16 request_num @ put16 result @ put16 socketid @ put32 dataid @
        put32 (tv_sec timestamp) @ put32 (tv_usec timestamp))"

definition connec_send_ack_return :: "(int \<Rightarrow> byte list \<Rightarrow> bool) \<Rightarrow> int \<Rightarrow> int \<Rightarrow> int \<Rightarrow> int \<Rightarrow> int \<Rightarrow>
    int \<Rightarrow> timeval \<Rightarrow> wire \<Rightarrow> int \<times> wire" where
  "connec_send_ack_return wr handle command request_num result socketid dataid timestamp out =
     cwrite wr handle (connec_ack command request_num result socketid dataid timestamp) out"

definition close_ack :: "int \<Rightarrow> int \<Rightarrow> int \<Rightarrow> int \<Rightarrow> byte list" where
  "close_ack command request_num result socketid =
     put16 command @ put16 request_num @ put16 result @ (if result \<noteq> 0 then [0, 0] else put16 socketid)"

definition close_wait_ack_return :: "(int \<Rightarrow> byte list \<Rightarrow> bool) \<Rightarrow> int \<Rightarrow> int \<Rightarrow> int \<Rightarrow> int \<Rightarrow> int \<Rightarrow>
    wire \<Rightarrow> int \<times> wire" where
  "close_wait_ack_return wr handle command request_num result socketid out =
     cwrite wr handle (close_ack command request_num result socketid) out"

definition datainfo_ack :: "int \<Rightarrow> int \<Rightarrow> int \<Rightarrow> (msg_data \<times> byte list) option \<Rightarrow> byte list res" where
  "datainfo_ack command request_num result msgdata =
     (if result \<noteq> 0 then Inr (put16 command @ put16 request_num @ put16 result @ replicate 14 0)
      else case msgdata of
        None \<Rightarrow> Inl NullDeref
      | Some (m, src) \<Rightarrow> bind_res (ack_data (msg_datalen m) src) (\<lambda>data.
          Inr (put16 command @ put16 request_num @ put16 result @ put16 (msg_socketid m) @
            put32 (tv_sec (msg_timestamp m)) @ put32 (tv_usec (msg_timestamp m)) @
            put32 (msg_datalen m) @ data)))"

definition datainfo_ack_return :: "(int \<Rightarrow> byte list \<Rightarrow> bool) \<Rightarrow> int \<Rightarrow> int \<Rightarrow> int \<Rightarrow> int \<Rightarrow>
    (msg_data \<times> byte list) option \<Rightarrow> wire \<Rightarrow> (int \<times> wire) res" where
  "datainfo_ack_return wr handle command request_num result msgdata out =
     bind_res (datainfo_ack command request_num result msgdata) (\<lambda>bs. Inr (cwrite wr handle bs out))"

text \<open>\<open>FLUSH_ACK\<close>, \<open>TLS_SETUP_ACK\<close> and \<open>TLS_CLEAR_ACK\<close> have the same fields.\<close>

definition flush_ack :: "int \<Rightarrow> int \<Rightarrow> int \<Rightarrow> byte list" where
  "flush_ack command request_num result = put16 command @ put16 request_num @ put16 result"

definition flush_ack_return :: "(int \<Rightarrow> byte list \<Rightarrow> bool) \<Rightarrow> int \<Rightarrow> int \<Rightarrow> int \<Rightarrow> int \<Rightarrow> wire \<Rightarrow> bool \<times> wire" where
  "flush_ack_return wr handle command request_num result out =
     (let (ret, out) = cwrite wr handle (flush_ack command request_num result) out in (ret = RETURN_OK, out))"

definition tls_setup_ack_return :: "(int \<Rightarrow> byte list \<Rightarrow> bool) \<Rightarrow> int \<Rightarrow> int \<Rightarrow> int \<Rightarrow> int \<Rightarrow> wire \<Rightarrow> bool \<times> wire" where
  "tls_setup_ack_return wr handle command request_num result out =
     (let (ret, out) = cwrite wr handle (flush_ack command request_num result) out in (ret = RETURN_OK, out))"

definition tls_clear_ack_return :: "(int \<Rightarrow> byte list \<Rightarrow> bool) \<Rightarrow> int \<Rightarrow> int \<Rightarrow> int \<Rightarrow> int \<Rightarrow> wire \<Rightarrow> bool \<times> wire" where
  "tls_clear_ack_return wr handle command request_num result out =
     (let (ret, out) = cwrite wr handle (flush_ack command request_num result) out in (ret = RETURN_OK, out))"

text \<open>
  \<open>SOCKINFO_ACK\<close>. \<open>sess\<close> stands for \<open>kGetTLSSession\<close>; a pointer is sent as the number it is. The
  interface id is the text of the link name behind \<open>IF_KEYSIZE\<close> characters. \<open>tlsmode\<close> is a
  \<open>long\<close> that gets the value of \<open>htons\<close>, so its two bytes come first.
\<close>

definition ptr :: "nat option \<Rightarrow> int" where
  "ptr p = (case p of None \<Rightarrow> 0 | Some a \<Rightarrow> int a)"

definition sockinfo_ver :: "int \<Rightarrow> int" where
  "sockinfo_ver family = (if family = AF_INET6 then CM_IP_IPV6 else if family = AF_INET then CM_IP_IPV4 else 0)"

definition sockinfo_protocol :: "socket_info \<Rightarrow> int option" where
  "sockinfo_protocol si =
     (if si_type si = SI_TYPE_DATA \<or> si_type si = SI_TYPE_LISTEN_TCP
      then Some (if si_tls_mode si \<noteq> 0 then CM_PROT_TLS else CM_PROT_TCP)
      else if si_type si = SI_TYPE_UDP \<or> si_type si = SI_TYPE_LISTEN_UDP then Some CM_PROT_UDP
      else if si_type si = SI_TYPE_RAW then Some CM_PROT_ICMP
      else None)"

definition sockinfo_status :: "socket_info \<Rightarrow> int" where
  "sockinfo_status si =
     (if si_socket_status si = SI_STATUS_CLOSE then CM_STATUS_CLOSE
      else if si_type si = SI_TYPE_LISTEN_UDP \<or> si_type si = SI_TYPE_LISTEN_TCP then CM_STATUS_LISTEN
      else CM_STATUS_CONNEC)"

text \<open>Ports and addresses by the type of the socket.\<close>

definition sockinfo_ends :: "socket_info \<Rightarrow> datasocket_info option \<Rightarrow> listenport_info option \<Rightarrow>
    (int \<times> int \<times> in6_addr \<times> in6_addr) res" where
  "sockinfo_ends si di li =
     (if si_type si \<in> {SI_TYPE_DATA, SI_TYPE_UDP, SI_TYPE_LISTEN_UDP, SI_TYPE_RAW}
      then (case di of
          None \<Rightarrow> Inl NullDeref
        | Some d \<Rightarrow> Inr (if si_type si = SI_TYPE_LISTEN_UDP then (di_s_port d, 0, di_s_addr d, replicate 16 0)
            else if si_type si = SI_TYPE_RAW then (0, di_d_port d, di_s_addr d, di_d_addr d)
            else (di_s_port d, di_d_port d, di_s_addr d, di_d_addr d)))
      else if si_type si = SI_TYPE_LISTEN_TCP
      then (case li of
          None \<Rightarrow> Inl NullDeref
        | Some l \<Rightarrow> Inr (li_s_port l, 0, li_s_addr l, replicate 16 0))
      else Inr (0, 0, replicate 16 0, replicate 16 0))"

definition text_bytes :: "string \<Rightarrow> byte list" where
  "text_bytes = map (\<lambda>c. of_nat (of_char c))"

definition sockinfo_ack :: "(nat option \<Rightarrow> nat option) \<Rightarrow> int \<Rightarrow> int \<Rightarrow> int \<Rightarrow>
    (socket_info \<times> datasocket_info option \<times> listenport_info option) option \<Rightarrow> byte list option res" where
  "sockinfo_ack sess command request_num result info =
     (if result \<noteq> 0 then Inr (Some (put16 command @ put16 request_num @ put16 result @ replicate 58 0))
      else case info of
        None \<Rightarrow> Inl NullDeref
      | Some (si, d, l) \<Rightarrow>
          (case sockinfo_protocol si of
             None \<Rightarrow> Inr None
           | Some protocol \<Rightarrow> bind_res (sockinfo_ends si d l) (\<lambda>(s_port, d_port, s_addr, d_addr).
               Inr (Some (put16 command @ put16 request_num @ put16 result @
                 [word_of_int protocol, word_of_int (sockinfo_status si),
                  word_of_int (case d of Some d \<Rightarrow> sockinfo_ver (di_family d)
                    | None \<Rightarrow> (case l of Some l \<Rightarrow> sockinfo_ver (li_family l) | None \<Rightarrow> 0)), 0, 0, 0] @
                 put16 s_port @ put16 d_port @ s_addr @ d_addr @ put16 (si_peyload_type si) @
                 put16 (atoi (text_bytes (drop IF_KEYSIZE (si_linkname si)))) @
                 put16 (si_tls_mode si) @ [0, 0] @ put32 (ptr (si_tls_ssl si)) @
                 put32 (ptr (sess (si_tls_ssl si))))))))"

definition sockinfo_ack_return :: "(nat option \<Rightarrow> nat option) \<Rightarrow> (int \<Rightarrow> byte list \<Rightarrow> bool) \<Rightarrow> int \<Rightarrow>
    int \<Rightarrow> int \<Rightarrow> int \<Rightarrow> (socket_info \<times> datasocket_info option \<times> listenport_info option) option \<Rightarrow>
    wire \<Rightarrow> (int \<times> wire) res" where
  "sockinfo_ack_return sess wr handle command request_num result info out =
     bind_res (sockinfo_ack sess command request_num result info) (\<lambda>bs.
       case bs of None \<Rightarrow> Inr (RETURN_NG, out) | Some bs \<Rightarrow> Inr (cwrite wr handle bs out))"

lemmas ack_defs [koi_simps] = cwrite_def recv_ack_return_def connec_send_ack_return_def
  close_wait_ack_return_def datainfo_ack_return_def flush_ack_return_def tls_setup_ack_return_def
  tls_clear_ack_return_def sockinfo_ack_return_def

section \<open>Properties\<close>

text \<open>
  C23: A positive answer to a receive command carries what the client needs, each field at its offset
  of \<open>RECV_ACK\<close> in network byte order: the command, the request number, the result 0, the socket,
  the message's id, time, ports and addresses, its length and, from offset 64 on, its bytes.
\<close>

theorem recv_ack_fields:
  assumes ack: "recv_ack command r CM_RESULT_OK i (Some (m, src)) = Inr bs"
    and addr: "length (msg_s_addr m) = 16" "length (msg_d_addr m) = 16"
  shows "get16 bs 0 = short_of command \<and> get16 bs 2 = short_of r \<and> get16 bs 4 = 0 \<and>
     get16 bs 6 = short_of i \<and> get32 bs 8 = long_of (msg_dataid m) \<and>
     get32 bs 12 = long_of (tv_sec (msg_timestamp m)) \<and> get32 bs 16 = long_of (tv_usec (msg_timestamp m)) \<and>
     get16 bs 20 = short_of (msg_s_port m) \<and> get16 bs 22 = short_of (msg_d_port m) \<and>
     take 16 (drop 28 bs) = msg_s_addr m \<and> take 16 (drop 44 bs) = msg_d_addr m \<and>
     get32 bs 60 = msg_datalen m \<and> drop 64 bs = take (nat (msg_datalen m)) src"
proof -
  from ack have n: "0 \<le> msg_datalen m" "msg_datalen m \<le> 65536"
    and bs: "bs = put16 command @ put16 r @ put16 CM_RESULT_OK @ put16 i @
       put32 (msg_dataid m) @ put32 (tv_sec (msg_timestamp m)) @ put32 (tv_usec (msg_timestamp m)) @
       put16 (msg_s_port m) @ put16 (msg_d_port m) @
       [word_of_int (if msg_family m = AF_INET then CM_IP_IPV4
          else if msg_family m = AF_INET6 then CM_IP_IPV6 else 0), 0, 0, 0] @
       msg_s_addr m @ msg_d_addr m @ put32 (msg_datalen m) @ take (nat (msg_datalen m)) src"
    by (auto simp: recv_ack_def ack_data_def bind_res_eq_Inr MSG_MAXDATALEN_def cm_results split: if_splits)
  define ver :: "byte list" where "ver = [word_of_int (if msg_family m = AF_INET then CM_IP_IPV4
     else if msg_family m = AF_INET6 then CM_IP_IPV6 else 0), 0, 0, 0]"
  have "length ver = 4" by (simp add: ver_def)
  moreover from n have "long_of (msg_datalen m) = msg_datalen m" by simp
  ultimately show ?thesis
    unfolding bs ver_def [symmetric] by (intro conjI) (simp_all add: addr CM_RESULT_OK_def)
qed

theorem recv_ack_fields_witness:
  "\<exists>bs. recv_ack CM_CM_SIG_RECV_ACK 77 CM_RESULT_OK 6 (Some (demo_msg 6, [1, 2, 3, 4])) = Inr bs \<and>
     get16 bs 0 = -32509 \<and> get16 bs 6 = 6 \<and> drop 64 bs = [1, 2, 3, 4]"
proof -
  obtain bs where bs: "recv_ack CM_CM_SIG_RECV_ACK 77 CM_RESULT_OK 6 (Some (demo_msg 6, [1, 2, 3, 4])) = Inr bs"
    by (simp add: recv_ack_def cm_results ack_data_def MSG_MAXDATALEN_def)
  have "length (msg_s_addr (demo_msg 6)) = 16" "length (msg_d_addr (demo_msg 6)) = 16"
    by (simp_all add: demo_msg_def build_msg_def demo_data_def di_zero_def MSG_SOCKETMODE_SEND_def
        MSG_SOCKETMODE_RECV_def Let_def)
  from recv_ack_fields [OF bs this] bs show ?thesis
    by (auto simp: CM_CM_SIG_RECV_ACK_def short_of_def)
qed

end
