(* ===== verification/KRecvTimer.thy ===== *)
theory KRecvTimer
  imports KAck
begin

text \<open>
  \<open>lib/kRecvTimeoutTimer\<close>: the readers that wait for data. A receive command that finds no data
  sets a timer; the main loop calls \<open>kRecvTimerProc\<close>, which answers every waiting reader whose
  data has come or whose time is over.
\<close>

section \<open>State\<close>

record recv_timeout =
  rt_sockethandle :: int
  rt_socketid :: int
  rt_expire :: timeval
  rt_request_num :: int
  rt_next :: "nat option"

definition rt_setnext :: "nat option \<Rightarrow> recv_timeout \<Rightarrow> recv_timeout" where
  "rt_setnext q n = n\<lparr>rt_next := q\<rparr>"

record recv_timer =
  rt_tbl :: "recv_timeout tbl"
  g_rt_num :: int

definition recv_timer_boot :: "bool \<Rightarrow> recv_timer" where
  "recv_timer_boot k = \<lparr>rt_tbl = empty_tbl k, g_rt_num = 0\<rparr>"

section \<open>Operations\<close>

definition kRecvTimerInit :: "recv_timer \<Rightarrow> (int \<times> recv_timer) res" where
  "kRecvTimerInit s =
     (case first (rt_tbl s) of
        None \<Rightarrow> Inr (RETURN_OK, s)
      | Some _ \<Rightarrow> bind_res (free_nodes (brk (hp (rt_tbl s))) rt_next (hp (rt_tbl s)) (first (rt_tbl s)))
          (\<lambda>h. Inr (RETURN_OK, \<lparr>rt_tbl = (rt_tbl s)\<lparr>hp := h, first := None\<rparr>, g_rt_num = 0\<rparr>)))"

text \<open>\<open>sockid\<close> is \<open>g_socket_socketid\<close>, \<open>now\<close> the time of day, \<open>m1\<close> whether \<open>malloc\<close> succeeds.\<close>

definition kRecvTimerSet :: "int \<Rightarrow> timeval \<Rightarrow> bool \<Rightarrow> int \<Rightarrow> int \<Rightarrow> int \<Rightarrow> int \<Rightarrow> recv_timer \<Rightarrow>
    (int \<times> recv_timer) res" where
  "kRecvTimerSet sockid now m1 handle socketid sec request_num s =
     (if socketid < 0 then Inr (RETURN_NG, s)
      else if g_rt_num s = sockid then Inr (RETURN_NG, s)
      else bind_res
        (case first (rt_tbl s) of
           Some _ \<Rightarrow> scan (brk (hp (rt_tbl s))) rt_next (\<lambda>n. rt_socketid n = socketid)
             (hp (rt_tbl s)) None (first (rt_tbl s))
         | None \<Rightarrow> Inr None)
        (\<lambda>found. case found of
           Some _ \<Rightarrow> Inr (RETURN_NG, s)
         | None \<Rightarrow>
             if \<not> m1 then Inr (RETURN_NG, s)
             else let (a, h) = halloc \<lparr>rt_sockethandle = handle, rt_socketid = socketid,
                     rt_expire = now\<lparr>tv_sec := long_of (tv_sec now + sec)\<rparr>,
                     rt_request_num = request_num, rt_next = None\<rparr> (hp (rt_tbl s)) in
               bind_res (link_last rt_setnext ((rt_tbl s)\<lparr>hp := h\<rparr>) a) (\<lambda>t.
                 Inr (RETURN_OK, \<lparr>rt_tbl = t, g_rt_num = long_of (g_rt_num s + 1)\<rparr>))))"

text \<open>There is no test for an empty table before the search.\<close>

definition kRecvTimerRemove :: "int \<Rightarrow> recv_timer \<Rightarrow> (int \<times> recv_timer) res" where
  "kRecvTimerRemove socketid s =
     (if socketid < 0 then Inr (RETURN_NG, s)
      else case first (rt_tbl s) of
        None \<Rightarrow> Inl NullDeref
      | Some _ \<Rightarrow> bind_res (scan (brk (hp (rt_tbl s))) rt_next (\<lambda>n. rt_socketid n = socketid)
             (hp (rt_tbl s)) None (first (rt_tbl s)))
          (\<lambda>found. case found of
             None \<Rightarrow> Inr (RETURN_NG, s)
           | Some (prev, a, n) \<Rightarrow> bind_res (unlink rt_next rt_setnext (rt_tbl s) prev a) (\<lambda>t.
               Inr (RETURN_OK, \<lparr>rt_tbl = t, g_rt_num = long_of (g_rt_num s - 1)\<rparr>))))"

text \<open>
  One round of the loop of \<open>kRecvTimerProc\<close>, up to the question whether the timer is removed (the
  first component). \<open>data\<close> is the local buffer of that name.
\<close>

definition recv_round :: "ksocket \<Rightarrow> (int \<Rightarrow> byte list \<Rightarrow> bool) \<Rightarrow> timeval \<Rightarrow> int \<times> int \<times> timeval \<times> int \<Rightarrow>
    byte list \<Rightarrow> kdata \<Rightarrow> wire \<Rightarrow> (bool \<times> byte list \<times> kdata \<times> wire) res" where
  "recv_round sks wr now e data kd out = (case e of (handle, socketid, expire, request_num) \<Rightarrow>
     bind_res (kDataGetDataBySocketid sks socketid data kd) (\<lambda>(ret, msg, data, kd).
       if ret < 0 then Inr (True, data, kd, out)
       else if ret > 0 then
         (if tv_pending expire now then Inr (False, data, kd, out)
          else bind_res (recv_ack_return wr handle CM_CM_SIG_RECV_ACK request_num
                 CM_RESULT_SIG_NG_TIMEOUT socketid None out) (\<lambda>(_, out). Inr (True, data, kd, out)))
       else bind_res (recv_ack_return wr handle CM_CM_SIG_RECV_ACK request_num
              CM_RESULT_OK (msg_socketid (the msg)) (Some (the msg, data)) out) (\<lambda>(_, out).
              Inr (True, data, kd, out))))"

definition rt_pay :: "recv_timeout \<Rightarrow> int \<times> int \<times> timeval \<times> int" where
  "rt_pay n = (rt_sockethandle n, rt_socketid n, rt_expire n, rt_request_num n)"

text \<open>
  The loop; after the removal \<open>current_position->rt_next\<close> is read from the removed node. Every
  round moves on along the next pointers the nodes had at the start, so \<open>Suc brk\<close> rounds suffice.
\<close>

fun recv_proc_loop :: "nat \<Rightarrow> ksocket \<Rightarrow> (int \<Rightarrow> byte list \<Rightarrow> bool) \<Rightarrow> timeval \<Rightarrow> nat option \<Rightarrow> byte list \<Rightarrow>
    recv_timer \<Rightarrow> kdata \<Rightarrow> wire \<Rightarrow> (recv_timer \<times> kdata \<times> wire) res" where
  "recv_proc_loop k sks wr now None data rt kd out = Inr (rt, kd, out)"
| "recv_proc_loop 0 sks wr now (Some a) data rt kd out = Inl Endless"
| "recv_proc_loop (Suc k) sks wr now (Some a) data rt kd out =
     bind_res (load (hp (rt_tbl rt)) (Some a)) (\<lambda>n.
     bind_res (recv_round sks wr now (rt_pay n) data kd out) (\<lambda>(fin, data, kd, out).
     bind_res (if fin then kRecvTimerRemove (rt_socketid n) rt else Inr (RETURN_OK, rt)) (\<lambda>(_, rt).
     bind_res (load (hp (rt_tbl rt)) (Some a)) (\<lambda>n.
       recv_proc_loop k sks wr now (rt_next n) data rt kd out))))"

definition kRecvTimerProc :: "ksocket \<Rightarrow> (int \<Rightarrow> byte list \<Rightarrow> bool) \<Rightarrow> timeval \<Rightarrow> recv_timer \<Rightarrow> kdata \<Rightarrow>
    wire \<Rightarrow> (int \<times> recv_timer \<times> kdata \<times> wire) res" where
  "kRecvTimerProc sks wr now rt kd out =
     (if g_rt_num rt = 0 then Inr (RETURN_OK, rt, kd, out)
      else bind_res (recv_proc_loop (Suc (brk (hp (rt_tbl rt)))) sks wr now (first (rt_tbl rt))
             (replicate (nat MSG_MAXDATALEN) 0) rt kd out) (\<lambda>(rt, kd, out).
             Inr (RETURN_OK, rt, kd, out)))"

lemmas recv_timer_defs [koi_simps] = rt_setnext_def recv_timer_boot_def kRecvTimerInit_def
  kRecvTimerSet_def kRecvTimerRemove_def recv_round_def rt_pay_def kRecvTimerProc_def

section \<open>Invariant and abstraction\<close>

interpretation rt: linked_node rt_next rt_setnext rt_pay
  by unfold_locales (auto simp: rt_setnext_def rt_pay_def)

text \<open>The promise of the component: the waiting readers (handle, socket, deadline, request) in order.\<close>

type_synonym waiter = "int \<times> int \<times> timeval \<times> int"

definition waiters :: "recv_timer \<Rightarrow> waiter list" where
  "waiters s = map (rt_pay \<circ> snd) (nodes rt_next (rt_tbl s))"

abbreviation w_id :: "waiter \<Rightarrow> int" where
  "w_id w \<equiv> fst (snd w)"

definition waiters_ok :: "waiter list \<Rightarrow> bool" where
  "waiters_ok ws \<longleftrightarrow> distinct (map w_id ws) \<and> (\<forall>w \<in> set ws. 0 \<le> w_id w) \<and> length ws \<le> 32767"

definition rt_inv :: "recv_timer \<Rightarrow> bool" where
  "rt_inv s \<longleftrightarrow> tbl_chain rt_next (rt_tbl s) (nodes rt_next (rt_tbl s)) \<and> waiters_ok (waiters s) \<and>
     g_rt_num s = int (length (waiters s))"

lemma rt_invI:
  assumes "tbl_chain rt_next (rt_tbl s) xs" "map (rt_pay \<circ> snd) xs = ws" "waiters_ok ws"
    "g_rt_num s = int (length ws)"
  shows "rt_inv s \<and> waiters s = ws"
  using assms by (simp add: rt_inv_def waiters_def tbl_chain_nodes)

lemma waiters_chain: "tbl_chain rt_next (rt_tbl s) xs \<Longrightarrow> waiters s = map (rt_pay \<circ> snd) xs"
  by (simp add: waiters_def tbl_chain_nodes)

lemma rt_pay_sel [simp]: "w_id (rt_pay n) = rt_socketid n"
  by (simp add: rt_pay_def)

lemma rt_inv_boot: "rt_inv (recv_timer_boot k)" "waiters (recv_timer_boot k) = []"
proof -
  have "tbl_chain rt_next (rt_tbl (recv_timer_boot k)) []"
    using tbl_okD(1) [of rt_next "empty_tbl k" "[]"] by (simp add: recv_timer_boot_def)
  from rt_invI [OF this refl] show "rt_inv (recv_timer_boot k)" "waiters (recv_timer_boot k) = []"
    by (auto simp: waiters_ok_def recv_timer_boot_def)
qed

lemma waiters_okD:
  assumes "waiters_ok (map (rt_pay \<circ> snd) xs)"
  shows "distinct (map (\<lambda>x. rt_socketid (snd x)) xs)" "\<forall>x \<in> set xs. 0 \<le> rt_socketid (snd x)"
    "length xs \<le> 32767"
  using assms by (auto simp: waiters_ok_def comp_def)

lemma waiters_ok_drop: "waiters_ok (us @ w # vs) \<Longrightarrow> waiters_ok (us @ vs)"
  by (auto simp: waiters_ok_def)

section \<open>Removing\<close>

lemma chain_head: "chain nx h p xs None \<Longrightarrow> p = (case xs of [] \<Rightarrow> None | x # _ \<Rightarrow> Some (fst x))"
  by (cases xs) auto

lemma remove_node:
  assumes ch: "tbl_chain rt_next (rt_tbl rt) (us @ (a, n) # ws)"
    and ok: "waiters_ok (map (rt_pay \<circ> snd) (us @ (a, n) # ws))"
    and num: "g_rt_num rt = int (length (us @ (a, n) # ws))"
  shows "\<exists>rt'. kRecvTimerRemove (rt_socketid n) rt = Inr (RETURN_OK, rt') \<and>
     tbl_chain rt_next (rt_tbl rt') (relink rt_setnext (rt_next n) us @ ws) \<and>
     cells (hp (rt_tbl rt')) a = Freed n \<and> keeps_freed (hp (rt_tbl rt')) = keeps_freed (hp (rt_tbl rt)) \<and>
     g_rt_num rt' = int (length (us @ ws))"
proof -
  note D = waiters_okD [OF ok]
  have others: "\<forall>x \<in> set us. rt_socketid (snd x) \<noteq> rt_socketid n"
    using D(1) by (force simp: image_iff)
  let ?prev = "if us = [] then None else Some (fst (last us))"
  have sk: "seek (\<lambda>m. rt_socketid m = rt_socketid n) None (us @ (a, n) # ws) = Some (?prev, a, n)"
    by (rule seek_split) (use others in auto)
  obtain f where f: "first (rt_tbl rt) = Some f" using tbl_chain_first [OF ch] by auto
  from rt.unlink_ok [OF ch refl] obtain t where t: "unlink rt_next rt_setnext (rt_tbl rt) ?prev a = Inr t"
    "tbl_chain rt_next t (relink rt_setnext (rt_next n) us @ ws)" "cells (hp t) a = Freed n"
    "keeps_freed (hp t) = keeps_freed (hp (rt_tbl rt))" by auto
  have sc: "scan (brk (hp (rt_tbl rt))) rt_next (\<lambda>m. rt_socketid m = rt_socketid n) (hp (rt_tbl rt)) None (Some f)
      = Inr (Some (?prev, a, n))"
    using scan_tbl [OF ch, of "\<lambda>m. rt_socketid m = rt_socketid n"] sk f by simp
  have "kRecvTimerRemove (rt_socketid n) rt =
      Inr (RETURN_OK, \<lparr>rt_tbl = t, g_rt_num = long_of (g_rt_num rt - 1)\<rparr>)"
    using D(2) f sc t(1) by (simp add: kRecvTimerRemove_def)
  moreover have "long_of (g_rt_num rt - 1) = int (length (us @ ws))"
    using num D(3) by simp
  ultimately show ?thesis using t by auto
qed

section \<open>A run of the timer\<close>

text \<open>
  What a run does to the waiting readers, without the table: every reader in turn is answered and
  forgotten, or stays. The first component of the result holds those that stay.
\<close>

fun waiters_run :: "ksocket \<Rightarrow> (int \<Rightarrow> byte list \<Rightarrow> bool) \<Rightarrow> timeval \<Rightarrow> waiter list \<Rightarrow> byte list \<Rightarrow> kdata \<Rightarrow>
    wire \<Rightarrow> (waiter list \<times> kdata \<times> wire) res" where
  "waiters_run sks wr now [] data kd out = Inr ([], kd, out)"
| "waiters_run sks wr now (w # ws) data kd out =
     bind_res (recv_round sks wr now w data kd out) (\<lambda>(fin, data, kd, out).
     bind_res (waiters_run sks wr now ws data kd out) (\<lambda>(left, kd, out).
       Inr (if fin then left else w # left, kd, out)))"

lemma waiters_run_length:
  "waiters_run sks wr now ws data kd out = Inr (left, kd', out') \<Longrightarrow> length left \<le> length ws"
proof (induction ws arbitrary: data kd out left)
  case (Cons w ws)
  then show ?case by (fastforce simp: bind_res_eq_Inr split: if_splits)
qed simp

text \<open>With an allocator that keeps freed blocks readable, the loop does exactly that.\<close>

lemma proc_loop_keeps:
  assumes "tbl_chain rt_next (rt_tbl rt) (us @ rest)" "keeps_freed (hp (rt_tbl rt))"
    "waiters_ok (map (rt_pay \<circ> snd) (us @ rest))" "g_rt_num rt = int (length (us @ rest))"
    "length rest \<le> k" "p = (case rest of [] \<Rightarrow> None | x # _ \<Rightarrow> Some (fst x))"
  shows "case waiters_run sks wr now (map (rt_pay \<circ> snd) rest) data kd out of
      Inl f \<Rightarrow> recv_proc_loop k sks wr now p data rt kd out = Inl f
    | Inr (left, kd', out') \<Rightarrow> \<exists>rt'. recv_proc_loop k sks wr now p data rt kd out = Inr (rt', kd', out') \<and>
        rt_inv rt' \<and> waiters rt' = map (rt_pay \<circ> snd) us @ left"
  using assms
proof (induction rest arbitrary: us rt k p data kd out)
  case Nil
  with rt_invI [of rt us] show ?case by (auto simp: comp_def)
next
  case (Cons x rest)
  obtain a n where x: "x = (a, n)" by (cases x)
  obtain k' where k: "k = Suc k'" using Cons.prems(5) by (cases k) auto
  have ch: "tbl_chain rt_next (rt_tbl rt) (us @ (a, n) # rest)" using Cons.prems(1) x by simp
  then have live: "cells (hp (rt_tbl rt)) a = Live n" and nxt: "rt_next n = (case rest of [] \<Rightarrow> None | x # _ \<Rightarrow> Some (fst x))"
    by (auto simp: tbl_chain_def chain_append dest: chain_head)
  have p: "p = Some a" using Cons.prems(6) x by simp
  show ?case
  proof (cases "recv_round sks wr now (rt_pay n) data kd out")
    case (Inl f)
    with p k live x show ?thesis by simp
  next
    case (Inr r)
    obtain fin data1 kd1 out1 where r: "r = (fin, data1, kd1, out1)" by (cases r)
    show ?thesis
    proof (cases fin)
      case False
      have step: "recv_proc_loop k sks wr now p data rt kd out =
          recv_proc_loop k' sks wr now (rt_next n) data1 rt kd1 out1"
        using p k live Inr r False by (simp add: comp_def)
      from Cons.IH [of rt "us @ [x]" k' "rt_next n" data1 kd1 out1] Cons.prems nxt k
      show ?thesis unfolding step using Inr r False x by (auto simp: comp_def split: sum.splits)
    next
      case True
      from remove_node [OF ch] Cons.prems(3,4) x obtain rt1 where
        rt1: "kRecvTimerRemove (rt_socketid n) rt = Inr (RETURN_OK, rt1)"
          "tbl_chain rt_next (rt_tbl rt1) (relink rt_setnext (rt_next n) us @ rest)"
          "cells (hp (rt_tbl rt1)) a = Freed n" "keeps_freed (hp (rt_tbl rt1))"
          "g_rt_num rt1 = int (length (us @ rest))" using Cons.prems(2) by (auto simp: comp_def)
      have step: "recv_proc_loop k sks wr now p data rt kd out =
          recv_proc_loop k' sks wr now (rt_next n) data1 rt1 kd1 out1"
        using p k live Inr r True rt1 by (simp add: load_def)
      let ?us = "relink rt_setnext (rt_next n) us"
      have pay: "map (rt_pay \<circ> snd) ?us = map (rt_pay \<circ> snd) us" by (rule rt.pay_relink)
      have ok: "waiters_ok (map (rt_pay \<circ> snd) (?us @ rest))"
        using waiters_ok_drop [of "map (rt_pay \<circ> snd) us" "rt_pay n" "map (rt_pay \<circ> snd) rest"]
          Cons.prems(3) x pay by (simp add: comp_def)
      from Cons.IH [OF rt1(2) rt1(4) ok _ _ nxt, of k' data1 kd1 out1] Cons.prems(5) k rt1(5)
      show ?thesis unfolding step using Inr r True x pay by (auto simp: comp_def split: sum.splits)
    qed
  qed
qed

text \<open>With one that does not, the first removal is followed by a read of freed memory.\<close>

lemma proc_loop_strict:
  assumes "tbl_chain rt_next (rt_tbl rt) (us @ rest)" "\<not> keeps_freed (hp (rt_tbl rt))"
    "waiters_ok (map (rt_pay \<circ> snd) (us @ rest))" "g_rt_num rt = int (length (us @ rest))"
    "length rest \<le> k" "p = (case rest of [] \<Rightarrow> None | x # _ \<Rightarrow> Some (fst x))"
    "waiters_run sks wr now (map (rt_pay \<circ> snd) rest) data kd out = Inr (left, kd', out')"
  shows "recv_proc_loop k sks wr now p data rt kd out =
     (if left = map (rt_pay \<circ> snd) rest then Inr (rt, kd', out') else Inl UseAfterFree)"
  using assms
proof (induction rest arbitrary: us k p data kd out left)
  case (Cons x rest)
  obtain a n where x: "x = (a, n)" by (cases x)
  obtain k' where k: "k = Suc k'" using Cons.prems(5) by (cases k) auto
  have ch: "tbl_chain rt_next (rt_tbl rt) (us @ (a, n) # rest)" using Cons.prems(1) x by simp
  then have live: "cells (hp (rt_tbl rt)) a = Live n" and nxt: "rt_next n = (case rest of [] \<Rightarrow> None | x # _ \<Rightarrow> Some (fst x))"
    by (auto simp: tbl_chain_def chain_append dest: chain_head)
  have p: "p = Some a" using Cons.prems(6) x by simp
  from Cons.prems(7) x obtain fin data1 kd1 out1 left1 where
    r: "recv_round sks wr now (rt_pay n) data kd out = Inr (fin, data1, kd1, out1)"
    and run: "waiters_run sks wr now (map (rt_pay \<circ> snd) rest) data1 kd1 out1 = Inr (left1, kd', out')"
    and left: "left = (if fin then left1 else rt_pay n # left1)"
    by (auto simp: bind_res_eq_Inr comp_def)
  show ?case
  proof (cases fin)
    case False
    from Cons.IH [of "us @ [x]" k' "rt_next n" data1 kd1 out1 left1] Cons.prems nxt run k
    show ?thesis using p k live r False x left by (simp add: comp_def)
  next
    case True
    from remove_node [OF ch] Cons.prems(2,3,4) x obtain rt1 where
      "kRecvTimerRemove (rt_socketid n) rt = Inr (RETURN_OK, rt1)"
        "cells (hp (rt_tbl rt1)) a = Freed n" "\<not> keeps_freed (hp (rt_tbl rt1))" by (auto simp: comp_def)
    then have "recv_proc_loop k sks wr now p data rt kd out = Inl UseAfterFree"
      using p k live r True by (simp add: load_def)
    moreover have "length left1 \<le> length rest"
      using waiters_run_length [OF run] by simp
    then have "left \<noteq> map (rt_pay \<circ> snd) (x # rest)"
      using left True by (auto dest: arg_cong [of _ _ length])
    ultimately show ?thesis by (simp add: comp_def)
  qed
qed simp

section \<open>Setting a timer\<close>

lemma kRecvTimerSet_refused:
  assumes inv: "rt_inv s"
    and bad: "i < 0 \<or> g_rt_num s = sockid \<or> i \<in> w_id ` set (waiters s) \<or> \<not> m1"
  shows "kRecvTimerSet sockid now m1 h i sec r s = Inr (RETURN_NG, s)"
proof -
  from inv have ch: "tbl_chain rt_next (rt_tbl s) (nodes rt_next (rt_tbl s))" by (simp add: rt_inv_def)
  have "seek (\<lambda>n. rt_socketid n = i) None (nodes rt_next (rt_tbl s)) = None \<longleftrightarrow> i \<notin> w_id ` set (waiters s)"
    by (auto simp: seek_None waiters_def image_iff)
  with chain_search [OF ch, of "\<lambda>n. rt_socketid n = i"] bad show ?thesis
    by (cases "i \<in> w_id ` set (waiters s)") (auto simp: kRecvTimerSet_def split: option.split)
qed

lemma kRecvTimerSet_append:
  assumes inv: "rt_inv s" and last: "tbl_ok rt_next (rt_tbl s) (nodes rt_next (rt_tbl s))"
    and ok: "0 \<le> i" "g_rt_num s < sockid" "sockid \<le> 32767" "i \<notin> w_id ` set (waiters s)"
  shows "\<exists>s'. kRecvTimerSet sockid now True h i sec r s = Inr (RETURN_OK, s') \<and> rt_inv s' \<and>
     tbl_ok rt_next (rt_tbl s') (nodes rt_next (rt_tbl s')) \<and>
     keeps_freed (hp (rt_tbl s')) = keeps_freed (hp (rt_tbl s)) \<and>
     waiters s' = waiters s @ [(h, i, now\<lparr>tv_sec := long_of (tv_sec now + sec)\<rparr>, r)]"
proof -
  let ?n = "\<lparr>rt_sockethandle = h, rt_socketid = i, rt_expire = now\<lparr>tv_sec := long_of (tv_sec now + sec)\<rparr>,
     rt_request_num = r, rt_next = None\<rparr>"
  let ?xs = "nodes rt_next (rt_tbl s)"
  obtain a g where ag: "halloc ?n (hp (rt_tbl s)) = (a, g)" by (cases "halloc ?n (hp (rt_tbl s))")
  note al = halloc_tbl [OF last ag]
  from rt.link_last_ok [OF al(1,2)] obtain t where
    t: "link_last rt_setnext ((rt_tbl s)\<lparr>hp := g\<rparr>) a = Inr t"
      "tbl_ok rt_next t (relink rt_setnext (Some a) ?xs @ [(a, rt_setnext None ?n)])"
      "keeps_freed (hp t) = keeps_freed (hp (rt_tbl s))" using al(3) by auto
  let ?s' = "\<lparr>rt_tbl = t, g_rt_num = long_of (g_rt_num s + 1)\<rparr>"
  let ?ws = "waiters s @ [rt_pay ?n]"
  have "seek (\<lambda>n. rt_socketid n = i) None ?xs = None"
    using ok(4) by (auto simp: seek_None waiters_def image_iff)
  with chain_search [OF tbl_okD(1) [OF last], of "\<lambda>n. rt_socketid n = i"]
  have run: "kRecvTimerSet sockid now True h i sec r s = Inr (RETURN_OK, ?s')"
    using ok t(1) ag by (simp add: kRecvTimerSet_def)
  have w: "waiters_ok (waiters s)" "g_rt_num s = int (length (waiters s))"
    using inv by (auto simp: rt_inv_def)
  have pay: "map (rt_pay \<circ> snd) (relink rt_setnext (Some a) ?xs @ [(a, rt_setnext None ?n)]) = ?ws"
    using rt.pay_relink [of "Some a" ?xs] by (simp add: waiters_def rt.pay_setnx)
  have "waiters_ok ?ws" using w ok by (auto simp: waiters_ok_def)
  moreover have "g_rt_num ?s' = int (length ?ws)" using w ok by (auto simp: waiters_ok_def)
  ultimately have "rt_inv ?s' \<and> waiters ?s' = ?ws"
    using rt_invI [of ?s', OF _ pay] tbl_okD(1) [OF t(2)] by simp
  moreover have "tbl_ok rt_next t (nodes rt_next t)" using t(2) tbl_ok_nodes [OF t(2)] by simp
  ultimately show ?thesis using run t(3) by (auto simp: rt_pay_def)
qed

text \<open>One reader that waits since second 10 for 3 seconds for data of socket 6.\<close>

definition demo_timer :: "bool \<Rightarrow> recv_timer" where
  "demo_timer k = (case kRecvTimerSet 6 \<lparr>tv_sec = 10, tv_usec = 5\<rparr> True 5 6 3 77 (recv_timer_boot k) of
     Inr (_, s) \<Rightarrow> s | Inl _ \<Rightarrow> recv_timer_boot k)"

lemma demo_timer_inv:
  "rt_inv (demo_timer k)" "keeps_freed (hp (rt_tbl (demo_timer k))) = k"
  "waiters (demo_timer k) = [(5, 6, \<lparr>tv_sec = 13, tv_usec = 5\<rparr>, 77)]"
proof -
  have last: "tbl_ok rt_next (rt_tbl (recv_timer_boot k)) (nodes rt_next (rt_tbl (recv_timer_boot k)))"
    using tbl_ok_nodes [of rt_next "empty_tbl k" "[]"] by (simp add: recv_timer_boot_def)
  have k: "keeps_freed (hp (rt_tbl (recv_timer_boot k))) = k" "g_rt_num (recv_timer_boot k) = 0"
    by (simp_all add: recv_timer_boot_def empty_tbl_def empty_heap_def)
  from kRecvTimerSet_append [OF rt_inv_boot(1) last, of 6 6 "\<lparr>tv_sec = 10, tv_usec = 5\<rparr>" 5 3 77] k
  obtain s' where s': "kRecvTimerSet 6 \<lparr>tv_sec = 10, tv_usec = 5\<rparr> True 5 6 3 77 (recv_timer_boot k) = Inr (RETURN_OK, s')"
    "rt_inv s'" "keeps_freed (hp (rt_tbl s')) = k" "waiters s' = [(5, 6, \<lparr>tv_sec = 13, tv_usec = 5\<rparr>, 77)]"
    by (auto simp: rt_inv_boot)
  then have "demo_timer k = s'" by (simp add: demo_timer_def)
  with s' show "rt_inv (demo_timer k)" "keeps_freed (hp (rt_tbl (demo_timer k))) = k"
    "waiters (demo_timer k) = [(5, 6, \<lparr>tv_sec = 13, tv_usec = 5\<rparr>, 77)]" by simp_all
qed

text \<open>Its run at second 13 on an empty message table: the answer is a timeout.\<close>

lemma demo_run:
  "waiters_run demo (\<lambda>_ _. True) \<lparr>tv_sec = 13, tv_usec = 5\<rparr> (waiters (demo_timer k))
     (replicate (nat MSG_MAXDATALEN) 0) (kdata_boot False) [] =
   Inr ([], kdata_boot False, [(5, put16 CM_CM_SIG_RECV_ACK @ put16 77 @
     put16 CM_RESULT_SIG_NG_TIMEOUT @ put16 6 @ replicate 56 0)])"
  by (simp add: demo_timer_inv recv_round_def kDataGetDataBySocketid_def kdata_boot_def empty_tbl_def
      tv_pending_def recv_ack_return_def recv_ack_def cm_results cwrite_def)

section \<open>Runs and rounds\<close>

lemma recv_timer_proc:
  assumes inv: "rt_inv s" and keeps: "keeps_freed (hp (rt_tbl s))"
  shows "case waiters_run sks wr now (waiters s) (replicate (nat MSG_MAXDATALEN) 0) kd out of
      Inl f \<Rightarrow> kRecvTimerProc sks wr now s kd out = Inl f
    | Inr (left, kd', out') \<Rightarrow> \<exists>s'. kRecvTimerProc sks wr now s kd out = Inr (RETURN_OK, s', kd', out') \<and>
        rt_inv s' \<and> waiters s' = left"
proof -
  from inv obtain xs where xs: "tbl_chain rt_next (rt_tbl s) xs" "waiters s = map (rt_pay \<circ> snd) xs"
    "waiters_ok (map (rt_pay \<circ> snd) xs)" "g_rt_num s = int (length xs)"
    by (auto simp: rt_inv_def waiters_def)
  show ?thesis
  proof (cases "xs = []")
    case True
    with xs inv show ?thesis by (simp add: kRecvTimerProc_def)
  next
    case False
    have len: "length xs \<le> Suc (brk (hp (rt_tbl s)))"
      using chain_length xs(1) by (fastforce simp: tbl_chain_def)
    have hd: "first (rt_tbl s) = (case xs of [] \<Rightarrow> None | x # _ \<Rightarrow> Some (fst x))"
      using xs(1) by (auto simp: tbl_chain_def dest: chain_head)
    from proc_loop_keeps [of s "[]" xs "Suc (brk (hp (rt_tbl s)))" "first (rt_tbl s)" sks wr now
        "replicate (nat MSG_MAXDATALEN) 0" kd out] xs keeps len hd False
    show ?thesis by (auto simp: kRecvTimerProc_def split: sum.splits)
  qed
qed

lemma recv_round_result:
  assumes inv: "kdata_inv kd" and sks: "ksocket_inv sks" "readable sks i"
    and len: "\<forall>m \<in> set (messages kd). int (length (msg_bytes m)) \<le> MSG_MAXDATALEN"
    and data: "int (length data) = MSG_MAXDATALEN"
  shows "case first_index (wanted i) (messages kd) of
      None \<Rightarrow> recv_round sks wr now (h, i, t, r) data kd out =
        (if tv_pending t now then Inr (False, data, kd, out)
         else Inr (True, data, kd, snd (cwrite wr h (put16 CM_CM_SIG_RECV_ACK @ put16 r @
           put16 CM_RESULT_SIG_NG_TIMEOUT @ put16 i @ replicate 56 0) out)))
    | Some k \<Rightarrow> \<exists>data' kd' q bs. recv_round sks wr now (h, i, t, r) data kd out =
          Inr (True, data', kd', snd (cwrite wr h bs out)) \<and>
        recv_ack CM_CM_SIG_RECV_ACK r CM_RESULT_OK (msg_socketid (messages kd ! k))
          (Some (msg_setnext q (handed (own_bufs sks i) (messages kd ! k)), msg_bytes (messages kd ! k))) = Inr bs \<and>
        kdata_inv kd' \<and> length data' = length data \<and>
        messages kd' = (messages kd)[k := (messages kd ! k)\<lparr>msg_recvflg := MSG_RECVFLG_READ\<rparr>]"
proof (cases "first_index (wanted i) (messages kd)")
  case None
  then have "\<forall>m \<in> set (messages kd). \<not> wanted i m" by (simp only: first_index_None)
  then show ?thesis using None get_none [OF inv sks, of data]
    by (simp add: recv_round_def recv_ack_return_def recv_ack_def cm_results split_beta)
next
  case (Some k)
  let ?m = "messages kd ! k"
  from first_index_Some [OF Some] have k: "k < length (messages kd)" "wanted i ?m" by auto
  have sp: "messages kd = take k (messages kd) @ ?m # drop (Suc k) (messages kd)"
    using id_take_nth_drop [OF k(1)] .
  have l: "int (length (msg_bytes ?m)) \<le> MSG_MAXDATALEN" "length (msg_bytes ?m) \<le> length data"
    using len nth_mem [OF k(1)] data by (auto simp flip: of_nat_le_iff)
  have dl: "msg_datalen ?m = int (length (msg_bytes ?m))"
    using inv k(1) by (auto simp: kdata_inv_def msgs_ok_def)
  from get_first [OF inv sks sp first_index_before [OF Some] k(2) l(2)] obtain kd' q where
    get: "kDataGetDataBySocketid sks i data kd =
      Inr (RETURN_OK, Some (msg_setnext q (handed (own_bufs sks i) ?m)),
        msg_bytes ?m @ drop (length (msg_bytes ?m)) data, kd')" "kdata_inv kd'"
      "messages kd' = (messages kd)[k := ?m\<lparr>msg_recvflg := MSG_RECVFLG_READ\<rparr>]"
    using k(1) by (auto simp: upd_conv_take_nth_drop)
  have m: "msg_datalen (msg_setnext q (handed (own_bufs sks i) ?m)) = int (length (msg_bytes ?m))"
    "msg_socketid (handed (own_bufs sks i) ?m) = msg_socketid ?m"
    by (simp_all add: msg_setnext_def handed_def dl)
  let ?mm = "msg_setnext q (handed (own_bufs sks i) ?m)"
  obtain bs where bs: "recv_ack CM_CM_SIG_RECV_ACK r CM_RESULT_OK (msg_socketid ?m) (Some (?mm, msg_bytes ?m)) = Inr bs"
    using m l by (simp add: recv_ack_def ack_data_def cm_results)
  then have "recv_ack CM_CM_SIG_RECV_ACK r CM_RESULT_OK (msg_socketid ?m)
      (Some (?mm, msg_bytes ?m @ drop (length (msg_bytes ?m)) data)) = Inr bs"
    using m l by (simp add: recv_ack_def ack_data_def cm_results)
  then have "recv_round sks wr now (h, i, t, r) data kd out =
      Inr (True, msg_bytes ?m @ drop (length (msg_bytes ?m)) data, kd', snd (cwrite wr h bs out))"
    by (simp add: recv_round_def get(1) recv_ack_return_def split_beta m(2))
  moreover have "length (msg_bytes ?m @ drop (length (msg_bytes ?m)) data) = length data" using l by simp
  ultimately show ?thesis using Some bs get(2,3) by auto
qed

section \<open>Properties\<close>

text \<open>
  C14: A run of the receive timer, with an allocator that leaves freed blocks readable: every waiting
  reader in turn is answered and forgotten, or stays, and nothing else changes; the run goes wrong
  only where one of the answers does.
\<close>

theorem kRecvTimerProc_refines:
  assumes inv: "rt_inv s" and keeps: "keeps_freed (hp (rt_tbl s))"
  shows "case waiters_run sks wr now (waiters s) (replicate (nat MSG_MAXDATALEN) 0) kd out of
      Inl f \<Rightarrow> kRecvTimerProc sks wr now s kd out = Inl f
    | Inr (left, kd', out') \<Rightarrow> \<exists>s'. kRecvTimerProc sks wr now s kd out = Inr (RETURN_OK, s', kd', out') \<and>
        rt_inv s' \<and> waiters s' = left"
  by (rule recv_timer_proc [OF assms])

theorem kRecvTimerProc_refines_witness:
  "\<exists>s'. kRecvTimerProc demo (\<lambda>_ _. True) \<lparr>tv_sec = 13, tv_usec = 5\<rparr> (demo_timer True) (kdata_boot False) [] =
     Inr (RETURN_OK, s', kdata_boot False, [(5, put16 CM_CM_SIG_RECV_ACK @ put16 77 @
       put16 CM_RESULT_SIG_NG_TIMEOUT @ put16 6 @ replicate 56 0)]) \<and> waiters s' = []"
  using kRecvTimerProc_refines [OF demo_timer_inv(1), of True demo "\<lambda>_ _. True" "\<lparr>tv_sec = 13, tv_usec = 5\<rparr>"
      "kdata_boot False" "[]"]
  unfolding demo_run by (auto simp: demo_timer_inv)

text \<open>
  C34: With an allocator that does not, the run is right as long as nobody is answered; the first
  reader that is makes it read the next pointer of the timer it has just freed.
\<close>

theorem kRecvTimerProc_use_after_free:
  assumes inv: "rt_inv s" and strict: "\<not> keeps_freed (hp (rt_tbl s))"
    and run: "waiters_run sks wr now (waiters s) (replicate (nat MSG_MAXDATALEN) 0) kd out = Inr (left, kd', out')"
  shows "kRecvTimerProc sks wr now s kd out =
     (if left = waiters s then Inr (RETURN_OK, s, kd', out') else Inl UseAfterFree)"
proof -
  from inv obtain xs where xs: "tbl_chain rt_next (rt_tbl s) xs" "waiters s = map (rt_pay \<circ> snd) xs"
    "waiters_ok (map (rt_pay \<circ> snd) xs)" "g_rt_num s = int (length xs)"
    by (auto simp: rt_inv_def waiters_def)
  show ?thesis
  proof (cases "xs = []")
    case True
    with xs run show ?thesis by (simp add: kRecvTimerProc_def)
  next
    case False
    have len: "length xs \<le> Suc (brk (hp (rt_tbl s)))"
      using chain_length xs(1) by (fastforce simp: tbl_chain_def)
    have hd: "first (rt_tbl s) = (case xs of [] \<Rightarrow> None | x # _ \<Rightarrow> Some (fst x))"
      using xs(1) by (auto simp: tbl_chain_def dest: chain_head)
    from proc_loop_strict [of s "[]" xs "Suc (brk (hp (rt_tbl s)))" "first (rt_tbl s)" sks wr now
        "replicate (nat MSG_MAXDATALEN) 0" kd out] xs strict len hd False run
    show ?thesis by (simp add: kRecvTimerProc_def)
  qed
qed

theorem kRecvTimerProc_use_after_free_witness:
  "kRecvTimerProc demo (\<lambda>_ _. True) \<lparr>tv_sec = 13, tv_usec = 5\<rparr> (demo_timer False) (kdata_boot False) [] =
     Inl UseAfterFree"
  using kRecvTimerProc_use_after_free [OF demo_timer_inv(1) _ demo_run, of False]
  by (simp add: demo_timer_inv)

text \<open>
  Setting a receive timer: a negative socket id, as many timers as there are sockets, a reader
  that waits already and a failed \<open>malloc\<close> are refused without a change; otherwise the reader is
  put behind the others, with its deadline.
\<close>

theorem kRecvTimerSet_refines:
  assumes inv: "rt_inv s" and last: "tbl_ok rt_next (rt_tbl s) (nodes rt_next (rt_tbl s))"
    and num: "g_rt_num s \<le> sockid" "sockid \<le> 32767"
  shows "if i < 0 \<or> g_rt_num s = sockid \<or> i \<in> w_id ` set (waiters s) \<or> \<not> m1
     then kRecvTimerSet sockid now m1 h i sec r s = Inr (RETURN_NG, s)
     else \<exists>s'. kRecvTimerSet sockid now m1 h i sec r s = Inr (RETURN_OK, s') \<and> rt_inv s' \<and>
       waiters s' = waiters s @ [(h, i, now\<lparr>tv_sec := long_of (tv_sec now + sec)\<rparr>, r)]"
  using kRecvTimerSet_refused [OF inv] kRecvTimerSet_append [OF inv last, of i sockid now h sec r] num
  by auto

theorem kRecvTimerSet_refines_witness:
  "\<exists>s'. kRecvTimerSet 6 \<lparr>tv_sec = 10, tv_usec = 5\<rparr> True 5 6 3 77 (recv_timer_boot False) = Inr (RETURN_OK, s') \<and>
     waiters s' = [(5, 6, \<lparr>tv_sec = 13, tv_usec = 5\<rparr>, 77)]"
proof -
  have last: "tbl_ok rt_next (rt_tbl (recv_timer_boot False)) (nodes rt_next (rt_tbl (recv_timer_boot False)))"
    using tbl_ok_nodes [of rt_next "empty_tbl False" "[]"] by (simp add: recv_timer_boot_def)
  have "g_rt_num (recv_timer_boot False) = 0" by (simp add: recv_timer_boot_def)
  with kRecvTimerSet_refines [OF rt_inv_boot(1) last, of 6 6 True "\<lparr>tv_sec = 10, tv_usec = 5\<rparr>" 5 3 77]
  show ?thesis by (auto simp: rt_inv_boot)
qed

text \<open>
  C19: What a waiting reader of a UDP, TCP data or raw socket gets: the oldest unread message of its
  socket, if there is one, which is then read; otherwise nothing while its deadline is ahead, and a
  timeout answer afterwards. In the first and the last case its timer is removed.
\<close>

theorem recv_round_answers:
  assumes inv: "kdata_inv kd" and sks: "ksocket_inv sks" "readable sks i"
    and len: "\<forall>m \<in> set (messages kd). int (length (msg_bytes m)) \<le> MSG_MAXDATALEN"
    and data: "int (length data) = MSG_MAXDATALEN"
  shows "case first_index (wanted i) (messages kd) of
      None \<Rightarrow> recv_round sks wr now (h, i, t, r) data kd out =
        (if tv_pending t now then Inr (False, data, kd, out)
         else Inr (True, data, kd, snd (cwrite wr h (put16 CM_CM_SIG_RECV_ACK @ put16 r @
           put16 CM_RESULT_SIG_NG_TIMEOUT @ put16 i @ replicate 56 0) out)))
    | Some k \<Rightarrow> \<exists>data' kd' q bs. recv_round sks wr now (h, i, t, r) data kd out =
          Inr (True, data', kd', snd (cwrite wr h bs out)) \<and>
        recv_ack CM_CM_SIG_RECV_ACK r CM_RESULT_OK (msg_socketid (messages kd ! k))
          (Some (msg_setnext q (handed (own_bufs sks i) (messages kd ! k)), msg_bytes (messages kd ! k))) = Inr bs \<and>
        kdata_inv kd' \<and>
        messages kd' = (messages kd)[k := (messages kd ! k)\<lparr>msg_recvflg := MSG_RECVFLG_READ\<rparr>]"
  using recv_round_result [OF assms, where wr = wr and h = h and t = t and r = r and now = now and out = out]
  by (cases "first_index (wanted i) (messages kd)") (simp_all, blast)

theorem recv_round_answers_witness:
  "\<exists>data' kd' out'. recv_round demo (\<lambda>_ _. True) \<lparr>tv_sec = 10, tv_usec = 0\<rparr> (5, 6, \<lparr>tv_sec = 13, tv_usec = 5\<rparr>, 77)
     (replicate (nat MSG_MAXDATALEN) 0) (demo_kdata 6) [] = Inr (True, data', kd', out') \<and>
     length out' = 1 \<and> unread (messages kd' ! 0) = False"
proof -
  have w: "first_index (wanted 6) (messages (demo_kdata 6)) = Some 0"
    by (simp add: demo_messages wanted_def)
  show ?thesis
    using recv_round_answers [OF demo_kdata_ok(1) [of 6] demo_inv(1) demo_readable, where data =
        "replicate (nat MSG_MAXDATALEN) 0" and wr = "\<lambda>_ _. True" and now = "\<lparr>tv_sec = 10, tv_usec = 0\<rparr>" and h = 5 and
        t = "\<lparr>tv_sec = 13, tv_usec = 5\<rparr>" and r = 77 and out = "[]", unfolded w option.case]
    by (fastforce simp: demo_messages MSG_MAXDATALEN_def cwrite_def unread_def msg_consts)
qed

end
