(* ===== verification/KBuffer.thy ===== *)
theory KBuffer
  imports Koi_Heap
begin

text \<open>
  \<open>lib/kBuffer\<close>: the bytes a TCP socket has delivered that do not yet form a whole message.
  The table holds at most one entry per socket id; \<open>kBufferSet\<close> adds an entry,
  \<open>kBufferGet\<close> hands it out and removes it.
\<close>

section \<open>State\<close>

record left_data =
  ld_socketid :: int
  ld_datalen :: int
  ld_data :: "byte list"
  ld_next :: "nat option"

definition ld_setnext :: "nat option \<Rightarrow> left_data \<Rightarrow> left_data" where
  "ld_setnext q n = n\<lparr>ld_next := q\<rparr>"

text \<open>The static variables of \<open>kBuffer.c\<close>.\<close>

record kbuffer =
  ld_tbl :: "left_data tbl"
  g_ld_datanum :: int

definition kbuffer_boot :: "bool \<Rightarrow> kbuffer" where
  "kbuffer_boot k = \<lparr>ld_tbl = empty_tbl k, g_ld_datanum = 0\<rparr>"

section \<open>Operations\<close>

text \<open>
  The loop of \<open>kBufferInit\<close> visits every node and frees its data (owned by the node here);
  the nodes themselves are not freed.
\<close>

fun ld_visit :: "nat \<Rightarrow> left_data heap \<Rightarrow> nat option \<Rightarrow> unit res" where
  "ld_visit 0 h cur = Inl Endless"
| "ld_visit (Suc k) h cur = bind_res (load h cur) (\<lambda>n.
     case ld_next n of None \<Rightarrow> Inr () | Some b \<Rightarrow> ld_visit k h (Some b))"

definition kBufferInit :: "kbuffer \<Rightarrow> (bool \<times> kbuffer) res" where
  "kBufferInit s = bind_res
     (case first (ld_tbl s) of
        Some _ \<Rightarrow> bind_res (ld_visit (brk (hp (ld_tbl s))) (hp (ld_tbl s)) (first (ld_tbl s)))
          (\<lambda>_. Inr (s\<lparr>ld_tbl := (ld_tbl s)\<lparr>first := None\<rparr>\<rparr>))
      | None \<Rightarrow> Inr s)
     (\<lambda>s. Inr (True, s\<lparr>g_ld_datanum := 0\<rparr>))"

text \<open>
  \<open>sockid\<close> is \<open>kSocket\<close>'s counter \<open>g_socket_socketid\<close>; \<open>m1\<close> and \<open>m2\<close> say whether
  the two \<open>malloc\<close> calls succeed. \<open>memset(new->ld_data, 0, sizeof(datalen))\<close> clears
  four bytes whatever the buffer's size is.
\<close>

definition kBufferSet ::
    "int \<Rightarrow> bool \<Rightarrow> bool \<Rightarrow> int \<Rightarrow> int \<Rightarrow> byte list \<Rightarrow> kbuffer \<Rightarrow> (bool \<times> kbuffer) res" where
  "kBufferSet sockid m1 m2 socketid datalen data s =
     (if g_ld_datanum s = sockid then Inr (False, s)
      else bind_res
        (case first (ld_tbl s) of
           Some _ \<Rightarrow> scan (brk (hp (ld_tbl s))) ld_next (\<lambda>n. ld_socketid n = socketid)
             (hp (ld_tbl s)) None (first (ld_tbl s))
         | None \<Rightarrow> Inr None)
        (\<lambda>found. case found of
           Some _ \<Rightarrow> Inr (False, s)
         | None \<Rightarrow>
             if \<not> m1 then Inr (False, s)
             else (case malloc_bytes m2 datalen of
               None \<Rightarrow> Inr (False, s)
             | Some buf \<Rightarrow>
                 bind_res (cmemset buf 0 4) (\<lambda>buf.
                 bind_res (cmemcpy buf 0 data (nat datalen)) (\<lambda>buf.
                 let (a, h) = halloc \<lparr>ld_socketid = socketid, ld_datalen = datalen,
                       ld_data = buf, ld_next = None\<rparr> (hp (ld_tbl s)) in
                 bind_res (link_last ld_setnext ((ld_tbl s)\<lparr>hp := h\<rparr>) a) (\<lambda>t.
                   Inr (True, \<lparr>ld_tbl = t, g_ld_datanum = short_of (g_ld_datanum s + 1)\<rparr>)))))))"

text \<open>
  The out parameters: \<open>datalen\<close> may be null (\<open>False\<close>), and so may the caller's buffer
  \<open>data\<close>. The result holds the return value, the value stored in \<open>*datalen\<close> if it was
  written, and the caller's buffer.
\<close>

definition kBufferGet ::
    "int \<Rightarrow> bool \<Rightarrow> byte list option \<Rightarrow> kbuffer \<Rightarrow>
     (bool \<times> int option \<times> byte list option \<times> kbuffer) res" where
  "kBufferGet socketid datalen data s =
     (if \<not> datalen then Inr (False, None, data, s)
      else case data of
        None \<Rightarrow> Inr (False, None, data, s)
      | Some dst \<Rightarrow>
          if first (ld_tbl s) = None \<or> g_ld_datanum s = 0 then Inr (True, Some 0, data, s)
          else bind_res (scan (brk (hp (ld_tbl s))) ld_next (\<lambda>n. ld_socketid n = socketid)
                 (hp (ld_tbl s)) None (first (ld_tbl s)))
            (\<lambda>found. case found of
               None \<Rightarrow> Inr (True, Some 0, data, s)
             | Some (prev, a, n) \<Rightarrow>
                 bind_res (cmemcpy dst 0 (ld_data n) (nat (ld_datalen n))) (\<lambda>dst.
                 bind_res (unlink ld_next ld_setnext (ld_tbl s) prev a) (\<lambda>t.
                   Inr (True, Some (ld_datalen n), Some dst,
                     \<lparr>ld_tbl = t, g_ld_datanum = short_of (g_ld_datanum s - 1)\<rparr>)))))"

lemmas kbuffer_defs [koi_simps] =
  kBufferInit_def kBufferSet_def kBufferGet_def kbuffer_boot_def ld_setnext_def

section \<open>Invariant and abstraction\<close>

definition ld_pay :: "left_data \<Rightarrow> int \<times> int \<times> byte list" where
  "ld_pay n = (ld_socketid n, ld_datalen n, ld_data n)"

interpretation ld: linked_node ld_next ld_setnext ld_pay
  by unfold_locales (auto simp: ld_setnext_def ld_pay_def)

text \<open>What the table promises: which bytes are left over for which socket, oldest first.\<close>

definition ld_pays :: "kbuffer \<Rightarrow> (int \<times> int \<times> byte list) list" where
  "ld_pays s = map (ld_pay \<circ> snd) (nodes ld_next (ld_tbl s))"

definition left_entries :: "kbuffer \<Rightarrow> (int \<times> byte list) list" where
  "left_entries s = map (\<lambda>(i, l, d). (i, d)) (ld_pays s)"

text \<open>At most one entry per socket id, each with its length.\<close>

definition ld_entries_ok :: "(int \<times> int \<times> byte list) list \<Rightarrow> bool" where
  "ld_entries_ok ps \<longleftrightarrow> distinct (map fst ps) \<and> (\<forall>(i, l, d) \<in> set ps. l = int (length d))"

definition kbuffer_inv :: "int \<Rightarrow> kbuffer \<Rightarrow> bool" where
  "kbuffer_inv sockid s \<longleftrightarrow>
     tbl_ok ld_next (ld_tbl s) (nodes ld_next (ld_tbl s)) \<and> ld_entries_ok (ld_pays s) \<and>
     g_ld_datanum s = int (length (ld_pays s)) \<and> g_ld_datanum s \<le> sockid \<and> sockid \<le> 32767"

lemma fst_left_entries: "map fst (left_entries s) = map fst (ld_pays s)"
  by (auto simp: left_entries_def)

lemma kbuffer_invD:
  assumes "kbuffer_inv sockid s"
  obtains xs where "nodes ld_next (ld_tbl s) = xs" "tbl_ok ld_next (ld_tbl s) xs"
    "ld_pays s = map (ld_pay \<circ> snd) xs" "ld_entries_ok (ld_pays s)"
    "g_ld_datanum s = int (length xs)" "int (length xs) \<le> sockid" "sockid \<le> 32767"
  using assms by (auto simp: kbuffer_inv_def ld_pays_def)

lemma kbuffer_invI:
  assumes "tbl_ok ld_next (ld_tbl s) xs" "map (ld_pay \<circ> snd) xs = ps" "ld_entries_ok ps"
    "g_ld_datanum s = int (length xs)" "int (length xs) \<le> sockid" "sockid \<le> 32767"
  shows "kbuffer_inv sockid s"
  using assms tbl_ok_nodes [OF assms(1)] by (auto simp: kbuffer_inv_def ld_pays_def)

lemma ld_pays_chain:
  "tbl_chain ld_next (ld_tbl s) xs \<Longrightarrow> ld_pays s = map (ld_pay \<circ> snd) xs"
  by (simp add: ld_pays_def tbl_chain_nodes)

lemma left_entries_boot [simp]: "left_entries (kbuffer_boot k) = []"
  by (simp add: left_entries_def ld_pays_def nodes_def kbuffer_boot_def empty_tbl_def empty_heap_def)

lemma kbuffer_inv_num: "kbuffer_inv sockid s \<Longrightarrow> g_ld_datanum s = int (length (left_entries s))"
  by (simp add: kbuffer_inv_def left_entries_def)

lemma kbuffer_inv_boot: "0 \<le> sockid \<Longrightarrow> sockid \<le> 32767 \<Longrightarrow> kbuffer_inv sockid (kbuffer_boot k)"
  by (rule kbuffer_invI [of _ "[]"]) (auto simp: kbuffer_boot_def ld_entries_ok_def)

lemmas ld_search = chain_search [where nx = ld_next, OF tbl_okD(1)]

lemma ld_seek:
  assumes "ld_pays s = map (ld_pay \<circ> snd) xs"
  shows "seek (\<lambda>n. ld_socketid n = i) None xs = None \<longleftrightarrow> i \<notin> fst ` set (left_entries s)"
proof -
  have "fst ` set (left_entries s) = ld_socketid ` snd ` set xs"
    unfolding left_entries_def assms by (force simp: ld_pay_def image_iff)
  then show ?thesis by (auto simp: seek_None)
qed

section \<open>kBufferSet\<close>

text \<open>Once past its checks, \<open>kBufferSet\<close> appends the new node to the table.\<close>

lemma kBufferSet_append:
  assumes inv: "kbuffer_inv sockid s"
    and m: "m1" "m2" and len: "4 \<le> datalen" "datalen \<le> int (length data)"
    and room: "g_ld_datanum s \<noteq> sockid"
    and new: "socketid \<notin> fst ` set (left_entries s)"
  shows "\<exists>s'. kBufferSet sockid m1 m2 socketid datalen data s = Inr (True, s') \<and>
     kbuffer_inv sockid s' \<and>
     left_entries s' = left_entries s @ [(socketid, take (nat datalen) data)]"
proof -
  from inv obtain xs where xs: "tbl_ok ld_next (ld_tbl s) xs"
    "ld_pays s = map (ld_pay \<circ> snd) xs" "ld_entries_ok (ld_pays s)"
    "g_ld_datanum s = int (length xs)" "int (length xs) \<le> sockid" "sockid \<le> 32767"
    by (rule kbuffer_invD)
  let ?n = "\<lparr>ld_socketid = socketid, ld_datalen = datalen,
     ld_data = take (nat datalen) data, ld_next = None\<rparr>"
  obtain a h where ah: "halloc ?n (hp (ld_tbl s)) = (a, h)" by (cases "halloc ?n (hp (ld_tbl s))")
  note al = halloc_tbl [OF xs(1) ah]
  from ld.link_last_ok [OF al(1,2)] obtain t where
    t: "link_last ld_setnext ((ld_tbl s)\<lparr>hp := h\<rparr>) a = Inr t"
      "tbl_ok ld_next t (relink ld_setnext (Some a) xs @ [(a, ld_setnext None ?n)])" by blast
  let ?s' = "\<lparr>ld_tbl = t, g_ld_datanum = short_of (g_ld_datanum s + 1)\<rparr>"
  from new have new': "socketid \<notin> fst ` set (ld_pays s)"
    using fst_left_entries [of s] by (metis set_map)
  have sk: "seek (\<lambda>n. ld_socketid n = socketid) None xs = None"
    using new by (simp add: ld_seek [OF xs(2)])
  have run: "kBufferSet sockid m1 m2 socketid datalen data s = Inr (True, ?s')"
    using m len room t(1) ah ld_search [OF xs(1), of "\<lambda>n. ld_socketid n = socketid"] sk
    by (simp add: kBufferSet_def malloc_bytes_def)
  let ?ps = "ld_pays s @ [(socketid, datalen, take (nat datalen) data)]"
  have pay': "map (ld_pay \<circ> snd) (relink ld_setnext (Some a) xs @ [(a, ld_setnext None ?n)]) = ?ps"
    using ld.pay_relink [of "Some a" xs] xs(2) by (simp add: ld.pay_setnx) (simp add: ld_pay_def)
  have "ld_entries_ok ?ps"
    using xs(3) new' len by (auto simp: ld_entries_ok_def)
  then have "kbuffer_inv sockid ?s'"
    using kbuffer_invI [of ?s', OF _ pay'] xs(4-6) room t(2) by auto
  moreover have "ld_pays ?s' = ?ps"
    using ld_pays_chain [of ?s'] tbl_okD(1) [OF t(2)] pay' by simp
  ultimately show ?thesis using run by (auto simp: left_entries_def)
qed

text \<open>
  A full table, a socket that already has left data, or a failed \<open>malloc\<close> is refused and
  nothing changes.
\<close>

lemma kBufferSet_refused:
  assumes inv: "kbuffer_inv sockid s"
    and bad: "g_ld_datanum s = sockid \<or> socketid \<in> fst ` set (left_entries s) \<or>
       \<not> m1 \<or> \<not> m2 \<or> datalen < 0"
  shows "kBufferSet sockid m1 m2 socketid datalen data s = Inr (False, s)"
proof -
  from inv obtain xs where xs: "tbl_ok ld_next (ld_tbl s) xs"
    "ld_pays s = map (ld_pay \<circ> snd) xs" by (rule kbuffer_invD)
  note search = ld_search [OF xs(1), of "\<lambda>n. ld_socketid n = socketid"]
  show ?thesis
  proof (cases "socketid \<in> fst ` set (left_entries s)")
    case True
    then have "seek (\<lambda>n. ld_socketid n = socketid) None xs \<noteq> None"
      using ld_seek [OF xs(2)] by simp
    with search show ?thesis by (auto simp: kBufferSet_def)
  next
    case False
    with bad search show ?thesis
      by (auto simp: kBufferSet_def malloc_bytes_def split: option.split)
  qed
qed

text \<open>
  A leftover of fewer than four bytes makes \<open>memset\<close> write past the new data buffer.
\<close>

lemma kBufferSet_overflow:
  assumes inv: "kbuffer_inv sockid s" and m: "m1" "m2" and len: "0 \<le> datalen" "datalen < 4"
    and room: "g_ld_datanum s \<noteq> sockid"
    and new: "socketid \<notin> fst ` set (left_entries s)"
  shows "kBufferSet sockid m1 m2 socketid datalen data s = Inl BufferOverflow"
proof -
  from inv obtain xs where xs: "tbl_ok ld_next (ld_tbl s) xs"
    "ld_pays s = map (ld_pay \<circ> snd) xs" by (rule kbuffer_invD)
  have "seek (\<lambda>n. ld_socketid n = socketid) None xs = None"
    using new by (simp add: ld_seek [OF xs(2)])
  moreover from len have "nat datalen < 4" by linarith
  ultimately show ?thesis
    using ld_search [OF xs(1), of "\<lambda>n. ld_socketid n = socketid"] m len room
    by (simp add: kBufferSet_def malloc_bytes_def cmemset_def)
qed

section \<open>kBufferGet\<close>

text \<open>Where an entry sits in the node list, by its socket id.\<close>

lemma ld_split:
  assumes "(socketid, d) \<in> set (left_entries s)" "ld_entries_ok (ld_pays s)"
    "ld_pays s = map (ld_pay \<circ> snd) xs"
  obtains ys a n zs where "xs = ys @ (a, n) # zs" "ld_socketid n = socketid" "ld_data n = d"
    "ld_datalen n = int (length d)"
    "\<forall>x \<in> set (ys @ zs). ld_socketid (snd x) \<noteq> socketid"
    "left_entries s = map (\<lambda>x. (ld_socketid (snd x), ld_data (snd x))) ys @ (socketid, d) #
       map (\<lambda>x. (ld_socketid (snd x), ld_data (snd x))) zs"
proof -
  from assms(1,3) obtain x where x: "x \<in> set xs" "ld_socketid (snd x) = socketid"
    "ld_data (snd x) = d" by (auto simp: left_entries_def ld_pay_def)
  then obtain ys zs where xs: "xs = ys @ x # zs" by (auto simp: in_set_conv_decomp)
  have "ld_datalen (snd x) = int (length d)"
    using assms(2,3) x by (fastforce simp: ld_entries_ok_def ld_pay_def)
  moreover have "\<forall>y \<in> set (ys @ zs). ld_socketid (snd y) \<noteq> socketid"
  proof -
    have "distinct (map (\<lambda>y. ld_socketid (snd y)) xs)"
      using assms(2,3) by (simp add: ld_entries_ok_def ld_pay_def comp_def)
    then have "ld_socketid (snd x) \<notin> (\<lambda>y. ld_socketid (snd y)) ` set (ys @ zs)"
      unfolding xs by auto
    with x(2) show ?thesis by (metis imageI)
  qed
  ultimately show ?thesis
    using that [of ys "fst x" "snd x" zs] x xs assms(3) by (simp add: left_entries_def ld_pay_def)
qed

text \<open>
  Taking out an entry unlinks its node; the last pointer goes to the node before it.
\<close>

lemma kBufferGet_unlinks:
  assumes inv: "kbuffer_inv sockid s" and e: "(socketid, d) \<in> set (left_entries s)"
    and dst: "length d \<le> length dst"
  obtains ys a n zs t where
    "nodes ld_next (ld_tbl s) = ys @ (a, n) # zs"
    "\<forall>x \<in> set (ys @ zs). ld_socketid (snd x) \<noteq> socketid"
    "left_entries s = map (\<lambda>x. (ld_socketid (snd x), ld_data (snd x))) ys @ (socketid, d) #
       map (\<lambda>x. (ld_socketid (snd x), ld_data (snd x))) zs"
    "kBufferGet socketid True (Some dst) s =
       Inr (True, Some (int (length d)), Some (d @ drop (length d) dst),
         \<lparr>ld_tbl = t, g_ld_datanum = g_ld_datanum s - 1\<rparr>)"
    "unlink ld_next ld_setnext (ld_tbl s) (if ys = [] then None else Some (fst (last ys))) a = Inr t"
    "tbl_chain ld_next t (relink ld_setnext (ld_next n) ys @ zs)"
    "final t = (if ys = [] then final (ld_tbl s) else Some (fst (last ys)))"
proof -
  from inv obtain xs where xs: "nodes ld_next (ld_tbl s) = xs" "tbl_ok ld_next (ld_tbl s) xs"
    "ld_pays s = map (ld_pay \<circ> snd) xs" "ld_entries_ok (ld_pays s)"
    "g_ld_datanum s = int (length xs)" "int (length xs) \<le> sockid" "sockid \<le> 32767"
    by (rule kbuffer_invD)
  obtain ys a n zs where
    sp: "xs = ys @ (a, n) # zs" "ld_socketid n = socketid" "ld_data n = d"
      "ld_datalen n = int (length d)"
    and others: "\<forall>x \<in> set (ys @ zs). ld_socketid (snd x) \<noteq> socketid"
    and entries: "left_entries s = map (\<lambda>x. (ld_socketid (snd x), ld_data (snd x))) ys @
       (socketid, d) # map (\<lambda>x. (ld_socketid (snd x), ld_data (snd x))) zs"
    by (rule ld_split [OF e xs(4,3)])
  let ?prev = "if ys = [] then None else Some (fst (last ys))"
  have sk: "seek (\<lambda>n. ld_socketid n = socketid) None xs = Some (?prev, a, n)"
    unfolding sp(1) by (rule seek_split) (use others sp(2) in auto)
  note oks = tbl_okD [OF xs(2)]
  from ld.unlink_ok [of "ld_tbl s" ys a n zs, OF _ refl] oks(1) sp(1) obtain t where
    t: "unlink ld_next ld_setnext (ld_tbl s) ?prev a = Inr t"
      "tbl_chain ld_next t (relink ld_setnext (ld_next n) ys @ zs)"
      "final t = (if ys = [] then final (ld_tbl s) else Some (fst (last ys)))" by auto
  have ne: "xs \<noteq> []" using sp by simp
  then obtain f where f: "first (ld_tbl s) = Some f"
    using tbl_chain_first [OF oks(1)] by auto
  have "kBufferGet socketid True (Some dst) s =
      Inr (True, Some (int (length d)), Some (d @ drop (length d) dst),
        \<lparr>ld_tbl = t, g_ld_datanum = g_ld_datanum s - 1\<rparr>)"
    using scan_tbl [OF oks(1) ne, of "\<lambda>n. ld_socketid n = socketid"] sk t(1) sp(2-4) dst xs(5-7) ne f
    by (simp add: kBufferGet_def)
  with sp(1) xs(1) others entries t show ?thesis by (blast intro: that)
qed

lemma kBufferGet_found:
  assumes inv: "kbuffer_inv sockid s" and e: "(socketid, d) \<in> set (left_entries s)"
    and dst: "length d \<le> length dst"
  shows "\<exists>s'. kBufferGet socketid True (Some dst) s =
       Inr (True, Some (int (length d)), Some (d @ drop (length d) dst), s') \<and>
     left_entries s' = filter (\<lambda>e. fst e \<noteq> socketid) (left_entries s) \<and>
     g_ld_datanum s' = g_ld_datanum s - 1 \<and>
     (socketid = fst (hd (left_entries s)) \<or> socketid = fst (last (left_entries s)) \<longrightarrow>
        kbuffer_inv sockid s')"
proof -
  let ?ent = "\<lambda>x. (ld_socketid (snd x), ld_data (snd x))"
  obtain ys a n zs t where
    sp: "nodes ld_next (ld_tbl s) = ys @ (a, n) # zs"
    and others: "\<forall>x \<in> set (ys @ zs). ld_socketid (snd x) \<noteq> socketid"
    and entries: "left_entries s = map ?ent ys @ (socketid, d) # map ?ent zs"
    and run: "kBufferGet socketid True (Some dst) s =
       Inr (True, Some (int (length d)), Some (d @ drop (length d) dst),
         \<lparr>ld_tbl = t, g_ld_datanum = g_ld_datanum s - 1\<rparr>)"
    and t: "unlink ld_next ld_setnext (ld_tbl s)
        (if ys = [] then None else Some (fst (last ys))) a = Inr t"
      "tbl_chain ld_next t (relink ld_setnext (ld_next n) ys @ zs)"
      "final t = (if ys = [] then final (ld_tbl s) else Some (fst (last ys)))"
    by (rule kBufferGet_unlinks [OF inv e dst])
  from inv sp have xs: "tbl_ok ld_next (ld_tbl s) (ys @ (a, n) # zs)"
    "ld_pays s = map (ld_pay \<circ> snd) (ys @ (a, n) # zs)" "ld_entries_ok (ld_pays s)"
    "g_ld_datanum s = int (length (ys @ (a, n) # zs))" "g_ld_datanum s \<le> sockid" "sockid \<le> 32767"
    by (auto simp: kbuffer_inv_def ld_pays_def)
  let ?s' = "\<lparr>ld_tbl = t, g_ld_datanum = g_ld_datanum s - 1\<rparr>"
  let ?xs' = "relink ld_setnext (ld_next n) ys @ zs"
  have pays: "map (ld_pay \<circ> snd) ?xs' = map (ld_pay \<circ> snd) (ys @ zs)"
    using ld.pay_relink [of "ld_next n" ys] by simp
  have "left_entries ?s' = map ?ent (ys @ zs)"
    using ld_pays_chain [of ?s' ?xs'] t(2) pays by (simp add: left_entries_def ld_pay_def)
  also have "\<dots> = filter (\<lambda>e. fst e \<noteq> socketid) (left_entries s)"
    using others by (simp add: entries filter_map comp_def filter_id_conv)
  finally have entries': "left_entries ?s' = filter (\<lambda>e. fst e \<noteq> socketid) (left_entries s)" .
  have "kbuffer_inv sockid ?s'"
    if "socketid = fst (hd (left_entries s)) \<or> socketid = fst (last (left_entries s))"
  proof -
    have "ys = [] \<or> zs = []"
      using that entries others by (cases ys; cases zs rule: rev_cases) auto
    from ld.unlink_tbl_ok [OF xs(1) this refl] t(1)
    have "tbl_ok ld_next t ?xs'" by auto
    moreover have "ld_entries_ok (map (ld_pay \<circ> snd) ?xs')"
      using xs(2,3) pays by (auto simp: ld_entries_ok_def)
    ultimately show ?thesis
      using xs(4-6) by (intro kbuffer_invI [of ?s' ?xs']) auto
  qed
  with run entries' show ?thesis by auto
qed

lemma kBufferGet_absent:
  assumes inv: "kbuffer_inv sockid s" and "socketid \<notin> fst ` set (left_entries s)"
  shows "kBufferGet socketid True (Some dst) s = Inr (True, Some 0, Some dst, s)"
proof -
  from inv obtain xs where xs: "tbl_ok ld_next (ld_tbl s) xs"
    "ld_pays s = map (ld_pay \<circ> snd) xs" by (rule kbuffer_invD)
  have "seek (\<lambda>n. ld_socketid n = socketid) None xs = None"
    using assms(2) by (simp add: ld_seek [OF xs(2)])
  with scan_tbl [OF tbl_okD(1) [OF xs(1)], of "\<lambda>n. ld_socketid n = socketid"]
    tbl_chain_first [OF tbl_okD(1) [OF xs(1)]] show ?thesis
    by (cases "xs = []") (auto simp: kBufferGet_def)
qed

section \<open>kBufferInit\<close>

lemma ld_visit_chain:
  "chain ld_next h p xs None \<Longrightarrow> xs \<noteq> [] \<Longrightarrow> length xs \<le> k \<Longrightarrow> ld_visit k h p = Inr ()"
proof (induction xs arbitrary: k p)
  case (Cons x xs)
  obtain a n where x: "x = (a, n)" by (cases x)
  obtain k' where k: "k = Suc k'" using Cons.prems(3) by (cases k) auto
  show ?case
  proof (cases xs)
    case Nil
    with Cons.prems x k show ?thesis by auto
  next
    case (Cons y ys)
    with Cons.IH [of "ld_next n" k'] Cons.prems x k show ?thesis by (cases y) auto
  qed
qed simp

lemma kBufferInit_clears:
  assumes "kbuffer_inv sockid s"
  shows "\<exists>s'. kBufferInit s = Inr (True, s') \<and> left_entries s' = [] \<and> kbuffer_inv sockid s'"
proof -
  from assms obtain xs where xs: "tbl_ok ld_next (ld_tbl s) xs"
    "int (length xs) \<le> sockid" "sockid \<le> 32767" by (rule kbuffer_invD)
  note oks = tbl_okD [OF xs(1)]
  let ?t = "(ld_tbl s)\<lparr>first := None\<rparr>"
  have "kBufferInit s = Inr (True, s\<lparr>ld_tbl := ?t, g_ld_datanum := 0\<rparr>)"
  proof (cases "xs = []")
    case True
    then have "first (ld_tbl s) = None" using tbl_chain_first [OF oks(1)] by simp
    then show ?thesis by (simp add: kBufferInit_def)
  next
    case False
    then obtain f where "first (ld_tbl s) = Some f" using tbl_chain_first [OF oks(1)] by auto
    with False ld_visit_chain [OF oks(3)] chain_length [OF oks(2,3)] show ?thesis
      by (simp add: kBufferInit_def)
  qed
  moreover have ok: "tbl_ok ld_next ?t []"
    using oks(2) by (simp add: tbl_ok_def tbl_chain_def)
  then have "kbuffer_inv sockid (s\<lparr>ld_tbl := ?t, g_ld_datanum := 0\<rparr>)"
    using xs(2,3) by (intro kbuffer_invI [of _ "[]"]) (auto simp: ld_entries_ok_def)
  moreover have "left_entries (s\<lparr>ld_tbl := ?t, g_ld_datanum := 0\<rparr>) = []"
    using tbl_ok_nodes [OF ok] by (simp add: left_entries_def ld_pays_def)
  ultimately show ?thesis by blast
qed

section \<open>Taking an entry out of the middle\<close>

text \<open>
  \<open>kBufferSet\<close> on a table whose last pointer is on a node in the middle: everything behind
  that node is cut off, and the counter does not notice.
\<close>

lemma kBufferSet_cuts:
  assumes ch: "tbl_chain ld_next (ld_tbl s) (us @ (b, k) # ws)" "final (ld_tbl s) = Some b"
    and m: "m1" "m2" and len: "4 \<le> datalen" "datalen \<le> int (length data)"
    and room: "g_ld_datanum s \<noteq> sockid"
    and new: "j \<notin> fst ` set (left_entries s)"
  shows "\<exists>s'. kBufferSet sockid m1 m2 j datalen data s = Inr (True, s') \<and>
     left_entries s' = map (\<lambda>x. (ld_socketid (snd x), ld_data (snd x))) (us @ [(b, k)]) @
       [(j, take (nat datalen) data)] \<and>
     g_ld_datanum s' = short_of (g_ld_datanum s + 1)"
proof -
  let ?new = "\<lparr>ld_socketid = j, ld_datalen = datalen, ld_data = take (nat datalen) data, ld_next = None\<rparr>"
  let ?t = "ld_tbl s"
  obtain c h where ah: "halloc ?new (hp ?t) = (c, h)" by (cases "halloc ?new (hp ?t)")
  note al = halloc_chain [OF ch(1) ah]
  from ld.link_last_at [of "?t\<lparr>hp := h\<rparr>", OF al(1) _ al(2)] ch(2) obtain t where
    t: "link_last ld_setnext (?t\<lparr>hp := h\<rparr>) c = Inr t"
      "tbl_ok ld_next t (us @ [(b, ld_setnext (Some c) k), (c, ld_setnext None ?new)])"
    by auto
  let ?s' = "\<lparr>ld_tbl = t, g_ld_datanum = short_of (g_ld_datanum s + 1)\<rparr>"
  have search: "(case first ?t of
       Some _ \<Rightarrow> scan (brk (hp ?t)) ld_next (\<lambda>n. ld_socketid n = j) (hp ?t) None (first ?t)
     | None \<Rightarrow> Inr None) = Inr None"
    using chain_search [OF ch(1), of "\<lambda>n. ld_socketid n = j"] new ld_seek [OF ld_pays_chain [OF ch(1)]]
    by simp
  have "kBufferSet sockid m1 m2 j datalen data s = Inr (True, ?s')"
    using m len room search ah t(1) by (simp add: kBufferSet_def malloc_bytes_def)
  moreover have "left_entries ?s' = map (\<lambda>x. (ld_socketid (snd x), ld_data (snd x))) (us @ [(b, k)]) @
       [(j, take (nat datalen) data)]"
    using ld_pays_chain [of ?s'] tbl_okD(1) [OF t(2)]
    by (simp add: left_entries_def ld_pay_def ld_setnext_def)
  ultimately show ?thesis by simp
qed

section \<open>Properties\<close>

text \<open>
  C35: After \<open>kBufferGet\<close> took out an entry that has others before and behind it, the last
  pointer is on the entry before it, and the next \<open>kBufferSet\<close> cuts off everything behind:
  the left-over bytes of those sockets are lost, while the counter still counts them.
\<close>

theorem kBuffer_middle_lost:
  assumes inv: "kbuffer_inv sockid s"
    and entries: "left_entries s = ys @ (i, d) # zs" "ys \<noteq> []"
    and dst: "length d \<le> length dst"
    and m: "m1" "m2" and len: "4 \<le> datalen" "datalen \<le> int (length data)"
    and new: "j \<notin> fst ` set (ys @ zs)"
  shows "\<exists>s1 s2. kBufferGet i True (Some dst) s =
       Inr (True, Some (int (length d)), Some (d @ drop (length d) dst), s1) \<and>
     left_entries s1 = ys @ zs \<and>
     kBufferSet sockid m1 m2 j datalen data s1 = Inr (True, s2) \<and>
     left_entries s2 = ys @ [(j, take (nat datalen) data)] \<and>
     g_ld_datanum s2 = int (length (ys @ zs)) + 1"
proof -
  let ?ent = "\<lambda>x. (ld_socketid (snd x), ld_data (snd x))"
  have e: "(i, d) \<in> set (left_entries s)" using entries by simp
  obtain us a n ws t where
    "nodes ld_next (ld_tbl s) = us @ (a, n) # ws" and
    others: "\<forall>x \<in> set (us @ ws). ld_socketid (snd x) \<noteq> i"
    and ent: "left_entries s = map ?ent us @ (i, d) # map ?ent ws"
    and run: "kBufferGet i True (Some dst) s =
       Inr (True, Some (int (length d)), Some (d @ drop (length d) dst),
         \<lparr>ld_tbl = t, g_ld_datanum = g_ld_datanum s - 1\<rparr>)" (is "_ = Inr (_, _, _, ?s1)")
    and "unlink ld_next ld_setnext (ld_tbl s)
        (if us = [] then None else Some (fst (last us))) a = Inr t"
    and t: "tbl_chain ld_next t (relink ld_setnext (ld_next n) us @ ws)"
      "final t = (if us = [] then final (ld_tbl s) else Some (fst (last us)))"
    by (rule kBufferGet_unlinks [OF inv e dst])
  from inv have num: "g_ld_datanum s = int (length (left_entries s))" "g_ld_datanum s \<le> sockid"
      "sockid \<le> 32767" and dist: "distinct (map fst (left_entries s))"
    by (auto simp: kbuffer_inv_def left_entries_def ld_entries_ok_def comp_def split_beta)
  have yz: "map ?ent us = ys" "map ?ent ws = zs"
    using split_unique [of "map ?ent us" i d "map ?ent ws" ys d zs] ent entries(1) dist by metis+
  obtain vs v where v: "us = vs @ [v]" using yz(1) entries(2) by (cases us rule: rev_cases) auto
  have ch: "tbl_chain ld_next (ld_tbl ?s1) (vs @ (fst v, ld_setnext (ld_next n) (snd v)) # ws)"
    using t(1) v by simp
  have e1: "left_entries ?s1 = ys @ zs"
    using ld_pays_chain [OF ch] yz v by (auto simp: left_entries_def ld_pay_def ld_setnext_def)
  from kBufferSet_cuts [OF ch _ m len, of sockid j] t(2) v num e1 new entries(1) obtain s2 where
    "kBufferSet sockid m1 m2 j datalen data ?s1 = Inr (True, s2)"
    "left_entries s2 = ys @ [(j, take (nat datalen) data)]"
    "g_ld_datanum s2 = short_of (g_ld_datanum s)"
    using yz(1) by (auto simp: ld_setnext_def)
  with run e1 num entries(1) show ?thesis by (intro exI [of _ ?s1] exI [of _ s2]) auto
qed

text \<open>Three sockets with left-over bytes, built by the operations themselves.\<close>

definition demo_kbuffer :: kbuffer where
  "demo_kbuffer = (case bind_res (kBufferSet 9 True True 3 4 [1, 2, 3, 4] (kbuffer_boot False)) (\<lambda>(_, s).
     bind_res (kBufferSet 9 True True 5 5 [5, 6, 7, 8, 9] s) (\<lambda>(_, s).
     kBufferSet 9 True True 7 4 [10, 11, 12, 13] s)) of Inr (_, s) \<Rightarrow> s | Inl _ \<Rightarrow> kbuffer_boot False)"

lemma demo_kbuffer_inv:
  "kbuffer_inv 9 demo_kbuffer"
  "left_entries demo_kbuffer = [(3, [1, 2, 3, 4]), (5, [5, 6, 7, 8, 9]), (7, [10, 11, 12, 13])]"
  "g_ld_datanum demo_kbuffer = 3"
proof -
  have b: "kbuffer_inv 9 (kbuffer_boot False)" "g_ld_datanum (kbuffer_boot False) = 0"
    by (simp add: kbuffer_inv_boot, simp add: kbuffer_boot_def)
  obtain s1 where s1: "kBufferSet 9 True True 3 4 [1, 2, 3, 4] (kbuffer_boot False) = Inr (True, s1)"
    "kbuffer_inv 9 s1" "left_entries s1 = [(3, [1, 2, 3, 4])]"
    using kBufferSet_append [OF b(1), of True True 4 "[1, 2, 3, 4]" 3] b(2) by auto
  from kbuffer_inv_num [OF s1(2)] s1(3) have n1: "g_ld_datanum s1 = 1" by simp
  obtain s2 where s2: "kBufferSet 9 True True 5 5 [5, 6, 7, 8, 9] s1 = Inr (True, s2)"
    "kbuffer_inv 9 s2" "left_entries s2 = [(3, [1, 2, 3, 4]), (5, [5, 6, 7, 8, 9])]"
    using kBufferSet_append [OF s1(2), of True True 5 "[5, 6, 7, 8, 9]" 5] s1(3) n1 by auto
  from kbuffer_inv_num [OF s2(2)] s2(3) have n2: "g_ld_datanum s2 = 2" by simp
  obtain s3 where s3: "kBufferSet 9 True True 7 4 [10, 11, 12, 13] s2 = Inr (True, s3)"
    "kbuffer_inv 9 s3"
    "left_entries s3 = [(3, [1, 2, 3, 4]), (5, [5, 6, 7, 8, 9]), (7, [10, 11, 12, 13])]"
    using kBufferSet_append [OF s2(2), of True True 4 "[10, 11, 12, 13]" 7] s2(3) n2 by auto
  have "demo_kbuffer = s3" by (simp add: demo_kbuffer_def s1 s2 s3)
  with s3 kbuffer_inv_num [OF s3(2)] show "kbuffer_inv 9 demo_kbuffer"
    "left_entries demo_kbuffer = [(3, [1, 2, 3, 4]), (5, [5, 6, 7, 8, 9]), (7, [10, 11, 12, 13])]"
    "g_ld_datanum demo_kbuffer = 3" by simp_all
qed

theorem kBuffer_middle_lost_witness:
  "\<exists>s1 s2. kBufferGet 5 True (Some (replicate 8 0)) demo_kbuffer =
       Inr (True, Some 5, Some [5, 6, 7, 8, 9, 0, 0, 0], s1) \<and>
     kBufferSet 9 True True 8 4 [0, 0, 0, 1] s1 = Inr (True, s2) \<and>
     left_entries s2 = [(3, [1, 2, 3, 4]), (8, [0, 0, 0, 1])] \<and> g_ld_datanum s2 = 3"
proof -
  have "left_entries demo_kbuffer = [(3, [1, 2, 3, 4])] @ (5, [5, 6, 7, 8, 9]) # [(7, [10, 11, 12, 13])]"
    by (simp add: demo_kbuffer_inv)
  from kBuffer_middle_lost [OF demo_kbuffer_inv(1) this, of "replicate 8 0" True True 4 "[0, 0, 0, 1]" 8]
  show ?thesis by (simp add: eval_nat_numeral) blast
qed

text \<open>
  \<open>kBufferSet\<close> in full: a full table, a socket that already has left-over bytes, a negative
  length and a failed \<open>malloc\<close> are refused without a change; a leftover of fewer than four bytes
  writes past its buffer; every other leftover is appended, and the table stays in order.
\<close>

theorem kBufferSet_spec:
  assumes inv: "kbuffer_inv sockid s" and len: "datalen \<le> int (length data)"
  shows "if g_ld_datanum s = sockid \<or> socketid \<in> fst ` set (left_entries s) \<or> \<not> m1 \<or> \<not> m2 \<or> datalen < 0
     then kBufferSet sockid m1 m2 socketid datalen data s = Inr (False, s)
     else if datalen < 4 then kBufferSet sockid m1 m2 socketid datalen data s = Inl BufferOverflow
     else \<exists>s'. kBufferSet sockid m1 m2 socketid datalen data s = Inr (True, s') \<and>
       kbuffer_inv sockid s' \<and>
       left_entries s' = left_entries s @ [(socketid, take (nat datalen) data)]"
  using kBufferSet_refused [OF inv] kBufferSet_overflow [OF inv] kBufferSet_append [OF inv _ _ _ len]
  by auto

theorem kBufferSet_spec_witness:
  "(\<exists>s'. kBufferSet 9 True True 8 4 [0, 0, 0, 1] demo_kbuffer = Inr (True, s') \<and> kbuffer_inv 9 s') \<and>
   kBufferSet 9 True True 5 4 [0, 0, 0, 1] demo_kbuffer = Inr (False, demo_kbuffer) \<and>
   kBufferSet 9 True True 8 3 [0, 0, 0, 1] demo_kbuffer = Inl BufferOverflow"
  using kBufferSet_spec [OF demo_kbuffer_inv(1), of 4 "[0, 0, 0, 1]" 8 True True]
    kBufferSet_spec [OF demo_kbuffer_inv(1), of 4 "[0, 0, 0, 1]" 5 True True]
    kBufferSet_spec [OF demo_kbuffer_inv(1), of 3 "[0, 0, 0, 1]" 8 True True]
  by (auto simp: demo_kbuffer_inv)

text \<open>
  C24: What \<open>kBufferSet\<close> stored for a socket, \<open>kBufferGet\<close> hands out at the front of the caller's
  buffer with its length, and then the table holds for every socket what it held before.
\<close>

theorem kBuffer_roundtrip:
  assumes inv: "kbuffer_inv sockid s" and set: "kBufferSet sockid m1 m2 i datalen data s = Inr (True, s1)"
    and len: "datalen \<le> int (length data)" and dst: "nat datalen \<le> length dst"
  shows "\<exists>s2. kBufferGet i True (Some dst) s1 =
       Inr (True, Some datalen, Some (take (nat datalen) data @ drop (nat datalen) dst), s2) \<and>
     left_entries s2 = left_entries s \<and> kbuffer_inv sockid s2"
proof -
  have new: "i \<notin> fst ` set (left_entries s)" and d: "4 \<le> datalen"
    and s1: "kbuffer_inv sockid s1" "left_entries s1 = left_entries s @ [(i, take (nat datalen) data)]"
    using kBufferSet_spec [OF inv len, of i m1 m2] set by (auto split: if_splits)
  have l: "length (take (nat datalen) data) = nat datalen" using len by simp
  have "filter (\<lambda>e. fst e \<noteq> i) (left_entries s) = left_entries s"
    using new by (auto simp: filter_id_conv)
  with kBufferGet_found [OF s1(1), of i "take (nat datalen) data" dst] s1(2) l dst d
  show ?thesis by auto
qed

theorem kBuffer_roundtrip_witness:
  "\<exists>s1 s2. kBufferSet 9 True True 8 4 [0, 0, 0, 1] demo_kbuffer = Inr (True, s1) \<and>
     kBufferGet 8 True (Some [7, 7, 7, 7, 7, 7]) s1 = Inr (True, Some 4, Some [0, 0, 0, 1, 7, 7], s2) \<and>
     left_entries s2 = left_entries demo_kbuffer"
proof -
  obtain s1 where s1: "kBufferSet 9 True True 8 4 [0, 0, 0, 1] demo_kbuffer = Inr (True, s1)"
    using kBufferSet_append [OF demo_kbuffer_inv(1), of True True 4 "[0, 0, 0, 1]" 8]
    by (auto simp: demo_kbuffer_inv)
  from kBuffer_roundtrip [OF demo_kbuffer_inv(1) s1, of "[7, 7, 7, 7, 7, 7]"] s1 show ?thesis
    by (simp add: eval_nat_numeral) blast
qed

end
