(* ===== verification/KCloseTimer.thy ===== *)
theory KCloseTimer
  imports KSocket
begin

text \<open>
  \<open>lib/kSocketCloseTimer\<close>: up to 16 sockets that are to be closed at a given time. The main loop
  calls \<open>kCloseTimerProc\<close> after every \<open>select\<close>.
\<close>

section \<open>State and operations\<close>

definition T_SCT_MAXNUM :: nat where "T_SCT_MAXNUM = 16"
definition T_SCT_INIT :: int where "T_SCT_INIT = -1"

record sct_entry =
  sct_socketid :: int
  sct_expire :: timeval

record close_timer =
  sct_table :: "sct_entry list"
  sct_num :: int

definition tv_zero :: timeval where
  "tv_zero = \<lparr>tv_sec = 0, tv_usec = 0\<rparr>"

definition close_timer_boot :: close_timer where
  "close_timer_boot = \<lparr>sct_table = replicate T_SCT_MAXNUM \<lparr>sct_socketid = 0, sct_expire = tv_zero\<rparr>,
     sct_num = 0\<rparr>"

definition kCloseTimerInit :: "close_timer \<Rightarrow> int \<times> close_timer" where
  "kCloseTimerInit ct = (RETURN_OK,
     \<lparr>sct_table = replicate T_SCT_MAXNUM \<lparr>sct_socketid = T_SCT_INIT, sct_expire = tv_zero\<rparr>, sct_num = 0\<rparr>)"

text \<open>
  The loop over the table: \<open>None\<close> when the socket is already there, otherwise the first vacant
  position, or -1.
\<close>

fun vacant_scan :: "int \<Rightarrow> int \<Rightarrow> int \<Rightarrow> sct_entry list \<Rightarrow> int option" where
  "vacant_scan socketid loop vacant [] = Some vacant"
| "vacant_scan socketid loop vacant (e # es) =
     (if sct_socketid e = socketid then None
      else vacant_scan socketid (loop + 1)
        (if vacant < 0 \<and> sct_socketid e = T_SCT_INIT then loop else vacant) es)"

definition kCloseTimerSet :: "timeval \<Rightarrow> int \<Rightarrow> int \<Rightarrow> close_timer \<Rightarrow> int \<times> close_timer" where
  "kCloseTimerSet now socketid sec ct =
     (if socketid < 0 then (RETURN_NG, ct)
      else if sct_num ct = int T_SCT_MAXNUM then (RETURN_NG, ct)
      else case vacant_scan socketid 0 (-1) (sct_table ct) of
        None \<Rightarrow> (RETURN_NG, ct)
      | Some vacant \<Rightarrow>
          if vacant = -1 then (RETURN_NG, ct)
          else (RETURN_OK, \<lparr>sct_table = (sct_table ct)[nat vacant := \<lparr>sct_socketid = socketid,
                   sct_expire = now\<lparr>tv_sec := long_of (tv_sec now + sec)\<rparr>\<rparr>],
                 sct_num = long_of (sct_num ct + 1)\<rparr>))"

definition kCloseTimerRemove :: "int \<Rightarrow> close_timer \<Rightarrow> int \<times> close_timer" where
  "kCloseTimerRemove socketid ct =
     (if socketid < 0 then (RETURN_NG, ct)
      else if sct_num ct = 0 then (RETURN_NG, ct)
      else case first_index (\<lambda>e. sct_socketid e = socketid) (sct_table ct) of
        None \<Rightarrow> (RETURN_NG, ct)
      | Some i \<Rightarrow> (RETURN_OK, \<lparr>sct_table = (sct_table ct)[i := (sct_table ct ! i)\<lparr>sct_socketid := T_SCT_INIT\<rparr>],
                 sct_num = long_of (sct_num ct - 1)\<rparr>))"

text \<open>
  \<open>cl i j\<close> is the outcome of the \<open>close()\<close> of round \<open>j\<close> inside the \<open>kSocketClose\<close> that slot
  \<open>i\<close> triggers; \<open>locals\<close> are that function's local variables.
\<close>

fun close_proc_loop :: "(nat \<Rightarrow> nat \<Rightarrow> bool) \<Rightarrow> si_bufs \<Rightarrow> timeval \<Rightarrow> nat list \<Rightarrow> close_timer \<Rightarrow> ksocket \<Rightarrow>
    (close_timer \<times> ksocket) res" where
  "close_proc_loop cl locals now [] ct sks = Inr (ct, sks)"
| "close_proc_loop cl locals now (i # is) ct sks =
     (let socketid = sct_socketid (sct_table ct ! i) in
      if socketid = T_SCT_INIT then close_proc_loop cl locals now is ct sks
      else if tv_pending (sct_expire (sct_table ct ! i)) now then close_proc_loop cl locals now is ct sks
      else bind_res (kSocketClose (cl i) locals socketid sks) (\<lambda>(ret, sks).
        close_proc_loop cl locals now is (snd (kCloseTimerRemove socketid ct)) sks))"

definition kCloseTimerProc :: "(nat \<Rightarrow> nat \<Rightarrow> bool) \<Rightarrow> si_bufs \<Rightarrow> timeval \<Rightarrow> close_timer \<Rightarrow> ksocket \<Rightarrow>
    (int \<times> close_timer \<times> ksocket) res" where
  "kCloseTimerProc cl locals now ct sks =
     bind_res (close_proc_loop cl locals now [0..<T_SCT_MAXNUM] ct sks) (\<lambda>(ct, sks).
       Inr (RETURN_OK, ct, sks))"

lemmas close_timer_defs [koi_simps] = T_SCT_MAXNUM_def T_SCT_INIT_def tv_zero_def close_timer_boot_def
  kCloseTimerInit_def kCloseTimerSet_def kCloseTimerRemove_def kCloseTimerProc_def

section \<open>Invariant and abstraction\<close>

definition ct_ids :: "sct_entry list \<Rightarrow> int list" where
  "ct_ids es = filter (\<lambda>i. i \<noteq> T_SCT_INIT) (map sct_socketid es)"

definition ct_inv :: "close_timer \<Rightarrow> bool" where
  "ct_inv ct \<longleftrightarrow> length (sct_table ct) = T_SCT_MAXNUM \<and> distinct (ct_ids (sct_table ct)) \<and>
     (\<forall>i \<in> set (ct_ids (sct_table ct)). 0 \<le> i) \<and> sct_num ct = int (length (ct_ids (sct_table ct)))"

text \<open>The promise of the component: a map from sockets to deadlines, with room for 16.\<close>

definition deadline :: "close_timer \<Rightarrow> int \<Rightarrow> timeval option" where
  "deadline ct i = (if i = T_SCT_INIT then None
     else map_option sct_expire (List.find (\<lambda>e. sct_socketid e = i) (sct_table ct)))"

lemma ct_ids_simps [simp]:
  "ct_ids [] = []" "ct_ids (es @ fs) = ct_ids es @ ct_ids fs"
  "ct_ids (e # es) = (if sct_socketid e = T_SCT_INIT then ct_ids es else sct_socketid e # ct_ids es)"
  by (simp_all add: ct_ids_def)

lemma set_ct_ids: "set (ct_ids es) = sct_socketid ` set es - {T_SCT_INIT}"
  by (auto simp: ct_ids_def)

lemma ct_ids_length: "length (ct_ids es) \<le> length es"
  by (induction es) auto

lemma ct_ids_full: "length (ct_ids es) = length es \<longleftrightarrow> (\<forall>e \<in> set es. sct_socketid e \<noteq> T_SCT_INIT)"
proof (induction es)
  case (Cons e es)
  then show ?case using ct_ids_length [of es] by auto
qed simp

lemma ct_inv_num: "ct_inv ct \<Longrightarrow> 0 \<le> sct_num ct \<and> sct_num ct \<le> 16"
  using ct_ids_length [of "sct_table ct"] by (simp add: ct_inv_def T_SCT_MAXNUM_def)

lemma ct_inv_init: "ct_inv (snd (kCloseTimerInit ct))"
  by (simp add: ct_inv_def kCloseTimerInit_def ct_ids_def)

lemma deadline_None: "i \<noteq> T_SCT_INIT \<Longrightarrow> deadline ct i = None \<longleftrightarrow> i \<notin> sct_socketid ` set (sct_table ct)"
  by (auto simp: deadline_def find_None_iff)

lemma vacant_scan_None: "vacant_scan i l v es = None \<longleftrightarrow> i \<in> sct_socketid ` set es"
  by (induction es arbitrary: l v) auto

lemma vacant_scan_kept: "0 \<le> v \<Longrightarrow> vacant_scan i l v es = Some r \<Longrightarrow> r = v"
  by (induction es arbitrary: l) (auto split: if_splits)

lemma vacant_scan_Some:
  assumes "vacant_scan i l (-1) es = Some r" "0 \<le> l" "\<exists>e \<in> set es. sct_socketid e = T_SCT_INIT"
  shows "\<exists>us e vs. es = us @ e # vs \<and> sct_socketid e = T_SCT_INIT \<and> r = l + int (length us)"
  using assms
proof (induction es arbitrary: l)
  case (Cons e es)
  show ?case
  proof (cases "sct_socketid e = T_SCT_INIT")
    case True
    with Cons.prems have "r = l"
      using vacant_scan_kept [of l i "l + 1" es r] by (auto split: if_splits)
    with True show ?thesis by (intro exI [of _ "[]"]) auto
  next
    case False
    with Cons.prems Cons.IH [of "l + 1"] obtain us f vs where
      "es = us @ f # vs" "sct_socketid f = T_SCT_INIT" "r = l + 1 + int (length us)"
      by (auto split: if_splits)
    then show ?thesis by (intro exI [of _ "e # us"]) auto
  qed
qed simp

lemma deadline_slot:
  assumes "T_SCT_INIT \<noteq> k" "sct_socketid e = T_SCT_INIT \<or> sct_socketid e \<notin> sct_socketid ` set (us @ vs)"
  shows "deadline \<lparr>sct_table = us @ f # vs, sct_num = n\<rparr> k =
     (if k = sct_socketid f \<and> k \<notin> sct_socketid ` set us then Some (sct_expire f)
      else if k = sct_socketid e then None
      else deadline \<lparr>sct_table = us @ e # vs, sct_num = m\<rparr> k)"
proof (cases "List.find (\<lambda>e. sct_socketid e = k) us")
  case None
  then have "k \<notin> sct_socketid ` set us" unfolding find_None by blast
  moreover have "List.find (\<lambda>e. sct_socketid e = k) vs = None" if "k = sct_socketid e"
  proof -
    have "k \<notin> sct_socketid ` set vs" using assms that by auto
    then show ?thesis unfolding find_None by blast
  qed
  ultimately show ?thesis using assms(1) None by (auto simp: deadline_def find_append)
next
  case (Some x)
  then have k: "k \<in> sct_socketid ` set us" by (auto simp: find_Some_iff)
  then have "k \<noteq> sct_socketid e" using assms unfolding set_append image_Un by (metis UnCI)
  with k Some assms(1) show ?thesis by (simp add: deadline_def find_append)
qed

section \<open>What a run of the timer does\<close>

definition expired :: "timeval \<Rightarrow> sct_entry \<Rightarrow> bool" where
  "expired now e \<longleftrightarrow> sct_socketid e \<noteq> T_SCT_INIT \<and> \<not> tv_pending (sct_expire e) now"

text \<open>The calls of \<open>kSocketClose\<close>, for the expired slots in order.\<close>

fun close_seq :: "(nat \<Rightarrow> nat \<Rightarrow> bool) \<Rightarrow> si_bufs \<Rightarrow> timeval \<Rightarrow> nat \<Rightarrow> sct_entry list \<Rightarrow> ksocket \<Rightarrow>
    ksocket res" where
  "close_seq cl locals now i [] sks = Inr sks"
| "close_seq cl locals now i (e # es) sks =
     (if expired now e
      then bind_res (kSocketClose (cl i) locals (sct_socketid e) sks) (\<lambda>(ret, sks).
             close_seq cl locals now (Suc i) es sks)
      else close_seq cl locals now (Suc i) es sks)"

definition cleared :: "timeval \<Rightarrow> sct_entry \<Rightarrow> sct_entry" where
  "cleared now e = (if expired now e then e\<lparr>sct_socketid := T_SCT_INIT\<rparr> else e)"

definition after_proc :: "timeval \<Rightarrow> close_timer \<Rightarrow> close_timer" where
  "after_proc now ct = \<lparr>sct_table = map (cleared now) (sct_table ct),
     sct_num = sct_num ct - int (length (filter (expired now) (sct_table ct)))\<rparr>"

lemma first_index_at: "\<not> P x \<or> (\<forall>y \<in> set us. \<not> P y) \<Longrightarrow> P x \<Longrightarrow> first_index P (us @ x # vs) = Some (length us)"
  by (induction us) auto

lemma remove_at:
  assumes "ct_inv \<lparr>sct_table = us @ e # rest, sct_num = n\<rparr>" "sct_socketid e \<noteq> T_SCT_INIT"
  shows "kCloseTimerRemove (sct_socketid e) \<lparr>sct_table = us @ e # rest, sct_num = n\<rparr> =
       (RETURN_OK, \<lparr>sct_table = us @ e\<lparr>sct_socketid := T_SCT_INIT\<rparr> # rest, sct_num = n - 1\<rparr>)"
    "ct_inv \<lparr>sct_table = us @ e\<lparr>sct_socketid := T_SCT_INIT\<rparr> # rest, sct_num = n - 1\<rparr>"
proof -
  have ids: "\<forall>y \<in> set us. sct_socketid y \<noteq> sct_socketid e"
  proof
    fix y assume "y \<in> set us"
    then have "sct_socketid y \<noteq> T_SCT_INIT \<longrightarrow> sct_socketid y \<in> set (ct_ids us)"
      by (auto simp: set_ct_ids)
    with assms show "sct_socketid y \<noteq> sct_socketid e" by (auto simp: ct_inv_def)
  qed
  have "0 \<le> sct_socketid e" "0 < n" "n \<le> 16"
    using assms ct_inv_num [OF assms(1)] by (auto simp: ct_inv_def)
  with ids assms(2) show "kCloseTimerRemove (sct_socketid e) \<lparr>sct_table = us @ e # rest, sct_num = n\<rparr> =
       (RETURN_OK, \<lparr>sct_table = us @ e\<lparr>sct_socketid := T_SCT_INIT\<rparr> # rest, sct_num = n - 1\<rparr>)"
    by (simp add: kCloseTimerRemove_def first_index_at)
  show "ct_inv \<lparr>sct_table = us @ e\<lparr>sct_socketid := T_SCT_INIT\<rparr> # rest, sct_num = n - 1\<rparr>"
    using assms by (auto simp: ct_inv_def)
qed

lemma close_proc_step_kept:
  "\<not> expired now (sct_table ct ! i) \<Longrightarrow>
   close_proc_loop cl locals now (i # js) ct sks = close_proc_loop cl locals now js ct sks"
  by (auto simp: expired_def Let_def)

lemma close_proc_step_expired:
  "expired now (sct_table ct ! i) \<Longrightarrow>
   close_proc_loop cl locals now (i # js) ct sks =
     bind_res (kSocketClose (cl i) locals (sct_socketid (sct_table ct ! i)) sks) (\<lambda>(ret, sks).
       close_proc_loop cl locals now js (snd (kCloseTimerRemove (sct_socketid (sct_table ct ! i)) ct)) sks)"
  by (auto simp: expired_def Let_def)

lemma close_proc_loop_seq:
  assumes "ct_inv \<lparr>sct_table = us @ rest, sct_num = n\<rparr>"
  shows "close_proc_loop cl locals now [length us..<length us + length rest]
       \<lparr>sct_table = us @ rest, sct_num = n\<rparr> sks =
     bind_res (close_seq cl locals now (length us) rest sks) (\<lambda>sks.
       Inr (\<lparr>sct_table = us @ map (cleared now) rest,
             sct_num = n - int (length (filter (expired now) rest))\<rparr>, sks)) \<and>
     ct_inv \<lparr>sct_table = us @ map (cleared now) rest,
             sct_num = n - int (length (filter (expired now) rest))\<rparr>"
  using assms
proof (induction rest arbitrary: us n sks)
  case Nil
  then show ?case by simp
next
  case (Cons e rest)
  define js where "js = [length (us @ [e])..<length (us @ [e]) + length rest]"
  have upt: "[length us..<length us + length (e # rest)] = length us # js"
    unfolding js_def using upt_conv_Cons [of "length us" "length us + length (e # rest)"] by simp
  show ?case
  proof (cases "expired now e")
    case False
    then have "cleared now e = e" by (simp add: cleared_def)
    with False Cons.IH [of "us @ [e]" n sks, folded js_def] Cons.prems show ?thesis
      unfolding upt by (simp del: close_proc_loop.simps add: close_proc_step_kept)
  next
    case True
    let ?e = "e\<lparr>sct_socketid := T_SCT_INIT\<rparr>"
    have nz: "sct_socketid e \<noteq> T_SCT_INIT" using True by (simp add: expired_def)
    note rm = remove_at [OF Cons.prems nz]
    have IH: "close_proc_loop cl locals now js \<lparr>sct_table = us @ ?e # rest, sct_num = n - 1\<rparr> sks1 =
       bind_res (close_seq cl locals now (Suc (length us)) rest sks1) (\<lambda>sks.
         Inr (\<lparr>sct_table = us @ ?e # map (cleared now) rest,
               sct_num = n - 1 - int (length (filter (expired now) rest))\<rparr>, sks)) \<and>
       ct_inv \<lparr>sct_table = us @ ?e # map (cleared now) rest,
               sct_num = n - 1 - int (length (filter (expired now) rest))\<rparr>" for sks1
      using Cons.IH [of "us @ [?e]" "n - 1" sks1] rm(2) by (simp add: js_def)
    have num: "n - int (length (filter (expired now) (e # rest))) =
        n - 1 - int (length (filter (expired now) rest))" using True by simp
    have clr: "map (cleared now) (e # rest) = ?e # map (cleared now) rest"
      using True by (simp add: cleared_def)
    have "close_proc_loop cl locals now (length us # js) \<lparr>sct_table = us @ e # rest, sct_num = n\<rparr> sks =
        bind_res (kSocketClose (cl (length us)) locals (sct_socketid e) sks) (\<lambda>(ret, sks).
          close_proc_loop cl locals now js \<lparr>sct_table = us @ ?e # rest, sct_num = n - 1\<rparr> sks)"
      using True rm(1) by (simp del: close_proc_loop.simps add: close_proc_step_expired)
    with IH True show ?thesis
      unfolding upt num clr by (simp del: close_proc_loop.simps add: bind_res_assoc split_def)
  qed
qed

lemma find_cleared:
  assumes "distinct (ct_ids es)" "k \<noteq> T_SCT_INIT"
  shows "map_option sct_expire (List.find (\<lambda>e. sct_socketid e = k) (map (cleared now) es)) =
     (case map_option sct_expire (List.find (\<lambda>e. sct_socketid e = k) es) of None \<Rightarrow> None
      | Some t \<Rightarrow> if tv_pending t now then Some t else None)"
  using assms
proof (induction es)
  case (Cons e es)
  show ?case
  proof (cases "sct_socketid e = k")
    case True
    then have "k \<notin> set (ct_ids es)" using Cons.prems by auto
    then have "List.find (\<lambda>e. sct_socketid e = k) es = None"
      using Cons.prems(2) by (auto simp: find_None_iff set_ct_ids)
    with True Cons show ?thesis
      by (auto simp: cleared_def expired_def)
  next
    case False
    with Cons show ?thesis by (auto simp: cleared_def split: if_splits)
  qed
qed simp

section \<open>Setting and expiry\<close>

lemma close_timer_set:
  assumes inv: "ct_inv ct" and i: "0 \<le> i"
  shows "let (ret, ct') = kCloseTimerSet now i sec ct;
             ok = (deadline ct i = None \<and> sct_num ct < 16) in
     ret = (if ok then RETURN_OK else RETURN_NG) \<and> ct_inv ct' \<and>
     (if ok then deadline ct' = (deadline ct)(i \<mapsto> now\<lparr>tv_sec := long_of (tv_sec now + sec)\<rparr>) \<and>
          sct_num ct' = sct_num ct + 1
      else ct' = ct)"
proof (cases "deadline ct i = None \<and> sct_num ct < 16")
  case False
  then have "kCloseTimerSet now i sec ct = (RETURN_NG, ct)"
    using i ct_inv_num [OF inv] vacant_scan_None [of i 0 "-1" "sct_table ct"] deadline_None [of i ct]
    by (auto simp: kCloseTimerSet_def T_SCT_MAXNUM_def T_SCT_INIT_def split: option.split)
  with False inv show ?thesis by auto
next
  case True
  let ?f = "\<lparr>sct_socketid = i, sct_expire = now\<lparr>tv_sec := long_of (tv_sec now + sec)\<rparr>\<rparr>"
  have i': "i \<noteq> T_SCT_INIT" using i by (simp add: T_SCT_INIT_def)
  have new: "i \<notin> sct_socketid ` set (sct_table ct)" using True deadline_None [OF i'] by simp
  then obtain r where r: "vacant_scan i 0 (-1) (sct_table ct) = Some r"
    using vacant_scan_None [of i 0 "-1" "sct_table ct"] by auto
  have "length (ct_ids (sct_table ct)) \<noteq> length (sct_table ct)"
    using True inv by (simp add: ct_inv_def T_SCT_MAXNUM_def)
  then have "\<exists>e \<in> set (sct_table ct). sct_socketid e = T_SCT_INIT" using ct_ids_full by blast
  from vacant_scan_Some [OF r _ this] obtain us e vs where
    sp: "sct_table ct = us @ e # vs" "sct_socketid e = T_SCT_INIT" "r = int (length us)" by auto
  let ?ct' = "\<lparr>sct_table = us @ ?f # vs, sct_num = sct_num ct + 1\<rparr>"
  have run: "kCloseTimerSet now i sec ct = (RETURN_OK, ?ct')"
    using r sp i True ct_inv_num [OF inv] by (simp add: kCloseTimerSet_def T_SCT_MAXNUM_def)
  have "ct_inv ?ct'"
    using inv sp new i i' by (auto simp: ct_inv_def set_ct_ids)
  moreover have "deadline ?ct' k = ((deadline ct)(i \<mapsto> sct_expire ?f)) k" for k
    using deadline_slot [of k e us vs ?f "sct_num ct + 1" "sct_num ct"] sp new
    by (cases ct; cases "k = T_SCT_INIT") (auto simp: deadline_def [of _ T_SCT_INIT] i' [symmetric])
  ultimately show ?thesis using run True by auto
qed

lemma close_timer_proc:
  assumes inv: "ct_inv ct"
  shows "kCloseTimerProc cl locals now ct sks =
       bind_res (close_seq cl locals now 0 (sct_table ct) sks) (\<lambda>sks.
         Inr (RETURN_OK, after_proc now ct, sks)) \<and>
     ct_inv (after_proc now ct) \<and>
     deadline (after_proc now ct) = (\<lambda>k. case deadline ct k of None \<Rightarrow> None
       | Some t \<Rightarrow> if tv_pending t now then Some t else None)"
proof (intro conjI ext)
  have ct: "\<lparr>sct_table = sct_table ct, sct_num = sct_num ct\<rparr> = ct" by simp
  have len: "length (sct_table ct) = T_SCT_MAXNUM" using inv by (simp add: ct_inv_def)
  from close_proc_loop_seq [of "[]" "sct_table ct" "sct_num ct", unfolded append_Nil ct] inv len
  have seq: "close_proc_loop cl locals now [0..<T_SCT_MAXNUM] ct sks =
      bind_res (close_seq cl locals now 0 (sct_table ct) sks) (\<lambda>sks. Inr (after_proc now ct, sks))"
    and inv': "ct_inv (after_proc now ct)"
    by (simp_all add: after_proc_def)
  show "ct_inv (after_proc now ct)" by (rule inv')
  show "kCloseTimerProc cl locals now ct sks =
       bind_res (close_seq cl locals now 0 (sct_table ct) sks) (\<lambda>sks.
         Inr (RETURN_OK, after_proc now ct, sks))"
    by (simp add: kCloseTimerProc_def seq bind_res_assoc)
next
  fix k
  show "deadline (after_proc now ct) k = (case deadline ct k of None \<Rightarrow> None
       | Some t \<Rightarrow> if tv_pending t now then Some t else None)"
    using find_cleared [of "sct_table ct" k now] inv
    by (simp add: deadline_def after_proc_def ct_inv_def)
qed

lemma kCloseTimerSet_inv:
  assumes "ct_inv ct"
  shows "ct_inv (snd (kCloseTimerSet now i sec ct))"
proof (cases "i < 0")
  case True
  with assms show ?thesis by (simp add: kCloseTimerSet_def)
next
  case False
  with close_timer_set [OF assms, of i now sec] show ?thesis by (simp add: split_beta Let_def)
qed

lemma kCloseTimerProc_inv: "ct_inv ct \<Longrightarrow> kCloseTimerProc cl locals now ct sks = Inr (r, ct', sks') \<Longrightarrow> ct_inv ct'"
  using close_timer_proc [of ct cl locals now sks] by (auto simp: bind_res_eq_Inr)

section \<open>Properties\<close>

text \<open>
  Setting a close timer adds the deadline \<open>now + sec\<close> for the socket when it has none and
  fewer than 16 are set, and is refused without a change otherwise; slots stay free of
  duplicates and counted.
\<close>

theorem kCloseTimerSet_refines:
  assumes inv: "ct_inv ct" and i: "0 \<le> i"
  shows "let (ret, ct') = kCloseTimerSet now i sec ct;
             ok = (deadline ct i = None \<and> sct_num ct < 16) in
     ret = (if ok then RETURN_OK else RETURN_NG) \<and> ct_inv ct' \<and>
     (if ok then deadline ct' = (deadline ct)(i \<mapsto> now\<lparr>tv_sec := long_of (tv_sec now + sec)\<rparr>) \<and>
          sct_num ct' = sct_num ct + 1
      else ct' = ct)"
  by (rule close_timer_set [OF assms])

theorem kCloseTimerSet_refines_witness:
  "fst (kCloseTimerSet \<lparr>tv_sec = 10, tv_usec = 5\<rparr> 4 3 (snd (kCloseTimerInit close_timer_boot))) = RETURN_OK"
  using kCloseTimerSet_refines [OF ct_inv_init, of 4 "\<lparr>tv_sec = 10, tv_usec = 5\<rparr>" 3 close_timer_boot]
  by (simp add: koi_simps deadline_def find_None split_beta)

text \<open>
  C29: A run of the close timer closes exactly the sockets whose deadline has passed, one call of
  \<open>kSocketClose\<close> each in slot order, and forgets exactly their deadlines; it goes wrong only
  where one of these calls does.
\<close>

theorem kCloseTimerProc_expires:
  assumes inv: "ct_inv ct"
  shows "kCloseTimerProc cl locals now ct sks =
       bind_res (close_seq cl locals now 0 (sct_table ct) sks) (\<lambda>sks.
         Inr (RETURN_OK, after_proc now ct, sks)) \<and>
     ct_inv (after_proc now ct) \<and>
     deadline (after_proc now ct) = (\<lambda>k. case deadline ct k of None \<Rightarrow> None
       | Some t \<Rightarrow> if tv_pending t now then Some t else None)"
  by (rule close_timer_proc [OF assms])

theorem kCloseTimerProc_expires_witness:
  "\<exists>ct sks. kCloseTimerProc (\<lambda>_ _. True) demo_bufs \<lparr>tv_sec = 13, tv_usec = 5\<rparr>
       (snd (kCloseTimerSet \<lparr>tv_sec = 10, tv_usec = 5\<rparr> 6 3 (snd (kCloseTimerInit close_timer_boot)))) demo =
     Inr (RETURN_OK, ct, sks) \<and> closed_fds sks = [8] \<and> deadline ct 6 = None"
proof -
  let ?e = "\<lparr>sct_socketid = T_SCT_INIT, sct_expire = tv_zero\<rparr>"
  let ?f = "\<lparr>sct_socketid = 6, sct_expire = \<lparr>tv_sec = 13, tv_usec = 5\<rparr>\<rparr>"
  let ?ct = "\<lparr>sct_table = ?f # replicate 15 ?e, sct_num = 1\<rparr>" and ?now = "\<lparr>tv_sec = 13, tv_usec = 5\<rparr>"
  have ct: "snd (kCloseTimerSet \<lparr>tv_sec = 10, tv_usec = 5\<rparr> 6 3 (snd (kCloseTimerInit close_timer_boot))) = ?ct"
    by code_simp
  have inv: "ct_inv ?ct" by (simp add: ct_inv_def ct_ids_def T_SCT_MAXNUM_def T_SCT_INIT_def)
  let ?si = "demo_si SI_TYPE_UDP 6 8 (DataI (demo_data 0))"
  have none: "close_seq (\<lambda>_ _. True) demo_bufs ?now i (replicate n ?e) sks = Inr sks" for n i sks
    by (induction n arbitrary: i) (auto simp: expired_def)
  have t5: "sk_table demo ! 5 = ?si" "sk_table demo = take 5 (sk_table demo) @ ?si # []"
      "length (take 5 (sk_table demo)) = 5" "closed_fds demo = []"
    by (simp_all add: demo_def)
  have "si_loop 0 (\<lambda>si. si_socketid si = 6) (sk_table demo) = Some 5" "sock demo 6 = Some ?si"
    by (simp_all add: demo_def sock_def demo_si_def SOCKET_MAXNUM_def)
  moreover obtain s' where "close_entry 5 demo = Inr s'" "closed_fds s' = [8]"
    using close_entry_at [OF t5(2)] t5(3,4) by (simp add: FD_SETSIZE_def demo_si_def)
  ultimately have "kSocketClose (\<lambda>_. True) demo_bufs 6 demo = Inr (RETURN_OK, s')"
    using sk.get_some [OF demo_inv(1), of 6 ?si demo_bufs] demo_inv(2) t5
    by (auto simp: kSocketClose_def close_pattern3_def)
      (simp_all add: demo_si_def socket_consts)
  then have "close_seq (\<lambda>_ _. True) demo_bufs ?now 0 (sct_table ?ct) demo = Inr s'"
    using none by (simp add: expired_def T_SCT_INIT_def tv_pending_def)
  moreover have "deadline (after_proc ?now ?ct) 6 = None"
    by (simp add: deadline_def after_proc_def cleared_def expired_def T_SCT_INIT_def tv_pending_def
        find_None)
  ultimately show ?thesis
    using kCloseTimerProc_expires [OF inv, of "\<lambda>_ _. True" demo_bufs ?now demo] ct \<open>closed_fds s' = [8]\<close>
    by auto
qed

end
