(* ===== verification/KTls.thy ===== *)
theory KTls
  imports KSocket
begin

text \<open>
  \<open>lib/kSocket/kTls.c\<close>: the daemon's own state around OpenSSL. An \<open>SSL\<close> object is a number; what
  the library answers is a parameter.
\<close>

section \<open>State and library\<close>

record ktls =
  TLSctx :: bool
  TLSSessionMode :: int
  TLSPasswd :: string
  NagleFlag :: int

definition ktls_boot :: ktls where
  "ktls_boot = \<lparr>TLSctx = False, TLSSessionMode = 0, TLSPasswd = [], NagleFlag = 1\<rparr>"

text \<open>
  OpenSSL during one event. \<open>l_write\<close>: what \<open>SSL_get_error\<close> says after each \<open>SSL_write\<close> on an
  object; \<open>l_read\<close>: for each \<open>SSL_read\<close> what \<open>SSL_get_error\<close> says, the return value, the bytes
  delivered, and whether \<open>SSL_pending\<close> is nonzero afterwards; \<open>l_new\<close>: the object \<open>SSL_new\<close> returns;
  \<open>l_connect\<close>, \<open>l_accept\<close>, \<open>l_verify\<close>, \<open>l_nonblock\<close>: success of the handshakes (a session may be
  reused), of the certificate check and of \<open>fcntl\<close>; \<open>l_session\<close>: \<open>SSL_get_session\<close>. The others are
  the steps of the initialisation, by file where they read one.
\<close>

record ssl_lib =
  l_write :: "nat \<Rightarrow> int list"
  l_read :: "nat \<Rightarrow> (int \<times> int \<times> byte list \<times> bool) list"
  l_new :: "nat option"
  l_connect :: "nat \<Rightarrow> nat option \<Rightarrow> bool"
  l_accept :: "nat \<Rightarrow> bool"
  l_verify :: "nat \<Rightarrow> bool"
  l_nonblock :: bool
  l_session :: "nat \<Rightarrow> nat option"
  l_lstat :: "string \<Rightarrow> bool"
  l_library :: bool
  l_cert :: "string \<Rightarrow> bool"
  l_key :: "string \<Rightarrow> string \<Rightarrow> bool"
  l_ca :: "string \<Rightarrow> bool"
  l_dhfile :: "string \<Rightarrow> bool"
  l_tmp_dh :: bool
  l_tmp_rsa :: bool

definition SSL_ERROR_NONE :: int where "SSL_ERROR_NONE = 0"
definition SSL_ERROR_WANT_READ :: int where "SSL_ERROR_WANT_READ = 2"
definition SSL_ERROR_WANT_WRITE :: int where "SSL_ERROR_WANT_WRITE = 3"
definition SSL_ERROR_SYSCALL :: int where "SSL_ERROR_SYSCALL = 5"
definition SSL_ERROR_ZERO_RETURN :: int where "SSL_ERROR_ZERO_RETURN = 6"

definition ROOT_PEM :: string where "ROOT_PEM = ''/usr/local/koi/keys/root.pem''"
definition MY_PEM :: string where "MY_PEM = ''/usr/local/koi/keys/tn.pem''"
definition DHFILE1024 :: string where "DHFILE1024 = ''/usr/local/koi/keys/dh1024.pem''"
definition PASSWORD :: string where "PASSWORD = ''nutsip''"

section \<open>Operations\<close>

definition kIsTLSInitialize :: "ktls \<Rightarrow> bool" where
  "kIsTLSInitialize t = TLSctx t"

text \<open>
  \<open>TLSClose(ssl, clr)\<close>: an object is freed, and taken out of the socket table, only without session
  mode or when asked to; without an object all are freed, and the context too unless \<open>clr\<close>.
\<close>

definition TLSClose :: "nat option \<Rightarrow> bool \<Rightarrow> ktls \<Rightarrow> ksocket \<Rightarrow> ktls \<times> ksocket" where
  "TLSClose ssl clr t s = (case ssl of
     Some a \<Rightarrow> (t, if TLSSessionMode t = 0 \<or> clr then kSocketTLSClose (Some a) s else s)
   | None \<Rightarrow> (if clr then t else t\<lparr>TLSctx := False\<rparr>,
              s\<lparr>sk_table := map (\<lambda>si. si\<lparr>si_tls_ssl := None\<rparr>) (sk_table s)\<rparr>))"

text \<open>The loops end with the list of answers: a call that is still being repeated then never returns.\<close>

fun tls_send_loop :: "nat \<Rightarrow> int list \<Rightarrow> ktls \<Rightarrow> ksocket \<Rightarrow> (int \<times> ksocket) res" where
  "tls_send_loop ssl [] t s = Inl Endless"
| "tls_send_loop ssl (status # rest) t s =
     (if status = SSL_ERROR_NONE then Inr (RETURN_OK, s)
      else if status = SSL_ERROR_WANT_WRITE then tls_send_loop ssl rest t s
      else Inr (RETURN_NG, snd (TLSClose (Some ssl) False t s)))"

definition kTLSSend :: "ssl_lib \<Rightarrow> nat option \<Rightarrow> ktls \<Rightarrow> ksocket \<Rightarrow> (int \<times> ksocket) res" where
  "kTLSSend l tlsssl t s = (case tlsssl of
     None \<Rightarrow> Inr (RETURN_NG, s)
   | Some ssl \<Rightarrow> tls_send_loop ssl (l_write l ssl) t s)"

text \<open>The result of receiving: the return value, the bytes in the buffer, the socket table.\<close>

fun tls_recv_loop :: "nat \<Rightarrow> (int \<times> int \<times> byte list \<times> bool) list \<Rightarrow> ktls \<Rightarrow> ksocket \<Rightarrow>
    (int \<times> byte list \<times> ksocket) res" where
  "tls_recv_loop ssl [] t s = Inl Endless"
| "tls_recv_loop ssl ((status, leng, bs, pending) # rest) t s =
     (if status = SSL_ERROR_NONE then Inr (leng, bs, s)
      else if status = SSL_ERROR_ZERO_RETURN \<or> status = SSL_ERROR_SYSCALL
        then Inr (0, [], snd (TLSClose (Some ssl) False t s))
      else if status = SSL_ERROR_WANT_READ \<or> status = SSL_ERROR_WANT_WRITE
        then (if pending then tls_recv_loop ssl rest t s else Inr (leng, bs, s))
      else Inr (-1, [], snd (TLSClose (Some ssl) False t s)))"

definition kTLSRecv :: "ssl_lib \<Rightarrow> nat option \<Rightarrow> ktls \<Rightarrow> ksocket \<Rightarrow> (int \<times> byte list \<times> ksocket) res" where
  "kTLSRecv l tlsssl t s = (case tlsssl of
     None \<Rightarrow> Inr (-1, [], s)
   | Some ssl \<Rightarrow> tls_recv_loop ssl (l_read l ssl) t s)"

text \<open>
  When the handshake or the check fails, \<open>TLSClose\<close> and then \<open>BIO_free\<close> are called. Without session
  mode \<open>TLSClose\<close> has freed the object together with its \<open>BIO\<close>, so \<open>BIO_free\<close> uses freed memory.
\<close>

definition kTLSConnect :: "ssl_lib \<Rightarrow> nat option \<Rightarrow> ktls \<Rightarrow> ksocket \<Rightarrow> (nat option \<times> ksocket) res" where
  "kTLSConnect l tlsssl t s =
     (if \<not> TLSctx t then Inr (None, s)
      else let session = (if TLSSessionMode t \<noteq> 0 then Option.bind tlsssl (l_session l) else None) in
        case l_new l of
          None \<Rightarrow> Inl NullDeref
        | Some ssl \<Rightarrow>
            if \<not> l_connect l ssl session \<or> \<not> l_verify l ssl
            then (if TLSSessionMode t = 0 then Inl UseAfterFree
                  else Inr (None, snd (TLSClose (Some ssl) False t s)))
            else Inr (Some ssl, s))"

text \<open>The result: the return value and \<open>*tlsssl\<close>, when it was written.\<close>

definition kTLSAccept :: "ssl_lib \<Rightarrow> ktls \<Rightarrow> ksocket \<Rightarrow> (int \<times> nat option \<times> ksocket) res" where
  "kTLSAccept l t s =
     (if \<not> TLSctx t then Inr (RETURN_NG, None, s)
      else case l_new l of
        None \<Rightarrow> Inl NullDeref
      | Some ssl \<Rightarrow>
          if \<not> l_accept l ssl \<or> \<not> l_nonblock l
          then Inr (RETURN_NG, None, snd (TLSClose (Some ssl) False t s))
          else Inr (RETURN_OK, Some ssl, s))"

text \<open>
  \<open>kTLSInitialize\<close>. The protocol version and the cipher list only configure the context. The steps
  on the new context are tried in order; the first that fails destroys it.
\<close>

definition tls_configure :: "ssl_lib \<Rightarrow> string \<Rightarrow> string \<Rightarrow> string \<Rightarrow> int \<Rightarrow> ktls \<Rightarrow> bool" where
  "tls_configure l rootPEM myPEM dhPEM tmprsa t =
     (l_cert l myPEM \<and> l_key l myPEM (TLSPasswd t) \<and> l_ca l rootPEM \<and>
      (tmprsa \<noteq> 0 \<longrightarrow> l_dhfile l dhPEM \<and> l_tmp_dh l) \<and> l_tmp_rsa l)"

definition kTLSInitialize :: "ssl_lib \<Rightarrow> int \<Rightarrow> int \<Rightarrow> string \<Rightarrow> string \<Rightarrow> string \<Rightarrow> string \<Rightarrow> int \<Rightarrow> int \<Rightarrow>
    ktls \<Rightarrow> ksocket \<Rightarrow> (int \<times> ktls \<times> ksocket) res" where
  "kTLSInitialize l sessionMode initialmode passwd rootPEM myPEM dhPEM nagle tmprsa t s =
     (let t = t\<lparr>NagleFlag := nagle\<rparr> in
      if TLSctx t \<and> initialmode = 0 then Inr (RETURN_OK, t, s)
      else let (t, s) = (if TLSctx t then TLSClose None False t s else (t, s));
          t = t\<lparr>TLSSessionMode := sessionMode\<rparr>;
          rootPEM = (if rootPEM = [] then ROOT_PEM else rootPEM);
          myPEM = (if myPEM = [] then MY_PEM else myPEM);
          dhPEM = (if dhPEM = [] then DHFILE1024 else dhPEM) in
        bind_res (cstrcpy 128 (if passwd = [] then PASSWORD else passwd)) (\<lambda>pw.
          let t = t\<lparr>TLSPasswd := pw\<rparr> in
          if \<not> l_lstat l rootPEM \<or> \<not> l_lstat l myPEM \<or> \<not> l_lstat l dhPEM \<or> \<not> l_library l
          then Inr (RETURN_NG, t, s)
          else let t = t\<lparr>TLSctx := True\<rparr> in
            if tls_configure l rootPEM myPEM dhPEM tmprsa t then Inr (RETURN_OK, t, s)
            else let (t, s) = TLSClose None False t s in Inr (RETURN_NG, t, s)))"

text \<open>
  \<open>kTLSClear\<close> returns \<open>RETURN_OK\<close> in every case. The lookup gets only \<open>socketinfo\<close>, which it
  fills before it finds that the other arguments are null.
\<close>

definition si_zero :: socket_info where
  "si_zero = \<lparr>si_type = 0, si_socketid = 0, si_sockethandle = 0, si_linkname = [], si_socket_status = 0,
     si_uniq = DataI di_zero, si_peyload_type = 0, si_tls_mode = 0, si_tls_ssl = None\<rparr>"

definition kTLSClear :: "int \<Rightarrow> ktls \<Rightarrow> ksocket \<Rightarrow> (int \<times> ktls \<times> ksocket) res" where
  "kTLSClear socketid t s =
     (if socketid = 0 then (let (t, s) = TLSClose None True t s in Inr (RETURN_OK, t, s))
      else bind_res (kSocketGetSIBySocketId socketid
             \<lparr>b_socketinfo = Some si_zero, b_unixd = None, b_data = None, b_listen = None\<rparr> s) (\<lambda>(_, b).
        case si_tls_ssl (the (b_socketinfo b)) of
          None \<Rightarrow> Inr (RETURN_OK, t, s)
        | Some ssl \<Rightarrow> (let (t, s) = TLSClose (Some ssl) True t s in Inr (RETURN_OK, t, s))))"

definition kGetTLSSession :: "ssl_lib \<Rightarrow> nat option \<Rightarrow> nat option" where
  "kGetTLSSession l ssl = Option.bind ssl (l_session l)"

lemmas tls_defs [koi_simps] = ktls_boot_def SSL_ERROR_NONE_def SSL_ERROR_WANT_READ_def
  SSL_ERROR_WANT_WRITE_def SSL_ERROR_SYSCALL_def SSL_ERROR_ZERO_RETURN_def ROOT_PEM_def MY_PEM_def
  DHFILE1024_def PASSWORD_def kIsTLSInitialize_def TLSClose_def kTLSSend_def kTLSRecv_def
  kTLSConnect_def kTLSAccept_def tls_configure_def kTLSInitialize_def si_zero_def kTLSClear_def
  kGetTLSSession_def

section \<open>The socket table under TLS operations\<close>

text \<open>
  All these operations do to the socket table is to take SSL objects out of it: everything else of
  every entry stays.
\<close>

definition tls_cut :: "ksocket \<Rightarrow> ksocket \<Rightarrow> bool" where
  "tls_cut s s' \<longleftrightarrow> (\<exists>f. (\<forall>si. f si = si \<or> f si = si\<lparr>si_tls_ssl := None\<rparr>) \<and>
     s' = s\<lparr>sk_table := map f (sk_table s)\<rparr>)"

lemma tls_cutI: "(\<And>si. f si = si \<or> f si = si\<lparr>si_tls_ssl := None\<rparr>) \<Longrightarrow>
    tls_cut s (s\<lparr>sk_table := map f (sk_table s)\<rparr>)"
  by (auto simp: tls_cut_def)

lemma tls_cut_refl [simp]: "tls_cut s s"
  using tls_cutI [of "\<lambda>si. si" s] by simp

lemma tls_cut_TLSClose [simp]: "tls_cut s (snd (TLSClose ssl clr t s))"
  by (auto simp: TLSClose_def kSocketTLSClose_def split: option.split intro!: tls_cutI)

lemma tls_cut_inv:
  assumes "tls_cut s s'" "ksocket_inv s"
  shows "ksocket_inv s'"
proof -
  from assms(1) obtain f where f: "\<And>si. f si = si \<or> f si = si\<lparr>si_tls_ssl := None\<rparr>"
    and s': "s' = s\<lparr>sk_table := map f (sk_table s)\<rparr>" by (auto simp: tls_cut_def)
  have id: "si_socketid (f si) = si_socketid si" for si
    by (cases "f si = si") (use f [of si] in auto)
  have ok: "si_ok (f si) = si_ok si" for si
    by (cases "f si = si") (use f [of si] in \<open>auto simp: si_ok_def split: uniq_info.splits\<close>)
  have "si_socketid \<circ> f = si_socketid" by (simp add: fun_eq_iff id)
  with assms(2) show ?thesis by (auto simp: s' ksocket_inv_def id ok)
qed

lemma tls_send_cut: "tls_send_loop ssl ss t s = Inr (r, s') \<Longrightarrow> tls_cut s s'"
  by (induction ss) (auto split: if_splits)

lemma tls_recv_cut: "tls_recv_loop ssl rs t s = Inr (r, bs, s') \<Longrightarrow> tls_cut s s'"
  by (induction rs) (auto split: if_splits)

lemma tls_ops_cut:
  "kTLSSend l p t s = Inr (r, s') \<Longrightarrow> tls_cut s s'"
  "kTLSRecv l p t s = Inr (r, bs, s') \<Longrightarrow> tls_cut s s'"
  "kTLSConnect l p t s = Inr (q, s') \<Longrightarrow> tls_cut s s'"
  "kTLSAccept l t s = Inr (r, q, s') \<Longrightarrow> tls_cut s s'"
  by (auto simp: kTLSSend_def kTLSRecv_def kTLSConnect_def kTLSAccept_def Let_def
      dest: tls_send_cut tls_recv_cut split: option.splits if_splits)

end
