(* ===== verification/KOpen.thy ===== *)
theory KOpen
  imports KTls KIF
begin

text \<open>
  Opening sockets: \<open>kSocketOpen\<close>, \<open>kSocketOpenWaitSocket\<close>, \<open>kSocketOpenUnixdSocket\<close> and
  \<open>kSocketOpenRaw\<close> of \<open>lib/kSocket/kSocket.c\<close>, with the system calls as parameters.
\<close>

section \<open>System calls\<close>

record addrinfo =
  ai_family :: int
  ai_socktype :: int
  ai_addr :: sockaddr

definition SOCK_STREAM :: int where "SOCK_STREAM = 1"
definition SOCK_DGRAM :: int where "SOCK_DGRAM = 2"
definition SOCK_RAW :: int where "SOCK_RAW = 3"
definition INET_ADDRSTRLEN :: nat where "INET_ADDRSTRLEN = 16"
definition INET6_ADDRSTRLEN :: nat where "INET6_ADDRSTRLEN = 46"
definition BROADCAST_MASK :: int where "BROADCAST_MASK = 1"
definition SOCKPATH_DEFAULT :: string where "SOCKPATH_DEFAULT = ''/tmp/koid.socket''"

text \<open>
  What the calls return while one socket is opened: \<open>y_ntop\<close>: \<open>inet_ntop\<close>; \<open>y_names\<close>: whether the
  buffers for host names can be allocated; \<open>y_getaddrinfo\<close>: by host, service, family and type;
  \<open>y_nameinfo\<close>: \<open>getnameinfo\<close>; \<open>y_socket k\<close>: the descriptor the \<open>k\<close>-th \<open>socket()\<close> returns, negative on
  failure; \<open>y_sockopt\<close>: \<open>setsockopt\<close> by option; \<open>y_ifindex\<close>: \<open>if_nametoindex\<close>; \<open>y_malloc\<close>: the
  allocations of \<open>SocketInfo\<close> (0) and its type's part (1); \<open>y_stack\<close>: what an uninitialised
  \<open>sockaddr_storage\<close> holds; \<open>y_arg\<close>: the address of the parameter \<open>d_addr\<close> or \<open>s_addr\<close>.
\<close>

record sys =
  y_ntop :: "int \<Rightarrow> byte list \<Rightarrow> string"
  y_names :: bool
  y_getaddrinfo :: "string \<Rightarrow> string \<Rightarrow> int \<Rightarrow> int \<Rightarrow> addrinfo list option"
  y_nameinfo :: "sockaddr \<Rightarrow> bool"
  y_socket :: "nat \<Rightarrow> int"
  y_sockopt :: "int \<Rightarrow> string \<Rightarrow> bool"
  y_ifindex :: "string \<Rightarrow> int"
  y_bind :: "int \<Rightarrow> sockaddr \<Rightarrow> bool"
  y_connect :: "int \<Rightarrow> sockaddr \<Rightarrow> bool"
  y_listen :: "int \<Rightarrow> bool"
  y_getsockname :: "int \<Rightarrow> sockaddr option"
  y_malloc :: "nat \<Rightarrow> bool"
  y_stack :: "byte list"
  y_arg :: int

definition sys_close :: "int \<Rightarrow> ksocket \<Rightarrow> ksocket" where
  "sys_close fd s = (if fd < 0 then s else s\<lparr>closed_fds := closed_fds s @ [fd]\<rparr>)"

section \<open>Shared steps\<close>

text \<open>\<open>%d\<close> of an \<open>int\<close>.\<close>

definition dec_text :: "int \<Rightarrow> string" where
  "dec_text x = (if x < 0 then ''-'' @ dec_digits 10 (nat (- x)) else dec_digits 10 (nat x))"

text \<open>The macros \<open>IN6_IS_ADDR_LINKLOCAL\<close> and \<open>IN6_IS_ADDR_MULTICAST\<close> on the bytes of an address.\<close>

definition in6_linklocal :: "in6_addr \<Rightarrow> bool" where
  "in6_linklocal a \<longleftrightarrow> a ! 0 = 0xfe \<and> uint (a ! 1) div 64 = 2"

definition in6_multicast :: "in6_addr \<Rightarrow> bool" where
  "in6_multicast a \<longleftrightarrow> a ! 0 = 0xff"

text \<open>\<open>IN_MULTICAST(&addr)\<close> tests the top four bits of the pointer, not of the address.\<close>

definition in_multicast_ptr :: "int \<Rightarrow> bool" where
  "in_multicast_ptr p \<longleftrightarrow> ulong_of p div 268435456 = 14"

definition is_multicast :: "sys \<Rightarrow> in6_addr \<Rightarrow> bool" where
  "is_multicast y a \<longleftrightarrow> in_multicast_ptr (y_arg y) \<or> in6_multicast a"

definition linkname2ifindex :: "sys \<Rightarrow> string option \<Rightarrow> if_table \<Rightarrow> int" where
  "linkname2ifindex y linkname ift = (case kIFGetDevicenameByLinkname linkname ift of
     None \<Rightarrow> 0 | Some ifname \<Rightarrow> y_ifindex y ifname)"

definition family_of :: "int \<Rightarrow> int" where
  "family_of addressFamily = (if addressFamily = CM_IP_IPV6 then AF_INET6 else AF_INET)"

definition ss_family :: "sockaddr \<Rightarrow> int" where
  "ss_family ss = uint (ss ! 1)"

text \<open>The address in a socket address, as a \<open>struct in6_addr\<close> that was 0 before.\<close>

definition addr_in :: "int \<Rightarrow> sockaddr \<Rightarrow> in6_addr" where
  "addr_in family a = (if family = AF_INET6 then take 16 (drop 8 a) else take 4 (drop 4 a) @ replicate 12 0)"

text \<open>
  After the descriptor is there: no entry of the table may have it as a live one, it goes into the
  select list, and the entry is allocated. The first component says whether to go on.
\<close>

definition open_claim :: "bool \<Rightarrow> int \<Rightarrow> ksocket \<Rightarrow> (bool \<times> ksocket) res" where
  "open_claim m fd s =
     bind_res (kSocketSelectOperation fd SELECT_IN (snd (kSocketMakeSocketStatusClose fd s))) (\<lambda>(ret, s).
       if ret < 0 then Inr (False, sys_close fd s)
       else if \<not> m then bind_res (kSocketSelectOperation fd SELECT_OUT s) (\<lambda>(_, s). Inr (False, sys_close fd s))
       else Inr (True, s))"

text \<open>What the error exits after that undo.\<close>

definition open_undo :: "int \<Rightarrow> ksocket \<Rightarrow> (int \<times> int option \<times> ksocket) res" where
  "open_undo fd s = bind_res (kSocketSelectOperation fd SELECT_OUT s) (\<lambda>(_, s).
     Inr (RETURN_NG, None, sys_close fd s))"

lemmas open_helper_defs [koi_simps] = SOCK_STREAM_def SOCK_DGRAM_def SOCK_RAW_def INET_ADDRSTRLEN_def
  INET6_ADDRSTRLEN_def BROADCAST_MASK_def SOCKPATH_DEFAULT_def sys_close_def dec_text_def
  in6_linklocal_def in6_multicast_def in_multicast_ptr_def is_multicast_def linkname2ifindex_def
  family_of_def ss_family_def addr_in_def open_claim_def open_undo_def

section \<open>Client sockets\<close>

text \<open>
  The host names for \<open>getaddrinfo\<close>. For IPv6 an unknown link name ends in \<open>strlen(NULL)\<close>.
\<close>

definition open_names :: "sys \<Rightarrow> int \<Rightarrow> in6_addr \<Rightarrow> in6_addr \<Rightarrow> string option \<Rightarrow> if_table \<Rightarrow>
    (string \<times> string) res" where
  "open_names y addressFamily d_addr s_addr linkname ift =
     (if addressFamily = CM_IP_IPV6 then
        (case kIFGetDevicenameByLinkname linkname ift of
           None \<Rightarrow> Inl NullDeref
         | Some ifname \<Rightarrow>
             let dst = y_ntop y AF_INET6 d_addr; src = y_ntop y AF_INET6 s_addr in
             if \<not> y_names y then Inl NullDeref
             else Inr (if in6_linklocal d_addr then take (INET6_ADDRSTRLEN + length ifname) (dst @ ''%'' @ ifname)
                       else take (INET6_ADDRSTRLEN - 1) dst,
                       if in6_linklocal s_addr then take (INET6_ADDRSTRLEN - 1) (src @ ''%'' @ ifname) else src))
      else if \<not> y_names y then Inl NullDeref
      else Inr (y_ntop y AF_INET (take 4 d_addr), y_ntop y AF_INET (take 4 s_addr)))"

text \<open>The options set on a new descriptor; every failure closes it and tries the next address.\<close>

definition open_options :: "sys \<Rightarrow> int \<Rightarrow> int \<Rightarrow> bool \<Rightarrow> bool \<Rightarrow> string option \<Rightarrow> if_table \<Rightarrow> bool" where
  "open_options y fd family multicast broadcast linkname ift =
     (list_all (y_sockopt y fd) [''SO_REUSEADDR'', ''SO_REUSEPORT'', ''SO_SNDBUF'', ''SO_RCVBUF''] \<and>
      (multicast \<and> family = AF_INET6 \<longrightarrow>
         linkname2ifindex y linkname ift \<noteq> 0 \<and> y_sockopt y fd ''IPV6_MULTICAST_IF'') \<and>
      (multicast \<and> family = AF_INET \<longrightarrow> y_sockopt y fd ''IP_MULTICAST_IF'') \<and>
      (broadcast \<longrightarrow> y_sockopt y fd ''SO_BROADCAST''))"

text \<open>
  The loop over the destination addresses. Results: whether the function returns at once, the
  descriptor, the SSL object, and the socket table. A failing \<open>bind\<close> frees both address lists, of
  which the next round then reads \<open>ai_next\<close>.
\<close>

fun open_loop :: "sys \<Rightarrow> ssl_lib \<Rightarrow> ktls \<Rightarrow> int \<Rightarrow> bool \<Rightarrow> bool \<Rightarrow> int \<Rightarrow> string option \<Rightarrow> if_table \<Rightarrow> sockaddr \<Rightarrow>
    nat \<Rightarrow> addrinfo list \<Rightarrow> int \<Rightarrow> nat option \<Rightarrow> ksocket \<Rightarrow> (bool \<times> int \<times> nat option \<times> ksocket) res" where
  "open_loop y l t tlsmode multicast broadcast d_port linkname ift src k [] sockfd ssl s =
     Inr (False, sockfd, ssl, s)"
| "open_loop y l t tlsmode multicast broadcast d_port linkname ift src k (aip # rest) sockfd ssl s =
     (if \<not> y_nameinfo y (ai_addr aip) then Inr (True, sockfd, ssl, sys_close sockfd s)
      else let fd = y_socket y k;
          next = (\<lambda>fd ssl s. open_loop y l t tlsmode multicast broadcast d_port linkname ift src (Suc k) rest fd ssl s) in
        if fd < 0 then next fd ssl s
        else if \<not> open_options y fd (ai_family aip) multicast broadcast linkname ift
          then next fd ssl (sys_close fd s)
        else if \<not> y_bind y fd src then Inl UseAfterFree
        else if \<not> y_connect y fd (ai_addr aip) then next (-1) ssl (sys_close fd s)
        else if tlsmode = 0 then Inr (False, fd, ssl, s)
        else bind_res (kSocketTLSSession src (ai_addr aip) d_port s) (\<lambda>(_, old).
          bind_res (kTLSConnect l old t s) (\<lambda>(new, s). case new of
            None \<Rightarrow> next (-1) None (sys_close fd s)
          | Some _ \<Rightarrow> Inr (False, fd, new, s))))"

text \<open>
  The end of \<open>kSocketOpen\<close>. \<open>ss\<close> is the first destination address, whichever was connected to. When
  \<open>getsockname\<close> fails the id stays used and the descriptor in the select list.
\<close>

definition open_register :: "sys \<Rightarrow> pi_table \<Rightarrow> int \<Rightarrow> int \<Rightarrow> string \<Rightarrow> int \<Rightarrow> sockaddr \<Rightarrow> nat option \<Rightarrow> int \<Rightarrow>
    ksocket \<Rightarrow> (int \<times> int option \<times> ksocket) res" where
  "open_register y pt type tlsmode linkname peyload_type ss ssl sockfd s =
     bind_res (open_claim (y_malloc y 0) sockfd s) (\<lambda>(go, s).
       if \<not> go then Inr (RETURN_NG, None, s)
       else if \<not> y_malloc y 1 then open_undo sockfd s
       else let g = short_of (g_socket_socketid s + 1) in
         bind_res (cstrcpy 16 linkname) (\<lambda>link.
         case kParserGet peyload_type pt of
           None \<Rightarrow> open_undo sockfd s
         | Some parser \<Rightarrow>
             let s = s\<lparr>g_socket_socketid := g\<rparr> in
             case y_getsockname y sockfd of
               None \<Rightarrow> Inr (RETURN_NG, None, sys_close sockfd s)
             | Some own \<Rightarrow>
                 let d = di_zero\<lparr>di_family := ss_family ss, di_parser := parser,
                       di_d_port := be16 ss 2, di_d_addr := addr_in (ss_family ss) ss,
                       di_s_port := be16 own 2, di_s_addr := addr_in (ss_family ss) own\<rparr> in
                 Inr (RETURN_OK, Some g, si_append
                   \<lparr>si_type = type, si_socketid = g, si_sockethandle = sockfd, si_linkname = link,
                    si_socket_status = SI_STATUS_ALIVE, si_uniq = DataI d, si_peyload_type = peyload_type,
                    si_tls_mode = tlsmode, si_tls_ssl = ssl\<rparr> s)))"

definition kSocketOpen :: "sys \<Rightarrow> ssl_lib \<Rightarrow> ktls \<Rightarrow> if_table \<Rightarrow> pi_table \<Rightarrow> int \<Rightarrow> int \<Rightarrow> int \<Rightarrow> int \<Rightarrow> in6_addr \<Rightarrow>
    int \<Rightarrow> in6_addr \<Rightarrow> string option \<Rightarrow> int \<Rightarrow> int \<Rightarrow> bool \<Rightarrow> ksocket \<Rightarrow> (int \<times> int option \<times> ksocket) res" where
  "kSocketOpen y l t ift pt type tlsmode addressFamily d_port d_addr s_port s_addr linkname peyload_type
       flags socketid s =
     (case linkname of
        None \<Rightarrow> Inr (RETURN_NG, None, s)
      | Some link \<Rightarrow>
        if peyload_type < 1 then Inr (RETURN_NG, None, s)
        else if \<not> socketid then Inr (RETURN_NG, None, s)
        else if g_socket_socketid s = SOCKET_MAXNUM then Inr (RETURN_NG, None, s)
        else bind_res (open_names y addressFamily d_addr s_addr linkname ift) (\<lambda>(dstHostname, srcHostname).
          let family = family_of addressFamily;
              socktype = (if type = SI_TYPE_DATA then SOCK_STREAM else SOCK_DGRAM) in
          case y_getaddrinfo y dstHostname (dec_text d_port) family socktype of
            None \<Rightarrow> Inr (-1, None, s)
          | Some dstRes \<Rightarrow>
              (case y_getaddrinfo y srcHostname (dec_text s_port) family socktype of
                 None \<Rightarrow> Inr (-1, None, s)
               | Some srcRes \<Rightarrow>
                   if dstRes = [] \<or> srcRes = [] then Inl NullDeref
                   else bind_res (open_loop y l t tlsmode (is_multicast y d_addr) (flags mod 2 = BROADCAST_MASK)
                       d_port linkname ift (ai_addr (hd srcRes)) 0 dstRes (-1) None s) (\<lambda>(abort, sockfd, ssl, s).
                     if abort then Inr (RETURN_NG, None, s)
                     else open_register y pt type tlsmode link peyload_type (ai_addr (hd dstRes)) ssl sockfd s))))"

lemmas open_defs [koi_simps] = open_names_def open_options_def open_register_def kSocketOpen_def

section \<open>Listening sockets\<close>

text \<open>
  The loop of \<open>kSocketOpenWaitSocket\<close> over the local addresses. For a multicast address it reads
  \<open>srcHostname\<close>, which has been freed. A TCP socket that listens does not end the loop.
\<close>

definition wait_options :: "sys \<Rightarrow> int \<Rightarrow> int \<Rightarrow> int \<Rightarrow> bool" where
  "wait_options y type fd family =
     (list_all (y_sockopt y fd) [''SO_REUSEADDR'', ''SO_REUSEPORT''] \<and>
      (family = AF_INET \<longrightarrow> y_sockopt y fd ''IP_RECVDSTADDR'' \<and>
         (type = SI_TYPE_LISTEN_UDP \<longrightarrow> y_sockopt y fd ''DSTADDR_SOCKOPT'') \<and> y_sockopt y fd ''IP_RECVIF'') \<and>
      (family = AF_INET6 \<and> type = SI_TYPE_LISTEN_UDP \<longrightarrow> y_sockopt y fd ''DSTADDR_SOCKOPT6''))"

definition wait_options2 :: "sys \<Rightarrow> int \<Rightarrow> bool \<Rightarrow> int \<Rightarrow> bool" where
  "wait_options2 y type broadcast fd =
     ((broadcast \<longrightarrow> y_sockopt y fd ''SO_BROADCAST'') \<and>
      (type = SI_TYPE_LISTEN_UDP \<longrightarrow> y_sockopt y fd ''SO_SNDBUF'' \<and> y_sockopt y fd ''SO_RCVBUF''))"

fun wait_loop :: "sys \<Rightarrow> int \<Rightarrow> bool \<Rightarrow> bool \<Rightarrow> nat \<Rightarrow> addrinfo list \<Rightarrow> int \<Rightarrow> ksocket \<Rightarrow>
    (bool \<times> int \<times> ksocket) res" where
  "wait_loop y type multicast broadcast k [] sockfd s = Inr (False, sockfd, s)"
| "wait_loop y type multicast broadcast k (aip # rest) sockfd s =
     (let fd = y_socket y k; next = wait_loop y type multicast broadcast (Suc k) rest in
      if fd < 0 then next fd s
      else if \<not> wait_options y type fd (ai_family aip) then next fd (sys_close fd s)
      else if multicast \<and> (ai_family aip = AF_INET \<or> ai_family aip = AF_INET6) then Inl UseAfterFree
      else if \<not> wait_options2 y type broadcast fd then next fd (sys_close fd s)
      else if \<not> y_bind y fd (ai_addr aip) then next (-1) (sys_close fd s)
      else if \<not> y_nameinfo y (ai_addr aip) then Inr (True, fd, sys_close fd s)
      else if ai_socktype aip = SOCK_DGRAM then Inr (False, fd, s)
      else if \<not> y_listen y fd then next (-1) (sys_close fd s)
      else next fd s)"

text \<open>
  The end of \<open>kSocketOpenWaitSocket\<close>. An unknown type returns with the descriptor open and in the
  select list; the later errors do not give the id back.
\<close>

definition wait_register :: "sys \<Rightarrow> pi_table \<Rightarrow> int \<Rightarrow> int \<Rightarrow> string \<Rightarrow> int \<Rightarrow> sockaddr \<Rightarrow> int \<Rightarrow> ksocket \<Rightarrow>
    (int \<times> int option \<times> ksocket) res" where
  "wait_register y pt type tlsmode linkname peyload_type ss sockfd s =
     bind_res (open_claim (y_malloc y 0) sockfd s) (\<lambda>(go, s).
       if \<not> go then Inr (RETURN_NG, None, s)
       else if type \<noteq> SI_TYPE_LISTEN_TCP \<and> type \<noteq> SI_TYPE_LISTEN_UDP then Inr (RETURN_NG, None, s)
       else if \<not> y_malloc y 1 then open_undo sockfd s
       else let g = short_of (g_socket_socketid s + 1) in
         bind_res (cstrcpy 16 linkname) (\<lambda>link.
         let s = s\<lparr>g_socket_socketid := g\<rparr> in
         case y_getsockname y sockfd of
           None \<Rightarrow> Inr (RETURN_NG, None, sys_close sockfd s)
         | Some own \<Rightarrow>
             let own_addr = addr_in (ss_family ss) own;
                 add = (\<lambda>u. Inr (RETURN_OK, Some g, si_append
                   \<lparr>si_type = type, si_socketid = g, si_sockethandle = sockfd, si_linkname = link,
                    si_socket_status = SI_STATUS_ALIVE, si_uniq = u, si_peyload_type = peyload_type,
                    si_tls_mode = tlsmode, si_tls_ssl = None\<rparr> s)) in
             if type = SI_TYPE_LISTEN_TCP
             then add (ListenI \<lparr>li_s_port = be16 own 2, li_s_addr = own_addr, li_family = ss_family ss\<rparr>)
             else case kParserGet peyload_type pt of
               None \<Rightarrow> open_undo sockfd s
             | Some parser \<Rightarrow> add (DataI (di_zero\<lparr>di_family := ss_family ss, di_parser := parser,
                 di_s_port := be16 own 2, di_s_addr := own_addr\<rparr>))))"

definition wait_name :: "sys \<Rightarrow> int \<Rightarrow> in6_addr \<Rightarrow> string \<Rightarrow> string" where
  "wait_name y addressFamily s_addr interface =
     (if addressFamily = CM_IP_IPV6
      then (if in6_linklocal s_addr
            then take (INET6_ADDRSTRLEN - 1) (y_ntop y AF_INET6 s_addr @ ''%'' @ interface)
            else y_ntop y AF_INET6 s_addr)
      else y_ntop y AF_INET (take 4 s_addr))"

definition kSocketOpenWaitSocket :: "sys \<Rightarrow> if_table \<Rightarrow> pi_table \<Rightarrow> int \<Rightarrow> int \<Rightarrow> int \<Rightarrow> int \<Rightarrow> in6_addr \<Rightarrow>
    string option \<Rightarrow> int \<Rightarrow> int \<Rightarrow> bool \<Rightarrow> ksocket \<Rightarrow> (int \<times> int option \<times> ksocket) res" where
  "kSocketOpenWaitSocket y ift pt type tlsmode addressFamily s_port s_addr linkname peyload_type flags
       socketid s =
     (if peyload_type < 0 then Inr (RETURN_NG, None, s)
      else if \<not> socketid then Inr (RETURN_NG, None, s)
      else case (linkname, kIFGetDevicenameByLinkname linkname ift) of
        (Some link, Some interface) \<Rightarrow>
          bind_res (IsExistSameSocket type addressFamily s_port s) (\<lambda>same.
          if same \<noteq> 0 then Inr (RETURN_OK, None, s)
          else if g_socket_socketid s = SOCKET_MAXNUM then Inr (RETURN_NG, None, s)
          else if \<not> y_names y then Inl NullDeref
          else case y_getaddrinfo y (wait_name y addressFamily s_addr interface) (dec_text s_port)
                 (family_of addressFamily) (if type = SI_TYPE_LISTEN_TCP then SOCK_STREAM else SOCK_DGRAM) of
              None \<Rightarrow> Inr (-1, None, s)
            | Some srcRes \<Rightarrow>
                bind_res (wait_loop y type (is_multicast y s_addr) (flags mod 2 = BROADCAST_MASK) 0 srcRes (-1) s)
                  (\<lambda>(abort, sockfd, s).
                if abort \<or> sockfd < 0 then Inr (RETURN_NG, None, s)
                else wait_register y pt type tlsmode link peyload_type (ai_addr (hd srcRes)) sockfd s))
      | _ \<Rightarrow> Inr (RETURN_NG, None, s))"

section \<open>The control socket\<close>

text \<open>There is no check of the number of sockets here.\<close>

definition kSocketOpenUnixdSocket :: "sys \<Rightarrow> string option \<Rightarrow> int \<Rightarrow> ksocket \<Rightarrow>
    (int \<times> int option \<times> ksocket) res" where
  "kSocketOpenUnixdSocket y socketpath peyload_type s =
     bind_res (cstrcpy 256 (case socketpath of Some p \<Rightarrow> p | None \<Rightarrow> SOCKPATH_DEFAULT)) (\<lambda>path.
       let fd = y_socket y 0 in
       if fd < 0 then Inr (RETURN_NG, None, s)
       else bind_res (cstrcpy 104 path) (\<lambda>sun_path.
         if \<not> y_bind y fd ([0, 1] @ map (\<lambda>c. of_nat (of_char c)) sun_path) \<or> \<not> y_listen y fd
         then Inr (RETURN_NG, None, sys_close fd s)
         else bind_res (open_claim (y_malloc y 0) fd s) (\<lambda>(go, s).
           if \<not> go then Inr (RETURN_NG, None, s)
           else if \<not> y_malloc y 1 then open_undo fd s
           else let g = short_of (g_socket_socketid s + 1) in
             Inr (RETURN_OK, Some g, si_append
               \<lparr>si_type = SI_TYPE_UNIX, si_socketid = g, si_sockethandle = fd, si_linkname = [],
                si_socket_status = SI_STATUS_ALIVE, si_uniq = UnixdI \<lparr>ui_sockpath = path\<rparr>,
                si_peyload_type = peyload_type, si_tls_mode = 0, si_tls_ssl = None\<rparr>
               (s\<lparr>g_socket_socketid := g\<rparr>)))))"

section \<open>Raw sockets\<close>

text \<open>
  \<open>inaddr2string\<close> and \<open>in6addr2string\<close> are \<open>inet_ntop\<close>; \<open>probe_srcaddr\<close> copies the address
  over the uninitialised \<open>src\<close> and clears its port.
\<close>

definition probe_srcaddr :: "sys \<Rightarrow> string \<Rightarrow> int \<Rightarrow> sockaddr option res" where
  "probe_srcaddr y hostname domain =
     (case y_getaddrinfo y hostname [] domain SOCK_RAW of
        None \<Rightarrow> Inr None
      | Some [] \<Rightarrow> Inl NullDeref
      | Some (res # _) \<Rightarrow>
          bind_res (cmemcpy (take 128 (y_stack y)) 0 (ai_addr res) (length (ai_addr res))) (\<lambda>src.
            Inr (Some (src[2 := 0, 3 := 0]))))"

definition raw_options :: "sys \<Rightarrow> int \<Rightarrow> int \<Rightarrow> bool" where
  "raw_options y fd addrfamily =
     (list_all (y_sockopt y fd) [''SO_DEBUG'', ''SO_REUSEADDR'', ''SO_REUSEPORT''] \<and>
      (addrfamily = AF_INET \<longrightarrow> list_all (y_sockopt y fd) [''IP_RECVDSTADDR'', ''IP_RECVIF'']) \<and>
      (addrfamily = AF_INET6 \<longrightarrow> list_all (y_sockopt y fd) [''IPV6_FAITH'', ''IPV6_CHECKSUM'', ''IPV6_V6ONLY'',
          ''IPV6_RECVPKTINFO'', ''ICMP6_FILTER'', ''IPV6_RECVHOPLIMIT'']))"

text \<open>
  When \<open>getaddrinfo\<close> fails for the destination, the log message reads fields of the null list.
  There is no check of the number of sockets. The parser is always number 2, the null parser.
\<close>

definition kSocketOpenRaw :: "sys \<Rightarrow> pi_table \<Rightarrow> int \<Rightarrow> in6_addr \<Rightarrow> in6_addr \<Rightarrow> int \<Rightarrow> string \<Rightarrow> ksocket \<Rightarrow>
    (int \<times> int option \<times> ksocket) res" where
  "kSocketOpenRaw y pt af d_addr s_addr proto linkname s =
     (if proto \<noteq> CM_PROT_ICMP then Inr (-1, None, s)
      else let addrfamily = (if af = CM_IP_IPV4 then AF_INET else AF_INET6);
          n = (if addrfamily = AF_INET then 4 else 16) in
        bind_res (cstrcpy INET6_ADDRSTRLEN (y_ntop y addrfamily (take n s_addr))) (\<lambda>srcaddrstr.
        bind_res (cstrcpy INET6_ADDRSTRLEN (y_ntop y addrfamily (take n d_addr))) (\<lambda>dstaddrstr.
        bind_res (probe_srcaddr y srcaddrstr addrfamily) (\<lambda>src. case src of
          None \<Rightarrow> Inr (-1, None, s)
        | Some src \<Rightarrow>
            (case y_getaddrinfo y dstaddrstr [] addrfamily SOCK_RAW of
               None \<Rightarrow> Inl NullDeref
             | Some [] \<Rightarrow> Inl NullDeref
             | Some (res0 # _) \<Rightarrow>
                 let fd = y_socket y 0 in
                 if fd < 0 then Inr (-1, None, s)
                 else if \<not> raw_options y fd addrfamily \<or> \<not> y_bind y fd src \<or> \<not> y_connect y fd (ai_addr res0)
                 then Inr (-1, None, sys_close fd s)
                 else bind_res (open_claim (y_malloc y 0) fd s) (\<lambda>(go, s).
                   if \<not> go then Inr (-1, None, s)
                   else if \<not> y_malloc y 1 then open_undo fd s
                   else let g = short_of (g_socket_socketid s + 1) in
                     bind_res (cstrcpy 16 linkname) (\<lambda>link.
                     case kParserGet 2 pt of
                       None \<Rightarrow> open_undo fd s
                     | Some parser \<Rightarrow>
                         bind_res (cmemcpy (replicate 128 0) 0 (ai_addr res0) (length (ai_addr res0))) (\<lambda>ssd.
                         let d = di_zero\<lparr>di_family := ss_family src, di_parser := parser,
                               di_sss_addr := src, di_ssd_addr := ssd, di_s_addr := addr_in (ss_family src) src,
                               di_d_addr := addr_in (ss_family src) (ai_addr res0)\<rparr> in
                         Inr (RETURN_OK, Some g, si_append
                           \<lparr>si_type = SI_TYPE_RAW, si_socketid = g, si_sockethandle = fd, si_linkname = link,
                            si_socket_status = SI_STATUS_ALIVE, si_uniq = DataI d, si_peyload_type = 2,
                            si_tls_mode = 0, si_tls_ssl = None\<rparr>
                           (s\<lparr>g_socket_socketid := g\<rparr>))))))))))"

lemmas wait_defs [koi_simps] = wait_options_def wait_options2_def wait_register_def wait_name_def
  kSocketOpenWaitSocket_def kSocketOpenUnixdSocket_def probe_srcaddr_def raw_options_def kSocketOpenRaw_def

section \<open>Examples\<close>

text \<open>System calls and an OpenSSL for closed examples.\<close>

definition demo_sys :: sys where
  "demo_sys = \<lparr>y_ntop = (\<lambda>_ _. ''::1''), y_names = True, y_getaddrinfo = (\<lambda>_ _ f t.
       Some [\<lparr>ai_family = f, ai_socktype = t, ai_addr = demo_addr\<rparr>]), y_nameinfo = (\<lambda>_. True),
     y_socket = (\<lambda>_. 9), y_sockopt = (\<lambda>_ _. True), y_ifindex = (\<lambda>_. 1), y_bind = (\<lambda>_ _. True),
     y_connect = (\<lambda>_ _. True), y_listen = (\<lambda>_. True), y_getsockname = (\<lambda>_. Some demo_addr),
     y_malloc = (\<lambda>_. True), y_stack = replicate 128 0, y_arg = 0xbfbf0000\<rparr>"

definition demo_ssl :: ssl_lib where
  "demo_ssl = \<lparr>l_write = (\<lambda>_. [0]), l_read = (\<lambda>_. []), l_new = None, l_connect = (\<lambda>_ _. False),
     l_accept = (\<lambda>_. False), l_verify = (\<lambda>_. False), l_nonblock = True, l_session = (\<lambda>_. None),
     l_lstat = (\<lambda>_. False), l_library = True, l_cert = (\<lambda>_. True), l_key = (\<lambda>_ _. True), l_ca = (\<lambda>_. True),
     l_dhfile = (\<lambda>_. True), l_tmp_dh = True, l_tmp_rsa = True\<rparr>"

end
