(* ===== verification/KDaemon.thy ===== *)
theory KDaemon
  imports KRecvTimer KBuffer KCloseTimer KOpen
begin

text \<open>
  The state of the daemon \<open>koid\<close>, which is the static variables of all its components, the
  environment it runs in, and the part of \<open>lib/kDispatcher\<close> that takes in data from the network:
  TCP, UDP and raw sockets.
\<close>

section \<open>State and environment\<close>

type_synonym stream = "byte list option list"

record koid =
  w_sk :: ksocket
  w_data :: kdata
  w_buf :: kbuffer
  w_close :: close_timer
  w_recv :: recv_timer
  w_parser :: pi_table
  w_if :: if_table
  w_tls :: ktls
  w_out :: wire

text \<open>
  What the system calls of one event return. \<open>e_malloc k\<close>: whether the two allocations of the
  \<open>k\<close>-th registration succeed; \<open>e_locals\<close>, \<open>e_stack\<close> and \<open>e_databuf\<close>: what uninitialised local
  variables and buffers hold; \<open>e_recv\<close>, \<open>e_recvfrom\<close>, \<open>e_recvmsg\<close>: the bytes received, with the peer's
  address where the call gives it; \<open>e_getsockname\<close>: the local address of a socket; \<open>e_dlopen\<close>, \<open>e_dlsym\<close>,
  \<open>e_dlparser\<close>: loaded modules and their parsers; \<open>e_re\<close>: \<open>regexec\<close> with the three patterns of the
  SIP parser; \<open>e_sys\<close> and \<open>e_ssl\<close>: the calls of an opening, and OpenSSL; \<open>e_send\<close>: the result of \<open>send\<close>
  or \<open>sendmsg\<close>, negative on failure, otherwise how many of the bytes were taken; \<open>e_read\<close>: the pieces in which a command arrives on the control connection, none for an error;
  \<open>e_accept\<close>: the accepted descriptor, negative on failure, and the peer's address; \<open>e_accept_path\<close>:
  the path \<open>accept\<close> left for a control connection; \<open>e_udp\<close>: what \<open>recvmsg\<close> delivers on a listening
  UDP socket, bytes, sender and control messages (level, type, data); \<open>e_select\<close>: the result of
  \<open>select\<close> and the set it leaves.
\<close>

record env =
  e_now :: timeval
  e_malloc :: "nat \<Rightarrow> bool \<times> bool"
  e_write :: "int \<Rightarrow> byte list \<Rightarrow> bool"
  e_close :: "nat \<Rightarrow> nat \<Rightarrow> bool"
  e_locals :: si_bufs
  e_recv :: "int \<Rightarrow> byte list option"
  e_recvfrom :: "int \<Rightarrow> (byte list \<times> sockaddr) option"
  e_recvmsg :: "int \<Rightarrow> int \<Rightarrow> byte list"
  e_stack :: "byte list"
  e_databuf :: "byte list"
  e_getsockname :: "int \<Rightarrow> sockaddr option"
  e_dlopen :: "string \<Rightarrow> nat option"
  e_dlsym :: "nat \<Rightarrow> string \<Rightarrow> parser_fn option"
  e_dlparser :: "nat \<Rightarrow> int \<Rightarrow> byte list \<Rightarrow> parse_result res"
  e_re :: "regexec \<times> regexec \<times> regexec"
  e_sys :: sys
  e_ssl :: ssl_lib
  e_send :: "int \<Rightarrow> byte list \<Rightarrow> int"
  e_read :: stream
  e_accept :: "int \<times> sockaddr"
  e_accept_path :: string
  e_udp :: "(byte list \<times> sockaddr \<times> (int \<times> int \<times> byte list) list) option"
  e_select :: "int set \<Rightarrow> int \<times> int set"

section \<open>Receiving: shared steps\<close>

text \<open>Calling through the pointer \<open>di_parser\<close>.\<close>

definition call_parser :: "env \<Rightarrow> parser_fn option \<Rightarrow> int \<Rightarrow> byte list \<Rightarrow> parse_result res" where
  "call_parser env p indatalen indata = (case p of
     None \<Rightarrow> Inl NullDeref
   | Some FnSIP \<Rightarrow> (let (re1, re2, re3) = e_re env in kParserSIP re1 re2 re3 indatalen indata)
   | Some FnNULL \<Rightarrow> kParserNULL indatalen indata
   | Some FnDNS \<Rightarrow> kParserDNS indatalen indata
   | Some FnUDPDNS \<Rightarrow> kParserUDPDNS indatalen indata
   | Some FnIKEv2 \<Rightarrow> kParserIKEv2 indatalen indata
   | Some FnKINK \<Rightarrow> kParserKINK indatalen indata
   | Some (FnDl k) \<Rightarrow> e_dlparser env k indatalen indata
   | Some (FnWild _) \<Rightarrow> Inl TypeConfusion)"

text \<open>
  Registering received bytes; \<open>mal\<close> are the outcomes of the two allocations. The callers here
  ignore the return value.
\<close>

definition regist_recv :: "env \<Rightarrow> bool \<times> bool \<Rightarrow> int \<Rightarrow> int \<Rightarrow> byte list \<Rightarrow> koid \<Rightarrow> koid res" where
  "regist_recv env mal socketid datalen data w =
     bind_res (kDataRegist (w_sk w) (fst mal) (snd mal) socketid MSG_SOCKETMODE_RECV datalen data
         (e_now env) (w_data w)) (\<lambda>(_, kd). Inr (w\<lparr>w_data := kd\<rparr>))"

text \<open>The two local variables most handlers pass to the lookup by handle; the other two are null.\<close>

definition handle_bufs :: "env \<Rightarrow> si_bufs" where
  "handle_bufs env = \<lparr>b_socketinfo = b_socketinfo zero_bufs, b_unixd = None,
     b_data = Some (the (b_data (e_locals env))), b_listen = None\<rparr>"

text \<open>
  \<open>live_at\<close> is the entry the lookup by handle finds; \<open>upd_data\<close> writes through its own
  \<open>si_uniq_info_ptr\<close>, into the table.
\<close>

definition live_at :: "int \<Rightarrow> ksocket \<Rightarrow> nat option" where
  "live_at handle s = si_loop 0 (\<lambda>si. si_sockethandle si = handle \<and>
     si_socket_status si = SI_STATUS_ALIVE) (sk_table s)"

definition upd_data :: "(datasocket_info \<Rightarrow> datasocket_info) \<Rightarrow> int \<Rightarrow> ksocket \<Rightarrow> ksocket res" where
  "upd_data f handle s = (case live_at handle s of
     None \<Rightarrow> Inl NullDeref
   | Some i \<Rightarrow> bind_res (as_datasocket (si_uniq (sk_table s ! i))) (\<lambda>d.
       Inr (s\<lparr>sk_table := (sk_table s)[i := (sk_table s ! i)\<lparr>si_uniq := DataI (f d)\<rparr>]\<rparr>)))"

section \<open>TCP\<close>

text \<open>
  The loop that cuts messages out of \<open>packet_gen_space\<close>. \<open>pos\<close> is \<open>parse_current_position\<close>,
  \<open>len\<close> is \<open>packet_gen_space_len\<close>, \<open>psize\<close> is \<open>parse_size\<close>, which keeps its value when the
  parser does not set it. The first argument bounds the rounds.
\<close>

fun tcp_loop :: "nat \<Rightarrow> env \<Rightarrow> (int \<Rightarrow> byte list \<Rightarrow> parse_result res) \<Rightarrow> int \<Rightarrow> byte list \<Rightarrow> int \<Rightarrow> int \<Rightarrow>
    int \<Rightarrow> koid \<Rightarrow> (int \<times> koid) res" where
  "tcp_loop 0 env parse socketid space pos len psize w = Inl OutOfFuel"
| "tcp_loop (Suc k) env parse socketid space pos len psize w =
     (if pos < 0 \<or> pos > int (length space) then Inl OutOfBounds
      else bind_res (parse len (drop (nat pos) space)) (\<lambda>(ret, r).
        let pos = (case r of None \<Rightarrow> pos | Some (off, _) \<Rightarrow> pos + int off);
            psize = (case r of None \<Rightarrow> psize | Some (_, n) \<Rightarrow> n) in
        if ret = PA_ERROR then Inr (RETURN_NG, w)
        else if ret = PA_JUSTONE then
          bind_res (regist_recv env (e_malloc env k) socketid psize (drop (nat pos) space) w) (\<lambda>w.
            Inr (RETURN_OK, w))
        else if ret = PA_LEFTDATA then
          bind_res (regist_recv env (e_malloc env k) socketid psize (drop (nat pos) space) w)
            (tcp_loop k env parse socketid space (pos + psize) (len - psize) psize)
        else if ret = PA_NOMATCH then
          (if len = 0 then Inr (RETURN_OK, w)
           else bind_res (kBufferSet (g_socket_socketid (w_sk w)) (fst (e_malloc env k))
                  (snd (e_malloc env k)) socketid len (drop (nat pos) space) (w_buf w)) (\<lambda>(_, kb).
                  Inr (RETURN_OK, w\<lparr>w_buf := kb\<rparr>)))
        else Inr (RETURN_OK, w)))"

text \<open>
  Writing \<open>di_parser\<close> through the copied entry: for UDP and TCP data sockets the lookup has redirected
  \<open>si_uniq_info_ptr\<close> to the local \<open>vdatasocketinfo\<close>, and the table does not change; for other types
  the pointer is the table's own.
\<close>

definition set_parser :: "parser_fn option \<Rightarrow> int \<Rightarrow> socket_info \<Rightarrow> ksocket \<Rightarrow> ksocket res" where
  "set_parser parser handle si s =
     (if si_type si \<in> {SI_TYPE_UDP, SI_TYPE_DATA, SI_TYPE_LISTEN_UDP} then Inr s
      else upd_data (\<lambda>d. d\<lparr>di_parser := parser\<rparr>) handle s)"

text \<open>
  Merging what is left of earlier data with the new data in \<open>packet_gen_space\<close>, and parsing. One
  round per byte is enough for a parser that takes at least one byte per message.
\<close>

definition tcp_merge :: "env \<Rightarrow> int \<Rightarrow> socket_info \<Rightarrow> byte list \<Rightarrow> koid \<Rightarrow> (int \<times> koid) res" where
  "tcp_merge env handle si recvbuf w =
     bind_res (kBufferGet (si_socketid si) True (Some (replicate (nat MSG_MAXDATALEN) 0)) (w_buf w))
       (\<lambda>(_, len, space, kb).
     let len = (case len of None \<Rightarrow> 0 | Some l \<Rightarrow> l); w = w\<lparr>w_buf := kb\<rparr> in
     bind_res (cmemcpy (the space) (nat len) recvbuf (length recvbuf)) (\<lambda>space.
     let len = len + int (length recvbuf) in
     case kParserGet (si_peyload_type si) (w_parser w) of
       None \<Rightarrow> Inr (RETURN_NG, w)
     | Some parser \<Rightarrow> bind_res (set_parser parser handle si (w_sk w)) (\<lambda>sk.
         tcp_loop (Suc (nat len)) env (call_parser env parser) (si_socketid si) space 0 len 0
           (w\<lparr>w_sk := sk\<rparr>))))"

text \<open>\<open>recv\<close> or \<open>kTLSRecv\<close>: the size returned, and that many bytes of the zeroed buffer.\<close>

definition tcp_recv :: "env \<Rightarrow> int \<Rightarrow> socket_info \<Rightarrow> koid \<Rightarrow> (int \<times> byte list \<times> koid) res" where
  "tcp_recv env handle si w =
     (if si_tls_mode si \<noteq> 0
      then bind_res (kTLSRecv (e_ssl env) (si_tls_ssl si) (w_tls w) (w_sk w)) (\<lambda>(n, bs, sk).
        Inr (n, take (nat n) (bs @ replicate (nat n - length bs) 0), w\<lparr>w_sk := sk\<rparr>))
      else case e_recv env handle of
        None \<Rightarrow> Inr (-1, [], w)
      | Some bs \<Rightarrow> Inr (int (length bs), bs, w))"

definition process_si_type_tcp :: "env \<Rightarrow> int \<Rightarrow> koid \<Rightarrow> (int \<times> koid) res" where
  "process_si_type_tcp env handle w =
     bind_res (kSocketGetSIBySocketHandle handle (handle_bufs env) (w_sk w)) (\<lambda>(ret, b).
       if ret < 0 then Inr (RETURN_NG, w)
       else let si = the (b_socketinfo b) in
         bind_res (tcp_recv env handle si w) (\<lambda>(recvbufsize, recvbuf, w).
           if recvbufsize < 0 then Inr (RETURN_NG, w)
           else if recvbufsize = 0 then
             Inr (RETURN_OK, w\<lparr>w_close := snd (kCloseTimerSet (e_now env) (si_socketid si) 0 (w_close w))\<rparr>)
           else tcp_merge env handle si recvbuf w))"

section \<open>UDP and raw sockets\<close>

text \<open>
  The peer's and the local address are written to the socket's entry: for IPv6 port and 16 bytes
  at offset 8, for IPv4 port and 4 bytes at offset 4 of the socket address, which overwrite the
  first 4 of the 16 address bytes.
\<close>

definition set_ends :: "int \<Rightarrow> sockaddr \<Rightarrow> sockaddr \<Rightarrow> datasocket_info \<Rightarrow> datasocket_info" where
  "set_ends family peer own d =
     (if family = AF_INET6
      then d\<lparr>di_d_port := be16 peer 2, di_s_port := be16 own 2,
             di_d_addr := take 16 (drop 8 peer), di_s_addr := take 16 (drop 8 own)\<rparr>
      else d\<lparr>di_d_port := be16 peer 2, di_s_port := be16 own 2,
             di_d_addr := take 4 (drop 4 peer) @ drop 4 (di_d_addr d),
             di_s_addr := take 4 (drop 4 own) @ drop 4 (di_s_addr d)\<rparr>)"

definition process_si_type_udp :: "env \<Rightarrow> int \<Rightarrow> koid \<Rightarrow> (int \<times> koid) res" where
  "process_si_type_udp env handle w =
     bind_res (kSocketGetSIBySocketHandle handle (handle_bufs env) (w_sk w)) (\<lambda>(ret, b).
       if ret < 0 then Inr (RETURN_NG, w)
       else let si = the (b_socketinfo b); family = di_family (the (b_data b)) in
         if family \<noteq> AF_INET6 \<and> family \<noteq> AF_INET then Inr (RETURN_NG, w)
         else case e_recvfrom env handle of
           None \<Rightarrow> Inr (RETURN_NG, w)
         | Some (recvbuf, peer) \<Rightarrow>
             (case List.find (\<lambda>s. si_sockethandle s = si_sockethandle si \<and>
                   si_socket_status s = SI_STATUS_ALIVE) (sk_table (w_sk w)) of
                None \<Rightarrow> Inr (RETURN_NG, w)
              | Some s \<Rightarrow>
                  (case e_getsockname env handle of
                     None \<Rightarrow> Inr (RETURN_NG, w)
                   | Some own \<Rightarrow>
                       bind_res (upd_data (set_ends family peer own) (si_sockethandle si) (w_sk w)) (\<lambda>sk.
                       bind_res (regist_recv env (e_malloc env 0) (si_socketid s)
                         (int (length recvbuf)) recvbuf (w\<lparr>w_sk := sk\<rparr>)) (\<lambda>w. Inr (RETURN_OK, w))))))"

text \<open>
  \<open>icmp_recv\<close>. \<open>rcv n\<close> are the bytes \<open>recvmsg\<close> delivers when \<open>n\<close> fit (none when it fails, which is
  only reported); \<open>m\<close>: whether the control message for a link-local source can be allocated (32
  bytes, which are then added to the buffer length). Only the first four bytes of the buffer are
  cleared, and the result is always 8.
\<close>

definition linklocal :: "sockaddr \<Rightarrow> bool" where
  "linklocal src \<longleftrightarrow> src ! 8 = 0xfe \<and> uint (src ! 9) div 64 = 2"

definition icmp_recv :: "(int \<Rightarrow> byte list) \<Rightarrow> bool \<Rightarrow> sockaddr \<Rightarrow> byte list \<Rightarrow> (int \<times> byte list) res" where
  "icmp_recv rcv m src buf =
     bind_res (cmemset buf 0 4) (\<lambda>buf.
     let v6 = (uint (src ! 1) = AF_INET6) in
     if v6 \<and> linklocal src \<and> \<not> m then Inl NullDeref
     else let n = (if v6 then (if linklocal src then 40 else 8) else int (length buf)); bs = rcv n in
       bind_res (cmemcpy buf 0 bs (length bs)) (\<lambda>buf. Inr (8, buf)))"

text \<open>
  The lookup by handle does not fill \<open>datasocketinfo\<close> for a raw socket, so \<open>icmp_recv\<close> gets the
  uninitialised addresses.
\<close>

definition process_si_type_raw :: "env \<Rightarrow> int \<Rightarrow> koid \<Rightarrow> (int \<times> koid) res" where
  "process_si_type_raw env handle w =
     bind_res (kSocketGetSIBySocketHandle handle (handle_bufs env) (w_sk w)) (\<lambda>(ret, b).
       if ret < 0 then Inr (RETURN_NG, w)
       else let si = the (b_socketinfo b); d = the (b_data b) in
         bind_res (icmp_recv (e_recvmsg env (si_sockethandle si)) (fst (e_malloc env 1)) (di_sss_addr d)
             (e_stack env)) (\<lambda>(len, recvbuf).
         bind_res (regist_recv env (e_malloc env 0) (si_socketid si) len recvbuf w) (\<lambda>w.
           Inr (RETURN_OK, w))))"

lemmas daemon_defs [koi_simps] = call_parser_def regist_recv_def handle_bufs_def live_at_def
  upd_data_def set_parser_def tcp_merge_def tcp_recv_def process_si_type_tcp_def set_ends_def process_si_type_udp_def
  linklocal_def icmp_recv_def process_si_type_raw_def

section \<open>Invariant\<close>

text \<open>The tables of all components are in order.\<close>

definition koid_inv :: "koid \<Rightarrow> bool" where
  "koid_inv w \<longleftrightarrow> ksocket_inv (w_sk w) \<and> kdata_inv (w_data w) \<and> appendable (w_data w) \<and>
     kbuffer_inv (g_socket_socketid (w_sk w)) (w_buf w) \<and> ct_inv (w_close w) \<and> rt_inv (w_recv w)"

lemma koid_invD:
  assumes "koid_inv w"
  shows "ksocket_inv (w_sk w)" "kdata_inv (w_data w)" "appendable (w_data w)"
    "kbuffer_inv (g_socket_socketid (w_sk w)) (w_buf w)" "ct_inv (w_close w)" "rt_inv (w_recv w)"
  using assms by (auto simp: koid_inv_def)

text \<open>Changing the data of one entry keeps the socket table in order.\<close>

lemma live_at_Some:
  assumes "ksocket_inv s" "live_at h s = Some i"
  shows "i < length (sk_table s) \<and> si_sockethandle (sk_table s ! i) = h \<and>
     si_socket_status (sk_table s ! i) = SI_STATUS_ALIVE \<and> sock s (si_socketid (sk_table s ! i)) = Some (sk_table s ! i)"
proof -
  from assms have "first_index (\<lambda>si. si_sockethandle si = h \<and> si_socket_status si = SI_STATUS_ALIVE) (sk_table s) = Some i"
    by (simp add: live_at_def si_loop_inv)
  from first_index_Some [OF this] have "i < length (sk_table s)" "si_sockethandle (sk_table s ! i) = h"
    "si_socket_status (sk_table s ! i) = SI_STATUS_ALIVE" by auto
  with sock_Some [OF assms(1), of "sk_table s ! i"] show ?thesis by simp
qed

lemma upd_data_ok:
  assumes inv: "ksocket_inv s" and i: "live_at h s = Some i" and d: "si_uniq (sk_table s ! i) = DataI d"
  shows "\<exists>s'. upd_data f h s = Inr s' \<and> ksocket_inv s' \<and> g_socket_socketid s' = g_socket_socketid s \<and>
     sock s' (si_socketid (sk_table s ! i)) = Some ((sk_table s ! i)\<lparr>si_uniq := DataI (f d)\<rparr>)"
proof -
  let ?si = "(sk_table s ! i)\<lparr>si_uniq := DataI (f d)\<rparr>"
  let ?s' = "s\<lparr>sk_table := (sk_table s)[i := ?si]\<rparr>"
  note l = live_at_Some [OF inv i]
  have ids: "map si_socketid (sk_table ?s') = map si_socketid (sk_table s)"
    using l by (intro nth_equalityI) (auto simp: nth_list_update)
  have "si_ok ?si \<and> 1 \<le> si_socketid ?si \<and> si_socketid ?si \<le> g_socket_socketid s"
  proof -
    have "sk_table s ! i \<in> set (sk_table s)" using l by simp
    then have "si_ok (sk_table s ! i) \<and> 1 \<le> si_socketid (sk_table s ! i) \<and>
        si_socketid (sk_table s ! i) \<le> g_socket_socketid s" using inv by (auto simp: ksocket_inv_def)
    with d show ?thesis by (simp add: si_ok_def)
  qed
  then have inv': "ksocket_inv ?s'"
    using inv ids by (auto simp: ksocket_inv_def dest!: set_update_subset_insert [THEN subsetD])
  have "?si \<in> set (sk_table ?s')" using l by (simp add: set_update_memI)
  from sock_Some [OF inv' this] have "sock ?s' (si_socketid (sk_table s ! i)) = Some ?si" by simp
  then show ?thesis using inv' i d by (simp add: upd_data_def as_datasocket_def)
qed

lemma handle_lookup:
  assumes inv: "ksocket_inv s" and h: "0 \<le> h" and i: "live_at h s = Some i"
    and ty: "si_type (sk_table s ! i) \<in> {SI_TYPE_UDP, SI_TYPE_DATA, SI_TYPE_LISTEN_UDP}"
    and d: "si_uniq (sk_table s ! i) = DataI d"
  shows "kSocketGetSIBySocketHandle h (handle_bufs env) s =
     Inr (RETURN_OK, (handle_bufs env)\<lparr>b_socketinfo := Some (sk_table s ! i), b_data := Some d\<rparr>)"
proof -
  have "sk_table s \<noteq> []" using live_at_Some [OF inv i] by auto
  then show ?thesis
    using i h ty d unfolding live_at_def
    by (auto simp: kSocketGetSIBySocketHandle_def copy_uniq_def handle_bufs_def zero_bufs_def si_types)
qed

text \<open>A small daemon and an environment in which everything succeeds, for closed examples.\<close>

definition demo_koid :: koid where
  "demo_koid = \<lparr>w_sk = demo, w_data = kdata_boot False, w_buf = kbuffer_boot False,
     w_close = snd (kCloseTimerInit close_timer_boot), w_recv = recv_timer_boot True,
     w_parser = snd (kParserInit []), w_if = if_clear, w_tls = ktls_boot, w_out = []\<rparr>"

definition demo_env :: "byte list \<Rightarrow> env" where
  "demo_env bs = \<lparr>e_now = \<lparr>tv_sec = 10, tv_usec = 5\<rparr>, e_malloc = (\<lambda>_. (True, True)), e_write = (\<lambda>_ _. True),
     e_close = (\<lambda>_ _. True), e_locals = demo_bufs, e_recv = (\<lambda>_. Some bs),
     e_recvfrom = (\<lambda>_. Some (bs, demo_addr)), e_recvmsg = (\<lambda>_ _. bs), e_stack = replicate 65536 0,
     e_databuf = replicate 65600 0, e_getsockname = (\<lambda>_. Some demo_addr), e_dlopen = (\<lambda>_. None),
     e_dlsym = (\<lambda>_ _. None), e_dlparser = (\<lambda>_ _ _. Inr (PA_ERROR, None)),
     e_re = (\<lambda>_. None, \<lambda>_. None, \<lambda>_. None), e_sys = demo_sys, e_ssl = demo_ssl, e_send = (\<lambda>_ bs. int (length bs)),
     e_read = [Some bs], e_accept = (9, demo_addr),
     e_accept_path = [], e_udp = Some (bs, demo_addr, []), e_select = (\<lambda>fds. (int (card fds), fds))\<rparr>"

lemma demo_koid_inv: "koid_inv demo_koid"
proof -
  have "g_socket_socketid demo = 6" by (simp add: demo_def)
  then show ?thesis
    using kbuffer_inv_boot [of 6 False]
    by (simp add: koid_inv_def demo_koid_def demo_inv ct_inv_init rt_inv_boot kdata_inv_boot)
qed

lemma demo_koid_tables:
  "w_sk demo_koid = demo" "messages (w_data demo_koid) = []" "left_entries (w_buf demo_koid) = []"
  "w_out demo_koid = []"
  by (simp_all add: demo_koid_def kdata_inv_boot)

end
