(* ===== verification/KSocketChecks.thy ===== *)
theory KSocketChecks
  imports KSocket
begin

text \<open>
  \<open>lib/kSocket\<close>, continued: what the checks before a socket is opened really decide, which TLS
  session is reused, and the ICMP checksum and the address text.
\<close>

section \<open>kSocketCheckNewSocket\<close>

text \<open>The test of one UDP socket, as the loop body makes it.\<close>

definition udp_same :: "int \<Rightarrow> int \<Rightarrow> socket_info \<Rightarrow> bool" where
  "udp_same s_port d_port si \<longleftrightarrow> si_type si = SI_TYPE_UDP \<and> si_socket_status si = SI_STATUS_ALIVE \<and>
     (case si_uniq si of DataI d \<Rightarrow> di_s_port d = s_port \<and> (d_port = 0 \<or> di_d_port d = d_port)
      | _ \<Rightarrow> False)"

definition addr_dup :: "in6_addr \<Rightarrow> socket_info \<Rightarrow> bool" where
  "addr_dup s_addr si \<longleftrightarrow> (case si_uniq si of
     DataI d \<Rightarrow> di_s_addr d \<noteq> replicate 16 0 \<and> s_addr \<noteq> replicate 16 0 \<and> s_addr \<noteq> di_s_addr d
   | _ \<Rightarrow> False)"

lemma check_new_step:
  assumes "si_ok si" "rest \<noteq> []"
  shows "check_new_loop s_port s_addr d_port CM_PROT_UDP i (si # rest) st =
     check_new_loop s_port s_addr d_port CM_PROT_UDP (Suc i) rest
       (if udp_same s_port d_port si then (addr_dup s_addr si, Some i) else st)"
  using assms by (cases rest)
    (auto simp: udp_same_def addr_dup_def si_ok_def as_datasocket_def socket_consts
      split: uniq_info.splits)

text \<open>The sockets of a list that match, with their positions from \<open>i\<close> on.\<close>

definition hits :: "int \<Rightarrow> int \<Rightarrow> nat \<Rightarrow> socket_info list \<Rightarrow> (nat \<times> socket_info) list" where
  "hits s_port d_port i ys = filter (\<lambda>(j, si). udp_same s_port d_port si) (enumerate i ys)"

lemma hits_simps [simp]:
  "hits s_port d_port i [] = []"
  "hits s_port d_port i (si # ys) = (if udp_same s_port d_port si
     then (i, si) # hits s_port d_port (Suc i) ys else hits s_port d_port (Suc i) ys)"
  by (simp_all add: hits_def)

lemma hits_nth: "(j, si) \<in> set (hits s_port d_port i ys) \<Longrightarrow>
    i \<le> j \<and> j < i + length ys \<and> ys ! (j - i) = si \<and> udp_same s_port d_port si"
  by (auto simp: hits_def in_set_enumerate_eq)

lemma check_new_loop_hits:
  assumes "\<forall>si \<in> set ys. si_ok si"
  shows "check_new_loop s_port s_addr d_port CM_PROT_UDP i (ys @ [z]) st =
     Inr (let hs = hits s_port d_port i ys in
       if hs = [] then st else (addr_dup s_addr (snd (last hs)), Some (fst (last hs))))"
  using assms by (induction ys arbitrary: i st) (auto simp: check_new_step Let_def)

definition reuse :: "int \<Rightarrow> in6_addr \<Rightarrow> socket_info \<Rightarrow> socket_info" where
  "reuse d_port d_addr si = (case si_uniq si of
     DataI d \<Rightarrow> si\<lparr>si_uniq := DataI (d\<lparr>di_d_port := d_port, di_d_addr := d_addr\<rparr>)\<rparr> | _ \<Rightarrow> si)"

text \<open>
  For UDP the check offers the last socket alive with the wanted local port (and remote
  port, unless none is wanted) for reuse, with its destination redirected, unless both local
  addresses are given and differ; but the last entry of the table is never looked at.
\<close>

theorem kSocketCheckNewSocket_udp:
  assumes "ksocket_inv s" "sk_table s = ys @ [z]"
  shows "kSocketCheckNewSocket s_port s_addr d_port d_addr CM_PROT_UDP True s =
     Inr (RETURN_OK,
       (let hs = hits s_port d_port 0 ys in
        if hs = [] \<or> addr_dup s_addr (snd (last hs)) then (Some 0, s)
        else (Some (si_socketid (snd (last hs))),
              s\<lparr>sk_table := (sk_table s)[fst (last hs) := reuse d_port d_addr (snd (last hs))]\<rparr>)))"
proof (cases "hits s_port d_port 0 ys = []")
  case True
  then show ?thesis
    using assms check_new_loop_hits [of ys s_port s_addr d_port 0 z "(True, None)"]
    by (simp add: kSocketCheckNewSocket_def ksocket_inv_def)
next
  case False
  let ?h = "last (hits s_port d_port 0 ys)"
  obtain j si where h: "?h = (j, si)" by (cases ?h)
  from hits_nth [of j si s_port d_port 0 ys] False h
  have j: "j < length ys" "ys ! j = si" "udp_same s_port d_port si"
    using last_in_set [OF False] by auto
  then have "sk_table s ! j = si" using assms(2) by (simp add: nth_append)
  moreover from j(3) obtain d where "si_uniq si = DataI d"
    by (auto simp: udp_same_def split: uniq_info.splits)
  ultimately show ?thesis
    using assms check_new_loop_hits [of ys s_port s_addr d_port 0 z "(True, None)"] False h
    by (auto simp: kSocketCheckNewSocket_def ksocket_inv_def Let_def as_datasocket_def
        reuse_def split: bool.split)
qed

theorem kSocketCheckNewSocket_udp_witness:
  "kSocketCheckNewSocket 53 (replicate 16 0) 0 (replicate 16 1) CM_PROT_UDP True demo =
     Inr (RETURN_OK, Some 0, demo)"
proof -
  have sp: "sk_table demo = butlast (sk_table demo) @ [last (sk_table demo)]"
    by (simp add: demo_def)
  have "hits 53 0 0 (butlast (sk_table demo)) = []"
    by (simp add: demo_defs udp_same_def socket_consts)
  with kSocketCheckNewSocket_udp [OF demo_inv(1) sp] show ?thesis by simp
qed

text \<open>
  On an empty table the check dereferences a null pointer.
\<close>

theorem kSocketCheckNewSocket_empty:
  "sk_table s = [] \<Longrightarrow>
     kSocketCheckNewSocket s_port s_addr d_port d_addr protocol True s = Inl NullDeref"
  by (simp add: kSocketCheckNewSocket_def)

theorem kSocketCheckNewSocket_empty_witness:
  "kSocketCheckNewSocket 53 (replicate 16 0) 0 (replicate 16 1) CM_PROT_UDP True ksocket_boot =
     Inl NullDeref"
  by (rule kSocketCheckNewSocket_empty) (simp add: ksocket_boot_def)

section \<open>IsExistSameSocket\<close>

text \<open>The listening sockets a second one must not coincide with.\<close>

definition listens_at :: "int \<Rightarrow> int \<Rightarrow> int \<Rightarrow> socket_info \<Rightarrow> bool" where
  "listens_at type s_port af si \<longleftrightarrow> si_type si = type \<and> si_socket_status si = SI_STATUS_ALIVE \<and>
     (case si_uniq si of
        ListenI l \<Rightarrow> li_s_port l = s_port \<and> li_family l = af
      | DataI d \<Rightarrow> di_s_port d = s_port \<and> di_family d = af
      | UnixdI _ \<Rightarrow> False)"

definition udp_listener :: "socket_info \<Rightarrow> bool" where
  "udp_listener si \<longleftrightarrow> si_type si = SI_TYPE_LISTEN_UDP \<and> si_socket_status si = SI_STATUS_ALIVE"

lemma same_socket_step_tcp:
  assumes "si_ok si" "loop < SOCKET_MAXNUM"
  shows "same_socket_loop SI_TYPE_LISTEN_TCP af s_port loop (si # rest) =
     (if listens_at SI_TYPE_LISTEN_TCP s_port af si then Inr 1
      else same_socket_loop SI_TYPE_LISTEN_TCP af s_port (loop + 1) rest)"
  using assms by (cases "si_uniq si") (auto simp: listens_at_def si_ok_def as_listenport_def si_types)

lemma same_socket_step_udp:
  assumes "si_ok si" "loop < SOCKET_MAXNUM"
  shows "same_socket_loop SI_TYPE_LISTEN_UDP af s_port loop (si # rest) =
     (if udp_listener si then Inl TypeConfusion
      else same_socket_loop SI_TYPE_LISTEN_UDP af s_port (loop + 1) rest)"
  using assms by (cases "si_uniq si") (auto simp: udp_listener_def si_ok_def as_listenport_def si_types)

lemma same_socket_loop_tcp:
  "\<forall>si \<in> set xs. si_ok si \<Longrightarrow> loop + int (length xs) \<le> SOCKET_MAXNUM \<Longrightarrow>
   same_socket_loop SI_TYPE_LISTEN_TCP af s_port loop xs =
     Inr (if \<exists>si \<in> set xs. listens_at SI_TYPE_LISTEN_TCP s_port af si then 1 else 0)"
proof (induction xs arbitrary: loop)
  case (Cons si xs)
  then show ?case by (simp del: same_socket_loop.simps add: same_socket_step_tcp)
qed simp

lemma same_socket_loop_udp:
  "\<forall>si \<in> set xs. si_ok si \<Longrightarrow> loop + int (length xs) \<le> SOCKET_MAXNUM \<Longrightarrow>
   same_socket_loop SI_TYPE_LISTEN_UDP af s_port loop xs =
     (if \<exists>si \<in> set xs. udp_listener si then Inl TypeConfusion else Inr 0)"
proof (induction xs arbitrary: loop)
  case (Cons si xs)
  then show ?case by (simp del: same_socket_loop.simps add: same_socket_step_udp)
qed simp

text \<open>
  For TCP, \<open>IsExistSameSocket\<close> finds a listening socket of the same port and address
  family. For UDP it finds nothing while no UDP socket listens, and otherwise reads the
  \<open>DatasocketInfo\<close> of the first one as a \<open>ListenportInfo\<close>.
\<close>

theorem IsExistSameSocket_decides:
  assumes "ksocket_inv s"
  shows "IsExistSameSocket SI_TYPE_LISTEN_TCP v s_port s =
       Inr (if \<exists>si \<in> set (sk_table s). listens_at SI_TYPE_LISTEN_TCP s_port
              (if v = CM_IP_IPV6 then AF_INET6 else AF_INET) si then 1 else 0) \<and>
     IsExistSameSocket SI_TYPE_LISTEN_UDP v s_port s =
       (if \<exists>si \<in> set (sk_table s). udp_listener si then Inl TypeConfusion else Inr 0)"
  using assms ksocket_inv_length(2) [OF assms(1)]
    same_socket_loop_tcp [of "sk_table s" 0] same_socket_loop_udp [of "sk_table s" 0]
  by (auto simp: IsExistSameSocket_def ksocket_inv_def)

text \<open>A table with one UDP listener on port 53.\<close>

definition demo_udp :: ksocket where
  "demo_udp = demo\<lparr>sk_table := [demo_si SI_TYPE_LISTEN_UDP 1 4 (DataI (demo_data 0))]\<rparr>"

theorem IsExistSameSocket_decides_witness:
  "IsExistSameSocket SI_TYPE_LISTEN_UDP CM_IP_IPV4 53 demo_udp = Inl TypeConfusion"
proof -
  have "ksocket_inv demo_udp"
    by (simp add: demo_udp_def ksocket_inv_def si_ok_def demo_defs koi_simps)
  moreover have "\<exists>si \<in> set (sk_table demo_udp). udp_listener si"
    by (simp add: demo_udp_def demo_si_def udp_listener_def)
  ultimately show ?thesis using IsExistSameSocket_decides by simp
qed

section \<open>The ICMP checksum\<close>

text \<open>
  The Internet checksum (RFC 1071) of a buffer: the one's complement of the one's complement
  sum of its 16-bit words, by end-around carry.
\<close>

definition inet_checksum :: "byte list \<Rightarrow> int" where
  "inet_checksum buf =
     (let sum = ulong_of (sum_words buf);
          sum = sum mod 65536 + sum div 65536;
          sum = sum mod 65536 + sum div 65536 in
      65535 - sum)"

lemma sum_words_nonneg: "0 \<le> sum_words buf"
  by (induction buf rule: sum_words.induct) auto

lemma sum_words_zeros: "sum_words (replicate n 0) = 0"
  by (induction n rule: induct_nat_012) auto

text \<open>One round of folding.\<close>

definition folded :: "byte list \<Rightarrow> int" where
  "folded buf = sum_words buf mod 65536 + sum_words buf div 65536"

lemma sum_words_bound: "2 * sum_words buf \<le> 65535 * int (length buf) + 65535"
proof (induction buf rule: sum_words.induct)
  case (1 a b bs)
  then show ?case using uint_bounded [of a] uint_bounded [of b] by simp
next
  case (2 a)
  then show ?case using uint_bounded [of a] by simp
qed simp

text \<open>
  Folding keeps the low byte only, so the result is right when and only when the sum, folded once,
  fits in a byte.
\<close>

lemma checksum_agrees:
  assumes "length buf \<le> 500"
  shows "checksum buf = inet_checksum buf \<longleftrightarrow> folded buf < 256"
proof -
  let ?s = "sum_words buf"
  define h l where "h = ?s div 65536" and "l = ?s mod 65536"
  have "0 \<le> ?s" "?s < 16777216" using sum_words_nonneg [of buf] sum_words_bound [of buf] assms by auto
  then have u: "ulong_of ?s = ?s" and h: "0 \<le> h" "h < 256" and l: "0 \<le> l" "l < 65536"
    by (auto simp: ulong_of_def h_def l_def)
  have m: "?s mod 256 = l mod 256" unfolding l_def by (simp add: mod_mod_cancel)
  have a: "0 \<le> l mod 256 + h" "l mod 256 + h < 512" using h pos_mod_bound [of 256 l] by auto
  have c: "0 \<le> (l + h) mod 256" "(l + h) mod 256 < 256" by simp_all
  have ck: "checksum buf = 65535 - (l + h) mod 256"
  proof -
    have z: "(l mod 256 + h) div 65536 = 0" using a by simp
    have w: "ulong_of x = x" if "0 \<le> x" "x < 512" for x using that by (simp add: ulong_of_def)
    have "ushort_of (4294967295 - x) = 65535 - x" if "0 \<le> x" "x < 256" for x
      using that unfolding ushort_of_def by (simp flip: mod_diff_eq [of "4294967295" 65536 x])
    with c have "ushort_of (4294967295 - (l + h) mod 256) = 65535 - (l + h) mod 256" by blast
    then show ?thesis
      using a c w z by (simp add: checksum_def Let_def u m h_def [symmetric] mod_add_left_eq)
  qed
  have ic: "inet_checksum buf = 65535 - ((l + h) mod 65536 + (l + h) div 65536)"
    by (simp add: inet_checksum_def Let_def u h_def [symmetric] l_def [symmetric])
  have f: "folded buf = l + h" by (simp add: folded_def h_def l_def)
  show ?thesis
  proof (cases "l + h < 65536")
    case True
    then have "(l + h) mod 256 = l + h \<longleftrightarrow> l + h < 256" using l h c by (auto intro: mod_pos_pos_trivial)
    then show ?thesis using True ck ic f l h by auto
  next
    case False
    define d where "d = l + h - 65536"
    have d: "0 \<le> d" "d < 255" "l + h = d + 65536" using False l h by (auto simp: d_def)
    then have "(l + h) mod 256 = d" "(l + h) mod 65536 = d" "(l + h) div 65536 = 1"
      using mod_mult_self1 [of d 256 256] by auto
    then show ?thesis using ck ic f d by auto
  qed
qed

section \<open>Addresses as text\<close>

fun swap_pairs :: "byte list \<Rightarrow> byte list" where
  "swap_pairs (a # b # bs) = b # a # swap_pairs bs"
| "swap_pairs bs = bs"

text \<open>The eight groups of an IPv6 address in network byte order, as they are written.\<close>

definition in6_text :: "byte list \<Rightarrow> string" where
  "in6_text addr = join '':'' (map (\<lambda>i. hex04 (256 * unat (addr ! (2 * i)) + unat (addr ! (2 * i + 1)))) [0..<8])"

lemma swap_pairs_nth: "even (length bs) \<Longrightarrow> 2 * i + 1 < length bs \<Longrightarrow>
    swap_pairs bs ! (2 * i) = bs ! Suc (2 * i) \<and> swap_pairs bs ! Suc (2 * i) = bs ! (2 * i)"
proof (induction bs arbitrary: i rule: swap_pairs.induct)
  case (1 a b bs)
  then show ?case by (cases i) auto
qed auto

text \<open>
  \<open>kAddr2Str0\<close> reads the groups of an IPv6 address in the host's byte order: it writes the
  text of the address with the two bytes of each group exchanged.
\<close>

theorem kAddr2Str0_v6_swapped:
  assumes "length addr = 16"
  shows "kAddr2Str0 AF_INET6 addr = in6_text (swap_pairs addr)"
proof -
  have "2 * i + 1 < length addr" if "i \<in> set [0..<8]" for i
    using that assms by auto
  then have eq: "map (\<lambda>i. hex04 (unat (addr ! (2 * i)) + 256 * unat (addr ! (2 * i + 1)))) [0..<8] =
     map (\<lambda>i. hex04 (256 * unat (swap_pairs addr ! (2 * i)) + unat (swap_pairs addr ! (2 * i + 1)))) [0..<8]"
    using assms by (intro map_cong) (auto simp: swap_pairs_nth add.commute)
  have "\<not> AF_INET6 = AF_INET" by (simp add: AF_INET_def AF_INET6_def)
  then show ?thesis by (simp only: kAddr2Str0_def in6_text_def if_False if_True eq simp_thms)
qed

theorem kAddr2Str0_v6_swapped_witness:
  "kAddr2Str0 AF_INET6 ([32, 1] @ replicate 13 0 @ [1]) = ''0120:0000:0000:0000:0000:0000:0000:0100''"
proof -
  have "in6_text (swap_pairs ([32, 1] @ replicate 13 0 @ [1])) = ''0120:0000:0000:0000:0000:0000:0000:0100''"
    by code_simp
  then show ?thesis using kAddr2Str0_v6_swapped [of "[32, 1] @ replicate 13 0 @ [1]"] by simp
qed

section \<open>TLS session reuse\<close>

text \<open>The connections whose session may be reused.\<close>

definition tls_off :: "sockaddr \<Rightarrow> nat" where
  "tls_off src = (if uint (src ! 1) = AF_INET then 4 else 8)"

definition tls_len :: "sockaddr \<Rightarrow> nat" where
  "tls_len src = (if uint (src ! 1) = AF_INET then 4 else 16)"

definition tls_reusable :: "nat \<Rightarrow> nat \<Rightarrow> sockaddr \<Rightarrow> sockaddr \<Rightarrow> int \<Rightarrow> socket_info \<Rightarrow> bool" where
  "tls_reusable off n src dst port si \<longleftrightarrow> si_tls_mode si \<noteq> 0 \<and> si_tls_ssl si \<noteq> None \<and>
     si_type si = SI_TYPE_DATA \<and> (case si_uniq si of
       DataI d \<Rightarrow> (di_d_port d = port \<or> di_s_port d = port) \<and>
         take n (di_s_addr d) = take n (drop off src) \<and> take n (di_d_addr d) = take n (drop off dst)
     | _ \<Rightarrow> False)"

lemma tls_match_ok: "si_ok si \<Longrightarrow> tls_match off n src dst port si = Inr (tls_reusable off n src dst port si)"
  by (cases "si_uniq si") (auto simp: tls_match_def tls_reusable_def as_datasocket_def si_ok_def si_types)

lemma tls_session_loop_find: "\<forall>si \<in> set xs. si_ok si \<Longrightarrow>
    tls_session_loop (tls_match off n src dst port) xs =
      Inr (case List.find (tls_reusable off n src dst port) xs of
        None \<Rightarrow> (RETURN_NG, None) | Some si \<Rightarrow> (RETURN_OK, si_tls_ssl si))"
  by (induction xs) (auto simp: tls_match_ok)

text \<open>
  A new TLS connection reuses the session of the first connection in the table that still
  has one, joins the same two addresses and has the port on either side; closing a session
  makes sure that no later lookup returns it.
\<close>

theorem kSocketTLSSession_reuse:
  assumes "ksocket_inv s"
  shows "kSocketTLSSession src dst port s =
       Inr (case List.find (tls_reusable (tls_off src) (tls_len src) src dst port) (sk_table s) of
         None \<Rightarrow> (RETURN_NG, None) | Some si \<Rightarrow> (RETURN_OK, si_tls_ssl si)) \<and>
     kSocketTLSSession src dst port (kSocketTLSClose (Some x) s) \<noteq> Inr (RETURN_OK, Some x)"
proof -
  have gen: "kSocketTLSSession src dst port s =
       Inr (case List.find (tls_reusable (tls_off src) (tls_len src) src dst port) (sk_table s) of
         None \<Rightarrow> (RETURN_NG, None) | Some si \<Rightarrow> (RETURN_OK, si_tls_ssl si))"
    if "\<forall>si \<in> set (sk_table s). si_ok si" for s
    using that by (simp add: kSocketTLSSession_def tls_session_loop_find tls_off_def tls_len_def)
  let ?s = "kSocketTLSClose (Some x) s"
  have ok: "\<forall>si \<in> set (sk_table s). si_ok si" using assms(1) by (simp add: ksocket_inv_def)
  have "si_ok si \<Longrightarrow> si_ok (si\<lparr>si_tls_ssl := None\<rparr>)" for si
    by (cases "si_uniq si") (auto simp: si_ok_def)
  with ok have "\<forall>si \<in> set (sk_table ?s). si_ok si \<and> si_tls_ssl si \<noteq> Some x"
    by (auto simp: kSocketTLSClose_def)
  then have "kSocketTLSSession src dst port ?s \<noteq> Inr (RETURN_OK, Some x)"
    using gen [of ?s] by (auto split: option.splits simp: find_Some_iff)
  with gen [OF ok] show ?thesis by blast
qed

theorem kSocketTLSSession_reuse_witness:
  "kSocketTLSSession demo_addr demo_addr 53 (kSocketTLSClose (Some 4) demo) \<noteq> Inr (RETURN_OK, Some 4)"
  using kSocketTLSSession_reuse [of demo demo_addr demo_addr 53 4] demo_inv by blast

end
