(* ===== verification/KSend.thy ===== *)
theory KSend
  imports KDaemon KSocketChecks
begin

text \<open>
  Sending: \<open>kSocketSend\<close>, \<open>kSocketSendDataUdp\<close> and \<open>icmp_send\<close> of \<open>lib/kSocket/kSocket.c\<close>.
\<close>

section \<open>Operations\<close>

text \<open>
  \<open>send\<close> of \<open>datalen\<close> bytes: a negative length is a \<open>size_t\<close> no call accepts, one beyond the
  buffer would send what lies behind it. Whatever is not an error counts as success, also when fewer
  bytes were taken than were given. The bytes taken are appended to \<open>w_out\<close>.
\<close>

definition sys_send :: "env \<Rightarrow> int \<Rightarrow> int \<Rightarrow> byte list \<Rightarrow> koid \<Rightarrow> (bool \<times> koid) res" where
  "sys_send env handle datalen data w =
     (if datalen < 0 then Inr (False, w)
      else if datalen > int (length data) then Inl OutOfBounds
      else let bs = take (nat datalen) data in
        if e_send env handle bs < 0 then Inr (False, w)
        else Inr (True, w\<lparr>w_out := w_out w @ [(handle, take (nat (e_send env handle bs)) bs)]\<rparr>))"

text \<open>
  \<open>kSocketSendDataUdp\<close> returns a \<open>bool\<close>, an \<open>unsigned char\<close>: its \<open>return(RETURN_NG)\<close> is 255, which
  is true. Only a failing \<open>send\<close> is false.
\<close>

definition kSocketSendDataUdp :: "env \<Rightarrow> int \<Rightarrow> int \<Rightarrow> byte list \<Rightarrow> koid \<Rightarrow> (bool \<times> koid) res" where
  "kSocketSendDataUdp env socketid datalen data w =
     bind_res (kSocketGetSIBySocketId socketid
         \<lparr>b_socketinfo = b_socketinfo zero_bufs, b_unixd = None, b_data = b_data zero_bufs, b_listen = None\<rparr>
         (w_sk w)) (\<lambda>(ret, b).
       if ret < 0 then Inr (True, w)
       else let si = the (b_socketinfo b); d = the (b_data b) in
         if di_family d \<noteq> AF_INET \<and> di_family d \<noteq> AF_INET6 then Inr (True, w)
         else if di_family d = AF_INET6 \<and> in6_linklocal (di_d_addr d) \<and>
             kIFGetDevicenameByLinkname (Some (si_linkname si)) (w_if w) = None then Inr (True, w)
         else case y_getaddrinfo (e_sys env) (y_ntop (e_sys env) (di_family d)
               (if di_family d = AF_INET then take 4 (di_d_addr d) else di_d_addr d))
               (dec_text (di_d_port d)) (di_family d) SOCK_DGRAM of
             None \<Rightarrow> Inr (True, w)
           | Some _ \<Rightarrow> sys_send env (si_sockethandle si) datalen data w)"

definition ICMP_ECHO :: byte where "ICMP_ECHO = 8"
definition ICMP6_ECHO_REQUEST :: byte where "ICMP6_ECHO_REQUEST = 128"

text \<open>
  The packet \<open>icmp_send\<close> builds in an uninitialised buffer (\<open>stack\<close>), and the caller's data
  afterwards. Type and code are the first two bytes of the data, if it has more than three. For IPv4
  the checksum is computed over 48 bytes, of which only 28 have been written; for IPv6 8 bytes are
  written and 40 sent, and the header is copied back over the data.
\<close>

definition icmp_packet :: "int \<Rightarrow> byte list \<Rightarrow> int \<Rightarrow> byte list \<Rightarrow> (byte list \<times> byte list) res" where
  "icmp_packet family stack datalen data =
     (if family = AF_INET then
        (let hdr = (if datalen > 3 then take 2 data else [ICMP_ECHO, 0]);
             buf = hdr @ replicate 26 0 @ take 20 (drop 28 stack); ck = checksum buf in
         Inr (buf[2 := word_of_int ck, 3 := word_of_int (ck div 256)], data))
      else
        (let hdr = (if datalen > 3 then take 2 data else [ICMP6_ECHO_REQUEST, 0]) @ replicate 6 0 in
         bind_res (cmemcpy data 0 hdr 8) (\<lambda>data. Inr (hdr @ take 32 (drop 8 stack), data))))"

definition icmp_send :: "env \<Rightarrow> int \<Rightarrow> sockaddr \<Rightarrow> int \<Rightarrow> byte list \<Rightarrow> koid \<Rightarrow> (byte list \<times> koid) res" where
  "icmp_send env fd src datalen data w =
     bind_res (icmp_packet (uint (src ! 1)) (e_stack env) datalen data) (\<lambda>(pkt, data).
       if uint (src ! 1) \<noteq> AF_INET \<and> \<not> fst (e_malloc env 2) then Inl NullDeref
       else bind_res (sys_send env fd (int (length pkt)) pkt w) (\<lambda>(_, w). Inr (data, w)))"

text \<open>
  The transmission itself, by the type of the socket: whether it succeeded, and the data afterwards.
  A TLS socket without an SSL object, and a listening UDP socket, send nothing without an error.
\<close>

definition send_data :: "env \<Rightarrow> socket_info \<Rightarrow> datasocket_info \<Rightarrow> int \<Rightarrow> int \<Rightarrow> byte list \<Rightarrow> koid \<Rightarrow>
    (bool \<times> byte list \<times> koid) res" where
  "send_data env si d socketid datalen data w =
     (if si_type si = SI_TYPE_DATA then
        (if si_tls_mode si \<noteq> 0 then
           (case si_tls_ssl si of
              None \<Rightarrow> Inr (True, data, w)
            | Some ssl \<Rightarrow> bind_res (kTLSSend (e_ssl env) (Some ssl) (w_tls w) (w_sk w)) (\<lambda>(ret, sk).
                if ret < 0 then Inr (False, data, w\<lparr>w_sk := sk\<rparr>)
                else Inr (True, data, w\<lparr>w_sk := sk, w_out := w_out w @ [(si_sockethandle si, take (nat datalen) data)]\<rparr>)))
         else bind_res (sys_send env (si_sockethandle si) datalen data w) (\<lambda>(ok, w). Inr (ok, data, w)))
      else if si_type si = SI_TYPE_UDP then
        bind_res (kSocketSendDataUdp env socketid datalen data w) (\<lambda>(ok, w). Inr (ok, data, w))
      else if si_type si = SI_TYPE_RAW then
        bind_res (icmp_send env (si_sockethandle si) (di_sss_addr d) datalen data w) (\<lambda>(data, w).
          Inr (True, data, w))
      else Inr (True, data, w))"

text \<open>The result: the return value, \<open>*dataid\<close> and \<open>*timestamp\<close> when they were written, the state.\<close>

definition kSocketSend :: "env \<Rightarrow> int \<Rightarrow> int \<Rightarrow> byte list \<Rightarrow> koid \<Rightarrow> (int \<times> (int \<times> timeval) option \<times> koid) res" where
  "kSocketSend env socketid datalen data w =
     (if socketid < 1 then Inr (RETURN_NG, None, w)
      else bind_res (kSocketGetSIBySocketId socketid (handle_bufs env) (w_sk w)) (\<lambda>(ret, b).
        if ret < 0 then Inr (RETURN_NG, None, w)
        else let si = the (b_socketinfo b) in
          bind_res (send_data env si (the (b_data b)) socketid datalen data w) (\<lambda>(ok, data, w).
            if \<not> ok then Inr (RETURN_NG, None, w)
            else bind_res (kDataRegist (w_sk w) (fst (e_malloc env 0)) (snd (e_malloc env 0)) (si_socketid si)
                MSG_SOCKETMODE_SEND datalen data (e_now env) (w_data w)) (\<lambda>(ret, kd).
              let w = w\<lparr>w_data := kd\<rparr> in
              if ret < 0 then Inr (RETURN_NG, None, w)
              else Inr (RETURN_OK, Some (g_msg_dataid kd, e_now env), w)))))"

lemmas send_defs [koi_simps] = sys_send_def kSocketSendDataUdp_def ICMP_ECHO_def ICMP6_ECHO_REQUEST_def
  icmp_packet_def icmp_send_def send_data_def kSocketSend_def

section \<open>Properties\<close>

lemma checksum_range: "0 \<le> checksum buf" "checksum buf < 65536"
  by (simp_all add: checksum_def Let_def ushort_of_def)

lemma bytes_of_checksum: "uint (word_of_int (checksum buf) :: byte) + 256 * uint (word_of_int (checksum buf div 256) :: byte) = checksum buf"
proof -
  have "checksum buf div 256 < 256" "0 \<le> checksum buf div 256" using checksum_range [of buf] by auto
  then show ?thesis by (simp add: uint_word_of_int mod_pos_pos_trivial)
qed

text \<open>
  C32: The ICMPv4 message that \<open>icmp_send\<close> builds has 48 bytes: type and code from the data (or an echo request),
  the checksum, 24 zeros, and 20 bytes of the stack that nobody has written. Its checksum is the
  Internet checksum of these bytes when and only when their 16-bit words, folded once, add up to less than
  256, since \<open>checksum\<close> keeps the low byte of the sum only; if the 20 bytes happen to be zero, exactly for code 0.
\<close>

theorem icmp_message_checksum:
  assumes "3 < n \<longrightarrow> 2 \<le> length data" "48 \<le> length stack"
  shows "\<exists>pkt. icmp_packet AF_INET stack n data = Inr (pkt, data) \<and> length pkt = 48 \<and>
     take 2 pkt = (if 3 < n then take 2 data else [ICMP_ECHO, 0]) \<and>
     drop 4 pkt = replicate 24 0 @ take 20 (drop 28 stack) \<and>
     (let zeroed = pkt[2 := 0, 3 := 0] in
        (uint (pkt ! 2) + 256 * uint (pkt ! 3) = inet_checksum zeroed \<longleftrightarrow> folded zeroed < 256) \<and>
        (take 20 (drop 28 stack) = replicate 20 0 \<longrightarrow>
          (uint (pkt ! 2) + 256 * uint (pkt ! 3) = inet_checksum zeroed \<longleftrightarrow> pkt ! 1 = 0)))"
proof -
  obtain a b where hdr: "(if 3 < n then take 2 data else [ICMP_ECHO, 0]) = [a, b]"
    using assms(1) by (cases "3 < n"; cases data; cases "tl data") auto
  define t where "t = take 20 (drop 28 stack)"
  have lt: "length t = 20" using assms(2) by (simp add: t_def)
  let ?buf = "a # b # 0 # 0 # replicate 24 0 @ t"
  let ?ck = "checksum ?buf"
  let ?pkt = "a # b # word_of_int ?ck # word_of_int (?ck div 256) # replicate 24 0 @ t"
  have "icmp_packet AF_INET stack n data = Inr (?pkt, data)"
    unfolding icmp_packet_def hdr Let_def t_def [symmetric] by (simp add: numeral_eq_Suc)
  moreover have "length ?pkt = 48" "length ?buf \<le> 500" using lt by simp_all
  moreover have "take 2 ?pkt = [a, b]" "drop 4 ?pkt = replicate 24 0 @ t" "?pkt[2 := 0, 3 := 0] = ?buf"
    by (simp_all add: numeral_eq_Suc)
  moreover have "uint (?pkt ! 2) + 256 * uint (?pkt ! 3) = ?ck"
    using bytes_of_checksum [of ?buf] by (simp add: numeral_eq_Suc)
  moreover have "folded ?buf < 256 \<longleftrightarrow> b = 0" if "t = replicate 20 0"
  proof -
    have "sum_words ?buf = uint a + 256 * uint b"
      unfolding that replicate_add [symmetric] by (simp add: sum_words_zeros)
    moreover have "(p + 256 * q) mod 65536 + (p + 256 * q) div 65536 = p + 256 * q \<and> (p + 256 * q < 256 \<longleftrightarrow> q = 0)"
      if "0 \<le> p" "p < 256" "0 \<le> q" "q < 256" for p q :: int using that by auto
    from this [of "uint a" "uint b"] have "uint a + 256 * uint b < 256 \<longleftrightarrow> uint b = 0"
      "(uint a + 256 * uint b) mod 65536 + (uint a + 256 * uint b) div 65536 = uint a + 256 * uint b"
      using uint_bounded [of a] uint_bounded [of b] by auto
    ultimately show ?thesis unfolding folded_def by (simp only: uint_0_iff)
  qed
  moreover have "?pkt ! 1 = b" by simp
  ultimately show ?thesis unfolding Let_def hdr t_def [symmetric]
    using checksum_agrees [of ?buf] by (intro exI [of _ ?pkt]) metis
qed

theorem icmp_message_checksum_witness:
  "\<exists>pkt. icmp_packet AF_INET (replicate 48 7) 0 [] = Inr (pkt, []) \<and> take 2 pkt = [8, 0] \<and>
     uint (pkt ! 2) + 256 * uint (pkt ! 3) \<noteq> inet_checksum (pkt[2 := 0, 3 := 0])"
proof -
  have t: "take 20 (drop 28 (replicate 48 (7::byte))) = replicate 20 7" by simp
  obtain pkt where pkt: "icmp_packet AF_INET (replicate 48 7) 0 [] = Inr (pkt, [])" "length pkt = 48" "take 2 pkt = [ICMP_ECHO, 0]"
    "drop 4 pkt = replicate 24 0 @ replicate 20 7"
    "uint (pkt ! 2) + 256 * uint (pkt ! 3) = inet_checksum (pkt[2 := 0, 3 := 0]) \<longleftrightarrow> folded (pkt[2 := 0, 3 := 0]) < 256"
    using icmp_message_checksum [of 0 "[]" "replicate 48 7", unfolded t] by (auto simp: Let_def)
  obtain a b c d ps where ps: "pkt = a # b # c # d # ps"
    using pkt(2) by (cases pkt; cases "tl pkt"; cases "tl (tl pkt)"; cases "tl (tl (tl pkt))") auto
  have "pkt[2 := 0, 3 := 0] = [8, 0, 0, 0] @ replicate 24 0 @ replicate 20 7"
    using pkt(3,4) unfolding ps by (simp add: numeral_eq_Suc ICMP_ECHO_def)
  moreover have "\<not> folded ([8, 0, 0, 0] @ replicate 24 0 @ replicate 20 7) < 256" by code_simp
  ultimately have "\<not> folded (pkt[2 := 0, 3 := 0]) < 256" by metis
  then show ?thesis using pkt by (auto simp: ICMP_ECHO_def)
qed

end
