(* ===== verification/KCommand.thy ===== *)
theory KCommand
  imports KSend
begin

text \<open>
  The commands of the control connection (\<open>lib/kDispatcher\<close>): reading one, decoding its struct, and
  the handler of each. A struct is the bytes of its memory on the target, as in \<open>KAck\<close>.
\<close>

section \<open>Commands\<close>

definition CM_CM_SIG_CONNEC_REQ :: int where "CM_CM_SIG_CONNEC_REQ = 257"
definition CM_CM_SIG_SEND_REQ :: int where "CM_CM_SIG_SEND_REQ = 258"
definition CM_CM_SIG_RECV_REQ :: int where "CM_CM_SIG_RECV_REQ = 259"
definition CM_CM_SIG_CLOSE_REQ :: int where "CM_CM_SIG_CLOSE_REQ = 260"
definition CM_CM_SIG_WAIT_REQ :: int where "CM_CM_SIG_WAIT_REQ = 261"
definition CM_CM_SIG_SOCKINFO_REQ :: int where "CM_CM_SIG_SOCKINFO_REQ = 262"
definition CM_CM_SIG_DATAINFO_REQ :: int where "CM_CM_SIG_DATAINFO_REQ = 263"
definition CM_CM_SIG_FLUSH_REQ :: int where "CM_CM_SIG_FLUSH_REQ = 264"
definition CM_CM_SIG_TLS_SETUP_REQ :: int where "CM_CM_SIG_TLS_SETUP_REQ = 265"
definition CM_CM_SIG_TLS_CLEAR_REQ :: int where "CM_CM_SIG_TLS_CLEAR_REQ = 266"
definition CM_CM_SIG_PARSER_ATTACH_REQ :: int where "CM_CM_SIG_PARSER_ATTACH_REQ = 267"

lemmas cm_reqs = CM_CM_SIG_CONNEC_REQ_def CM_CM_SIG_SEND_REQ_def CM_CM_SIG_RECV_REQ_def
  CM_CM_SIG_CLOSE_REQ_def CM_CM_SIG_WAIT_REQ_def CM_CM_SIG_SOCKINFO_REQ_def
  CM_CM_SIG_DATAINFO_REQ_def CM_CM_SIG_FLUSH_REQ_def CM_CM_SIG_TLS_SETUP_REQ_def
  CM_CM_SIG_TLS_CLEAR_REQ_def CM_CM_SIG_PARSER_ATTACH_REQ_def

text \<open>The sizes of the request structs.\<close>

definition CONNEC_REQ :: nat where "CONNEC_REQ = 52 + 65536"
definition SEND_REQ :: nat where "SEND_REQ = 12 + 65536"
definition RECV_REQ :: nat where "RECV_REQ = 8"
definition CLOSE_REQ :: nat where "CLOSE_REQ = 8"
definition WAIT_REQ :: nat where "WAIT_REQ = 32"
definition SOCKINFO_REQ :: nat where "SOCKINFO_REQ = 6"
definition DATAINFO_REQ :: nat where "DATAINFO_REQ = 8"
definition FLUSH_REQ :: nat where "FLUSH_REQ = 16"
definition TLS_SETUP_REQ :: nat where "TLS_SETUP_REQ = 562"
definition TLS_CLEAR_REQ :: nat where "TLS_CLEAR_REQ = 6"
definition PARSER_ATTACH_REQ :: nat where "PARSER_ATTACH_REQ = 200"
definition CM_MAX_CM_LENGTH :: int where "CM_MAX_CM_LENGTH = 65536 + 64"

lemmas req_sizes = CONNEC_REQ_def SEND_REQ_def RECV_REQ_def CLOSE_REQ_def WAIT_REQ_def SOCKINFO_REQ_def
  DATAINFO_REQ_def FLUSH_REQ_def TLS_SETUP_REQ_def TLS_CLEAR_REQ_def PARSER_ATTACH_REQ_def

text \<open>\<open>memcpy(&req, databuf, datalen)\<close> into a zeroed struct of \<open>n\<close> bytes.\<close>

definition req_copy :: "nat \<Rightarrow> byte list \<Rightarrow> int \<Rightarrow> byte list res" where
  "req_copy n databuf datalen = cmemcpy (replicate n 0) 0 databuf (nat datalen)"

text \<open>The string at an offset of a struct: up to the first 0, through the following fields if need be.\<close>

definition req_string :: "byte list \<Rightarrow> int \<Rightarrow> string res" where
  "req_string r off = bind_res (cstring_at r off) (\<lambda>bs. Inr (map (\<lambda>b. char_of (unat b)) bs))"

text \<open>
  \<open>linkname_temp_char\<close> has two bytes, so of the interface id only the first character is kept.
\<close>

definition link_of :: "int \<Rightarrow> string" where
  "link_of interfaceid = IF_KEYWORD @ take 1 (dec_text interfaceid)"

text \<open>Sending an acknowledgement.\<close>

definition answer :: "(wire \<Rightarrow> int \<times> wire) \<Rightarrow> koid \<Rightarrow> koid" where
  "answer f w = w\<lparr>w_out := snd (f (w_out w))\<rparr>"

definition answer_res :: "(wire \<Rightarrow> (int \<times> wire) res) \<Rightarrow> koid \<Rightarrow> koid res" where
  "answer_res f w = bind_res (f (w_out w)) (\<lambda>(_, out). Inr (w\<lparr>w_out := out\<rparr>))"

definition connec_answer :: "env \<Rightarrow> int \<Rightarrow> int \<Rightarrow> int \<Rightarrow> int \<Rightarrow> int \<Rightarrow> (int \<times> timeval) option \<Rightarrow> koid \<Rightarrow> koid" where
  "connec_answer env handle command request_num result socketid sent =
     (let (dataid, timestamp) = (case sent of Some p \<Rightarrow> p | None \<Rightarrow> (0, tv_zero)) in
      answer (connec_send_ack_return (e_write env) handle command request_num result socketid dataid timestamp))"

definition close_answer :: "env \<Rightarrow> int \<Rightarrow> int \<Rightarrow> int \<Rightarrow> int \<Rightarrow> int \<Rightarrow> koid \<Rightarrow> koid" where
  "close_answer env handle command request_num result socketid =
     answer (close_wait_ack_return (e_write env) handle command request_num result socketid)"

lemmas command_helper_defs [koi_simps] = req_copy_def req_string_def link_of_def answer_def answer_res_def
  connec_answer_def close_answer_def CM_MAX_CM_LENGTH_def

section \<open>Opening, sending and waiting\<close>

definition conn_type :: "int \<Rightarrow> int" where
  "conn_type protocol =
     (if protocol = CM_PROT_TCP then SI_TYPE_DATA
      else if protocol = CM_PROT_UDP then SI_TYPE_UDP
      else if protocol = CM_PROT_ICMP then SI_TYPE_RAW
      else if protocol = CM_PROT_TLS then SI_TYPE_DATA else 0)"

text \<open>
  The socket to use for a connect command: its return value, its id (0 when no socket is opened for
  the protocol), the state.
\<close>

definition connect_open :: "env \<Rightarrow> byte list \<Rightarrow> int \<Rightarrow> koid \<Rightarrow> (int \<times> int \<times> koid) res" where
  "connect_open env r checksocketid w =
     (let protocol = uint (r ! 9); ipver = uint (r ! 8); link = link_of (get16 r 10);
          s_addr = take 16 (drop 12 r); d_addr = take 16 (drop 28 r);
          fin = (\<lambda>(ret, i, sk). Inr (ret, case i of None \<Rightarrow> 0 | Some i \<Rightarrow> i, w\<lparr>w_sk := sk\<rparr>)) in
      if checksocketid \<noteq> 0 then Inr (RETURN_OK, checksocketid, w)
      else if conn_type protocol = SI_TYPE_UDP \<or> conn_type protocol = SI_TYPE_DATA then
        bind_res (kSocketOpen (e_sys env) (e_ssl env) (w_tls w) (w_if w) (w_parser w) (conn_type protocol)
            (if protocol = CM_PROT_TLS then 1 else 0) ipver (be16 r 6) d_addr (be16 r 4) s_addr (Some link)
            (get16 r 46) (get16 r 44) True (w_sk w)) fin
      else if conn_type protocol = SI_TYPE_RAW then
        bind_res (kSocketOpenRaw (e_sys env) (w_parser w) ipver d_addr s_addr protocol link (w_sk w)) fin
      else Inr (RETURN_OK, 0, w))"

text \<open>When sending the first data fails, a negative answer is sent, and then a positive one as well.\<close>

definition process_command_connect_req :: "env \<Rightarrow> int \<Rightarrow> int \<Rightarrow> byte list \<Rightarrow> int \<Rightarrow> koid \<Rightarrow> (int \<times> koid) res" where
  "process_command_connect_req env handle request_num databuf datalen w =
     bind_res (req_copy CONNEC_REQ databuf datalen) (\<lambda>r.
     let ack = connec_answer env handle CM_CM_SIG_CONNEC_ACK request_num; protocol = uint (r ! 9) in
     if protocol = CM_PROT_TLS \<and> \<not> kIsTLSInitialize (w_tls w)
     then Inr (RETURN_NG, ack CM_RESULT_SIG_TLS_NOINIT 0 None w)
     else bind_res (kSocketCheckNewSocket (be16 r 4) (take 16 (drop 12 r)) (be16 r 6) (take 16 (drop 28 r))
         protocol True (w_sk w)) (\<lambda>(ret, check, sk).
       let w = w\<lparr>w_sk := sk\<rparr> in
       if ret < 0 then Inr (RETURN_NG, ack CM_RESULT_SIG_NG_OTHER 0 None w)
       else bind_res (connect_open env r (the check) w) (\<lambda>(ret, socketid, w).
         if ret < 0 then Inr (RETURN_NG, ack CM_RESULT_SIG_NG_OTHER 0 None w)
         else if get32 r 48 = 0 then Inr (RETURN_OK, ack CM_RESULT_OK socketid None w)
         else bind_res (kSocketSend env socketid (get32 r 48) (drop 52 r) w) (\<lambda>(ret, sent, w).
           let w = (if ret \<noteq> 0 then ack CM_RESULT_SIG_NG_OTHER socketid sent w else w) in
           Inr (RETURN_OK, ack CM_RESULT_OK socketid sent w)))))"

definition process_command_send_req :: "env \<Rightarrow> int \<Rightarrow> int \<Rightarrow> byte list \<Rightarrow> int \<Rightarrow> koid \<Rightarrow> (int \<times> koid) res" where
  "process_command_send_req env handle request_num databuf datalen w =
     bind_res (req_copy SEND_REQ databuf datalen) (\<lambda>r.
     bind_res (kSocketSend env (get16 r 4) (get32 r 8) (drop 12 r) w) (\<lambda>(ret, sent, w).
       Inr (RETURN_OK, connec_answer env handle CM_CM_SIG_SEND_ACK request_num
         (if ret \<noteq> 0 then CM_RESULT_SIG_NG_OTHER else CM_RESULT_OK) (get16 r 4) sent w)))"

definition wait_type :: "int \<Rightarrow> int" where
  "wait_type protocol =
     (if protocol = CM_PROT_TCP then SI_TYPE_LISTEN_TCP
      else if protocol = CM_PROT_UDP then SI_TYPE_LISTEN_UDP
      else if protocol = CM_PROT_ICMP then SI_TYPE_RAW
      else if protocol = CM_PROT_TLS then SI_TYPE_LISTEN_TCP else 0)"

definition process_command_wait_req :: "env \<Rightarrow> int \<Rightarrow> int \<Rightarrow> byte list \<Rightarrow> int \<Rightarrow> koid \<Rightarrow> (int \<times> koid) res" where
  "process_command_wait_req env handle request_num databuf datalen w =
     bind_res (req_copy WAIT_REQ databuf datalen) (\<lambda>r.
     let ack = close_answer env handle CM_CM_SIG_WAIT_ACK request_num; protocol = uint (r ! 9);
         link = link_of (get16 r 4); s_addr = take 16 (drop 12 r) in
     if protocol = CM_PROT_TLS \<and> \<not> kIsTLSInitialize (w_tls w)
     then Inr (RETURN_NG, ack CM_RESULT_SIG_TLS_NOINIT 0 w)
     else bind_res
       (if wait_type protocol = SI_TYPE_RAW
        then kSocketOpenRaw (e_sys env) (w_parser w) (uint (r ! 8)) (replicate 16 0) s_addr protocol link (w_sk w)
        else kSocketOpenWaitSocket (e_sys env) (w_if w) (w_parser w) (wait_type protocol)
          (if protocol = CM_PROT_TLS then 1 else 0) (uint (r ! 8)) (be16 r 10) s_addr (Some link)
          (get16 r 6) (get16 r 28) True (w_sk w))
       (\<lambda>(ret, i, sk). let w = w\<lparr>w_sk := sk\<rparr> in
         if ret \<noteq> 0 then Inr (RETURN_NG, ack CM_RESULT_SIG_NG_OTHER 0 w)
         else Inr (RETURN_OK, ack CM_RESULT_OK (case i of None \<Rightarrow> 0 | Some i \<Rightarrow> i) w)))"

lemmas command_open_defs [koi_simps] = conn_type_def connect_open_def process_command_connect_req_def
  process_command_send_req_def wait_type_def process_command_wait_req_def

section \<open>Receiving and closing\<close>

definition process_command_recv_req :: "env \<Rightarrow> int \<Rightarrow> int \<Rightarrow> byte list \<Rightarrow> int \<Rightarrow> koid \<Rightarrow> (int \<times> koid) res" where
  "process_command_recv_req env handle request_num databuf datalen w =
     bind_res (req_copy RECV_REQ databuf datalen) (\<lambda>r.
     bind_res (kDataGetDataBySocketid (w_sk w) (get16 r 4) (replicate (nat MSG_MAXDATALEN) 0) (w_data w))
       (\<lambda>(ret, msg, data, kd).
       let w = w\<lparr>w_data := kd\<rparr> in
       if ret < 0 then
         bind_res (answer_res (recv_ack_return (e_write env) handle CM_CM_SIG_RECV_ACK request_num
             CM_RESULT_SIG_NG_OTHER (get16 r 4) None) w) (\<lambda>w. Inr (RETURN_NG, w))
       else if ret > 0 then
         bind_res (kRecvTimerSet (g_socket_socketid (w_sk w)) (e_now env) (fst (e_malloc env 0)) handle
             (get16 r 4) (get16 r 6) request_num (w_recv w)) (\<lambda>(_, rt). Inr (RETURN_OK, w\<lparr>w_recv := rt\<rparr>))
       else
         bind_res (answer_res (recv_ack_return (e_write env) handle CM_CM_SIG_RECV_ACK request_num
             CM_RESULT_OK (msg_socketid (the msg)) (Some (the msg, data))) w) (\<lambda>w. Inr (RETURN_OK, w))))"

definition process_command_close_req :: "env \<Rightarrow> int \<Rightarrow> int \<Rightarrow> byte list \<Rightarrow> int \<Rightarrow> koid \<Rightarrow> (int \<times> koid) res" where
  "process_command_close_req env handle request_num databuf datalen w =
     bind_res (req_copy CLOSE_REQ databuf datalen) (\<lambda>r.
     let ack = close_answer env handle CM_CM_SIG_CLOSE_ACK request_num;
         socketid = get16 r 4; waittime = get16 r 6 in
     if socketid < 0 \<or> waittime < 0 then Inr (RETURN_NG, ack CM_RESULT_SIG_NG_OTHER 0 w)
     else let (ret, ct) = kCloseTimerSet (e_now env) socketid waittime (w_close w); w = w\<lparr>w_close := ct\<rparr> in
       if ret \<noteq> 0 then Inr (RETURN_NG, ack CM_RESULT_SIG_NG_OTHER 0 w)
       else Inr (RETURN_OK, ack CM_RESULT_OK socketid w))"

section \<open>Information, flushing, TLS and parsers\<close>

definition process_command_sockinfo_req :: "env \<Rightarrow> int \<Rightarrow> int \<Rightarrow> byte list \<Rightarrow> int \<Rightarrow> koid \<Rightarrow> (int \<times> koid) res" where
  "process_command_sockinfo_req env handle request_num databuf datalen w =
     bind_res (req_copy SOCKINFO_REQ databuf datalen) (\<lambda>r.
     bind_res (kSocketGetSIBySocketId (get16 r 4) (zero_bufs\<lparr>b_unixd := None\<rparr>) (w_sk w)) (\<lambda>(ret, b).
       let ack = sockinfo_ack_return (kGetTLSSession (e_ssl env)) (e_write env) handle CM_CM_SIG_SOCKINFO_ACK
             request_num in
       if ret \<noteq> 0 then bind_res (answer_res (ack CM_RESULT_SIG_NG_OTHER None) w) (\<lambda>w. Inr (RETURN_NG, w))
       else bind_res (answer_res (ack CM_RESULT_OK (Some (the (b_socketinfo b), b_data b, b_listen b))) w)
         (\<lambda>w. Inr (RETURN_OK, w))))"

definition process_command_datainfo_req :: "env \<Rightarrow> int \<Rightarrow> int \<Rightarrow> byte list \<Rightarrow> int \<Rightarrow> koid \<Rightarrow> (int \<times> koid) res" where
  "process_command_datainfo_req env handle request_num databuf datalen w =
     bind_res (req_copy DATAINFO_REQ databuf datalen) (\<lambda>r.
     bind_res (kDataGetDataByDataid (get32 r 4) True (Some (replicate (nat MSG_MAXDATALEN) 0)) (w_data w))
       (\<lambda>(ret, msg, data).
       let ack = datainfo_ack_return (e_write env) handle CM_CM_SIG_DATAINFO_ACK request_num in
       if ret \<noteq> 0 then bind_res (answer_res (ack CM_RESULT_SIG_NG_OTHER None) w) (\<lambda>w. Inr (RETURN_NG, w))
       else bind_res (answer_res (ack CM_RESULT_OK (Some (the msg, the data))) w) (\<lambda>w. Inr (RETURN_OK, w))))"

text \<open>The handlers below return a \<open>bool\<close>. The data id of a flush is read with \<open>ntohs\<close>.\<close>

definition flag_answer :: "(wire \<Rightarrow> bool \<times> wire) \<Rightarrow> koid \<Rightarrow> koid" where
  "flag_answer f w = w\<lparr>w_out := snd (f (w_out w))\<rparr>"

definition process_command_flush_req :: "env \<Rightarrow> int \<Rightarrow> int \<Rightarrow> byte list \<Rightarrow> int \<Rightarrow> koid \<Rightarrow> (bool \<times> koid) res" where
  "process_command_flush_req env handle request_num databuf datalen w =
     bind_res (req_copy FLUSH_REQ databuf datalen) (\<lambda>r.
     bind_res (kDataClear (get16 r 4) (get16 r 6) (get16 r 8) (be16 r 12) (w_data w)) (\<lambda>(ret, kd).
       Inr (ret, flag_answer (flush_ack_return (e_write env) handle CM_CM_SIG_FLUSH_ACK request_num
         (if ret then CM_RESULT_OK else CM_RESULT_SIG_NG_OTHER)) (w\<lparr>w_data := kd\<rparr>))))"

definition process_command_tls_setup_req :: "env \<Rightarrow> int \<Rightarrow> int \<Rightarrow> byte list \<Rightarrow> int \<Rightarrow> koid \<Rightarrow> (bool \<times> koid) res" where
  "process_command_tls_setup_req env handle request_num databuf datalen w =
     bind_res (req_copy TLS_SETUP_REQ databuf datalen) (\<lambda>r.
     bind_res (req_string r 12) (\<lambda>passwd.
     bind_res (req_string r 44) (\<lambda>rootpem.
     bind_res (req_string r 172) (\<lambda>mypem.
     bind_res (req_string r 300) (\<lambda>dhpem.
     bind_res (kTLSInitialize (e_ssl env) (get16 r 4) (get16 r 6) passwd rootpem mypem dhpem (get16 r 428)
         (get16 r 432) (w_tls w) (w_sk w)) (\<lambda>(ret, t, sk).
       let w = w\<lparr>w_tls := t, w_sk := sk\<rparr> in
       Inr (ret = 0, flag_answer (tls_setup_ack_return (e_write env) handle CM_CM_SIG_TLS_SETUP_ACK request_num
         (if ret \<noteq> 0 then CM_RESULT_SIG_NG_OTHER else CM_RESULT_OK)) w)))))))"

text \<open>\<open>kTLSClear\<close> returns 0 for success, which is taken for a failure here.\<close>

definition process_command_tls_clear_req :: "env \<Rightarrow> int \<Rightarrow> int \<Rightarrow> byte list \<Rightarrow> int \<Rightarrow> koid \<Rightarrow> (bool \<times> koid) res" where
  "process_command_tls_clear_req env handle request_num databuf datalen w =
     bind_res (req_copy TLS_CLEAR_REQ databuf datalen) (\<lambda>r.
     bind_res (kTLSClear (get16 r 4) (w_tls w) (w_sk w)) (\<lambda>(ret, t, sk).
       let w = w\<lparr>w_tls := t, w_sk := sk\<rparr> in
       Inr (ret \<noteq> 0, flag_answer (tls_clear_ack_return (e_write env) handle CM_CM_SIG_TLS_CLEAR_ACK request_num
         (if ret = 0 then CM_RESULT_SIG_NG_OTHER else CM_RESULT_OK)) w)))"

definition process_command_parser_attach_req :: "env \<Rightarrow> int \<Rightarrow> int \<Rightarrow> byte list \<Rightarrow> int \<Rightarrow> koid \<Rightarrow> (bool \<times> koid) res" where
  "process_command_parser_attach_req env handle request_num databuf datalen w =
     bind_res (req_copy PARSER_ATTACH_REQ databuf datalen) (\<lambda>r.
     bind_res
       (if get16 r 6 = 0
        then bind_res (req_string r 8) (\<lambda>parsername. bind_res (req_string r 72) (\<lambda>modulepath.
          Inr (kParserSet2 (e_dlopen env) (e_dlsym env) (get16 r 4) parsername modulepath (w_parser w))))
        else Inr (case kParserDelete (get16 r 4) (w_parser w) of (ok, _, pt) \<Rightarrow> (ok, pt)))
       (\<lambda>(ok, pt). Inr (True, flag_answer (flush_ack_return (e_write env) handle CM_CM_SIG_PARSER_ATTACH_ACK
          request_num (if ok then CM_RESULT_OK else CM_RESULT_SIG_NG_OTHER)) (w\<lparr>w_parser := pt\<rparr>))))"

lemmas command_defs [koi_simps] = process_command_recv_req_def process_command_close_req_def
  process_command_sockinfo_req_def process_command_datainfo_req_def flag_answer_def
  process_command_flush_req_def process_command_tls_setup_req_def process_command_tls_clear_req_def
  process_command_parser_attach_req_def

end
