(* ===== verification/KUnixd.thy ===== *)
theory KUnixd
  imports KCommand
begin

text \<open>
  The control connection (\<open>lib/kDispatcher\<close>): accepting it, reading a command from the stream, and
  passing the command to its handler.
\<close>

section \<open>Reading a command\<close>

text \<open>
  \<open>read\<close> of at most \<open>n\<close> bytes: a piece that does not fit is left for the next call, the end of the
  pieces is the end of the stream.
\<close>

fun sys_read :: "nat \<Rightarrow> stream \<Rightarrow> byte list option \<times> stream" where
  "sys_read n [] = (Some [], [])"
| "sys_read n (None # cs) = (None, cs)"
| "sys_read n (Some bs # cs) =
     (if length bs \<le> n then (Some bs, cs) else (Some (take n bs), Some (drop n bs) # cs))"

text \<open>\<open>read(handle, buff + datalen, n)\<close>: the value returned, the buffer and the rest of the stream.\<close>

definition read_at :: "int \<Rightarrow> byte list \<Rightarrow> int \<Rightarrow> stream \<Rightarrow> (int \<times> byte list \<times> stream) res" where
  "read_at n buff datalen st = (case sys_read (nat (ulong_of n)) st of
     (None, st) \<Rightarrow> Inr (-1, buff, st)
   | (Some bs, st) \<Rightarrow>
       if bs = [] then Inr (0, buff, st)
       else if datalen < 0 then Inl BufferOverflow
       else bind_res (cmemcpy buff (nat datalen) bs (length bs)) (\<lambda>buff.
         Inr (int (length bs), buff, st)))"

definition stream_bytes :: "stream \<Rightarrow> nat" where
  "stream_bytes st = sum_list (map (\<lambda>c. case c of None \<Rightarrow> 0 | Some bs \<Rightarrow> length bs) st)"

lemma sys_read_bytes:
  "sys_read n st = (Some bs, st') \<Longrightarrow> stream_bytes st = length bs + stream_bytes st' \<and> length bs \<le> n"
  by (cases "(n, st)" rule: sys_read.cases) (auto simp: stream_bytes_def split: if_splits)

lemma read_at_bytes: "read_at n buff d st = Inr (len, buff', st') \<Longrightarrow> 0 < len \<Longrightarrow> stream_bytes st' < stream_bytes st"
  by (auto simp: read_at_def bind_res_eq_Inr dest: sys_read_bytes split: prod.splits option.splits if_splits)

text \<open>
  The loop that reads the data after the fixed part; \<open>room\<close> is the size of the struct and \<open>need\<close> the
  length announced. The comparison is one of \<open>size_t\<close>.
\<close>

function read_loop :: "int \<Rightarrow> int \<Rightarrow> byte list \<Rightarrow> int \<Rightarrow> stream \<Rightarrow> (int \<times> byte list \<times> stream) res" where
  "read_loop room need buff datalen st =
     (if ulong_of datalen < ulong_of need then
        bind_res (read_at (room - datalen) buff datalen st) (\<lambda>(len, buff, st).
          if len \<le> 0 then Inr (datalen, buff, st)
          else read_loop room need buff (long_of (datalen + len)) st)
      else Inr (datalen, buff, st))"
  by pat_completeness auto

termination
  by (relation "measure (\<lambda>(_, _, _, _, st). stream_bytes st)") (auto dest: read_at_bytes)

declare read_loop.simps [simp del]

text \<open>A command with data: the fixed part of \<open>n\<close> bytes ends in the length of the data.\<close>

definition read_with_data :: "nat \<Rightarrow> byte list \<Rightarrow> int \<Rightarrow> stream \<Rightarrow> (int \<times> byte list \<times> stream) res" where
  "read_with_data n buff datalen st =
     bind_res (read_at (int n - datalen) buff datalen st) (\<lambda>(len, buff, st).
       let datalen = datalen + len in
       if ulong_of datalen < int n then Inr (datalen, buff, st)
       else read_loop (int n + MSG_MAXDATALEN) (int n + get32 buff (n - 4)) buff datalen st)"

text \<open>The first \<open>read\<close> may fail: \<open>-1\<close> is not less than 2 as a \<open>size_t\<close>.\<close>

definition read_unixd_data :: "byte list \<Rightarrow> int \<Rightarrow> stream \<Rightarrow> (int \<times> byte list \<times> stream) res" where
  "read_unixd_data buff bufsize st =
     bind_res (read_at 2 buff 0 st) (\<lambda>(datalen, buff, st).
       if ulong_of datalen < 2 then Inr (datalen, buff, st)
       else let command = get16 buff 0 in
         if command = CM_CM_SIG_CONNEC_REQ then read_with_data 52 buff datalen st
         else if command = CM_CM_SIG_SEND_REQ then read_with_data 12 buff datalen st
         else bind_res (read_at (bufsize - datalen) buff datalen st) (\<lambda>(len, buff, st).
           Inr (datalen + len, buff, st)))"

section \<open>Commands\<close>

text \<open>The connection is closed, and with it every socket; timers and left data go.\<close>

definition unixd_hangup :: "env \<Rightarrow> int \<Rightarrow> koid \<Rightarrow> (int \<times> koid) res" where
  "unixd_hangup env handle w =
     bind_res (kSocketGetSIBySocketHandle handle
         \<lparr>b_socketinfo = b_socketinfo (e_locals env), b_unixd = b_unixd (e_locals env), b_data = None,
          b_listen = None\<rparr> (w_sk w)) (\<lambda>(ret, b).
       if ret < 0 then Inr (RETURN_NG, w)
       else bind_res (kSocketClose (e_close env 0) (e_locals env) (si_socketid (the (b_socketinfo b))) (w_sk w))
         (\<lambda>(_, sk).
         bind_res (kSocketClose (e_close env 1) (e_locals env) 0 sk) (\<lambda>(_, sk).
         bind_res (kBufferInit (w_buf w)) (\<lambda>(_, kb).
         bind_res (kRecvTimerInit (w_recv w)) (\<lambda>(_, rt).
           Inr (RETURN_OK, w\<lparr>w_sk := sk, w_close := snd (kCloseTimerInit (w_close w)), w_buf := kb,
             w_recv := rt\<rparr>))))))"

text \<open>How a caller turns the result of a handler into its own.\<close>

definition ret_int :: "(int \<times> koid) res \<Rightarrow> (int \<times> koid) res" where
  "ret_int m = bind_res m (\<lambda>(ret, w). Inr (if ret < 0 then RETURN_NG else RETURN_OK, w))"

definition ret_flag :: "(bool \<times> koid) res \<Rightarrow> (int \<times> koid) res" where
  "ret_flag m = bind_res m (\<lambda>(ret, w). Inr (if ret then RETURN_NG else RETURN_OK, w))"

text \<open>The last four handlers return \<open>true\<close> when they succeed, which is taken for an error.\<close>

definition run_command :: "env \<Rightarrow> int \<Rightarrow> int \<Rightarrow> int \<Rightarrow> byte list \<Rightarrow> int \<Rightarrow> koid \<Rightarrow> (int \<times> koid) res" where
  "run_command env handle command request_num databuf datalen w =
     (if command = CM_CM_SIG_CONNEC_REQ
        then ret_int (process_command_connect_req env handle request_num databuf datalen w)
      else if command = CM_CM_SIG_SEND_REQ
        then ret_int (process_command_send_req env handle request_num databuf datalen w)
      else if command = CM_CM_SIG_RECV_REQ
        then ret_int (process_command_recv_req env handle request_num databuf datalen w)
      else if command = CM_CM_SIG_CLOSE_REQ
        then ret_int (process_command_close_req env handle request_num databuf datalen w)
      else if command = CM_CM_SIG_WAIT_REQ
        then ret_int (process_command_wait_req env handle request_num databuf datalen w)
      else if command = CM_CM_SIG_SOCKINFO_REQ
        then ret_int (process_command_sockinfo_req env handle request_num databuf datalen w)
      else if command = CM_CM_SIG_DATAINFO_REQ
        then ret_int (process_command_datainfo_req env handle request_num databuf datalen w)
      else if command = CM_CM_SIG_FLUSH_REQ
        then ret_flag (process_command_flush_req env handle request_num databuf datalen w)
      else if command = CM_CM_SIG_TLS_SETUP_REQ
        then ret_flag (process_command_tls_setup_req env handle request_num databuf datalen w)
      else if command = CM_CM_SIG_TLS_CLEAR_REQ
        then ret_flag (process_command_tls_clear_req env handle request_num databuf datalen w)
      else if command = CM_CM_SIG_PARSER_ATTACH_REQ
        then ret_flag (process_command_parser_attach_req env handle request_num databuf datalen w)
      else Inr (RETURN_NG, w))"

text \<open>The log message reads \<open>Service[(command & 0xf) - 1]\<close>, an array of 11.\<close>

definition process_si_type_unixd_data :: "env \<Rightarrow> int \<Rightarrow> koid \<Rightarrow> (int \<times> koid) res" where
  "process_si_type_unixd_data env handle w =
     bind_res (read_unixd_data (e_databuf env) CM_MAX_CM_LENGTH (e_read env)) (\<lambda>(datalen, databuf, _).
       if datalen < 0 then Inr (RETURN_NG, w)
       else if datalen = 0 then unixd_hangup env handle w
       else let command = get16 databuf 0; request_num = get16 databuf 2 in
         if command mod 16 < 1 \<or> command mod 16 > 11 then Inl OutOfBounds
         else run_command env handle command request_num databuf datalen w)"

text \<open>A failing \<open>accept\<close> is not noticed: the socket is registered with the descriptor \<open>-1\<close>.\<close>

definition process_si_type_unixd :: "env \<Rightarrow> int \<Rightarrow> koid \<Rightarrow> (int \<times> koid) res" where
  "process_si_type_unixd env handle w =
     (let (fd, _) = e_accept env in
      bind_res (kSocketRegistUnixdSocketInfo (fst (e_malloc env 0)) (snd (e_malloc env 0)) SI_TYPE_UNIX_DATA fd
          (Some (e_accept_path env)) (w_sk w)) (\<lambda>(_, sk).
      bind_res (kSocketSelectOperation fd SELECT_IN sk) (\<lambda>(_, sk).
        Inr (RETURN_OK, w\<lparr>w_sk := sk\<rparr>))))"

definition process_unixd :: "env \<Rightarrow> int \<Rightarrow> int \<Rightarrow> koid \<Rightarrow> (int \<times> koid) res" where
  "process_unixd env handle type w =
     (if type = SI_TYPE_UNIX then ret_int (process_si_type_unixd env handle w)
      else if type = SI_TYPE_UNIX_DATA then ret_int (process_si_type_unixd_data env handle w)
      else Inr (RETURN_NG, w))"

lemmas unixd_defs [koi_simps] = read_at_def read_with_data_def read_unixd_data_def unixd_hangup_def
  ret_int_def ret_flag_def run_command_def process_si_type_unixd_data_def process_si_type_unixd_def process_unixd_def

section \<open>Reading: lemmas\<close>

lemma ulong_of_id [simp]: "0 \<le> x \<Longrightarrow> x < 4294967296 \<Longrightarrow> ulong_of x = x"
  by (simp add: ulong_of_def)

lemma read_at_ok:
  assumes "sys_read (nat (ulong_of n)) st = (Some bs, st')" "bs \<noteq> []" "datalen + length bs \<le> length buff"
  shows "read_at n buff (int datalen) st =
     Inr (int (length bs), take datalen buff @ bs @ drop (datalen + length bs) buff, st')"
  using assms by (simp add: read_at_def)

text \<open>When the data comes in non-empty pieces, the loop puts them together.\<close>

lemma read_loop_pieces:
  assumes "\<forall>p \<in> set ps. p \<noteq> []" "datalen + length (concat ps) = need" "need \<le> room"
    and "room \<le> length buff" "room < 2147483648"
  shows "\<exists>buff'. read_loop (int room) (int need) buff (int datalen) (map Some ps) = Inr (int need, buff', []) \<and>
     length buff' = length buff \<and> take need buff' = take datalen buff @ concat ps"
  using assms
proof (induction ps arbitrary: buff datalen)
  case Nil
  then show ?case by (simp add: read_loop.simps)
next
  case (Cons p ps)
  let ?b = "take datalen buff @ p @ drop (datalen + length p) buff"
  have "sys_read (nat (ulong_of (int room - int datalen))) (Some p # map Some ps) = (Some p, map Some ps)"
    using Cons.prems by simp
  with Cons.prems have run: "read_at (int room - int datalen) buff (int datalen) (map Some (p # ps)) =
      Inr (int (length p), ?b, map Some ps)" by (subst read_at_ok) auto
  from Cons.prems have lt: "0 < length p" "datalen < need" by auto
  with run Cons.prems have "read_loop (int room) (int need) buff (int datalen) (map Some (p # ps)) =
      read_loop (int room) (int need) ?b (int (datalen + length p)) (map Some ps)"
    by (subst read_loop.simps) simp
  with Cons.IH [of "datalen + length p" ?b] Cons.prems show ?case
    by (simp add: take_append)
qed

text \<open>Whatever comes, the loop stays within the struct.\<close>

lemma read_at_within:
  assumes "0 \<le> d" "d + n \<le> int (length buff)" "0 \<le> n" "n < 4294967296"
  shows "\<exists>len buff' st'. read_at n buff d st = Inr (len, buff', st') \<and> -1 \<le> len \<and> len \<le> n \<and>
     length buff' = length buff"
proof -
  obtain r st' where r: "sys_read (nat (ulong_of n)) st = (r, st')" by (cases "sys_read (nat (ulong_of n)) st")
  have "length bs \<le> nat n" if "r = Some bs" for bs
    using sys_read_bytes [OF r [unfolded that]] assms by simp
  with r assms show ?thesis by (cases r) (auto simp: read_at_def)
qed

lemma read_loop_within:
  assumes "0 \<le> d" "d \<le> room" "room \<le> int (length buff)" "room < 2147483648"
  shows "\<exists>d' buff' st'. read_loop room need buff d st = Inr (d', buff', st') \<and> d \<le> d' \<and> d' \<le> room \<and>
     length buff' = length buff"
  using assms
proof (induction room need buff d st rule: read_loop.induct)
  case (1 room need buff d st)
  from 1(2-5) read_at_within [of d "room - d" buff st] obtain len b st1
    where run: "read_at (room - d) buff d st = Inr (len, b, st1)" "-1 \<le> len" "len \<le> room - d" "length b = length buff"
    by auto
  show ?case
  proof (cases "ulong_of d < ulong_of need \<and> 0 < len")
    case False
    with run 1(2,3) show ?thesis by (auto simp: read_loop.simps)
  next
    case True
    with run 1(2-5) have "long_of (d + len) = d + len" by simp
    with True run 1(2-5) 1(1) [OF _ run(1) refl refl] show ?thesis
      by (subst read_loop.simps) force
  qed
qed

lemma be32_same: "take m a = take m b \<Longrightarrow> i + 4 \<le> m \<Longrightarrow> get32 a i = get32 b i"
proof -
  assume *: "take m a = take m b" and m: "i + 4 \<le> m"
  have "a ! j = b ! j" if "j < m" for j
    using * that nth_take [of j m a] nth_take [of j m b] by simp
  with m show ?thesis by (simp add: get32_def be32_def be16_def)
qed

lemma get16_same: "take m a = take m b \<Longrightarrow> i + 2 \<le> m \<Longrightarrow> get16 a i = get16 b i"
proof -
  assume *: "take m a = take m b" and m: "i + 2 \<le> m"
  have "a ! j = b ! j" if "j < m" for j
    using * that nth_take [of j m a] nth_take [of j m b] by simp
  with m show ?thesis by (simp add: get16_def be16_def)
qed

text \<open>The first two reads, when the fixed part comes in one piece.\<close>

lemma read_fixed_part:
  assumes p: "n \<le> length p" "2 < n" and buff: "n \<le> length buff" and n: "n < 1000"
  shows "\<exists>buff1 st1 buff2 ps'.
     read_at 2 buff 0 (Some p # map Some ps) = Inr (2, buff1, st1) \<and> take 2 buff1 = take 2 p \<and>
     read_at (int n - 2) buff1 2 st1 = Inr (int n - 2, buff2, map Some ps') \<and>
     take n buff2 = take n p \<and> length buff2 = length buff \<and>
     concat ps' = drop n p @ concat ps \<and> ((\<forall>q \<in> set ps. q \<noteq> []) \<longrightarrow> (\<forall>q \<in> set ps'. q \<noteq> []))"
proof -
  let ?st1 = "Some (drop 2 p) # map Some ps"
  let ?b1 = "take 2 p @ drop 2 buff" and ?b2 = "take n p @ drop n buff"
  let ?ps = "if length p = n then ps else drop n p # ps"
  have two: "take 2 p \<noteq> []" "length (take 2 p) = 2" using p by (auto simp: min_def)
  have "read_at 2 buff (int 0) (Some p # map Some ps) =
      Inr (int (length (take 2 p)), take 0 buff @ take 2 p @ drop (0 + length (take 2 p)) buff, ?st1)"
    by (rule read_at_ok) (use p two buff in auto)
  then have r1: "read_at 2 buff 0 (Some p # map Some ps) = Inr (2, ?b1, ?st1)"
    using two by simp
  have rest: "take (n - 2) (drop 2 p) \<noteq> []" "length (take (n - 2) (drop 2 p)) = n - 2"
    using p by (auto simp: min_def)
  have "Suc (Suc (n - 2)) = n" using p by simp
  then have read: "sys_read (nat (ulong_of (int n - 2))) ?st1 = (Some (take (n - 2) (drop 2 p)), map Some ?ps)"
    using p n by (auto simp: nat_diff_distrib)
  have cat: "take 2 p @ take (n - 2) (drop 2 p) = take n p" using p take_add [of 2 "n - 2" p] le_add_diff_inverse [of 2 n] by (simp only: less_imp_le)
  have "read_at (int n - 2) ?b1 (int 2) ?st1 = Inr (int (length (take (n - 2) (drop 2 p))),
      take 2 ?b1 @ take (n - 2) (drop 2 p) @ drop (2 + length (take (n - 2) (drop 2 p))) ?b1, map Some ?ps)"
    by (rule read_at_ok [OF read rest(1)]) (use p two buff rest in auto)
  moreover have "take 2 ?b1 @ take (n - 2) (drop 2 p) @ drop (2 + length (take (n - 2) (drop 2 p))) ?b1 = ?b2"
  proof -
    have n2: "2 + (n - 2) = n" using p by simp
    have "drop (2 + length (take (n - 2) (drop 2 p))) ?b1 = drop n buff"
      unfolding rest(2) n2 using p two(2) n2 by (simp del: length_take)
    moreover have "take 2 ?b1 = take 2 p" using two(2) by (simp del: length_take)
    ultimately show ?thesis by (simp only: cat append_assoc [symmetric])
  qed
  ultimately have r2: "read_at (int n - 2) ?b1 2 ?st1 = Inr (int n - 2, ?b2, map Some ?ps)"
    using p rest(2) by simp
  have t1: "take 2 ?b1 = take 2 p" using two(2) by (simp del: length_take)
  have t2: "take n ?b2 = take n p" "length ?b2 = length buff" using p buff by simp_all
  have cs: "concat ?ps = drop n p @ concat ps" by simp
  have ne: "(\<forall>q \<in> set ps. q \<noteq> []) \<longrightarrow> (\<forall>q \<in> set ?ps. q \<noteq> [])" using p by auto
  show ?thesis
    by (rule exI [of _ ?b1], rule exI [of _ ?st1], rule exI [of _ ?b2], rule exI [of _ ?ps])
      (use r1 r2 t1 t2 cs ne in blast)
qed

lemma read_with_data_within:
  assumes "n \<in> {12, 52}" "length buff = 65600"
  shows "\<exists>d b st'. read_with_data n buff 2 st = Inr (d, b, st') \<and> 0 \<le> d \<and> d \<le> 65600 \<and> length b = 65600"
proof -
  have "\<exists>len b st'. read_at (int n - 2) buff 2 st = Inr (len, b, st') \<and> -1 \<le> len \<and> len \<le> int n - 2 \<and>
      length b = length buff"
    by (rule read_at_within) (use assms in auto)
  then obtain len b st1 where r: "read_at (int n - 2) buff 2 st = Inr (len, b, st1)" "-1 \<le> len"
    "len \<le> int n - 2" "length b = 65600" using assms by auto
  show ?thesis
  proof (cases "len = int n - 2")
    case True
    have "\<exists>d' b' st'. read_loop (int n + MSG_MAXDATALEN) (int n + get32 b (n - 4)) b (int n) st1 = Inr (d', b', st') \<and>
        int n \<le> d' \<and> d' \<le> int n + MSG_MAXDATALEN \<and> length b' = length b"
      by (rule read_loop_within) (use assms r in \<open>auto simp: MSG_MAXDATALEN_def\<close>)
    with True r assms show ?thesis by (auto simp: read_with_data_def Let_def MSG_MAXDATALEN_def)
  next
    case False
    with r assms show ?thesis by (auto simp: read_with_data_def Let_def)
  qed
qed

section \<open>Properties\<close>

text \<open>
  C16: A connect or send command arrives whole however the stream cuts its data, as long as the fixed
  part of the struct comes in the first piece: the buffer then begins with the bytes of the command
  and their number is returned.
\<close>

theorem read_unixd_data_reassembles:
  assumes cmd: "(get16 cmd 0, n) \<in> {(CM_CM_SIG_CONNEC_REQ, 52), (CM_CM_SIG_SEND_REQ, 12)}"
    and len: "int (length cmd) = int n + get32 cmd (n - 4)" "length cmd \<le> n + 65536"
    and ps: "concat (p # ps) = cmd" "n \<le> length p" "\<forall>q \<in> set ps. q \<noteq> []"
    and buff: "length buff = 65600"
  shows "\<exists>buff'. read_unixd_data buff CM_MAX_CM_LENGTH (map Some (p # ps)) = Inr (int (length cmd), buff', []) \<and>
     take (length cmd) buff' = cmd"
proof -
  from cmd have n: "2 < n" "n < 1000" "n \<le> 52" "n \<le> length buff" using buff by auto
  from read_fixed_part [OF ps(2) n(1) n(4) n(2), of ps] ps(3) obtain b1 st1 b2 ps' where
    r1: "read_at 2 buff 0 (map Some (p # ps)) = Inr (2, b1, st1)" and t1: "take 2 b1 = take 2 p"
    and r2: "read_at (int n - 2) b1 2 st1 = Inr (int n - 2, b2, map Some ps')"
    and t2: "take n b2 = take n p" "length b2 = length buff" and cs: "concat ps' = drop n p @ concat ps"
    and ne: "\<forall>q \<in> set ps'. q \<noteq> []" by auto
  have pre: "take n cmd = take n p" using ps(1,2) by auto
  with t2 have t: "take n b2 = take n cmd" by simp
  have c0: "get16 b1 0 = get16 cmd 0"
    using t1 pre ps n by (intro get16_same [of 2]) auto
  have "n \<le> length cmd" using ps by auto
  have g: "get32 b2 (n - 4) = get32 cmd (n - 4)" by (rule be32_same [OF t]) (use cmd in auto)
  have all: "take n b2 @ concat ps' = cmd" using cs t2 ps(1,2) by auto
  have cat: "n + length (concat ps') = length cmd" using cs ps(1,2) by auto
  have "\<exists>b3. read_loop (int (n + 65536)) (int (length cmd)) b2 (int n) (map Some ps') = Inr (int (length cmd), b3, []) \<and>
      length b3 = length b2 \<and> take (length cmd) b3 = take n b2 @ concat ps'"
    by (rule read_loop_pieces) (use ne cat len(2) t2 buff n in auto)
  then obtain b3 where r3: "read_loop (int n + MSG_MAXDATALEN) (int n + get32 b2 (n - 4)) b2 (int n) (map Some ps') =
      Inr (int (length cmd), b3, [])" "take (length cmd) b3 = cmd"
    using g len(1) all by (auto simp: MSG_MAXDATALEN_def)
  have "read_with_data n b1 2 st1 = Inr (int (length cmd), b3, [])"
    using r2 r3(1) n by (simp add: read_with_data_def)
  with cmd r1 c0 r3(2) show ?thesis
    by (auto simp: read_unixd_data_def Let_def cm_reqs)
qed

theorem read_unixd_data_reassembles_witness:
  "\<exists>b. read_unixd_data (replicate 65600 0) CM_MAX_CM_LENGTH
       [Some (put16 258 @ put16 1 @ put16 3 @ [0, 0] @ put32 2 @ [7]), Some [8]] = Inr (14, b, []) \<and>
     take 14 b = put16 258 @ put16 1 @ put16 3 @ [0, 0] @ put32 2 @ [7, 8]"
proof -
  let ?p = "put16 258 @ put16 1 @ put16 3 @ [0, 0] @ put32 2 @ [7]"
  have "get16 (?p @ [8]) 0 = 258" "get32 (?p @ [8]) 8 = 2" by code_simp+
  then show ?thesis
    using read_unixd_data_reassembles [of "?p @ [8]" 12 ?p "[[8]]" "replicate 65600 0"]
    by (simp add: cm_reqs)
qed

text \<open>
  C17: Reading a command never leaves the buffer: if only the first \<open>read\<close> does not fail, the rest of
  the stream may hold anything, errors, short pieces and wrong lengths included, and the result is a
  length between 0 and the size of the buffer.
\<close>

theorem read_unixd_data_within:
  assumes "length buff = 65600" "st = [] \<or> hd st \<noteq> None"
  shows "\<exists>d b st'. read_unixd_data buff CM_MAX_CM_LENGTH st = Inr (d, b, st') \<and>
     0 \<le> d \<and> d \<le> CM_MAX_CM_LENGTH \<and> length b = 65600"
proof -
  have "\<exists>len b st'. read_at 2 buff 0 st = Inr (len, b, st') \<and> -1 \<le> len \<and> len \<le> 2 \<and> length b = length buff"
    by (rule read_at_within) (use assms in auto)
  moreover have "\<not> (\<exists>b st'. read_at 2 buff 0 st = Inr (-1, b, st'))"
    using assms(2) by (cases "(2 :: nat, st)" rule: sys_read.cases)
      (auto simp: read_at_def bind_res_eq_Inr split: if_splits)
  ultimately obtain len b st1 where r: "read_at 2 buff 0 st = Inr (len, b, st1)" "0 \<le> len" "len \<le> 2"
    "length b = 65600" using assms(1) by (metis add.commute le_less zless_imp_add1_zle add.left_inverse)
  show ?thesis
  proof (cases "len = 2")
    case True
    have "\<exists>l b' st'. read_at 65598 b 2 st1 = Inr (l, b', st') \<and> -1 \<le> l \<and> l \<le> 65598 \<and> length b' = length b"
      by (rule read_at_within) (use r in auto)
    with True r read_with_data_within [of 12 b st1] read_with_data_within [of 52 b st1] show ?thesis
      by (auto simp: read_unixd_data_def Let_def CM_MAX_CM_LENGTH_def)
  next
    case False
    with r show ?thesis by (auto simp: read_unixd_data_def CM_MAX_CM_LENGTH_def)
  qed
qed

theorem read_unixd_data_within_witness:
  "\<exists>d b st'. read_unixd_data (replicate 65600 0) CM_MAX_CM_LENGTH
       [Some (put16 258 @ replicate 6 0 @ put32 (-1) @ [7]), None] = Inr (d, b, st') \<and> d \<le> CM_MAX_CM_LENGTH"
  using read_unixd_data_within [of "replicate 65600 0" "[Some (put16 258 @ replicate 6 0 @ put32 (-1) @ [7]), None]"]
  by auto

text \<open>
  The structs the other commands are copied to are as small as their fields: a receive, close,
  wait, socket, data, flush, TLS or parser command that is longer overflows the handler's stack.
\<close>

theorem requests_overflow:
  assumes "datalen \<le> int (length databuf)" "int n < datalen"
    and "(c, n) \<in> {(CM_CM_SIG_RECV_REQ, RECV_REQ), (CM_CM_SIG_CLOSE_REQ, CLOSE_REQ), (CM_CM_SIG_WAIT_REQ, WAIT_REQ),
      (CM_CM_SIG_SOCKINFO_REQ, SOCKINFO_REQ), (CM_CM_SIG_DATAINFO_REQ, DATAINFO_REQ), (CM_CM_SIG_FLUSH_REQ, FLUSH_REQ),
      (CM_CM_SIG_TLS_SETUP_REQ, TLS_SETUP_REQ), (CM_CM_SIG_TLS_CLEAR_REQ, TLS_CLEAR_REQ),
      (CM_CM_SIG_PARSER_ATTACH_REQ, PARSER_ATTACH_REQ)}"
  shows "run_command env handle c request_num databuf datalen w = Inl BufferOverflow"
proof -
  have "req_copy n databuf datalen = Inl BufferOverflow"
    using assms(1,2) by (auto simp: req_copy_def cmemcpy_def nat_less_iff zless_nat_eq_int_zless)
  with assms(3) show ?thesis
    by (auto simp: run_command_def cm_reqs ret_int_def ret_flag_def process_command_recv_req_def
        process_command_close_req_def process_command_wait_req_def process_command_sockinfo_req_def
        process_command_datainfo_req_def process_command_flush_req_def process_command_tls_setup_req_def
        process_command_tls_clear_req_def process_command_parser_attach_req_def)
qed

theorem requests_overflow_witness:
  "run_command (demo_env []) 7 CM_CM_SIG_RECV_REQ 1 (replicate 9 0) 9 demo_koid = Inl BufferOverflow"
  by (rule requests_overflow [of _ _ RECV_REQ]) (simp_all add: RECV_REQ_def)

end
