(* ===== verification/KListen.thy ===== *)
theory KListen
  imports KUnixd
begin

text \<open>
  Connections from the network, and the dispatcher: \<open>udpaccept\<close>, \<open>process_si_type_listen\<close> and
  \<open>kDispatcherProc\<close> of \<open>lib/kDispatcher\<close>.
\<close>

section \<open>Accepting a peer of a UDP socket\<close>

definition IPPROTO_IP :: int where "IPPROTO_IP = 0"
definition IPPROTO_IPV6 :: int where "IPPROTO_IPV6 = 41"
definition IP_RECVDSTADDR :: int where "IP_RECVDSTADDR = 7"
definition IPV6_PKTINFO :: int where "IPV6_PKTINFO = 46"

text \<open>An address the kernel writes into a zeroed \<open>sockaddr_storage\<close>, cut to \<open>sizeof(struct sockaddr_in6)\<close>.\<close>

definition store_addr :: "sockaddr \<Rightarrow> sockaddr" where
  "store_addr a = take 28 a @ replicate (128 - length (take 28 a)) 0"

text \<open>The destination address of a datagram, from its control messages, in \<open>dstaddr[32]\<close>.\<close>

fun udp_dstaddr :: "(int \<times> int \<times> byte list) list \<Rightarrow> byte list \<Rightarrow> byte list res" where
  "udp_dstaddr [] dstaddr = Inr dstaddr"
| "udp_dstaddr ((level, type, d) # ms) dstaddr =
     bind_res (if level = IPPROTO_IP \<and> type = IP_RECVDSTADDR then cmemcpy dstaddr 0 d 4
               else if level = IPPROTO_IPV6 \<and> type = IPV6_PKTINFO then cmemcpy dstaddr 0 d 16
               else Inr dstaddr) (udp_dstaddr ms)"

text \<open>The address to bind: the listener's port, the address the datagram came to, the sender's scope.\<close>

definition udp_src :: "sockaddr \<Rightarrow> byte list \<Rightarrow> sockaddr \<Rightarrow> sockaddr res" where
  "udp_src own dstaddr peer =
     (if ss_family own = AF_INET then cmemcpy own 4 dstaddr 4
      else if ss_family own = AF_INET6 then
        bind_res (cmemcpy own 8 dstaddr 16) (\<lambda>src. cmemcpy src 24 (drop 24 peer) 4)
      else Inr own)"

text \<open>
  \<open>udpaccept\<close>: the new descriptor or \<open>-1\<close>, the sender, the datagram, the socket table. A datagram
  without data counts as a failure.
\<close>

definition udpaccept :: "env \<Rightarrow> int \<Rightarrow> ksocket \<Rightarrow> (int \<times> sockaddr \<times> byte list \<times> ksocket) res" where
  "udpaccept env fd s =
     (case e_udp env of
        None \<Rightarrow> Inr (-1, replicate 128 0, [], s)
      | Some (bytes, peer, cmsgs) \<Rightarrow>
          let y = e_sys env; buf = take (nat MSG_MAXDATALEN + 1) bytes; peer = store_addr peer;
              fail = Inr (-1, peer, buf, s) in
          if buf = [] then fail
          else bind_res (udp_dstaddr cmsgs (replicate 32 0)) (\<lambda>dstaddr.
            case e_getsockname env fd of
              None \<Rightarrow> fail
            | Some own \<Rightarrow> bind_res (udp_src own dstaddr peer) (\<lambda>src.
                if \<not> y_nameinfo y src then fail
                else let udpfd = y_socket y 0 in
                  if udpfd < 0 then fail
                  else if (ss_family src = AF_INET6 \<longrightarrow> y_sockopt y udpfd ''IPV6_FAITH'') \<and>
                      list_all (y_sockopt y udpfd) [''SO_REUSEPORT'', ''SO_REUSEADDR'', ''SO_SNDBUF'', ''SO_RCVBUF''] \<and>
                      y_bind y udpfd src \<and> y_connect y udpfd peer
                  then Inr (udpfd, peer, buf, s)
                  else Inr (-1, peer, buf, sys_close udpfd s))))"

section \<open>Listening sockets\<close>

text \<open>
  The steps after the new descriptor, with the sender \<open>dst\<close> and, for UDP, its first datagram. The
  error exits leave the descriptor open.
\<close>

definition listen_child :: "env \<Rightarrow> int \<Rightarrow> int \<Rightarrow> int \<Rightarrow> sockaddr \<Rightarrow> byte list \<Rightarrow> koid \<Rightarrow> (int \<times> koid) res" where
  "listen_child env handle type fd dst recvbuf w =
     (case e_getsockname env fd of
        None \<Rightarrow> Inr (-1, w)
      | Some src \<Rightarrow>
        if \<not> y_nameinfo (e_sys env) src \<or> \<not> y_nameinfo (e_sys env) dst then Inr (-1, w)
        else bind_res (kSocketGetSIBySocketHandle handle
            (if type = SI_TYPE_LISTEN_UDP then zero_bufs\<lparr>b_unixd := None, b_listen := None\<rparr>
             else zero_bufs\<lparr>b_unixd := None, b_data := None\<rparr>) (w_sk w)) (\<lambda>(ret, b).
          if ret < 0 then Inr (RETURN_NG, w)
          else let si = the (b_socketinfo b) in
          case kParserGet (si_peyload_type si) (w_parser w) of
            None \<Rightarrow> Inr (RETURN_NG, w)
          | Some parser \<Rightarrow>
            bind_res (if si_tls_mode si \<noteq> 0 then kTLSAccept (e_ssl env) (w_tls w) (w_sk w)
                      else Inr (RETURN_OK, None, w_sk w)) (\<lambda>(tls, ssl, sk).
            if tls \<noteq> 0 then Inr (RETURN_NG, w\<lparr>w_sk := sk\<rparr>)
            else let child = (if type = SI_TYPE_LISTEN_TCP then SI_TYPE_DATA else SI_TYPE_UDP);
                af = (if child = SI_TYPE_DATA then li_family (the (b_listen b)) else di_family (the (b_data b))) in
              bind_res (kSocketRegistDataSocketInfo (fst (e_malloc env 0)) (snd (e_malloc env 0)) child fd
                  (Some (si_linkname si)) (si_peyload_type si) src dst parser (si_socketid si) af (si_tls_mode si)
                  ssl sk) (\<lambda>(newid, sk).
              bind_res (kSocketSelectOperation fd SELECT_IN sk) (\<lambda>(_, sk).
                let w = w\<lparr>w_sk := sk\<rparr> in
                if type = SI_TYPE_LISTEN_UDP \<and> newid > 0 then
                  bind_res (regist_recv env (e_malloc env 1) newid (int (length recvbuf)) recvbuf w)
                    (\<lambda>w. Inr (RETURN_OK, w))
                else Inr (RETURN_OK, w))))))"

definition process_si_type_listen :: "env \<Rightarrow> int \<Rightarrow> int \<Rightarrow> koid \<Rightarrow> (int \<times> koid) res" where
  "process_si_type_listen env handle type w =
     bind_res
       (if type = SI_TYPE_LISTEN_UDP then udpaccept env handle (w_sk w)
        else let (fd, peer) = e_accept env in Inr (fd, store_addr peer, [], w_sk w))
       (\<lambda>(fd, dst, recvbuf, sk). let w = w\<lparr>w_sk := sk\<rparr> in
         if fd < 0 then Inr (RETURN_NG, w) else listen_child env handle type fd dst recvbuf w)"

section \<open>The dispatcher\<close>

text \<open>
  The log message reads \<open>Type[type - 1]\<close>, an array of 6: for a raw socket, of type 7, that is
  beyond its end. The functions called ignore each other's results.
\<close>

definition kDispatcherProc :: "env \<Rightarrow> int \<Rightarrow> int \<Rightarrow> koid \<Rightarrow> (bool \<times> koid) res" where
  "kDispatcherProc env handle type w =
     (let done = (\<lambda>m. bind_res m (\<lambda>(_, w). Inr (True, w))) in
      if type < 1 \<or> type > 6 then Inl OutOfBounds
      else if type = SI_TYPE_UNIX \<or> type = SI_TYPE_UNIX_DATA then done (process_unixd env handle type w)
      else if type = SI_TYPE_UDP then done (process_si_type_udp env handle w)
      else if type = SI_TYPE_DATA then done (process_si_type_tcp env handle w)
      else if type = SI_TYPE_LISTEN_TCP \<or> type = SI_TYPE_LISTEN_UDP
        then done (process_si_type_listen env handle type w)
      else if type = SI_TYPE_RAW then done (process_si_type_raw env handle w)
      else Inr (False, w))"

lemmas listen_defs [koi_simps] = IPPROTO_IP_def IPPROTO_IPV6_def IP_RECVDSTADDR_def IPV6_PKTINFO_def
  store_addr_def udp_src_def udpaccept_def listen_child_def process_si_type_listen_def kDispatcherProc_def

end
