(* ===== verification/KMain.thy ===== *)
theory KMain
  imports KListen
begin

unbundle bit_operations_syntax

text \<open>
  The program \<open>koid\<close> (\<open>bin/koid/koid.c\<close>): its command line, the initialisation of the modules, and
  the main loop.
\<close>

section \<open>Command line\<close>

definition L_DATA :: int where "L_DATA = 4096"
definition L_SOCKET :: int where "L_SOCKET = 2048"
definition L_TIME :: int where "L_TIME = 1024"
definition L_BUFFER :: int where "L_BUFFER = 512"
definition L_INIT :: int where "L_INIT = 256"
definition L_CMD :: int where "L_CMD = 128"
definition L_PARSE :: int where "L_PARSE = 64"
definition L_DEBUG :: int where "L_DEBUG = 32"
definition L_INFO :: int where "L_INFO = 16"
definition L_TLS :: int where "L_TLS = 8"
definition L_IO :: int where "L_IO = 4"
definition L_WARNING :: int where "L_WARNING = 2"
definition L_ERROR :: int where "L_ERROR = 1"

lemmas log_levels = L_DATA_def L_SOCKET_def L_TIME_def L_BUFFER_def L_INIT_def L_CMD_def L_PARSE_def
  L_DEBUG_def L_INFO_def L_TLS_def L_IO_def L_WARNING_def L_ERROR_def

record koid_opts =
  o_loglevel :: int
  o_logfile :: "string option"
  o_deffile :: "string option"
  o_socketpath :: "string option"
  o_tlsmode :: bool
  o_passwd :: "string option"
  o_rootpem :: "string option"
  o_mypem :: "string option"
  o_dhpem :: "string option"
  o_enc :: "string option"
  o_version :: int
  o_nagle :: int
  o_clientveri :: int
  o_tmprsa :: int

definition opts_default :: koid_opts where
  "opts_default = \<lparr>o_loglevel = 0, o_logfile = None, o_deffile = None, o_socketpath = None,
     o_tlsmode = False, o_passwd = None, o_rootpem = None, o_mypem = None, o_dhpem = None, o_enc = None,
     o_version = 1, o_nagle = 1, o_clientveri = 1, o_tmprsa = 1\<rparr>"

text \<open>The levels that \<open>-l\<close> adds to those of errors and warnings.\<close>

definition level_flags :: "string \<Rightarrow> int option" where
  "level_flags arg = map_of [(''DEBUG'', L_ERROR OR L_WARNING OR L_DEBUG),
     (''SOCKET'', L_ERROR OR L_WARNING OR L_SOCKET), (''DATA'', L_ERROR OR L_WARNING OR L_DATA),
     (''TIME'', L_ERROR OR L_WARNING OR L_TIME), (''BUFFER'', L_ERROR OR L_WARNING OR L_BUFFER),
     (''INIT'', L_ERROR OR L_WARNING OR L_INIT), (''INFO'', L_ERROR OR L_WARNING OR L_INFO),
     (''COMMAND'', L_ERROR OR L_WARNING OR L_CMD), (''PARSE'', L_ERROR OR L_WARNING OR L_PARSE),
     (''TLS'', L_ERROR OR L_WARNING OR L_TLS), (''IO'', L_ERROR OR L_WARNING OR L_IO),
     (''WARNING'', L_ERROR OR L_WARNING), (''ERROR'', L_ERROR)] arg"

definition yes_no :: "string \<Rightarrow> int \<Rightarrow> int" where
  "yes_no arg old = (if arg \<in> {''YES'', ''yes''} then 1 else if arg \<in> {''NO'', ''no''} then 0 else old)"

definition ssl_version :: "string \<Rightarrow> int option" where
  "ssl_version arg = map_of [(''SSLv2'', 2), (''v2'', 2), (''SSLv23'', 23), (''v23'', 23), (''SSLv3'', 3),
     (''v3'', 3), (''TLSv1'', 1), (''tls'', 1)] arg"

text \<open>
  One option; \<open>None\<close> when the program ends there. \<open>getopt\<close> gives a question mark for a letter that is not in
  its list, which the last branch treats.
\<close>

definition OPTSTRING :: string where "OPTSTRING = ''f:l:d:p:sVP:r:m:v:h:''"

definition getopt_char :: "char \<Rightarrow> char" where
  "getopt_char ch = (if ch \<in> set OPTSTRING \<and> ch \<noteq> CHR '':'' then ch else CHR ''?'')"

definition koid_option :: "char \<Rightarrow> string \<Rightarrow> koid_opts \<Rightarrow> koid_opts option" where
  "koid_option ch arg o1 = (let ch = getopt_char ch in
     if ch = CHR ''d'' then Some (o1\<lparr>o_deffile := Some arg\<rparr>)
     else if ch = CHR ''f'' then Some (o1\<lparr>o_logfile := Some arg\<rparr>)
     else if ch = CHR ''l'' then map_option (\<lambda>f. o1\<lparr>o_loglevel := o_loglevel o1 OR f\<rparr>) (level_flags arg)
     else if ch = CHR ''p'' then Some (o1\<lparr>o_socketpath := Some arg\<rparr>)
     else if ch = CHR ''s'' then Some (o1\<lparr>o_tlsmode := True\<rparr>)
     else if ch = CHR ''P'' then Some (o1\<lparr>o_passwd := Some arg\<rparr>)
     else if ch = CHR ''r'' then Some (o1\<lparr>o_rootpem := Some arg\<rparr>)
     else if ch = CHR ''m'' then Some (o1\<lparr>o_mypem := Some arg\<rparr>)
     else if ch = CHR ''h'' then Some (o1\<lparr>o_dhpem := Some arg\<rparr>)
     else if ch = CHR ''n'' then Some (o1\<lparr>o_nagle := yes_no arg (o_nagle o1)\<rparr>)
     else if ch = CHR ''c'' then Some (o1\<lparr>o_clientveri := yes_no arg (o_clientveri o1)\<rparr>)
     else if ch = CHR ''e'' then Some (o1\<lparr>o_enc := Some arg\<rparr>)
     else if ch = CHR ''t'' then Some (o1\<lparr>o_tmprsa := yes_no arg (o_tmprsa o1)\<rparr>)
     else if ch = CHR ''v'' then map_option (\<lambda>v. o1\<lparr>o_version := v\<rparr>) (ssl_version arg)
     else None)"

fun koid_options :: "(char \<times> string) list \<Rightarrow> koid_opts \<Rightarrow> koid_opts option" where
  "koid_options [] o1 = Some o1"
| "koid_options ((ch, arg) # rest) o1 = Option.bind (koid_option ch arg o1) (koid_options rest)"

section \<open>Initialisation\<close>

text \<open>
  \<open>fopen\<close> and \<open>idx\<close> are the definition file's lines and the interfaces' scope ids, as in \<open>KIF\<close>. A module that
  fails ends the initialisation; \<open>kSocketInit\<close> and the timers cannot.
\<close>

definition initialize_modules :: "(string \<Rightarrow> string list option) \<Rightarrow> (string \<Rightarrow> int) \<Rightarrow> string option \<Rightarrow>
    koid \<Rightarrow> (bool \<times> koid) res" where
  "initialize_modules fopen idx deffile w =
     (let w = w\<lparr>w_sk := (w_sk w)\<lparr>g_readfds := {}, g_execfds := {}\<rparr>\<rparr> in
      bind_res (kDataInit (w_data w)) (\<lambda>(ok, kd). let w = w\<lparr>w_data := kd\<rparr> in
      if \<not> ok then Inr (False, w)
      else let (ret, sk) = kSocketInit (w_sk w); w = w\<lparr>w_sk := sk\<rparr> in
      if ret < 0 then Inr (False, w)
      else bind_res (kIFInit fopen idx deffile (w_if w)) (\<lambda>(ok, ift). let w = w\<lparr>w_if := ift\<rparr> in
      if \<not> ok then Inr (False, w)
      else let (ret, ct) = kCloseTimerInit (w_close w); w = w\<lparr>w_close := ct\<rparr> in
      if ret < 0 then Inr (False, w)
      else bind_res (kBufferInit (w_buf w)) (\<lambda>(ok, kb). let w = w\<lparr>w_buf := kb\<rparr> in
      if \<not> ok then Inr (False, w)
      else bind_res (kRecvTimerInit (w_recv w)) (\<lambda>(ret, rt). let w = w\<lparr>w_recv := rt\<rparr> in
      if ret < 0 then Inr (False, w)
      else let (ok, pt) = kParserInit (w_parser w) in Inr (ok, w\<lparr>w_parser := pt\<rparr>))))))"

text \<open>What \<open>main\<close> does before its loop; false when it returns \<open>-1\<close>.\<close>

definition koid_start :: "(string \<Rightarrow> string list option) \<Rightarrow> (string \<Rightarrow> int) \<Rightarrow> env \<Rightarrow> koid_opts \<Rightarrow> koid \<Rightarrow>
    (bool \<times> koid) res" where
  "koid_start fopen idx env o1 w =
     bind_res (initialize_modules fopen idx (o_deffile o1) w) (\<lambda>(ok, w).
     if \<not> ok then Inr (False, w)
     else bind_res (kSocketOpenUnixdSocket (e_sys env) (o_socketpath o1) P_COMMAND (w_sk w)) (\<lambda>(ret, _, sk).
     let w = w\<lparr>w_sk := sk\<rparr> in
     if ret < 0 then Inr (False, w)
     else if \<not> o_tlsmode o1 then Inr (True, w)
     else let str = (\<lambda>p. case p of None \<Rightarrow> [] | Some t \<Rightarrow> t) in
       bind_res (kTLSInitialize (e_ssl env) 1 1 (str (o_passwd o1)) (str (o_rootpem o1)) (str (o_mypem o1))
         (str (o_dhpem o1)) (o_nagle o1) (o_tmprsa o1) (w_tls w) (w_sk w)) (\<lambda>(ret, t, sk).
         Inr (ret = 0, w\<lparr>w_tls := t, w_sk := sk\<rparr>))))"

section \<open>The main loop\<close>

definition koid_timers :: "env \<Rightarrow> koid \<Rightarrow> koid res" where
  "koid_timers env w =
     bind_res (kCloseTimerProc (e_close env) (e_locals env) (e_now env) (w_close w) (w_sk w)) (\<lambda>(_, ct, sk).
     let w = w\<lparr>w_close := ct, w_sk := sk\<rparr> in
     bind_res (kRecvTimerProc (w_sk w) (e_write env) (e_now env) (w_recv w) (w_data w) (w_out w))
       (\<lambda>(_, rt, kd, out). Inr (w\<lparr>w_recv := rt, w_data := kd, w_out := out\<rparr>)))"

definition koid_select :: "env \<Rightarrow> koid \<Rightarrow> int \<times> koid" where
  "koid_select env w =
     (let (ret, fds) = e_select env (g_readfds (w_sk w)) in (ret, w\<lparr>w_sk := (w_sk w)\<lparr>g_execfds := fds\<rparr>\<rparr>))"

text \<open>One round; the result of the dispatcher is ignored.\<close>

definition koid_round :: "env \<Rightarrow> koid \<Rightarrow> koid res" where
  "koid_round env w =
     bind_res (koid_timers env w) (\<lambda>w.
     let (ret, w) = koid_select env w in
     if ret \<le> 0 then Inr w
     else case kSocketGetSelectedHandle True True (w_sk w) of
       (ret, None) \<Rightarrow> Inr w
     | (ret, Some (handle, type)) \<Rightarrow>
         bind_res (kDispatcherProc env handle type w) (\<lambda>(_, w). Inr w))"

text \<open>Rounds until a signal sets \<open>terminate_process\<close>, and what follows the loop.\<close>

fun koid_loop :: "env list \<Rightarrow> koid \<Rightarrow> koid res" where
  "koid_loop [] w = Inr w"
| "koid_loop (env # envs) w = bind_res (koid_round env w) (koid_loop envs)"

definition koid_end :: "env \<Rightarrow> koid \<Rightarrow> koid res" where
  "koid_end env w =
     bind_res (kSocketClose (e_close env 0) (e_locals env) 0 (w_sk w)) (\<lambda>(_, sk).
     bind_res (kSocketClose (e_close env 1) (e_locals env) (-1) sk) (\<lambda>(_, sk). Inr (w\<lparr>w_sk := sk\<rparr>)))"

lemmas main_defs [koi_simps] = log_levels opts_default_def level_flags_def yes_no_def ssl_version_def
  OPTSTRING_def getopt_char_def koid_option_def initialize_modules_def koid_start_def koid_timers_def
  koid_select_def koid_round_def koid_end_def

end
