(* ===== verification/KStep.thy ===== *)
theory KStep
  imports KOpen
begin

text \<open>
  What every operation keeps of the socket table. Sockets are never taken out of it, their id, type and
  descriptor never change, a closed one stays closed, and ids are given in growing order, one at most
  per opening. The operations may fail or fault; \<open>res_all\<close> says what holds of a result there is.
\<close>

section \<open>Results that satisfy a predicate\<close>

definition res_all :: "('a \<Rightarrow> bool) \<Rightarrow> 'a res \<Rightarrow> bool" where
  "res_all P m \<longleftrightarrow> (\<forall>x. m = Inr x \<longrightarrow> P x)"

named_theorems keep "what the operations keep"

lemma res_all_value [simp]: "res_all P (Inr x) \<longleftrightarrow> P x" "res_all P (Inl e)"
  by (simp_all add: res_all_def)

lemma res_allD: "res_all P m \<Longrightarrow> m = Inr x \<Longrightarrow> P x"
  by (simp add: res_all_def)

lemma res_all_mono: "res_all Q m \<Longrightarrow> (\<And>x. Q x \<Longrightarrow> P x) \<Longrightarrow> res_all P m"
  by (auto simp: res_all_def)

lemma res_all_bind: "res_all Q m \<Longrightarrow> (\<And>x. Q x \<Longrightarrow> res_all P (f x)) \<Longrightarrow> res_all P (bind_res m f)"
  by (cases m) auto

lemma res_all_bind_any: "(\<And>x. res_all P (f x)) \<Longrightarrow> res_all P (bind_res m f)"
  by (cases m) auto

lemma res_all_if: "(c \<Longrightarrow> res_all P a) \<Longrightarrow> (\<not> c \<Longrightarrow> res_all P b) \<Longrightarrow> res_all P (if c then a else b)"
  by simp

lemma res_all_option: "(x = None \<Longrightarrow> res_all P a) \<Longrightarrow> (\<And>y. x = Some y \<Longrightarrow> res_all P (f y)) \<Longrightarrow>
    res_all P (case x of None \<Rightarrow> a | Some y \<Rightarrow> f y)"
  by (cases x) auto

lemma res_all_list: "(x = [] \<Longrightarrow> res_all P a) \<Longrightarrow> (\<And>y ys. x = y # ys \<Longrightarrow> res_all P (f y ys)) \<Longrightarrow>
    res_all P (case x of [] \<Rightarrow> a | y # ys \<Rightarrow> f y ys)"
  by (cases x) auto

lemma res_all_prod: "(\<And>a b. x = (a, b) \<Longrightarrow> res_all P (f a b)) \<Longrightarrow> res_all P (case x of (a, b) \<Rightarrow> f a b)"
  by (cases x) auto

lemmas res_all_split = res_all_if res_all_option res_all_list res_all_prod

section \<open>Steps of the socket table\<close>

definition entry_le :: "socket_info \<Rightarrow> socket_info \<Rightarrow> bool" where
  "entry_le a b \<longleftrightarrow> si_socketid b = si_socketid a \<and> si_type b = si_type a \<and>
     si_sockethandle b = si_sockethandle a \<and>
     (si_socket_status a = SI_STATUS_CLOSE \<longrightarrow> si_socket_status b = SI_STATUS_CLOSE)"

definition table_le :: "socket_info list \<Rightarrow> socket_info list \<Rightarrow> bool" where
  "table_le xs ys \<longleftrightarrow> (\<exists>us vs. ys = us @ vs \<and> list_all2 entry_le xs us)"

text \<open>\<open>n\<close> ids at most are given, provided there are as many left.\<close>

definition sk_step :: "nat \<Rightarrow> ksocket \<Rightarrow> ksocket \<Rightarrow> bool" where
  "sk_step n s s' \<longleftrightarrow> (ksocket_inv s \<and> g_socket_socketid s + int n \<le> SOCKET_MAXNUM \<longrightarrow>
     ksocket_inv s' \<and> g_socket_socketid s \<le> g_socket_socketid s' \<and>
     g_socket_socketid s' \<le> g_socket_socketid s + int n \<and> table_le (sk_table s) (sk_table s'))"

lemma entry_le_refl [simp]: "entry_le a a"
  by (simp add: entry_le_def)

lemma entry_le_trans: "entry_le a b \<Longrightarrow> entry_le b c \<Longrightarrow> entry_le a c"
  by (simp add: entry_le_def)

lemma entry_le_all [simp]: "list_all2 entry_le xs xs"
  by (simp add: list.rel_refl)

lemma table_le_refl [simp]: "table_le xs xs"
  unfolding table_le_def by (intro exI [of _ xs] exI [of _ "[]"]) simp

lemma table_le_append: "table_le xs (xs @ ys)"
  unfolding table_le_def by (intro exI [of _ xs] exI [of _ ys]) simp

lemma table_le_all2: "list_all2 entry_le xs ys \<Longrightarrow> table_le xs ys"
  unfolding table_le_def by (intro exI [of _ ys] exI [of _ "[]"]) simp

lemma table_le_trans:
  assumes "table_le xs ys" "table_le ys zs"
  shows "table_le xs zs"
proof -
  from assms obtain us vs ws qs where "ys = us @ vs" and xu: "list_all2 entry_le xs us"
    and zs: "zs = ws @ qs" and "list_all2 entry_le (us @ vs) ws" by (auto simp: table_le_def)
  then obtain us' vs' where ws: "ws = us' @ vs'" and uu: "list_all2 entry_le us us'"
    by (auto simp: list_all2_append1)
  have "list_all2 entry_le xs us'"
    by (rule list_all2_trans [OF _ xu uu]) (rule entry_le_trans)
  with zs ws show ?thesis unfolding table_le_def by (metis append_assoc)
qed

lemma table_le_set: "table_le xs ys \<Longrightarrow> a \<in> set xs \<Longrightarrow> \<exists>b \<in> set ys. entry_le a b"
  by (fastforce simp: table_le_def list_all2_conv_all_nth in_set_conv_nth nth_append)

lemma sk_step_refl [simp]: "sk_step n s s"
  by (simp add: sk_step_def)

lemma sk_step_mono: "sk_step m s s' \<Longrightarrow> m \<le> n \<Longrightarrow> sk_step n s s'"
  by (auto simp: sk_step_def)

lemma sk_step_trans: "sk_step m s s' \<Longrightarrow> sk_step n s' s'' \<Longrightarrow> sk_step (m + n) s s''"
  by (auto simp: sk_step_def intro: table_le_trans)

lemma sk_step_trans0: "sk_step m s s' \<Longrightarrow> sk_step 0 s' s'' \<Longrightarrow> sk_step m s s''"
  using sk_step_trans [of m s s' 0 s''] by simp

lemma sk_step_frame: "sk_table s' = sk_table s \<Longrightarrow> g_socket_socketid s' = g_socket_socketid s \<Longrightarrow> sk_step n s s'"
  by (simp add: sk_step_def ksocket_inv_def)

text \<open>Replacing one entry by one that is in order and refines it.\<close>

lemma sk_step_update:
  assumes "\<And>si. si \<in> set (sk_table s) \<Longrightarrow> si_ok si \<Longrightarrow> entry_le si (f si) \<and> si_ok (f si)"
    and "i < length (sk_table s)" "sk_table s' = (sk_table s)[i := f (sk_table s ! i)]"
    and "g_socket_socketid s' = g_socket_socketid s"
  shows "sk_step n s s'"
  unfolding sk_step_def
proof (intro impI conjI)
  assume inv: "ksocket_inv s \<and> g_socket_socketid s + int n \<le> SOCKET_MAXNUM"
  let ?si = "sk_table s ! i"
  have "?si \<in> set (sk_table s)" using assms(2) by simp
  moreover from this inv have "si_ok ?si" "1 \<le> si_socketid ?si" "si_socketid ?si \<le> g_socket_socketid s"
    by (auto simp: ksocket_inv_def)
  ultimately have le: "entry_le ?si (f ?si)" and ok: "si_ok (f ?si)"
    and r: "1 \<le> si_socketid (f ?si)" "si_socketid (f ?si) \<le> g_socket_socketid s"
    using assms(1) [of ?si] by (auto simp: entry_le_def)
  have "map si_socketid (sk_table s') = map si_socketid (sk_table s)"
    using le assms(2,3) by (intro nth_equalityI) (auto simp: nth_list_update entry_le_def)
  with inv ok r assms(3,4) show "ksocket_inv s'"
    by (auto simp: ksocket_inv_def dest!: set_update_subset_insert [THEN subsetD])
  show "table_le (sk_table s) (sk_table s')"
    using le assms(2,3) by (intro table_le_all2) (auto simp: list_all2_conv_all_nth nth_list_update)
qed (use assms in auto)

text \<open>A new entry with the next id, and an id that is given away for nothing.\<close>

lemma sk_step_append:
  assumes "si_ok si" "si_socketid si = short_of (g_socket_socketid s + 1)"
    and "sk_table s' = sk_table s @ [si]" "g_socket_socketid s' = short_of (g_socket_socketid s + 1)"
  shows "sk_step (Suc 0) s s'"
proof -
  have "ksocket_inv s'" if "ksocket_inv s" "g_socket_socketid s + 1 \<le> SOCKET_MAXNUM"
    using append_inv(1) [OF that(1), of si s'] next_id [OF that(1)] that(2) assms by simp
  then show ?thesis
    using next_id [of s] assms(3,4) by (auto simp: sk_step_def intro: table_le_append)
qed

lemma sk_step_waste:
  assumes "sk_table s' = sk_table s" "g_socket_socketid s' = short_of (g_socket_socketid s + 1)"
  shows "sk_step (Suc 0) s s'"
proof -
  have "ksocket_inv s'" if "ksocket_inv s" "g_socket_socketid s + 1 \<le> SOCKET_MAXNUM"
    using next_id [OF that(1)] that assms by (fastforce simp: ksocket_inv_def)
  then show ?thesis using next_id [of s] assms by (auto simp: sk_step_def)
qed

section \<open>Select list and status\<close>

lemma select_keep: "res_all (\<lambda>(_, s'). sk_table s' = sk_table s \<and> g_socket_socketid s' = g_socket_socketid s)
    (kSocketSelectOperation fd opt s)"
  by (simp add: kSocketSelectOperation_def)

lemma select_step [keep]: "sk_step m s0 s \<Longrightarrow> res_all (\<lambda>(_, s'). sk_step m s0 s') (kSocketSelectOperation fd opt s)"
  by (rule res_all_mono [OF select_keep]) (auto intro: sk_step_trans0 sk_step_frame)

lemma sys_close_step: "sk_step m s0 s \<Longrightarrow> sk_step m s0 (sys_close fd s)"
  by (erule sk_step_trans0) (auto simp: sys_close_def intro: sk_step_frame)

lemma closed_le: "si_ok si \<Longrightarrow> entry_le si (closed si) \<and> si_ok (closed si)"
  by (simp add: closed_si_ok entry_le_def)

lemma si_set_status_step: "i < length (sk_table s) \<Longrightarrow> sk_step n s (si_set_status i SI_STATUS_CLOSE s)"
  by (rule sk_step_update [where f = "\<lambda>si. closed si" and i = i]) (auto simp: si_set_status_def closed_le)

lemma si_loop_less: "si_loop loop P xs = Some i \<Longrightarrow> i < length xs"
  by (induction loop P xs arbitrary: i rule: si_loop.induct) (auto split: if_splits)

lemma make_close_step: "sk_step m s0 s \<Longrightarrow> sk_step m s0 (snd (kSocketMakeSocketStatusClose h s))"
  by (erule sk_step_trans0) (auto simp: kSocketMakeSocketStatusClose_def split: option.split
      dest: si_loop_less intro: si_set_status_step)

section \<open>Closing\<close>

lemma close_entry_step:
  assumes "i < length (sk_table s)"
  shows "res_all (\<lambda>s'. sk_step 0 s s' \<and> length (sk_table s') = length (sk_table s)) (close_entry i s)"
  unfolding close_entry_def Let_def
  by (rule res_all_bind [OF select_keep]) (use assms in \<open>auto simp: si_set_status_def
      intro!: sk_step_update [where f = "\<lambda>si. closed si" and i = i] simp: closed_le\<close>)

lemma close_pattern1_step0:
  "loop + length rest \<le> length (sk_table s) \<Longrightarrow> res_all (sk_step 0 s) (close_pattern1 cl loop rest s)"
proof (induction rest arbitrary: loop s)
  case (Cons si rest)
  have "res_all (sk_step 0 s) (bind_res (close_entry loop s) (close_pattern1 cl (Suc loop) rest))"
    by (rule res_all_bind [OF close_entry_step], use Cons.prems in simp,
        rule res_all_mono [OF Cons.IH]) (use Cons.prems in \<open>auto intro: sk_step_trans0\<close>)
  moreover have "res_all (sk_step 0 s) (close_pattern1 cl (Suc loop) rest s)"
    using Cons by simp
  ultimately show ?case by simp
qed simp

lemma close_pattern2_step0:
  "loop + length rest \<le> length (sk_table s) \<Longrightarrow> res_all (sk_step 0 s) (close_pattern2 cl i loop rest b s)"
proof (induction rest arbitrary: loop b s)
  case (Cons si rest)
  have "res_all (sk_step 0 s) (bind_res (close_entry loop s) (close_pattern2 cl i (Suc loop) rest b'))" for b'
    by (rule res_all_bind [OF close_entry_step], use Cons.prems in simp,
        rule res_all_mono [OF Cons.IH]) (use Cons.prems in \<open>auto intro: sk_step_trans0\<close>)
  moreover have "res_all (sk_step 0 s) (close_pattern2 cl i (Suc loop) rest b' s)" for b'
    using Cons by simp
  ultimately show ?case by (auto intro!: res_all_bind_any)
qed simp

lemma kSocketClose_step0: "res_all (\<lambda>(_, s'). sk_step 0 s s') (kSocketClose cl b i s)"
proof -
  have "res_all (\<lambda>(_, s'). sk_step 0 s s') (close_pattern3 cl i s)"
    by (auto simp: close_pattern3_def Let_def dest: si_loop_less intro!: res_all_split
        res_all_bind [OF close_entry_step])
  moreover have "res_all (\<lambda>(_, s'). sk_step 0 s s')
      (bind_res (close_pattern1 cl 0 (sk_table s) s) (\<lambda>s. Inr (RETURN_OK, s)))"
    by (rule res_all_bind [OF close_pattern1_step0]) simp_all
  moreover have "res_all (\<lambda>(_, s'). sk_step 0 s s')
      (bind_res (close_pattern2 cl i 0 (sk_table s) b' s) (\<lambda>s. Inr (RETURN_OK, s)))" for b'
    by (rule res_all_bind [OF close_pattern2_step0]) simp_all
  ultimately show ?thesis
    unfolding kSocketClose_def by (cases "i < 0") (auto intro!: res_all_bind_any simp del: return_codes(1))
qed

lemma kSocketClose_step [keep]:
  "sk_step m s0 s \<Longrightarrow> res_all (\<lambda>(_, s'). sk_step m s0 s') (kSocketClose cl b i s)"
  by (rule res_all_mono [OF kSocketClose_step0]) (auto intro: sk_step_trans0)

section \<open>TLS\<close>

lemma tls_cut_step: "tls_cut s s' \<Longrightarrow> sk_step n s s'"
proof -
  assume cut: "tls_cut s s'"
  then obtain f where f: "\<And>si. f si = si \<or> f si = si\<lparr>si_tls_ssl := None\<rparr>"
    and s': "s' = s\<lparr>sk_table := map f (sk_table s)\<rparr>" by (auto simp: tls_cut_def)
  have "entry_le si (f si)" for si
    by (cases "f si = si") (use f [of si] in \<open>auto simp: entry_le_def\<close>)
  then have "list_all2 entry_le (sk_table s) (sk_table s')"
    by (simp add: s' list_all2_conv_all_nth)
  then show ?thesis
    using tls_cut_inv [OF cut] by (auto simp: sk_step_def s' intro: table_le_all2)
qed

lemma TLSClose_step: "sk_step m s0 s \<Longrightarrow> sk_step m s0 (snd (TLSClose p clr t s))"
  by (erule sk_step_trans0) (rule tls_cut_step [OF tls_cut_TLSClose])

lemma tls_step [keep]:
  assumes "sk_step m s0 s"
  shows "res_all (\<lambda>(_, s'). sk_step m s0 s') (kTLSSend l p t s)"
    "res_all (\<lambda>(_, _, s'). sk_step m s0 s') (kTLSRecv l p t s)"
    "res_all (\<lambda>(_, s'). sk_step m s0 s') (kTLSConnect l p t s)"
    "res_all (\<lambda>(_, _, s'). sk_step m s0 s') (kTLSAccept l t s)"
  using assms by (auto simp: res_all_def dest!: tls_ops_cut intro: sk_step_trans0 tls_cut_step)

lemma TLSClose_pair: "TLSClose p clr t s = (t', s') \<Longrightarrow> sk_step m s0 s \<Longrightarrow> sk_step m s0 s'"
  using TLSClose_step [of m s0 s p clr t] by simp

lemma kTLSInitialize_step [keep]:
  "sk_step m s0 s \<Longrightarrow> res_all (\<lambda>(_, _, s'). sk_step m s0 s')
     (kTLSInitialize l mode initial pw root my dh nagle tmprsa t s)"
  unfolding kTLSInitialize_def Let_def
  by (intro res_all_split res_all_bind_any) (auto dest: TLSClose_pair split: if_splits prod.splits)

lemma kTLSClear_step [keep]:
  "sk_step m s0 s \<Longrightarrow> res_all (\<lambda>(_, _, s'). sk_step m s0 s') (kTLSClear i t s)"
  unfolding kTLSClear_def Let_def
  by (intro res_all_split res_all_bind_any) (auto dest: TLSClose_pair)

section \<open>Opening\<close>

text \<open>Steps that do not touch the state.\<close>

lemmas bind_pure = res_all_bind_any [of _ _ "cstrcpy n t" for n t]
  res_all_bind_any [of _ _ "cmemcpy d i b n" for d i b n]
  res_all_bind_any [of _ _ "cmemset d v n" for d v n]
  res_all_bind_any [of _ _ "open_names y f d s l t" for y f d s l t]
  res_all_bind_any [of _ _ "probe_srcaddr y h d" for y h d]
  res_all_bind_any [of _ _ "IsExistSameSocket t f p s" for t f p s]
  res_all_bind_any [of _ _ "kSocketTLSSession a b p s" for a b p s]
  res_all_bind_any [of _ _ "kSocketGetSIBySocketId i b s" for i b s]
  res_all_bind_any [of _ _ "kSocketGetSIBySocketHandle i b s" for i b s]

lemma sk_step_01: "sk_step 0 s s' \<Longrightarrow> sk_step (Suc 0) s s'"
  by (erule sk_step_mono) simp

lemma sk_step_new: "sk_step 0 s0 s \<Longrightarrow> sk_step (Suc 0) s s' \<Longrightarrow> sk_step (Suc 0) s0 s'"
  using sk_step_trans [of 0 s0 s "Suc 0" s'] by simp

lemma append_step:
  "sk_step 0 s0 s \<Longrightarrow> si_ok si \<Longrightarrow> si_socketid si = short_of (g_socket_socketid s + 1) \<Longrightarrow>
   sk_step (Suc 0) s0 (si_append si (s\<lparr>g_socket_socketid := short_of (g_socket_socketid s + 1)\<rparr>))"
  by (erule sk_step_new) (rule sk_step_append [of si], auto simp: si_append_def)

lemma waste_step:
  "sk_step 0 s0 s \<Longrightarrow> sk_step (Suc 0) s0 (s\<lparr>g_socket_socketid := short_of (g_socket_socketid s + 1)\<rparr>)"
  by (erule sk_step_new) (rule sk_step_waste, auto)

lemma waste_close_step: "sk_step 0 s0 s \<Longrightarrow>
    sk_step (Suc 0) s0 (sys_close fd (s\<lparr>g_socket_socketid := short_of (g_socket_socketid s + 1)\<rparr>))"
  by (intro sys_close_step waste_step)

lemma open_claim_step: "sk_step 0 s0 s \<Longrightarrow> res_all (\<lambda>(_, s'). sk_step 0 s0 s') (open_claim m fd s)"
  unfolding open_claim_def
  by (auto intro!: res_all_bind [OF select_step] res_all_split make_close_step sys_close_step)

lemma open_undo_step: "sk_step (Suc 0) s0 s \<Longrightarrow> res_all (\<lambda>(_, _, s'). sk_step (Suc 0) s0 s') (open_undo fd s)"
  unfolding open_undo_def
  by (auto intro!: res_all_bind [OF select_step] res_all_split sys_close_step)

lemma open_loop_step:
  "sk_step 0 s0 s \<Longrightarrow> res_all (\<lambda>(_, _, _, s'). sk_step 0 s0 s')
     (open_loop y l t tls mc bc dp link ift src k ais fd ssl s)"
proof (induction ais arbitrary: k fd ssl s tls)
  case (Cons a ais)
  show ?case
    using Cons.prems by (auto simp: Let_def intro!: Cons.IH res_all_split sys_close_step
        res_all_bind [OF tls_step(3)] bind_pure)
qed simp

lemma data_si_ok: "ty \<in> {SI_TYPE_UDP, SI_TYPE_DATA, SI_TYPE_LISTEN_UDP, SI_TYPE_RAW} \<Longrightarrow>
    si_ok \<lparr>si_type = ty, si_socketid = g, si_sockethandle = h, si_linkname = l,
      si_socket_status = SI_STATUS_ALIVE, si_uniq = DataI d, si_peyload_type = pt, si_tls_mode = tm,
      si_tls_ssl = ssl\<rparr>"
  by (auto simp: si_ok_def)

lemma open_register_step:
  assumes "type \<in> {SI_TYPE_UDP, SI_TYPE_DATA}" "sk_step 0 s0 s"
  shows "res_all (\<lambda>(_, _, s'). sk_step (Suc 0) s0 s') (open_register y pt type tls link pl ss ssl fd s)"
  unfolding open_register_def Let_def
  using assms
  by (auto intro!: res_all_bind [OF open_claim_step] res_all_split bind_pure open_undo_step
      append_step data_si_ok waste_close_step intro: sk_step_01)

lemma kSocketOpen_step:
  assumes "type \<in> {SI_TYPE_UDP, SI_TYPE_DATA}"
  shows "res_all (\<lambda>(_, _, s'). sk_step (Suc 0) s s')
     (kSocketOpen y l t ift pt type tls af dp da sp sa link pl fl idp s)"
  unfolding kSocketOpen_def Let_def
  using assms
  by (auto intro!: res_all_split bind_pure res_all_bind [OF open_loop_step [OF sk_step_refl]]
      open_register_step intro: sk_step_01)

lemma wait_loop_step:
  "sk_step 0 s0 s \<Longrightarrow> res_all (\<lambda>(_, _, s'). sk_step 0 s0 s') (wait_loop y ty mc bc k ais fd s)"
proof (induction ais arbitrary: k fd s mc)
  case (Cons a ais)
  show ?case
    using Cons.prems by (auto simp: Let_def intro!: Cons.IH res_all_split sys_close_step)
qed simp

lemma listen_si_ok: "si_ok \<lparr>si_type = SI_TYPE_LISTEN_TCP, si_socketid = g, si_sockethandle = h,
    si_linkname = l, si_socket_status = SI_STATUS_ALIVE, si_uniq = ListenI i, si_peyload_type = pt,
    si_tls_mode = tm, si_tls_ssl = ssl\<rparr>"
  by (simp add: si_ok_def)

lemma unixd_si_ok: "ty \<in> {SI_TYPE_UNIX, SI_TYPE_UNIX_DATA} \<Longrightarrow>
    si_ok \<lparr>si_type = ty, si_socketid = g, si_sockethandle = h,
    si_linkname = l, si_socket_status = SI_STATUS_ALIVE, si_uniq = UnixdI i, si_peyload_type = pt,
    si_tls_mode = tm, si_tls_ssl = ssl\<rparr>"
  by (auto simp: si_ok_def)

lemma listen_types [simp]: "SI_TYPE_LISTEN_TCP \<noteq> SI_TYPE_LISTEN_UDP" "SI_TYPE_LISTEN_UDP \<noteq> SI_TYPE_LISTEN_TCP"
  by (simp_all add: si_types)

lemma wait_register_step:
  assumes "sk_step 0 s0 s"
  shows "res_all (\<lambda>(_, _, s'). sk_step (Suc 0) s0 s') (wait_register y pt ty tls link pl ss fd s)"
  unfolding wait_register_def Let_def
  using assms
  by (auto intro!: res_all_bind [OF open_claim_step] res_all_split bind_pure open_undo_step
      append_step data_si_ok listen_si_ok waste_close_step intro: sk_step_01 waste_step)

lemma kSocketOpenWaitSocket_step:
  "res_all (\<lambda>(_, _, s'). sk_step (Suc 0) s s')
     (kSocketOpenWaitSocket y ift pt ty tls af sp sa link pl fl idp s)"
  unfolding kSocketOpenWaitSocket_def
  by (auto intro!: res_all_split bind_pure res_all_bind [OF wait_loop_step [OF sk_step_refl]]
      wait_register_step intro: sk_step_01)

lemma kSocketOpenUnixdSocket_step:
  "res_all (\<lambda>(_, _, s'). sk_step (Suc 0) s s') (kSocketOpenUnixdSocket y path pl s)"
  unfolding kSocketOpenUnixdSocket_def Let_def
  by (auto intro!: res_all_split bind_pure res_all_bind [OF open_claim_step [OF sk_step_refl]]
      open_undo_step append_step unixd_si_ok sys_close_step intro: sk_step_01)

lemma kSocketOpenRaw_step:
  "res_all (\<lambda>(_, _, s'). sk_step (Suc 0) s s') (kSocketOpenRaw y pt af da sa proto link s)"
  unfolding kSocketOpenRaw_def Let_def
  by (auto intro!: res_all_split bind_pure res_all_bind [OF open_claim_step [OF sk_step_refl]]
      open_undo_step append_step data_si_ok sys_close_step intro: sk_step_01)

lemma regist_unixd_step:
  "ty \<in> {SI_TYPE_UNIX, SI_TYPE_UNIX_DATA} \<Longrightarrow>
   res_all (\<lambda>(_, s'). sk_step (Suc 0) s s') (kSocketRegistUnixdSocketInfo m1 m2 ty h path s)"
  unfolding kSocketRegistUnixdSocketInfo_def Let_def
  by (auto intro!: res_all_split bind_pure append_step unixd_si_ok)

lemma regist_data_step:
  assumes "ty \<in> {SI_TYPE_UDP, SI_TYPE_DATA}" "sk_step 0 s0 s"
  shows "res_all (\<lambda>(_, s'). sk_step (Suc 0) s0 s')
     (kSocketRegistDataSocketInfo m1 m2 ty h link pl sa da parser i fam tm ssl s)"
  unfolding kSocketRegistDataSocketInfo_def Let_def
  using assms
  by (auto intro!: res_all_split bind_pure res_all_bind_any [of _ _ "di_copy_addr n a b d" for n a b d]
      append_step data_si_ok intro: sk_step_01)

text \<open>A check that reuses a socket writes the new peer to its entry.\<close>

lemma data_uniq_step:
  assumes "i < length (sk_table s)" "si_uniq (sk_table s ! i) = DataI d0"
  shows "sk_step n s (s\<lparr>sk_table := (sk_table s)[i := (sk_table s ! i)\<lparr>si_uniq := DataI d\<rparr>]\<rparr>)"
  by (rule sk_step_update [where f = "\<lambda>si. case si_uniq si of DataI _ \<Rightarrow> si\<lparr>si_uniq := DataI d\<rparr> | _ \<Rightarrow> si" and i = i])
    (use assms in \<open>auto simp: entry_le_def si_ok_def split: uniq_info.split\<close>)

lemma check_new_loop_index:
  "check_new_loop sp sa dp pr k xs st = Inr (flg, r) \<Longrightarrow>
   r = snd st \<or> (\<exists>i. r = Some i \<and> i < k + length xs)"
  by (induction sp sa dp pr k xs st rule: check_new_loop.induct)
    (auto simp: bind_res_eq_Inr Let_def split: if_splits, (fastforce+)?)

lemma check_step: "res_all (\<lambda>(_, _, s'). sk_step 0 s s') (kSocketCheckNewSocket sp sa dp da pr b s)"
proof -
  have "res_all (\<lambda>(_, r). \<forall>i. r = Some i \<longrightarrow> i < length (sk_table s))
      (check_new_loop sp sa dp pr 0 (sk_table s) (True, None))"
    by (auto simp: res_all_def dest!: check_new_loop_index)
  moreover have "res_all (\<lambda>(_, _, s'). sk_step 0 s s') (bind_res (as_datasocket (si_uniq (sk_table s ! i)))
      (\<lambda>d. Inr (RETURN_OK, Some (si_socketid (sk_table s ! i)), s\<lparr>sk_table := (sk_table s)[i := (sk_table s ! i)
        \<lparr>si_uniq := DataI (d\<lparr>di_d_port := dp, di_d_addr := da\<rparr>)\<rparr>]\<rparr>)))" if "i < length (sk_table s)" for i
    using data_uniq_step [OF that] by (cases "si_uniq (sk_table s ! i)") (simp_all add: as_datasocket_def)
  ultimately show ?thesis
    unfolding kSocketCheckNewSocket_def
    by (auto intro!: res_all_if res_all_bind [of "\<lambda>(_, r). \<forall>i. r = Some i \<longrightarrow> i < length (sk_table s)"]
        split: bool.split option.split)
qed

end
