(* ===== verification/KSystem.thy ===== *)
theory KSystem
  imports KMain KStep
begin

text \<open>
  The daemon as a whole: what one round of the main loop keeps of the socket table and the close
  timer, whatever the environment does, and the states the daemon can reach.
\<close>

section \<open>Steps of the daemon\<close>

definition koid_step :: "nat \<Rightarrow> koid \<Rightarrow> koid \<Rightarrow> bool" where
  "koid_step n w w' \<longleftrightarrow> sk_step n (w_sk w) (w_sk w') \<and> (ct_inv (w_close w) \<longrightarrow> ct_inv (w_close w'))"

lemma koid_step_refl [simp]: "koid_step n w w"
  by (simp add: koid_step_def)

lemma koid_step_trans: "koid_step m w w' \<Longrightarrow> koid_step n w' w'' \<Longrightarrow> koid_step (m + n) w w''"
  by (auto simp: koid_step_def intro: sk_step_trans)

lemma koid_step_trans0: "koid_step m w w' \<Longrightarrow> koid_step 0 w' w'' \<Longrightarrow> koid_step m w w''"
  using koid_step_trans [of m w w' 0 w''] by simp

lemma koid_step_mono: "koid_step m w w' \<Longrightarrow> m \<le> n \<Longrightarrow> koid_step n w w'"
  by (auto simp: koid_step_def intro: sk_step_mono)

lemma koid_step_01: "koid_step 0 w w' \<Longrightarrow> koid_step (Suc 0) w w'"
  by (erule koid_step_mono) simp

lemma koid_step_sk: "koid_step m w0 w \<Longrightarrow> sk_step 0 (w_sk w) sk \<Longrightarrow> koid_step m w0 (w\<lparr>w_sk := sk\<rparr>)"
  by (erule koid_step_trans0) (simp add: koid_step_def)

text \<open>Changes of the other components.\<close>

lemma koid_step_frame [simp]:
  "koid_step m w0 (w\<lparr>w_data := kd\<rparr>) = koid_step m w0 w"
  "koid_step m w0 (w\<lparr>w_buf := kb\<rparr>) = koid_step m w0 w"
  "koid_step m w0 (w\<lparr>w_recv := rt\<rparr>) = koid_step m w0 w"
  "koid_step m w0 (w\<lparr>w_parser := pt\<rparr>) = koid_step m w0 w"
  "koid_step m w0 (w\<lparr>w_tls := t\<rparr>) = koid_step m w0 w"
  "koid_step m w0 (w\<lparr>w_out := out\<rparr>) = koid_step m w0 w"
  "koid_step m w0 (w\<lparr>w_data := kd, w_sk := sk\<rparr>) = koid_step m w0 (w\<lparr>w_sk := sk\<rparr>)"
  "koid_step m w0 (w\<lparr>w_buf := kb, w_sk := sk\<rparr>) = koid_step m w0 (w\<lparr>w_sk := sk\<rparr>)"
  "koid_step m w0 (w\<lparr>w_tls := t, w_sk := sk\<rparr>) = koid_step m w0 (w\<lparr>w_sk := sk\<rparr>)"
  by (simp_all add: koid_step_def)

text \<open>Operations of the other components, whose results are only stored.\<close>

lemmas bind_other = bind_pure
  res_all_bind_any [of _ _ "kDataRegist sk a b i m n d t kd" for sk a b i m n d t kd]
  res_all_bind_any [of _ _ "kDataGetDataBySocketid sk i d kd" for sk i d kd]
  res_all_bind_any [of _ _ "kDataGetDataByDataid i b d kd" for i b d kd]
  res_all_bind_any [of _ _ "kDataClear a b c d kd" for a b c d kd]
  res_all_bind_any [of _ _ "kBufferGet i b d kb" for i b d kb]
  res_all_bind_any [of _ _ "kBufferSet i a b j n d kb" for i a b j n d kb]
  res_all_bind_any [of _ _ "kBufferInit kb" for kb]
  res_all_bind_any [of _ _ "kRecvTimerInit rt" for rt]
  res_all_bind_any [of _ _ "kRecvTimerSet i t b h j n r rt" for i t b h j n r rt]
  res_all_bind_any [of _ _ "kRecvTimerProc sk wr t rt kd out" for sk wr t rt kd out]
  res_all_bind_any [of _ _ "call_parser env p n d" for env p n d]
  res_all_bind_any [of _ _ "icmp_recv r m s b" for r m s b]
  res_all_bind_any [of _ _ "icmp_packet f s n d" for f s n d]
  res_all_bind_any [of _ _ "req_copy n d l" for n d l]
  res_all_bind_any [of _ _ "req_string r i" for r i]
  res_all_bind_any [of _ _ "check_new_loop sp sa dp pr i xs st" for sp sa dp pr i xs st]

section \<open>Data from the network\<close>

lemma regist_recv_step: "koid_step m w0 w \<Longrightarrow> res_all (koid_step m w0) (regist_recv env mal i n d w)"
  by (auto simp: regist_recv_def intro!: res_all_split bind_other)

lemma upd_data_step: "res_all (sk_step 0 s) (upd_data f h s)"
proof -
  have "res_all (sk_step 0 s) (bind_res (as_datasocket (si_uniq (sk_table s ! i)))
      (\<lambda>d. Inr (s\<lparr>sk_table := (sk_table s)[i := (sk_table s ! i)\<lparr>si_uniq := DataI (f d)\<rparr>]\<rparr>)))"
    if "live_at h s = Some i" for i
    using data_uniq_step [OF si_loop_less [OF that [unfolded live_at_def]]]
    by (cases "si_uniq (sk_table s ! i)") (simp_all add: as_datasocket_def)
  then show ?thesis by (auto simp: upd_data_def split: option.split)
qed

lemma upd_koid_step: "koid_step m w0 w \<Longrightarrow> s = w_sk w \<Longrightarrow>
    res_all (\<lambda>sk. koid_step m w0 (w\<lparr>w_sk := sk\<rparr>)) (upd_data f h s)"
  by (rule res_all_mono [OF upd_data_step]) (auto intro: koid_step_sk)

lemma set_parser_step: "koid_step m w0 w \<Longrightarrow>
    res_all (\<lambda>sk. koid_step m w0 (w\<lparr>w_sk := sk\<rparr>)) (set_parser p h si (w_sk w))"
  unfolding set_parser_def by (auto intro!: res_all_if upd_koid_step)

lemma tcp_loop_step:
  "koid_step m w0 w \<Longrightarrow> res_all (\<lambda>(_, w'). koid_step m w0 w') (tcp_loop k env parse i sp pos len ps w)"
proof (induction k arbitrary: w pos len ps)
  case (Suc k)
  show ?case
    using Suc.prems
    by (auto simp: Let_def intro!: res_all_split bind_other res_all_bind_any [of _ _ "parse n d" for n d]
        res_all_bind [OF regist_recv_step] Suc.IH)
qed simp

lemma tcp_merge_step:
  "koid_step m w0 w \<Longrightarrow> res_all (\<lambda>(_, w'). koid_step m w0 w') (tcp_merge env h si bs w)"
  unfolding tcp_merge_def Let_def
  by (auto intro!: res_all_split bind_other res_all_bind [OF set_parser_step] tcp_loop_step)

lemma tcp_recv_step:
  "koid_step m w0 w \<Longrightarrow> res_all (\<lambda>(_, _, w'). koid_step m w0 w') (tcp_recv env h si w)"
  unfolding tcp_recv_def
  by (auto intro!: res_all_split res_all_bind [OF tls_step(2)] intro: koid_step_sk)

lemma koid_step_close: "koid_step m w0 w \<Longrightarrow>
    koid_step m w0 (w\<lparr>w_close := snd (kCloseTimerSet now i sec (w_close w))\<rparr>)"
  by (simp add: koid_step_def kCloseTimerSet_inv)

lemma koid_step_close_pair: "koid_step m w0 w \<Longrightarrow> kCloseTimerSet now i sec (w_close w) = (r, ct) \<Longrightarrow>
    koid_step m w0 (w\<lparr>w_close := ct\<rparr>)"
  using koid_step_close [of m w0 w now i sec] by simp

lemma tcp_step: "koid_step m w0 w \<Longrightarrow> res_all (\<lambda>(_, w'). koid_step m w0 w') (process_si_type_tcp env h w)"
  unfolding process_si_type_tcp_def Let_def
  by (auto intro!: res_all_split bind_other res_all_bind [OF tcp_recv_step] tcp_merge_step koid_step_close)

lemma udp_step: "koid_step m w0 w \<Longrightarrow> res_all (\<lambda>(_, w'). koid_step m w0 w') (process_si_type_udp env h w)"
  unfolding process_si_type_udp_def Let_def
  by (auto intro!: res_all_split bind_other res_all_bind [OF upd_koid_step] res_all_bind [OF regist_recv_step])

lemma raw_step: "koid_step m w0 w \<Longrightarrow> res_all (\<lambda>(_, w'). koid_step m w0 w') (process_si_type_raw env h w)"
  unfolding process_si_type_raw_def Let_def
  by (auto intro!: res_all_split bind_other res_all_bind [OF regist_recv_step])

section \<open>Sending\<close>

lemma sys_send_step: "koid_step m w0 w \<Longrightarrow> res_all (\<lambda>(_, w'). koid_step m w0 w') (sys_send env h n d w)"
  unfolding sys_send_def Let_def by (auto intro!: res_all_split)

lemma send_udp_step:
  "koid_step m w0 w \<Longrightarrow> res_all (\<lambda>(_, w'). koid_step m w0 w') (kSocketSendDataUdp env i n d w)"
  unfolding kSocketSendDataUdp_def Let_def by (auto intro!: res_all_split bind_other sys_send_step)

lemma icmp_send_step:
  "koid_step m w0 w \<Longrightarrow> res_all (\<lambda>(_, w'). koid_step m w0 w') (icmp_send env fd src n d w)"
  unfolding icmp_send_def by (auto intro!: res_all_split bind_other res_all_bind [OF sys_send_step])

lemma send_data_step:
  "koid_step m w0 w \<Longrightarrow> res_all (\<lambda>(_, _, w'). koid_step m w0 w') (send_data env si d i n data w)"
  unfolding send_data_def
  by (auto intro!: res_all_split bind_other res_all_bind [OF sys_send_step] res_all_bind [OF send_udp_step]
      res_all_bind [OF icmp_send_step] res_all_bind [OF tls_step(1)] intro: koid_step_sk)

lemma kSocketSend_step:
  "koid_step m w0 w \<Longrightarrow> res_all (\<lambda>(_, _, w'). koid_step m w0 w') (kSocketSend env i n data w)"
  unfolding kSocketSend_def Let_def
  by (auto intro!: res_all_split bind_other res_all_bind [OF send_data_step])

section \<open>Commands\<close>

lemma koid_step_answer [simp]:
  "koid_step m w0 (answer f w) = koid_step m w0 w" "koid_step m w0 (flag_answer g w) = koid_step m w0 w"
  "koid_step m w0 (connec_answer env h c r res i sent w) = koid_step m w0 w"
  "koid_step m w0 (close_answer env h c r res i w) = koid_step m w0 w"
  by (simp_all add: answer_def flag_answer_def connec_answer_def close_answer_def split: option.split prod.split)

lemma koid_step_if [simp]:
  "koid_step m w0 (if c then a else b) \<longleftrightarrow> (c \<longrightarrow> koid_step m w0 a) \<and> (\<not> c \<longrightarrow> koid_step m w0 b)"
  by simp

lemma answer_res_step: "koid_step m w0 w \<Longrightarrow> res_all (koid_step m w0) (answer_res f w)"
  by (auto simp: answer_res_def intro!: res_all_bind_any)

text \<open>Opening a socket for a command: one id at most.\<close>

lemma koid_step_open: "koid_step 0 w0 w \<Longrightarrow> sk_step (Suc 0) (w_sk w) sk \<Longrightarrow>
    koid_step (Suc 0) w0 (w\<lparr>w_sk := sk\<rparr>)"
  using koid_step_trans [of 0 w0 w "Suc 0" "w\<lparr>w_sk := sk\<rparr>"] by (simp add: koid_step_def)

lemma koid_step_sk_01: "koid_step 0 w0 w \<Longrightarrow> sk_step 0 (w_sk w) sk \<Longrightarrow>
    koid_step (Suc 0) w0 (w\<lparr>w_sk := sk\<rparr>)"
  by (intro koid_step_01 koid_step_sk)

lemma connect_open_step:
  "koid_step 0 w0 w \<Longrightarrow> res_all (\<lambda>(_, _, w'). koid_step (Suc 0) w0 w') (connect_open env r c w)"
  unfolding connect_open_def Let_def
  by (auto intro!: res_all_split res_all_bind [OF kSocketOpen_step] res_all_bind [OF kSocketOpenRaw_step]
      intro: koid_step_01 koid_step_open)

lemma connect_step:
  "koid_step 0 w0 w \<Longrightarrow> res_all (\<lambda>(_, w'). koid_step (Suc 0) w0 w') (process_command_connect_req env h q d n w)"
  unfolding process_command_connect_req_def Let_def
  by (auto intro!: res_all_split bind_other res_all_bind [OF check_step] res_all_bind [OF connect_open_step]
      res_all_bind [OF kSocketSend_step] intro: koid_step_01 koid_step_sk koid_step_sk_01)

lemma send_step:
  "koid_step m w0 w \<Longrightarrow> res_all (\<lambda>(_, w'). koid_step m w0 w') (process_command_send_req env h q d n w)"
  unfolding process_command_send_req_def
  by (auto intro!: res_all_split bind_other res_all_bind [OF kSocketSend_step])

lemma wait_step:
  "koid_step 0 w0 w \<Longrightarrow> res_all (\<lambda>(_, w'). koid_step (Suc 0) w0 w') (process_command_wait_req env h q d n w)"
proof -
  assume *: "koid_step 0 w0 w"
  have "res_all (\<lambda>(_, _, sk). koid_step (Suc 0) w0 (w\<lparr>w_sk := sk\<rparr>)) (if c then kSocketOpenRaw y pt af da sa proto link (w_sk w)
      else kSocketOpenWaitSocket y ift pt ty tls af sp sa lk pl fl True (w_sk w))"
    for c y pt af da sa proto link ift ty tls sp lk pl fl
    by (intro res_all_if res_all_mono [OF kSocketOpenRaw_step] res_all_mono [OF kSocketOpenWaitSocket_step])
      (auto intro: koid_step_open [OF *])
  note open' = res_all_bind [OF this]
  show ?thesis
    unfolding process_command_wait_req_def Let_def
    using * by (auto intro!: res_all_if bind_other open' intro: koid_step_01)
qed

lemma other_commands_step:
  assumes "koid_step m w0 w"
  shows "res_all (\<lambda>(_, w'). koid_step m w0 w') (process_command_recv_req env h q d n w)"
    "res_all (\<lambda>(_, w'). koid_step m w0 w') (process_command_close_req env h q d n w)"
    "res_all (\<lambda>(_, w'). koid_step m w0 w') (process_command_sockinfo_req env h q d n w)"
    "res_all (\<lambda>(_, w'). koid_step m w0 w') (process_command_datainfo_req env h q d n w)"
    "res_all (\<lambda>(_, w'). koid_step m w0 w') (process_command_flush_req env h q d n w)"
    "res_all (\<lambda>(_, w'). koid_step m w0 w') (process_command_tls_setup_req env h q d n w)"
    "res_all (\<lambda>(_, w'). koid_step m w0 w') (process_command_tls_clear_req env h q d n w)"
    "res_all (\<lambda>(_, w'). koid_step m w0 w') (process_command_parser_attach_req env h q d n w)"
  subgoal unfolding process_command_recv_req_def using assms
    by (auto simp: Let_def intro!: res_all_split bind_other res_all_bind [OF answer_res_step])
  subgoal unfolding process_command_close_req_def using assms
    by (auto simp: Let_def split_beta intro!: res_all_if bind_other koid_step_close)
  subgoal unfolding process_command_sockinfo_req_def using assms
    by (auto simp: Let_def intro!: res_all_split bind_other res_all_bind [OF answer_res_step])
  subgoal unfolding process_command_datainfo_req_def using assms
    by (auto simp: Let_def intro!: res_all_split bind_other res_all_bind [OF answer_res_step])
  subgoal unfolding process_command_flush_req_def using assms
    by (auto simp: Let_def intro!: res_all_split bind_other)
  subgoal unfolding process_command_tls_setup_req_def using assms
    by (auto simp: Let_def intro!: res_all_split bind_other res_all_bind [OF kTLSInitialize_step [OF sk_step_refl]]
        intro: koid_step_sk)
  subgoal unfolding process_command_tls_clear_req_def using assms
    by (auto simp: Let_def intro!: res_all_split bind_other res_all_bind [OF kTLSClear_step [OF sk_step_refl]]
        intro: koid_step_sk)
  subgoal unfolding process_command_parser_attach_req_def using assms
    by (auto simp: Let_def intro!: res_all_split bind_other res_all_bind_any)
  done

section \<open>Events\<close>

lemma hangup_step: "koid_step m w0 w \<Longrightarrow> res_all (\<lambda>(_, w'). koid_step m w0 w') (unixd_hangup env h w)"
  unfolding unixd_hangup_def
  by (auto intro!: res_all_split bind_other res_all_bind [OF kSocketClose_step0] simp: koid_step_def ct_inv_init
      intro: sk_step_trans0 [OF sk_step_trans0])

lemma ret_int_step: "res_all (\<lambda>(_, w'). P w') m \<Longrightarrow> res_all (\<lambda>(_, w'). P w') (ret_int m)"
  unfolding ret_int_def by (rule res_all_bind, assumption) auto

lemma ret_flag_step: "res_all (\<lambda>(_, w'). P w') m \<Longrightarrow> res_all (\<lambda>(_, w'). P w') (ret_flag m)"
  unfolding ret_flag_def by (rule res_all_bind, assumption) auto

lemma run_command_step:
  "koid_step 0 w0 w \<Longrightarrow> res_all (\<lambda>(_, w'). koid_step (Suc 0) w0 w') (run_command env h c q d n w)"
  unfolding run_command_def
  by (intro res_all_if ret_int_step ret_flag_step connect_step wait_step send_step other_commands_step)
    (auto intro: koid_step_01)

lemma unixd_data_step:
  "koid_step 0 w0 w \<Longrightarrow> res_all (\<lambda>(_, w'). koid_step (Suc 0) w0 w') (process_si_type_unixd_data env h w)"
  unfolding process_si_type_unixd_data_def Let_def
  by (auto intro!: res_all_split res_all_bind_any run_command_step hangup_step intro: koid_step_01)

lemma unixd_step:
  "koid_step 0 w0 w \<Longrightarrow> res_all (\<lambda>(_, w'). koid_step (Suc 0) w0 w') (process_si_type_unixd env h w)"
  unfolding process_si_type_unixd_def Let_def
  by (auto intro!: res_all_split res_all_bind [OF regist_unixd_step] res_all_bind [OF select_step]
      intro: koid_step_open)

lemma process_unixd_step:
  "koid_step 0 w0 w \<Longrightarrow> res_all (\<lambda>(_, w'). koid_step (Suc 0) w0 w') (process_unixd env h t w)"
  unfolding process_unixd_def
  by (auto intro!: res_all_if ret_int_step unixd_step unixd_data_step intro: koid_step_01)

lemma udpaccept_step: "res_all (\<lambda>(_, _, _, s'). sk_step 0 s s') (udpaccept env fd s)"
  unfolding udpaccept_def Let_def
  by (auto intro!: res_all_split sys_close_step res_all_bind_any [of _ _ "udp_dstaddr m d" for m d]
      res_all_bind_any [of _ _ "udp_src a d p" for a d p])

lemma register_child_step:
  assumes "koid_step 0 w0 w" "sk_step 0 (w_sk w) sk" "ty \<in> {SI_TYPE_UDP, SI_TYPE_DATA}"
  shows "res_all (\<lambda>(_, w'). koid_step (Suc 0) w0 w')
     (bind_res (kSocketRegistDataSocketInfo m1 m2 ty fd link pl src dst parser i af tm ssl sk) (\<lambda>(newid, sk).
      bind_res (kSocketSelectOperation fd SELECT_IN sk) (\<lambda>(_, sk).
        if c \<and> newid > 0 then
          bind_res (regist_recv env mal newid n bs (w\<lparr>w_sk := sk\<rparr>)) (\<lambda>w. Inr (RETURN_OK, w))
        else Inr (RETURN_OK, w\<lparr>w_sk := sk\<rparr>))))"
  by (auto intro!: res_all_bind [OF regist_data_step [OF assms(3,2)]] res_all_bind [OF select_step]
      res_all_if res_all_bind [OF regist_recv_step] koid_step_open [OF assms(1)])

lemma listen_child_step:
  "koid_step 0 w0 w \<Longrightarrow> res_all (\<lambda>(_, w'). koid_step (Suc 0) w0 w') (listen_child env h t fd dst bs w)"
proof -
  assume *: "koid_step 0 w0 w"
  have accept: "res_all (\<lambda>(_, _, sk). sk_step 0 (w_sk w) sk) (if c then kTLSAccept l t (w_sk w)
      else Inr (r, p, w_sk w))" for c l t r p
    by (auto intro!: res_all_if tls_step)
  have ty: "(if c then SI_TYPE_DATA else SI_TYPE_UDP) \<in> {SI_TYPE_UDP, SI_TYPE_DATA}" for c
    by simp
  show ?thesis
    unfolding listen_child_def Let_def
    by (intro res_all_split bind_other res_all_bind [OF accept] register_child_step [OF *] ty)
      (use * in \<open>auto intro: koid_step_01 koid_step_sk_01\<close>)
qed

lemma listen_step:
  "koid_step 0 w0 w \<Longrightarrow> res_all (\<lambda>(_, w'). koid_step (Suc 0) w0 w') (process_si_type_listen env h t w)"
proof -
  assume *: "koid_step 0 w0 w"
  have fd: "res_all (\<lambda>(_, _, _, sk). sk_step 0 (w_sk w) sk)
      (if c then udpaccept env h (w_sk w) else let (fd, peer) = e_accept env in Inr (fd, store_addr peer, [], w_sk w))" for c
    by (auto intro!: res_all_split udpaccept_step)
  show ?thesis
    unfolding process_si_type_listen_def Let_def
    using * by (intro res_all_bind [OF fd [unfolded Let_def]] res_all_prod res_all_if listen_child_step)
      (auto intro: koid_step_sk koid_step_sk_01)
qed

lemma dispatcher_step:
  "koid_step 0 w0 w \<Longrightarrow> res_all (\<lambda>(_, w'). koid_step (Suc 0) w0 w') (kDispatcherProc env h t w)"
  unfolding kDispatcherProc_def Let_def
  by (auto intro!: res_all_if res_all_bind [OF process_unixd_step] res_all_bind [OF listen_step]
      res_all_bind [OF koid_step_01 [THEN udp_step]] res_all_bind [OF koid_step_01 [THEN tcp_step]]
      res_all_bind [OF koid_step_01 [THEN raw_step]] intro: koid_step_01)

section \<open>The main loop\<close>

lemma close_proc_loop_step: "res_all (\<lambda>(_, sk). sk_step 0 s sk) (close_proc_loop cl b now ls ct s)"
proof (induction ls arbitrary: ct s)
  case (Cons i ls)
  have "res_all (\<lambda>(_, sk). sk_step 0 s sk) (bind_res (kSocketClose c b j s) (\<lambda>(ret, sk).
      close_proc_loop cl b now ls ct' sk))" for c j ct'
    by (auto intro!: res_all_bind [OF kSocketClose_step0] intro: res_all_mono [OF Cons.IH] sk_step_trans0)
  then show ?case using Cons.IH by (simp add: Let_def)
qed simp

lemma kCloseTimerProc_step: "res_all (\<lambda>(_, ct', sk). sk_step 0 s sk \<and> (ct_inv ct \<longrightarrow> ct_inv ct'))
    (kCloseTimerProc cl b now ct s)"
proof -
  have "res_all (\<lambda>(_, _, sk). sk_step 0 s sk) (kCloseTimerProc cl b now ct s)"
    unfolding kCloseTimerProc_def by (auto intro!: res_all_bind [OF close_proc_loop_step])
  then show ?thesis by (auto simp: res_all_def dest: kCloseTimerProc_inv)
qed

lemma timers_step: "koid_step m w0 w \<Longrightarrow> res_all (koid_step m w0) (koid_timers env w)"
  unfolding koid_timers_def Let_def
  by (auto intro!: res_all_split bind_other res_all_bind [OF kCloseTimerProc_step] simp: koid_step_def
      intro: sk_step_trans0)

lemma select_koid_step: "koid_step m w0 w \<Longrightarrow> koid_select env w = (ret, w') \<Longrightarrow> koid_step m w0 w'"
  by (auto simp: koid_select_def split_beta intro!: koid_step_sk sk_step_frame)

lemma round_step: "res_all (koid_step (Suc 0) w) (koid_round env w)"
  unfolding koid_round_def Let_def
  by (intro res_all_bind [OF timers_step [OF koid_step_refl]] res_all_split)
    (auto intro!: res_all_bind [OF dispatcher_step] dest: select_koid_step intro: koid_step_01)

lemma loop_step: "res_all (koid_step (length envs) w) (koid_loop envs w)"
proof (induction envs arbitrary: w)
  case (Cons env envs)
  have "res_all (koid_step (length (env # envs)) w) (koid_loop envs w')" if "koid_step (Suc 0) w w'" for w'
    by (rule res_all_mono [OF Cons.IH]) (use koid_step_trans [OF that] in simp)
  then show ?case by (simp add: res_all_bind [OF round_step])
qed simp

section \<open>Reachable states\<close>

definition koid_boot :: "bool \<Rightarrow> koid" where
  "koid_boot keep = \<lparr>w_sk = ksocket_boot, w_data = kdata_boot keep, w_buf = kbuffer_boot keep,
     w_close = close_timer_boot, w_recv = recv_timer_boot keep, w_parser = pi_zero, w_if = if_clear,
     w_tls = ktls_boot, w_out = []\<rparr>"

text \<open>
  The states after \<open>n\<close> rounds of the main loop, from a started daemon or from a given state: as long as
  there was a socket id left when each round began, and no round ran into undefined behaviour.
\<close>

inductive rounds :: "koid \<Rightarrow> nat \<Rightarrow> koid \<Rightarrow> bool" for w0 where
  no_round: "rounds w0 0 w0"
| one_round: "rounds w0 n w \<Longrightarrow> g_socket_socketid (w_sk w) < SOCKET_MAXNUM \<Longrightarrow>
    koid_round env w = Inr w' \<Longrightarrow> rounds w0 (Suc n) w'"

inductive_cases rounds_SucE: "rounds w0 (Suc n) w"

definition started :: "koid \<Rightarrow> bool" where
  "started w \<longleftrightarrow> (\<exists>fopen idx env o1 keep. koid_start fopen idx env o1 (koid_boot keep) = Inr (True, w))"

lemma rounds_trans: "rounds w1 n w2 \<Longrightarrow> rounds w0 m w1 \<Longrightarrow> rounds w0 (m + n) w2"
  by (induction rule: rounds.induct) (auto intro: rounds.intros)

text \<open>The main loop runs through such states.\<close>

lemma koid_loop_rounds:
  "\<lbrakk>koid_loop envs w = Inr w'; \<And>k v. k < length envs \<Longrightarrow> koid_loop (take k envs) w = Inr v \<Longrightarrow>
     g_socket_socketid (w_sk v) < SOCKET_MAXNUM\<rbrakk> \<Longrightarrow> rounds w (length envs) w'"
proof (induction envs arbitrary: w)
  case (Cons env envs)
  then obtain w1 where w1: "koid_round env w = Inr w1" "koid_loop envs w1 = Inr w'"
    by (auto simp: bind_res_eq_Inr)
  have "g_socket_socketid (w_sk v) < SOCKET_MAXNUM" if "k < length envs" "koid_loop (take k envs) w1 = Inr v" for k v
    using Cons.prems(2) [of "Suc k" v] w1(1) that by simp
  moreover have "g_socket_socketid (w_sk w) < SOCKET_MAXNUM" using Cons.prems(2) [of 0 w] by simp
  ultimately show ?case
    using rounds_trans [OF Cons.IH [OF w1(2)], of w "Suc 0"] w1(1) by (auto intro: rounds.intros)
qed (auto intro: rounds.intros)

lemma initialize_inv: "res_all (\<lambda>(ok, w'). ok \<longrightarrow> ksocket_inv (w_sk w') \<and> g_socket_socketid (w_sk w') = 0 \<and>
    ct_inv (w_close w')) (initialize_modules fopen idx def w)"
  unfolding initialize_modules_def Let_def
  by (auto simp: kSocketInit_def kCloseTimerInit_def ct_inv_init [unfolded kCloseTimerInit_def, simplified]
      ksocket_inv_def SOCKET_MAXNUM_def intro!: res_all_split res_all_bind_any)

lemma started_inv:
  assumes "started w"
  shows "ksocket_inv (w_sk w)" "g_socket_socketid (w_sk w) \<le> 1" "ct_inv (w_close w)"
proof -
  from assms obtain fopen idx env o1 keep where
    run: "koid_start fopen idx env o1 (koid_boot keep) = Inr (True, w)" by (auto simp: started_def)
  have "res_all (\<lambda>(ok, w'). ok \<longrightarrow> ksocket_inv (w_sk w') \<and> g_socket_socketid (w_sk w') \<le> 1 \<and>
      ct_inv (w_close w')) (koid_start fopen idx env o1 (koid_boot keep))"
    unfolding koid_start_def Let_def
    by (auto intro!: res_all_split res_all_bind [OF initialize_inv] res_all_bind [OF kSocketOpenUnixdSocket_step]
        res_all_bind [OF kTLSInitialize_step [where m = 0, OF sk_step_refl]] simp: sk_step_def SOCKET_MAXNUM_def)
  from res_allD [OF this run] show "ksocket_inv (w_sk w)" "g_socket_socketid (w_sk w) \<le> 1" "ct_inv (w_close w)"
    by simp_all
qed

text \<open>Every reachable state, with the number of ids given so far.\<close>

lemma rounds_inv:
  "rounds w0 n w \<Longrightarrow> ksocket_inv (w_sk w0) \<Longrightarrow> ct_inv (w_close w0) \<Longrightarrow>
     ksocket_inv (w_sk w) \<and> ct_inv (w_close w) \<and> g_socket_socketid (w_sk w) \<le> g_socket_socketid (w_sk w0) + int n"
proof (induction rule: rounds.induct)
  case (one_round n w env w')
  then show ?case using res_allD [OF round_step one_round.hyps(3)] by (auto simp: koid_step_def sk_step_def)
qed simp

lemma reachable_inv:
  assumes "started w0" "rounds w0 n w"
  shows "ksocket_inv (w_sk w)" "ct_inv (w_close w)" "g_socket_socketid (w_sk w) \<le> int n + 1"
  using started_inv [OF assms(1)] rounds_inv [OF assms(2)] by auto

lemma sk_step_sock:
  assumes "sk_step n s s'" "ksocket_inv s" "g_socket_socketid s + int n \<le> SOCKET_MAXNUM" "sock s i = Some si"
  shows "\<exists>si'. sock s' i = Some si' \<and> entry_le si si'"
proof -
  from assms have s': "ksocket_inv s'" "table_le (sk_table s) (sk_table s')" by (auto simp: sk_step_def)
  from sock_ok [OF assms(2,4)] have si: "si \<in> set (sk_table s)" "si_socketid si = i" by simp_all
  from table_le_set [OF s'(2) si(1)] obtain si' where "si' \<in> set (sk_table s')" "entry_le si si'" by blast
  with sock_Some [OF s'(1)] si show ?thesis by (metis entry_le_def)
qed

lemma rounds_sock:
  "rounds w1 n w2 \<Longrightarrow> ksocket_inv (w_sk w1) \<Longrightarrow> ct_inv (w_close w1) \<Longrightarrow> sock (w_sk w1) i = Some si \<Longrightarrow>
     \<exists>si'. sock (w_sk w2) i = Some si' \<and> entry_le si si'"
proof (induction rule: rounds.induct)
  case (one_round n w env w')
  then obtain si1 where si1: "sock (w_sk w) i = Some si1" "entry_le si si1" by blast
  have "ksocket_inv (w_sk w)" using rounds_inv [OF one_round.hyps(1)] one_round.prems by blast
  moreover have "sk_step (Suc 0) (w_sk w) (w_sk w')"
    using res_allD [OF round_step one_round.hyps(3)] by (simp add: koid_step_def)
  moreover have "g_socket_socketid (w_sk w) + int (Suc 0) \<le> SOCKET_MAXNUM" using one_round.hyps(2) by simp
  ultimately obtain si2 where "sock (w_sk w') i = Some si2" "entry_le si1 si2"
    using sk_step_sock si1(1) by blast
  then show ?case using entry_le_trans [OF si1(2)] by blast
qed auto

text \<open>A daemon that has started and accepted one control connection.\<close>

definition start_env :: env where
  "start_env = \<lparr>e_now = \<lparr>tv_sec = 10, tv_usec = 5\<rparr>, e_malloc = (\<lambda>_. (True, True)), e_write = (\<lambda>_ _. True),
     e_close = (\<lambda>_ _. True), e_locals = zero_bufs, e_recv = (\<lambda>_. None), e_recvfrom = (\<lambda>_. None),
     e_recvmsg = (\<lambda>_ _. []), e_stack = [], e_databuf = [], e_getsockname = (\<lambda>_. None), e_dlopen = (\<lambda>_. None),
     e_dlsym = (\<lambda>_ _. None), e_dlparser = (\<lambda>_ _ _. Inr (PA_ERROR, None)),
     e_re = (\<lambda>_. None, \<lambda>_. None, \<lambda>_. None), e_sys = demo_sys, e_ssl = demo_ssl, e_send = (\<lambda>_ bs. int (length bs)),
     e_read = [], e_accept = (10, []), e_accept_path = [], e_udp = None, e_select = (\<lambda>fds. (1, fds))\<rparr>"

definition demo_start :: "koid res" where
  "demo_start = bind_res (koid_start (\<lambda>_. Some [''Link0 fxp0'']) (\<lambda>_. 1) start_env opts_default (koid_boot True))
     (\<lambda>(ok, w). if ok then Inr w else Inl OutOfFuel)"

lemma demo_start_runs:
  "\<exists>w w' w''. started w \<and> rounds w (Suc 0) w' \<and> rounds w' (Suc 0) w'' \<and>
     map_option si_sockethandle (sock (w_sk w') 1) = Some 9 \<and> map_option si_socket_status (sock (w_sk w') 1) = Some SI_STATUS_ALIVE"
proof -
  have run: "case demo_start of Inl _ \<Rightarrow> False | Inr w \<Rightarrow> (case koid_round start_env w of Inl _ \<Rightarrow> False
     | Inr w' \<Rightarrow> (case koid_round start_env w' of Inl _ \<Rightarrow> False | Inr w'' \<Rightarrow>
         g_socket_socketid (w_sk w) < SOCKET_MAXNUM \<and> g_socket_socketid (w_sk w') < SOCKET_MAXNUM \<and>
         map_option si_sockethandle (sock (w_sk w') 1) = Some 9 \<and>
         map_option si_socket_status (sock (w_sk w') 1) = Some SI_STATUS_ALIVE))"
    by code_simp
  then obtain w w' w'' where *: "demo_start = Inr w" "koid_round start_env w = Inr w'"
    "koid_round start_env w' = Inr w''"
    "g_socket_socketid (w_sk w) < SOCKET_MAXNUM" "g_socket_socketid (w_sk w') < SOCKET_MAXNUM"
    "map_option si_sockethandle (sock (w_sk w') 1) = Some 9"
    "map_option si_socket_status (sock (w_sk w') 1) = Some SI_STATUS_ALIVE"
    by (auto split: sum.splits)
  from *(1) have "koid_start (\<lambda>_. Some [''Link0 fxp0'']) (\<lambda>_. 1) start_env opts_default (koid_boot True) = Inr (True, w)"
    by (auto simp: demo_start_def bind_res_eq_Inr split: if_splits)
  then have "started w" unfolding started_def by blast
  moreover have "rounds w (Suc 0) w'" "rounds w' (Suc 0) w''"
    using * rounds.intros by blast+
  ultimately show ?thesis using * by blast
qed

section \<open>Properties\<close>

text \<open>
  C2: However long the daemon has run, and whatever the network, the control connections, the clock and
  the failures of system calls did, the socket table is in order (ids grow along it, every entry has the
  struct of its type), the close timers are in order, and at most one id has been given away per round. This holds
  up to and including the round that gives away the last of the 32767 ids (the next raw socket would get
  a negative one), and as long as no undefined behaviour has occurred.
\<close>

theorem reachable_states_ordered:
  assumes "started w0" "rounds w0 n w"
  shows "ksocket_inv (w_sk w) \<and> ct_inv (w_close w) \<and> g_socket_socketid (w_sk w) \<le> int n + 1"
  using reachable_inv [OF assms] by blast

theorem reachable_states_ordered_witness:
  "\<exists>w0 w. started w0 \<and> rounds w0 2 w \<and> ksocket_inv (w_sk w)"
proof -
  from demo_start_runs obtain w w' w'' where "started w" "rounds w (Suc 0) w'" "rounds w' (Suc 0) w''" by blast
  moreover from rounds_trans [OF this(3,2)] have "rounds w 2 w''" by (simp add: numeral_2_eq_2)
  ultimately show ?thesis using reachable_states_ordered by blast
qed

text \<open>
  C3: Until the 32767 ids are used up, and as long as no undefined behaviour occurs, a socket id means
  the same socket: once given it stays in the table with its type and its
  descriptor, and a socket that is closed is not alive again in any later state.
\<close>

theorem socket_ids_stable:
  assumes "started w0" "rounds w0 m w1" "rounds w1 n w2" "sock (w_sk w1) i = Some si"
  shows "\<exists>si'. sock (w_sk w2) i = Some si' \<and> si_type si' = si_type si \<and>
     si_sockethandle si' = si_sockethandle si \<and>
     (si_socket_status si = SI_STATUS_CLOSE \<longrightarrow> si_socket_status si' = SI_STATUS_CLOSE)"
  using rounds_sock [OF assms(3) reachable_inv(1,2) [OF assms(1,2)] assms(4)] by (auto simp: entry_le_def)

theorem socket_ids_stable_witness:
  "\<exists>w0 w1 w2 si. started w0 \<and> rounds w0 1 w1 \<and> rounds w1 1 w2 \<and> sock (w_sk w2) 1 = Some si \<and> si_sockethandle si = 9"
proof -
  from demo_start_runs obtain w0 w1 w2 si where st: "started w0" "rounds w0 (Suc 0) w1" "rounds w1 (Suc 0) w2"
    and si: "sock (w_sk w1) 1 = Some si" "si_sockethandle si = 9" by auto
  from socket_ids_stable [OF st si(1)] si(2) st show ?thesis by auto
qed

end
