(* ===== verification/KTcp.thy ===== *)
theory KTcp
  imports KDaemon
begin

text \<open>
  What \<open>process_si_type_tcp\<close> makes of a TCP byte stream: it cuts it into the messages of the
  socket's protocol, wherever the packets begin and end.
\<close>

section \<open>Framing\<close>

text \<open>
  \<open>mlen bs\<close> is the length of the complete message at the front of \<open>bs\<close>, if there is one; \<open>frames\<close>
  are the complete messages and what is left.
\<close>

function frames :: "(byte list \<Rightarrow> nat option) \<Rightarrow> byte list \<Rightarrow> byte list list \<times> byte list" where
  "frames mlen bs = (case mlen bs of
     None \<Rightarrow> ([], bs)
   | Some n \<Rightarrow> if n = 0 \<or> length bs < n then ([], bs)
       else (take n bs # fst (frames mlen (drop n bs)), snd (frames mlen (drop n bs))))"
  by pat_completeness auto
termination by (relation "measure (\<lambda>(mlen, bs). length bs)") auto

declare frames.simps [simp del]

text \<open>The contract of a parser: it finds the messages that \<open>mlen\<close> defines.\<close>

locale stream_parser =
  fixes parse :: "int \<Rightarrow> byte list \<Rightarrow> parse_result res"
    and mlen :: "byte list \<Rightarrow> nat option"
  assumes cut_size: "mlen bs = Some n \<Longrightarrow> 0 < n \<and> n \<le> length bs"
    and parse_none: "bs \<noteq> [] \<Longrightarrow> mlen bs = None \<Longrightarrow> 3 \<le> length zs \<Longrightarrow>
       parse (int (length bs)) (bs @ zs) = Inr (PA_NOMATCH, None)"
    and parse_some: "mlen bs = Some n \<Longrightarrow> n < 32768 \<Longrightarrow> 3 \<le> length zs \<Longrightarrow>
       parse (int (length bs)) (bs @ zs) =
         Inr (if n < length bs then PA_LEFTDATA else PA_JUSTONE, Some (0, int n))"
begin

lemma frames_none: "mlen bs = None \<Longrightarrow> frames mlen bs = ([], bs)"
  by (simp add: frames.simps)

lemma frames_some: "mlen bs = Some n \<Longrightarrow>
    frames mlen bs = (take n bs # fst (frames mlen (drop n bs)), snd (frames mlen (drop n bs)))"
  using cut_size [of bs n] by (simp add: frames.simps [of mlen bs])

lemma frames_Nil [simp]: "frames mlen [] = ([], [])"
  using cut_size [of "[]"] by (cases "mlen []") (auto simp: frames_none)

lemma frames_concat: "frames mlen bs = (ms, rest) \<Longrightarrow> concat ms @ rest = bs"
proof (induction "length bs" arbitrary: bs ms rest rule: less_induct)
  case less
  show ?case
  proof (cases "mlen bs")
    case None
    with less.prems show ?thesis by (simp add: frames_none)
  next
    case (Some n)
    with less.prems cut_size [OF Some] less.hyps [of "drop n bs"] show ?thesis
      by (auto simp: frames_some)
  qed
qed

end

section \<open>Messages and leftovers\<close>

text \<open>Registering several messages in a row, and keeping what is left over.\<close>

fun deliver_all :: "env \<Rightarrow> nat \<Rightarrow> int \<Rightarrow> byte list list \<Rightarrow> koid \<Rightarrow> koid res" where
  "deliver_all env k socketid [] w = Inr w"
| "deliver_all env k socketid (m # ms) w =
     bind_res (regist_recv env (e_malloc env k) socketid (int (length m)) m w)
       (deliver_all env (k - 1) socketid ms)"

definition keep :: "env \<Rightarrow> nat \<Rightarrow> int \<Rightarrow> byte list \<Rightarrow> koid \<Rightarrow> koid res" where
  "keep env k socketid rest w = (if rest = [] then Inr w
     else bind_res (kBufferSet (g_socket_socketid (w_sk w)) (fst (e_malloc env k)) (snd (e_malloc env k))
       socketid (int (length rest)) rest (w_buf w)) (\<lambda>(_, kb). Inr (w\<lparr>w_buf := kb\<rparr>)))"

lemma cmemcpy_prefix: "cmemcpy buf 0 (m @ ys) (length m) = cmemcpy buf 0 m (length m)"
  by (simp add: cmemcpy_def)

lemma regist_recv_prefix:
  "regist_recv env mal i (int (length m)) (m @ ys) w = regist_recv env mal i (int (length m)) m w"
  unfolding regist_recv_def kDataRegist_def nat_int cmemcpy_prefix ..

lemma kBufferSet_prefix:
  "kBufferSet g m1 m2 i (int (length m)) (m @ ys) s = kBufferSet g m1 m2 i (int (length m)) m s"
  unfolding kBufferSet_def nat_int cmemcpy_prefix ..

context stream_parser
begin

text \<open>
  The loop registers the messages in the merged data, in order, and keeps the incomplete rest. At
  least three bytes of the buffer have to be free behind the data.
\<close>

lemma tcp_loop_frames:
  assumes "bs \<noteq> []" "3 \<le> length zs" "length bs < k" "\<forall>m \<in> set (fst (frames mlen bs)). length m < 32768"
  shows "tcp_loop k env parse i (us @ bs @ zs) (int (length us)) (int (length bs)) psize w =
     bind_res (deliver_all env (k - 1) i (fst (frames mlen bs)) w) (\<lambda>w.
     bind_res (keep env (k - 1 - length (fst (frames mlen bs))) i (snd (frames mlen bs)) w) (\<lambda>w.
       Inr (RETURN_OK, w)))"
  using assms
proof (induction k arbitrary: us bs psize w)
  case (Suc k)
  show ?case
  proof (cases "mlen bs")
    case None
    then show ?thesis
      using parse_none [OF Suc.prems(1) None Suc.prems(2)] Suc.prems(1)
      by (simp add: frames_none keep_def kBufferSet_prefix bind_res_assoc split_def Let_def)
  next
    case (Some n)
    note n = cut_size [OF Some]
    let ?ms = "fst (frames mlen (drop n bs))"
    have fr: "fst (frames mlen bs) = take n bs # ?ms" "snd (frames mlen bs) = snd (frames mlen (drop n bs))"
      using frames_some [OF Some] by simp_all
    have n32: "n < 32768" using Suc.prems(4) fr n by simp
    have len: "int (length (take n bs)) = int n" using n by simp
    have whole: "take n bs @ drop n bs @ zs = bs @ zs" by (metis append_assoc append_take_drop_id)
    note ps = parse_some [OF Some n32 Suc.prems(2)]
    have rg: "regist_recv env mal i (int n) (bs @ zs) w = regist_recv env mal i (int n) (take n bs) w" for mal
      using regist_recv_prefix [of env mal i "take n bs" "drop n bs @ zs" w] by (simp only: whole len)
    show ?thesis
    proof (cases "n < length bs")
      case False
      then have nb: "n = length bs" using n by simp
      then have "frames mlen (drop n bs) = ([], [])" by simp
      with False nb ps rg show ?thesis
        by (simp add: fr keep_def bind_res_assoc Let_def)
    next
      case True
      have IH: "tcp_loop k env parse i (us @ bs @ zs) (int (length us) + int n)
          (int (length bs) - int n) (int n) w' =
        bind_res (deliver_all env (k - 1) i ?ms w') (\<lambda>w.
        bind_res (keep env (k - 1 - length ?ms) i (snd (frames mlen (drop n bs))) w) (\<lambda>w. Inr (RETURN_OK, w)))"
        for w'
        using Suc.IH [of "drop n bs" "us @ take n bs" "int n" w'] True Suc.prems n32 n fr
        by (simp add: of_nat_diff whole)
      from True ps rg n show ?thesis by (simp add: fr ext [OF IH] bind_res_assoc Let_def)
    qed
  qed
qed simp

end

declare tcp_loop.simps [simp del]

section \<open>DNS over TCP\<close>

definition dns_cut :: "byte list \<Rightarrow> nat option" where
  "dns_cut bs = (if length bs < 2 then None
     else let n = unat (bs ! 0) * 256 + unat (bs ! 1) + 2 in if n \<le> length bs then Some n else None)"

lemma dns_length: "uint (a :: byte) * 256 + uint (b :: byte) = int (unat a * 256 + unat b)"
  by simp

interpretation dns: stream_parser kParserDNS dns_cut
proof
  fix bs :: "byte list" and n
  assume "dns_cut bs = Some n"
  then show "0 < n \<and> n \<le> length bs" by (auto simp: dns_cut_def Let_def split: if_splits)
next
  fix bs zs :: "byte list"
  assume bs: "bs \<noteq> []" "dns_cut bs = None" "3 \<le> length zs"
  show "kParserDNS (int (length bs)) (bs @ zs) = Inr (PA_NOMATCH, None)"
  proof (cases "length bs = 1")
    case True
    moreover have "0 \<le> uint a * 256 + uint b" for a b :: byte by simp
    ultimately show ?thesis using bs(3) by (auto simp: kParserDNS_def Let_def add_pos_nonneg)
  next
    case False
    with bs(1) have "2 \<le> length bs" by (cases bs) (auto simp: Suc_le_eq)
    moreover from this have "(bs @ zs) ! 0 = bs ! 0" "(bs @ zs) ! 1 = bs ! 1"
      by (auto simp: nth_append)
    moreover have "length bs < unat (bs ! 0) * 256 + unat (bs ! 1) + 2"
      using bs(2) \<open>2 \<le> length bs\<close> by (auto simp: dns_cut_def Let_def split: if_splits)
    then have "int (length bs) < int (unat (bs ! 0) * 256 + unat (bs ! 1) + 2)"
      by (simp only: of_nat_less_iff)
    then have "int (length bs) < uint (bs ! 0) * 256 + uint (bs ! 1) + 2"
      by (simp only: of_nat_add dns_length of_nat_numeral)
    ultimately show ?thesis using bs(3) by (simp add: kParserDNS_def Let_def)
  qed
next
  fix bs zs :: "byte list" and n
  assume bs: "dns_cut bs = Some n" "n < 32768" "3 \<le> length zs"
  then have n: "2 \<le> length bs" "n = unat (bs ! 0) * 256 + unat (bs ! 1) + 2" "n \<le> length bs"
    by (auto simp: dns_cut_def Let_def split: if_splits)
  then have "(bs @ zs) ! 0 = bs ! 0" "(bs @ zs) ! 1 = bs ! 1"
    by (auto simp: nth_append)
  moreover have "uint (bs ! 0) * 256 + uint (bs ! 1) = int n - 2"
    using dns_length [of "bs ! 0" "bs ! 1"] n(2) by simp
  ultimately show "kParserDNS (int (length bs)) (bs @ zs) =
      Inr (if n < length bs then PA_LEFTDATA else PA_JUSTONE, Some (0, int n))"
    using bs(2,3) n(1,3) by (simp add: kParserDNS_def Let_def)
qed

section \<open>The steps, with the tables in order\<close>

lemma deliver_all_ok:
  assumes "ksocket_inv (w_sk w)" "sock (w_sk w) i = Some si" "si_uniq si = DataI d" "data_type (si_type si)"
    and "kdata_inv (w_data w)" "appendable (w_data w)" "\<forall>k. e_malloc env k = (True, True)"
    and "g_msg_dataid (w_data w) + int (length ms) \<le> MSG_MAXMSGNUM"
  shows "\<exists>kd new. deliver_all env k i ms w = Inr (w\<lparr>w_data := kd\<rparr>) \<and> kdata_inv kd \<and> appendable kd \<and>
     messages kd = messages (w_data w) @ new \<and> map msg_bytes new = ms \<and>
     (\<forall>m \<in> set new. unread m \<and> msg_socketid m = i)"
  using assms
proof (induction ms arbitrary: k w)
  case Nil
  then show ?case by (intro exI [of _ "w_data w"] exI [of _ "[]"]) simp
next
  case (Cons m ms)
  let ?msg = "build_msg (g_msg_dataid (w_data w) + 1) i MSG_SOCKETMODE_RECV d (the (b_listen zero_bufs))
     (int (length m)) m (e_now env)"
  have b: "unread ?msg" "msg_socketid ?msg = i" "msg_bytes ?msg = m"
    by (simp_all add: build_msg_def unread_def Let_def)
  have "g_msg_dataid (w_data w) \<noteq> MSG_MAXMSGNUM" using Cons.prems(8) by simp
  from kDataRegist_append [OF Cons.prems(5,6,1-4) this, of "int (length m)" m MSG_SOCKETMODE_RECV "e_now env"]
  obtain kd where kd: "kDataRegist (w_sk w) True True i MSG_SOCKETMODE_RECV (int (length m)) m (e_now env) (w_data w)
       = Inr (RETURN_OK, kd)" "kdata_inv kd" "appendable kd" "g_msg_dataid kd = g_msg_dataid (w_data w) + 1"
     "messages kd = messages (w_data w) @ [?msg]" by auto
  let ?w = "w\<lparr>w_data := kd\<rparr>"
  from Cons.IH [of ?w "k - 1"] Cons.prems kd obtain kd' new where
    "deliver_all env (k - 1) i ms ?w = Inr (?w\<lparr>w_data := kd'\<rparr>)" "kdata_inv kd'" "appendable kd'"
    "messages kd' = messages kd @ new" "map msg_bytes new = ms" "\<forall>m \<in> set new. unread m \<and> msg_socketid m = i"
    by auto
  with kd Cons.prems(7) b show ?case
    by (intro exI [of _ kd'] exI [of _ "?msg # new"]) (simp add: regist_recv_def)
qed

text \<open>The bytes left over for a socket.\<close>

definition left_of :: "kbuffer \<Rightarrow> int \<Rightarrow> byte list" where
  "left_of b i = (case map_of (left_entries b) i of None \<Rightarrow> [] | Some d \<Rightarrow> d)"

text \<open>
  Left-over bytes can be taken out safely when their entry is the first or the last one of the
  table, or there is none.
\<close>

definition at_end :: "kbuffer \<Rightarrow> int \<Rightarrow> bool" where
  "at_end b i \<longleftrightarrow> i \<notin> fst ` set (left_entries b) \<or> i = fst (hd (left_entries b)) \<or> i = fst (last (left_entries b))"

lemma get_left:
  assumes inv: "kbuffer_inv g b" and i: "at_end b i" and n: "length (left_of b i) \<le> n"
  shows "\<exists>b'. kBufferGet i True (Some (replicate n 0)) b =
       Inr (True, Some (int (length (left_of b i))), Some (left_of b i @ replicate (n - length (left_of b i)) 0), b') \<and>
     kbuffer_inv g b' \<and> left_entries b' = filter (\<lambda>e. fst e \<noteq> i) (left_entries b)"
proof (cases "map_of (left_entries b) i")
  case None
  then have "i \<notin> fst ` set (left_entries b)" by (simp add: map_of_eq_None_iff)
  moreover from this have "filter (\<lambda>e. fst e \<noteq> i) (left_entries b) = left_entries b"
    by (auto simp: filter_id_conv)
  ultimately show ?thesis
    using kBufferGet_absent [OF inv, of i "replicate n 0"] None inv by (simp add: left_of_def)
next
  case (Some d)
  then have "(i, d) \<in> set (left_entries b)" by (rule map_of_SomeD)
  moreover from this have "i \<in> fst ` set (left_entries b)" by force
  ultimately show ?thesis
    using kBufferGet_found [OF inv, of i d "replicate n 0"] Some i n
    by (auto simp: left_of_def at_end_def)
qed

lemma keep_ok:
  assumes inv: "kbuffer_inv (g_socket_socketid (w_sk w)) (w_buf w)" and mem: "\<forall>k. e_malloc env k = (True, True)"
    and rest: "rest = [] \<or> 4 \<le> length rest" and new: "i \<notin> fst ` set (left_entries (w_buf w))"
    and room: "g_ld_datanum (w_buf w) \<noteq> g_socket_socketid (w_sk w)"
  shows "\<exists>b. keep env k i rest w = Inr (w\<lparr>w_buf := b\<rparr>) \<and> kbuffer_inv (g_socket_socketid (w_sk w)) b \<and>
     left_entries b = left_entries (w_buf w) @ (if rest = [] then [] else [(i, rest)])"
proof (cases "rest = []")
  case True
  then show ?thesis using inv by (intro exI [of _ "w_buf w"]) (simp add: keep_def)
next
  case False
  with kBufferSet_append [OF inv, of True True "int (length rest)" rest i] rest room new mem show ?thesis
    by (auto simp: keep_def)
qed

text \<open>Everything before the loop: lookup, receive, merge, and the choice of the parser.\<close>

lemma tcp_start:
  assumes inv: "koid_inv w"
    and sock: "0 \<le> h" "live_at h (w_sk w) = Some i" "si = sk_table (w_sk w) ! i" "si_type si = SI_TYPE_DATA"
      "si_uniq si = DataI d" "si_tls_mode si = 0" "si_socketid si = sid"
    and parser: "kParserGet (si_peyload_type si) (w_parser w) = Some p"
    and recv: "e_recv env h = Some bs" "bs \<noteq> []"
    and fits: "length (left_of (w_buf w) sid @ bs) \<le> 65536" and ends: "at_end (w_buf w) sid"
  obtains b where "kbuffer_inv (g_socket_socketid (w_sk w)) b"
    "left_entries b = filter (\<lambda>e. fst e \<noteq> sid) (left_entries (w_buf w))"
    "process_si_type_tcp env h w = tcp_loop (Suc (length (left_of (w_buf w) sid @ bs))) env (call_parser env p) sid
       ([] @ (left_of (w_buf w) sid @ bs) @ replicate (65536 - length (left_of (w_buf w) sid) - length bs) 0)
       (int (length [])) (int (length (left_of (w_buf w) sid @ bs))) 0 (w\<lparr>w_buf := b\<rparr>)"
proof -
  note I = koid_invD [OF inv]
  let ?l = "left_of (w_buf w) sid"
  have ty: "si_type (sk_table (w_sk w) ! i) \<in> {SI_TYPE_UDP, SI_TYPE_DATA, SI_TYPE_LISTEN_UDP}"
    "si_uniq (sk_table (w_sk w) ! i) = DataI d" using sock by auto
  note look = handle_lookup [OF I(1) sock(1,2) ty, of env]
  obtain b where b: "kBufferGet sid True (Some (replicate 65536 0)) (w_buf w) =
      Inr (True, Some (int (length ?l)), Some (?l @ replicate (65536 - length ?l) 0), b)"
    "kbuffer_inv (g_socket_socketid (w_sk w)) b" "left_entries b = filter (\<lambda>e. fst e \<noteq> sid) (left_entries (w_buf w))"
    using get_left [OF I(4) ends, of 65536] fits by auto
  have cp: "cmemcpy (?l @ replicate (65536 - length ?l) 0) (length ?l) bs (length bs) =
      Inr ((?l @ bs) @ replicate (65536 - length ?l - length bs) 0)"
    using fits by (simp add: cmemcpy_def)
  have "process_si_type_tcp env h w = tcp_loop (Suc (length (?l @ bs))) env (call_parser env p) sid
       ([] @ (?l @ bs) @ replicate (65536 - length ?l - length bs) 0)
       (int (length [])) (int (length (?l @ bs))) 0 (w\<lparr>w_buf := b\<rparr>)"
    using look recv sock b(1) cp parser
    by (simp add: process_si_type_tcp_def tcp_recv_def Let_def tcp_merge_def set_parser_def MSG_MAXDATALEN_def nat_add_distrib)
  with b show ?thesis by (blast intro: that)
qed

section \<open>Properties\<close>

text \<open>
  C1: Bytes that arrive on a TCP connection for DNS (without TLS) are appended to those left over for it, and
  the whole is cut into messages by their length fields: exactly the complete messages are registered, in order, for
  the connection as unread, and exactly the incomplete rest is stored for the next time; the socket
  table does not change. This is so when the rest is empty or has at least four bytes, each message with its length field
  is shorter than 32768 bytes, left-over and new bytes leave three bytes of the 64K buffer free, the entry
  left over for the connection is the first or the last of its table or there is none, and message ids, the room
  for left-over entries and memory suffice.
\<close>

theorem process_si_type_tcp_dns:
  assumes inv: "koid_inv w"
    and sock: "0 \<le> h" "live_at h (w_sk w) = Some i" "si = sk_table (w_sk w) ! i" "si_type si = SI_TYPE_DATA"
      "si_uniq si = DataI d" "si_tls_mode si = 0" "si_peyload_type si = P_DNS" "si_socketid si = sid"
    and parser: "kParserGet P_DNS (w_parser w) = Some (Some FnDNS)"
    and recv: "e_recv env h = Some bs" "bs \<noteq> []"
    and fits: "length (left_of (w_buf w) sid @ bs) + 3 \<le> 65536"
    and frames: "frames dns_cut (left_of (w_buf w) sid @ bs) = (ms, rest)"
      "\<forall>m \<in> set ms. length m < 32768" "rest = [] \<or> 4 \<le> length rest"
    and ends: "at_end (w_buf w) sid"
    and room: "int (length (filter (\<lambda>e. fst e \<noteq> sid) (left_entries (w_buf w)))) < g_socket_socketid (w_sk w)"
    and mem: "\<forall>k. e_malloc env k = (True, True)" "g_msg_dataid (w_data w) + int (length ms) \<le> MSG_MAXMSGNUM"
  shows "\<exists>w' new. process_si_type_tcp env h w = Inr (RETURN_OK, w') \<and> koid_inv w' \<and>
     messages (w_data w') = messages (w_data w) @ new \<and> map msg_bytes new = ms \<and>
     (\<forall>m \<in> set new. unread m \<and> msg_socketid m = sid) \<and>
     left_entries (w_buf w') = filter (\<lambda>e. fst e \<noteq> sid) (left_entries (w_buf w)) @
       (if rest = [] then [] else [(sid, rest)]) \<and> w_sk w' = w_sk w"
proof -
  note I = koid_invD [OF inv]
  let ?bs = "left_of (w_buf w) sid @ bs"
  let ?zs = "replicate (65536 - length (left_of (w_buf w) sid) - length bs) 0 :: byte list"
  have P: "call_parser env (Some FnDNS) = kParserDNS" by (intro ext) (simp add: call_parser_def)
  from parser sock(7) have "kParserGet (si_peyload_type si) (w_parser w) = Some (Some FnDNS)" by simp
  from tcp_start [OF inv sock(1-6,8) this recv _ ends] fits obtain b where
    b: "kbuffer_inv (g_socket_socketid (w_sk w)) b" "left_entries b = filter (\<lambda>e. fst e \<noteq> sid) (left_entries (w_buf w))"
    and run: "process_si_type_tcp env h w = tcp_loop (Suc (length ?bs)) env kParserDNS sid ([] @ ?bs @ ?zs)
      (int (length [])) (int (length ?bs)) 0 (w\<lparr>w_buf := b\<rparr>)" (is "_ = tcp_loop _ _ _ _ _ _ _ _ ?w")
    unfolding P by (auto simp del: append_assoc append_Nil)
  let ?k = "length ?bs"
  obtain kd new where D: "deliver_all env ?k sid ms ?w = Inr (?w\<lparr>w_data := kd\<rparr>)" "kdata_inv kd" "appendable kd"
     "messages kd = messages (w_data w) @ new" "map msg_bytes new = ms" "\<forall>m \<in> set new. unread m \<and> msg_socketid m = sid"
    using deliver_all_ok [of ?w sid si d env ms ?k] live_at_Some [OF I(1) sock(2)] sock I(1-3) mem
    by (auto simp: data_type_def)
  let ?w1 = "?w\<lparr>w_data := kd\<rparr>"
  obtain b2 where B: "keep env (?k - length ms) sid rest ?w1 = Inr (?w1\<lparr>w_buf := b2\<rparr>)"
     "kbuffer_inv (g_socket_socketid (w_sk w)) b2" "left_entries b2 = left_entries b @ (if rest = [] then [] else [(sid, rest)])"
    using keep_ok [of ?w1 env rest sid "?k - length ms"] b mem(1) frames(3) room kbuffer_inv_num [OF b(1)]
    by auto
  have "process_si_type_tcp env h w = Inr (RETURN_OK, ?w1\<lparr>w_buf := b2\<rparr>)"
  proof -
    have zs: "3 \<le> length ?zs" and bs: "?bs \<noteq> []" using fits recv(2) by auto
    have "tcp_loop (Suc (length ?bs)) env kParserDNS sid ([] @ ?bs @ ?zs) (int (length [])) (int (length ?bs)) 0 ?w =
        Inr (RETURN_OK, ?w1\<lparr>w_buf := b2\<rparr>)"
      using dns.tcp_loop_frames [OF bs zs, of "Suc ?k" env sid "[]" 0 ?w] frames D(1) B(1)
      by (simp del: length_append append_assoc)
    with run show ?thesis by (rule trans)
  qed
  moreover have "koid_inv (?w1\<lparr>w_buf := b2\<rparr>)"
    using I D(2,3) B(2) by (simp add: koid_inv_def)
  ultimately show ?thesis using D B(3) b(2) by (intro exI [of _ "?w1\<lparr>w_buf := b2\<rparr>"] exI [of _ new]) simp
qed

theorem process_si_type_tcp_dns_witness:
  "\<exists>w' new. process_si_type_tcp (demo_env [0, 1, 9, 0, 2, 5, 6, 0, 9, 1, 1]) 6 demo_koid = Inr (RETURN_OK, w') \<and>
     messages (w_data w') = new \<and> map msg_bytes new = [[0, 1, 9], [0, 2, 5, 6]] \<and>
     left_entries (w_buf w') = [(4, [0, 9, 1, 1])]"
proof -
  let ?bs = "[0, 1, 9, 0, 2, 5, 6, 0, 9, 1, 1] :: byte list"
  have fr: "frames dns_cut ?bs = ([[0, 1, 9], [0, 2, 5, 6]], [0, 9, 1, 1])"
    by (simp add: frames.simps dns_cut_def)
  have live: "live_at 6 (w_sk demo_koid) = Some 3"
    by (simp add: demo_koid_tables live_at_def demo_defs socket_consts)
  have "left_of (w_buf demo_koid) 4 = []" "at_end (w_buf demo_koid) 4"
    "sk_table (w_sk demo_koid) ! 3 = demo_si SI_TYPE_DATA 4 6 (DataI (demo_data 2))"
    "g_socket_socketid (w_sk demo_koid) = 6" "g_msg_dataid (w_data demo_koid) = 0"
    "kParserGet P_DNS (w_parser demo_koid) = Some (Some FnDNS)"
    by (simp_all add: demo_koid_tables left_of_def at_end_def)
      (simp_all add: demo_def demo_koid_def kdata_boot_def kParserInit_table kParserGet_def parser_consts)
  with process_si_type_tcp_dns [OF demo_koid_inv _ live, of "demo_si SI_TYPE_DATA 4 6 (DataI (demo_data 2))"
      "demo_data 2" 4 "demo_env ?bs" ?bs "[[0, 1, 9], [0, 2, 5, 6]]" "[0, 9, 1, 1]"] fr
  show ?thesis by (auto simp: demo_env_def demo_si_def demo_koid_tables MSG_MAXMSGNUM_def)
qed

end
