(* ===== verification/KDataFlush.thy ===== *)
theory KDataFlush
  imports KData
begin

text \<open>
  \<open>lib/kData\<close>, continued: dropping messages (\<open>kDataClear\<close>, \<open>kDataInit\<close>) and looking one up by
  its id.
\<close>

section \<open>Dropping messages\<close>

text \<open>Unlinking and freeing one node in the loop of \<open>kDataClear\<close>.\<close>

lemma clear_step:
  assumes ch: "tbl_chain msg_next t (us @ (a, n) # ws)"
    and prev: "prev = (if us = [] then None else Some (fst (last us)))" and m: "m n"
  shows "\<exists>t'. clear_loop (Suc k) m prev (Some a) t = clear_loop k m prev (msg_next n) t' \<and>
     tbl_chain msg_next t' (relink msg_setnext (msg_next n) us @ ws) \<and> final t' = final t \<and>
     cells (hp t') a = Freed n \<and> keeps_freed (hp t') = keeps_freed (hp t) \<and>
     (\<forall>c x. cells (hp t) c = Freed x \<longrightarrow> cells (hp t') c = Freed x)"
proof -
  from md.unlink_ok [OF ch prev] obtain u where
    u: "unlink msg_next msg_setnext t prev a = Inr u"
      "tbl_chain msg_next u (relink msg_setnext (msg_next n) us @ ws)"
      "cells (hp u) a = Freed n" "keeps_freed (hp u) = keeps_freed (hp t)" by blast
  let ?t' = "u\<lparr>final := final t\<rparr>"
  have c: "chain msg_next (hp t) (first t) (us @ (a, n) # ws) None" using ch by (simp add: tbl_chain_def)
  then have live: "cells (hp t) a = Live n" by (auto simp: chain_append)
  have dist: "a \<notin> fst ` set us" "a \<notin> fst ` set ws" using chain_distinct [OF c] by auto
  have notfirst: "first u \<noteq> Some a"
  proof
    assume "first u = Some a"
    with u(2,3) show False
      by (cases "relink msg_setnext (msg_next n) us @ ws")
        (auto simp: tbl_chain_def)
  qed
  have "clear_loop (Suc k) m prev (Some a) t = clear_loop k m prev (msg_next n) ?t' \<and>
     (\<forall>c x. cells (hp t) c = Freed x \<longrightarrow> cells (hp u) c = Freed x)"
  proof (cases prev)
    case None
    with u(1) live m notfirst show ?thesis by (auto simp: unlink_def)
  next
    case (Some p)
    with prev obtain ys y where us: "us = ys @ [(p, y)]"
      by (cases us rule: rev_cases) (auto split: if_splits)
    with c have "cells (hp t) p = Live y" by (auto simp: chain_append)
    with Some u(1) live m notfirst us dist show ?thesis by (auto simp: unlink_def)
  qed
  with u show ?thesis by (intro exI [of _ ?t']) (auto simp: tbl_chain_def)
qed

lemma clear_loop_chain:
  assumes "tbl_chain msg_next t (us @ ws)" "stable m" "length ws \<le> k"
    "p = (case ws of [] \<Rightarrow> None | (a, n) # _ \<Rightarrow> Some a)"
    "prev = (if us = [] then None else Some (fst (last us)))"
  shows "\<exists>t' xs. clear_loop k m prev p t = Inr t' \<and> tbl_chain msg_next t' xs \<and>
     map (msg_pay \<circ> snd) xs = map (msg_pay \<circ> snd) us @ filter (\<lambda>x. \<not> m x) (map (msg_pay \<circ> snd) ws) \<and>
     map fst xs = map fst us @ map fst (filter (\<lambda>x. \<not> m (snd x)) ws) \<and>
     final t' = final t \<and>
     (\<forall>c x. cells (hp t) c = Freed x \<longrightarrow> cells (hp t') c = Freed x) \<and>
     (\<forall>(c, x) \<in> set ws. m x \<longrightarrow> (\<exists>y. cells (hp t') c = Freed y))"
  using assms
proof (induction ws arbitrary: us t prev p k)
  case Nil
  then show ?case by (intro exI [of _ t] exI [of _ us]) simp
next
  case (Cons w ws)
  obtain a n where w: "w = (a, n)" by (cases w)
  obtain k' where k: "k = Suc k'" using Cons.prems(3) by (cases k) auto
  have c: "chain msg_next (hp t) (first t) (us @ (a, n) # ws) None"
    using Cons.prems(1) w by (simp add: tbl_chain_def)
  then have live: "cells (hp t) a = Live n" and nx: "msg_next n = (case ws of [] \<Rightarrow> None | (b, _) # _ \<Rightarrow> Some b)"
    by (auto simp: chain_append split: list.splits)
  have mn: "m (msg_pay n) = m n" using Cons.prems(2) by (simp add: stable_def)
  show ?case
  proof (cases "m n")
    case False
    have "clear_loop k m prev p t = clear_loop k' m (Some a) (msg_next n) t"
      using False live k Cons.prems(4) w by simp
    with Cons.IH [of t "us @ [(a, n)]" k' "msg_next n" "Some a"] Cons.prems nx k w False mn
    show ?thesis by auto
  next
    case True
    from clear_step [of t us a n ws prev m k', OF _ Cons.prems(5) True] Cons.prems(1) w obtain t1 where
      t1: "clear_loop (Suc k') m prev (Some a) t = clear_loop k' m prev (msg_next n) t1"
        "tbl_chain msg_next t1 (relink msg_setnext (msg_next n) us @ ws)" "final t1 = final t"
        "cells (hp t1) a = Freed n" "keeps_freed (hp t1) = keeps_freed (hp t)"
        "\<forall>c x. cells (hp t) c = Freed x \<longrightarrow> cells (hp t1) c = Freed x" by blast
    let ?us = "relink msg_setnext (msg_next n) us"
    have prev: "prev = (if ?us = [] then None else Some (fst (last ?us)))"
      using Cons.prems(5) by (auto simp: relink_def)
    have "length ws \<le> k'" using Cons.prems(3) k by simp
    from Cons.IH [OF t1(2) Cons.prems(2) this nx prev] obtain t' xs where
      t': "clear_loop k' m prev (msg_next n) t1 = Inr t'" "tbl_chain msg_next t' xs"
        "map (msg_pay \<circ> snd) xs = map (msg_pay \<circ> snd) ?us @ filter (\<lambda>x. \<not> m x) (map (msg_pay \<circ> snd) ws)"
        "map fst xs = map fst ?us @ map fst (filter (\<lambda>x. \<not> m (snd x)) ws)"
        "final t' = final t1"
        "\<forall>c x. cells (hp t1) c = Freed x \<longrightarrow> cells (hp t') c = Freed x"
        "\<forall>(c, x) \<in> set ws. m x \<longrightarrow> (\<exists>y. cells (hp t') c = Freed y)" by blast
    have "map (msg_pay \<circ> snd) ?us = map (msg_pay \<circ> snd) us"
      using md.pay_relink by simp
    then have pays: "map (msg_pay \<circ> snd) xs =
        map (msg_pay \<circ> snd) us @ filter (\<lambda>x. \<not> m x) (map (msg_pay \<circ> snd) (w # ws))"
      using t'(3) w True mn by simp
    have run: "clear_loop k m prev p t = Inr t'"
      using t1(1) t'(1) k w Cons.prems(4) by (simp del: clear_loop.simps)
    have fin: "final t' = final t" using t1(3) t'(5) by simp
    have freed: "\<forall>c x. cells (hp t) c = Freed x \<longrightarrow> cells (hp t') c = Freed x"
      using t1 t'(6) by blast
    have gone: "\<forall>(c, x) \<in> set (w # ws). m x \<longrightarrow> (\<exists>y. cells (hp t') c = Freed y)"
      using t1(4) t'(6,7) w by auto
    have "map fst xs = map fst us @ map fst (filter (\<lambda>x. \<not> m (snd x)) (w # ws))"
      using t'(4) w True by simp
    with run t'(2) pays fin freed gone show ?thesis by blast
  qed
qed

text \<open>What a clear with at least one flag leaves.\<close>

lemma kDataClear_runs:
  assumes inv: "kdata_inv s" and ms: "messages s \<noteq> []" and flag: "f1 \<noteq> 0 \<or> f2 \<noteq> 0"
  obtains s' xs where "kDataClear f1 f2 i d s = Inr (True, s')" "kdata_inv s'"
    "messages s' = filter (\<lambda>m. \<not> clear_match f1 f2 i d m) (messages s)"
    "nodes msg_next (md_tbl s') = xs"
    "map fst xs = map fst (filter (\<lambda>x. \<not> clear_match f1 f2 i d (snd x)) (nodes msg_next (md_tbl s)))"
    "final (md_tbl s') = final (md_tbl s)" "g_msg_dataid s' = g_msg_dataid s"
    "\<forall>(c, x) \<in> set (nodes msg_next (md_tbl s)). clear_match f1 f2 i d x \<longrightarrow>
       (\<exists>y. cells (hp (md_tbl s')) c = Freed y)"
proof -
  let ?m = "clear_match f1 f2 i d" and ?xs = "nodes msg_next (md_tbl s)" and ?t = "md_tbl s"
  have ch: "tbl_chain msg_next ?t ([] @ ?xs)" using inv by (simp add: kdata_inv_def)
  then have c: "chain msg_next (hp ?t) (first ?t) ?xs None" "heap_ok (hp ?t)"
    by (auto simp: tbl_chain_def)
  have start: "first ?t = (case ?xs of [] \<Rightarrow> None | (a, n) # _ \<Rightarrow> Some a)"
    using c(1) by (cases ?xs) auto
  have "stable ?m" by (simp add: stable_def)
  from clear_loop_chain [OF ch this chain_length [OF c(2,1)] start, of None] obtain t' xs where
    t': "clear_loop (brk (hp ?t)) ?m None (first ?t) ?t = Inr t'" "tbl_chain msg_next t' xs"
      "map (msg_pay \<circ> snd) xs = filter (\<lambda>x. \<not> ?m x) (messages s)"
      "map fst xs = map fst (filter (\<lambda>x. \<not> ?m (snd x)) ?xs)"
      "final t' = final ?t" "\<forall>(c, x) \<in> set ?xs. ?m x \<longrightarrow> (\<exists>y. cells (hp t') c = Freed y)"
    by (auto simp: messages_def)
  let ?s' = "s\<lparr>md_tbl := t'\<rparr>"
  have run: "kDataClear f1 f2 i d s = Inr (True, ?s')"
    using t'(1) flag ms first_nodes [OF inv] by (auto simp: kDataClear_def)
  have "msgs_ok (g_msg_dataid s) (filter (\<lambda>x. \<not> ?m x) (messages s))"
    using inv by (auto simp: kdata_inv_def msgs_ok_def sorted_wrt_map intro: sorted_wrt_filter)
  with kdata_invI [of ?s' xs, OF _ t'(3)] t'(2) inv
  have "kdata_inv ?s'" "messages ?s' = filter (\<lambda>x. \<not> ?m x) (messages s)"
    by (auto simp: kdata_inv_def)
  from that [OF run this(1,2)] t' tbl_chain_nodes [OF t'(2)] show ?thesis by simp
qed

text \<open>
  C27: A flush drops exactly the messages whose data id or socket id is the given one (for the
  flags set to 1), keeps the others in order, and without flags and with zero ids drops
  all messages and starts the ids again. A flush with no flag and an id is refused.
\<close>

theorem kDataClear_filters:
  assumes inv: "kdata_inv s"
  shows "if messages s = [] then kDataClear f1 f2 i d s = Inr (True, s)
     else if f1 = 0 \<and> f2 = 0 \<and> \<not> (i = 0 \<and> d = 0) then kDataClear f1 f2 i d s = Inr (False, s)
     else \<exists>s'. kDataClear f1 f2 i d s = Inr (True, s') \<and> kdata_inv s' \<and>
       (if f1 = 0 \<and> f2 = 0 then messages s' = [] \<and> g_msg_dataid s' = 0 \<and> appendable s'
        else messages s' = filter (\<lambda>m. \<not> ((f2 = 1 \<and> msg_dataid m = d) \<or> (f1 = 1 \<and> msg_socketid m = i)))
               (messages s) \<and> g_msg_dataid s' = g_msg_dataid s)"
proof (cases "messages s = [] \<or> (f1 = 0 \<and> f2 = 0)")
  case True
  then show ?thesis
    using first_nodes [OF inv] kDataInit_clears [OF inv] by (auto simp: kDataClear_def)
next
  case False
  then have "messages s \<noteq> []" "f1 \<noteq> 0 \<or> f2 \<noteq> 0" by auto
  from kDataClear_runs [OF inv this, of i d] obtain s' where
    "kDataClear f1 f2 i d s = Inr (True, s')" "kdata_inv s'"
    "messages s' = filter (\<lambda>m. \<not> clear_match f1 f2 i d m) (messages s)"
    "g_msg_dataid s' = g_msg_dataid s" by metis
  with False show ?thesis by (auto simp: clear_match_def)
qed

theorem kDataClear_filters_witness:
  "\<exists>s'. kDataClear 1 0 6 0 (demo_kdata 6) = Inr (True, s') \<and> messages s' = []"
  using kDataClear_filters [OF demo_kdata_ok(1), of 6 1 0 6 0] by (auto simp: demo_messages)

text \<open>
  C33: When a flush drops the last message but not all of them, the last pointer is left on
  freed memory, and the next message that is registered is written through it.
\<close>

theorem kDataClear_dangling_last:
  assumes inv: "kdata_inv s" "appendable s" and sks: "ksocket_inv sks"
    and si: "sock sks j = Some si" "data_type (si_type si)"
    and ms: "messages s = ms @ [m]" "clear_match f1 f2 i d m" "f1 \<noteq> 0 \<or> f2 \<noteq> 0"
    and kept: "x \<in> set ms" "\<not> clear_match f1 f2 i d x"
    and g: "g_msg_dataid s \<noteq> MSG_MAXMSGNUM" and len: "0 \<le> datalen" "datalen \<le> int (length data)"
  shows "\<exists>s'. kDataClear f1 f2 i d s = Inr (True, s') \<and>
     kDataRegist sks True True j mode datalen data time s' = Inl UseAfterFree"
proof -
  let ?m = "clear_match f1 f2 i d"
  have ne: "messages s \<noteq> []" using ms(1) by simp
  obtain s' xs where s': "kDataClear f1 f2 i d s = Inr (True, s')" "kdata_inv s'"
    "messages s' = filter (\<lambda>m. \<not> ?m m) (messages s)"
    "final (md_tbl s') = final (md_tbl s)" "g_msg_dataid s' = g_msg_dataid s"
    "\<forall>(c, x) \<in> set (nodes msg_next (md_tbl s)). ?m x \<longrightarrow> (\<exists>y. cells (hp (md_tbl s')) c = Freed y)"
    by (rule kDataClear_runs [OF inv(1) ne ms(3), of i d])
  from messages_split [of s ms m "[]"] ms(1) obtain ys a n where
    n: "nodes msg_next (md_tbl s) = ys @ [(a, n)]" "msg_pay n = m" by (metis list.map_disc_iff)
  have "?m n" using ms(2) unfolding n(2) [symmetric] by simp
  with s'(6) n(1) obtain y where y: "cells (hp (md_tbl s')) a = Freed y" by auto
  have fin: "final (md_tbl s') = Some a"
    using inv(2) n(1) s'(4) tbl_okD(4) [of msg_next "md_tbl s" "ys @ [(a, n)]"]
    by (simp add: appendable_def)
  have "messages s' \<noteq> []" using s'(3) ms(1) kept by (auto simp: filter_empty_conv)
  then obtain b where f: "first (md_tbl s') = Some b" using first_nodes [OF s'(2)] by auto
  have blk: "a < brk (hp (md_tbl s'))"
    using s'(2) y by (auto simp: kdata_inv_def tbl_chain_def heap_ok_def not_less [symmetric])
  have "link_last msg_setnext ((md_tbl s')\<lparr>hp := snd (halloc nd (hp (md_tbl s')))\<rparr>) c = Inl UseAfterFree"
    for nd c
    using f fin y blk by (auto simp: link_last_def halloc_def load_def hstore_def)
  then have "kDataRegist sks True True j mode datalen data time s' = Inl UseAfterFree"
    using g s'(5) len si sk.get_some [OF sks si(1), of zero_bufs]
    by (auto simp: kDataRegist_def malloc_bytes_def data_type_def si_types halloc_def)
  with s'(1) show ?thesis by blast
qed

theorem kDataClear_dangling_last_witness:
  "\<exists>s1 s2. kDataRegist demo True True 6 MSG_SOCKETMODE_RECV 1 [9] \<lparr>tv_sec = 0, tv_usec = 0\<rparr> (demo_kdata 6) =
       Inr (RETURN_OK, s1) \<and>
     kDataClear 0 1 0 2 s1 = Inr (True, s2) \<and>
     kDataRegist demo True True 6 MSG_SOCKETMODE_RECV 1 [9] \<lparr>tv_sec = 0, tv_usec = 0\<rparr> s2 = Inl UseAfterFree"
proof -
  let ?si = "demo_si SI_TYPE_UDP 6 8 (DataI (demo_data 0))" and ?t = "\<lparr>tv_sec = 0, tv_usec = 0\<rparr>"
  have si: "sock demo 6 = Some ?si" "si_uniq ?si = DataI (demo_data 0)" "data_type (si_type ?si)"
    by (simp_all add: sock_def demo_def, simp_all add: demo_si_def data_type_def)
  have g: "g_msg_dataid (demo_kdata 6) = 1" by (simp add: demo_kdata_def)
  from kDataRegist_append [OF demo_kdata_ok demo_inv(1) si, of 6 1 "[9]" MSG_SOCKETMODE_RECV ?t]
  obtain s1 where s1: "kDataRegist demo True True 6 MSG_SOCKETMODE_RECV 1 [9] ?t (demo_kdata 6) = Inr (RETURN_OK, s1)"
    "kdata_inv s1" "appendable s1" "g_msg_dataid s1 = 2"
    "messages s1 = [demo_msg 6] @ [build_msg 2 6 MSG_SOCKETMODE_RECV (demo_data 0) (the (b_listen zero_bufs)) 1 [9] ?t]"
    by (auto simp: g MSG_MAXMSGNUM_def demo_messages)
  have "clear_match 0 1 0 2 (build_msg 2 6 MSG_SOCKETMODE_RECV (demo_data 0) (the (b_listen zero_bufs)) 1 [9] ?t)"
    "\<not> clear_match 0 1 0 2 (demo_msg 6)"
    by (simp_all add: clear_match_def) (simp add: build_msg_def Let_def)
  with kDataClear_dangling_last [OF s1(2,3) demo_inv(1) si(1,3) s1(5), of 0 1 0 2 "demo_msg 6" 1 "[9]"
      MSG_SOCKETMODE_RECV ?t] s1(1,4)
  show ?thesis by (auto simp: MSG_MAXMSGNUM_def)
qed

section \<open>Looking a message up by its id\<close>

text \<open>
  A lookup by data id finds the one message with that id, read or not, and copies its bytes;
  without such a message the answer is 1 and the caller's buffer is untouched.
\<close>

theorem kDataGetDataByDataid_correct:
  assumes inv: "kdata_inv s" and len: "\<forall>m \<in> set (messages s). length (msg_bytes m) \<le> length dst"
  shows "(\<forall>m \<in> set (messages s). \<exists>q. kDataGetDataByDataid (msg_dataid m) True (Some dst) s =
       Inr (RETURN_OK, Some (msg_setnext q m), Some (msg_bytes m @ drop (length (msg_bytes m)) dst))) \<and>
     (\<forall>d. d \<notin> msg_dataid ` set (messages s) \<longrightarrow>
       kDataGetDataByDataid d True (Some dst) s = Inr (1, None, Some dst))"
proof (intro conjI ballI allI impI)
  fix m assume m: "m \<in> set (messages s)"
  then obtain us ws where sp: "messages s = us @ m # ws" by (auto simp: in_set_conv_decomp)
  from messages_split [OF sp] obtain xs a n zs where
    n: "nodes msg_next (md_tbl s) = xs @ (a, n) # zs" "map (msg_pay \<circ> snd) xs = us" "msg_pay n = m" by metis
  let ?P = "\<lambda>n. msg_dataid n = msg_dataid m"
  have ids: "sorted_wrt (<) (map msg_dataid (messages s))" "msg_datalen m = int (length (msg_bytes m))"
    using inv m by (auto simp: kdata_inv_def msgs_ok_def)
  have "\<forall>u \<in> set us. msg_dataid u \<noteq> msg_dataid m"
    using ids(1) unfolding sp by (auto simp: sorted_wrt_append)
  then have "\<forall>u \<in> set (map (msg_pay \<circ> snd) xs). msg_dataid u \<noteq> msg_dataid m" unfolding n(2) .
  moreover have "stable ?P" by (simp add: stable_def)
  moreover have "?P (msg_pay n)" unfolding n(3) ..
  ultimately obtain r where "scan (brk (hp (md_tbl s))) msg_next ?P (hp (md_tbl s)) None (first (md_tbl s)) =
      Inr (Some (r, a, n))"
    using scan_messages_found [OF inv _ n(1), of ?P] by blast
  moreover have "msg_bytes n = msg_bytes m" "msg_datalen n = msg_datalen m"
    unfolding n(3) [symmetric] by simp_all
  moreover have "n = msg_setnext (msg_next n) m" unfolding n(3) [symmetric] by (simp add: msg_setnext_def)
  moreover have "first (md_tbl s) \<noteq> None" using first_nodes [OF inv] sp by simp
  ultimately have "kDataGetDataByDataid (msg_dataid m) True (Some dst) s = Inr (RETURN_OK,
      Some (msg_setnext (msg_next n) m), Some (msg_bytes m @ drop (length (msg_bytes m)) dst))"
    using len m ids(2) by (simp add: kDataGetDataByDataid_def)
  then show "\<exists>q. kDataGetDataByDataid (msg_dataid m) True (Some dst) s =
       Inr (RETURN_OK, Some (msg_setnext q m), Some (msg_bytes m @ drop (length (msg_bytes m)) dst))"
    by blast
next
  fix d assume d: "d \<notin> msg_dataid ` set (messages s)"
  show "kDataGetDataByDataid d True (Some dst) s = Inr (1, None, Some dst)"
  proof (cases "messages s = []")
    case True
    then show ?thesis using first_nodes [OF inv] by (simp add: kDataGetDataByDataid_def)
  next
    case False
    have "stable (\<lambda>n. msg_dataid n = d)" by (simp add: stable_def)
    moreover have "\<forall>u \<in> set (messages s). msg_dataid u \<noteq> d" using d by force
    ultimately show ?thesis
      using scan_messages_none [OF inv _ False, of "\<lambda>n. msg_dataid n = d"] first_nodes [OF inv] False
      by (auto simp: kDataGetDataByDataid_def)
  qed
qed

theorem kDataGetDataByDataid_correct_witness:
  "\<exists>q. kDataGetDataByDataid 1 True (Some [0, 0, 0, 0, 0]) (demo_kdata 6) =
     Inr (RETURN_OK, Some (msg_setnext q (demo_msg 6)), Some [1, 2, 3, 4, 0])"
  using kDataGetDataByDataid_correct [OF demo_kdata_ok(1), of 6 "[0, 0, 0, 0, 0]"]
  by (simp add: demo_messages)

end
