(* ===== verification/KOpenFacts.thy ===== *)
theory KOpenFacts
  imports KStep
begin

text \<open>
  What opening a socket does: the connection that is made, the entry that is registered, and the inputs
  on which it goes wrong.
\<close>

section \<open>Closing stale entries\<close>

text \<open>
  An entry with the new descriptor, left from an earlier socket, is marked closed; at most one is.
\<close>

definition stale :: "int \<Rightarrow> ksocket \<Rightarrow> ksocket \<Rightarrow> bool" where
  "stale fd s s' \<longleftrightarrow> (\<forall>i. sock s' i = sock s i \<or>
     (\<exists>si. sock s i = Some si \<and> si_sockethandle si = fd \<and> sock s' i = Some (closed si)))"

lemma set_status_stale:
  assumes inv: "ksocket_inv s" and i: "i < length (sk_table s)" "si_sockethandle (sk_table s ! i) = fd"
  shows "stale fd s (si_set_status i SI_STATUS_CLOSE s)"
proof -
  let ?si = "sk_table s ! i"
  have sp: "sk_table s = take i (sk_table s) @ ?si # drop (Suc i) (sk_table s)"
    using i(1) by (simp add: id_take_nth_drop)
  have "sk_table (si_set_status i SI_STATUS_CLOSE s) = take i (sk_table s) @ closed ?si # drop (Suc i) (sk_table s)"
    using i(1) by (simp add: si_set_status_def upd_conv_take_nth_drop)
  from sock_set_status [OF inv sp this] sock_Some [OF inv, of ?si] i show ?thesis
    by (auto simp: stale_def)
qed

lemma make_close_stale:
  assumes inv: "ksocket_inv s" and fd: "0 \<le> fd"
  shows "\<exists>s1. kSocketMakeSocketStatusClose fd s = (RETURN_OK, s1) \<and> stale fd s s1 \<and> ksocket_inv s1 \<and>
     g_socket_socketid s1 = g_socket_socketid s \<and> g_readfds s1 = g_readfds s \<and> closed_fds s1 = closed_fds s"
proof (cases "si_loop 0 (\<lambda>si. si_sockethandle si = fd) (sk_table s)")
  case None
  then show ?thesis using inv fd by (auto simp: kSocketMakeSocketStatusClose_def stale_def)
next
  case (Some i)
  then have i: "i < length (sk_table s)" "si_sockethandle (sk_table s ! i) = fd"
    using first_index_Some by (auto simp: si_loop_inv [OF inv])
  then have sp: "sk_table s = take i (sk_table s) @ (sk_table s ! i) # drop (Suc i) (sk_table s)"
    by (simp add: id_take_nth_drop)
  have "ksocket_inv (si_set_status i SI_STATUS_CLOSE s)"
    using i by (intro closed_inv [OF inv sp]) (auto simp: si_set_status_def upd_conv_take_nth_drop)
  with set_status_stale [OF inv i] Some i fd show ?thesis
    by (auto simp: kSocketMakeSocketStatusClose_def si_set_status_def)
qed

section \<open>The loop over the addresses\<close>

text \<open>Every address is tried with a socket of its own until one accepts the connection.\<close>

definition try_ok :: "sys \<Rightarrow> bool \<Rightarrow> bool \<Rightarrow> string option \<Rightarrow> if_table \<Rightarrow> sockaddr \<Rightarrow> nat \<Rightarrow> addrinfo \<Rightarrow> bool" where
  "try_ok y multicast broadcast linkname ift src k a \<longleftrightarrow> y_nameinfo y (ai_addr a) \<and> 0 \<le> y_socket y k \<and>
     open_options y (y_socket y k) (ai_family a) multicast broadcast linkname ift \<and> y_bind y (y_socket y k) src"

lemma open_loop_connected:
  assumes "\<forall>j < length bad. try_ok y mc bc link ift src (k + j) (bad ! j) \<and>
       \<not> y_connect y (y_socket y (k + j)) (ai_addr (bad ! j))"
    and "try_ok y mc bc link ift src (k + length bad) a" "y_connect y (y_socket y (k + length bad)) (ai_addr a)"
  shows "open_loop y l t 0 mc bc dp link ift src k (bad @ a # rest) fd ssl s =
     Inr (False, y_socket y (k + length bad), ssl,
       s\<lparr>closed_fds := closed_fds s @ map (y_socket y) [k..<k + length bad]\<rparr>)"
  using assms
proof (induction bad arbitrary: k fd s)
  case Nil
  then show ?case by (simp add: try_ok_def Let_def)
next
  case (Cons b bad)
  have b: "try_ok y mc bc link ift src k b" "\<not> y_connect y (y_socket y k) (ai_addr b)"
    using Cons.prems(1) by force+
  have "\<forall>j < length bad. try_ok y mc bc link ift src (Suc k + j) (bad ! j) \<and>
       \<not> y_connect y (y_socket y (Suc k + j)) (ai_addr (bad ! j))"
    using Cons.prems(1) by force
  moreover have "[k..<k + length (b # bad)] = k # [Suc k..<Suc k + length bad]"
    by (simp add: upt_conv_Cons del: upt_Suc)
  ultimately show ?case
    using Cons.IH [of "Suc k" "-1" "sys_close (y_socket y k) s"] Cons.prems(2,3) b
    by (simp add: try_ok_def Let_def sys_close_def del: upt_Suc)
qed

text \<open>The entry of a socket that has been opened; \<open>dst\<close> is the first destination address.\<close>

definition opened :: "int \<Rightarrow> int \<Rightarrow> string \<Rightarrow> int \<Rightarrow> int \<Rightarrow> sockaddr \<Rightarrow> sockaddr \<Rightarrow> parser_fn option \<Rightarrow> socket_info" where
  "opened type fd link pl g dst own parser =
     \<lparr>si_type = type, si_socketid = g, si_sockethandle = fd, si_linkname = link,
      si_socket_status = SI_STATUS_ALIVE,
      si_uniq = DataI (di_zero\<lparr>di_family := ss_family dst, di_parser := parser,
        di_d_port := be16 dst 2, di_d_addr := addr_in (ss_family dst) dst,
        di_s_port := be16 own 2, di_s_addr := addr_in (ss_family dst) own\<rparr>),
      si_peyload_type = pl, si_tls_mode = 0, si_tls_ssl = None\<rparr>"

lemma open_register_ok:
  assumes inv: "ksocket_inv s" and g: "g_socket_socketid s \<noteq> SOCKET_MAXNUM"
    and type: "type \<in> {SI_TYPE_UDP, SI_TYPE_DATA}" and fd: "0 \<le> fd" "fd < FD_SETSIZE"
    and m: "y_malloc y 0" "y_malloc y 1" and link: "length link < 16"
    and parser: "kParserGet pl pt = Some parser" and own: "y_getsockname y fd = Some own"
  shows "\<exists>s'. open_register y pt type 0 link pl dst None fd s = Inr (RETURN_OK, Some (g_socket_socketid s + 1), s') \<and>
     ksocket_inv s' \<and> sock s' (g_socket_socketid s + 1) = Some (opened type fd link pl (g_socket_socketid s + 1) dst own parser) \<and>
     stale fd s (s'\<lparr>sk_table := butlast (sk_table s')\<rparr>) \<and> g_readfds s' = insert fd (g_readfds s) \<and>
     g_socket_socketid s' = g_socket_socketid s + 1 \<and> closed_fds s' = closed_fds s"
proof -
  let ?g = "g_socket_socketid s + 1" and ?si = "opened type fd link pl (g_socket_socketid s + 1) dst own parser"
  from make_close_stale [OF inv fd(1)] obtain s1 where
    s1: "kSocketMakeSocketStatusClose fd s = (RETURN_OK, s1)" "stale fd s s1" "ksocket_inv s1"
      "g_socket_socketid s1 = g_socket_socketid s" "g_readfds s1 = g_readfds s" "closed_fds s1 = closed_fds s" by blast
  let ?s2 = "s1\<lparr>g_readfds := insert fd (g_readfds s1)\<rparr>"
  let ?s' = "?s2\<lparr>g_socket_socketid := ?g, sk_table := sk_table s1 @ [?si]\<rparr>"
  have claim: "open_claim True fd s = Inr (True, ?s2)"
    using fd s1(1) by (simp add: open_claim_def kSocketSelectOperation_def)
  have id: "short_of ?g = ?g" using next_id [OF inv g] .
  have "open_register y pt type 0 link pl dst None fd s = Inr (RETURN_OK, Some ?g, ?s')"
    using claim m link parser own s1(4) id
    by (simp add: open_register_def cstrcpy_def opened_def si_append_def Let_def)
  moreover have "si_ok ?si" unfolding opened_def by (rule data_si_ok) (use type in auto)
  then have "ksocket_inv ?s'" "sock ?s' = (sock s1)(?g \<mapsto> ?si)"
    using append_inv [of s1 ?si ?s'] s1(3,4) g by (simp_all add: opened_def)
  moreover have "stale fd s (?s'\<lparr>sk_table := butlast (sk_table ?s')\<rparr>)"
    using s1(2) by (simp add: stale_def sock_def)
  ultimately show ?thesis using s1(5,6) by auto
qed

section \<open>Properties\<close>

text \<open>
  C18: \<open>kSocketOpen\<close> connects to the first destination address that accepts, closes the sockets of those
  before it, and registers the new descriptor under the next id, alive and in the select list, with the
  payload type's parser and its own address; other sockets change only in that an entry still holding
  the same descriptor is marked closed. The peer it records is the first address of the list, whichever
  it connected to.
\<close>

theorem kSocketOpen_connects:
  assumes inv: "ksocket_inv s" and g: "g_socket_socketid s \<noteq> SOCKET_MAXNUM"
    and type: "type \<in> {SI_TYPE_UDP, SI_TYPE_DATA}" and pl: "1 \<le> pl" and link: "length link < 16"
    and names: "open_names y af da sa (Some link) ift = Inr (dn, sn)"
    and dst: "y_getaddrinfo y dn (dec_text dp) (family_of af) (if type = SI_TYPE_DATA then SOCK_STREAM else SOCK_DGRAM) =
      Some (bad @ a # rest)"
    and src: "y_getaddrinfo y sn (dec_text sp) (family_of af) (if type = SI_TYPE_DATA then SOCK_STREAM else SOCK_DGRAM) =
      Some (b # others)"
    and bad: "\<forall>j < length bad. try_ok y (is_multicast y da) (fl mod 2 = 1) (Some link) ift (ai_addr b) j (bad ! j) \<and>
      \<not> y_connect y (y_socket y j) (ai_addr (bad ! j))"
    and good: "try_ok y (is_multicast y da) (fl mod 2 = 1) (Some link) ift (ai_addr b) (length bad) a"
      "y_connect y (y_socket y (length bad)) (ai_addr a)" "y_socket y (length bad) < FD_SETSIZE"
    and m: "y_malloc y 0" "y_malloc y 1"
    and parser: "kParserGet pl pt = Some parser" and own: "y_getsockname y (y_socket y (length bad)) = Some own"
  shows "\<exists>s'. kSocketOpen y l t ift pt type 0 af dp da sp sa (Some link) pl fl True s =
       Inr (RETURN_OK, Some (g_socket_socketid s + 1), s') \<and> ksocket_inv s' \<and>
     sock s' (g_socket_socketid s + 1) = Some (opened type (y_socket y (length bad)) link pl
       (g_socket_socketid s + 1) (ai_addr (hd (bad @ [a]))) own parser) \<and>
     stale (y_socket y (length bad)) s (s'\<lparr>sk_table := butlast (sk_table s')\<rparr>) \<and>
     g_readfds s' = insert (y_socket y (length bad)) (g_readfds s) \<and>
     closed_fds s' = closed_fds s @ map (y_socket y) [0..<length bad]"
proof -
  let ?fd = "y_socket y (length bad)" and ?s1 = "s\<lparr>closed_fds := closed_fds s @ map (y_socket y) [0..<length bad]\<rparr>"
  have loop: "open_loop y l t 0 (is_multicast y da) (fl mod 2 = BROADCAST_MASK) dp (Some link) ift (ai_addr b) 0
      (bad @ a # rest) (-1) None s = Inr (False, ?fd, None, ?s1)"
    using open_loop_connected [of bad y "is_multicast y da" "fl mod 2 = 1" "Some link" ift "ai_addr b" 0 a l t dp rest "-1" None s]
      bad good by (simp add: BROADCAST_MASK_def)
  have fd: "0 \<le> ?fd" using good(1) by (simp add: try_ok_def)
  have inv1: "ksocket_inv ?s1" "g_socket_socketid ?s1 \<noteq> SOCKET_MAXNUM" using inv g by (simp_all add: ksocket_inv_def)
  from open_register_ok [OF inv1 type fd good(3) m link parser own, of "ai_addr (hd (bad @ [a]))"] obtain s' where
    s': "open_register y pt type 0 link pl (ai_addr (hd (bad @ [a]))) None ?fd ?s1 = Inr (RETURN_OK, Some (g_socket_socketid s + 1), s')"
      "ksocket_inv s'" "sock s' (g_socket_socketid s + 1) = Some (opened type ?fd link pl
         (g_socket_socketid s + 1) (ai_addr (hd (bad @ [a]))) own parser)"
      "stale ?fd ?s1 (s'\<lparr>sk_table := butlast (sk_table s')\<rparr>)" "g_readfds s' = insert ?fd (g_readfds s)"
      "closed_fds s' = closed_fds s @ map (y_socket y) [0..<length bad]" by auto
  have "stale ?fd s (s'\<lparr>sk_table := butlast (sk_table s')\<rparr>)" using s'(4) by (simp add: stale_def sock_def)
  moreover have "ai_addr (hd (bad @ a # rest)) = ai_addr (hd (bad @ [a]))" by (cases bad) simp_all
  ultimately show ?thesis
    using g pl names dst src loop s' by (auto simp: kSocketOpen_def Let_def)
qed

theorem kSocketOpen_connects_witness:
  "\<exists>s'. kSocketOpen demo_sys demo_ssl ktls_boot if_clear (snd (kParserInit [])) SI_TYPE_DATA 0 CM_IP_IPV4 53
       (replicate 16 0) 0 (replicate 16 0) (Some ''Link0'') P_DNS 0 True demo = Inr (RETURN_OK, Some 7, s') \<and>
     map_option si_sockethandle (sock s' 7) = Some 9"
proof -
  have link: "length ''Link0'' < 16" by simp
  have names: "open_names demo_sys CM_IP_IPV4 (replicate 16 0) (replicate 16 0) (Some ''Link0'') if_clear =
      Inr (''::1'', ''::1'')" by (simp add: open_names_def demo_sys_def socket_consts)
  have parser: "kParserGet P_DNS (snd (kParserInit [])) = Some (Some FnDNS)" by code_simp
  have ok: "try_ok demo_sys mc bc (Some ''Link0'') if_clear src 0 a" if "\<not> mc" for mc bc src a
    using that by (simp add: try_ok_def open_options_def demo_sys_def)
  have mc: "\<not> is_multicast demo_sys (replicate 16 0)" by code_simp
  have g: "g_socket_socketid demo = 6" by (simp add: demo_def)
  have pl: "1 \<le> P_DNS" by (simp add: P_DNS_def)
  let ?a = "\<lparr>ai_family = AF_INET, ai_socktype = SOCK_STREAM, ai_addr = demo_addr\<rparr>"
  from kSocketOpen_connects [OF demo_inv(1) _ _ pl link names, of SI_TYPE_DATA 53 "[]" ?a "[]" 0 ?a "[]" 0
      "snd (kParserInit [])" "Some FnDNS" demo_addr demo_ssl ktls_boot] parser ok mc g
  show ?thesis
    by (auto simp: demo_sys_def family_of_def socket_consts opened_def)
qed

text \<open>
  When \<open>bind\<close> fails for an address, \<open>kSocketOpen\<close> frees both address lists and goes on to read the
  next address from the freed list.
\<close>

theorem kSocketOpen_bind_use_after_free:
  assumes g: "g_socket_socketid s \<noteq> SOCKET_MAXNUM" and pl: "1 \<le> pl"
    and names: "open_names y af da sa (Some link) ift = Inr (dn, sn)"
    and dst: "y_getaddrinfo y dn (dec_text dp) (family_of af) (if type = SI_TYPE_DATA then SOCK_STREAM else SOCK_DGRAM) =
      Some (a # rest)"
    and src: "y_getaddrinfo y sn (dec_text sp) (family_of af) (if type = SI_TYPE_DATA then SOCK_STREAM else SOCK_DGRAM) =
      Some (b # others)"
    and fd: "y_nameinfo y (ai_addr a)" "0 \<le> y_socket y 0"
      "open_options y (y_socket y 0) (ai_family a) (is_multicast y da) (fl mod 2 = 1) (Some link) ift"
    and bind: "\<not> y_bind y (y_socket y 0) (ai_addr b)"
  shows "kSocketOpen y l t ift pt type tls af dp da sp sa (Some link) pl fl True s = Inl UseAfterFree"
  using assms by (simp add: kSocketOpen_def Let_def BROADCAST_MASK_def)

theorem kSocketOpen_bind_use_after_free_witness:
  "kSocketOpen (demo_sys\<lparr>y_bind := \<lambda>_ _. False\<rparr>) demo_ssl ktls_boot if_clear (snd (kParserInit [])) SI_TYPE_UDP 0
     CM_IP_IPV4 53 (replicate 16 0) 53 (replicate 16 0) (Some ''Link0'') P_UDPDNS 0 True demo = Inl UseAfterFree"
proof -
  have mc: "\<not> is_multicast (demo_sys\<lparr>y_bind := \<lambda>_ _. False\<rparr>) (replicate 16 0)" by code_simp
  show ?thesis
    by (rule kSocketOpen_bind_use_after_free [where dn = "''::1''" and sn = "''::1''"])
      (use mc in \<open>auto simp: demo_def open_names_def demo_sys_def socket_consts P_UDPDNS_def open_options_def\<close>)
qed

text \<open>
  A UDP or TCP socket that is to listen on a multicast address is never opened: for joining the group
  the loop reads the host name it has freed before.
\<close>

theorem kSocketOpenWaitSocket_multicast_use_after_free:
  assumes pl: "0 \<le> pl" and g: "g_socket_socketid s \<noteq> SOCKET_MAXNUM" and y: "y_names y"
    and link: "kIFGetDevicenameByLinkname (Some link) ift = Some dev"
    and same: "IsExistSameSocket type af sp s = Inr 0"
    and src: "y_getaddrinfo y (wait_name y af sa dev) (dec_text sp) (family_of af)
      (if type = SI_TYPE_LISTEN_TCP then SOCK_STREAM else SOCK_DGRAM) = Some (a # rest)"
    and fam: "ai_family a = family_of af" and mc: "in6_multicast sa"
    and fd: "0 \<le> y_socket y 0" "wait_options y type (y_socket y 0) (ai_family a)"
  shows "kSocketOpenWaitSocket y ift pt type tls af sp sa (Some link) pl fl True s = Inl UseAfterFree"
proof -
  have "ai_family a = AF_INET \<or> ai_family a = AF_INET6" using fam by (simp add: family_of_def)
  then show ?thesis
    using assms by (auto simp: kSocketOpenWaitSocket_def is_multicast_def Let_def)
qed

theorem kSocketOpenWaitSocket_multicast_use_after_free_witness:
  "kSocketOpenWaitSocket demo_sys [\<lparr>ii_linkname = ''Link0'', ii_devicename = ''fxp0'', ii_scope_id = 1\<rparr>] []
     SI_TYPE_LISTEN_UDP 0 CM_IP_IPV6 53 (255 # replicate 15 0) (Some ''Link0'') P_UDPDNS 0 True ksocket_boot = Inl UseAfterFree"
  by (rule kSocketOpenWaitSocket_multicast_use_after_free
      [where dev = "''fxp0''" and a = "\<lparr>ai_family = AF_INET6, ai_socktype = SOCK_DGRAM, ai_addr = demo_addr\<rparr>" and rest = "[]"])
    (simp_all add: demo_sys_def socket_consts P_UDPDNS_def kIFGetDevicenameByLinkname_def IsExistSameSocket_def
      ksocket_boot_def family_of_def in6_multicast_def wait_options_def)

text \<open>
  Opening a raw socket does not look whether there are ids left: after the 32767th the id of the new
  socket is negative, and no lookup by id will ever find it.
\<close>

theorem kSocketOpenRaw_id_wraps:
  assumes inv: "ksocket_inv s" and g: "g_socket_socketid s = SOCKET_MAXNUM"
    and ok: "kSocketOpenRaw y pt af da sa proto link s = Inr (RETURN_OK, Some i, s')"
  shows "i = -32768 \<and> \<not> ksocket_inv s' \<and> kSocketGetSIBySocketId i b s' = Inr (RETURN_NG, b)"
proof -
  have claim: "res_all (\<lambda>(go, s1). go \<longrightarrow> g_socket_socketid s1 = g_socket_socketid s) (open_claim m fd s)" for m fd
    unfolding open_claim_def
    by (intro res_all_bind [OF select_keep] res_all_split)
      (auto simp: kSocketMakeSocketStatusClose_def si_set_status_def split: option.splits if_splits intro!: res_all_bind_any)
  have "res_all (\<lambda>(ret, j, s1). ret = RETURN_OK \<longrightarrow> j = Some (-32768) \<and> g_socket_socketid s1 = -32768)
      (kSocketOpenRaw y pt af da sa proto link s)"
    unfolding kSocketOpenRaw_def Let_def
    by (auto intro!: res_all_split bind_pure res_all_bind [OF claim]
        res_all_bind_any [of _ _ "kSocketSelectOperation a b c" for a b c]
        simp: g SOCKET_MAXNUM_def si_append_def short_of_def open_undo_def)
  from res_allD [OF this ok] show ?thesis
    by (auto simp: ksocket_inv_def kSocketGetSIBySocketId_def)
qed

theorem kSocketOpenRaw_id_wraps_witness:
  "\<exists>s'. kSocketOpenRaw demo_sys (snd (kParserInit [])) CM_IP_IPV4 (replicate 16 0) (replicate 16 0) CM_PROT_ICMP ''Link0''
       (demo\<lparr>g_socket_socketid := 32767\<rparr>) = Inr (RETURN_OK, Some (-32768), s') \<and> \<not> ksocket_inv s'"
proof -
  have "ksocket_inv (demo\<lparr>g_socket_socketid := 32767\<rparr>)"
    using demo_inv(1) by (auto simp: ksocket_inv_def SOCKET_MAXNUM_def demo_def)
  moreover have "case kSocketOpenRaw demo_sys (snd (kParserInit [])) CM_IP_IPV4 (replicate 16 0) (replicate 16 0)
      CM_PROT_ICMP ''Link0'' (demo\<lparr>g_socket_socketid := 32767\<rparr>) of Inl _ \<Rightarrow> False
    | Inr (r, i, _) \<Rightarrow> r = RETURN_OK \<and> i = Some (-32768)" by code_simp
  ultimately show ?thesis
    using kSocketOpenRaw_id_wraps [of "demo\<lparr>g_socket_socketid := 32767\<rparr>" demo_sys "snd (kParserInit [])"
        CM_IP_IPV4 "replicate 16 0" "replicate 16 0" CM_PROT_ICMP "''Link0''"]
    by (auto simp: SOCKET_MAXNUM_def split: sum.splits)
qed

end
