(* ===== verification/KLive.thy ===== *)
theory KLive
  imports KStep KCommand
begin

text \<open>
  What is promised to a client and happens in the end: a socket that is to be closed is closed, and a
  client that waits for data is answered.
\<close>

section \<open>Closing in the end\<close>

definition gone :: "int \<Rightarrow> ksocket \<Rightarrow> bool" where
  "gone i s \<longleftrightarrow> (\<exists>si. sock s i = Some si \<and> si_socket_status si = SI_STATUS_CLOSE)"

text \<open>A table whose descriptors all fit in a descriptor set is closed without a fault.\<close>

definition closable :: "ksocket \<Rightarrow> bool" where
  "closable s \<longleftrightarrow> ksocket_inv s \<and> fds_ok (sk_table s)"

text \<open>What a call of \<open>kSocketClose\<close> for socket \<open>i\<close> leaves.\<close>

definition closes :: "int \<Rightarrow> ksocket \<Rightarrow> ksocket \<Rightarrow> bool" where
  "closes i s s' \<longleftrightarrow> list_all2 entry_le (sk_table s) (sk_table s') \<and> ksocket_inv s' \<and>
     (\<forall>si. sock s i = Some si \<and> si_type si \<noteq> SI_TYPE_UNIX \<longrightarrow> gone i s')"

lemma closes_same: "ksocket_inv s \<Longrightarrow> sock s i = None \<or> gone i s \<or> (\<forall>si. sock s i = Some si \<longrightarrow> si_type si = SI_TYPE_UNIX) \<Longrightarrow>
    closes i s s"
  by (auto simp: closes_def)

lemma closesI:
  assumes "sk_step 0 s s'" "ksocket_inv s" "list_all2 entry_le (sk_table s) (sk_table s')"
    and "\<And>k. k < length (sk_table s) \<Longrightarrow> si_socketid (sk_table s ! k) = i \<Longrightarrow> si_type (sk_table s ! k) \<noteq> SI_TYPE_UNIX \<Longrightarrow>
       si_socket_status (sk_table s' ! k) = SI_STATUS_CLOSE"
  shows "closes i s s'"
proof -
  have inv: "ksocket_inv s'" using assms(1,2) by (auto simp: sk_step_def ksocket_inv_def)
  have "gone i s'" if si: "sock s i = Some si" "si_type si \<noteq> SI_TYPE_UNIX" for si
  proof -
    from sock_ok [OF assms(2) si(1)] obtain k where k: "k < length (sk_table s)" "sk_table s ! k = si" "si_socketid si = i"
      by (auto simp: in_set_conv_nth)
    have "entry_le si (sk_table s' ! k)" using assms(3) k by (auto simp: list_all2_conv_all_nth)
    moreover have "sk_table s' ! k \<in> set (sk_table s')" using assms(3) k(1) by (auto dest: list_all2_lengthD)
    ultimately have "sock s' i = Some (sk_table s' ! k)" using sock_Some [OF inv] k(3) by (metis entry_le_def)
    with assms(4) [OF k(1)] k si(2) show ?thesis by (auto simp: gone_def)
  qed
  with assms(3) inv show ?thesis by (auto simp: closes_def)
qed

lemma closed_entry_le: "entry_le si (closed si)"
  by (simp add: entry_le_def)

lemma after2_le: "after2 i a b \<Longrightarrow> entry_le a b"
  by (auto simp: after2_def closed_entry_le)

lemma kSocketClose_total:
  assumes c: "closable s" and b: "all_bufs b"
  shows "\<exists>r s'. kSocketClose (\<lambda>_. True) b i s = Inr (r, s') \<and> closes i s s'"
proof -
  have inv: "ksocket_inv s" and fds: "fds_ok (sk_table s)" using c by (simp_all add: closable_def)
  have len: "int (length (sk_table s)) \<le> SOCKET_MAXNUM" using ksocket_inv_length(2) [OF inv] .
  have step: "sk_step 0 s s'" if "kSocketClose (\<lambda>_. True) b i s = Inr (r, s')" for r s'
    using res_allD [OF kSocketClose_step0 that] by simp
  consider "i < 0" | "i = 0" | "0 < i" "sock s i = None" | si where "0 < i" "sock s i = Some si" by fastforce
  then show ?thesis
  proof cases
    case 1
    then have "sock s i = None" using sk.look_nonpos [OF inv] by simp
    with 1 closes_same [OF inv] show ?thesis by (simp add: kSocketClose_def)
  next
    case 2
    have none: "sock s i = None" using sk.look_nonpos [OF inv] 2 by simp
    show ?thesis
    proof (cases "sk_table s = []")
      case True
      with 2 none closes_same [OF inv] show ?thesis by (simp add: kSocketClose_def)
    next
      case False
      from close_pattern1_closes [of s "[]" "sk_table s"] fds len obtain s' where
        s': "close_pattern1 (\<lambda>_. True) 0 (sk_table s) s = Inr s'"
          "sk_table s' = map (\<lambda>si. if hit1 si then closed si else si) (sk_table s)" by auto
      then have run: "kSocketClose (\<lambda>_. True) b i s = Inr (RETURN_OK, s')"
        using 2 False by (simp add: kSocketClose_def)
      have pos: "1 \<le> si_socketid (sk_table s ! k)" if "k < length (sk_table s)" for k
        using inv nth_mem [OF that] by (simp add: ksocket_inv_def)
      have "closes i s s'"
      proof (rule closesI [OF step [OF run] inv])
        show "list_all2 entry_le (sk_table s) (sk_table s')"
          unfolding s'(2) by (auto simp: list_all2_conv_all_nth closed_entry_le)
        show "si_socket_status (sk_table s' ! k) = SI_STATUS_CLOSE"
          if "k < length (sk_table s)" "si_socketid (sk_table s ! k) = i" for k
          using pos [OF that(1)] that(2) 2 by simp
      qed
      with run show ?thesis by blast
    qed
  next
    case 3
    with sk.get_none [OF inv] closes_same [OF inv] show ?thesis by (simp add: kSocketClose_def)
  next
    case 4
    from sock_ok [OF inv 4(2)] have si: "si \<in> set (sk_table s)" "si_socketid si = i" by simp_all
    have get: "kSocketGetSIBySocketId i b s = Inr (RETURN_OK, fill si b)"
      using sk.get_some [OF inv 4(2) b] .
    have ne: "sk_table s \<noteq> []" using si(1) by auto
    show ?thesis
    proof (cases "si_type si = SI_TYPE_LISTEN_TCP")
      case True
      from close_pattern2_closes [of s "[]" "sk_table s" "fill si b" i] fds inv b obtain s' where
        s': "close_pattern2 (\<lambda>_. True) i 0 (sk_table s) (fill si b) s = Inr s'"
          "list_all2 (after2 i) (sk_table s) (sk_table s')" by auto
      then have run: "kSocketClose (\<lambda>_. True) b i s = Inr (RETURN_OK, s')"
        using 4 True get ne by (simp add: kSocketClose_def)
      have this_one: "\<not> is_unix (sk_table s ! k)"
        if "k < length (sk_table s)" "si_socketid (sk_table s ! k) = i" for k
        using sock_Some [OF inv nth_mem [OF that(1)]] that(2) 4(2) True by (simp add: is_unix_def si_types)
      have "closes i s s'"
        by (rule closesI [OF step [OF run] inv list_all2_mono [OF s'(2) after2_le]])
          (use s'(2) this_one in \<open>auto simp: list_all2_conv_all_nth after2_def\<close>)
      with run show ?thesis by blast
    next
      case False
      from sock_index [OF inv, of i] 4(2)
      have "map_option ((!) (sk_table s)) (si_loop 0 (\<lambda>si. si_socketid si = i) (sk_table s)) = Some si" by simp
      then obtain k where
        k: "si_loop 0 (\<lambda>si. si_socketid si = i) (sk_table s) = Some k" "sk_table s ! k = si"
        by (auto simp: map_option_eq_Some)
      have kl: "k < length (sk_table s)" using si_loop_less [OF k(1)] .
      have run3: "kSocketClose (\<lambda>_. True) b i s = close_pattern3 (\<lambda>_. True) i s"
        using 4 False get ne by (simp add: kSocketClose_def)
      show ?thesis
      proof (cases "si_type si = SI_TYPE_UNIX \<or> si_socket_status si = SI_STATUS_CLOSE")
        case True
        then have "sock s i = None \<or> gone i s \<or> (\<forall>si. sock s i = Some si \<longrightarrow> si_type si = SI_TYPE_UNIX)"
          using 4(2) by (auto simp: gone_def)
        with True run3 k closes_same [OF inv this] show ?thesis by (auto simp: close_pattern3_def)
      next
        case alive: False
        have sp: "sk_table s = take k (sk_table s) @ si # drop (Suc k) (sk_table s)"
          using k(2) kl by (metis id_take_nth_drop)
        have h: "0 \<le> si_sockethandle si" "si_sockethandle si < FD_SETSIZE"
          using fds si(1) by (auto simp: fds_ok_def)
        have lt: "length (take k (sk_table s)) = k" using kl by simp
        from close_entry_at [OF sp h, unfolded lt] alive k run3 obtain s' where
          run: "kSocketClose (\<lambda>_. True) b i s = Inr (RETURN_OK, s')"
            and t: "sk_table s' = take k (sk_table s) @ closed si # drop (Suc k) (sk_table s)"
          by (auto simp: close_pattern3_def Let_def)
        have t': "sk_table s' = (sk_table s)[k := closed si]" using t kl by (simp add: upd_conv_take_nth_drop)
        have uniq: "j = k" if "j < length (sk_table s)" "si_socketid (sk_table s ! j) = i" for j
          using nth_eq_iff_index_eq [OF ksocket_inv_distinct [OF inv], of j k] that kl k(2) si(2) by simp
        have "closes i s s'"
          by (rule closesI [OF step [OF run] inv])
            (use t' k(2) kl uniq in \<open>auto simp: list_all2_conv_all_nth nth_list_update closed_entry_le\<close>)
        with run show ?thesis by blast
      qed
    qed
  qed
qed

text \<open>Socket 0 stands for every socket that is not a control socket.\<close>

lemma kSocketClose_zero:
  assumes c: "closable s"
  shows "\<exists>r s'. kSocketClose (\<lambda>_. True) b 0 s = Inr (r, s') \<and>
     list_all2 entry_le (sk_table s) (sk_table s') \<and> ksocket_inv s' \<and>
     g_socket_socketid s' = g_socket_socketid s \<and>
     (\<forall>i si. sock s i = Some si \<and> \<not> is_unix si \<longrightarrow> gone i s')"
proof (cases "sk_table s = []")
  case True
  with c show ?thesis by (simp add: kSocketClose_def sock_def closable_def)
next
  case False
  have inv: "ksocket_inv s" and fds: "fds_ok (sk_table s)" using c by (simp_all add: closable_def)
  from close_pattern1_closes [of s "[]" "sk_table s"] fds ksocket_inv_length(2) [OF inv] obtain s' where
    s': "close_pattern1 (\<lambda>_. True) 0 (sk_table s) s = Inr s'"
      "sk_table s' = map (\<lambda>si. if hit1 si then closed si else si) (sk_table s)"
      "g_socket_socketid s' = g_socket_socketid s" by auto
  then have run: "kSocketClose (\<lambda>_. True) b 0 s = Inr (RETURN_OK, s')"
    using False by (simp add: kSocketClose_def)
  have le: "list_all2 entry_le (sk_table s) (sk_table s')"
    unfolding s'(2) by (auto simp: list_all2_conv_all_nth closed_entry_le)
  have "sk_step 0 s s'" using res_allD [OF kSocketClose_step0 run] by simp
  then have inv': "ksocket_inv s'" using inv by (auto simp: sk_step_def ksocket_inv_def)
  have "gone i s'" if si: "sock s i = Some si" "\<not> is_unix si" for i si
  proof -
    from sock_ok [OF inv si(1)] have si': "si \<in> set (sk_table s)" "si_socketid si = i" by simp_all
    let ?si = "if hit1 si then closed si else si"
    have "?si \<in> set (sk_table s')" using si'(1) unfolding s'(2) by auto
    from sock_Some [OF inv' this] si' have "sock s' i = Some ?si" by (simp split: if_splits)
    moreover have "si_socket_status ?si = SI_STATUS_CLOSE" using si(2) by (simp add: hit1_def)
    ultimately show ?thesis by (simp only: gone_def) blast
  qed
  with run le inv' s'(3) show ?thesis by blast
qed

text \<open>A run of the timer is a sequence of such calls.\<close>

lemma entry_le_fds: "list_all2 entry_le xs ys \<Longrightarrow> fds_ok xs \<Longrightarrow> fds_ok ys"
  by (induction rule: list_all2_induct) (auto simp: fds_ok_def entry_le_def)

lemma closes_closable: "closable s \<Longrightarrow> closes i s s' \<Longrightarrow> closable s'"
  by (auto simp: closable_def closes_def intro: entry_le_fds)

text \<open>What stays of a socket when entries are only closed.\<close>

lemma entry_le_sock:
  assumes "list_all2 entry_le (sk_table s) (sk_table s')" "ksocket_inv s" "ksocket_inv s'"
    and "sock s i = Some si"
  obtains si' where "sock s' i = Some si'" "entry_le si si'"
  using sock_ok [OF assms(2,4)] table_le_set [OF table_le_all2 [OF assms(1)]] sock_Some [OF assms(3)]
  by (metis entry_le_def)

lemma entry_le_gone:
  assumes "list_all2 entry_le (sk_table s) (sk_table s')" "ksocket_inv s" "ksocket_inv s'" "gone i s"
  shows "gone i s'"
  using assms(4) unfolding gone_def
  by (metis entry_le_sock [OF assms(1-3)] entry_le_def)

lemma close_seq_total:
  assumes "closable s" "all_bufs b"
  shows "\<exists>s'. close_seq (\<lambda>_ _. True) b now k es s = Inr s' \<and> closable s' \<and>
     list_all2 entry_le (sk_table s) (sk_table s') \<and>
     (\<forall>e \<in> set es. expired now e \<longrightarrow>
        (\<forall>si. sock s (sct_socketid e) = Some si \<and> si_type si \<noteq> SI_TYPE_UNIX \<longrightarrow> gone (sct_socketid e) s'))"
  using assms
proof (induction es arbitrary: k s)
  case (Cons e es)
  show ?case
  proof (cases "expired now e")
    case False
    with Cons.IH [OF Cons.prems, of "Suc k"] show ?thesis by simp
  next
    case True
    from kSocketClose_total [OF Cons.prems, of "sct_socketid e"] obtain r s1 where
      s1: "kSocketClose (\<lambda>_. True) b (sct_socketid e) s = Inr (r, s1)" "closes (sct_socketid e) s s1" by blast
    note c1 = closes_closable [OF Cons.prems(1) s1(2)]
    have le1: "list_all2 entry_le (sk_table s) (sk_table s1)"
      and g1: "sock s (sct_socketid e) = Some si \<Longrightarrow> si_type si \<noteq> SI_TYPE_UNIX \<Longrightarrow> gone (sct_socketid e) s1" for si
      using s1(2) by (auto simp: closes_def)
    from Cons.IH [OF c1 Cons.prems(2), of "Suc k"] obtain s2 where
      s2: "close_seq (\<lambda>_ _. True) b now (Suc k) es s1 = Inr s2" "closable s2"
        "list_all2 entry_le (sk_table s1) (sk_table s2)"
        "\<forall>e \<in> set es. expired now e \<longrightarrow>
          (\<forall>si. sock s1 (sct_socketid e) = Some si \<and> si_type si \<noteq> SI_TYPE_UNIX \<longrightarrow> gone (sct_socketid e) s2)" by blast
    have inv: "ksocket_inv s" "ksocket_inv s1" "ksocket_inv s2"
      using Cons.prems(1) c1 s2(2) by (simp_all add: closable_def)
    have "list_all2 entry_le (sk_table s) (sk_table s2)"
      by (rule list_all2_trans [OF _ le1 s2(3)]) (rule entry_le_trans)
    moreover have "gone (sct_socketid f) s2"
      if f: "f \<in> set (e # es)" "expired now f" "sock s (sct_socketid f) = Some si" "si_type si \<noteq> SI_TYPE_UNIX" for f si
    proof (cases "f = e")
      case True
      with g1 f show ?thesis using entry_le_gone [OF s2(3) inv(2,3)] by blast
    next
      case False
      from entry_le_sock [OF le1 inv(1,2) f(3)] obtain si' where
        "sock s1 (sct_socketid f) = Some si'" "entry_le si si'" by blast
      with s2(4) f False show ?thesis by (auto simp: entry_le_def)
    qed
    ultimately show ?thesis using True s1(1) s2(1,2) by auto
  qed
qed (simp add: closable_def)

lemma deadline_entry:
  assumes "deadline ct i = Some t"
  shows "\<exists>e \<in> set (sct_table ct). sct_socketid e = i \<and> sct_expire e = t \<and> i \<noteq> T_SCT_INIT"
proof -
  from assms have i: "i \<noteq> T_SCT_INIT" by (auto simp: deadline_def)
  with assms obtain e where "List.find (\<lambda>e. sct_socketid e = i) (sct_table ct) = Some e" "sct_expire e = t"
    by (auto simp: deadline_def)
  with i show ?thesis using find_Some_iff [of "\<lambda>e. sct_socketid e = i" "sct_table ct" e] by (metis nth_mem)
qed

lemma kCloseTimerProc_closes:
  assumes "ct_inv ct" "closable s" "all_bufs b" "deadline ct i = Some t" "\<not> tv_pending t now"
  shows "\<exists>ct' s'. kCloseTimerProc (\<lambda>_ _. True) b now ct s = Inr (RETURN_OK, ct', s') \<and> deadline ct' i = None \<and>
     (\<forall>si. sock s i = Some si \<and> si_type si \<noteq> SI_TYPE_UNIX \<longrightarrow> gone i s')"
proof -
  from deadline_entry [OF assms(4)] obtain e where
    e: "e \<in> set (sct_table ct)" "sct_socketid e = i" "expired now e" using assms(5) by (auto simp: expired_def)
  from close_seq_total [OF assms(2,3), of now 0 "sct_table ct"] e obtain s' where
    "close_seq (\<lambda>_ _. True) b now 0 (sct_table ct) s = Inr s'"
    "\<forall>si. sock s i = Some si \<and> si_type si \<noteq> SI_TYPE_UNIX \<longrightarrow> gone i s'" by blast
  with close_timer_proc [OF assms(1), of "\<lambda>_ _. True" b now s] assms(4,5) show ?thesis by auto
qed

lemma close_req_fields:
  "get16 (put16 CM_CM_SIG_CLOSE_REQ @ put16 q @ put16 i @ put16 t) 4 = short_of i"
  "get16 (put16 CM_CM_SIG_CLOSE_REQ @ put16 q @ put16 i @ put16 t) 6 = short_of t"
  using get16_put16 [of t "[]"] by simp_all

lemma close_req_handled:
  assumes "ct_inv (w_close w)" "deadline (w_close w) i = None" "sct_num (w_close w) < 16"
    and "0 \<le> i" "i \<le> 32767" "0 \<le> t" "t \<le> 32767"
  shows "\<exists>ct. process_command_close_req env h q (put16 CM_CM_SIG_CLOSE_REQ @ put16 q @ put16 i @ put16 t) 8 w =
       Inr (RETURN_OK, close_answer env h CM_CM_SIG_CLOSE_ACK q CM_RESULT_OK i (w\<lparr>w_close := ct\<rparr>)) \<and> ct_inv ct \<and>
     deadline ct = (deadline (w_close w))(i \<mapsto> (e_now env)\<lparr>tv_sec := long_of (tv_sec (e_now env) + t)\<rparr>)"
proof -
  let ?d = "put16 CM_CM_SIG_CLOSE_REQ @ put16 q @ put16 i @ put16 t"
  obtain ret ct where ct: "kCloseTimerSet (e_now env) i t (w_close w) = (ret, ct)" by fastforce
  with close_timer_set [OF assms(1,4), of "e_now env" t] assms(2,3)
  have *: "ret = 0" "ct_inv ct"
    "deadline ct = (deadline (w_close w))(i \<mapsto> (e_now env)\<lparr>tv_sec := long_of (tv_sec (e_now env) + t)\<rparr>)"
    by (simp_all add: RETURN_OK_def)
  have "req_copy CLOSE_REQ ?d 8 = Inr ?d" by (simp add: req_copy_def CLOSE_REQ_def)
  moreover have "short_of i = i" "short_of t = t" using assms(4-7) by simp_all
  ultimately have "process_command_close_req env h q ?d 8 w =
      Inr (RETURN_OK, close_answer env h CM_CM_SIG_CLOSE_ACK q CM_RESULT_OK i (w\<lparr>w_close := ct\<rparr>))"
    using *(1) ct assms(4,6) by (simp add: process_command_close_req_def close_req_fields del: append_assoc)
  with *(2,3) show ?thesis by blast
qed

section \<open>Answering in the end\<close>

abbreviation w_expire :: "waiter \<Rightarrow> timeval" where
  "w_expire w \<equiv> fst (snd (snd w))"

definition answered :: "waiter \<Rightarrow> wire \<Rightarrow> bool" where
  "answered w out \<longleftrightarrow> (case w of (h, i, t, r) \<Rightarrow>
     \<exists>bs. (h, put16 CM_CM_SIG_RECV_ACK @ put16 r @ bs) \<in> set out)"

definition fits :: "kdata \<Rightarrow> bool" where
  "fits kd \<longleftrightarrow> (\<forall>m \<in> set (messages kd). int (length (msg_bytes m)) \<le> MSG_MAXDATALEN)"

lemma recv_ack_head: "recv_ack c r res i md = Inr bs \<Longrightarrow> \<exists>rest. bs = put16 c @ put16 r @ rest"
  by (auto simp: recv_ack_def bind_res_eq_Inr split: if_splits option.splits)

lemma recv_round_total:
  assumes "kdata_inv kd" "ksocket_inv sks" "fits kd"
    and "int (length data) = MSG_MAXDATALEN" "\<forall>h bs. wr h bs"
  shows "\<exists>fin data' kd' ans. recv_round sks wr now w data kd out = Inr (fin, data', kd', out @ ans) \<and>
     kdata_inv kd' \<and> fits kd' \<and> length data' = length data \<and> length (messages kd') = length (messages kd) \<and>
     (if fin then answered w ans \<or> unanswerable sks (w_id w) \<and> messages kd \<noteq> [] else tv_pending (w_expire w) now)"
proof -
  obtain h i t r where w: "w = (h, i, t, r)" by (cases w)
  have "length (msg_bytes m) \<le> length data" if "m \<in> set (messages kd)" for m
    using assms(3,4) that by (auto simp: fits_def simp flip: of_nat_le_iff)
  then have "\<forall>m \<in> set (messages kd). length (msg_bytes m) \<le> length data" by blast
  from get_any [OF assms(1,2) this, of i] show ?thesis
  proof (elim disjE exE conjE)
    fix k kd' q b
    let ?m = "messages kd ! k" and ?data = "msg_bytes (messages kd ! k) @ drop (length (msg_bytes (messages kd ! k))) data"
    assume k: "k < length (messages kd)" and kd': "kdata_inv kd'" "messages kd' = (messages kd)[k := ?m\<lparr>msg_recvflg := MSG_RECVFLG_READ\<rparr>]"
      and get: "kDataGetDataBySocketid sks i data kd = Inr (RETURN_OK, Some (msg_setnext q (handed b ?m)), ?data, kd')"
    have l: "int (length (msg_bytes ?m)) \<le> MSG_MAXDATALEN" using assms(3) k by (simp add: fits_def)
    have dl: "msg_datalen (msg_setnext q (handed b ?m)) = int (length (msg_bytes ?m))"
      using assms(1) k by (auto simp: kdata_inv_def msgs_ok_def msg_setnext_def handed_def)
    obtain bs where bs: "recv_ack CM_CM_SIG_RECV_ACK r CM_RESULT_OK (msg_socketid (msg_setnext q (handed b ?m)))
        (Some (msg_setnext q (handed b ?m), ?data)) = Inr bs"
      using l dl by (simp add: recv_ack_def ack_data_def cm_results)
    have "recv_round sks wr now w data kd out = Inr (True, ?data, kd', out @ [(h, bs)])"
      using bs assms(5) by (simp add: w recv_round_def get recv_ack_return_def cwrite_def)
    moreover have "answered w [(h, bs)]" using recv_ack_head [OF bs] w by (auto simp: answered_def)
    moreover have "fits kd'" using kd'(2) assms(3) k
      by (auto simp: fits_def dest!: set_update_subset_insert [THEN subsetD])
    moreover have "length ?data = length data" using l assms(4) by simp
    ultimately show ?thesis using kd'
      by (intro exI [of _ True] exI [of _ ?data] exI [of _ kd'] exI [of _ "[(h, bs)]"]) simp
  next
    assume get: "kDataGetDataBySocketid sks i data kd = Inr (1, None, data, kd)"
    show ?thesis
    proof (cases "tv_pending t now")
      case True
      with get w assms(1,3) show ?thesis
        by (intro exI [of _ False] exI [of _ data] exI [of _ kd] exI [of _ "[]"]) (simp add: recv_round_def)
    next
      case False
      let ?a = "(h, put16 CM_CM_SIG_RECV_ACK @ put16 r @ put16 CM_RESULT_SIG_NG_TIMEOUT @ put16 i @ replicate 56 0)"
      have "recv_round sks wr now w data kd out = Inr (True, data, kd, out @ [?a])"
        using False assms(5) by (simp add: w recv_round_def get recv_ack_return_def recv_ack_def cm_results cwrite_def)
      with w assms(1,3) show ?thesis
        by (intro exI [of _ True] exI [of _ data] exI [of _ kd] exI [of _ "[?a]"]) (simp add: answered_def)
    qed
  next
    assume "kDataGetDataBySocketid sks i data kd = Inr (RETURN_NG, None, data, kd)" "unanswerable sks i" "messages kd \<noteq> []"
    with w assms(1,3) show ?thesis
      by (intro exI [of _ True] exI [of _ data] exI [of _ kd] exI [of _ "[]"]) (simp add: recv_round_def)
  qed
qed

lemma answered_append [simp]: "answered w (a @ b) \<longleftrightarrow> answered w a \<or> answered w b"
  by (auto simp: answered_def split: prod.splits)

lemma waiters_run_total:
  assumes "kdata_inv kd" "ksocket_inv sks" "fits kd"
    and "int (length data) = MSG_MAXDATALEN" "\<forall>h bs. wr h bs"
  shows "\<exists>left kd' ans. waiters_run sks wr now ws data kd out = Inr (left, kd', out @ ans) \<and> kdata_inv kd' \<and>
     (\<forall>w \<in> set left. tv_pending (w_expire w) now) \<and>
     (\<forall>w \<in> set ws. w \<in> set left \<or> answered w ans \<or> unanswerable sks (w_id w) \<and> messages kd \<noteq> [])"
  using assms
proof (induction ws arbitrary: data kd out)
  case (Cons w ws)
  from recv_round_total [OF Cons.prems, of now w out] obtain fin data' kd' ans where
    r: "recv_round sks wr now w data kd out = Inr (fin, data', kd', out @ ans)" "kdata_inv kd'" "fits kd'"
      "length data' = length data" "length (messages kd') = length (messages kd)"
      "if fin then answered w ans \<or> unanswerable sks (w_id w) \<and> messages kd \<noteq> [] else tv_pending (w_expire w) now" by auto
  have "messages kd' = [] \<longleftrightarrow> messages kd = []" using r(5) by auto
  with Cons.IH [OF r(2) Cons.prems(2) r(3) _ Cons.prems(5), of data' "out @ ans"] Cons.prems(4) r(4)
  obtain left kd'' ans' where "waiters_run sks wr now ws data' kd' (out @ ans) = Inr (left, kd'', out @ ans @ ans')"
    "kdata_inv kd''" "\<forall>w \<in> set left. tv_pending (w_expire w) now"
    "\<forall>w \<in> set ws. w \<in> set left \<or> answered w ans' \<or> unanswerable sks (w_id w) \<and> messages kd \<noteq> []"
    by auto
  with r(1,6) show ?case by (intro exI [of _ "if fin then left else w # left"] exI [of _ kd''] exI [of _ "ans @ ans'"]) auto
qed simp

section \<open>Properties\<close>

text \<open>
  C4: A close command for a socket without a deadline is answered positively and leaves the table
  alone; whatever the table then becomes, the first run of the close timer at or after the deadline
  closes the socket and forgets the deadline.
\<close>

theorem close_command_closes:
  assumes "ct_inv (w_close w)" "deadline (w_close w) i = None" "sct_num (w_close w) < 16"
    and "0 \<le> i" "i \<le> 32767" "0 \<le> t" "t \<le> 32767" "\<And>bs. e_write env h bs"
  shows "\<exists>w'. process_command_close_req env h q (put16 CM_CM_SIG_CLOSE_REQ @ put16 q @ put16 i @ put16 t) 8 w =
       Inr (RETURN_OK, w') \<and>
     w_out w' = w_out w @ [(h, put16 CM_CM_SIG_CLOSE_ACK @ put16 q @ put16 CM_RESULT_OK @ put16 i)] \<and>
     w_sk w' = w_sk w \<and>
     (\<forall>now b s si. closable s \<and> all_bufs b \<and> sock s i = Some si \<and> si_type si \<noteq> SI_TYPE_UNIX \<and>
        \<not> tv_pending ((e_now env)\<lparr>tv_sec := long_of (tv_sec (e_now env) + t)\<rparr>) now \<longrightarrow>
        (\<exists>ct s'. kCloseTimerProc (\<lambda>_ _. True) b now (w_close w') s = Inr (RETURN_OK, ct, s') \<and>
           gone i s' \<and> deadline ct i = None))"
proof -
  from close_req_handled [OF assms(1-7)] obtain ct where
    ct: "process_command_close_req env h q (put16 CM_CM_SIG_CLOSE_REQ @ put16 q @ put16 i @ put16 t) 8 w =
       Inr (RETURN_OK, close_answer env h CM_CM_SIG_CLOSE_ACK q CM_RESULT_OK i (w\<lparr>w_close := ct\<rparr>))" "ct_inv ct"
      "deadline ct = (deadline (w_close w))(i \<mapsto> (e_now env)\<lparr>tv_sec := long_of (tv_sec (e_now env) + t)\<rparr>)" by blast
  let ?w = "close_answer env h CM_CM_SIG_CLOSE_ACK q CM_RESULT_OK i (w\<lparr>w_close := ct\<rparr>)"
  have w: "w_out ?w = w_out w @ [(h, put16 CM_CM_SIG_CLOSE_ACK @ put16 q @ put16 CM_RESULT_OK @ put16 i)]"
    "w_sk ?w = w_sk w" "w_close ?w = ct"
    using assms(8) by (simp_all add: close_answer_def answer_def close_wait_ack_return_def cwrite_def close_ack_def CM_RESULT_OK_def)
  have "\<exists>ct' s'. kCloseTimerProc (\<lambda>_ _. True) b now ct s = Inr (RETURN_OK, ct', s') \<and> gone i s' \<and> deadline ct' i = None"
    if "closable s" "all_bufs b" "sock s i = Some si" "si_type si \<noteq> SI_TYPE_UNIX"
      "\<not> tv_pending ((e_now env)\<lparr>tv_sec := long_of (tv_sec (e_now env) + t)\<rparr>) now" for now b s si
    using kCloseTimerProc_closes [OF ct(2) that(1,2), of i _ now] ct(3) that(3-5) by fastforce
  with ct(1) w show ?thesis by (intro exI [of _ ?w]) simp
qed

theorem close_command_closes_witness:
  "\<exists>w' ct s'. process_command_close_req (demo_env []) 5 9 (put16 CM_CM_SIG_CLOSE_REQ @ put16 9 @ put16 6 @ put16 3) 8
       demo_koid = Inr (RETURN_OK, w') \<and>
     kCloseTimerProc (\<lambda>_ _. True) demo_bufs \<lparr>tv_sec = 13, tv_usec = 5\<rparr> (w_close w') demo = Inr (RETURN_OK, ct, s') \<and>
     gone 6 s'"
proof -
  have c: "w_close demo_koid = snd (kCloseTimerInit close_timer_boot)" by (simp add: demo_koid_def)
  have d: "deadline (w_close demo_koid) 6 = None" "sct_num (w_close demo_koid) < 16" "ct_inv (w_close demo_koid)"
    unfolding c by (simp_all add: ct_inv_init) (simp_all add: kCloseTimerInit_def deadline_def find_None T_SCT_MAXNUM_def T_SCT_INIT_def)
  have e: "e_write (demo_env []) h bs" "e_now (demo_env []) = \<lparr>tv_sec = 10, tv_usec = 5\<rparr>" for h bs
    by (simp_all add: demo_env_def)
  obtain si where si: "sock demo 6 = Some si" "si_type si \<noteq> SI_TYPE_UNIX"
    by (simp add: sock_def demo_defs si_types)
  have "closable demo" using demo_inv by (simp add: closable_def)
  moreover have "\<not> tv_pending ((e_now (demo_env []))\<lparr>tv_sec := long_of (tv_sec (e_now (demo_env [])) + 3)\<rparr>)
      \<lparr>tv_sec = 13, tv_usec = 5\<rparr>" by (simp add: tv_pending_def e(2))
  moreover note si demo_inv(2) close_command_closes [OF d(3,1,2), where t = 3 and env = "demo_env []" and h = 5 and q = 9]
  ultimately show ?thesis using e(1) by (smt (verit) of_nat_numeral)
qed

text \<open>
  C5: A run of the receive timer, with an allocator that leaves freed blocks readable and writes that succeed,
  returns; a reader whose deadline has passed is no longer waiting; and every reader that is no longer waiting has been
  sent an answer with the number of its request, except one whose socket id is unknown or that of a control
  socket: as soon as there is any message in the table, it is dropped without a word.
\<close>

theorem waiting_readers_answered:
  assumes "rt_inv s" "keeps_freed (hp (rt_tbl s))" "kdata_inv kd" "ksocket_inv sks" "fits kd" "\<forall>h bs. wr h bs"
  shows "\<exists>s' kd' ans. kRecvTimerProc sks wr now s kd out = Inr (RETURN_OK, s', kd', out @ ans) \<and> rt_inv s' \<and>
     kdata_inv kd' \<and> (\<forall>w \<in> set (waiters s'). tv_pending (w_expire w) now) \<and>
     (\<forall>w \<in> set (waiters s). w \<in> set (waiters s') \<or> answered w ans \<or> unanswerable sks (w_id w) \<and> messages kd \<noteq> [])"
proof -
  have "int (length (replicate (nat MSG_MAXDATALEN) (0::byte))) = MSG_MAXDATALEN" by (simp add: MSG_MAXDATALEN_def)
  from waiters_run_total [OF assms(3-5) this assms(6), of now "waiters s" out] obtain left kd' ans where
    run: "waiters_run sks wr now (waiters s) (replicate (nat MSG_MAXDATALEN) 0) kd out = Inr (left, kd', out @ ans)"
      "kdata_inv kd'" "\<forall>w \<in> set left. tv_pending (w_expire w) now"
      "\<forall>w \<in> set (waiters s). w \<in> set left \<or> answered w ans \<or> unanswerable sks (w_id w) \<and> messages kd \<noteq> []" by blast
  from recv_timer_proc [OF assms(1,2), of sks wr now kd out] obtain s' where
    "kRecvTimerProc sks wr now s kd out = Inr (RETURN_OK, s', kd', out @ ans)" "rt_inv s'" "waiters s' = left"
    unfolding run(1) sum.case prod.case by blast
  with run(2-4) show ?thesis by blast
qed

theorem waiting_readers_answered_witness:
  "\<exists>s' kd' ans. kRecvTimerProc demo (\<lambda>_ _. True) \<lparr>tv_sec = 13, tv_usec = 5\<rparr> (demo_timer True) (demo_kdata 6) [] =
     Inr (RETURN_OK, s', kd', ans) \<and> answered (5, 6, \<lparr>tv_sec = 13, tv_usec = 5\<rparr>, 77) ans"
proof -
  have "fits (demo_kdata 6)" by (simp add: fits_def demo_messages demo_msg_def build_msg_def Let_def MSG_MAXDATALEN_def)
  moreover have "\<not> unanswerable demo 6"
    by (simp add: unanswerable_def sock_def demo_defs is_unix_def si_types)
  moreover note waiting_readers_answered [OF demo_timer_inv(1), of True "demo_kdata 6" demo "\<lambda>_ _. True"
      "\<lparr>tv_sec = 13, tv_usec = 5\<rparr>" "[]"] demo_kdata_ok demo_inv(1)
  ultimately show ?thesis by (auto simp: demo_timer_inv tv_pending_def)
qed

end
