(* ===== verification/KHandlers.thy ===== *)
theory KHandlers
  imports KUnixd KLive
begin

text \<open>
  What the control connection gets back (\<open>lib/kDispatcher\<close>): the answers to the commands, and what
  its end does to the daemon.
\<close>

section \<open>Answers\<close>

text \<open>What was sent goes on with some data and then an answer, or with an answer only.\<close>

definition told :: "int \<Rightarrow> int \<Rightarrow> int \<Rightarrow> wire \<Rightarrow> wire \<Rightarrow> bool" where
  "told h c q out out' \<longleftrightarrow> (\<exists>rest. out' = out @ [(h, put16 c @ put16 q @ rest)])"

definition told_last :: "int \<Rightarrow> int \<Rightarrow> int \<Rightarrow> wire \<Rightarrow> wire \<Rightarrow> bool" where
  "told_last h c q out out' \<longleftrightarrow> (\<exists>pre. told h c q (out @ pre) out')"

definition grows :: "wire \<Rightarrow> wire \<Rightarrow> bool" where
  "grows out out' \<longleftrightarrow> (\<exists>pre. out' = out @ pre)"

lemma grows_refl [simp]: "grows out out" "grows out (out @ pre)"
  by (simp_all add: grows_def)

lemma grows_trans: "grows a b \<Longrightarrow> grows b c \<Longrightarrow> grows a c"
  by (auto simp: grows_def)

lemma grows_append [simp]: "grows a b \<Longrightarrow> grows a (b @ pre)"
  by (auto simp: grows_def)

lemma told_grows: "told h c q out out' \<Longrightarrow> grows out out'"
  by (auto simp: told_def)

lemma told_lastI: "grows out mid \<Longrightarrow> told h c q mid out' \<Longrightarrow> told_last h c q out out'"
  by (auto simp: told_last_def grows_def)

definition writes :: "env \<Rightarrow> int \<Rightarrow> bool" where
  "writes env h \<longleftrightarrow> (\<forall>bs. e_write env h bs)"

lemma cwrite_ok [simp]: "writes env h \<Longrightarrow> cwrite (e_write env) h bs out = (RETURN_OK, out @ [(h, bs)])"
  by (simp add: cwrite_def writes_def)

lemma close_told [simp]: "writes env h \<Longrightarrow> w_out w = out \<Longrightarrow> told h c q out (w_out (close_answer env h c q r i w))"
  by (simp add: close_answer_def answer_def close_wait_ack_return_def told_def close_ack_def)

lemma connec_told [simp]: "writes env h \<Longrightarrow> w_out w = out \<Longrightarrow> told h c q out (w_out (connec_answer env h c q r i sent w))"
  by (simp add: connec_answer_def answer_def connec_send_ack_return_def told_def connec_ack_def split: prod.split)

lemma flag_told [simp]:
  "writes env h \<Longrightarrow> w_out w = out \<Longrightarrow> told h c q out (w_out (flag_answer (flush_ack_return (e_write env) h c q r) w))"
  "writes env h \<Longrightarrow> w_out w = out \<Longrightarrow> told h c q out (w_out (flag_answer (tls_setup_ack_return (e_write env) h c q r) w))"
  "writes env h \<Longrightarrow> w_out w = out \<Longrightarrow> told h c q out (w_out (flag_answer (tls_clear_ack_return (e_write env) h c q r) w))"
  by (auto simp: flag_answer_def flush_ack_return_def tls_setup_ack_return_def tls_clear_ack_return_def
      flush_ack_def told_def)

lemma datainfo_told: "writes env h \<Longrightarrow> w_out w = out \<Longrightarrow>
    res_all (\<lambda>w'. told h c q out (w_out w')) (answer_res (datainfo_ack_return (e_write env) h c q r md) w)"
  by (auto simp: answer_res_def datainfo_ack_return_def datainfo_ack_def told_def res_all_def bind_res_eq_Inr
      split: if_splits option.splits)

lemma recv_told: "writes env h \<Longrightarrow> w_out w = out \<Longrightarrow>
    res_all (\<lambda>w'. told h c q out (w_out w')) (answer_res (recv_ack_return (e_write env) h c q r i md) w)"
  by (auto simp: answer_res_def recv_ack_return_def recv_ack_def told_def res_all_def bind_res_eq_Inr
      split: if_splits option.splits)

text \<open>Sending only adds to what was sent.\<close>

lemma sys_send_grows: "grows out (w_out w) \<Longrightarrow> res_all (\<lambda>(_, w'). grows out (w_out w')) (sys_send env i n d w)"
  unfolding sys_send_def Let_def by (auto intro!: res_all_split)

lemma send_udp_grows:
  "grows out (w_out w) \<Longrightarrow> res_all (\<lambda>(_, w'). grows out (w_out w')) (kSocketSendDataUdp env i n d w)"
  unfolding kSocketSendDataUdp_def Let_def by (auto intro!: res_all_split bind_pure sys_send_grows)

lemma icmp_send_grows:
  "grows out (w_out w) \<Longrightarrow> res_all (\<lambda>(_, w'). grows out (w_out w')) (icmp_send env fd src n d w)"
  unfolding icmp_send_def
  by (auto intro!: res_all_split res_all_bind [OF sys_send_grows]
      res_all_bind_any [of _ _ "icmp_packet f s n d" for f s n d])

lemma send_data_grows:
  "grows out (w_out w) \<Longrightarrow> res_all (\<lambda>(_, _, w'). grows out (w_out w')) (send_data env si d i n data w)"
  unfolding send_data_def
  by (auto intro!: res_all_split res_all_bind [OF sys_send_grows] res_all_bind [OF send_udp_grows]
      res_all_bind [OF icmp_send_grows] res_all_bind_any [of _ _ "kTLSSend l ssl t s" for l ssl t s])

lemma kSocketSend_grows: "res_all (\<lambda>(_, _, w'). grows (w_out w) (w_out w')) (kSocketSend env i n data w)"
  unfolding kSocketSend_def Let_def
  by (auto intro!: res_all_split bind_pure res_all_bind [OF send_data_grows]
      res_all_bind_any [of _ _ "kDataRegist sk a b i m n d t kd" for sk a b i m n d t kd])

text \<open>Opening sends nothing.\<close>

lemma connect_open_out: "res_all (\<lambda>(_, _, w'). w_out w' = w_out w) (connect_open env r c w)"
  unfolding connect_open_def Let_def by (auto intro!: res_all_split res_all_bind_any)

section \<open>One answer to a command\<close>

text \<open>The commands without a second answer and without a late one.\<close>

lemma commands_told:
  assumes "writes env h"
  shows "res_all (\<lambda>(_, w'). told h CM_CM_SIG_CLOSE_ACK q (w_out w) (w_out w')) (process_command_close_req env h q d n w)"
    "res_all (\<lambda>(_, w'). told h CM_CM_SIG_WAIT_ACK q (w_out w) (w_out w')) (process_command_wait_req env h q d n w)"
    "res_all (\<lambda>(_, w'). told h CM_CM_SIG_DATAINFO_ACK q (w_out w) (w_out w')) (process_command_datainfo_req env h q d n w)"
    "res_all (\<lambda>(_, w'). told h CM_CM_SIG_FLUSH_ACK q (w_out w) (w_out w')) (process_command_flush_req env h q d n w)"
    "res_all (\<lambda>(_, w'). told h CM_CM_SIG_TLS_SETUP_ACK q (w_out w) (w_out w')) (process_command_tls_setup_req env h q d n w)"
    "res_all (\<lambda>(_, w'). told h CM_CM_SIG_TLS_CLEAR_ACK q (w_out w) (w_out w')) (process_command_tls_clear_req env h q d n w)"
    "res_all (\<lambda>(_, w'). told h CM_CM_SIG_PARSER_ATTACH_ACK q (w_out w) (w_out w'))
       (process_command_parser_attach_req env h q d n w)"
  subgoal unfolding process_command_close_req_def 
    by (auto simp: assms Let_def split_beta intro!: res_all_if res_all_bind_any)
  subgoal unfolding process_command_wait_req_def
    by (auto simp: Let_def split_beta assms intro!: res_all_if res_all_bind_any) 
  subgoal unfolding process_command_datainfo_req_def
    by (auto simp: Let_def intro!: res_all_split res_all_bind_any [of _ _ "req_copy n d l" for n d l]
        res_all_bind_any [of _ _ "kDataGetDataByDataid i b d kd" for i b d kd] res_all_bind [OF datainfo_told [OF assms refl]])
  subgoal unfolding process_command_flush_req_def by (auto simp: assms intro!: res_all_split res_all_bind_any)
  subgoal unfolding process_command_tls_setup_req_def by (auto simp: Let_def assms intro!: res_all_split res_all_bind_any)
  subgoal unfolding process_command_tls_clear_req_def by (auto simp: Let_def assms intro!: res_all_split res_all_bind_any)
  subgoal unfolding process_command_parser_attach_req_def by (auto simp: assms intro!: res_all_split res_all_bind_any)
  done

lemma connect_told:
  assumes "writes env h"
  shows "res_all (\<lambda>(_, w'). told_last h CM_CM_SIG_CONNEC_ACK q (w_out w) (w_out w'))
    (process_command_connect_req env h q d n w)"
proof -
  have again: "told_last h CM_CM_SIG_CONNEC_ACK q out (w_out (connec_answer env h CM_CM_SIG_CONNEC_ACK q r i sent w))"
    if "grows out (w_out w)" for out r i sent w
    using told_lastI [OF that connec_told [OF assms refl]] .
  have kept: "grows out (w_out (connec_answer env h CM_CM_SIG_CONNEC_ACK q r i sent w))"
    if "grows out (w_out w)" for out r i sent w
    using grows_trans [OF that told_grows [OF connec_told [OF assms refl]]] .
  show ?thesis
    unfolding process_command_connect_req_def Let_def
    by (auto simp: assms intro!: res_all_split again kept
        res_all_bind_any [of _ _ "req_copy n d l" for n d l]
        res_all_bind_any [of _ _ "kSocketCheckNewSocket a b c d e f s" for a b c d e f s]
        res_all_bind [OF connect_open_out] res_all_bind [OF kSocketSend_grows])
qed

lemma send_told:
  assumes "writes env h"
  shows "res_all (\<lambda>(_, w'). told_last h CM_CM_SIG_SEND_ACK q (w_out w) (w_out w'))
    (process_command_send_req env h q d n w)"
  unfolding process_command_send_req_def
  by (auto simp: assms intro!: res_all_split told_lastI [OF _ connec_told [OF assms refl]]
      res_all_bind_any [of _ _ "req_copy n d l" for n d l] res_all_bind [OF kSocketSend_grows])

text \<open>A receive command may be answered later, by the timer; a question about a control socket never is.\<close>

lemma recv_told_or_not:
  assumes "writes env h"
  shows "res_all (\<lambda>(_, w'). told h CM_CM_SIG_RECV_ACK q (w_out w) (w_out w') \<or> w_out w' = w_out w)
    (process_command_recv_req env h q d n w)"
proof -
  have a: "w_out w' = w_out w \<Longrightarrow> res_all P (bind_res (answer_res (recv_ack_return (e_write env) h CM_CM_SIG_RECV_ACK q r i md) w') f)"
    if "\<And>w''. told h CM_CM_SIG_RECV_ACK q (w_out w) (w_out w'') \<Longrightarrow> res_all P (f w'')" for P f r i md w'
    by (rule res_all_bind [OF recv_told [OF assms] that])
  show ?thesis
    unfolding process_command_recv_req_def Let_def
    by (auto intro!: res_all_split a res_all_bind_any [of _ _ "req_copy n d l" for n d l]
        res_all_bind_any [of _ _ "kDataGetDataBySocketid sk i d kd" for sk i d kd]
        res_all_bind_any [of _ _ "kRecvTimerSet i t b h j n r rt" for i t b h j n r rt])
qed

lemma sockinfo_told_or_not:
  assumes "writes env h"
  shows "res_all (\<lambda>(_, w'). told h CM_CM_SIG_SOCKINFO_ACK q (w_out w) (w_out w') \<or> w_out w' = w_out w)
    (process_command_sockinfo_req env h q d n w)"
proof -
  have a: "res_all (\<lambda>w'. told h CM_CM_SIG_SOCKINFO_ACK q (w_out w) (w_out w') \<or> w_out w' = w_out w)
      (answer_res (sockinfo_ack_return sess (e_write env) h CM_CM_SIG_SOCKINFO_ACK q r md) w)" for sess r md
    using assms by (auto simp: answer_res_def sockinfo_ack_return_def sockinfo_ack_def told_def res_all_def
        bind_res_eq_Inr Let_def split: if_splits option.splits)
  show ?thesis
    unfolding process_command_sockinfo_req_def Let_def
    by (auto intro!: res_all_split res_all_bind [OF a] bind_pure res_all_bind_any [of _ _ "req_copy n d l" for n d l])
qed

section \<open>Sending\<close>

lemma handle_bufs_get:
  assumes "ksocket_inv s" "sock s i = Some si" "si_uniq si = DataI d" "data_type (si_type si)"
  shows "kSocketGetSIBySocketId i (handle_bufs env) s =
     Inr (RETURN_OK, (handle_bufs env)\<lparr>b_socketinfo := Some si, b_data := Some d\<rparr>)"
  using assms by (auto simp: get_si_sock copy_uniq_def handle_bufs_def zero_bufs_def data_type_def si_types)

lemma regist_sent:
  assumes "ksocket_inv (w_sk w)" "kdata_inv (w_data w)" "appendable (w_data w)"
    and "sock (w_sk w) i = Some si" "si_uniq si = DataI d" "data_type (si_type si)"
    and "e_malloc env 0 = (True, True)" "g_msg_dataid (w_data w) < MSG_MAXMSGNUM"
    and "0 \<le> n" "n \<le> int (length data)"
  obtains kd where "kDataRegist (w_sk w) (fst (e_malloc env 0)) (snd (e_malloc env 0)) i MSG_SOCKETMODE_SEND n data
       (e_now env) (w_data w) = Inr (RETURN_OK, kd)" "g_msg_dataid kd = g_msg_dataid (w_data w) + 1"
    "kdata_inv kd" "appendable kd"
    "messages kd = messages (w_data w) @ [build_msg (g_msg_dataid (w_data w) + 1) i MSG_SOCKETMODE_SEND d
       (the (b_listen zero_bufs)) n (take (nat n) data) (e_now env)]"
  using kDataRegist_append [OF assms(2,3,1,4-6) _ assms(9,10), of MSG_SOCKETMODE_SEND "e_now env"] assms(7,8) that
  by auto

section \<open>The end of a control connection\<close>

lemma kRecvTimerInit_clears:
  assumes "rt_inv s"
  shows "\<exists>s'. kRecvTimerInit s = Inr (RETURN_OK, s') \<and> waiters s' = [] \<and> rt_inv s'"
proof -
  let ?xs = "nodes rt_next (rt_tbl s)"
  have ch: "tbl_chain rt_next (rt_tbl s) ?xs" using assms by (simp add: rt_inv_def)
  show ?thesis
  proof (cases "?xs = []")
    case True
    then have "first (rt_tbl s) = None" using tbl_chain_first [OF ch] by simp
    with True assms show ?thesis by (simp add: kRecvTimerInit_def waiters_def)
  next
    case False
    then obtain f where f: "first (rt_tbl s) = Some f" using tbl_chain_first [OF ch] by auto
    from ch have c: "heap_ok (hp (rt_tbl s))" "chain rt_next (hp (rt_tbl s)) (first (rt_tbl s)) ?xs None"
      by (simp_all add: tbl_chain_def)
    from free_nodes_chain [OF c(2) False chain_length [OF c] c(1)] obtain h' where
      h': "free_nodes (brk (hp (rt_tbl s))) rt_next (hp (rt_tbl s)) (first (rt_tbl s)) = Inr h'" "heap_ok h'" by auto
    let ?s = "\<lparr>rt_tbl = (rt_tbl s)\<lparr>hp := h', first := None\<rparr>, g_rt_num = 0\<rparr>"
    have "tbl_chain rt_next (rt_tbl ?s) []" using h'(2) by (simp add: tbl_chain_def)
    from rt_invI [OF this, of "[]"] have "rt_inv ?s \<and> waiters ?s = []" by (simp add: waiters_ok_def)
    with h'(1) f show ?thesis by (auto simp: kRecvTimerInit_def)
  qed
qed

lemma hangup_lookup:
  assumes "ksocket_inv s" "0 \<le> h" "live_at h s = Some k" "is_unix (sk_table s ! k)" "all_bufs b"
  shows "\<exists>b'. kSocketGetSIBySocketHandle h \<lparr>b_socketinfo = b_socketinfo b, b_unixd = b_unixd b, b_data = None,
       b_listen = None\<rparr> s = Inr (RETURN_OK, b') \<and> b_socketinfo b' = Some (sk_table s ! k)"
proof -
  let ?si = "sk_table s ! k"
  have k: "k < length (sk_table s)" using live_at_Some [OF assms(1,3)] by simp
  then have "si_ok ?si" "sk_table s \<noteq> []" using assms(1) by (auto simp: ksocket_inv_def)
  with assms(4) obtain u where "si_uniq ?si = UnixdI u"
    by (cases "si_uniq ?si") (auto simp: si_ok_def is_unix_def si_types)
  with assms(2-5) \<open>sk_table s \<noteq> []\<close> show ?thesis
    by (auto simp: kSocketGetSIBySocketHandle_def live_at_def [symmetric] copy_uniq_def all_bufs_def is_unix_def)
qed

lemma deadline_init: "deadline (snd (kCloseTimerInit ct)) i = None"
  by (simp add: kCloseTimerInit_def deadline_def find_None T_SCT_MAXNUM_def)

section \<open>Properties\<close>

text \<open>
  C15: Commands and answers. Every command that returns has been answered with its own number: a close,
  wait, data information, flush, TLS or parser command with one message and nothing else, a connect
  or send command with a last message behind the data it sends, a receive or socket
  information command at once or not at all.
\<close>

theorem commands_answered:
  assumes "writes env h" "run_command env h c q d n w = Inr (ret, w')"
  shows "(c \<in> {CM_CM_SIG_CLOSE_REQ, CM_CM_SIG_WAIT_REQ, CM_CM_SIG_DATAINFO_REQ, CM_CM_SIG_FLUSH_REQ,
        CM_CM_SIG_TLS_SETUP_REQ, CM_CM_SIG_TLS_CLEAR_REQ, CM_CM_SIG_PARSER_ATTACH_REQ} \<longrightarrow>
       told h (c + 32768) q (w_out w) (w_out w')) \<and>
     (c \<in> {CM_CM_SIG_CONNEC_REQ, CM_CM_SIG_SEND_REQ} \<longrightarrow> told_last h (c + 32768) q (w_out w) (w_out w')) \<and>
     (c \<in> {CM_CM_SIG_RECV_REQ, CM_CM_SIG_SOCKINFO_REQ} \<longrightarrow>
       told h (c + 32768) q (w_out w) (w_out w') \<or> w_out w' = w_out w)"
proof -
  note P = commands_told [OF assms(1), of q w d n] connect_told [OF assms(1), of q w d n] send_told [OF assms(1), of q w d n]
    recv_told_or_not [OF assms(1), of q w d n] sockinfo_told_or_not [OF assms(1), of q w d n]
  from P [THEN res_allD] assms(2) show ?thesis
    by (auto simp: run_command_def ret_int_def ret_flag_def bind_res_eq_Inr cm_reqs cm_acks split: if_splits)
qed

theorem commands_answered_witness:
  "\<exists>ret w'. run_command (demo_env []) 5 CM_CM_SIG_PARSER_ATTACH_REQ 9 (put16 CM_CM_SIG_PARSER_ATTACH_REQ @ put16 9 @
       put16 4 @ put16 1) 8 demo_koid = Inr (ret, w') \<and> told 5 33035 9 [] (w_out w')"
proof -
  have w: "writes (demo_env []) 5" by (simp add: writes_def demo_env_def)
  let ?d = "put16 CM_CM_SIG_PARSER_ATTACH_REQ @ put16 9 @ put16 4 @ put16 1"
  have "req_copy PARSER_ATTACH_REQ ?d 8 = Inr (?d @ replicate 192 0)"
    by (simp add: req_copy_def PARSER_ATTACH_REQ_def)
  moreover have "get16 (?d @ replicate 192 0) 6 \<noteq> 0" by simp
  ultimately obtain ret w' where run: "run_command (demo_env []) 5 CM_CM_SIG_PARSER_ATTACH_REQ 9 ?d 8 demo_koid = Inr (ret, w')"
    by (simp add: run_command_def ret_flag_def process_command_parser_attach_req_def split_beta cm_reqs)
  with commands_answered [OF w run] show ?thesis by (auto simp: demo_koid_tables cm_reqs)
qed

text \<open>
  C20: Sending on a TCP connection. When \<open>send\<close> fails, nothing is sent or recorded and the caller gets an
  error. Otherwise exactly the bytes that \<open>send\<close> took have gone out on the connection's descriptor; then a
  message with the next data id and all the bytes that were to be sent is recorded as sent, also when only
  some were taken, and its id and time are reported; but if the data ids or the memory are used up, the
  caller gets an error for bytes that have gone out unrecorded. Nothing else of the daemon changes.
\<close>

theorem kSocketSend_stream:
  assumes "koid_inv w" "sock (w_sk w) i = Some si" "si_type si = SI_TYPE_DATA" "si_tls_mode si = 0" "si_uniq si = DataI d"
    and "0 \<le> n" "n \<le> int (length data)"
    and k: "k = e_send env (si_sockethandle si) (take (nat n) data)"
    and w1: "w1 = w\<lparr>w_out := w_out w @ [(si_sockethandle si, take (nat k) (take (nat n) data))]\<rparr>"
  shows "if k < 0 then kSocketSend env i n data w = Inr (RETURN_NG, None, w)
     else if g_msg_dataid (w_data w) = MSG_MAXMSGNUM \<or> e_malloc env 0 \<noteq> (True, True)
     then kSocketSend env i n data w = Inr (RETURN_NG, None, w1)
     else \<exists>kd. kSocketSend env i n data w =
            Inr (RETURN_OK, Some (g_msg_dataid (w_data w) + 1, e_now env), w1\<lparr>w_data := kd\<rparr>) \<and>
          kdata_inv kd \<and> appendable kd \<and>
          messages kd = messages (w_data w) @ [build_msg (g_msg_dataid (w_data w) + 1) i MSG_SOCKETMODE_SEND d
            (the (b_listen zero_bufs)) n (take (nat n) data) (e_now env)]"
proof -
  note I = koid_invD [OF assms(1)]
  have ty: "data_type (si_type si)" using assms(3) by (simp add: data_type_def)
  note get = handle_bufs_get [OF I(1) assms(2,5) ty, of env]
  have i: "\<not> i < 1" "si_socketid si = i" using sock_ok [OF I(1) assms(2)] by auto
  have send: "send_data env si d i n data w = (if k < 0 then Inr (False, data, w) else Inr (True, data, w1))"
    using assms(3,4,6,7) k w1 by (simp add: send_data_def sys_send_def Let_def)
  have w1': "w_sk w1 = w_sk w" "w_data w1 = w_data w" using w1 by simp_all
  have refused: "kDataRegist (w_sk w) (fst (e_malloc env 0)) (snd (e_malloc env 0)) i MSG_SOCKETMODE_SEND n data
      (e_now env) (w_data w) = Inr (RETURN_NG, w_data w)"
    if "g_msg_dataid (w_data w) = MSG_MAXMSGNUM \<or> e_malloc env 0 \<noteq> (True, True)"
    by (rule kDataRegist_refused [OF I(1)]) (use that in \<open>auto simp: prod_eq_iff\<close>)
  have recorded: "\<exists>kd. kDataRegist (w_sk w) (fst (e_malloc env 0)) (snd (e_malloc env 0)) i MSG_SOCKETMODE_SEND n data
       (e_now env) (w_data w) = Inr (RETURN_OK, kd) \<and> g_msg_dataid kd = g_msg_dataid (w_data w) + 1 \<and>
      kdata_inv kd \<and> appendable kd \<and>
      messages kd = messages (w_data w) @ [build_msg (g_msg_dataid (w_data w) + 1) i MSG_SOCKETMODE_SEND d
       (the (b_listen zero_bufs)) n (take (nat n) data) (e_now env)]"
    if "g_msg_dataid (w_data w) \<noteq> MSG_MAXMSGNUM" "e_malloc env 0 = (True, True)"
  proof -
    have "g_msg_dataid (w_data w) < MSG_MAXMSGNUM" using that(1) I(2) by (simp add: kdata_inv_def)
    with regist_sent [OF I(1-3) assms(2,5) ty that(2) _ assms(6,7)] show ?thesis by blast
  qed
  show ?thesis
  proof (cases "k < 0 \<or> g_msg_dataid (w_data w) = MSG_MAXMSGNUM \<or> e_malloc env 0 \<noteq> (True, True)")
    case True
    then show ?thesis using get i send refused w1' w1 by (auto simp: kSocketSend_def Let_def)
  next
    case False
    then obtain kd where "kDataRegist (w_sk w) (fst (e_malloc env 0)) (snd (e_malloc env 0)) i MSG_SOCKETMODE_SEND n data
       (e_now env) (w_data w) = Inr (RETURN_OK, kd)" "g_msg_dataid kd = g_msg_dataid (w_data w) + 1"
      "kdata_inv kd \<and> appendable kd \<and> messages kd = messages (w_data w) @
        [build_msg (g_msg_dataid (w_data w) + 1) i MSG_SOCKETMODE_SEND d (the (b_listen zero_bufs)) n (take (nat n) data) (e_now env)]"
      using recorded by blast
    with False show ?thesis using get i send w1' by (auto simp: kSocketSend_def Let_def)
  qed
qed

theorem kSocketSend_stream_witness:
  "\<exists>kd. kSocketSend ((demo_env [])\<lparr>e_send := \<lambda>_ _. 1\<rparr>) 4 2 [7, 8, 9] demo_koid =
     Inr (RETURN_OK, Some (1, \<lparr>tv_sec = 10, tv_usec = 5\<rparr>),
     demo_koid\<lparr>w_out := [(6, [7])], w_data := kd\<rparr>) \<and> map msg_bytes (messages kd) = [[7, 8]]"
proof -
  have si: "sock (w_sk demo_koid) 4 = Some (demo_si SI_TYPE_DATA 4 6 (DataI (demo_data 2)))"
    by (simp add: demo_koid_tables sock_def demo_defs)
  have g: "g_msg_dataid (w_data demo_koid) = 0" by (simp add: demo_koid_def kdata_boot_def)
  show ?thesis
    using kSocketSend_stream [OF demo_koid_inv si, of "demo_data 2" 2 "[7, 8, 9]" 1 "(demo_env [])\<lparr>e_send := \<lambda>_ _. 1\<rparr>", OF _ _ _ _ _ _ refl] g
    by (auto simp: demo_si_def demo_env_def demo_koid_tables MSG_MAXMSGNUM_def build_msg_def Let_def)
qed

text \<open>
  A datagram that cannot be sent because its destination is not resolved is recorded as sent all
  the same, and reported to the client with a data id: \<open>kSocketSendDataUdp\<close> returns \<open>RETURN_NG\<close> as a
  truth value.
\<close>

theorem udp_unresolved_recorded:
  assumes "koid_inv w" "sock (w_sk w) i = Some si" "si_type si = SI_TYPE_UDP" "si_uniq si = DataI d"
    and "\<And>host port. y_getaddrinfo (e_sys env) host port (di_family d) SOCK_DGRAM = None"
    and "0 \<le> n" "n \<le> int (length data)"
    and "e_malloc env 0 = (True, True)" "g_msg_dataid (w_data w) < MSG_MAXMSGNUM"
  shows "\<exists>kd. kSocketSend env i n data w =
       Inr (RETURN_OK, Some (g_msg_dataid (w_data w) + 1, e_now env), w\<lparr>w_data := kd\<rparr>) \<and>
     messages kd = messages (w_data w) @ [build_msg (g_msg_dataid (w_data w) + 1) i MSG_SOCKETMODE_SEND d
       (the (b_listen zero_bufs)) n (take (nat n) data) (e_now env)]"
proof -
  note I = koid_invD [OF assms(1)]
  have ty: "data_type (si_type si)" using assms(3) by (simp add: data_type_def)
  note get = handle_bufs_get [OF I(1) assms(2,4) ty, of env]
  have i: "\<not> i < 1" "si_socketid si = i" using sock_ok [OF I(1) assms(2)] by auto
  have "kSocketGetSIBySocketId i \<lparr>b_socketinfo = b_socketinfo zero_bufs, b_unixd = None, b_data = b_data zero_bufs,
      b_listen = None\<rparr> (w_sk w) = Inr (RETURN_OK, \<lparr>b_socketinfo = Some si, b_unixd = None, b_data = Some d, b_listen = None\<rparr>)"
    using I(1) assms(2-4) by (simp add: get_si_sock copy_uniq_def zero_bufs_def si_types)
  then have "kSocketSendDataUdp env i n data w = Inr (True, w)"
    using assms(5) by (cases "di_family d = AF_INET"; cases "di_family d = AF_INET6") (simp_all add: kSocketSendDataUdp_def Let_def)
  then have send: "send_data env si d i n data w = Inr (True, data, w)"
    using assms(3) by (simp add: send_data_def si_types)
  obtain kd where "kDataRegist (w_sk w) (fst (e_malloc env 0)) (snd (e_malloc env 0)) i MSG_SOCKETMODE_SEND n data
       (e_now env) (w_data w) = Inr (RETURN_OK, kd)" "g_msg_dataid kd = g_msg_dataid (w_data w) + 1"
    "messages kd = messages (w_data w) @ [build_msg (g_msg_dataid (w_data w) + 1) i MSG_SOCKETMODE_SEND d
       (the (b_listen zero_bufs)) n (take (nat n) data) (e_now env)]"
    using regist_sent [OF I(1-3) assms(2,4) ty assms(8,9,6,7)] by blast
  with get i send show ?thesis by (auto simp: kSocketSend_def Let_def)
qed

theorem udp_unresolved_recorded_witness:
  "\<exists>kd. kSocketSend ((demo_env [])\<lparr>e_sys := demo_sys\<lparr>y_getaddrinfo := \<lambda>_ _ _ _. None\<rparr>\<rparr>) 6 2 [7, 8] demo_koid =
     Inr (RETURN_OK, Some (1, \<lparr>tv_sec = 10, tv_usec = 5\<rparr>), demo_koid\<lparr>w_data := kd\<rparr>) \<and> length (messages kd) = 1"
proof -
  have si: "sock (w_sk demo_koid) 6 = Some (demo_si SI_TYPE_UDP 6 8 (DataI (demo_data 0)))"
    by (simp add: demo_koid_tables sock_def demo_defs)
  have g: "g_msg_dataid (w_data demo_koid) = 0" by (simp add: demo_koid_def kdata_boot_def)
  show ?thesis
    using udp_unresolved_recorded [OF demo_koid_inv si, of "demo_data 0"
        "(demo_env [])\<lparr>e_sys := demo_sys\<lparr>y_getaddrinfo := \<lambda>_ _ _ _. None\<rparr>\<rparr>" 2 "[7, 8]"] g
    by (auto simp: demo_si_def demo_env_def demo_koid_tables MSG_MAXMSGNUM_def)
qed

text \<open>
  C21: When its control connection ends, the daemon starts afresh: the connection and every socket that
  is not a control socket are closed, no deadline, no waiting reader and no left-over bytes remain, and the
  tables are in order. (The recorded messages stay.)
\<close>

theorem hangup_resets:
  assumes "koid_inv w" "closable (w_sk w)" "0 \<le> h" "live_at h (w_sk w) = Some k"
    and "si_type (sk_table (w_sk w) ! k) = SI_TYPE_UNIX_DATA" "all_bufs (e_locals env)"
    and "e_close env = (\<lambda>_ _. True)"
  shows "\<exists>w'. unixd_hangup env h w = Inr (RETURN_OK, w') \<and> koid_inv w' \<and> w_data w' = w_data w \<and>
     (\<forall>i si. sock (w_sk w) i = Some si \<and> \<not> is_unix si \<longrightarrow> gone i (w_sk w')) \<and>
     gone (si_socketid (sk_table (w_sk w) ! k)) (w_sk w') \<and>
     (\<forall>i. deadline (w_close w') i = None) \<and> waiters (w_recv w') = [] \<and> left_entries (w_buf w') = []"
proof -
  note I = koid_invD [OF assms(1)]
  let ?i = "si_socketid (sk_table (w_sk w) ! k)" and ?b = "e_locals env"
  have sock: "sock (w_sk w) ?i = Some (sk_table (w_sk w) ! k)" using live_at_Some [OF I(1) assms(4)] by simp
  have "is_unix (sk_table (w_sk w) ! k)" using assms(5) by (simp add: is_unix_def)
  from hangup_lookup [OF I(1) assms(3,4) this assms(6)] obtain b' where
    b': "kSocketGetSIBySocketHandle h \<lparr>b_socketinfo = b_socketinfo ?b, b_unixd = b_unixd ?b, b_data = None,
       b_listen = None\<rparr> (w_sk w) = Inr (RETURN_OK, b')" "b_socketinfo b' = Some (sk_table (w_sk w) ! k)" by blast
  from kSocketClose_total [OF assms(2,6), of ?i] obtain r1 s1 where
    s1: "kSocketClose (\<lambda>_. True) ?b ?i (w_sk w) = Inr (r1, s1)" "closes ?i (w_sk w) s1" by blast
  have g1: "g_socket_socketid s1 = g_socket_socketid (w_sk w)"
    using res_allD [OF kSocketClose_step0 s1(1)] I(1) by (simp add: sk_step_def ksocket_inv_def)
  have c1: "closable s1" using closes_closable [OF assms(2) s1(2)] .
  then have inv1: "ksocket_inv s1" by (simp add: closable_def)
  have le1: "list_all2 entry_le (sk_table (w_sk w)) (sk_table s1)" using s1(2) by (simp add: closes_def)
  have gone1: "gone ?i s1" using s1(2) sock assms(5) by (auto simp: closes_def si_types)
  from kSocketClose_zero [OF c1, of ?b] obtain r2 s2 where
    s2: "kSocketClose (\<lambda>_. True) ?b 0 s1 = Inr (r2, s2)" "list_all2 entry_le (sk_table s1) (sk_table s2)"
      "ksocket_inv s2" "g_socket_socketid s2 = g_socket_socketid s1"
      "\<forall>i si. sock s1 i = Some si \<and> \<not> is_unix si \<longrightarrow> gone i s2" by blast
  have gone2: "gone i s2" if "sock (w_sk w) i = Some si" "\<not> is_unix si" for i si
  proof -
    from entry_le_sock [OF le1 I(1) inv1 that(1)] obtain si' where "sock s1 i = Some si'" "entry_le si si'" by blast
    with s2(5) that(2) show ?thesis by (auto simp: is_unix_def entry_le_def)
  qed
  from kBufferInit_clears [OF I(4)] obtain kb where kb: "kBufferInit (w_buf w) = Inr (True, kb)" "left_entries kb = []"
    "kbuffer_inv (g_socket_socketid (w_sk w)) kb" by blast
  from kRecvTimerInit_clears [OF I(6)] obtain rt where rt: "kRecvTimerInit (w_recv w) = Inr (RETURN_OK, rt)"
    "waiters rt = []" "rt_inv rt" by blast
  let ?w = "w\<lparr>w_sk := s2, w_close := snd (kCloseTimerInit (w_close w)), w_buf := kb, w_recv := rt\<rparr>"
  have "unixd_hangup env h w = Inr (RETURN_OK, ?w)"
    using b' s1(1) s2(1) kb(1) rt(1) assms(7) by (simp add: unixd_hangup_def)
  moreover have "koid_inv ?w" using I s2(3,4) g1 kb(3) rt(3) by (simp add: koid_inv_def ct_inv_init)
  moreover have "gone ?i s2" using entry_le_gone [OF s2(2) inv1 s2(3) gone1] .
  ultimately show ?thesis using gone2 kb(2) rt(2) deadline_init by (intro exI [of _ ?w]) simp
qed

theorem hangup_resets_witness:
  "\<exists>w w'. unixd_hangup (demo_env []) 9 w = Inr (RETURN_OK, w') \<and> sock (w_sk w) 6 \<noteq> None \<and> gone 6 (w_sk w') \<and> gone 7 (w_sk w')"
proof -
  let ?c = "demo_si SI_TYPE_UNIX_DATA 7 9 (UnixdI \<lparr>ui_sockpath = []\<rparr>)"
  let ?s = "demo\<lparr>sk_table := sk_table demo @ [?c], g_socket_socketid := 7\<rparr>"
  let ?w = "demo_koid\<lparr>w_sk := ?s\<rparr>"
  have inv: "ksocket_inv ?s" "fds_ok (sk_table ?s)"
    by (simp_all add: ksocket_inv_def si_ok_def demo_defs fds_ok_def koi_simps)
  have "koid_inv ?w" using koid_invD [OF demo_koid_inv] kbuffer_inv_boot [of 7 False] inv(1)
    by (simp add: koid_inv_def demo_koid_def)
  moreover have "closable (w_sk ?w)" using inv by (simp add: closable_def)
  moreover have live: "live_at 9 (w_sk ?w) = Some 6" by (simp add: live_at_def demo_defs socket_consts)
  moreover have c: "sk_table (w_sk ?w) ! 6 = ?c" by (simp add: demo_def)
  moreover have "all_bufs (e_locals (demo_env []))" "e_close (demo_env []) = (\<lambda>_ _. True)"
    using demo_inv(2) by (simp_all add: demo_env_def)
  ultimately obtain w' where w': "unixd_hangup (demo_env []) 9 ?w = Inr (RETURN_OK, w')"
    "\<forall>i si. sock (w_sk ?w) i = Some si \<and> \<not> is_unix si \<longrightarrow> gone i (w_sk w')" "gone 7 (w_sk w')"
    using hangup_resets [of ?w 9 6 "demo_env []"] by (auto simp: demo_si_def)
  have "sock (w_sk ?w) 6 = Some (demo_si SI_TYPE_UDP 6 8 (DataI (demo_data 0)))" by (simp add: sock_def demo_defs)
  with w' have "gone 6 (w_sk w')" "sock (w_sk ?w) 6 \<noteq> None" by (auto simp: is_unix_def demo_si_def si_types)
  with w' show ?thesis by blast
qed

text \<open>
  C22: A receive command for which nothing has come yet: the client becomes a waiting reader with the
  deadline it asks for, behind the others, and hears nothing now. When somebody waits for the socket already, or
  memory is short, it hears nothing now or later: no answer is sent and no timer set.
\<close>

theorem recv_command_waits:
  assumes "koid_inv w" "tbl_ok rt_next (rt_tbl (w_recv w)) (nodes rt_next (rt_tbl (w_recv w)))"
    and "g_rt_num (w_recv w) \<le> g_socket_socketid (w_sk w)"
    and "0 \<le> i" "i \<le> 32767" "0 \<le> t" "t \<le> 32767"
    and "readable (w_sk w) i" "\<forall>m \<in> set (messages (w_data w)). \<not> wanted i m"
  shows "\<exists>w'. process_command_recv_req env h q (put16 CM_CM_SIG_RECV_REQ @ put16 q @ put16 i @ put16 t) 8 w =
       Inr (RETURN_OK, w') \<and> w_out w' = w_out w \<and> w_data w' = w_data w \<and> koid_inv w' \<and>
     waiters (w_recv w') = waiters (w_recv w) @
       (if g_rt_num (w_recv w) = g_socket_socketid (w_sk w) \<or> i \<in> w_id ` set (waiters (w_recv w)) \<or> \<not> fst (e_malloc env 0)
        then [] else [(h, i, (e_now env)\<lparr>tv_sec := long_of (tv_sec (e_now env) + t)\<rparr>, q)])"
proof -
  note I = koid_invD [OF assms(1)]
  let ?d = "put16 CM_CM_SIG_RECV_REQ @ put16 q @ put16 i @ put16 t"
  let ?g = "g_socket_socketid (w_sk w)"
  let ?bad = "g_rt_num (w_recv w) = ?g \<or> i \<in> w_id ` set (waiters (w_recv w)) \<or> \<not> fst (e_malloc env 0)"
  have copy: "req_copy RECV_REQ ?d 8 = Inr ?d" by (simp add: req_copy_def RECV_REQ_def)
  have fields: "get16 ?d 4 = i" "get16 ?d 6 = t" using get16_put16 [of t "[]"] assms(4-7) by simp_all
  note none = get_none [OF I(2,1) assms(8,9)]
  have "?g \<le> 32767" using I(1) by (simp add: ksocket_inv_def SOCKET_MAXNUM_def)
  then obtain r rt where rt: "kRecvTimerSet ?g (e_now env) (fst (e_malloc env 0)) h i t q (w_recv w) = Inr (r, rt)"
    "rt_inv rt" "waiters rt = waiters (w_recv w) @
       (if ?bad then [] else [(h, i, (e_now env)\<lparr>tv_sec := long_of (tv_sec (e_now env) + t)\<rparr>, q)])"
    using kRecvTimerSet_refused [OF I(6), of i ?g "fst (e_malloc env 0)" "e_now env" h t q] I(6)
      kRecvTimerSet_append [OF I(6) assms(2,4), of ?g "e_now env" h t q] assms(3)
    by (cases ?bad) auto
  have "process_command_recv_req env h q ?d 8 w = Inr (RETURN_OK, w\<lparr>w_recv := rt\<rparr>)"
    using copy fields none rt(1) by (simp add: process_command_recv_req_def del: append_assoc)
  moreover have "koid_inv (w\<lparr>w_recv := rt\<rparr>)" using I rt(2) by (simp add: koid_inv_def)
  ultimately show ?thesis using rt(3) by (intro exI [of _ "w\<lparr>w_recv := rt\<rparr>"]) simp
qed

theorem recv_command_waits_witness:
  "\<exists>w'. process_command_recv_req (demo_env []) 5 9 (put16 CM_CM_SIG_RECV_REQ @ put16 9 @ put16 6 @ put16 3) 8 demo_koid =
     Inr (RETURN_OK, w') \<and> waiters (w_recv w') = [(5, 6, \<lparr>tv_sec = 13, tv_usec = 5\<rparr>, 9)]"
proof -
  have last: "tbl_ok rt_next (rt_tbl (w_recv demo_koid)) (nodes rt_next (rt_tbl (w_recv demo_koid)))"
    using tbl_ok_nodes [of rt_next "empty_tbl True" "[]"] by (simp add: demo_koid_def recv_timer_boot_def)
  have "waiters (w_recv demo_koid) = []" by (simp only: demo_koid_def koid.simps rt_inv_boot)
  moreover have "g_rt_num (w_recv demo_koid) = 0" "g_socket_socketid (w_sk demo_koid) = 6"
    "fst (e_malloc (demo_env []) 0)" "e_now (demo_env []) = \<lparr>tv_sec = 10, tv_usec = 5\<rparr>"
    by (simp_all add: demo_koid_def recv_timer_boot_def demo_def demo_env_def)
  moreover note recv_command_waits [OF demo_koid_inv last, of 6 3 "demo_env []" 5 9] demo_readable
  ultimately show ?thesis
    by (auto simp: demo_koid_tables)
qed

text \<open>
  A command to clear a TLS session is always answered with the general failure, because the handler
  takes the 0 that \<open>kTLSClear\<close> returns for success as a failure.
\<close>

theorem tls_clear_refused:
  assumes "writes env h" "process_command_tls_clear_req env h q d n w = Inr (ret, w')"
  shows "\<not> ret \<and> w_out w' = w_out w @ [(h, put16 CM_CM_SIG_TLS_CLEAR_ACK @ put16 q @ put16 CM_RESULT_SIG_NG_OTHER)]"
proof -
  have zero: "r = 0" if "kTLSClear i t s = Inr (r, t', s')" for i t s r t' s'
    using that by (auto simp: kTLSClear_def bind_res_eq_Inr split_beta Let_def RETURN_OK_def split: if_splits option.splits)
  from assms show ?thesis
    by (auto simp: process_command_tls_clear_req_def bind_res_eq_Inr Let_def flag_answer_def
        tls_clear_ack_return_def flush_ack_def dest!: zero)
qed

theorem tls_clear_refused_witness:
  "\<exists>w'. process_command_tls_clear_req (demo_env []) 5 9 (put16 CM_CM_SIG_TLS_CLEAR_REQ @ put16 9 @ put16 0) 6 demo_koid =
     Inr (False, w') \<and> w_out w' = [(5, put16 CM_CM_SIG_TLS_CLEAR_ACK @ put16 9 @ put16 CM_RESULT_SIG_NG_OTHER)]"
proof -
  let ?d = "put16 CM_CM_SIG_TLS_CLEAR_REQ @ put16 9 @ put16 0"
  have w: "writes (demo_env []) 5" by (simp add: writes_def demo_env_def)
  have "req_copy TLS_CLEAR_REQ ?d 6 = Inr ?d" by (simp add: req_copy_def TLS_CLEAR_REQ_def)
  moreover have "get16 ?d 4 = 0" using get16_put16 [of 0 "[]"] by simp
  ultimately have "\<exists>r. process_command_tls_clear_req (demo_env []) 5 9 ?d 6 demo_koid = Inr r"
    by (simp add: process_command_tls_clear_req_def kTLSClear_def split_beta Let_def del: append_assoc)
      (rule exI [of _ False], simp)
  then obtain ret w' where run: "process_command_tls_clear_req (demo_env []) 5 9 ?d 6 demo_koid = Inr (ret, w')" by auto
  from tls_clear_refused [OF w run] run show ?thesis by (auto simp: demo_koid_tables)
qed

end
