(* ===== verification/KTyped.thy ===== *)
theory KTyped
  imports KSystem
begin

text \<open>
  The entries of the socket table carry a pointer to one of three structs and a number that says
  which. On the table of a reachable daemon, only the check for a second UDP listener reads a struct as
  one of another kind.
\<close>

section \<open>Operations on an ordered table\<close>

definition typed :: "'a res \<Rightarrow> bool" where
  "typed m \<longleftrightarrow> m \<noteq> Inl TypeConfusion"

lemma typed_simps [simp]: "typed (Inr x)" "typed (Inl NullDeref)"
  by (simp_all add: typed_def)

lemma typed_bind: "typed m \<Longrightarrow> (\<And>x. m = Inr x \<Longrightarrow> typed (f x)) \<Longrightarrow> typed (bind_res m f)"
  by (cases m) (auto simp: typed_def)

lemma as_datasocket_typed:
  "si_ok si \<Longrightarrow> si_type si \<in> {SI_TYPE_UDP, SI_TYPE_DATA, SI_TYPE_LISTEN_UDP, SI_TYPE_RAW} \<Longrightarrow>
   typed (as_datasocket (si_uniq si))"
  by (cases "si_uniq si") (auto simp: si_ok_def as_datasocket_def si_types typed_def)

lemma copy_uniq_typed: "si_ok si \<Longrightarrow> typed (copy_uniq raw si b)"
  by (cases "si_uniq si") (auto simp: si_ok_def copy_uniq_def si_types typed_def Let_def split: option.split)

lemma entry_ok: "ksocket_inv s \<Longrightarrow> k < length (sk_table s) \<Longrightarrow> si_ok (sk_table s ! k)"
  by (simp add: ksocket_inv_def)

lemma lookup_id_typed: "ksocket_inv s \<Longrightarrow> typed (kSocketGetSIBySocketId i b s)"
  by (auto simp: kSocketGetSIBySocketId_def intro!: copy_uniq_typed entry_ok dest: si_loop_less split: option.split)

lemma lookup_handle_typed: "ksocket_inv s \<Longrightarrow> typed (kSocketGetSIBySocketHandle h b s)"
  by (auto simp: kSocketGetSIBySocketHandle_def intro!: copy_uniq_typed entry_ok dest: si_loop_less split: option.split)

text \<open>The check for a socket to reuse, which picks a UDP socket if any.\<close>

lemma check_new_typed:
  assumes "\<forall>si \<in> set xs. si_ok si" "\<forall>k. snd st = Some k \<longrightarrow> P k"
    and "\<And>k. k < length xs \<Longrightarrow> si_type (xs ! k) = SI_TYPE_UDP \<Longrightarrow> P (i + k)"
  shows "typed (check_new_loop sp sa dp pr i xs st) \<and>
     (\<forall>flg k. check_new_loop sp sa dp pr i xs st = Inr (flg, Some k) \<longrightarrow> P k)"
  using assms
proof (induction xs arbitrary: i st)
  case (Cons si ys)
  show ?case
  proof (cases ys)
    case Nil
    with Cons.prems(2) show ?thesis by auto
  next
    case (Cons x zs)
    have ok: "\<forall>si \<in> set ys. si_ok si" using Cons.prems(1) by simp
    have shift: "P (Suc i + k)" if "k < length ys" "si_type (ys ! k) = SI_TYPE_UDP" for k
      using Cons.prems(3) [of "Suc k"] that by simp
    have IH: "typed (check_new_loop sp sa dp pr (Suc i) ys st) \<and>
        (\<forall>flg k. check_new_loop sp sa dp pr (Suc i) ys st = Inr (flg, Some k) \<longrightarrow> P k)"
      if "\<forall>k. snd st = Some k \<longrightarrow> P k" for st
      by (rule Cons.IH [OF ok that]) (rule shift)
    have "\<exists>st'. check_new_loop sp sa dp pr i (si # ys) st = check_new_loop sp sa dp pr (Suc i) ys st' \<and>
        (st' = st \<or> si_type si = SI_TYPE_UDP \<and> snd st' = Some i)"
    proof (cases "si_type si = SI_TYPE_UDP")
      case True
      with Cons.prems(1) obtain d where "as_datasocket (si_uniq si) = Inr d"
        by (cases "si_uniq si") (auto simp: si_ok_def as_datasocket_def si_types)
      with True show ?thesis unfolding \<open>ys = x # zs\<close> check_new_loop.simps Let_def
        by (simp only: bind_res_Inr split: if_split) (metis snd_conv)
    next
      case False
      then show ?thesis unfolding \<open>ys = x # zs\<close> check_new_loop.simps by (intro exI [of _ st]) simp
    qed
    then obtain st' where st': "check_new_loop sp sa dp pr i (si # ys) st = check_new_loop sp sa dp pr (Suc i) ys st'"
      "st' = st \<or> si_type si = SI_TYPE_UDP \<and> snd st' = Some i" by blast
    have "\<forall>k. snd st' = Some k \<longrightarrow> P k" using st'(2) Cons.prems(2) Cons.prems(3) [of 0] by auto
    from IH [OF this] show ?thesis unfolding st'(1) by simp
  qed
qed (simp add: typed_def)

lemma check_typed:
  assumes "ksocket_inv s"
  shows "typed (kSocketCheckNewSocket sp sa dp da pr flg s)"
proof -
  let ?P = "\<lambda>k. k < length (sk_table s) \<and> si_type (sk_table s ! k) = SI_TYPE_UDP"
  have "\<forall>si \<in> set (sk_table s). si_ok si" using assms by (simp add: ksocket_inv_def)
  from check_new_typed [OF this, of "(True, None)" ?P 0 sp sa dp pr]
  have L: "typed (check_new_loop sp sa dp pr 0 (sk_table s) (True, None))"
    "\<And>f k. check_new_loop sp sa dp pr 0 (sk_table s) (True, None) = Inr (f, Some k) \<Longrightarrow> ?P k" by auto
  show ?thesis
    unfolding kSocketCheckNewSocket_def
    by (auto intro!: typed_bind L(1) as_datasocket_typed entry_ok [OF assms] dest: L(2)
        split: bool.split option.split)
qed

lemma tls_session_typed:
  "\<forall>si \<in> set xs. si_ok si \<Longrightarrow> typed (tls_session_loop (tls_match off n src dst port) xs)"
proof (induction xs)
  case (Cons si xs)
  then show ?case by (auto simp: tls_match_def intro!: typed_bind as_datasocket_typed)
qed simp

lemma upd_data_typed:
  assumes "ksocket_inv s" "\<And>k. live_at h s = Some k \<Longrightarrow>
    si_type (sk_table s ! k) \<in> {SI_TYPE_UDP, SI_TYPE_DATA, SI_TYPE_LISTEN_UDP, SI_TYPE_RAW}"
  shows "typed (upd_data f h s)"
  unfolding upd_data_def
  using assms live_at_Some [OF assms(1), of h]
  by (auto intro!: typed_bind as_datasocket_typed entry_ok split: option.split)

section \<open>Properties\<close>

text \<open>
  C13: In every state the daemon can reach before its socket ids are used up and without undefined behaviour,
  the struct of every socket is the one its type announces. So the lookups, the check for a socket to
  reuse and the search for a TLS session never read a struct as one of another kind, whatever they are asked.
  The check for a second listener does so exactly when it is asked about UDP and some UDP socket listens: it
  takes the \<open>DatasocketInfo\<close> of that socket for a \<open>ListenportInfo\<close>.
\<close>

theorem reachable_tables_typed:
  assumes "started w0" "rounds w0 n w"
  shows "(\<forall>si \<in> set (sk_table (w_sk w)). case si_uniq si of
       UnixdI _ \<Rightarrow> si_type si \<in> {SI_TYPE_UNIX, SI_TYPE_UNIX_DATA}
     | DataI _ \<Rightarrow> si_type si \<in> {SI_TYPE_UDP, SI_TYPE_DATA, SI_TYPE_LISTEN_UDP, SI_TYPE_RAW}
     | ListenI _ \<Rightarrow> si_type si = SI_TYPE_LISTEN_TCP) \<and>
     kSocketGetSIBySocketId i b (w_sk w) \<noteq> Inl TypeConfusion \<and>
     kSocketGetSIBySocketHandle h b (w_sk w) \<noteq> Inl TypeConfusion \<and>
     kSocketCheckNewSocket sp sa dp da pr flg (w_sk w) \<noteq> Inl TypeConfusion \<and>
     kSocketTLSSession src dst dp (w_sk w) \<noteq> Inl TypeConfusion \<and>
     IsExistSameSocket SI_TYPE_LISTEN_TCP af sp (w_sk w) \<noteq> Inl TypeConfusion \<and>
     (IsExistSameSocket SI_TYPE_LISTEN_UDP af sp (w_sk w) = Inl TypeConfusion \<longleftrightarrow>
        (\<exists>si \<in> set (sk_table (w_sk w)). si_type si = SI_TYPE_LISTEN_UDP \<and> si_socket_status si = SI_STATUS_ALIVE))"
proof -
  have inv: "ksocket_inv (w_sk w)" using reachable_inv [OF assms] by blast
  then have ok: "\<forall>si \<in> set (sk_table (w_sk w)). si_ok si" by (simp add: ksocket_inv_def)
  have "typed (kSocketTLSSession src dst dp (w_sk w))"
    using tls_session_typed [OF ok] by (simp add: kSocketTLSSession_def)
  moreover note lookup_id_typed [OF inv, of i b] lookup_handle_typed [OF inv, of h b] check_typed [OF inv, of sp sa dp da pr flg]
  moreover note IsExistSameSocket_decides [OF inv, of af sp]
  ultimately show ?thesis using ok by (simp add: typed_def si_ok_def udp_listener_def)
qed

theorem reachable_tables_typed_witness:
  "\<exists>w0 w. started w0 \<and> rounds w0 1 w \<and> kSocketCheckNewSocket 0 [] 0 [] 17 True (w_sk w) \<noteq> Inl TypeConfusion"
proof -
  from demo_start_runs obtain w0 w1 where "started w0" "rounds w0 (Suc 0) w1" by blast
  with reachable_tables_typed [of w0 "Suc 0" w1, where sp = 0 and sa = "[]" and dp = 0 and da = "[]" and pr = 17
        and flg = True] show ?thesis unfolding One_nat_def by blast
qed

end
