(* ===== verification/VPosition.thy ===== *)
theory VPosition
  imports Koi_Prelude
begin

text \<open>
  The packet tool \<open>v6eval-3.3.2\<close>: positions in a packet (\<open>lib/Pz/ItPosition\<close>), a number of octets and
  a number of bits.
\<close>

section \<open>Operations\<close>

record itpos =
  pos_bytes :: int
  pos_bits :: int

text \<open>The accessors and the modifiers; the C++ overloads \<open>bytes\<close> and \<open>bits\<close> get two names each.\<close>

definition it_bytes :: "itpos \<Rightarrow> int" where
  "it_bytes i = long_of (pos_bytes i + pos_bits i div 8)"

definition it_bits :: "itpos \<Rightarrow> int" where
  "it_bits i = pos_bits i mod 8"

definition it_pos :: "int \<Rightarrow> int \<Rightarrow> itpos" where
  "it_pos k b = \<lparr>pos_bytes = k, pos_bits = b\<rparr>"

definition it_copy :: "itpos \<Rightarrow> itpos" where
  "it_copy i = \<lparr>pos_bytes = it_bytes i, pos_bits = it_bits i\<rparr>"

definition addBytes :: "int \<Rightarrow> itpos \<Rightarrow> itpos" where
  "addBytes k i = i\<lparr>pos_bytes := long_of (pos_bytes i + k)\<rparr>"

text \<open>\<open>addBits\<close> reads the bits modulo 8, but leaves \<open>pos_bytes\<close> without what \<open>pos_bits / 8\<close> was worth.\<close>

definition addBits :: "int \<Rightarrow> itpos \<Rightarrow> itpos" where
  "addBits w i = (let n = ushort_of (it_bits i + w); i = addBytes (n div 8) i in i\<lparr>pos_bits := n mod 8\<rparr>)"

definition it_add :: "itpos \<Rightarrow> itpos \<Rightarrow> itpos" where
  "it_add j i = addBytes (it_bytes j) (addBits (it_bits j) i)"

definition subtractBytes :: "int \<Rightarrow> itpos \<Rightarrow> itpos" where
  "subtractBytes k i = i\<lparr>pos_bytes := long_of (pos_bytes i - k)\<rparr>"

definition subtractBits :: "int \<Rightarrow> itpos \<Rightarrow> itpos" where
  "subtractBits w i = (let n = it_bits i in
     if n \<ge> w then i\<lparr>pos_bits := (n - w) mod 8\<rparr>
     else let d = w - n; i = subtractBytes (d div 8 + 1) i in i\<lparr>pos_bits := ushort_of (8 - d) mod 8\<rparr>)"

definition it_subtract :: "itpos \<Rightarrow> itpos \<Rightarrow> itpos" where
  "it_subtract j i = subtractBits (it_bits j) (subtractBytes (it_bytes j) i)"

text \<open>The comparisons convert the number of octets to an unsigned integer.\<close>

definition it_eq :: "itpos \<Rightarrow> itpos \<Rightarrow> bool" where
  "it_eq x y \<longleftrightarrow> ulong_of (it_bytes x) = ulong_of (it_bytes y) \<and> it_bits x = it_bits y"

definition it_less :: "itpos \<Rightarrow> itpos \<Rightarrow> bool" where
  "it_less x y \<longleftrightarrow> ulong_of (it_bytes x) < ulong_of (it_bytes y) \<or>
     ulong_of (it_bytes x) = ulong_of (it_bytes y) \<and> it_bits x < it_bits y"

definition it_le :: "itpos \<Rightarrow> itpos \<Rightarrow> bool" where
  "it_le x y \<longleftrightarrow> it_less x y \<or> it_eq x y"

section \<open>Positions as bit offsets\<close>

text \<open>A position within the first 256 MB of a packet, with fewer than 8 bits.\<close>

definition it_ok :: "itpos \<Rightarrow> bool" where
  "it_ok i \<longleftrightarrow> 0 \<le> pos_bytes i \<and> pos_bytes i < 268435456 \<and> 0 \<le> pos_bits i \<and> pos_bits i < 8"

definition offset :: "itpos \<Rightarrow> int" where
  "offset i = 8 * pos_bytes i + pos_bits i"

lemma it_ok_sel [simp]: "it_ok i \<Longrightarrow> it_bytes i = pos_bytes i" "it_ok i \<Longrightarrow> it_bits i = pos_bits i"
  by (simp_all add: it_ok_def it_bytes_def it_bits_def)

lemma addBits_offset:
  assumes "it_ok i" "0 \<le> w" "w < 65529" "offset i + w < 2147483648"
  shows "it_ok (addBits w i) \<and> offset (addBits w i) = offset i + w"
proof -
  have b: "it_bits i = pos_bits i" "0 \<le> pos_bits i" "pos_bits i < 8" "0 \<le> pos_bytes i" "pos_bytes i < 268435456"
    using assms(1) by (simp_all add: it_ok_def it_bits_def)
  have n: "ushort_of (pos_bits i + w) = pos_bits i + w" using b assms by simp
  have "8 * ((pos_bits i + w) div 8) + (pos_bits i + w) mod 8 = pos_bits i + w" by simp
  then have "pos_bytes i + (pos_bits i + w) div 8 < 268435456" using assms(4) b unfolding offset_def by linarith
  moreover have "0 \<le> (pos_bits i + w) div 8" using b assms by simp
  ultimately show ?thesis
    using b n by (auto simp: addBits_def addBytes_def it_ok_def offset_def Let_def)
qed

lemma addBytes_offset:
  assumes "it_ok i" "0 \<le> k" "offset i + 8 * k < 2147483648"
  shows "it_ok (addBytes k i) \<and> offset (addBytes k i) = offset i + 8 * k"
  using assms by (auto simp: addBytes_def it_ok_def offset_def)

lemma it_add_offset:
  assumes "it_ok i" "it_ok j" "offset i + offset j < 2147483648"
  shows "it_ok (it_add j i) \<and> offset (it_add j i) = offset i + offset j"
proof -
  have j: "0 \<le> pos_bits j" "pos_bits j < 8" "0 \<le> pos_bytes j" using assms(2) by (simp_all add: it_ok_def)
  have 1: "it_ok (addBits (pos_bits j) i) \<and> offset (addBits (pos_bits j) i) = offset i + pos_bits j"
    by (rule addBits_offset) (use assms j in \<open>auto simp: offset_def\<close>)
  show ?thesis
    using addBytes_offset [of "addBits (pos_bits j) i" "pos_bytes j"] 1 j assms by (simp add: it_add_def offset_def)
qed

lemma it_subtract_offset:
  assumes "it_ok i" "it_ok j" "offset j \<le> offset i"
  shows "it_ok (it_subtract j i) \<and> offset (it_subtract j i) = offset i - offset j"
proof -
  have b: "0 \<le> pos_bits i" "pos_bits i < 8" "0 \<le> pos_bytes i" "pos_bytes i < 268435456"
    "0 \<le> pos_bits j" "pos_bits j < 8" "0 \<le> pos_bytes j" "pos_bytes j < 268435456"
    using assms by (simp_all add: it_ok_def)
  have le: "pos_bytes j \<le> pos_bytes i" using assms(3) b unfolding offset_def by linarith
  show ?thesis
  proof (cases "pos_bits j \<le> pos_bits i")
    case True
    then show ?thesis using b le assms
      by (auto simp: it_subtract_def subtractBits_def subtractBytes_def it_ok_def it_bits_def it_bytes_def offset_def Let_def)
  next
    case False
    then have "pos_bytes j < pos_bytes i" using assms(3) b unfolding offset_def by linarith
    moreover have "(pos_bits j - pos_bits i) div 8 = 0" "ushort_of (8 - (pos_bits j - pos_bits i)) = 8 - (pos_bits j - pos_bits i)"
      "(8 - (pos_bits j - pos_bits i)) mod 8 = 8 - (pos_bits j - pos_bits i)"
      using False b by (simp_all only: ushort_of_id div_pos_pos_trivial mod_pos_pos_trivial)
    ultimately show ?thesis using False b le assms
      by (auto simp: it_subtract_def subtractBits_def subtractBytes_def it_ok_def it_bits_def it_bytes_def offset_def Let_def)
  qed
qed

lemma digits_eq:
  assumes "0 \<le> b" "b < 8" "0 \<le> d" "d < (8::int)"
  shows "8 * a + b = 8 * c + d \<longleftrightarrow> a = c \<and> b = d"
proof
  assume eq: "8 * a + b = 8 * c + d"
  then have "a = c" using assms by linarith
  with eq show "a = c \<and> b = d" by simp
qed simp

lemma it_compare:
  assumes "it_ok x" "it_ok y"
  shows "it_less x y \<longleftrightarrow> offset x < offset y" "it_eq x y \<longleftrightarrow> offset x = offset y"
proof -
  have b: "0 \<le> pos_bits x" "pos_bits x < 8" "0 \<le> pos_bits y" "pos_bits y < 8"
    "ulong_of (pos_bytes x) = pos_bytes x" "ulong_of (pos_bytes y) = pos_bytes y"
    using assms by (simp_all add: it_ok_def ulong_of_def)
  show "it_eq x y \<longleftrightarrow> offset x = offset y"
    using b digits_eq [OF b(1-4)] assms by (simp add: it_eq_def offset_def)
  have "pos_bytes x < pos_bytes y \<or> pos_bytes x = pos_bytes y \<and> pos_bits x < pos_bits y \<longleftrightarrow>
      8 * pos_bytes x + pos_bits x < 8 * pos_bytes y + pos_bits y"
    using b by linarith
  then show "it_less x y \<longleftrightarrow> offset x < offset y" using b assms by (simp add: it_less_def offset_def)
qed

lemmas position_defs [koi_simps] = it_bytes_def it_bits_def it_pos_def it_copy_def addBytes_def addBits_def it_add_def
  subtractBytes_def subtractBits_def it_subtract_def it_eq_def it_less_def it_le_def

section \<open>Properties\<close>

text \<open>
  Positions are bit offsets: adding and subtracting positions adds and subtracts offsets, and the
  comparisons compare them, as long as the offsets stay below 256 MB and the result is not
  negative. (A negative difference compares as a large one.)
\<close>

theorem positions_are_offsets:
  assumes "it_ok i" "it_ok j"
  shows "(offset i + offset j < 2147483648 \<longrightarrow>
       it_ok (it_add j i) \<and> offset (it_add j i) = offset i + offset j \<and> it_eq (it_subtract j (it_add j i)) i) \<and>
     (offset j \<le> offset i \<longrightarrow> it_ok (it_subtract j i) \<and> offset (it_subtract j i) = offset i - offset j) \<and>
     (it_less i j \<longleftrightarrow> offset i < offset j) \<and> (it_le i j \<longleftrightarrow> offset i \<le> offset j) \<and> (it_eq i j \<longleftrightarrow> offset i = offset j)"
proof -
  have nn: "0 \<le> offset j" "0 \<le> offset i" using assms by (simp_all add: it_ok_def offset_def)
  have "it_eq (it_subtract j (it_add j i)) i" if "offset i + offset j < 2147483648"
    using it_add_offset [OF assms that] it_subtract_offset [of "it_add j i" j] assms nn it_compare(2) by simp
  then show ?thesis
    using it_add_offset [OF assms] it_subtract_offset [OF assms] it_compare [OF assms]
    by (auto simp: it_le_def)
qed

theorem positions_are_offsets_witness:
  "offset (it_add (it_pos 2 5) (it_pos 1 6)) = 35 \<and> it_less (it_pos 1 6) (it_pos 2 5)"
  using positions_are_offsets [of "it_pos 1 6" "it_pos 2 5"] by (simp add: it_ok_def it_pos_def offset_def)

end
