(* ===== verification/VOctets.thy ===== *)
theory VOctets
  imports VPosition
begin

text \<open>
  Octet strings and bit fields of the packet tool (\<open>lib/Pz/PvOctets\<close>): writing and reading values of
  any width at any bit position, comparison, sums, and the addresses made from others. An octet
  string is the list of the octets of its buffer; what lies behind it may not be touched.
\<close>

unbundle bit_operations_syntax

section \<open>One octet\<close>

text \<open>
  The destination octets as the code computes them; \<open>b\<close> is the bit offset, \<open>w\<close> the width, at
  most 8. Values of type \<open>octet\<close> are shifted as \<open>int\<close> and cut to 8 bits when they are stored.
\<close>

definition la_mask :: "nat \<Rightarrow> byte" where
  "la_mask w = push_bit (8 - w) (mask w)"

definition la_first :: "byte \<Rightarrow> nat \<Rightarrow> nat \<Rightarrow> byte \<Rightarrow> byte" where
  "la_first n b w d0 = (let m = la_mask w; nm = n AND m; t = drop_bit b nm; sm = drop_bit b m in
     (t AND sm) OR (d0 AND NOT sm))"

definition la_second :: "byte \<Rightarrow> nat \<Rightarrow> nat \<Rightarrow> byte \<Rightarrow> byte" where
  "la_second n b w d1 = (let m = la_mask w; nm = n AND m; s = 8 - b; t = push_bit s nm; sm = push_bit s m in
     (t AND sm) OR (d1 AND NOT sm))"

definition la_read :: "nat \<Rightarrow> nat \<Rightarrow> byte \<Rightarrow> byte \<Rightarrow> byte" where
  "la_read b w d0 d1 = (let m = la_mask w; sm = drop_bit b m in
     if b + w < 8 then push_bit b (d0 AND sm)
     else let r = 8 - b; rm = push_bit r m in push_bit b (d0 AND sm) OR drop_bit r (d1 AND rm))"

definition ra_first :: "byte \<Rightarrow> nat \<Rightarrow> nat \<Rightarrow> byte \<Rightarrow> byte" where
  "ra_first n b w d0 = (let e = b + w; m = mask w; nm = n AND m;
       shift = (if e < 8 then push_bit (8 - e) else drop_bit (e - 8)); t = shift nm; sm = shift m in
     (t AND sm) OR (d0 AND NOT sm))"

definition ra_second :: "byte \<Rightarrow> nat \<Rightarrow> nat \<Rightarrow> byte \<Rightarrow> byte" where
  "ra_second n b w d1 = (let s = 8 - (b + w - 8); m = mask w; nm = n AND m; t = push_bit s nm; sm = push_bit s m in
     (t AND sm) OR (d1 AND NOT sm))"

definition ra_read :: "nat \<Rightarrow> nat \<Rightarrow> byte \<Rightarrow> byte \<Rightarrow> byte" where
  "ra_read b w d0 d1 = (let e = b + w; m = mask w in
     if e < 8 then drop_bit (8 - e) (d0 AND push_bit (8 - e) m)
     else let s = e - 8; sm = drop_bit s m; r = 8 - s; rm = push_bit r m in
       push_bit s (d0 AND sm) OR drop_bit r (d1 AND rm))"

text \<open>
  Writing and reading at a position. When the field ends at or behind the end of the first octet
  (\<open>e \<ge> 8\<close>), the second octet is read and written, even when no bit of it belongs to the field.
\<close>

definition encode_octet :: "(byte \<Rightarrow> nat \<Rightarrow> nat \<Rightarrow> byte \<Rightarrow> byte) \<Rightarrow> (byte \<Rightarrow> nat \<Rightarrow> nat \<Rightarrow> byte \<Rightarrow> byte) \<Rightarrow>
    byte \<Rightarrow> itpos \<Rightarrow> nat \<Rightarrow> byte list \<Rightarrow> byte list res" where
  "encode_octet fst1 snd1 n at w dst =
     (if w > 8 then Inl Abort
      else let q = nat (it_bytes at); b = nat (it_bits at) in
        if it_bytes at < 0 \<or> q \<ge> length dst then Inl BufferOverflow
        else let dst = dst[q := fst1 n b w (dst ! q)] in
          if b + w < 8 then Inr dst
          else if Suc q \<ge> length dst then Inl BufferOverflow
          else Inr (dst[Suc q := snd1 n b w (dst ! Suc q)]))"

definition encodeLA :: "byte \<Rightarrow> itpos \<Rightarrow> nat \<Rightarrow> byte list \<Rightarrow> byte list res" where
  "encodeLA = encode_octet la_first la_second"

definition encodeRA :: "byte \<Rightarrow> itpos \<Rightarrow> nat \<Rightarrow> byte list \<Rightarrow> byte list res" where
  "encodeRA = encode_octet ra_first ra_second"

definition decode_octet :: "(nat \<Rightarrow> nat \<Rightarrow> byte \<Rightarrow> byte \<Rightarrow> byte) \<Rightarrow> itpos \<Rightarrow> nat \<Rightarrow> byte list \<Rightarrow> byte res" where
  "decode_octet rd at w src =
     (if w > 8 then Inl Abort
      else let q = nat (it_bytes at); b = nat (it_bits at) in
        if it_bytes at < 0 \<or> q \<ge> length src then Inl OutOfBounds
        else if b + w < 8 then Inr (rd b w (src ! q) 0)
        else if Suc q \<ge> length src then Inl OutOfBounds
        else Inr (rd b w (src ! q) (src ! Suc q)))"

definition decodeLA :: "itpos \<Rightarrow> nat \<Rightarrow> byte list \<Rightarrow> byte res" where
  "decodeLA = decode_octet la_read"

definition decodeRA :: "itpos \<Rightarrow> nat \<Rightarrow> byte list \<Rightarrow> byte res" where
  "decodeRA = decode_octet ra_read"

section \<open>The bits of an octet string\<close>

text \<open>Bit \<open>k\<close>, counted from the most significant bit of the first octet.\<close>

definition obit :: "byte list \<Rightarrow> nat \<Rightarrow> bool" where
  "obit bs k = bit (bs ! (k div 8)) (7 - k mod 8)"

lemma obit_at [simp]: "r < 8 \<Longrightarrow> obit bs (8 * q + r) = bit (bs ! q) (7 - r)"
  by (simp add: obit_def)

lemma obit_eqI:
  assumes "length xs = length ys" "\<And>k. k < 8 * length xs \<Longrightarrow> obit xs k = obit ys k"
  shows "xs = ys"
proof (rule nth_equalityI [OF assms(1)])
  fix q assume q: "q < length xs"
  have "bit (xs ! q) j = bit (ys ! q) j" if j: "j < 8" for j
  proof -
    have "8 * q + (7 - j) < 8 * length xs" using q j by linarith
    from assms(2) [OF this] obit_at [of "7 - j" xs q] obit_at [of "7 - j" ys q]
    have "bit (xs ! q) (7 - (7 - j)) = bit (ys ! q) (7 - (7 - j))" by (simp only:)
    moreover have "7 - (7 - j) = j" using j by simp
    ultimately show ?thesis by (simp only:)
  qed
  then show "xs ! q = ys ! q" by (auto intro!: bit_eqI dest: bit_imp_le_length)
qed

lemma byte_bit [simp]: "8 \<le> n \<Longrightarrow> \<not> bit (x :: byte) n"
  using bit_imp_le_length [of x n] by auto

text \<open>The octet-level facts: which bits a write changes, and which a read returns.\<close>

lemma la_first_bit: "b < 8 \<Longrightarrow> w \<le> 8 \<Longrightarrow> r < 8 \<Longrightarrow> bit (la_first n b w d) (7 - r) =
    (if b \<le> r \<and> r < b + w then bit n (7 - (r - b)) else bit d (7 - r))"
  by (auto simp: la_first_def la_mask_def Let_def bit_simps ac_simps)

lemma la_second_bit: "b < 8 \<Longrightarrow> w \<le> 8 \<Longrightarrow> 8 \<le> b + w \<Longrightarrow> r < 8 \<Longrightarrow> bit (la_second n b w d) (7 - r) =
    (if 8 + r < b + w then bit n (7 - (8 + r - b)) else bit d (7 - r))"
  by (auto simp: la_second_def la_mask_def Let_def bit_simps ac_simps)

lemma la_read_bit: "b < 8 \<Longrightarrow> w \<le> 8 \<Longrightarrow> r < 8 \<Longrightarrow> bit (la_read b w d0 d1) (7 - r) =
    (r < w \<and> (if b + r < 8 then bit d0 (7 - (b + r)) else bit d1 (7 - (b + r - 8))))"
  by (auto simp: la_read_def la_mask_def Let_def bit_simps ac_simps)

lemma ra_first_bit: "b < 8 \<Longrightarrow> w \<le> 8 \<Longrightarrow> r < 8 \<Longrightarrow> bit (ra_first n b w d) (7 - r) =
    (if b \<le> r \<and> r < b + w then bit n (b + w - 1 - r) else bit d (7 - r))"
  by (auto simp: ra_first_def Let_def bit_simps ac_simps)

lemma ra_second_bit: "b < 8 \<Longrightarrow> w \<le> 8 \<Longrightarrow> 8 \<le> b + w \<Longrightarrow> r < 8 \<Longrightarrow> bit (ra_second n b w d) (7 - r) =
    (if 8 + r < b + w then bit n (b + w - 1 - (8 + r)) else bit d (7 - r))"
  by (auto simp: ra_second_def Let_def bit_simps ac_simps)

lemma ra_read_bit: "b < 8 \<Longrightarrow> w \<le> 8 \<Longrightarrow> j < 8 \<Longrightarrow> bit (ra_read b w d0 d1) j =
    (j < w \<and> (if b + (w - 1 - j) < 8 then bit d0 (7 - (b + (w - 1 - j))) else bit d1 (7 - (b + (w - 1 - j) - 8))))"
  by (auto simp: ra_read_def Let_def bit_simps ac_simps)

section \<open>Several octets\<close>

text \<open>
  \<open>encodeLAs\<close> writes the first \<open>w\<close> bits of \<open>np\<close>, \<open>encodeRAs\<close> the last \<open>w\<close> of as many octets as
  are needed. The loops end with the octets read; one more is a read past the end. \<open>w\<close> is a
  \<open>uint16_t\<close>.
\<close>

definition put_octet :: "(byte \<Rightarrow> itpos \<Rightarrow> nat \<Rightarrow> byte list \<Rightarrow> byte list res) \<Rightarrow> byte \<Rightarrow> itpos \<Rightarrow> nat \<Rightarrow>
    byte list \<Rightarrow> byte list res" where
  "put_octet enc n it cw dst =
     (if cw = 8 \<and> it_bits it = 0 then
        (if it_bytes it < 0 \<or> nat (it_bytes it) \<ge> length dst then Inl BufferOverflow
         else Inr (dst[nat (it_bytes it) := n]))
      else enc n it cw dst)"

fun encodeLAs_loop :: "byte list \<Rightarrow> itpos \<Rightarrow> nat \<Rightarrow> byte list \<Rightarrow> byte list res" where
  "encodeLAs_loop [] it w dst = (if w = 0 then Inr dst else Inl OutOfBounds)"
| "encodeLAs_loop (n # np) it w dst = (if w = 0 then Inr dst
     else let cw = (if w > 8 then 8 else w) in
       bind_res (put_octet encodeLA n it cw dst) (encodeLAs_loop np (addBits (int cw) it) (w - cw)))"

fun encodeRAs_loop :: "byte list \<Rightarrow> itpos \<Rightarrow> nat \<Rightarrow> byte list \<Rightarrow> byte list res" where
  "encodeRAs_loop [] it w dst = (if w = 0 then Inr dst else Inl OutOfBounds)"
| "encodeRAs_loop (n # np) it w dst = (if w = 0 then Inr dst
     else let cw = (w - 1) mod 8 + 1 in
       bind_res (put_octet encodeRA n it cw dst) (encodeRAs_loop np (addBits (int cw) it) (w - cw)))"

definition get_octet :: "(itpos \<Rightarrow> nat \<Rightarrow> byte list \<Rightarrow> byte res) \<Rightarrow> itpos \<Rightarrow> nat \<Rightarrow> byte list \<Rightarrow> byte res" where
  "get_octet dec it cw src =
     (if cw = 8 \<and> it_bits it = 0 then
        (if it_bytes it < 0 \<or> nat (it_bytes it) \<ge> length src then Inl OutOfBounds
         else Inr (src ! nat (it_bytes it)))
      else dec it cw src)"

text \<open>The octets that are read, in order.\<close>

function decodeLAs_loop :: "itpos \<Rightarrow> nat \<Rightarrow> byte list \<Rightarrow> byte list res" where
  "decodeLAs_loop it w src = (if w = 0 then Inr []
     else let cw = (if w > 8 then 8 else w) in
       bind_res (get_octet decodeLA it cw src) (\<lambda>n.
       bind_res (decodeLAs_loop (addBits (int cw) it) (w - cw) src) (\<lambda>np. Inr (n # np))))"
  by pat_completeness auto
termination by (relation "measure (\<lambda>(_, w, _). w)") auto

function decodeRAs_loop :: "itpos \<Rightarrow> nat \<Rightarrow> byte list \<Rightarrow> byte list res" where
  "decodeRAs_loop it w src = (if w = 0 then Inr []
     else let cw = (w - 1) mod 8 + 1 in
       bind_res (get_octet decodeRA it cw src) (\<lambda>n.
       bind_res (decodeRAs_loop (addBits (int cw) it) (w - cw) src) (\<lambda>np. Inr (n # np))))"
  by pat_completeness auto
termination by (relation "measure (\<lambda>(_, w, _). w)") auto

declare decodeLAs_loop.simps [simp del] decodeRAs_loop.simps [simp del]

definition encodeLAs :: "byte list \<Rightarrow> itpos \<Rightarrow> nat \<Rightarrow> byte list \<Rightarrow> byte list res" where
  "encodeLAs np at w dst = encodeLAs_loop np (it_copy at) w dst"

definition encodeRAs :: "byte list \<Rightarrow> itpos \<Rightarrow> nat \<Rightarrow> byte list \<Rightarrow> byte list res" where
  "encodeRAs np at w dst = encodeRAs_loop np (it_copy at) w dst"

definition decodeLAs :: "itpos \<Rightarrow> nat \<Rightarrow> byte list \<Rightarrow> byte list res" where
  "decodeLAs at w src = decodeLAs_loop (it_copy at) w src"

definition decodeRAs :: "itpos \<Rightarrow> nat \<Rightarrow> byte list \<Rightarrow> byte list res" where
  "decodeRAs at w src = decodeRAs_loop (it_copy at) w src"

text \<open>
  Numbers, in network byte order: the last octets of the four bytes of \<open>htonl(h)\<close>. For a width
  above 32 the loop reads, or writes, behind these four.
\<close>

definition net_bytes :: "32 word \<Rightarrow> byte list" where
  "net_bytes h = map (\<lambda>i. ucast (drop_bit (24 - 8 * i) h)) [0..<4]"

definition of_net :: "byte list \<Rightarrow> 32 word" where
  "of_net bs = push_bit 24 (ucast (bs ! 0)) OR push_bit 16 (ucast (bs ! 1)) OR push_bit 8 (ucast (bs ! 2)) OR ucast (bs ! 3)"

definition encodeUint :: "32 word \<Rightarrow> itpos \<Rightarrow> nat \<Rightarrow> byte list \<Rightarrow> byte list res" where
  "encodeUint h at w dst = encodeRAs (drop ((32 - w) div 8) (net_bytes h)) at w dst"

definition decodeUint :: "itpos \<Rightarrow> nat \<Rightarrow> byte list \<Rightarrow> (32 word) res" where
  "decodeUint at w src = bind_res (decodeRAs at w src) (\<lambda>np.
     if w > 32 then Inl BufferOverflow else Inr (of_net (replicate ((32 - w) div 8) 0 @ np)))"

text \<open>Whole octet strings; the width of an unaligned one is cut to 16 bits.\<close>

definition encode_octets :: "itpos \<Rightarrow> byte list \<Rightarrow> byte list \<Rightarrow> byte list res" where
  "encode_octets at s dst =
     (if it_bits at > 0 then encodeLAs s at (nat (ushort_of (8 * int (length s)))) dst
      else if it_bytes at < 0 \<or> it_bytes at > int (length dst) then Inl Abort
      else cmemcpy dst (nat (it_bytes at)) s (length s))"

definition encodeZero :: "itpos \<Rightarrow> itpos \<Rightarrow> byte list \<Rightarrow> byte list res" where
  "encodeZero at sz dst = (let off = it_copy at; len = it_bytes sz in
     if len < 0 then Inl Abort
     else bind_res (if len > 0 then encode_octets off (replicate (nat len) 0) dst else Inr dst) (\<lambda>dst.
       let off = (if len > 0 then addBytes len off else off) in
       if it_bits sz > 0 then encodeUint 0 off (nat (it_bits sz)) dst else Inr dst))"

section \<open>Comparison and sums\<close>

text \<open>\<open>memcmp\<close>: only the sign of its result is defined.\<close>

fun memcmp :: "byte list \<Rightarrow> byte list \<Rightarrow> int" where
  "memcmp (x # xs) (y # ys) = (if x < y then -1 else if y < x then 1 else memcmp xs ys)"
| "memcmp _ _ = 0"

definition compareWidth :: "byte list \<Rightarrow> byte list \<Rightarrow> nat \<Rightarrow> int res" where
  "compareWidth l r w = (let ow = w div 8; bw = w mod 8; m = la_mask bw in
     if ow > length l \<or> ow > length r then Inl OutOfBounds
     else let x = memcmp (take ow l) (take ow r) in
       if x = 0 \<and> bw > 0 then
         (if ow \<ge> length l \<or> ow \<ge> length r then Inl OutOfBounds
          else Inr (uint (l ! ow AND m) - uint (r ! ow AND m)))
       else Inr x)"

definition compareOctets :: "byte list \<Rightarrow> byte list \<Rightarrow> int" where
  "compareOctets l r = (let ml = min (length l) (length r); x = memcmp (take ml l) (take ml r) in
     if x \<noteq> 0 then x else int (length l) - int (length r))"

fun sum1Octet :: "byte list \<Rightarrow> 32 word" where
  "sum1Octet [] = 0"
| "sum1Octet (a # s) = ucast a + sum1Octet s"

fun sum2Octets :: "byte list \<Rightarrow> 32 word" where
  "sum2Octets (a # b # s) = (push_bit 8 (ucast a) OR ucast b) + sum2Octets s"
| "sum2Octets [a] = push_bit 8 (ucast a)"
| "sum2Octets [] = 0"

fun sum4Octets :: "byte list \<Rightarrow> 32 word" where
  "sum4Octets (a # b # c # d # s) = of_net [a, b, c, d] + sum4Octets s"
| "sum4Octets [a, b, c] = of_net [a, b, c, 0]"
| "sum4Octets [a, b] = of_net [a, b, 0, 0]"
| "sum4Octets [a] = of_net [a, 0, 0, 0]"
| "sum4Octets [] = 0"

section \<open>Addresses\<close>

definition eui64_create :: "byte list \<Rightarrow> byte list" where
  "eui64_create src = [src ! 0 XOR 2, src ! 1, src ! 2, 0xff, 0xfe, src ! 3, src ! 4, src ! 5]"

definition ether_multicast :: "byte list \<Rightarrow> byte list" where
  "ether_multicast src = [0x33, 0x33, src ! 12, src ! 13, src ! 14, src ! 15]"

text \<open>
  \<open>merge\<close> of a prefix of \<open>w\<close> bits and a host part into a new address: the prefix of \<open>net\<close>,
  zeros, and the last bits of the host part.
\<close>

definition v6_merge :: "byte list \<Rightarrow> nat \<Rightarrow> byte list \<Rightarrow> byte list res" where
  "v6_merge net w h = (let tw = 128; hw = 8 * length h in
     if hw > tw then Inl Abort
     else let pw = (if w + hw < tw then tw - hw else w); rw = tw - pw in
       bind_res (encodeLAs net (it_pos 0 0) w (replicate 16 0)) (\<lambda>dst.
         encodeRAs (drop ((hw - rw) div 8) h) (addBits (int (pw mod 8)) (addBytes (int (pw div 8)) (it_pos 0 0))) rw dst))"

section \<open>Positions as bit numbers\<close>

definition pos :: "nat \<Rightarrow> itpos" where
  "pos k = it_pos (int (k div 8)) (int (k mod 8))"

lemma pos_sel: "k < 2147483648 \<Longrightarrow> it_bytes (pos k) = int (k div 8)" "it_bits (pos k) = int (k mod 8)"
  by (simp_all add: pos_def it_pos_def it_bytes_def it_bits_def)

lemma pos_copy: "k < 2147483648 \<Longrightarrow> it_copy (pos k) = pos k"
  by (simp add: it_copy_def pos_sel) (simp add: pos_def it_pos_def)

lemma pos_addBits:
  assumes "k + w < 2147483648" "w < 65529"
  shows "addBits (int w) (pos k) = pos (k + w)"
proof -
  have n: "ushort_of (int (k mod 8) + int w) = int (k mod 8 + w)" using assms(2) by simp
  have "k = 8 * (k div 8) + k mod 8" by simp
  then have "(k + w) div 8 = k div 8 + (k mod 8 + w) div 8" "(k + w) mod 8 = (k mod 8 + w) mod 8"
    by (metis div_mult_self2 group_cancel.add1 add.commute zero_neq_numeral) presburger
  moreover have "int (k div 8) + int (k mod 8 + w) div 8 = int (k div 8 + (k mod 8 + w) div 8)"
    by (simp only: zdiv_int of_nat_add of_nat_numeral)
  moreover have "long_of (int ((k + w) div 8)) = int ((k + w) div 8)" using assms(1) by simp
  moreover have "k < 2147483648" using assms(1) by simp
  ultimately show ?thesis
    by (simp only: addBits_def addBytes_def pos_sel n Let_def)
      (simp add: pos_def it_pos_def zmod_int del: of_nat_add)
qed

lemma pos_addBytes: "k + 8 * n < 2147483648 \<Longrightarrow> addBytes (int n) (pos k) = pos (k + 8 * n)"
  by (simp add: addBytes_def pos_def it_pos_def)

lemma it_ok_pos: "it_ok i \<Longrightarrow> i = pos (nat (offset i))" "it_ok (pos k) \<longleftrightarrow> k < 2147483648" "offset (pos k) = int k"
  by (auto simp: it_ok_def pos_def it_pos_def offset_def nat_add_distrib nat_mult_distrib zdiv_int zmod_int)

section \<open>What writing does to the bits\<close>

lemma nat_split8:
  obtains q r where "k = 8 * q + r" "r < (8::nat)"
  using mod_less_divisor [of 8 k] by (metis div_mod_decomp mult.commute zero_less_numeral)

lemma obit_update: "q < length bs \<Longrightarrow> obit (bs[q := x]) k = (if k div 8 = q then bit x (7 - k mod 8) else obit bs k)"
  by (auto simp: obit_def nth_list_update)

text \<open>A field that ends before the end of the octet string, or is the last whole octet.\<close>

lemma put_octet_bits:
  assumes first: "\<And>b d r. b < 8 \<Longrightarrow> r < 8 \<Longrightarrow> bit (f1 n b w d) (7 - r) = (if b \<le> r \<and> r < b + w then g (r - b) else bit d (7 - r))"
    and second: "\<And>b d r. b < 8 \<Longrightarrow> r < 8 \<Longrightarrow> 8 \<le> b + w \<Longrightarrow>
      bit (f2 n b w d) (7 - r) = (if 8 + r < b + w then g (8 + r - b) else bit d (7 - r))"
    and whole: "w = 8 \<Longrightarrow> \<forall>r < 8. bit n (7 - r) = g r"
    and w: "0 < w" "w \<le> 8" and k: "k < 2147483648"
    and room: "k + w < 8 * length dst \<or> k + w = 8 * length dst \<and> w = 8"
  shows "\<exists>dst'. put_octet (encode_octet f1 f2) n (pos k) w dst = Inr dst' \<and> length dst' = length dst \<and>
     (\<forall>j. obit dst' j = (if k \<le> j \<and> j < k + w then g (j - k) else obit dst j))"
proof -
  obtain q b where kq: "k = 8 * q + b" "b < 8" by (rule nat_split8)
  have sel: "it_bytes (pos k) = int q" "it_bits (pos k) = int b" using pos_sel [of k] k kq by simp_all
  have q: "q < length dst" using room kq w by auto
  show ?thesis
  proof (cases "w = 8 \<and> b = 0")
    case True
    have "obit (dst[q := n]) j = (if k \<le> j \<and> j < k + w then g (j - k) else obit dst j)" for j
    proof -
      obtain p r where j: "j = 8 * p + r" "r < 8" by (rule nat_split8)
      have "p = q \<and> j - k = r" if "k \<le> j" "j < k + w"
        using that True kq(1) j by simp presburger+
      with True kq whole q j show ?thesis by (cases "p = q") auto
    qed
    with True sel q show ?thesis by (simp add: put_octet_def)
  next
    case False
    let ?d = "dst[q := f1 n b w (dst ! q)]"
    have bits1: "obit ?d j = (if k \<le> j \<and> j < k + w \<and> j div 8 = q then g (j - k) else obit dst j)" for j
    proof -
      obtain p r where j: "j = 8 * p + r" "r < 8" by (rule nat_split8)
      with kq first [OF kq(2) j(2)] q show ?thesis by (cases "p = q") auto
    qed
    show ?thesis
    proof (cases "b + w < 8")
      case True
      then have "j div 8 = q" if "k \<le> j" "j < k + w" for j
        using that kq by (intro div_nat_eqI) auto
      with bits1 True False sel q w show ?thesis by (auto simp: put_octet_def encode_octet_def)
    next
      case ge: False
      then have q1: "Suc q < length dst" using room kq False by auto
      have run: "put_octet (encode_octet f1 f2) n (pos k) w dst = Inr (?d[Suc q := f2 n b w (?d ! Suc q)])"
        using ge False sel q q1 w by (cases "b = 0") (auto simp: put_octet_def encode_octet_def Let_def)
      have "obit (?d[Suc q := f2 n b w (?d ! Suc q)]) j = (if k \<le> j \<and> j < k + w then g (j - k) else obit dst j)" for j
      proof -
        obtain p r where j: "j = 8 * p + r" "r < 8" by (rule nat_split8)
        have dj: "j div 8 = p" "j mod 8 = r" using j by simp_all
        have o: "obit (?d[Suc q := x]) j = (if p = Suc q then bit x (7 - r) else obit ?d j)" for x
          using obit_update [of "Suc q" ?d x j] q1 dj by simp
        show ?thesis
        proof (cases "p = Suc q")
          case True
          have "obit dst j = bit (dst ! Suc q) (7 - r)" using dj True by (simp add: obit_def)
          moreover have jq: "j = 8 * q + (8 + r)" using j True by simp
          have "k \<le> j" using kq jq by linarith
          moreover have "j < k + w \<longleftrightarrow> 8 + r < b + w" by (simp only: kq(1) jq add.assoc nat_add_left_cancel_less)
          moreover have "j - k = 8 + r - b" by (simp only: kq(1) jq diff_cancel)
          ultimately show ?thesis
            using second [OF kq(2) j(2), of "dst ! Suc q"] ge True o by simp
        next
          case other: False
          have "p = q" if "k \<le> j" "j < k + w"
          proof -
            have "q \<le> p" using that(1) kq j by linarith
            moreover have "p < q + 2" using that(2) kq(2) w(2) unfolding j(1) kq(1) by linarith
            ultimately show ?thesis using other by linarith
          qed
          then show ?thesis using bits1 [of j] other dj by (auto simp: o)
        qed
      qed
      with run show ?thesis by simp
    qed
  qed
qed

lemma obit_Cons: "obit (n # np) j = (if j < 8 then bit n (7 - j) else obit np (j - 8))"
  by (cases "j < 8") (auto simp: obit_def le_div_geq le_mod_geq not_less)

lemma put_LA_bits:
  assumes "0 < w" "w \<le> 8" "k < 2147483648" "k + w < 8 * length dst \<or> k + w = 8 * length dst \<and> w = 8"
  shows "\<exists>dst'. put_octet encodeLA n (pos k) w dst = Inr dst' \<and> length dst' = length dst \<and>
     (\<forall>j. obit dst' j = (if k \<le> j \<and> j < k + w then bit n (7 - (j - k)) else obit dst j))"
  unfolding encodeLA_def using assms by (intro put_octet_bits) (simp_all add: la_first_bit la_second_bit)

lemma put_RA_bits:
  assumes "0 < w" "w \<le> 8" "k < 2147483648" "k + w < 8 * length dst \<or> k + w = 8 * length dst \<and> w = 8"
  shows "\<exists>dst'. put_octet encodeRA n (pos k) w dst = Inr dst' \<and> length dst' = length dst \<and>
     (\<forall>j. obit dst' j = (if k \<le> j \<and> j < k + w then bit n (w - 1 - (j - k)) else obit dst j))"
proof -
  have e: "b + w - 1 - r = w - 1 - (r - b)" if "b \<le> r" for b r :: nat using that by simp
  show ?thesis
    unfolding encodeRA_def using assms by (intro put_octet_bits) (simp_all add: ra_first_bit ra_second_bit e add.commute)
qed

lemma encodeLAs_loop_bits:
  assumes "w \<le> 8 * length np" "k + w < 2147483648" "k + w < 8 * length dst \<or> k + w = 8 * length dst \<and> w mod 8 = 0"
  shows "\<exists>dst'. encodeLAs_loop np (pos k) w dst = Inr dst' \<and> length dst' = length dst \<and>
    (\<forall>j. obit dst' j = (if k \<le> j \<and> j < k + w then obit np (j - k) else obit dst j))"
  using assms
proof (induction np arbitrary: k w dst)
  case Nil
  then show ?case by auto
next
  case (Cons n np)
  show ?case
  proof (cases "w = 0")
    case False
    define cw where "cw = (if w > 8 then 8 else w)"
    have cw: "0 < cw" "cw \<le> 8" "cw \<le> w" "cw < 8 \<Longrightarrow> w = cw" using False by (auto simp: cw_def)
    have room: "k + cw < 8 * length dst \<or> k + cw = 8 * length dst \<and> cw = 8"
      using Cons.prems(3) False by (auto simp: cw_def split: if_splits)
    obtain d1 where d1: "put_octet encodeLA n (pos k) cw dst = Inr d1" "length d1 = length dst"
      "\<And>j. obit d1 j = (if k \<le> j \<and> j < k + cw then bit n (7 - (j - k)) else obit dst j)"
      using put_LA_bits [OF cw(1,2) _ room, of n] Cons.prems(2) cw(3) by auto
    have "\<exists>dst'. encodeLAs_loop np (pos (k + cw)) (w - cw) d1 = Inr dst' \<and> length dst' = length d1 \<and>
      (\<forall>j. obit dst' j = (if k + cw \<le> j \<and> j < k + cw + (w - cw) then obit np (j - (k + cw)) else obit d1 j))"
    proof (rule Cons.IH)
      show "w - cw \<le> 8 * length np" using Cons.prems(1) by (simp add: cw_def) linarith
      show "k + cw + (w - cw) < 2147483648" using Cons.prems(2) cw(3) by linarith
      show "k + cw + (w - cw) < 8 * length d1 \<or> k + cw + (w - cw) = 8 * length d1 \<and> (w - cw) mod 8 = 0"
        using Cons.prems(3) by (cases "w > 8") (auto simp: cw_def d1(2) le_mod_geq)
    qed
    then obtain d2 where d2: "encodeLAs_loop np (pos (k + cw)) (w - cw) d1 = Inr d2" "length d2 = length dst"
      "\<And>j. obit d2 j = (if k + cw \<le> j \<and> j < k + w then obit np (j - (k + cw)) else obit d1 j)"
      using cw(3) d1(2) by auto
    have "encodeLAs_loop (n # np) (pos k) w dst = Inr d2"
      using False d1(1) d2(1) cw(2) Cons.prems(2) cw(3) pos_addBits [of k cw] by (simp add: cw_def [symmetric] Let_def)
    moreover have "obit d2 j = (if k \<le> j \<and> j < k + w then obit (n # np) (j - k) else obit dst j)" for j
      using cw by (cases "k + cw \<le> j"; cases "cw = 8") (auto simp: d2(3) d1(3) obit_Cons)
    ultimately show ?thesis using d2(2) by blast
  qed auto
qed

lemma encodeRAs_loop_bits:
  assumes "length np = (w + 7) div 8" "k + w < 2147483648"
    "w > 0 \<Longrightarrow> k + w < 8 * length dst \<or> k + w = 8 * length dst \<and> 8 \<le> w"
  shows "\<exists>dst'. encodeRAs_loop np (pos k) w dst = Inr dst' \<and> length dst' = length dst \<and>
    (\<forall>j. obit dst' j = (if k \<le> j \<and> j < k + w then obit np (8 * length np - w + (j - k)) else obit dst j))"
  using assms
proof (induction np arbitrary: k w dst)
  case Nil
  then show ?case by auto
next
  case (Cons n np)
  define cw where "cw = (w - 1) mod 8 + 1"
  obtain q r where qr: "w - 1 = 8 * q + r" "r < 8" by (rule nat_split8)
  have w0: "w \<noteq> 0" using Cons.prems(1) by auto
  then have w: "w = 8 * q + cw" and cw: "0 < cw" "cw \<le> 8" using qr by (simp_all add: cw_def)
  have "w + 7 = 8 * Suc q + r" using qr w0 by simp
  then have "(w + 7) div 8 = Suc q" using qr(2) by (simp only: div_mult_self4 div_less)
  then have q: "q = length np" using Cons.prems(1) by simp
  have room: "k + cw < 8 * length dst \<or> k + cw = 8 * length dst \<and> cw = 8"
    using Cons.prems(3) w cw w0 by (cases "q = 0") auto
  obtain d1 where d1: "put_octet encodeRA n (pos k) cw dst = Inr d1" "length d1 = length dst"
    "\<And>j. obit d1 j = (if k \<le> j \<and> j < k + cw then bit n (cw - 1 - (j - k)) else obit dst j)"
    using put_RA_bits [OF cw _ room, of n] Cons.prems(2) w by auto
  have "\<exists>dst'. encodeRAs_loop np (pos (k + cw)) (8 * q) d1 = Inr dst' \<and> length dst' = length d1 \<and>
    (\<forall>j. obit dst' j = (if k + cw \<le> j \<and> j < k + cw + 8 * q then obit np (8 * length np - 8 * q + (j - (k + cw))) else obit d1 j))"
    using Cons.prems(2,3) w d1(2) q by (intro Cons.IH) (auto simp: Suc_le_eq)
  then obtain d2 where d2: "encodeRAs_loop np (pos (k + cw)) (8 * q) d1 = Inr d2" "length d2 = length dst"
    "\<And>j. obit d2 j = (if k + cw \<le> j \<and> j < k + w then obit np (j - (k + cw)) else obit d1 j)"
    using d1(2) q w by auto
  have "encodeRAs_loop (n # np) (pos k) w dst = Inr d2"
  proof -
    have "w - cw = 8 * q" using w by simp
    moreover have "addBits (int cw) (pos k) = pos (k + cw)" using cw w Cons.prems(2) by (intro pos_addBits) auto
    ultimately show ?thesis using w0 d1(1) d2(1) by (simp only: encodeRAs_loop.simps Let_def cw_def [symmetric]) simp
  qed
  moreover have "obit d2 j = (if k \<le> j \<and> j < k + w then obit (n # np) (8 * length (n # np) - w + (j - k)) else obit dst j)" for j
  proof -
    have e: "8 * length (n # np) - w = 8 - cw" using w q by simp
    show ?thesis unfolding e d2(3) d1(3) obit_Cons using cw w by (cases "k + cw \<le> j") (auto simp: add.commute)
  qed
  ultimately show ?case using d2(2) by blast
qed

section \<open>What reading returns\<close>

lemma get_octet_read:
  assumes "0 < w" "w \<le> 8" "k < 2147483648" "k + w < 8 * length src \<or> k + w = 8 * length src \<and> w = 8"
  shows "get_octet (decode_octet rd) (pos k) w src = Inr (if w = 8 \<and> k mod 8 = 0 then src ! (k div 8)
      else rd (k mod 8) w (src ! (k div 8)) (if k mod 8 + w < 8 then 0 else src ! Suc (k div 8)))"
proof -
  obtain q b where kq: "k = 8 * q + b" "b < 8" by (rule nat_split8)
  have sel: "it_bytes (pos k) = int q" "it_bits (pos k) = int b" "k div 8 = q" "k mod 8 = b"
    using pos_sel [of k] assms kq by simp_all
  have "q < length src" using assms kq by auto
  moreover have "Suc q < length src" if "8 \<le> b + w" "w < 8 \<or> 0 < b" using that assms(4) kq by auto
  ultimately show ?thesis
    using assms(2) by (auto simp: get_octet_def decode_octet_def sel Let_def)
qed

lemma get_RA_bits:
  assumes "0 < w" "w \<le> 8" "k < 2147483648" "k + w < 8 * length src \<or> k + w = 8 * length src \<and> w = 8"
  shows "\<exists>n. get_octet decodeRA (pos k) w src = Inr n \<and> (\<forall>j. bit n j \<longleftrightarrow> j < w \<and> obit src (k + (w - 1 - j)))"
proof -
  obtain q b where kq: "k = 8 * q + b" "b < 8" by (rule nat_split8)
  have o: "obit src (k + i) = (if b + i < 8 then bit (src ! q) (7 - (b + i)) else bit (src ! Suc q) (7 - (b + i - 8)))"
    if "b + i < 16" for i
  proof (cases "b + i < 8")
    case True
    then show ?thesis using obit_at [of "b + i" src q] by (simp add: kq add.assoc)
  next
    case False
    then have "k + i = 8 * Suc q + (b + i - 8)" by (simp add: kq)
    then show ?thesis using obit_at [of "b + i - 8" src "Suc q"] False that by (simp only:) simp
  qed
  have "bit (if w = 8 \<and> b = 0 then src ! q else ra_read b w (src ! q) (if b + w < 8 then 0 else src ! Suc q)) j
      \<longleftrightarrow> j < w \<and> obit src (k + (w - 1 - j))" for j
  proof (cases "j < w")
    case True
    define i where "i = w - 1 - j"
    have i: "j < 8" "b + i < 16" "i < w" "7 - i = j \<or> w < 8" using True assms(2) kq(2) by (auto simp: i_def)
    have rb: "bit (ra_read b w d0 d1) j = (if b + i < 8 then bit d0 (7 - (b + i)) else bit d1 (7 - (b + i - 8)))" for d0 d1
      unfolding i_def using ra_read_bit [OF kq(2) assms(2) i(1)] True by simp
    show ?thesis
      unfolding i_def [symmetric] o [OF i(2)] using True rb i by (cases "w = 8 \<and> b = 0") auto
  next
    case False
    then show ?thesis using kq(2) assms(2) by (cases "j < 8") (auto simp: ra_read_bit)
  qed
  moreover have "k div 8 = q" "k mod 8 = b" using kq by simp_all
  ultimately show ?thesis
    using get_octet_read [OF assms, of ra_read] unfolding decodeRA_def by (intro exI conjI allI) (assumption, simp only:)
qed

lemma decodeRAs_loop_bits:
  assumes "k + w < 2147483648" "w > 0 \<Longrightarrow> k + w < 8 * length src \<or> k + w = 8 * length src \<and> 8 \<le> w"
  shows "\<exists>np. decodeRAs_loop (pos k) w src = Inr np \<and> length np = (w + 7) div 8 \<and>
    (\<forall>j < 8 * length np. obit np j \<longleftrightarrow> 8 * length np \<le> w + j \<and> obit src (k + (w + j - 8 * length np)))"
  using assms
proof (induction w arbitrary: k rule: less_induct)
  case (less w)
  show ?case
  proof (cases "w = 0")
    case True
    then show ?thesis by (simp add: decodeRAs_loop.simps)
  next
    case w0: False
    define cw where "cw = (w - 1) mod 8 + 1"
    obtain q r where qr: "w - 1 = 8 * q + r" "r < 8" by (rule nat_split8)
    have w: "w = 8 * q + cw" and cw: "0 < cw" "cw \<le> 8" using qr w0 by (simp_all add: cw_def)
    have "w + 7 = 8 * Suc q + r" using qr w0 by simp
    then have q: "(w + 7) div 8 = Suc q" using qr(2) by (simp only: div_mult_self4 div_less)
    have room: "k + cw < 8 * length src \<or> k + cw = 8 * length src \<and> cw = 8"
      using less.prems(2) w cw w0 by (cases "q = 0") auto
    obtain n where n: "get_octet decodeRA (pos k) cw src = Inr n"
      "\<And>j. bit n j \<longleftrightarrow> j < cw \<and> obit src (k + (cw - 1 - j))"
      using get_RA_bits [OF cw _ room] less.prems(1) w by auto
    have "\<exists>np. decodeRAs_loop (pos (k + cw)) (8 * q) src = Inr np \<and> length np = (8 * q + 7) div 8 \<and>
      (\<forall>j < 8 * length np. obit np j \<longleftrightarrow> 8 * length np \<le> 8 * q + j \<and> obit src (k + cw + (8 * q + j - 8 * length np)))"
      using less.prems w cw by (intro less.IH) (auto simp: Suc_le_eq)
    then obtain np where np: "decodeRAs_loop (pos (k + cw)) (8 * q) src = Inr np" "length np = q"
      "\<And>j. j < 8 * q \<Longrightarrow> obit np j = obit src (k + cw + j)" by auto
    have "decodeRAs_loop (pos k) w src = Inr (n # np)"
    proof -
      have "w - cw = 8 * q" using w by simp
      moreover have "addBits (int cw) (pos k) = pos (k + cw)" using cw w less.prems(1) by (intro pos_addBits) auto
      ultimately show ?thesis
        using w0 n(1) np(1) by (subst decodeRAs_loop.simps) (simp only: Let_def cw_def [symmetric], simp)
    qed
    moreover have "obit (n # np) j \<longleftrightarrow> 8 * Suc q \<le> w + j \<and> obit src (k + (w + j - 8 * Suc q))" if "j < 8 * Suc q" for j
    proof (cases "j < 8")
      case True
      have "cw - 1 - (7 - j) = w + j - 8 * Suc q" using True cw w by simp
      then show ?thesis using True cw w by (auto simp: obit_Cons n(2))
    next
      case False
      then have "k + cw + (j - 8) = k + (w + j - 8 * Suc q)" using w by simp
      then show ?thesis using that np(3) [of "j - 8"] False w by (auto simp: obit_Cons)
    qed
    ultimately show ?thesis using np(2) q by auto
  qed
qed

section \<open>Numbers in fields of any width\<close>

lemma obit_drop: "m \<le> length bs \<Longrightarrow> obit (drop m bs) j = obit bs (8 * m + j)"
  by (simp add: obit_def)

lemma obit_zeros: "obit (replicate m 0 @ np) j = (if j < 8 * m then False else obit np (j - 8 * m))"
proof (cases "j < 8 * m")
  case True
  then have "j div 8 < m" by linarith
  then show ?thesis using True by (simp add: obit_def nth_append)
next
  case False
  then have "j = 8 * m + (j - 8 * m)" by simp
  then obtain i where "j = 8 * m + i" by blast
  then show ?thesis by (simp add: obit_def nth_append)
qed

lemma net_bytes_list: "net_bytes h = [ucast (drop_bit 24 h), ucast (drop_bit 16 h), ucast (drop_bit 8 h), ucast h]"
  by (simp add: net_bytes_def upt_rec)

lemma net_bytes_bit:
  assumes "j < 32"
  shows "obit (net_bytes h) j = bit h (31 - j)"
proof -
  obtain q r where j: "j = 8 * q + r" "r < 8" by (rule nat_split8)
  then have "q \<in> {0, 1, 2, 3}" using assms by auto
  then show ?thesis using j by (auto simp: net_bytes_list obit_def bit_simps)
qed

lemma of_net_bit:
  assumes "i < 32"
  shows "bit (of_net bs) i = obit bs (31 - i)"
proof -
  obtain q r where j: "31 - i = 8 * q + r" "r < 8" by (rule nat_split8)
  then have q: "q = 0 \<or> q = 1 \<or> q = 2 \<or> q = 3" using assms by linarith
  define k where "k = 7 - r"
  have k: "k < 8" "7 - r = k" "i = 31 - 8 * q - (7 - k)" using j assms by (simp_all add: k_def)
  have "bit (of_net bs) (24 - 8 * q + k) = bit (bs ! q) k"
    using q k(1) by (elim disjE) (simp_all add: of_net_def bit_simps)
  moreover have "24 - 8 * q + k = i" using q k by auto
  ultimately show ?thesis using obit_at [OF j(2), of bs q] k(2) by (simp only: j(1))
qed

text \<open>
  The room a field needs: all its bits, and one more octet behind it when it is narrower than an
  octet and ends at an octet boundary.
\<close>

definition field_fits :: "nat \<Rightarrow> nat \<Rightarrow> byte list \<Rightarrow> bool" where
  "field_fits k w bs \<longleftrightarrow> w = 0 \<or> k + w < 8 * length bs \<or> k + w = 8 * length bs \<and> 8 \<le> w"

lemma unused_octets:
  assumes "w \<le> 32"
  shows "4 - (32 - w) div 8 = (w + 7) div 8" "(32 - w) div 8 \<le> 4" "8 * ((32 - w) div 8) + 8 * ((w + 7) div 8) = (32 :: nat)"
proof -
  obtain q r where qr: "w + 7 = 8 * q + r" "r < 8" by (rule nat_split8)
  then have "32 - w = 8 * (4 - q) + (7 - r)" "q \<le> 4" using assms by auto
  moreover have "7 - r < 8" by simp
  ultimately have "(32 - w) div 8 = 4 - q" by (simp only: div_mult_self4 div_less)
  moreover have "(w + 7) div 8 = q" using qr by (simp only: div_mult_self4 div_less)
  ultimately show "4 - (32 - w) div 8 = (w + 7) div 8" "(32 - w) div 8 \<le> 4" "8 * ((32 - w) div 8) + 8 * ((w + 7) div 8) = 32"
    using \<open>q \<le> 4\<close> by simp_all
qed

lemma encodeUint_bits:
  assumes "k + w < 2147483648" "w \<le> 32" "field_fits k w dst"
  shows "\<exists>dst'. encodeUint h (pos k) w dst = Inr dst' \<and> length dst' = length dst \<and>
    (\<forall>j. obit dst' j = (if k \<le> j \<and> j < k + w then bit h (k + w - 1 - j) else obit dst j))"
proof -
  let ?m = "(32 - w) div 8" and ?np = "drop ((32 - w) div 8) (net_bytes h)"
  have len: "length ?np = (w + 7) div 8" "?m \<le> length (net_bytes h)" "8 * ?m + 8 * length ?np = 32"
    using unused_octets [OF assms(2)] by (simp_all add: net_bytes_def)
  have "obit ?np (8 * length ?np - w + (j - k)) = bit h (k + w - 1 - j)" if "k \<le> j" "j < k + w" for j
  proof -
    have "w \<le> 8 * length ?np" using len(1) by linarith
    then have "8 * ?m + (8 * length ?np - w + (j - k)) = 32 - w + (j - k)" "32 - w + (j - k) < 32"
      "31 - (32 - w + (j - k)) = k + w - 1 - j"
      using that len(3) assms(2) by linarith+
    then show ?thesis by (simp only: obit_drop [OF len(2)] net_bytes_bit)
  qed
  moreover obtain dst' where "encodeRAs_loop ?np (pos k) w dst = Inr dst'" "length dst' = length dst"
    "\<And>j. obit dst' j = (if k \<le> j \<and> j < k + w then obit ?np (8 * length ?np - w + (j - k)) else obit dst j)"
    using encodeRAs_loop_bits [OF len(1) assms(1)] assms(3) by (auto simp: field_fits_def)
  ultimately show ?thesis
    using assms(1) by (auto simp: encodeUint_def encodeRAs_def pos_copy)
qed

lemma decodeUint_bits:
  assumes "k + w < 2147483648" "w \<le> 32" "field_fits k w src"
  shows "\<exists>h. decodeUint (pos k) w src = Inr h \<and> (\<forall>i. bit h i \<longleftrightarrow> i < w \<and> obit src (k + w - 1 - i))"
proof -
  let ?m = "(32 - w) div 8"
  obtain np where np: "decodeRAs_loop (pos k) w src = Inr np" "length np = (w + 7) div 8"
    "\<And>j. j < 8 * length np \<Longrightarrow> obit np j \<longleftrightarrow> 8 * length np \<le> w + j \<and> obit src (k + (w + j - 8 * length np))"
    using decodeRAs_loop_bits [OF assms(1), of src] assms(3) by (auto simp: field_fits_def)
  have len: "8 * ?m + 8 * length np = 32" using unused_octets(3) [OF assms(2)] np(2) by simp
  have "bit (of_net (replicate ?m 0 @ np)) i \<longleftrightarrow> i < w \<and> obit src (k + w - 1 - i)" for i
  proof (cases "i < 32")
    case i: True
    show ?thesis
    proof (cases "31 - i < 8 * ?m")
      case True
      moreover have "w \<le> 8 * length np" using np(2) by linarith
      ultimately have "\<not> i < w" using len i by linarith
      with True i show ?thesis by (simp add: of_net_bit obit_zeros)
    next
      case False
      then have "31 - i - 8 * ?m < 8 * length np" "8 * length np \<le> w + (31 - i - 8 * ?m) \<longleftrightarrow> i < w"
        "i < w \<Longrightarrow> k + (w + (31 - i - 8 * ?m) - 8 * length np) = k + w - 1 - i"
        using len i by linarith+
      with np(3) False i show ?thesis by (auto simp: of_net_bit obit_zeros)
    qed
  next
    case False
    then show ?thesis using assms(2) by (auto dest: bit_imp_le_length)
  qed
  then show ?thesis
    using assms(1,2) np(1) by (auto simp: decodeUint_def decodeRAs_def pos_copy)
qed

text \<open>
  A number written into a field of up to 32 bits at any bit position of a packet is the number
  that is read back, modulo the width of the field, and no bit outside the field is changed.
\<close>

theorem number_fields_roundtrip:
  assumes "it_ok at" "offset at + int w < 2147483648" "w \<le> 32" "field_fits (nat (offset at)) w dst"
  shows "\<exists>dst'. encodeUint h at w dst = Inr dst' \<and> decodeUint at w dst' = Inr (take_bit w h) \<and> length dst' = length dst \<and>
    (\<forall>j. \<not> (nat (offset at) \<le> j \<and> j < nat (offset at) + w) \<longrightarrow> obit dst' j = obit dst j)"
proof -
  define k where "k = nat (offset at)"
  have at: "at = pos k" using assms(1) it_ok_pos(1) by (simp add: k_def)
  have kw: "k + w < 2147483648" using assms(1,2) by (auto simp: k_def it_ok_def offset_def)
  have ff: "field_fits k w dst" using assms(4) by (simp add: k_def)
  obtain dst' where d: "encodeUint h (pos k) w dst = Inr dst'" "length dst' = length dst"
    "\<And>j. obit dst' j = (if k \<le> j \<and> j < k + w then bit h (k + w - 1 - j) else obit dst j)"
    using encodeUint_bits [OF kw assms(3) ff] by blast
  obtain h' where h': "decodeUint (pos k) w dst' = Inr h'" "\<And>i. bit h' i \<longleftrightarrow> i < w \<and> obit dst' (k + w - 1 - i)"
    using decodeUint_bits [OF kw assms(3), of dst'] ff d(2) unfolding field_fits_def by auto
  have "h' = take_bit w h"
    by (rule bit_eqI) (auto simp: h'(2) d(3) bit_take_bit_iff)
  with d h'(1) show ?thesis unfolding k_def [symmetric] unfolding at by auto
qed

text \<open>A field of 11 bits at bit 13 of five octets.\<close>

theorem number_fields_roundtrip_witness:
  "\<exists>dst'. encodeUint 0x5a5 (it_pos 1 5) 11 (replicate 5 0xff) = Inr dst' \<and> decodeUint (it_pos 1 5) 11 dst' = Inr 0x5a5"
proof -
  have "it_ok (it_pos 1 5)" "offset (it_pos 1 5) + int 11 < 2147483648" "field_fits (nat (offset (it_pos 1 5))) 11 (replicate 5 0xff)"
    by (simp_all add: it_ok_def it_pos_def offset_def field_fits_def)
  from number_fields_roundtrip [OF this(1,2) _ this(3), where h = "0x5a5"] show ?thesis by auto
qed

lemma narrow_octet_overflows:
  assumes "0 < w" "w < 8" "k + w = 8 * length dst" "k < 2147483648"
  shows "put_octet encodeRA n (pos k) w dst = Inl BufferOverflow" "get_octet decodeRA (pos k) w dst = Inl OutOfBounds"
proof -
  obtain q b where kq: "k = 8 * q + b" "b < 8" by (rule nat_split8)
  then have "q < length dst" "length dst < q + 2" using assms(1-3) by linarith+
  then have len: "length dst = Suc q" by simp
  then have b: "b + w = 8" "Suc q = length dst" "0 < b" using assms(2,3) kq by simp_all
  then have sel: "it_bytes (pos k) = int q" "it_bits (pos k) = int b" using pos_sel [of k] assms(4) kq by simp_all
  show "put_octet encodeRA n (pos k) w dst = Inl BufferOverflow"
    using b assms(2) by (simp add: put_octet_def encodeRA_def encode_octet_def sel Let_def)
  show "get_octet decodeRA (pos k) w dst = Inl OutOfBounds"
    using b assms(2) by (simp add: get_octet_def decodeRA_def decode_octet_def sel Let_def)
qed

text \<open>
  C39: A field narrower than an octet that ends with the last bit of the packet is not written, and not
  read: the code takes it for one that goes over into the next octet, and uses the octet behind the buffer.
\<close>

theorem last_narrow_field_overflows:
  assumes "0 < w" "w < 8" "k + w = 8 * length dst" "k < 2147483648"
  shows "encodeUint h (pos k) w dst = Inl BufferOverflow \<and> decodeUint (pos k) w dst = Inl OutOfBounds"
proof -
  have cw: "(w - 1) mod 8 + 1 = w" "(32 - w) div 8 = 3" using assms(1,2) by (simp, presburger)
  show ?thesis
    using assms(1) narrow_octet_overflows [OF assms]
    unfolding encodeUint_def decodeUint_def encodeRAs_def decodeRAs_def pos_copy [OF assms(4)] cw(2) net_bytes_list
    by (simp add: decodeRAs_loop.simps Let_def cw(1) [simplified])
qed

text \<open>The last 4 bits of two octets.\<close>

theorem last_narrow_field_overflows_witness:
  "encodeUint 5 (pos 12) 4 [1, 2] = Inl BufferOverflow \<and> decodeUint (pos 12) 4 [1, 2] = Inl OutOfBounds"
  by (rule last_narrow_field_overflows) simp_all

section \<open>Whole octet strings, and the address made of a prefix and a host part\<close>

text \<open>
  Octets written at a position that is not an octet boundary are found again bit by bit behind that
  position and nothing else is changed; but of 8192 octets or more only as many bits are written as the
  number of bits modulo 65536 (of 8192 octets none), and no error is reported.
\<close>

theorem unaligned_octets:
  assumes "it_ok at" "it_bits at > 0" "offset at + 8 * int (length s) < min 2147483648 (8 * int (length dst))"
  shows "\<exists>dst'. encode_octets at s dst = Inr dst' \<and> length dst' = length dst \<and>
      (\<forall>j. obit dst' j = (if nat (offset at) \<le> j \<and> j < nat (offset at) + 8 * length s mod 65536
         then obit s (j - nat (offset at)) else obit dst j))"
proof -
  define k w where "k = nat (offset at)" and "w = 8 * length s mod 65536"
  have at: "at = pos k" using assms(1) it_ok_pos(1) by (simp add: k_def)
  have k: "int k = offset at" using assms(1) by (simp add: k_def it_ok_def offset_def)
  have w: "w \<le> 8 * length s" "nat (ushort_of (8 * int (length s))) = w"
    unfolding w_def ushort_of_def by (rule mod_less_eq_dividend) (simp add: nat_mod_distrib nat_mult_distrib)
  then have kw: "k + w < 2147483648" "k + w < 8 * length dst" using assms(3) k by linarith+
  then have "encode_octets at s dst = encodeLAs_loop s (pos k) w dst"
    using assms(2) w(2) by (simp add: encode_octets_def encodeLAs_def at pos_copy)
  with encodeLAs_loop_bits [OF w(1) kw(1), of dst] kw(2) show ?thesis
    unfolding k_def [symmetric] w_def [symmetric] by simp
qed

text \<open>8193 octets at bit 4: only the last of the 8193 octets' 8 bits, taken from the first octet, are written.\<close>

theorem unaligned_octets_witness:
  "\<exists>dst'. encode_octets (it_pos 0 4) (replicate 8193 7) (replicate 9000 0) = Inr dst' \<and> obit dst' 11 \<and> \<not> obit dst' 19"
proof -
  have at: "it_ok (it_pos 0 4)" "offset (it_pos 0 4) = 4" by (simp_all add: it_ok_def it_pos_def offset_def)
  have "it_bits (it_pos 0 4) > 0" by (simp add: it_pos_def it_bits_def)
  from unaligned_octets [OF at(1) this, of "replicate 8193 7" "replicate 9000 0"] at(2)
  obtain dst' where d: "encode_octets (it_pos 0 4) (replicate 8193 7) (replicate 9000 0) = Inr dst'"
    "\<And>j. obit dst' j = (if 4 \<le> j \<and> j < 12 then obit (replicate 8193 7) (j - 4) else obit (replicate 9000 0) j)"
    by auto
  have "obit dst' 11 \<and> \<not> obit dst' 19" unfolding d(2) by (simp add: obit_def del: replicate.simps)
  with d(1) show ?thesis by blast
qed

text \<open>
  C38: Merging the first \<open>w\<close> bits of an address with a host part gives the address that starts with these
  bits, ends with the host part as far as there is room for it, and is zero between; but for a prefix of 121 to
  127 bits the octet behind the address is written.
\<close>

theorem v6_merge_prefix_host:
  assumes "length net = 16" "length h \<le> 16" "w \<le> 128"
  shows "if 121 \<le> w \<and> w \<le> 127 \<and> h \<noteq> [] then v6_merge net w h = Inl BufferOverflow
    else \<exists>a. v6_merge net w h = Inr a \<and> length a = 16 \<and>
      (\<forall>j < 128. obit a j = (if j < w then obit net j else 128 \<le> j + 8 * length h \<and> obit h (j + 8 * length h - 128)))"
proof -
  define hw pw rw where "hw = 8 * length h" and "pw = (if w + hw < 128 then 128 - hw else w)" and "rw = 128 - pw"
  have hw: "hw \<le> 128" "rw \<le> hw" "pw + rw = 128" "w \<le> pw" "pw \<le> 128" using assms by (auto simp: hw_def pw_def rw_def)
  have at: "addBits (int (pw mod 8)) (addBytes (int (pw div 8)) (it_pos 0 0)) = pos pw" "it_pos 0 0 = pos 0"
    using pos_addBytes [of 0 "pw div 8"] pos_addBits [of "8 * (pw div 8)" "pw mod 8"] hw by (simp_all add: pos_def)
  let ?z = "replicate 16 0 :: byte list"
  have z: "obit ?z j \<longleftrightarrow> False" if "j < 128" for j using that by (auto simp: obit_def)
  obtain d1 where d1: "encodeLAs net (pos 0) w ?z = Inr d1" "length d1 = 16"
    "\<And>j. obit d1 j = (if j < w then obit net j else obit ?z j)"
    using encodeLAs_loop_bits [of w net 0 ?z] assms by (fastforce simp: encodeLAs_def pos_copy le_less)
  let ?h = "drop ((hw - rw) div 8) h"
  have "v6_merge net w h = encodeRAs ?h (pos pw) rw d1"
    using hw d1(1) by (simp add: v6_merge_def Let_def hw_def [symmetric] pw_def [symmetric] rw_def [symmetric] at(1) at(1) [unfolded at(2)] at(2))
  moreover have lh: "length ?h = (rw + 7) div 8" using hw unfolding length_drop hw_def by linarith
  ultimately have m: "v6_merge net w h = encodeRAs_loop ?h (pos pw) rw d1"
    using hw by (simp add: encodeRAs_def pos_copy)
  show ?thesis
  proof (cases "121 \<le> w \<and> w \<le> 127 \<and> h \<noteq> []")
    case True
    then have "8 \<le> hw" by (cases h) (auto simp: hw_def)
    then have p: "pw = w" "0 < rw" "rw < 8" "pw + rw = 8 * length d1" using True d1(2) hw by (auto simp: pw_def rw_def)
    then obtain n np where n: "?h = n # np" using lh by (cases ?h) auto
    have "(rw - 1) mod 8 + 1 = rw" using p by simp
    moreover have "put_octet encodeRA n (pos pw) rw d1 = Inl BufferOverflow"
      using p hw by (intro narrow_octet_overflows) auto
    ultimately show ?thesis using True p(2) m by (simp add: n Let_def)
  next
    case False
    have "0 < rw \<Longrightarrow> 8 \<le> rw"
    proof -
      assume "0 < rw"
      then have "8 \<le> hw" using hw(2) by (simp add: hw_def)
      then show "8 \<le> rw" using False \<open>0 < rw\<close> assms(3) by (auto simp: rw_def pw_def hw_def split: if_splits)
    qed
    then obtain a where a: "encodeRAs_loop ?h (pos pw) rw d1 = Inr a" "length a = 16"
      "\<And>j. obit a j = (if pw \<le> j \<and> j < 128 then obit ?h (8 * length ?h - rw + (j - pw)) else obit d1 j)"
      using encodeRAs_loop_bits [OF lh, of pw d1] hw(3) d1(2) by auto
    have "obit a j = (if j < w then obit net j else 128 \<le> j + hw \<and> obit h (j + hw - 128))" if j: "j < 128" for j
    proof (cases "pw \<le> j")
      case True
      have "8 * ((hw - rw) div 8) + (8 * length ?h - rw + (j - pw)) = j + hw - 128" "128 \<le> j + hw"
        using True hw lh j unfolding length_drop hw_def by linarith+
      then have "obit ?h (8 * length ?h - rw + (j - pw)) = obit h (j + hw - 128)"
        using hw(1) by (subst obit_drop) (simp_all add: hw_def, linarith)
      then show ?thesis
        using True hw(4) j \<open>128 \<le> j + hw\<close> by (simp add: a(3))
    next
      case False
      then have "j < w \<or> \<not> 128 \<le> j + hw" by (auto simp: pw_def split: if_splits)
      then show ?thesis using False j by (auto simp: a(3) d1(3) z)
    qed
    with m a(1,2) False show ?thesis unfolding hw_def by auto
  qed
qed

text \<open>A 60 bit prefix with a host part of 8 octets; a 124 bit prefix.\<close>

theorem v6_merge_prefix_host_witness:
  "(\<exists>a. v6_merge (replicate 16 0xff) 60 [1, 2, 3, 4, 5, 6, 7, 8] = Inr a \<and> obit a 59 \<and> \<not> obit a 60 \<and> obit a 71) \<and>
    v6_merge (replicate 16 0xff) 124 [1, 2, 3, 4, 5, 6, 7, 8] = Inl BufferOverflow"
proof -
  let ?net = "replicate 16 0xff :: byte list" and ?h = "[1, 2, 3, 4, 5, 6, 7, 8] :: byte list"
  obtain a where a: "v6_merge ?net 60 ?h = Inr a"
    "\<And>j. j < 128 \<Longrightarrow> obit a j = (if j < 60 then obit ?net j else 128 \<le> j + 8 * length ?h \<and> obit ?h (j + 8 * length ?h - 128))"
    using v6_merge_prefix_host [of ?net ?h 60] by auto
  have "obit a 59 \<and> \<not> obit a 60 \<and> obit a 71" by (simp add: a(2)) (simp add: obit_def)
  moreover have "v6_merge ?net 124 ?h = Inl BufferOverflow" using v6_merge_prefix_host [of ?net ?h 124] by simp
  ultimately show ?thesis using a(1) by blast
qed

section \<open>Comparison\<close>

lemma memcmp_zero: "length xs = length ys \<Longrightarrow> memcmp xs ys = 0 \<longleftrightarrow> xs = ys"
  by (induction xs ys rule: list_induct2) auto

lemma compareOctets_simps [simp]:
  "compareOctets (x # xs) (y # ys) = (if x < y then -1 else if y < x then 1 else compareOctets xs ys)"
  "compareOctets [] ys = - int (length ys)" "compareOctets xs [] = int (length xs)"
  by (simp_all add: compareOctets_def Let_def)

text \<open>
  The order of the octet strings is the lexicographic order, where a prefix is less than the whole.\<close>

theorem compareOctets_lexicographic:
  "(compareOctets l r < 0 \<longleftrightarrow> ord_class.lexordp l r) \<and> (compareOctets l r = 0 \<longleftrightarrow> l = r) \<and>
    (compareOctets l r > 0 \<longleftrightarrow> ord_class.lexordp r l)"
proof (induction l r rule: list_induct2')
  case (2 x xs)
  then show ?case by auto
next
  case (3 y ys)
  then show ?case by auto
next
  case (4 x xs y ys)
  then show ?case by auto
qed simp

lemma all_less_add: "(\<forall>j < a + b. P j) \<longleftrightarrow> (\<forall>j < a. P j) \<and> (\<forall>i < b. P (a + i))" for a b :: nat
  by (auto, metis le_add_diff_inverse nat_add_left_cancel_less not_less)

lemma byte_eq_iff: "x = y \<longleftrightarrow> (\<forall>i < 8. bit x (7 - i) = bit (y :: byte) (7 - i))"
proof
  assume *: "\<forall>i < 8. bit x (7 - i) = bit y (7 - i)"
  show "x = y"
  proof (rule bit_eqI)
    fix n show "bit x n \<longleftrightarrow> bit y n" using * [rule_format, of "7 - n"] by (cases "n < 8") auto
  qed
qed simp

text \<open>
  Two octet strings compare as equal in \<open>w\<close> bits iff their first \<open>w\<close> bits are the same.\<close>

theorem compareWidth_equal:
  assumes "w \<le> 8 * length l" "w \<le> 8 * length r"
  shows "\<exists>x. compareWidth l r w = Inr x \<and> (x = 0 \<longleftrightarrow> (\<forall>j < w. obit l j = obit r j))"
proof -
  obtain q b where w: "w = 8 * q + b" "b < 8" by (rule nat_split8)
  have len: "q \<le> length l" "q \<le> length r" "0 < b \<Longrightarrow> q < length l \<and> q < length r" using assms w by auto
  have "take q l = take q r \<longleftrightarrow> (\<forall>j < 8 * q. obit l j = obit r j)"
  proof
    assume "take q l = take q r"
    then have "l ! p = r ! p" if "p < q" for p using that by (metis nth_take)
    then show "\<forall>j < 8 * q. obit l j = obit r j" by (auto simp: obit_def)
  next
    assume *: "\<forall>j < 8 * q. obit l j = obit r j"
    have "obit (take q xs) j = obit xs j" if "j < 8 * q" for xs j using that by (auto simp: obit_def)
    then show "take q l = take q r" using * len by (intro obit_eqI) auto
  qed
  then have oct: "memcmp (take q l) (take q r) = 0 \<longleftrightarrow> (\<forall>j < 8 * q. obit l j = obit r j)"
    using len by (simp add: memcmp_zero)
  have bits: "l ! q AND la_mask b = r ! q AND la_mask b \<longleftrightarrow> (\<forall>i < b. obit l (8 * q + i) = obit r (8 * q + i))"
  proof -
    have "bit (x AND la_mask b) (7 - i) \<longleftrightarrow> i < b \<and> bit x (7 - i)" if "i < 8" for x i
      using that w(2) by (auto simp: la_mask_def bit_simps)
    moreover have "x = y \<longleftrightarrow> (\<forall>i < 8. bit x (7 - i) = bit y (7 - i))" for x y :: byte
      by (rule byte_eq_iff)
    ultimately have "l ! q AND la_mask b = r ! q AND la_mask b \<longleftrightarrow>
        (\<forall>i < 8. i < b \<longrightarrow> bit (l ! q) (7 - i) = bit (r ! q) (7 - i))" by auto
    moreover have "obit xs (8 * q + i) = bit (xs ! q) (7 - i)" if "i < b" for xs i
      using that w(2) by simp
    ultimately show ?thesis using w(2) by (auto dest: less_trans)
  qed
  have split: "(\<forall>j < w. obit l j = obit r j) \<longleftrightarrow> (\<forall>j < 8 * q. obit l j = obit r j) \<and> (\<forall>i < b. obit l (8 * q + i) = obit r (8 * q + i))"
    unfolding w(1) by (rule all_less_add)
  have diff: "uint x = uint y \<longleftrightarrow> x = y" for x y :: byte by (rule word_uint_eq_iff [symmetric])
  have run: "compareWidth l r w = (let x = memcmp (take q l) (take q r) in
      if x = 0 \<and> 0 < b then Inr (uint (l ! q AND la_mask b) - uint (r ! q AND la_mask b)) else Inr x)"
    using len w by (auto simp: compareWidth_def Let_def)
  show ?thesis
  proof (cases "memcmp (take q l) (take q r) = 0 \<and> 0 < b")
    case True
    then show ?thesis using oct bits split by (simp add: run Let_def diff)
  next
    case False
    then show ?thesis using oct split unfolding run Let_def by auto
  qed
qed

text \<open>Addresses of a link that differ only in the last of 13 bits.\<close>

theorem compareWidth_equal_witness:
  "(\<exists>x. compareWidth [0xfe, 0x80] [0xfe, 0x88] 12 = Inr x \<and> x = 0) \<and> (\<exists>x. compareWidth [0xfe, 0x80] [0xfe, 0x88] 13 = Inr x \<and> x \<noteq> 0)"
proof -
  let ?l = "[0xfe, 0x80] :: byte list" and ?r = "[0xfe, 0x88] :: byte list"
  have "\<forall>j \<in> set [0..<12]. obit ?l j = obit ?r j" by code_simp
  moreover have "\<not> obit ?l 12" "obit ?r 12" by code_simp+
  ultimately have "\<forall>j < 12. obit ?l j = obit ?r j" "\<not> obit ?l 12" "obit ?r 12" by simp_all
  then show ?thesis using compareWidth_equal [of 12 ?l ?r] compareWidth_equal [of 13 ?l ?r] by auto
qed

end
