(* ===== verification/VMember.thy ===== *)
theory VMember
  imports VOctets
begin

text \<open>
  Members of headers of the packet tool (\<open>lib/Pz/MmObject\<close>, \<open>lib/Pz/McObject\<close>): numbers of a bit width,
  octet strings of fixed length, and octet strings that take what is left. Where a member lies, how its value is
  written into a packet and read from it, and the check that the packet is long enough.
\<close>

section \<open>Buffers\<close>

text \<open>
  A \<open>PvOctets\<close> that \<open>substr\<close> makes of another shares its memory: it is a window into the octets of the
  frame. Reading is not limited to the window, only to the frame.
\<close>

record octbuf =
  ob_mem :: "byte list"
  ob_off :: nat
  ob_len :: int

definition ob_of :: "byte list \<Rightarrow> octbuf" where
  "ob_of bs = \<lparr>ob_mem = bs, ob_off = 0, ob_len = int (length bs)\<rparr>"

definition ob_string :: "octbuf \<Rightarrow> byte list" where
  "ob_string b = drop (ob_off b) (ob_mem b)"

definition remainLength :: "int \<Rightarrow> octbuf \<Rightarrow> int" where
  "remainLength n b = long_of (ob_len b - n)"

definition ob_substr :: "int \<Rightarrow> int \<Rightarrow> octbuf \<Rightarrow> octbuf res" where
  "ob_substr n l b = (if ulong_of n > ob_len b then Inl Abort
     else Inr (b\<lparr>ob_off := ob_off b + nat (ulong_of n), ob_len := ulong_of l\<rparr>))"

section \<open>Kinds of members and their place\<close>

datatype mkind =
    Uint nat
  | Octs nat
  | VarOcts

datatype mval =
    Number "32 word"
  | Octets "byte list"

definition width :: "mkind \<Rightarrow> int" where
  "width k = (case k of Uint w \<Rightarrow> int w | _ \<Rightarrow> 0)"

definition objectLength :: "mkind \<Rightarrow> int" where
  "objectLength k = (case k of Octs n \<Rightarrow> int n | _ \<Rightarrow> 0)"

definition stepPostion :: "mkind \<Rightarrow> itpos \<Rightarrow> itpos" where
  "stepPostion k it = addBytes (objectLength k) (addBits (width k) it)"

text \<open>\<open>confirmed\<close> gives every member its offset and bit position, and the compound its sz.\<close>

fun confirmed :: "mkind list \<Rightarrow> itpos \<Rightarrow> (int \<times> int) list \<times> itpos" where
  "confirmed [] it = ([], it)"
| "confirmed (k # ks) it = (let (ps, sz) = confirmed ks (stepPostion k it) in ((it_bytes it, it_bits it) # ps, sz))"

section \<open>Reading\<close>

definition check_decode_limit :: "itpos \<Rightarrow> itpos \<Rightarrow> octbuf \<Rightarrow> bool" where
  "check_decode_limit at sz b \<longleftrightarrow> it_bytes (it_subtract sz (it_subtract at (it_pos (long_of (ob_len b)) 0))) \<ge> 0"

definition uint_decode :: "nat \<Rightarrow> itpos \<Rightarrow> octbuf \<Rightarrow> (32 word) res" where
  "uint_decode w at b = (if w > 32 then Inl Abort else decodeUint at w (ob_string b))"

text \<open>\<open>MmUint::value\<close>: the number in the member that \<open>confirmed\<close> put at \<open>(o, p)\<close> of a compound at \<open>on\<close>.\<close>

definition uint_value :: "nat \<Rightarrow> int \<times> int \<Rightarrow> itpos \<Rightarrow> octbuf \<Rightarrow> (32 word) res" where
  "uint_value w op on b = uint_decode w (it_add (it_pos (fst op) (snd op)) (it_copy on)) b"

definition member_length :: "mkind \<Rightarrow> itpos \<Rightarrow> octbuf \<Rightarrow> itpos" where
  "member_length k at b = (if k = VarOcts then it_pos (remainLength (it_bytes at) b) 0 else stepPostion k (it_pos 0 0))"

definition octets_at :: "itpos \<Rightarrow> int \<Rightarrow> octbuf \<Rightarrow> byte list res" where
  "octets_at at n b = (let s = ob_string b; q = it_bytes at in
     if q < 0 \<or> n < 0 \<or> q + n > int (length s) then Inl OutOfBounds else Inr (take (nat n) (drop (nat q) s)))"

definition reversePv :: "mkind \<Rightarrow> itpos \<Rightarrow> itpos \<Rightarrow> octbuf \<Rightarrow> mval res" where
  "reversePv k at sz b = (case k of
       Uint w \<Rightarrow> bind_res (uint_decode w at b) (\<lambda>h. Inr (Number h))
     | Octs n \<Rightarrow> bind_res (octets_at at (int n) b) (\<lambda>s. Inr (Octets s))
     | VarOcts \<Rightarrow> bind_res (octets_at at (it_bytes sz) b) (\<lambda>s. Inr (Octets s)))"

text \<open>\<open>MmElement::reverse\<close>: the value and the position behind it, or \<open>None\<close> with the error of the controller set.\<close>

definition member_reverse :: "mkind \<Rightarrow> itpos \<Rightarrow> octbuf \<Rightarrow> (mval \<times> itpos) option res" where
  "member_reverse k at b = (let sz = member_length k at b in
     if \<not> check_decode_limit at sz b then Inr None
     else bind_res (reversePv k at sz b) (\<lambda>v. Inr (Some (v, it_add sz at))))"

fun members_reverse :: "mkind list \<Rightarrow> itpos \<Rightarrow> octbuf \<Rightarrow> (mval list \<times> itpos \<times> bool) res" where
  "members_reverse [] at b = Inr ([], at, True)"
| "members_reverse (k # ks) at b = bind_res (member_reverse k at b) (\<lambda>r. case r of
       None \<Rightarrow> Inr ([], at, False)
     | Some (v, at) \<Rightarrow> bind_res (members_reverse ks at b) (\<lambda>(vs, at, ok). Inr (v # vs, at, ok)))"

section \<open>Writing\<close>

definition member_encode :: "mkind \<Rightarrow> mval \<Rightarrow> itpos \<Rightarrow> byte list \<Rightarrow> byte list res" where
  "member_encode k v at dst = (case (k, v) of
       (Uint w, Number h) \<Rightarrow> if w > 32 then Inl Abort else encodeUint h at w dst
     | (Octs n, Octets s) \<Rightarrow> encode_octets at s dst
     | (VarOcts, Octets s) \<Rightarrow> encode_octets at s dst
     | (VarOcts, Number h) \<Rightarrow> encodeUint h at 8 dst
     | _ \<Rightarrow> Inr dst)"

text \<open>The length of what is written: the object's for a variable member.\<close>

definition written_length :: "mkind \<Rightarrow> mval \<Rightarrow> itpos" where
  "written_length k v = (case (k, v) of
       (VarOcts, Octets s) \<Rightarrow> it_pos (int (length s)) 0
     | (VarOcts, Number h) \<Rightarrow> it_pos 1 0
     | _ \<Rightarrow> it_pos (objectLength k) (width k))"

fun members_generate :: "(mkind \<times> mval) list \<Rightarrow> itpos \<Rightarrow> byte list \<Rightarrow> byte list res" where
  "members_generate [] at dst = Inr dst"
| "members_generate ((k, v) # ms) at dst = bind_res (member_encode k v at dst)
     (\<lambda>dst. members_generate ms (it_add (written_length k v) at) dst)"

section \<open>Writing a member and reading it again\<close>

text \<open>The values a member can have, and what of them is written.\<close>

fun fits_kind :: "mkind \<Rightarrow> mval \<Rightarrow> bool" where
  "fits_kind (Uint w) (Number h) \<longleftrightarrow> w \<le> 32"
| "fits_kind (Octs n) (Octets s) \<longleftrightarrow> length s = n"
| "fits_kind _ _ \<longleftrightarrow> False"

fun truncated :: "mkind \<Rightarrow> mval \<Rightarrow> mval" where
  "truncated (Uint w) (Number h) = Number (take_bit w h)"
| "truncated _ v = v"

definition bits_of :: "mkind \<Rightarrow> nat" where
  "bits_of k = (case k of Uint w \<Rightarrow> w | Octs n \<Rightarrow> 8 * n | VarOcts \<Rightarrow> 0)"

text \<open>Where a member may stand in a buffer of \<open>len\<close> octets.\<close>

definition member_at :: "mkind \<Rightarrow> nat \<Rightarrow> nat \<Rightarrow> bool" where
  "member_at k p len \<longleftrightarrow> p + bits_of k \<le> 8 * len \<and> (case k of
       Uint w \<Rightarrow> w = 0 \<or> p + w < 8 * len \<or> 8 \<le> w
     | Octs n \<Rightarrow> p mod 8 = 0
     | VarOcts \<Rightarrow> False)"

definition same_bits :: "nat \<Rightarrow> nat \<Rightarrow> byte list \<Rightarrow> byte list \<Rightarrow> bool" where
  "same_bits a b xs ys \<longleftrightarrow> length xs = length ys \<and> (\<forall>j. a \<le> j \<and> j < b \<longrightarrow> obit xs j = obit ys j)"

lemma pos0: "it_pos 0 0 = pos 0"
  by (simp add: pos_def)

lemma stepPostion_pos: "p + bits_of k < 2147483648 \<Longrightarrow> bits_of k < 65529 \<Longrightarrow> stepPostion k (pos p) = pos (p + bits_of k)"
  by (cases k) (simp_all add: stepPostion_def width_def objectLength_def bits_of_def pos_addBits pos_addBytes
      pos_addBits [of p 0, simplified] pos_addBytes [of _ 0, simplified])

text \<open>Differences of positions are exact also below zero, where the number of octets rounds down.\<close>

definition it_near :: "itpos \<Rightarrow> int \<Rightarrow> bool" where
  "it_near i m \<longleftrightarrow> 0 \<le> pos_bits i \<and> pos_bits i < 8 \<and> - m \<le> pos_bytes i \<and> pos_bytes i \<le> m"

lemma it_near_sel: "it_near i m \<Longrightarrow> m < 2147483648 \<Longrightarrow> it_bytes i = pos_bytes i \<and> it_bits i = pos_bits i"
  by (simp add: it_near_def it_bytes_def it_bits_def)

lemma it_subtract_near:
  assumes "it_near i m" "it_near j n" "m + n + 1 < 2147483648"
  shows "it_near (it_subtract j i) (m + n + 1) \<and> offset (it_subtract j i) = offset i - offset j"
proof -
  have b: "0 \<le> pos_bits i" "pos_bits i < 8" "- m \<le> pos_bytes i" "pos_bytes i \<le> m"
    "0 \<le> pos_bits j" "pos_bits j < 8" "- n \<le> pos_bytes j" "pos_bytes j \<le> n"
    using assms(1,2) by (simp_all add: it_near_def)
  have j: "it_bytes j = pos_bytes j" "it_bits j = pos_bits j" using it_near_sel [OF assms(2)] b assms(3) by auto
  show ?thesis
  proof (cases "pos_bits j \<le> pos_bits i")
    case True
    then show ?thesis using b j assms(3)
      by (auto simp: it_subtract_def subtractBits_def subtractBytes_def it_near_def it_bits_def offset_def Let_def)
  next
    case False
    then have "(pos_bits j - pos_bits i) div 8 = 0" "ushort_of (8 - (pos_bits j - pos_bits i)) = 8 - (pos_bits j - pos_bits i)"
      "(8 - (pos_bits j - pos_bits i)) mod 8 = 8 - (pos_bits j - pos_bits i)"
      using b by (simp_all only: ushort_of_id div_pos_pos_trivial mod_pos_pos_trivial)
    then show ?thesis using False b j assms(3)
      by (auto simp: it_subtract_def subtractBits_def subtractBytes_def it_near_def it_bits_def offset_def Let_def)
  qed
qed

lemma it_near_pos: "p < 2147483648 \<Longrightarrow> it_near (pos p) 268435455"
  by (auto simp: it_near_def pos_def it_pos_def)

lemma check_decode_limit_pos:
  assumes "p < 2147483648" "m < 2147483648" "8 * ob_len b < 2147483648" "0 \<le> ob_len b"
  shows "check_decode_limit (pos p) (pos m) b \<longleftrightarrow> int p + int m \<le> 8 * ob_len b"
proof -
  let ?l = "it_pos (long_of (ob_len b)) 0"
  have l: "it_near ?l 268435455" "offset ?l = 8 * ob_len b"
    using assms(3,4) by (auto simp: it_near_def it_pos_def offset_def)
  note 1 = it_subtract_near [OF l(1) it_near_pos [OF assms(1)]]
  note 2 = it_subtract_near [OF _ it_near_pos [OF assms(2)], of "it_subtract (pos p) ?l" 536870911]
  let ?d = "it_subtract (pos m) (it_subtract (pos p) ?l)"
  have d: "it_near ?d 805306367" "offset ?d = 8 * ob_len b - int p - int m"
    using 1 2 l(2) by (simp_all add: it_ok_pos(3))
  then show ?thesis
    using it_near_sel [OF d(1)] by (auto simp: check_decode_limit_def offset_def it_near_def)
qed

lemma it_add_pos:
  assumes "p + m < 2147483648"
  shows "it_add (pos m) (pos p) = pos (p + m)"
proof -
  have "it_ok (pos p)" "it_ok (pos m)" "offset (pos p) + offset (pos m) < 2147483648"
    using assms by (simp_all add: it_ok_pos)
  from it_add_offset [OF this] show ?thesis
    using it_ok_pos(1) [of "it_add (pos m) (pos p)"] by (simp add: it_ok_pos(3) nat_add_distrib)
qed

lemma member_length_pos: "k \<noteq> VarOcts \<Longrightarrow> bits_of k < 65529 \<Longrightarrow> member_length k at b = pos (bits_of k)"
  using stepPostion_pos [of 0 k] by (simp add: member_length_def pos0)

lemma member_reverse_fixed:
  assumes "k \<noteq> VarOcts" "bits_of k < 65529" "p + bits_of k \<le> 8 * length src" "8 * length src < 2147483648"
  shows "member_reverse k (pos p) (ob_of src) =
    bind_res (reversePv k (pos p) (pos (bits_of k)) (ob_of src)) (\<lambda>v. Inr (Some (v, pos (p + bits_of k))))"
  using assms check_decode_limit_pos [of p "bits_of k" "ob_of src"] it_add_pos [of p "bits_of k"]
  by (simp add: member_reverse_def member_length_pos Let_def ob_of_def)

lemma obit_splice:
  assumes "q + length s \<le> length dst"
  shows "obit (take q dst @ s @ drop (q + length s) dst) j =
    (if 8 * q \<le> j \<and> j < 8 * (q + length s) then obit s (j - 8 * q) else obit dst j)"
proof -
  obtain p r where j: "j = 8 * p + r" "r < 8" by (rule nat_split8)
  consider "p < q" | "q \<le> p" "p < q + length s" | "q + length s \<le> p" by linarith
  then show ?thesis
  proof cases
    case 1
    then show ?thesis using j assms by (simp add: nth_append)
  next
    case 2
    then have "j - 8 * q = 8 * (p - q) + r" using j by simp
    then show ?thesis using 2 j assms by (simp add: nth_append)
  next
    case 3
    then show ?thesis using j assms by (simp add: nth_append)
  qed
qed

lemma obit_window:
  assumes "j < 8 * m" "q \<le> length xs"
  shows "obit (take m (drop q xs)) j = obit xs (8 * q + j)"
proof -
  have "j div 8 < m" using assms(1) by linarith
  then show ?thesis using assms(2) by (simp add: obit_def)
qed

lemma octets_at_bits:
  assumes "p mod 8 = 0" "p + 8 * length s \<le> 8 * length src" "8 * length src < 2147483648"
    "\<And>j. p \<le> j \<Longrightarrow> j < p + 8 * length s \<Longrightarrow> obit src j = obit s (j - p)"
  shows "octets_at (pos p) (int (length s)) (ob_of src) = Inr s"
proof -
  define q where "q = p div 8"
  have p: "p = 8 * q" using assms(1) by (auto simp: q_def)
  have len: "q + length s \<le> length src" using assms(2) p by simp
  have "take (length s) (drop q src) = s"
  proof (rule obit_eqI)
    show "length (take (length s) (drop q src)) = length s" using len by simp
    fix j assume "j < 8 * length (take (length s) (drop q src))"
    then have j: "j < 8 * length s" using len by simp
    then have "obit (take (length s) (drop q src)) j = obit src (p + j)"
      using obit_window [OF j, of q src] len p by simp
    then show "obit (take (length s) (drop q src)) j = obit s j" using assms(4) [of "p + j"] j by simp
  qed
  moreover have "it_bytes (pos p) = int q" using pos_sel(1) [of p] assms(2,3) by (simp add: q_def)
  ultimately show ?thesis using len by (simp add: octets_at_def ob_of_def ob_string_def Let_def)
qed

lemma member_encode_bits:
  assumes "fits_kind k v" "member_at k p (length dst)" "8 * length dst < 2147483648" "bits_of k < 65529"
  shows "\<exists>dst'. member_encode k v (pos p) dst = Inr dst' \<and> length dst' = length dst \<and>
    (\<forall>j. \<not> (p \<le> j \<and> j < p + bits_of k) \<longrightarrow> obit dst' j = obit dst j) \<and>
    (\<forall>src. same_bits p (p + bits_of k) dst' src \<longrightarrow>
       member_reverse k (pos p) (ob_of src) = Inr (Some (truncated k v, pos (p + bits_of k))))"
proof (cases k)
  case (Uint w)
  then obtain h where v: "v = Number h" "w \<le> 32" using assms(1) by (cases v) auto
  have k: "bits_of k = w" using Uint by (simp add: bits_of_def)
  have ff: "field_fits p w dst" "p + w < 2147483648" "p + w \<le> 8 * length dst"
    using assms(2,3) Uint by (auto simp: member_at_def bits_of_def field_fits_def)
  obtain dst' where d: "encodeUint h (pos p) w dst = Inr dst'" "length dst' = length dst"
    "\<And>j. obit dst' j = (if p \<le> j \<and> j < p + w then bit h (p + w - 1 - j) else obit dst j)"
    using encodeUint_bits [OF ff(2) v(2) ff(1)] by blast
  have "member_reverse k (pos p) (ob_of src) = Inr (Some (truncated k v, pos (p + bits_of k)))"
    if src: "same_bits p (p + w) dst' src" for src
  proof -
    have len: "length src = length dst" using src d(2) by (simp add: same_bits_def)
    obtain h' where h': "decodeUint (pos p) w src = Inr h'" "\<And>i. bit h' i \<longleftrightarrow> i < w \<and> obit src (p + w - 1 - i)"
      using decodeUint_bits [OF ff(2) v(2), of src] ff(1) len by (auto simp: field_fits_def)
    have "h' = take_bit w h"
    proof (rule bit_eqI)
      fix i
      have "obit src (p + w - 1 - i) = bit h i" if "i < w"
      proof -
        define j where "j = p + w - 1 - i"
        then have "p \<le> j" "j < p + w" "p + w - 1 - j = i" using that by linarith+
        then show ?thesis using src d(3) [of j] unfolding same_bits_def j_def [symmetric] by auto
      qed
      then show "bit h' i \<longleftrightarrow> bit (take_bit w h) i" by (auto simp: h'(2) bit_take_bit_iff)
    qed
    then show ?thesis
      using member_reverse_fixed [of k p src] assms(3,4) len ff(3) h'(1) v Uint k
      by (simp add: reversePv_def uint_decode_def ob_of_def ob_string_def)
  qed
  with d v(2) Uint k show ?thesis by (auto simp: member_encode_def v(1))
next
  case (Octs n)
  then obtain s where v: "v = Octets s" "length s = n" using assms(1) by (cases v) auto
  have k: "bits_of k = 8 * n" using Octs by (simp add: bits_of_def)
  define q where "q = p div 8"
  have p: "p = 8 * q" "p + 8 * n \<le> 8 * length dst" using assms(2) Octs by (auto simp: member_at_def bits_of_def q_def)
  then have qn: "q + length s \<le> length dst" using v by simp
  let ?d = "take q dst @ s @ drop (q + length s) dst"
  have run: "member_encode k v (pos p) dst = Inr ?d"
    using qn assms(3) p(1) pos_sel [of p] Octs by (simp add: member_encode_def v(1) encode_octets_def)
  have bits: "obit ?d j = (if p \<le> j \<and> j < p + 8 * n then obit s (j - p) else obit dst j)" for j
    using obit_splice [OF qn, of j] v(2) p(1) by (simp add: algebra_simps)
  have "member_reverse k (pos p) (ob_of src) = Inr (Some (truncated k v, pos (p + bits_of k)))"
    if src: "same_bits p (p + 8 * n) ?d src" for src
  proof -
    have len: "length src = length dst" using src qn by (simp add: same_bits_def)
    have "octets_at (pos p) (int (length s)) (ob_of src) = Inr s"
    proof (rule octets_at_bits)
      fix j assume "p \<le> j" "j < p + 8 * length s"
      then show "obit src j = obit s (j - p)" using src bits [of j] v(2) unfolding same_bits_def by simp
    qed (use p len v(2) assms(3) in auto)
    then show ?thesis
      using member_reverse_fixed [of k p src] assms(3,4) len p(2) v Octs k by (simp add: reversePv_def)
  qed
  with run bits qn k show ?thesis by auto
next
  case VarOcts
  then show ?thesis using assms(1) by (cases v) auto
qed

lemma written_pos:
  assumes "fits_kind k v" "p + bits_of k < 2147483648" "bits_of k < 65529"
  shows "it_add (written_length k v) (pos p) = pos (p + bits_of k)"
proof -
  have "it_bytes (written_length k v) = it_bytes (pos (bits_of k))" "it_bits (written_length k v) = it_bits (pos (bits_of k))"
    using assms by (cases k; cases v;
      simp add: written_length_def objectLength_def width_def bits_of_def pos_def it_pos_def it_bytes_def it_bits_def zdiv_int zmod_int)+
  then have "it_add (written_length k v) (pos p) = it_add (pos (bits_of k)) (pos p)" by (simp add: it_add_def)
  then show ?thesis using it_add_pos [OF assms(2)] by simp
qed

definition total_bits :: "mkind list \<Rightarrow> nat" where
  "total_bits ks = sum_list (map bits_of ks)"

lemma total_bits_simps [simp]: "total_bits [] = 0" "total_bits (k # ks) = bits_of k + total_bits ks"
  by (simp_all add: total_bits_def)

fun layout_at :: "mkind list \<Rightarrow> nat \<Rightarrow> nat \<Rightarrow> bool" where
  "layout_at [] p len \<longleftrightarrow> p \<le> 8 * len"
| "layout_at (k # ks) p len \<longleftrightarrow> member_at k p len \<and> bits_of k < 65529 \<and> layout_at ks (p + bits_of k) len"

lemma layout_at_end: "layout_at ks p len \<Longrightarrow> p + total_bits ks \<le> 8 * len"
  by (induction ks p len rule: layout_at.induct) (simp_all add: add.assoc)

lemma members_generate_bits:
  assumes "list_all2 fits_kind ks vs" "layout_at ks p (length dst)" "8 * length dst < 2147483648"
  shows "\<exists>dst'. members_generate (zip ks vs) (pos p) dst = Inr dst' \<and> length dst' = length dst \<and>
    (\<forall>j. \<not> (p \<le> j \<and> j < p + total_bits ks) \<longrightarrow> obit dst' j = obit dst j) \<and>
    (\<forall>src. same_bits p (p + total_bits ks) dst' src \<longrightarrow>
       members_reverse ks (pos p) (ob_of src) = Inr (map2 truncated ks vs, pos (p + total_bits ks), True))"
  using assms
proof (induction ks vs arbitrary: p dst rule: list_all2_induct)
  case Nil
  then show ?case by simp
next
  case (Cons k ks v vs)
  have l: "member_at k p (length dst)" "bits_of k < 65529" "layout_at ks (p + bits_of k) (length dst)"
    using Cons.prems(1) by simp_all
  obtain d1 where d1: "member_encode k v (pos p) dst = Inr d1" "length d1 = length dst"
    "\<And>j. \<not> (p \<le> j \<and> j < p + bits_of k) \<Longrightarrow> obit d1 j = obit dst j"
    "\<And>src. same_bits p (p + bits_of k) d1 src \<Longrightarrow>
       member_reverse k (pos p) (ob_of src) = Inr (Some (truncated k v, pos (p + bits_of k)))"
    using member_encode_bits [OF Cons.hyps(1) l(1) Cons.prems(2) l(2)] by blast
  obtain d2 where d2: "members_generate (zip ks vs) (pos (p + bits_of k)) d1 = Inr d2" "length d2 = length d1"
    "\<And>j. \<not> (p + bits_of k \<le> j \<and> j < p + bits_of k + total_bits ks) \<Longrightarrow> obit d2 j = obit d1 j"
    "\<And>src. same_bits (p + bits_of k) (p + bits_of k + total_bits ks) d2 src \<Longrightarrow>
       members_reverse ks (pos (p + bits_of k)) (ob_of src) = Inr (map2 truncated ks vs, pos (p + bits_of k + total_bits ks), True)"
    using Cons.IH [of "p + bits_of k" d1] l(3) d1(2) Cons.prems(2) by auto
  have "p + bits_of k < 2147483648" using layout_at_end [OF l(3)] Cons.prems(2) by linarith
  then have run: "members_generate (zip (k # ks) (v # vs)) (pos p) dst = Inr d2"
    using d1(1) d2(1) written_pos [OF Cons.hyps(1) _ l(2)] by simp
  have frame: "obit d2 j = obit dst j" if "\<not> (p \<le> j \<and> j < p + total_bits (k # ks))" for j
    using that d1(3) [of j] d2(3) [of j] by (cases "p \<le> j") auto
  have reads: "members_reverse (k # ks) (pos p) (ob_of src) =
      Inr (map2 truncated (k # ks) (v # vs), pos (p + total_bits (k # ks)), True)"
    if src: "same_bits p (p + total_bits (k # ks)) d2 src" for src
  proof -
    have s1: "same_bits p (p + bits_of k) d1 src" using src d2(2,3) unfolding same_bits_def by fastforce
    have s2: "same_bits (p + bits_of k) (p + bits_of k + total_bits ks) d2 src"
      using src unfolding same_bits_def by (simp add: add.assoc)
    show ?thesis
      unfolding members_reverse.simps d1(4) [OF s1] bind_res_Inr option.case prod.case d2(4) [OF s2]
      by (simp only: total_bits_simps zip_Cons_Cons list.map prod.case add.assoc)
  qed
  show ?case using run d1(2) d2(2) frame reads by (intro exI [of _ d2]) simp
qed



end
