(* ===== verification/VLayout.thy ===== *)
theory VLayout
  imports VMember
begin

text \<open>
  The tables of header classes of the packet tool (\<open>lib/Pz/McInit.cc\<close>): the members a class is made of, with the
  value a packet is generated with and the value a received packet is compared with by default, the dictionaries
  from type numbers to classes, and what every such table must satisfy.
\<close>

named_theorems class_defs \<open>the definitions of the tables\<close>

section \<open>Members of a class\<close>

text \<open>The default values of a member: constants, the addresses of the tester and the tested node, and code of the class.\<close>

datatype auto =
    NoAuto
  | Unique int
  | V6TN | V6NUT | ETTN | ETNUT
  | MUST
  | EVALANY | EVALZERO
  | ZEROS
  | HC string

datatype icv = ICVCONST | ICVZERO | ICVHC string

text \<open>The class of an element, with the width its constructor is given and the flags of a checksum.\<close>

datatype element =
    MmUint nat | MmHostUint nat | MmSPI nat
  | MmBAstatus nat | MmBEstatus nat | MmErrorStatus nat | MmISAKMP_MessageID nat | MmNumberOfSPI nat
  | MmQType nat | MmSNMPVersion nat | MmSPIsize nat
  | MmUppChecksum nat bool bool | MmIPChecksum nat bool
  | MmV4Addr | MmV6Addr | MmEther
  | MmMH_Cookie64 | MmMH_Auth | MmDHCPAuth
  | MmVarOctets | MmAsciiString | MmDHCPRealm | MmDNSName | MmDNSStr | MmISAKMP_SPI | MmISAKMP_SPI_ReplayStat
  | MmObjectID | MmP2_HASH_2 | MmSIPMsg | MmSNMPString | MmTimezone | MmSPI_onD

text \<open>Members that refer to other classes, each with a dictionary of its own.\<close>

datatype reference =
    MmTopHdr string | MmFrame | MmPacket_onEther | MmPacket_onNull | MmPayload
  | MmExtent_onIP | MmUpper_onIP | MmUpper_onUpper | MmOption_onExt | MmOption_onIPv4 | MmOption_onTCP
  | MmHeader_onICMPv6 | MmOption_onICMPv6 | MmMLDv2AddrRecord_onICMPv6 | MmHeader_onICMPv4
  | MmHeader_onIGMP | MmIGMPv3AddrRecord_onIGMP | MmHeader_onVRRP | MmHeader_onMH | MmOption_onMH
  | MmRTE_onRIPng | MmQuestion_onDNS | MmAnswer_onDNS | MmAuthority_onDNS | MmAdditional_onDNS
  | MmEntry_onQuestion | MmRR_onAnswer | MmRR_onAuthority | MmRR_onAdditional
  | MmHeader_onDHCPv6 | MmOption_onDHCPv6 | MmDUID_onOption | MmLLT_onDUID | MmLL_onDUID
  | MmUserClass_onOption | MmVendorClass_onOption | MmOptionData_onOption | MmProto_onAuth
  | MmPdu_SNMP_onSNMP | MmPdu_SNMP_onPDU | MmSNMP_Version_onSNMP_Message | MmSNMP_Community_onSNMP_Message
  | MmSNMP_RequestID_onSNMP_Message | MmSNMP_ErrorStatus_onSNMP_Message | MmSNMP_ErrorIndex_onSNMP_Message
  | MmSNMP_ObjectID_onTrap_Message | MmSNMP_IPAddress_onTrap_Message | MmSNMP_GenericTrap_onTrap_Message
  | MmSNMP_SpecificTrap_onTrap_Message | MmSNMP_TimeStamp_onTrap_Message | MmSNMP_VarBindList_onPDU
  | MmSNMP_VarBind_onPDU
  | MmEncrypt_onISAKMP | MmPayload_onISAKMP | MmISAKMP_PonSA | MmISAKMP_TonP | MmDOIonSA | MmDOIonN
  | MmSIT_onSA_IPsec | MmType_onN_IPsec | MmProtocolIDonP | MmIDtype_onID | MmAttr_onT

text \<open>
  An element has a name, a class, the default for generating, the default for evaluating, the treatment for an
  integrity check value, and whether it is recorded for the pseudo header. \<open>Opaque\<close> is a member of cryptography.
\<close>

datatype member =
    Element string element auto auto icv bool
  | Data string bool icv
  | Reference reference string
  | Multiple member string
  | Opaque string string

text \<open>The function that adds the member; all but \<open>member\<close> keep it in a field of the class as well.\<close>

datatype role =
    Member | NextType_member | Type_member | Length_member | Layerlength_member | Code_member | Flags_member
  | Fragoffset_member | Version_member | SrcPort_member | DstPort_member | QDCount_member | ANCount_member
  | NSCount_member | ARCount_member | Optcode_member | Hwtype_member | Proto_member | Auxdatalen_member
  | Numofsrc_member | Mcastaddr_member | EFlag_member | MIDmember | DOImember | SITmember | ProtocolIDmember
  | SPIsize_member | SPImember | IDtype_member | NotifyMessageType_member | NumberOfSPI_member | Attr_member
  | TlvLength_member | Kind_member

text \<open>Entries of the dictionary of a reference: a class under its type number, or for all other types.\<close>

datatype registration =
    Add reference int
  | AddOther reference

datatype mc = Mc (mc_name: string) (mc_members: "(role \<times> member) list") (mc_dicts: "registration list")

section \<open>The place of the members\<close>

fun kind_of :: "element \<Rightarrow> mkind option" where
  "kind_of (MmUint w) = Some (Uint w)"
| "kind_of (MmSPI w) = Some (Uint w)"
| "kind_of (MmBAstatus w) = Some (Uint w)"
| "kind_of (MmBEstatus w) = Some (Uint w)"
| "kind_of (MmErrorStatus w) = Some (Uint w)"
| "kind_of (MmISAKMP_MessageID w) = Some (Uint w)"
| "kind_of (MmNumberOfSPI w) = Some (Uint w)"
| "kind_of (MmQType w) = Some (Uint w)"
| "kind_of (MmSNMPVersion w) = Some (Uint w)"
| "kind_of (MmSPIsize w) = Some (Uint w)"
| "kind_of (MmUppChecksum w opt pseudo) = Some (Uint w)"
| "kind_of (MmIPChecksum w opt) = Some (Uint w)"
| "kind_of MmV4Addr = Some (Octs 4)"
| "kind_of MmV6Addr = Some (Octs 16)"
| "kind_of MmEther = Some (Octs 6)"
| "kind_of MmMH_Cookie64 = Some (Octs 8)"
| "kind_of MmMH_Auth = Some (Octs 12)"
| "kind_of MmDHCPAuth = Some (Octs 16)"
| "kind_of _ = None"

fun fixed_kind :: "member \<Rightarrow> mkind option" where
  "fixed_kind (Element n e g v i f) = kind_of e"
| "fixed_kind _ = None"

text \<open>
  The members of fixed size that follow each other, between those whose size depends on the packet;
  a repeated member is a run of its own.
\<close>

fun runs :: "member list \<Rightarrow> mkind list list" where
  "runs [] = [[]]"
| "runs (m # ms) = (case fixed_kind m of
       Some k \<Rightarrow> (case runs ms of r # rs \<Rightarrow> (k # r) # rs | [] \<Rightarrow> [[k]])
     | None \<Rightarrow> [] # (case m of Multiple m' n \<Rightarrow> (case fixed_kind m' of Some k \<Rightarrow> [[k]] | None \<Rightarrow> []) | _ \<Rightarrow> []) @ runs ms)"

definition class_runs :: "mc \<Rightarrow> mkind list list" where
  "class_runs c = runs (map snd (mc_members c))"

fun aligned :: "mkind list \<Rightarrow> nat \<Rightarrow> bool" where
  "aligned [] p \<longleftrightarrow> True"
| "aligned (k # ks) p \<longleftrightarrow> (case k of Uint w \<Rightarrow> w \<le> 32 | Octs n \<Rightarrow> p mod 8 = 0 \<and> n < 8000 | VarOcts \<Rightarrow> False) \<and>
     aligned ks (p + bits_of k)"

definition octet_run :: "mkind list \<Rightarrow> bool" where
  "octet_run ks \<longleftrightarrow> aligned ks 0 \<and> total_bits ks mod 8 = 0"

text \<open>Numbers of less than eight bits in the last octet of the packet are left out: see \<open>last_narrow_field_overflows\<close>.\<close>

fun wide_end :: "mkind list \<Rightarrow> bool" where
  "wide_end [] \<longleftrightarrow> True"
| "wide_end [k] \<longleftrightarrow> (case k of Uint w \<Rightarrow> 8 \<le> w | _ \<Rightarrow> True)"
| "wide_end (k # ks) \<longleftrightarrow> 0 < total_bits ks \<and> wide_end ks"

lemma aligned_layout:
  "aligned ks p \<Longrightarrow> 8 * q + p + total_bits ks < 8 * len \<or> wide_end ks \<and> 8 * q + p + total_bits ks \<le> 8 * len
    \<Longrightarrow> layout_at ks (8 * q + p) len"
proof (induction ks p rule: aligned.induct)
  case (2 k ks p)
  have "wide_end ks" if "wide_end (k # ks)" using that by (cases ks) auto
  then have "layout_at ks (8 * q + p + bits_of k) len" using 2 by (auto simp: add.assoc)
  moreover have "member_at k (8 * q + p) len \<and> bits_of k < 65529"
    using 2(2,3) by (cases k; cases ks) (auto simp: member_at_def bits_of_def mod_add_eq)
  ultimately show ?case by simp
qed auto

definition room_for :: "mkind list \<Rightarrow> nat \<Rightarrow> byte list \<Rightarrow> bool" where
  "room_for ks q dst \<longleftrightarrow> (8 * q + total_bits ks < 8 * length dst \<or> wide_end ks \<and> 8 * q + total_bits ks = 8 * length dst) \<and>
     8 * length dst < 2147483648"

lemma octet_run_roundtrip:
  assumes "octet_run ks" "list_all2 fits_kind ks vs" "room_for ks q dst"
  shows "\<exists>dst'. members_generate (zip ks vs) (pos (8 * q)) dst = Inr dst' \<and> length dst' = length dst \<and>
    (\<forall>j. \<not> (8 * q \<le> j \<and> j < 8 * q + total_bits ks) \<longrightarrow> obit dst' j = obit dst j) \<and>
    members_reverse ks (pos (8 * q)) (ob_of dst') = Inr (map2 truncated ks vs, pos (8 * q + total_bits ks), True)"
proof -
  have l: "layout_at ks (8 * q) (length dst)" "8 * length dst < 2147483648"
    using aligned_layout [of ks 0 q "length dst"] assms(1,3) by (auto simp: octet_run_def room_for_def)
  obtain dst' where d: "members_generate (zip ks vs) (pos (8 * q)) dst = Inr dst'" "length dst' = length dst"
    "\<forall>j. \<not> (8 * q \<le> j \<and> j < 8 * q + total_bits ks) \<longrightarrow> obit dst' j = obit dst j"
    "\<And>src. same_bits (8 * q) (8 * q + total_bits ks) dst' src \<Longrightarrow>
       members_reverse ks (pos (8 * q)) (ob_of src) = Inr (map2 truncated ks vs, pos (8 * q + total_bits ks), True)"
    using members_generate_bits [OF assms(2) l] by blast
  then show ?thesis using d(4) [of dst'] by (simp add: same_bits_def)
qed

section \<open>Packets that end too early\<close>

lemma aligned_shift: "aligned ks p \<Longrightarrow> aligned ks (8 * q + p)"
proof (induction ks p rule: aligned.induct)
  case (2 k ks p)
  then show ?case by (cases k) (auto simp: add.assoc mod_add_eq)
qed simp

lemma reversePv_within:
  assumes "aligned (k # ks) p" "p + bits_of k \<le> 8 * length src" "8 * length src < 2147483648"
    "\<And>w. k = Uint w \<Longrightarrow> 0 < w \<Longrightarrow> w < 8 \<Longrightarrow> p + w \<noteq> 8 * length src"
  shows "\<exists>v. reversePv k (pos p) (pos (bits_of k)) (ob_of src) = Inr v"
proof (cases k)
  case (Uint w)
  then have "w = 0 \<or> p + w \<noteq> 8 * length src \<or> 8 \<le> w" using assms(4) by (cases "w < 8") auto
  then have "w \<le> 32" "p + w < 2147483648" "field_fits p w src"
    using assms(1-3) Uint by (auto simp: field_fits_def bits_of_def)
  then obtain h where "decodeUint (pos p) w src = Inr h" using decodeUint_bits by blast
  then show ?thesis using Uint \<open>w \<le> 32\<close> by (simp add: reversePv_def uint_decode_def ob_of_def ob_string_def)
next
  case (Octs n)
  then show ?thesis
    using assms pos_sel(1) [of p] by (auto simp: reversePv_def octets_at_def ob_of_def ob_string_def bits_of_def Let_def)
next
  case VarOcts
  then show ?thesis using assms(1) by simp
qed

lemma aligned_small: "aligned (k # ks) p \<Longrightarrow> k \<noteq> VarOcts \<and> bits_of k < 65529"
  by (cases k) (auto simp: bits_of_def)

lemma members_reverse_truncated:
  "aligned ks p \<Longrightarrow> p \<le> 8 * length src \<Longrightarrow> 8 * length src < p + total_bits ks \<Longrightarrow> 8 * length src < 2147418112 \<Longrightarrow>
   (\<And>i w. i < length ks \<Longrightarrow> ks ! i = Uint w \<Longrightarrow> 0 < w \<Longrightarrow> w < 8 \<Longrightarrow> p + total_bits (take (Suc i) ks) \<noteq> 8 * length src) \<Longrightarrow>
   \<exists>vs at. members_reverse ks (pos p) (ob_of src) = Inr (vs, at, False) \<and> length vs < length ks"
proof (induction ks p rule: aligned.induct)
  case (2 k ks p)
  note k = aligned_small [OF 2(2)]
  show ?case
  proof (cases "p + bits_of k \<le> 8 * length src")
    case True
    then obtain v where v: "reversePv k (pos p) (pos (bits_of k)) (ob_of src) = Inr v"
      using reversePv_within [OF 2(2) True] 2(5) 2(6) [of 0] by (auto simp: bits_of_def)
    then have run: "member_reverse k (pos p) (ob_of src) = Inr (Some (v, pos (p + bits_of k)))"
      using member_reverse_fixed [OF _ _ True] k 2(5) by simp
    have "\<exists>vs at. members_reverse ks (pos (p + bits_of k)) (ob_of src) = Inr (vs, at, False) \<and> length vs < length ks"
    proof (rule 2(1))
      fix i w assume "i < length ks" "ks ! i = Uint w" "0 < w" "w < 8"
      then show "p + bits_of k + total_bits (take (Suc i) ks) \<noteq> 8 * length src" using 2(6) [of "Suc i" w] by simp
    qed (use 2(2-5) True in auto)
    then obtain vs at where "members_reverse ks (pos (p + bits_of k)) (ob_of src) = Inr (vs, at, False)" "length vs < length ks"
      by blast
    then show ?thesis by (intro exI [of _ "v # vs"]) (simp add: run)
  next
    case False
    have l: "p < 2147483648" "bits_of k < 2147483648" "8 * ob_len (ob_of src) < 2147483648" "0 \<le> ob_len (ob_of src)"
      using 2(3,5) k by (simp_all add: ob_of_def)
    have "\<not> check_decode_limit (pos p) (pos (bits_of k)) (ob_of src)"
      using check_decode_limit_pos [OF l] False by (simp add: ob_of_def)
    then have "member_reverse k (pos p) (ob_of src) = Inr None"
      using k by (simp add: member_reverse_def member_length_pos Let_def)
    then show ?thesis by (intro exI [of _ "[]"]) simp
  qed
qed simp

section \<open>Names\<close>

fun member_name :: "member \<Rightarrow> string" where
  "member_name (Element n e g v i f) = n"
| "member_name (Data n s i) = n"
| "member_name (Reference r n) = n"
| "member_name (Multiple m n) = member_name m"
| "member_name (Opaque k n) = n"

text \<open>\<open>McObject::findMember\<close>: the first member of that name.\<close>

definition findMember :: "mc \<Rightarrow> string \<Rightarrow> member option" where
  "findMember c n = find (\<lambda>m. member_name m = n) (map snd (mc_members c))"

section \<open>Dictionaries\<close>

text \<open>The type a dictionary is asked for (\<open>Con_DictType\<close>).\<close>

datatype dict_type = Uneffect | Finish | Other | Effect int

record dict =
  dict_list :: "(int \<times> string) list"
  dict_other :: "string option"

text \<open>The class that takes data behind the end of what a header has room for.\<close>

definition McNeedless :: string where
  "McNeedless = ''[Needless]''"

fun find_type :: "int \<Rightarrow> (int \<times> 'a) list \<Rightarrow> 'a option" where
  "find_type t [] = None"
| "find_type t ((u, c) # ds) = (if t = u then Some c else find_type t ds)"

definition dict_find :: "dict_type \<Rightarrow> dict \<Rightarrow> string option" where
  "dict_find dt d = (case dt of
       Uneffect \<Rightarrow> None
     | Finish \<Rightarrow> Some McNeedless
     | Other \<Rightarrow> dict_other d
     | Effect t \<Rightarrow> (case find_type t (dict_list d) of Some c \<Rightarrow> Some c | None \<Rightarrow> dict_other d))"

definition dict_check :: "dict_type \<Rightarrow> dict \<Rightarrow> bool" where
  "dict_check dt d = (case dt of Effect t \<Rightarrow> find_type t (dict_list d) \<noteq> None | _ \<Rightarrow> False)"

definition dict_add :: "int \<Rightarrow> string \<Rightarrow> dict \<Rightarrow> dict" where
  "dict_add t c d = d\<lparr>dict_list := dict_list d @ [(t, c)]\<rparr>"

definition dict_add_other :: "string \<Rightarrow> dict \<Rightarrow> dict" where
  "dict_add_other c d = d\<lparr>dict_other := Some c\<rparr>"

text \<open>What the classes that have been created put into the dictionary of a reference.\<close>

fun register :: "reference \<Rightarrow> string \<Rightarrow> registration list \<Rightarrow> dict \<Rightarrow> dict" where
  "register r c [] d = d"
| "register r c (Add r' t # as) d = register r c as (if r' = r then dict_add t c d else d)"
| "register r c (AddOther r' # as) d = register r c as (if r' = r then dict_add_other c d else d)"

definition dict_of :: "reference \<Rightarrow> mc list \<Rightarrow> dict" where
  "dict_of r cs = fold (\<lambda>c. register r (mc_name c) (mc_dicts c)) cs \<lparr>dict_list = [], dict_other = None\<rparr>"

fun added :: "reference \<Rightarrow> registration list \<Rightarrow> int list" where
  "added r [] = []"
| "added r (Add r' t # as) = (if r' = r then t # added r as else added r as)"
| "added r (AddOther r' # as) = added r as"

definition dict_types :: "reference \<Rightarrow> mc list \<Rightarrow> int list" where
  "dict_types r cs = concat (map (\<lambda>c. added r (mc_dicts c)) cs)"

lemma register_list: "dict_list (register r c as d) = dict_list d @ map (\<lambda>t. (t, c)) (added r as)"
  by (induction r c as d rule: register.induct) (simp_all add: dict_add_def dict_add_other_def)

lemma dict_of_list:
  "dict_list (dict_of r cs) = concat (map (\<lambda>c. map (\<lambda>t. (t, mc_name c)) (added r (mc_dicts c))) cs)"
proof -
  have "dict_list (fold (\<lambda>c. register r (mc_name c) (mc_dicts c)) cs d) =
    dict_list d @ concat (map (\<lambda>c. map (\<lambda>t. (t, mc_name c)) (added r (mc_dicts c))) cs)" for d
    by (induction cs arbitrary: d) (simp_all add: register_list)
  then show ?thesis by (simp add: dict_of_def)
qed

lemma dict_of_types: "map fst (dict_list (dict_of r cs)) = dict_types r cs"
  by (simp add: dict_of_list dict_types_def map_concat comp_def)

lemma find_type_distinct: "distinct (map fst ds) \<Longrightarrow> (t, c) \<in> set ds \<Longrightarrow> find_type t ds = Some c"
  by (induction t ds rule: find_type.induct) (force split: if_splits)+

lemma added_in: "Add r t \<in> set as \<Longrightarrow> t \<in> set (added r as)"
  by (induction r as rule: added.induct) auto

text \<open>All entries of all dictionaries; that they differ says that no type is taken twice.\<close>

fun registered :: "registration list \<Rightarrow> (reference \<times> int) list" where
  "registered [] = []"
| "registered (Add r t # as) = (r, t) # registered as"
| "registered (AddOther r # as) = registered as"

lemma added_registered: "added r as = map snd (filter (\<lambda>(r', t). r' = r) (registered as))"
  by (induction as rule: registered.induct) auto

lemma dict_types_registered:
  "dict_types r cs = map snd (filter (\<lambda>(r', t). r' = r) (concat (map (\<lambda>c. registered (mc_dicts c)) cs)))"
  by (induction cs) (simp_all add: dict_types_def added_registered)

lemma distinct_dict_types:
  "distinct (concat (map (\<lambda>c. registered (mc_dicts c)) cs)) \<Longrightarrow> distinct (dict_types r cs)"
  by (auto simp: dict_types_registered distinct_map inj_on_def)

lemma dict_of_find_type:
  assumes "distinct (dict_types r cs)" "c \<in> set cs" "Add r t \<in> set (mc_dicts c)"
  shows "find_type t (dict_list (dict_of r cs)) = Some (mc_name c)"
proof -
  have "(t, mc_name c) \<in> set (dict_list (dict_of r cs))"
    using assms(2,3) by (force simp: dict_of_list dest: added_in)
  then show ?thesis
    using find_type_distinct [of "dict_list (dict_of r cs)"] assms(1) by (simp add: dict_of_types)
qed

lemma find_type_None: "t \<notin> fst ` set ds \<Longrightarrow> find_type t ds = None"
  by (induction t ds rule: find_type.induct) auto

lemma dict_of_other: "t \<notin> set (dict_types r cs) \<Longrightarrow> dict_find (Effect t) (dict_of r cs) = dict_other (dict_of r cs)"
  using find_type_None [of t "dict_list (dict_of r cs)"]
  by (simp add: dict_find_def dict_of_types [symmetric])

lemma findMember_distinct:
  assumes "distinct (map (member_name \<circ> snd) (mc_members c))" "(r, m) \<in> set (mc_members c)"
  shows "findMember c (member_name m) = Some m"
proof -
  have "find (\<lambda>m'. member_name m' = member_name m) ms = Some m"
    if "distinct (map member_name ms)" "m \<in> set ms" for ms
    using that by (induction ms) (auto simp: image_iff)
  then show ?thesis using assms by (force simp: findMember_def)
qed

end
