(* ===== verification/VTypes.thy ===== *)
theory VTypes
  imports VLayout
begin

text \<open>The numbers of protocols, messages and options, from the headers of \<open>lib/Pz\<close>.\<close>

definition TP_DL_Ether :: int where [class_defs]: "TP_DL_Ether = 1"

definition PF_NL_IPv6 :: int where [class_defs]: "PF_NL_IPv6 = 28"

definition TP_NL_IPv6 :: int where [class_defs]: "TP_NL_IPv6 = 34525"

definition TP_Tunnel_IPv6 :: int where [class_defs]: "TP_Tunnel_IPv6 = 41"

definition TP_Ext_HopByHop :: int where [class_defs]: "TP_Ext_HopByHop = 0"

definition TP_Ext_Destination :: int where [class_defs]: "TP_Ext_Destination = 60"

definition TP_Ext_Routing :: int where [class_defs]: "TP_Ext_Routing = 43"

definition TP_Ext_Fragment :: int where [class_defs]: "TP_Ext_Fragment = 44"

definition TP_Opt_Ext_Pad1 :: int where [class_defs]: "TP_Opt_Ext_Pad1 = 0"

definition TP_Opt_Ext_PadN :: int where [class_defs]: "TP_Opt_Ext_PadN = 1"

definition TP_Opt_Ext_JumboPayload :: int where [class_defs]: "TP_Opt_Ext_JumboPayload = 194"

definition TP_Opt_Ext_RouterAlert :: int where [class_defs]: "TP_Opt_Ext_RouterAlert = 5"

definition TP_Opt_Ext_TunnelEncap :: int where [class_defs]: "TP_Opt_Ext_TunnelEncap = 4"

definition TP_Opt_Ext_HomeAddress :: int where [class_defs]: "TP_Opt_Ext_HomeAddress = 201"

definition PF_NL_IPv4 :: int where [class_defs]: "PF_NL_IPv4 = 2"

definition TP_NL_IPv4 :: int where [class_defs]: "TP_NL_IPv4 = 2048"

definition TP_Tunnel_IPv4 :: int where [class_defs]: "TP_Tunnel_IPv4 = 4"

definition TP_Upp_NoNext :: int where [class_defs]: "TP_Upp_NoNext = 59"

definition TP_ICMPv6_RS :: int where [class_defs]: "TP_ICMPv6_RS = 133"

definition TP_ICMPv6_RA :: int where [class_defs]: "TP_ICMPv6_RA = 134"

definition TP_ICMPv6_NS :: int where [class_defs]: "TP_ICMPv6_NS = 135"

definition TP_ICMPv6_NA :: int where [class_defs]: "TP_ICMPv6_NA = 136"

definition TP_ICMPv6_Redirect :: int where [class_defs]: "TP_ICMPv6_Redirect = 137"

definition TP_ICMPv6_MLDReport :: int where [class_defs]: "TP_ICMPv6_MLDReport = 131"

definition TP_ICMPv6_MLDDone :: int where [class_defs]: "TP_ICMPv6_MLDDone = 132"

definition TP_ICMPv6_EchoRequest :: int where [class_defs]: "TP_ICMPv6_EchoRequest = 128"

definition TP_ICMPv6_EchoReply :: int where [class_defs]: "TP_ICMPv6_EchoReply = 129"

definition TP_ICMPv6_PacketTooBig :: int where [class_defs]: "TP_ICMPv6_PacketTooBig = 2"

definition TP_ICMPv6_DestinationUnreachable :: int where [class_defs]: "TP_ICMPv6_DestinationUnreachable = 1"

definition TP_ICMPv6_TimeExceeded :: int where [class_defs]: "TP_ICMPv6_TimeExceeded = 3"

definition TP_ICMPv6_ParameterProblem :: int where [class_defs]: "TP_ICMPv6_ParameterProblem = 4"

definition TP_ICMPv6_RouterRenumbering :: int where [class_defs]: "TP_ICMPv6_RouterRenumbering = 138"

definition TP_ICMPv6_HAADRequest :: int where [class_defs]: "TP_ICMPv6_HAADRequest = 144"

definition TP_ICMPv6_HAADReply :: int where [class_defs]: "TP_ICMPv6_HAADReply = 145"

definition TP_ICMPv6_MobilePrefixSolicit :: int where [class_defs]: "TP_ICMPv6_MobilePrefixSolicit = 146"

definition TP_ICMPv6_MobilePrefixAdvertise :: int where [class_defs]: "TP_ICMPv6_MobilePrefixAdvertise = 147"

definition TP_Opt_ICMPv6_SLL :: int where [class_defs]: "TP_Opt_ICMPv6_SLL = 1"

definition TP_Opt_ICMPv6_TLL :: int where [class_defs]: "TP_Opt_ICMPv6_TLL = 2"

definition TP_Opt_ICMPv6_Prefix :: int where [class_defs]: "TP_Opt_ICMPv6_Prefix = 3"

definition TP_Opt_ICMPv6_MTU :: int where [class_defs]: "TP_Opt_ICMPv6_MTU = 5"

definition TP_Opt_ICMPv6_Redirected :: int where [class_defs]: "TP_Opt_ICMPv6_Redirected = 4"

definition TP_Opt_ICMPv6_AdvInterval :: int where [class_defs]: "TP_Opt_ICMPv6_AdvInterval = 7"

definition TP_Opt_ICMPv6_HomeAgentInfo :: int where [class_defs]: "TP_Opt_ICMPv6_HomeAgentInfo = 8"

definition TP_Opt_ICMPv6_RouteInfo :: int where [class_defs]: "TP_Opt_ICMPv6_RouteInfo = 200"

definition TP_Ext_MH_BRR :: int where [class_defs]: "TP_Ext_MH_BRR = 0"

definition TP_Ext_MH_HoTI :: int where [class_defs]: "TP_Ext_MH_HoTI = 1"

definition TP_Ext_MH_CoTI :: int where [class_defs]: "TP_Ext_MH_CoTI = 2"

definition TP_Ext_MH_HoT :: int where [class_defs]: "TP_Ext_MH_HoT = 3"

definition TP_Ext_MH_CoT :: int where [class_defs]: "TP_Ext_MH_CoT = 4"

definition TP_Ext_MH_BU :: int where [class_defs]: "TP_Ext_MH_BU = 5"

definition TP_Ext_MH_BA :: int where [class_defs]: "TP_Ext_MH_BA = 6"

definition TP_Ext_MH_BE :: int where [class_defs]: "TP_Ext_MH_BE = 7"

definition TP_Opt_MH_Pad1 :: int where [class_defs]: "TP_Opt_MH_Pad1 = 0"

definition TP_Opt_MH_PadN :: int where [class_defs]: "TP_Opt_MH_PadN = 1"

definition TP_Opt_MH_BindingRefreshAdvice :: int where [class_defs]: "TP_Opt_MH_BindingRefreshAdvice = 2"

definition TP_Opt_MH_AlternateCoA :: int where [class_defs]: "TP_Opt_MH_AlternateCoA = 3"

definition TP_Opt_MH_NonceIndices :: int where [class_defs]: "TP_Opt_MH_NonceIndices = 4"

definition TP_Opt_MH_BindingAuthData :: int where [class_defs]: "TP_Opt_MH_BindingAuthData = 5"

definition TP_Opt_MH_MobNetworkPrefix :: int where [class_defs]: "TP_Opt_MH_MobNetworkPrefix = 6"

definition TP_Upp_UDP :: int where [class_defs]: "TP_Upp_UDP = 17"

definition TP_Upp_TCP :: int where [class_defs]: "TP_Upp_TCP = 6"

definition TP_NL_ARP :: int where [class_defs]: "TP_NL_ARP = 2054"

definition TP_NL_RARP :: int where [class_defs]: "TP_NL_RARP = 32821"

definition TP_ICMPv4_DestinationUnreachable :: int where [class_defs]: "TP_ICMPv4_DestinationUnreachable = 3"

definition TP_ICMPv4_TimeExceeded :: int where [class_defs]: "TP_ICMPv4_TimeExceeded = 11"

definition TP_ICMPv4_ParameterProblem :: int where [class_defs]: "TP_ICMPv4_ParameterProblem = 12"

definition TP_ICMPv4_Redirect :: int where [class_defs]: "TP_ICMPv4_Redirect = 5"

definition TP_ICMPv4_EchoRequest :: int where [class_defs]: "TP_ICMPv4_EchoRequest = 8"

definition TP_ICMPv4_EchoReply :: int where [class_defs]: "TP_ICMPv4_EchoReply = 0"

definition TP_Udp_RIPng :: int where [class_defs]: "TP_Udp_RIPng = 521"

definition TP_Udp_DNS :: int where [class_defs]: "TP_Udp_DNS = 53"

definition TP_DNS_RR_A :: int where [class_defs]: "TP_DNS_RR_A = 1"

definition TP_DNS_RR_NS :: int where [class_defs]: "TP_DNS_RR_NS = 2"

definition TP_DNS_RR_MD :: int where [class_defs]: "TP_DNS_RR_MD = 3"

definition TP_DNS_RR_MF :: int where [class_defs]: "TP_DNS_RR_MF = 4"

definition TP_DNS_RR_CNAME :: int where [class_defs]: "TP_DNS_RR_CNAME = 5"

definition TP_DNS_RR_SOA :: int where [class_defs]: "TP_DNS_RR_SOA = 6"

definition TP_DNS_RR_MB :: int where [class_defs]: "TP_DNS_RR_MB = 7"

definition TP_DNS_RR_MG :: int where [class_defs]: "TP_DNS_RR_MG = 8"

definition TP_DNS_RR_MR :: int where [class_defs]: "TP_DNS_RR_MR = 9"

definition TP_DNS_RR_NULL :: int where [class_defs]: "TP_DNS_RR_NULL = 10"

definition TP_DNS_RR_WKS :: int where [class_defs]: "TP_DNS_RR_WKS = 11"

definition TP_DNS_RR_PTR :: int where [class_defs]: "TP_DNS_RR_PTR = 12"

definition TP_DNS_RR_HINFO :: int where [class_defs]: "TP_DNS_RR_HINFO = 13"

definition TP_DNS_RR_MINFO :: int where [class_defs]: "TP_DNS_RR_MINFO = 14"

definition TP_DNS_RR_MX :: int where [class_defs]: "TP_DNS_RR_MX = 15"

definition TP_DNS_RR_TXT :: int where [class_defs]: "TP_DNS_RR_TXT = 16"

definition TP_DNS_RR_RP :: int where [class_defs]: "TP_DNS_RR_RP = 17"

definition TP_DNS_RR_AFSDB :: int where [class_defs]: "TP_DNS_RR_AFSDB = 18"

definition TP_DNS_RR_X25 :: int where [class_defs]: "TP_DNS_RR_X25 = 19"

definition TP_DNS_RR_ISDN :: int where [class_defs]: "TP_DNS_RR_ISDN = 20"

definition TP_DNS_RR_RT :: int where [class_defs]: "TP_DNS_RR_RT = 21"

definition TP_DNS_RR_PX :: int where [class_defs]: "TP_DNS_RR_PX = 26"

definition TP_DNS_RR_AAAA :: int where [class_defs]: "TP_DNS_RR_AAAA = 28"

definition TP_DNS_RR_SRV :: int where [class_defs]: "TP_DNS_RR_SRV = 33"

definition TP_DNS_RR_NAPTR :: int where [class_defs]: "TP_DNS_RR_NAPTR = 35"

definition TP_DHCPv6_Solicit :: int where [class_defs]: "TP_DHCPv6_Solicit = 1"

definition TP_DHCPv6_Advertise :: int where [class_defs]: "TP_DHCPv6_Advertise = 2"

definition TP_DHCPv6_Request :: int where [class_defs]: "TP_DHCPv6_Request = 3"

definition TP_DHCPv6_Confirm :: int where [class_defs]: "TP_DHCPv6_Confirm = 4"

definition TP_DHCPv6_Renew :: int where [class_defs]: "TP_DHCPv6_Renew = 5"

definition TP_DHCPv6_Rebind :: int where [class_defs]: "TP_DHCPv6_Rebind = 6"

definition TP_DHCPv6_Reply :: int where [class_defs]: "TP_DHCPv6_Reply = 7"

definition TP_DHCPv6_Release :: int where [class_defs]: "TP_DHCPv6_Release = 8"

definition TP_DHCPv6_Decline :: int where [class_defs]: "TP_DHCPv6_Decline = 9"

definition TP_DHCPv6_Reconfigure :: int where [class_defs]: "TP_DHCPv6_Reconfigure = 10"

definition TP_DHCPv6_InformationRequest :: int where [class_defs]: "TP_DHCPv6_InformationRequest = 11"

definition TP_DHCPv6_RelayForward :: int where [class_defs]: "TP_DHCPv6_RelayForward = 12"

definition TP_DHCPv6_RelayReply :: int where [class_defs]: "TP_DHCPv6_RelayReply = 13"

definition TP_Opt_DHCPv6_CID :: int where [class_defs]: "TP_Opt_DHCPv6_CID = 1"

definition TP_Opt_DHCPv6_SID :: int where [class_defs]: "TP_Opt_DHCPv6_SID = 2"

definition TP_Opt_DHCPv6_IA_NA :: int where [class_defs]: "TP_Opt_DHCPv6_IA_NA = 3"

definition TP_Opt_DHCPv6_IA_TA :: int where [class_defs]: "TP_Opt_DHCPv6_IA_TA = 4"

definition TP_Opt_DHCPv6_IA_Address :: int where [class_defs]: "TP_Opt_DHCPv6_IA_Address = 5"

definition TP_Opt_DHCPv6_OptionRequest :: int where [class_defs]: "TP_Opt_DHCPv6_OptionRequest = 6"

definition TP_Opt_DHCPv6_Preference :: int where [class_defs]: "TP_Opt_DHCPv6_Preference = 7"

definition TP_Opt_DHCPv6_ElapsedTime :: int where [class_defs]: "TP_Opt_DHCPv6_ElapsedTime = 8"

definition TP_Opt_DHCPv6_RelayMessage :: int where [class_defs]: "TP_Opt_DHCPv6_RelayMessage = 9"

definition TP_Opt_DHCPv6_Authentication :: int where [class_defs]: "TP_Opt_DHCPv6_Authentication = 11"

definition TP_Opt_DHCPv6_ServerUnicast :: int where [class_defs]: "TP_Opt_DHCPv6_ServerUnicast = 12"

definition TP_Opt_DHCPv6_StatusCode :: int where [class_defs]: "TP_Opt_DHCPv6_StatusCode = 13"

definition TP_Opt_DHCPv6_RapidCommit :: int where [class_defs]: "TP_Opt_DHCPv6_RapidCommit = 14"

definition TP_Opt_DHCPv6_UserClass :: int where [class_defs]: "TP_Opt_DHCPv6_UserClass = 15"

definition TP_Opt_DHCPv6_VendorClass :: int where [class_defs]: "TP_Opt_DHCPv6_VendorClass = 16"

definition TP_Opt_DHCPv6_VendorSpecificInfo :: int where [class_defs]: "TP_Opt_DHCPv6_VendorSpecificInfo = 17"

definition TP_Opt_DHCPv6_IID :: int where [class_defs]: "TP_Opt_DHCPv6_IID = 18"

definition TP_Opt_DHCPv6_ReconfigureMessage :: int where [class_defs]: "TP_Opt_DHCPv6_ReconfigureMessage = 19"

definition TP_Opt_DHCPv6_ReconfigureAccept :: int where [class_defs]: "TP_Opt_DHCPv6_ReconfigureAccept = 20"

definition TP_Opt_DHCPv6_IA_PD :: int where [class_defs]: "TP_Opt_DHCPv6_IA_PD = 25"

definition TP_Opt_DHCPv6_IA_Prefix :: int where [class_defs]: "TP_Opt_DHCPv6_IA_Prefix = 26"

definition TP_Opt_DHCPv6_DNS_Servers :: int where [class_defs]: "TP_Opt_DHCPv6_DNS_Servers = 23"

definition TP_Opt_DHCPv6_DNS_SearchList :: int where [class_defs]: "TP_Opt_DHCPv6_DNS_SearchList = 24"

definition TP_Opt_DHCPv6_NTP_Servers :: int where [class_defs]: "TP_Opt_DHCPv6_NTP_Servers = 27"

definition TP_Opt_DHCPv6_NTP_Timezone :: int where [class_defs]: "TP_Opt_DHCPv6_NTP_Timezone = 28"

definition TP_DUID_LL_Ether :: int where [class_defs]: "TP_DUID_LL_Ether = 1"

definition TP_DHCPv6_DUID_EN :: int where [class_defs]: "TP_DHCPv6_DUID_EN = 2"

definition TP_DHCPv6_Auth_Delayed :: int where [class_defs]: "TP_DHCPv6_Auth_Delayed = 2"

definition TP_DHCPv6_Auth_ReconfigureKey :: int where [class_defs]: "TP_DHCPv6_Auth_ReconfigureKey = 3"

definition TP_IGMP_IGMPv3Report :: int where [class_defs]: "TP_IGMP_IGMPv3Report = 34"

definition TP_IGMP_IGMPQuery :: int where [class_defs]: "TP_IGMP_IGMPQuery = 17"

definition TP_IGMP_IGMPv1Report :: int where [class_defs]: "TP_IGMP_IGMPv1Report = 18"

definition TP_IGMP_IGMPv2Report :: int where [class_defs]: "TP_IGMP_IGMPv2Report = 22"

definition TP_IGMP_IGMPv2LeaveGroup :: int where [class_defs]: "TP_IGMP_IGMPv2LeaveGroup = 23"

definition TP_ICMPv6_MLDv2Report :: int where [class_defs]: "TP_ICMPv6_MLDv2Report = 143"

definition TP_ICMPv6_MLDQuery :: int where [class_defs]: "TP_ICMPv6_MLDQuery = 130"

definition TP_ICMPv6_MLDv2Query :: int where [class_defs]: "TP_ICMPv6_MLDv2Query = - 126"

definition TP_Udp_SIP :: int where [class_defs]: "TP_Udp_SIP = 5060"

definition TP_Udp_SNMP :: int where [class_defs]: "TP_Udp_SNMP = 161"

definition TP_Udp_SNMPTRAP :: int where [class_defs]: "TP_Udp_SNMPTRAP = 162"

definition TP_SNMP_Message :: int where [class_defs]: "TP_SNMP_Message = 48"

definition TP_SNMP_Version :: int where [class_defs]: "TP_SNMP_Version = 2"

definition TP_SNMP_Community :: int where [class_defs]: "TP_SNMP_Community = 4"

definition TP_SNMP_GetRequest :: int where [class_defs]: "TP_SNMP_GetRequest = 160"

definition TP_SNMP_GetNextRequest :: int where [class_defs]: "TP_SNMP_GetNextRequest = 161"

definition TP_SNMP_SetRequest :: int where [class_defs]: "TP_SNMP_SetRequest = 163"

definition TP_SNMP_GetResponse :: int where [class_defs]: "TP_SNMP_GetResponse = 162"

definition TP_SNMP_Trap :: int where [class_defs]: "TP_SNMP_Trap = 164"

definition TP_SNMP_GetBulk :: int where [class_defs]: "TP_SNMP_GetBulk = 165"

definition TP_SNMP_Inform :: int where [class_defs]: "TP_SNMP_Inform = 166"

definition TP_SNMP_Trap2 :: int where [class_defs]: "TP_SNMP_Trap2 = 167"

definition TP_SNMP_Report :: int where [class_defs]: "TP_SNMP_Report = 168"

definition TP_SNMP_RequestID :: int where [class_defs]: "TP_SNMP_RequestID = 2"

definition TP_SNMP_ErrorStatus :: int where [class_defs]: "TP_SNMP_ErrorStatus = 2"

definition TP_SNMP_ErrorIndex :: int where [class_defs]: "TP_SNMP_ErrorIndex = 2"

definition TP_SNMP_GenericTrap :: int where [class_defs]: "TP_SNMP_GenericTrap = 2"

definition TP_SNMP_SpecificTrap :: int where [class_defs]: "TP_SNMP_SpecificTrap = 2"

definition TP_SNMP_VarBindList :: int where [class_defs]: "TP_SNMP_VarBindList = 48"

definition TP_SNMP_VarBind :: int where [class_defs]: "TP_SNMP_VarBind = 48"

definition TP_SNMP_ASN_Boolean :: int where [class_defs]: "TP_SNMP_ASN_Boolean = 1"

definition TP_SNMP_ASN_Integer :: int where [class_defs]: "TP_SNMP_ASN_Integer = 2"

definition TP_SNMP_ASN_BitString :: int where [class_defs]: "TP_SNMP_ASN_BitString = 3"

definition TP_SNMP_ASN_OctString :: int where [class_defs]: "TP_SNMP_ASN_OctString = 4"

definition TP_SNMP_ASN_Null :: int where [class_defs]: "TP_SNMP_ASN_Null = 5"

definition TP_SNMP_ASN_ObjectID :: int where [class_defs]: "TP_SNMP_ASN_ObjectID = 6"

definition TP_SNMP_ASN_Sequence :: int where [class_defs]: "TP_SNMP_ASN_Sequence = 16"

definition TP_SNMP_ASN_Set :: int where [class_defs]: "TP_SNMP_ASN_Set = 17"

definition TP_SNMP_ASN_Opaque :: int where [class_defs]: "TP_SNMP_ASN_Opaque = 48"

definition TP_SNMP_ASN_IPAddress :: int where [class_defs]: "TP_SNMP_ASN_IPAddress = 64"

definition TP_SNMP_ASN_Counter :: int where [class_defs]: "TP_SNMP_ASN_Counter = 65"

definition TP_SNMP_ASN_Gauge :: int where [class_defs]: "TP_SNMP_ASN_Gauge = 66"

definition TP_SNMP_ASN_TimeTicks :: int where [class_defs]: "TP_SNMP_ASN_TimeTicks = 67"

definition TP_Udp_ISAKMP :: int where [class_defs]: "TP_Udp_ISAKMP = 500"

definition TP_IPSECDOI_SIT_IDENTITY_ONLY :: int where [class_defs]: "TP_IPSECDOI_SIT_IDENTITY_ONLY = 1"

definition TP_IPSECDOI_PROTO_ISAKMP :: int where [class_defs]: "TP_IPSECDOI_PROTO_ISAKMP = 1"

definition TP_IPSECDOI_PROTO_AH :: int where [class_defs]: "TP_IPSECDOI_PROTO_AH = 2"

definition TP_IPSECDOI_PROTO_ESP :: int where [class_defs]: "TP_IPSECDOI_PROTO_ESP = 3"

definition TP_IPSECDOI_PROTO_IPCOMP :: int where [class_defs]: "TP_IPSECDOI_PROTO_IPCOMP = 4"

definition TP_ISAKMP_NPTYPE_T :: int where [class_defs]: "TP_ISAKMP_NPTYPE_T = 3"

definition TP_ISAKMP_NPTYPE_KE :: int where [class_defs]: "TP_ISAKMP_NPTYPE_KE = 4"

definition TP_IPSECDOI_ID_IPV4_ADDR :: int where [class_defs]: "TP_IPSECDOI_ID_IPV4_ADDR = 1"

definition TP_IPSECDOI_ID_FQDN :: int where [class_defs]: "TP_IPSECDOI_ID_FQDN = 2"

definition TP_IPSECDOI_ID_USER_FQDN :: int where [class_defs]: "TP_IPSECDOI_ID_USER_FQDN = 3"

definition TP_IPSECDOI_ID_IPV4_ADDR_SUBNET :: int where [class_defs]: "TP_IPSECDOI_ID_IPV4_ADDR_SUBNET = 4"

definition TP_IPSECDOI_ID_IPV6_ADDR :: int where [class_defs]: "TP_IPSECDOI_ID_IPV6_ADDR = 5"

definition TP_IPSECDOI_ID_IPV6_ADDR_SUBNET :: int where [class_defs]: "TP_IPSECDOI_ID_IPV6_ADDR_SUBNET = 6"

definition TP_IPSECDOI_ID_IPV4_ADDR_RANGE :: int where [class_defs]: "TP_IPSECDOI_ID_IPV4_ADDR_RANGE = 7"

definition TP_IPSECDOI_ID_IPV6_ADDR_RANGE :: int where [class_defs]: "TP_IPSECDOI_ID_IPV6_ADDR_RANGE = 8"

definition TP_IPSECDOI_ID_DER_ASN1_DN :: int where [class_defs]: "TP_IPSECDOI_ID_DER_ASN1_DN = 9"

definition TP_IPSECDOI_ID_DER_ASN1_GN :: int where [class_defs]: "TP_IPSECDOI_ID_DER_ASN1_GN = 10"

definition TP_IPSECDOI_ID_KEY_ID :: int where [class_defs]: "TP_IPSECDOI_ID_KEY_ID = 11"

definition TP_ISAKMP_NPTYPE_CERT :: int where [class_defs]: "TP_ISAKMP_NPTYPE_CERT = 6"

definition TP_ISAKMP_NPTYPE_CR :: int where [class_defs]: "TP_ISAKMP_NPTYPE_CR = 7"

definition TP_ISAKMP_NPTYPE_HASH :: int where [class_defs]: "TP_ISAKMP_NPTYPE_HASH = 8"

definition TP_ISAKMP_NPTYPE_SIG :: int where [class_defs]: "TP_ISAKMP_NPTYPE_SIG = 9"

definition TP_ISAKMP_NPTYPE_NONCE :: int where [class_defs]: "TP_ISAKMP_NPTYPE_NONCE = 10"

definition TP_ISAKMP_NTYPE_RESPONDER_LIFETIME :: int where [class_defs]: "TP_ISAKMP_NTYPE_RESPONDER_LIFETIME = 24576"

definition TP_ISAKMP_NTYPE_REPLAY_STATUS :: int where [class_defs]: "TP_ISAKMP_NTYPE_REPLAY_STATUS = 24577"

definition TP_ISAKMP_NPTYPE_D :: int where [class_defs]: "TP_ISAKMP_NPTYPE_D = 12"

definition TP_ISAKMP_NPTYPE_VID :: int where [class_defs]: "TP_ISAKMP_NPTYPE_VID = 13"

definition TP_ISAKMP_NPTYPE_SA :: int where [class_defs]: "TP_ISAKMP_NPTYPE_SA = 1"

definition TP_ISAKMP_IPDOI :: int where [class_defs]: "TP_ISAKMP_IPDOI = 1"

definition TP_ISAKMP_NPTYPE_P :: int where [class_defs]: "TP_ISAKMP_NPTYPE_P = 2"

definition TP_ISAKMP_NPTYPE_ID :: int where [class_defs]: "TP_ISAKMP_NPTYPE_ID = 5"

definition TP_ISAKMP_NPTYPE_N :: int where [class_defs]: "TP_ISAKMP_NPTYPE_N = 11"

definition TP_DL_Null :: int where [class_defs]: "TP_DL_Null = 0"

definition TP_Ext_AH :: int where [class_defs]: "TP_Ext_AH = 51"

definition TP_Ext_ESP :: int where [class_defs]: "TP_Ext_ESP = 50"

definition TP_Ext_MH :: int where [class_defs]: "TP_Ext_MH = 135"

definition TP_Upp_ICMPv6 :: int where [class_defs]: "TP_Upp_ICMPv6 = 58"

definition TP_Upp_VRRP :: int where [class_defs]: "TP_Upp_VRRP = 112"

definition TP_Opt_TCP_EndofOptionList :: int where [class_defs]: "TP_Opt_TCP_EndofOptionList = 0"

definition TP_Opt_TCP_NoOperation :: int where [class_defs]: "TP_Opt_TCP_NoOperation = 1"

definition TP_Opt_TCP_MaximumSegmentSize :: int where [class_defs]: "TP_Opt_TCP_MaximumSegmentSize = 2"

definition TP_Opt_IPv4_EndofOptionList :: int where [class_defs]: "TP_Opt_IPv4_EndofOptionList = 0"

definition TP_Opt_IPv4_NoOperation :: int where [class_defs]: "TP_Opt_IPv4_NoOperation = 1"

definition TP_Opt_IPv4_LooseSourceRoute :: int where [class_defs]: "TP_Opt_IPv4_LooseSourceRoute = 131"

definition TP_Opt_IPv4_StrictSourceRoute :: int where [class_defs]: "TP_Opt_IPv4_StrictSourceRoute = 137"

definition TP_Opt_IPv4_RecordRoute :: int where [class_defs]: "TP_Opt_IPv4_RecordRoute = 7"

definition TP_Opt_IPv4_Timestamp :: int where [class_defs]: "TP_Opt_IPv4_Timestamp = 68"

definition TP_Opt_IPv4_RouterAlert :: int where [class_defs]: "TP_Opt_IPv4_RouterAlert = 148"

definition TP_Upp_ICMPv4 :: int where [class_defs]: "TP_Upp_ICMPv4 = 1"

definition TP_Udp_DHCPv6_CL :: int where [class_defs]: "TP_Udp_DHCPv6_CL = 546"

definition TP_Udp_DHCPv6_SV :: int where [class_defs]: "TP_Udp_DHCPv6_SV = 547"

definition TP_DHCPv6_DUID_LLT :: int where [class_defs]: "TP_DHCPv6_DUID_LLT = 1"

definition TP_DHCPv6_DUID_LL :: int where [class_defs]: "TP_DHCPv6_DUID_LL = 3"

definition TP_Upp_IGMP :: int where [class_defs]: "TP_Upp_IGMP = 2"

end
