(* ===== verification/VHdrNet.thy ===== *)
theory VHdrNet
  imports VTypes
begin

text \<open>Classes of headers: the link and network layer, the extension headers and mobility headers, ICMPv6 and its options, UDP and TCP.\<close>

definition McOpt_TCP_common_member :: "int \<Rightarrow> (role \<times> member) list" where [class_defs]:
  "McOpt_TCP_common_member type = [
      (Kind_member, Element ''Kind'' (MmUint 8) (Unique type) (Unique type) ICVCONST False),
      (Length_member, Element ''Length'' (MmUint 8) (HC ''Length'') EVALANY ICVCONST False)]"

definition McOpt_IPv4_common_member :: "int \<Rightarrow> (role \<times> member) list" where [class_defs]:
  "McOpt_IPv4_common_member type = [
      (Type_member, Element ''Type'' (MmUint 8) (Unique type) (Unique type) ICVCONST False),
      (Length_member, Element ''Length'' (MmUint 8) (HC ''Length'') EVALANY ICVCONST False)]"

definition McPayload :: mc where [class_defs]:
  "McPayload = Mc ''McPayload'' ([
      (Member, Data ''data'' False ICVCONST)])
     [AddOther MmPayload,
      AddOther MmFrame,
      AddOther MmPacket_onEther,
      AddOther MmPacket_onNull,
      AddOther MmUpper_onIP,
      AddOther MmUpper_onUpper]"

definition McFrame_Ether :: mc where [class_defs]:
  "McFrame_Ether = Mc ''McFrame_Ether'' ([
      (Member, Reference (MmTopHdr ''McTopHdr_Ether'') ''header''),
      (Member, Reference MmPacket_onEther ''packet'')])
     [Add MmFrame TP_DL_Ether]"

definition McTopHdr_Ether :: mc where [class_defs]:
  "McTopHdr_Ether = Mc ''McTopHdr_Ether'' ([
      (Member, Element ''DestinationAddress'' MmEther ETNUT ETTN ICVCONST False),
      (Member, Element ''SourceAddress'' MmEther ETTN ETNUT ICVCONST False),
      (NextType_member, Element ''Type'' (MmUint 16) (HC ''Type'') (HC ''Type'') ICVCONST False)])
     []"

definition McPacket_IPv6 :: mc where [class_defs]:
  "McPacket_IPv6 = Mc ''McPacket_IPv6'' ([
      (Member, Reference (MmTopHdr ''McTopHdr_IPv6'') ''header''),
      (Member, Reference MmExtent_onIP ''exthdr''),
      (Member, Reference MmUpper_onIP ''upper'')])
     [Add MmPacket_onNull PF_NL_IPv6,
      Add MmPacket_onEther TP_NL_IPv6,
      Add MmUpper_onIP TP_Tunnel_IPv6]"

definition McTopHdr_IPv6 :: mc where [class_defs]:
  "McTopHdr_IPv6 = Mc ''McTopHdr_IPv6'' ([
      (Member, Element ''Version'' (MmUint 4) (Unique 6) (Unique 6) ICVCONST False),
      (Member, Element ''TrafficClass'' (MmUint 8) (Unique 0) EVALANY ICVZERO False),
      (Member, Element ''FlowLabel'' (MmUint 20) (Unique 0) EVALANY ICVZERO False),
      (Layerlength_member, Element ''PayloadLength'' (MmUint 16) (HC ''PayloadLength'') EVALANY ICVCONST False),
      (NextType_member, Element ''NextHeader'' (MmUint 8) (HC ''NextHeader'') (HC ''NextHeader'') ICVCONST False),
      (Member, Element ''HopLimit'' (MmUint 8) (Unique 64) EVALANY ICVZERO False),
      (Member, Element ''SourceAddress'' MmV6Addr V6TN V6NUT (ICVHC ''SourceAddress'') True),
      (Member, Element ''DestinationAddress'' MmV6Addr V6NUT V6TN (ICVHC ''DestinationAddress'') True)])
     []"

definition McHdr_Ext_HopByHop :: mc where [class_defs]:
  "McHdr_Ext_HopByHop = Mc ''McHdr_Ext_HopByHop'' ([
      (NextType_member, Element ''NextHeader'' (MmUint 8) (HC ''NextHeader'') (HC ''NextHeader'') ICVCONST False),
      (Length_member, Element ''HeaderExtLength'' (MmUint 8) (HC ''HeaderExtLength'') EVALANY ICVCONST False),
      (Member, Reference MmOption_onExt ''option'')])
     [Add MmExtent_onIP TP_Ext_HopByHop]"

definition McHdr_Ext_Destination :: mc where [class_defs]:
  "McHdr_Ext_Destination = Mc ''McHdr_Ext_Destination'' ([
      (NextType_member, Element ''NextHeader'' (MmUint 8) (HC ''NextHeader'') (HC ''NextHeader'') ICVCONST False),
      (Length_member, Element ''HeaderExtLength'' (MmUint 8) (HC ''HeaderExtLength'') EVALANY ICVCONST False),
      (Member, Reference MmOption_onExt ''option'')])
     [Add MmExtent_onIP TP_Ext_Destination]"

definition McHdr_Ext_Routing :: mc where [class_defs]:
  "McHdr_Ext_Routing = Mc ''McHdr_Ext_Routing'' ([
      (NextType_member, Element ''NextHeader'' (MmUint 8) (HC ''NextHeader'') (HC ''NextHeader'') ICVCONST False),
      (Length_member, Element ''HeaderExtLength'' (MmUint 8) (HC ''HeaderExtLength'') EVALANY ICVCONST False),
      (Member, Element ''RoutingType'' (MmUint 8) (Unique 0) (Unique 0) ICVCONST False),
      (Member, Element ''SegmentsLeft'' (MmUint 8) (Unique 0) (Unique 0) (ICVHC ''SegmentsLeft'') True),
      (Member, Element ''Reserved'' (MmUint 32) (Unique 0) (Unique 0) ICVCONST False),
      (Member, Multiple (Element ''Address'' MmV6Addr MUST MUST (ICVHC ''Address'') True) ''Address'')])
     [Add MmExtent_onIP TP_Ext_Routing]"

definition McHdr_Ext_Fragment :: mc where [class_defs]:
  "McHdr_Ext_Fragment = Mc ''McHdr_Ext_Fragment'' ([
      (NextType_member, Element ''NextHeader'' (MmUint 8) MUST MUST ICVCONST False),
      (Member, Element ''Reserved1'' (MmUint 8) (Unique 0) (Unique 0) ICVCONST False),
      (Member, Element ''FragmentOffset'' (MmUint 13) (Unique 0) (Unique 0) ICVCONST False),
      (Member, Element ''Reserved2'' (MmUint 2) (Unique 0) (Unique 0) ICVCONST False),
      (Member, Element ''MFlag'' (MmUint 1) (Unique 0) (Unique 0) ICVCONST False),
      (Member, Element ''Identification'' (MmUint 32) (Unique 0) (Unique 0) ICVCONST False)])
     [Add MmExtent_onIP TP_Ext_Fragment]"

definition McOpt_Ext_common_member :: "int \<Rightarrow> (role \<times> member) list" where [class_defs]:
  "McOpt_Ext_common_member type = [
      (Type_member, Element ''OptionType'' (MmUint 8) (Unique type) (Unique type) ICVCONST False),
      (Length_member, Element ''OptDataLength'' (MmUint 8) (HC ''OptDataLength'') EVALANY ICVCONST False)]"

definition McOpt_Ext_ANY :: mc where [class_defs]:
  "McOpt_Ext_ANY = Mc ''McOpt_Ext_ANY'' (McOpt_Ext_common_member (- 1) @ [
      (Member, Data ''data'' False (ICVHC ''OptExtData''))])
     [AddOther MmOption_onExt]"

definition McOpt_Ext_Pad1 :: mc where [class_defs]:
  "McOpt_Ext_Pad1 = Mc ''McOpt_Ext_Pad1'' ([
      (Type_member, Element ''OptionType'' (MmUint 8) (Unique TP_Opt_Ext_Pad1) (Unique TP_Opt_Ext_Pad1) ICVCONST False)])
     [Add MmOption_onExt TP_Opt_Ext_Pad1]"

definition McOpt_Ext_PadN :: mc where [class_defs]:
  "McOpt_Ext_PadN = Mc ''McOpt_Ext_PadN'' (McOpt_Ext_common_member TP_Opt_Ext_PadN @ [
      (Member, Data ''pad'' True (ICVHC ''OptExtData''))])
     [Add MmOption_onExt TP_Opt_Ext_PadN]"

definition McOpt_Ext_JumboPayload :: mc where [class_defs]:
  "McOpt_Ext_JumboPayload = Mc ''McOpt_Ext_JumboPayload'' (McOpt_Ext_common_member TP_Opt_Ext_JumboPayload @ [
      (Member, Element ''JumboPayloadLength'' (MmUint 32) (HC ''JumboPayloadLength'') EVALANY (ICVHC ''OptExtData'') False)])
     [Add MmOption_onExt TP_Opt_Ext_JumboPayload]"

definition McOpt_Ext_RouterAlert :: mc where [class_defs]:
  "McOpt_Ext_RouterAlert = Mc ''McOpt_Ext_RouterAlert'' (McOpt_Ext_common_member TP_Opt_Ext_RouterAlert @ [
      (Member, Element ''Value'' (MmUint 16) MUST MUST (ICVHC ''OptExtData'') False)])
     [Add MmOption_onExt TP_Opt_Ext_RouterAlert]"

definition McOpt_Ext_TunnelEncap :: mc where [class_defs]:
  "McOpt_Ext_TunnelEncap = Mc ''McOpt_Ext_TunnelEncap'' (McOpt_Ext_common_member TP_Opt_Ext_TunnelEncap @ [
      (Member, Element ''Limit'' (MmUint 8) (Unique 0) (Unique 0) (ICVHC ''OptExtData'') False)])
     [Add MmOption_onExt TP_Opt_Ext_TunnelEncap]"

definition McOpt_Ext_HomeAddress :: mc where [class_defs]:
  "McOpt_Ext_HomeAddress = Mc ''McOpt_Ext_HomeAddress'' (McOpt_Ext_common_member TP_Opt_Ext_HomeAddress @ [
      (Member, Element ''HomeAddress'' MmV6Addr MUST MUST (ICVHC ''HomeAddress'') True)])
     [Add MmOption_onExt TP_Opt_Ext_HomeAddress]"

definition McPacket_IPv4 :: mc where [class_defs]:
  "McPacket_IPv4 = Mc ''McPacket_IPv4'' ([
      (Member, Reference (MmTopHdr ''McTopHdr_IPv4'') ''header''),
      (Member, Reference MmExtent_onIP ''exthdr''),
      (Member, Reference MmUpper_onIP ''upper'')])
     [Add MmPacket_onNull PF_NL_IPv4,
      Add MmPacket_onEther TP_NL_IPv4,
      Add MmUpper_onIP TP_Tunnel_IPv4]"

definition McTopHdr_IPv4 :: mc where [class_defs]:
  "McTopHdr_IPv4 = Mc ''McTopHdr_IPv4'' ([
      (Member, Element ''Version'' (MmUint 4) (Unique 4) (Unique 4) ICVCONST False),
      (Length_member, Element ''IHL'' (MmUint 4) (HC ''IHL'') EVALANY ICVCONST False),
      (Member, Element ''TypeOfService'' (MmUint 8) (Unique 0) EVALANY ICVZERO False),
      (Layerlength_member, Element ''TotalLength'' (MmUint 16) (HC ''TotalLength'') EVALANY ICVCONST False),
      (Member, Element ''Identifier'' (MmUint 16) (Unique 0) EVALANY ICVCONST False),
      (Flags_member, Element ''Reserved'' (MmUint 1) (Unique 0) (Unique 0) ICVZERO False),
      (Flags_member, Element ''DF'' (MmUint 1) (Unique 0) EVALANY ICVZERO False),
      (Flags_member, Element ''MF'' (MmUint 1) (Unique 0) (Unique 0) ICVZERO False),
      (Fragoffset_member, Element ''FragmentOffset'' (MmUint 13) (Unique 0) (Unique 0) ICVZERO False),
      (Member, Element ''TTL'' (MmUint 8) (Unique 255) EVALANY ICVZERO False),
      (NextType_member, Element ''Protocol'' (MmUint 8) (HC ''Protocol'') (HC ''Protocol'') ICVCONST False),
      (Member, Element ''HeaderChecksum'' (MmIPChecksum 16 False) NoAuto NoAuto ICVZERO False),
      (Member, Element ''SourceAddress'' MmV4Addr MUST MUST ICVCONST True),
      (Member, Element ''DestinationAddress'' MmV4Addr MUST MUST (ICVHC ''DestinationAddress'') True),
      (Member, Reference MmOption_onIPv4 ''option''),
      (Member, Data ''Padding'' True ICVCONST)])
     []"

definition McUpp_NoNext :: mc where [class_defs]:
  "McUpp_NoNext = Mc ''McUpp_NoNext'' ([
      (Member, Data ''data'' False ICVCONST)])
     [Add MmUpper_onIP TP_Upp_NoNext]"

definition McUpp_VRRP_common_member :: "int \<Rightarrow> (role \<times> member) list" where [class_defs]:
  "McUpp_VRRP_common_member type = [
      (Version_member, Element ''Version'' (MmUint 4) (Unique type) (Unique type) ICVCONST False),
      (Member, Element ''Type'' (MmUint 4) (Unique 1) (Unique 1) ICVCONST False)]"

definition McUpp_VRRPvX :: mc where [class_defs]:
  "McUpp_VRRPvX = Mc ''McUpp_VRRPvX'' (McUpp_VRRP_common_member (- 1) @ [
      (Member, Data ''data'' False ICVCONST)])
     [AddOther MmHeader_onVRRP]"

definition McUpp_VRRPv2 :: mc where [class_defs]:
  "McUpp_VRRPv2 = Mc ''McUpp_VRRPv2'' (McUpp_VRRP_common_member 2 @ [
      (Member, Element ''ID'' (MmUint 8) (Unique 0) (Unique 0) ICVCONST False),
      (Member, Element ''Priority'' (MmUint 8) (Unique 0) (Unique 0) ICVCONST False),
      (Member, Element ''Count'' (MmUint 8) (Unique 0) (Unique 0) ICVCONST False),
      (Member, Element ''AuthType'' (MmUint 8) (Unique 0) (Unique 0) ICVCONST False),
      (Member, Element ''Interval'' (MmUint 8) (Unique 0) (Unique 0) ICVCONST False),
      (Member, Element ''Checksum'' (MmUppChecksum 16 False False) NoAuto NoAuto ICVCONST False),
      (Member, Multiple (Element ''Address'' MmV4Addr MUST MUST ICVCONST False) ''Address'')])
     [Add MmHeader_onVRRP 2]"

definition McUpp_VRRPv3 :: mc where [class_defs]:
  "McUpp_VRRPv3 = Mc ''McUpp_VRRPv3'' (McUpp_VRRP_common_member 3 @ [
      (Member, Element ''ID'' (MmUint 8) (Unique 0) (Unique 0) ICVCONST False),
      (Member, Element ''Priority'' (MmUint 8) (Unique 0) (Unique 0) ICVCONST False),
      (Member, Element ''Count'' (MmUint 8) (Unique 0) (Unique 0) ICVCONST False),
      (Member, Element ''Reserved'' (MmUint 4) (Unique 0) (Unique 0) ICVCONST False),
      (Member, Element ''Interval'' (MmUint 12) (Unique 0) (Unique 0) ICVCONST False),
      (Member, Element ''Checksum'' (MmUppChecksum 16 False True) NoAuto NoAuto ICVCONST False),
      (Member, Multiple (Element ''Address'' MmV6Addr MUST MUST ICVCONST False) ''Address'')])
     [Add MmHeader_onVRRP 3]"

definition McUpp_ICMPv6_common_member :: "int \<Rightarrow> (role \<times> member) list" where [class_defs]:
  "McUpp_ICMPv6_common_member type = [
      (Type_member, Element ''Type'' (MmUint 8) (Unique type) (Unique type) ICVCONST False),
      (Code_member, Element ''Code'' (MmUint 8) (Unique 0) (Unique 0) ICVCONST False),
      (Member, Element ''Checksum'' (MmUppChecksum 16 False True) NoAuto NoAuto ICVCONST False)]"

definition McUpp_ICMPv6_ANY :: mc where [class_defs]:
  "McUpp_ICMPv6_ANY = Mc ''McUpp_ICMPv6_ANY'' (McUpp_ICMPv6_common_member (- 1) @ [
      (Member, Data ''data'' False ICVCONST)])
     [AddOther MmHeader_onICMPv6]"

definition McUpp_ICMPv6_RS :: mc where [class_defs]:
  "McUpp_ICMPv6_RS = Mc ''McUpp_ICMPv6_RS'' (McUpp_ICMPv6_common_member TP_ICMPv6_RS @ [
      (Member, Element ''Reserved'' (MmUint 32) (Unique 0) (Unique 0) ICVCONST False),
      (Member, Reference MmOption_onICMPv6 ''option'')])
     [Add MmHeader_onICMPv6 TP_ICMPv6_RS]"

definition McUpp_ICMPv6_RA :: mc where [class_defs]:
  "McUpp_ICMPv6_RA = Mc ''McUpp_ICMPv6_RA'' (McUpp_ICMPv6_common_member TP_ICMPv6_RA @ [
      (Member, Element ''CurHopLimit'' (MmUint 8) (Unique 0) (Unique 0) ICVCONST False),
      (Member, Element ''MFlag'' (MmUint 1) (Unique 0) (Unique 0) ICVCONST False),
      (Member, Element ''OFlag'' (MmUint 1) (Unique 0) (Unique 0) ICVCONST False),
      (Member, Element ''HFlag'' (MmUint 1) (Unique 0) (Unique 0) ICVCONST False),
      (Member, Element ''Preference'' (MmUint 2) (Unique 0) (Unique 0) ICVCONST False),
      (Member, Element ''Reserved'' (MmUint 3) (Unique 0) (Unique 0) ICVCONST False),
      (Member, Element ''LifeTime'' (MmUint 16) (Unique 0) (Unique 0) ICVCONST False),
      (Member, Element ''ReachableTime'' (MmUint 32) (Unique 0) (Unique 0) ICVCONST False),
      (Member, Element ''RetransTimer'' (MmUint 32) (Unique 0) (Unique 0) ICVCONST False),
      (Member, Reference MmOption_onICMPv6 ''option'')])
     [Add MmHeader_onICMPv6 TP_ICMPv6_RA]"

definition McUpp_ICMPv6_NS :: mc where [class_defs]:
  "McUpp_ICMPv6_NS = Mc ''McUpp_ICMPv6_NS'' (McUpp_ICMPv6_common_member TP_ICMPv6_NS @ [
      (Member, Element ''Reserved'' (MmUint 32) (Unique 0) (Unique 0) ICVCONST False),
      (Member, Element ''TargetAddress'' MmV6Addr V6NUT V6TN ICVCONST False),
      (Member, Reference MmOption_onICMPv6 ''option'')])
     [Add MmHeader_onICMPv6 TP_ICMPv6_NS]"

definition McUpp_ICMPv6_NA :: mc where [class_defs]:
  "McUpp_ICMPv6_NA = Mc ''McUpp_ICMPv6_NA'' (McUpp_ICMPv6_common_member TP_ICMPv6_NA @ [
      (Member, Element ''RFlag'' (MmUint 1) (Unique 0) (Unique 0) ICVCONST False),
      (Member, Element ''SFlag'' (MmUint 1) (Unique 0) (Unique 0) ICVCONST False),
      (Member, Element ''OFlag'' (MmUint 1) (Unique 0) (Unique 0) ICVCONST False),
      (Member, Element ''Reserved'' (MmUint 29) (Unique 0) (Unique 0) ICVCONST False),
      (Member, Element ''TargetAddress'' MmV6Addr V6TN V6NUT ICVCONST False),
      (Member, Reference MmOption_onICMPv6 ''option'')])
     [Add MmHeader_onICMPv6 TP_ICMPv6_NA]"

definition McUpp_ICMPv6_Redirect :: mc where [class_defs]:
  "McUpp_ICMPv6_Redirect = Mc ''McUpp_ICMPv6_Redirect'' (McUpp_ICMPv6_common_member TP_ICMPv6_Redirect @ [
      (Member, Element ''Reserved'' (MmUint 32) (Unique 0) (Unique 0) ICVCONST False),
      (Member, Element ''TargetAddress'' MmV6Addr MUST MUST ICVCONST False),
      (Member, Element ''DestinationAddress'' MmV6Addr MUST MUST ICVCONST False),
      (Member, Reference MmOption_onICMPv6 ''option'')])
     [Add MmHeader_onICMPv6 TP_ICMPv6_Redirect]"

definition McUpp_ICMPv6_MLDReport :: mc where [class_defs]:
  "McUpp_ICMPv6_MLDReport = Mc ''McUpp_ICMPv6_MLDReport'' (McUpp_ICMPv6_common_member TP_ICMPv6_MLDReport @ [
      (Member, Element ''MaxResponseDelay'' (MmUint 16) (Unique 0) (Unique 0) ICVCONST False),
      (Member, Element ''Reserved'' (MmUint 16) (Unique 0) (Unique 0) ICVCONST False),
      (Member, Element ''MulticastAddress'' MmV6Addr MUST MUST ICVCONST False)])
     [Add MmHeader_onICMPv6 TP_ICMPv6_MLDReport]"

definition McUpp_ICMPv6_MLDDone :: mc where [class_defs]:
  "McUpp_ICMPv6_MLDDone = Mc ''McUpp_ICMPv6_MLDDone'' (McUpp_ICMPv6_common_member TP_ICMPv6_MLDDone @ [
      (Member, Element ''MaxResponseDelay'' (MmUint 16) (Unique 0) (Unique 0) ICVCONST False),
      (Member, Element ''Reserved'' (MmUint 16) (Unique 0) (Unique 0) ICVCONST False),
      (Member, Element ''MulticastAddress'' MmV6Addr MUST MUST ICVCONST False)])
     [Add MmHeader_onICMPv6 TP_ICMPv6_MLDDone]"

definition McUpp_ICMPv6_EchoRequest :: mc where [class_defs]:
  "McUpp_ICMPv6_EchoRequest = Mc ''McUpp_ICMPv6_EchoRequest'' (McUpp_ICMPv6_common_member TP_ICMPv6_EchoRequest @ [
      (Member, Element ''Identifier'' (MmUint 16) (Unique 0) (Unique 0) ICVCONST False),
      (Member, Element ''SequenceNumber'' (MmUint 16) (Unique 0) (Unique 0) ICVCONST False),
      (Member, Reference MmPayload ''payload'')])
     [Add MmHeader_onICMPv6 TP_ICMPv6_EchoRequest]"

definition McUpp_ICMPv6_EchoReply :: mc where [class_defs]:
  "McUpp_ICMPv6_EchoReply = Mc ''McUpp_ICMPv6_EchoReply'' (McUpp_ICMPv6_common_member TP_ICMPv6_EchoReply @ [
      (Member, Element ''Identifier'' (MmUint 16) (Unique 0) (Unique 0) ICVCONST False),
      (Member, Element ''SequenceNumber'' (MmUint 16) (Unique 0) (Unique 0) ICVCONST False),
      (Member, Reference MmPayload ''payload'')])
     [Add MmHeader_onICMPv6 TP_ICMPv6_EchoReply]"

definition McUpp_ICMPv6_PacketTooBig :: mc where [class_defs]:
  "McUpp_ICMPv6_PacketTooBig = Mc ''McUpp_ICMPv6_PacketTooBig'' (McUpp_ICMPv6_common_member TP_ICMPv6_PacketTooBig @ [
      (Member, Element ''MTU'' (MmUint 32) MUST MUST ICVCONST False),
      (Member, Reference MmPayload ''payload'')])
     [Add MmHeader_onICMPv6 TP_ICMPv6_PacketTooBig]"

definition McUpp_ICMPv6_DestinationUnreachable :: mc where [class_defs]:
  "McUpp_ICMPv6_DestinationUnreachable = Mc ''McUpp_ICMPv6_DestinationUnreachable'' (McUpp_ICMPv6_common_member TP_ICMPv6_DestinationUnreachable @ [
      (Member, Element ''Unused'' (MmUint 32) (Unique 0) (Unique 0) ICVCONST False),
      (Member, Reference MmPayload ''payload'')])
     [Add MmHeader_onICMPv6 TP_ICMPv6_DestinationUnreachable]"

definition McUpp_ICMPv6_TimeExceeded :: mc where [class_defs]:
  "McUpp_ICMPv6_TimeExceeded = Mc ''McUpp_ICMPv6_TimeExceeded'' (McUpp_ICMPv6_common_member TP_ICMPv6_TimeExceeded @ [
      (Member, Element ''Unused'' (MmUint 32) (Unique 0) (Unique 0) ICVCONST False),
      (Member, Reference MmPayload ''payload'')])
     [Add MmHeader_onICMPv6 TP_ICMPv6_TimeExceeded]"

definition McUpp_ICMPv6_ParameterProblem :: mc where [class_defs]:
  "McUpp_ICMPv6_ParameterProblem = Mc ''McUpp_ICMPv6_ParameterProblem'' (McUpp_ICMPv6_common_member TP_ICMPv6_ParameterProblem @ [
      (Member, Element ''Pointer'' (MmUint 32) MUST MUST ICVCONST False),
      (Member, Reference MmPayload ''payload'')])
     [Add MmHeader_onICMPv6 TP_ICMPv6_ParameterProblem]"

definition McUpp_ICMPv6_RouterRenumbering :: mc where [class_defs]:
  "McUpp_ICMPv6_RouterRenumbering = Mc ''McUpp_ICMPv6_RouterRenumbering'' (McUpp_ICMPv6_common_member TP_ICMPv6_RouterRenumbering @ [
      (Member, Element ''SequenceNumber'' (MmUint 32) (Unique 0) (Unique 0) ICVCONST False),
      (Member, Element ''SegmentNumber'' (MmUint 8) (Unique 0) (Unique 0) ICVCONST False),
      (Member, Element ''TFlag'' (MmUint 1) (Unique 0) (Unique 0) ICVCONST False),
      (Member, Element ''RFlag'' (MmUint 1) (Unique 0) (Unique 0) ICVCONST False),
      (Member, Element ''AFlag'' (MmUint 1) (Unique 0) (Unique 0) ICVCONST False),
      (Member, Element ''SFlag'' (MmUint 1) (Unique 0) (Unique 0) ICVCONST False),
      (Member, Element ''PFlag'' (MmUint 1) (Unique 0) (Unique 0) ICVCONST False),
      (Member, Element ''Reserved1'' (MmUint 3) (Unique 0) (Unique 0) ICVCONST False),
      (Member, Element ''MaxDelay'' (MmUint 16) (Unique 0) (Unique 0) ICVCONST False),
      (Member, Element ''Reserved2'' (MmUint 32) (Unique 0) (Unique 0) ICVCONST False),
      (Member, Reference MmPayload ''payload'')])
     [Add MmHeader_onICMPv6 TP_ICMPv6_RouterRenumbering]"

definition McUpp_ICMPv6_HAADRequest :: mc where [class_defs]:
  "McUpp_ICMPv6_HAADRequest = Mc ''McUpp_ICMPv6_HAADRequest'' (McUpp_ICMPv6_common_member TP_ICMPv6_HAADRequest @ [
      (Member, Element ''Identifier'' (MmUint 16) (Unique 0) (Unique 0) ICVCONST False),
      (Member, Element ''RFlag'' (MmUint 1) (Unique 0) (Unique 0) ICVCONST False),
      (Member, Element ''Reserved'' (MmUint 15) (Unique 0) (Unique 0) ICVCONST False)])
     [Add MmHeader_onICMPv6 TP_ICMPv6_HAADRequest]"

definition McUpp_ICMPv6_HAADReply :: mc where [class_defs]:
  "McUpp_ICMPv6_HAADReply = Mc ''McUpp_ICMPv6_HAADReply'' (McUpp_ICMPv6_common_member TP_ICMPv6_HAADReply @ [
      (Member, Element ''Identifier'' (MmUint 16) (Unique 0) (Unique 0) ICVCONST False),
      (Member, Element ''RFlag'' (MmUint 1) (Unique 0) (Unique 0) ICVCONST False),
      (Member, Element ''Reserved'' (MmUint 15) (Unique 0) (Unique 0) ICVCONST False),
      (Member, Multiple (Element ''Address'' MmV6Addr MUST MUST ICVCONST False) ''Address'')])
     [Add MmHeader_onICMPv6 TP_ICMPv6_HAADReply]"

definition McUpp_ICMPv6_MobilePrefixSolicit :: mc where [class_defs]:
  "McUpp_ICMPv6_MobilePrefixSolicit = Mc ''McUpp_ICMPv6_MobilePrefixSolicit'' (McUpp_ICMPv6_common_member TP_ICMPv6_MobilePrefixSolicit @ [
      (Member, Element ''Identifier'' (MmUint 16) (Unique 0) (Unique 0) ICVCONST False),
      (Member, Element ''Reserved'' (MmUint 16) (Unique 0) (Unique 0) ICVCONST False)])
     [Add MmHeader_onICMPv6 TP_ICMPv6_MobilePrefixSolicit]"

definition McUpp_ICMPv6_MobilePrefixAdvertise :: mc where [class_defs]:
  "McUpp_ICMPv6_MobilePrefixAdvertise = Mc ''McUpp_ICMPv6_MobilePrefixAdvertise'' (McUpp_ICMPv6_common_member TP_ICMPv6_MobilePrefixAdvertise @ [
      (Member, Element ''Identifier'' (MmUint 16) (Unique 0) (Unique 0) ICVCONST False),
      (Member, Element ''MFlag'' (MmUint 1) (Unique 0) (Unique 0) ICVCONST False),
      (Member, Element ''OFlag'' (MmUint 1) (Unique 0) (Unique 0) ICVCONST False),
      (Member, Element ''Reserved'' (MmUint 14) (Unique 0) (Unique 0) ICVCONST False),
      (Member, Reference MmOption_onICMPv6 ''option'')])
     [Add MmHeader_onICMPv6 TP_ICMPv6_MobilePrefixAdvertise]"

definition McOpt_ICMPv6_common_member :: "int \<Rightarrow> (role \<times> member) list" where [class_defs]:
  "McOpt_ICMPv6_common_member type = [
      (Type_member, Element ''Type'' (MmUint 8) (Unique type) (Unique type) ICVCONST False),
      (Length_member, Element ''Length'' (MmUint 8) (HC ''Length'') EVALANY ICVCONST False)]"

definition McOpt_ICMPv6_ANY :: mc where [class_defs]:
  "McOpt_ICMPv6_ANY = Mc ''McOpt_ICMPv6_ANY'' (McOpt_ICMPv6_common_member (- 1) @ [
      (Member, Data ''data'' False ICVCONST)])
     [AddOther MmOption_onICMPv6]"

definition McOpt_ICMPv6_SLL :: mc where [class_defs]:
  "McOpt_ICMPv6_SLL = Mc ''McOpt_ICMPv6_SLL'' (McOpt_ICMPv6_common_member TP_Opt_ICMPv6_SLL @ [
      (Member, Element ''LinkLayerAddress'' MmEther ETNUT ETTN ICVCONST False)])
     [Add MmOption_onICMPv6 TP_Opt_ICMPv6_SLL]"

definition McOpt_ICMPv6_TLL :: mc where [class_defs]:
  "McOpt_ICMPv6_TLL = Mc ''McOpt_ICMPv6_TLL'' (McOpt_ICMPv6_common_member TP_Opt_ICMPv6_TLL @ [
      (Member, Element ''LinkLayerAddress'' MmEther ETNUT ETTN ICVCONST False)])
     [Add MmOption_onICMPv6 TP_Opt_ICMPv6_TLL]"

definition McOpt_ICMPv6_Prefix :: mc where [class_defs]:
  "McOpt_ICMPv6_Prefix = Mc ''McOpt_ICMPv6_Prefix'' (McOpt_ICMPv6_common_member TP_Opt_ICMPv6_Prefix @ [
      (Member, Element ''PrefixLength'' (MmUint 8) (Unique 64) (Unique 64) ICVCONST False),
      (Member, Element ''LFlag'' (MmUint 1) (Unique 0) (Unique 0) ICVCONST False),
      (Member, Element ''AFlag'' (MmUint 1) (Unique 0) (Unique 0) ICVCONST False),
      (Member, Element ''RFlag'' (MmUint 1) (Unique 0) (Unique 0) ICVCONST False),
      (Member, Element ''Reserved1'' (MmUint 5) (Unique 0) (Unique 0) ICVCONST False),
      (Member, Element ''ValidLifetime'' (MmUint 32) (Unique 0) (Unique 0) ICVCONST False),
      (Member, Element ''PreferredLifetime'' (MmUint 32) (Unique 0) (Unique 0) ICVCONST False),
      (Member, Element ''Reserved2'' (MmUint 32) (Unique 0) (Unique 0) ICVCONST False),
      (Member, Element ''Prefix'' MmV6Addr MUST MUST ICVCONST False)])
     [Add MmOption_onICMPv6 TP_Opt_ICMPv6_Prefix]"

definition McOpt_ICMPv6_MTU :: mc where [class_defs]:
  "McOpt_ICMPv6_MTU = Mc ''McOpt_ICMPv6_MTU'' (McOpt_ICMPv6_common_member TP_Opt_ICMPv6_MTU @ [
      (Member, Element ''Reserved'' (MmUint 16) (Unique 0) (Unique 0) ICVCONST False),
      (Member, Element ''MTU'' (MmUint 32) (Unique 1500) (Unique 1500) ICVCONST False)])
     [Add MmOption_onICMPv6 TP_Opt_ICMPv6_MTU]"

definition McOpt_ICMPv6_Redirected :: mc where [class_defs]:
  "McOpt_ICMPv6_Redirected = Mc ''McOpt_ICMPv6_Redirected'' (McOpt_ICMPv6_common_member TP_Opt_ICMPv6_Redirected @ [
      (Member, Element ''Reserved1'' (MmUint 16) (Unique 0) (Unique 0) ICVCONST False),
      (Member, Element ''Reserved2'' (MmUint 32) (Unique 0) (Unique 0) ICVCONST False),
      (Member, Reference MmPayload ''payload'')])
     [Add MmOption_onICMPv6 TP_Opt_ICMPv6_Redirected]"

definition McOpt_ICMPv6_AdvInterval :: mc where [class_defs]:
  "McOpt_ICMPv6_AdvInterval = Mc ''McOpt_ICMPv6_AdvInterval'' (McOpt_ICMPv6_common_member TP_Opt_ICMPv6_AdvInterval @ [
      (Member, Element ''Reserved'' (MmUint 16) (Unique 0) (Unique 0) ICVCONST False),
      (Member, Element ''Interval'' (MmUint 32) (Unique 0) (Unique 0) ICVCONST False)])
     [Add MmOption_onICMPv6 TP_Opt_ICMPv6_AdvInterval]"

definition McOpt_ICMPv6_HomeAgentInfo :: mc where [class_defs]:
  "McOpt_ICMPv6_HomeAgentInfo = Mc ''McOpt_ICMPv6_HomeAgentInfo'' (McOpt_ICMPv6_common_member TP_Opt_ICMPv6_HomeAgentInfo @ [
      (Member, Element ''RFlag'' (MmUint 1) (Unique 0) (Unique 0) ICVCONST False),
      (Member, Element ''Reserved'' (MmUint 15) (Unique 0) (Unique 0) ICVCONST False),
      (Member, Element ''Preference'' (MmUint 16) (Unique 0) (Unique 0) ICVCONST False),
      (Member, Element ''Lifetime'' (MmUint 16) (Unique 0) (Unique 0) ICVCONST False)])
     [Add MmOption_onICMPv6 TP_Opt_ICMPv6_HomeAgentInfo]"

definition McOpt_ICMPv6_RouteInfo :: mc where [class_defs]:
  "McOpt_ICMPv6_RouteInfo = Mc ''McOpt_ICMPv6_RouteInfo'' (McOpt_ICMPv6_common_member TP_Opt_ICMPv6_RouteInfo @ [
      (Member, Element ''PrefixLength'' (MmUint 8) (Unique 64) (Unique 64) ICVCONST False),
      (Member, Element ''Reserved1'' (MmUint 3) (Unique 0) (Unique 0) ICVCONST False),
      (Member, Element ''Preference'' (MmUint 2) (Unique 0) (Unique 0) ICVCONST False),
      (Member, Element ''Reserved2'' (MmUint 3) (Unique 0) (Unique 0) ICVCONST False),
      (Member, Element ''RouteLifetime'' (MmUint 32) (Unique 0) (Unique 0) ICVCONST False),
      (Member, Element ''Prefix'' MmV6Addr MUST MUST ICVCONST False)])
     [Add MmOption_onICMPv6 TP_Opt_ICMPv6_RouteInfo]"

definition McHdr_Ext_MH_common_member :: "(role \<times> member) list" where [class_defs]:
  "McHdr_Ext_MH_common_member = [
      (NextType_member, Element ''NextHeader'' (MmUint 8) (HC ''NextHeader'') (HC ''NextHeader'') ICVCONST False),
      (Length_member, Element ''HeaderExtLength'' (MmUint 8) (HC ''HeaderExtLength'') EVALANY ICVCONST False),
      (Type_member, Element ''Type'' (MmUint 8) (HC ''Type'') (HC ''Type'') ICVCONST False),
      (Member, Element ''Reserved1'' (MmUint 8) (Unique 0) (Unique 0) ICVCONST False),
      (Member, Element ''Checksum'' (MmUppChecksum 16 False True) NoAuto NoAuto ICVCONST False)]"

definition McHdr_Ext_MH_ANY :: mc where [class_defs]:
  "McHdr_Ext_MH_ANY = Mc ''McHdr_Ext_MH_ANY'' (McHdr_Ext_MH_common_member @ [
      (Member, Data ''data'' False ICVCONST)])
     [AddOther MmHeader_onMH]"

definition McHdr_Ext_MH_BRR :: mc where [class_defs]:
  "McHdr_Ext_MH_BRR = Mc ''McHdr_Ext_MH_BRR'' (McHdr_Ext_MH_common_member @ [
      (Member, Element ''Reserved2'' (MmUint 16) (Unique 0) (Unique 0) ICVCONST False),
      (Member, Reference MmOption_onMH ''option'')])
     [Add MmHeader_onMH TP_Ext_MH_BRR]"

definition McHdr_Ext_MH_HoTI :: mc where [class_defs]:
  "McHdr_Ext_MH_HoTI = Mc ''McHdr_Ext_MH_HoTI'' (McHdr_Ext_MH_common_member @ [
      (Member, Element ''Reserved2'' (MmUint 16) (Unique 0) (Unique 0) ICVCONST False),
      (Member, Element ''InitCookie'' MmMH_Cookie64 ZEROS ZEROS ICVCONST False),
      (Member, Reference MmOption_onMH ''option'')])
     [Add MmHeader_onMH TP_Ext_MH_HoTI]"

definition McHdr_Ext_MH_CoTI :: mc where [class_defs]:
  "McHdr_Ext_MH_CoTI = Mc ''McHdr_Ext_MH_CoTI'' (McHdr_Ext_MH_common_member @ [
      (Member, Element ''Reserved2'' (MmUint 16) (Unique 0) (Unique 0) ICVCONST False),
      (Member, Element ''InitCookie'' MmMH_Cookie64 ZEROS ZEROS ICVCONST False),
      (Member, Reference MmOption_onMH ''option'')])
     [Add MmHeader_onMH TP_Ext_MH_CoTI]"

definition McHdr_Ext_MH_HoT :: mc where [class_defs]:
  "McHdr_Ext_MH_HoT = Mc ''McHdr_Ext_MH_HoT'' (McHdr_Ext_MH_common_member @ [
      (Member, Element ''Index'' (MmUint 16) (Unique 0) (Unique 0) ICVCONST False),
      (Member, Element ''InitCookie'' MmMH_Cookie64 ZEROS ZEROS ICVCONST False),
      (Member, Element ''KeygenToken'' MmMH_Cookie64 ZEROS ZEROS ICVCONST False),
      (Member, Reference MmOption_onMH ''option'')])
     [Add MmHeader_onMH TP_Ext_MH_HoT]"

definition McHdr_Ext_MH_CoT :: mc where [class_defs]:
  "McHdr_Ext_MH_CoT = Mc ''McHdr_Ext_MH_CoT'' (McHdr_Ext_MH_common_member @ [
      (Member, Element ''Index'' (MmUint 16) (Unique 0) (Unique 0) ICVCONST False),
      (Member, Element ''InitCookie'' MmMH_Cookie64 ZEROS ZEROS ICVCONST False),
      (Member, Element ''KeygenToken'' MmMH_Cookie64 ZEROS ZEROS ICVCONST False),
      (Member, Reference MmOption_onMH ''option'')])
     [Add MmHeader_onMH TP_Ext_MH_CoT]"

definition McHdr_Ext_MH_BU :: mc where [class_defs]:
  "McHdr_Ext_MH_BU = Mc ''McHdr_Ext_MH_BU'' (McHdr_Ext_MH_common_member @ [
      (Member, Element ''SequenceNumber'' (MmUint 16) (Unique 0) (Unique 0) ICVCONST False),
      (Member, Element ''AFlag'' (MmUint 1) (Unique 0) (Unique 0) ICVCONST False),
      (Member, Element ''HFlag'' (MmUint 1) (Unique 0) (Unique 0) ICVCONST False),
      (Member, Element ''LFlag'' (MmUint 1) (Unique 0) (Unique 0) ICVCONST False),
      (Member, Element ''KFlag'' (MmUint 1) (Unique 0) (Unique 0) ICVCONST False),
      (Member, Element ''MFlag'' (MmUint 1) (Unique 0) (Unique 0) ICVCONST False),
      (Member, Element ''RFlag'' (MmUint 1) (Unique 0) (Unique 0) ICVCONST False),
      (Member, Element ''Reserved2'' (MmUint 10) (Unique 0) (Unique 0) ICVCONST False),
      (Member, Element ''Lifetime'' (MmUint 16) (Unique 0) (Unique 0) ICVCONST False),
      (Member, Reference MmOption_onMH ''option'')])
     [Add MmHeader_onMH TP_Ext_MH_BU]"

definition McHdr_Ext_MH_BA :: mc where [class_defs]:
  "McHdr_Ext_MH_BA = Mc ''McHdr_Ext_MH_BA'' (McHdr_Ext_MH_common_member @ [
      (Member, Element ''Status'' (MmBAstatus 8) (Unique 0) (Unique 0) ICVCONST False),
      (Member, Element ''KFlag'' (MmUint 1) (Unique 0) (Unique 0) ICVCONST False),
      (Member, Element ''RFlag'' (MmUint 1) (Unique 0) (Unique 0) ICVCONST False),
      (Member, Element ''Reserved2'' (MmUint 6) (Unique 0) (Unique 0) ICVCONST False),
      (Member, Element ''SequenceNumber'' (MmUint 16) (Unique 0) (Unique 0) ICVCONST False),
      (Member, Element ''Lifetime'' (MmUint 16) (Unique 0) (Unique 0) ICVCONST False),
      (Member, Reference MmOption_onMH ''option'')])
     [Add MmHeader_onMH TP_Ext_MH_BA]"

definition McHdr_Ext_MH_BE :: mc where [class_defs]:
  "McHdr_Ext_MH_BE = Mc ''McHdr_Ext_MH_BE'' (McHdr_Ext_MH_common_member @ [
      (Member, Element ''Status'' (MmBEstatus 8) (Unique 0) (Unique 0) ICVCONST False),
      (Member, Element ''Reserved2'' (MmUint 8) (Unique 0) (Unique 0) ICVCONST False),
      (Member, Element ''Address'' MmV6Addr MUST MUST ICVCONST False),
      (Member, Reference MmOption_onMH ''option'')])
     [Add MmHeader_onMH TP_Ext_MH_BE]"

definition McOpt_MH_common_member :: "(role \<times> member) list" where [class_defs]:
  "McOpt_MH_common_member = [
      (Type_member, Element ''Type'' (MmUint 8) (HC ''Type'') (HC ''Type'') ICVCONST False),
      (Length_member, Element ''Length'' (MmUint 8) (HC ''Length'') EVALANY ICVCONST False)]"

definition McOpt_MH_ANY :: mc where [class_defs]:
  "McOpt_MH_ANY = Mc ''McOpt_MH_ANY'' (McOpt_MH_common_member @ [
      (Member, Data ''data'' False ICVCONST)])
     [AddOther MmOption_onMH]"

definition McOpt_MH_Pad1 :: mc where [class_defs]:
  "McOpt_MH_Pad1 = Mc ''McOpt_MH_Pad1'' ([
      (Type_member, Element ''Type'' (MmUint 8) (Unique TP_Opt_MH_Pad1) (Unique TP_Opt_MH_Pad1) ICVCONST False)])
     [Add MmOption_onMH TP_Opt_MH_Pad1]"

definition McOpt_MH_PadN :: mc where [class_defs]:
  "McOpt_MH_PadN = Mc ''McOpt_MH_PadN'' (McOpt_MH_common_member @ [
      (Member, Data ''pad'' False ICVCONST)])
     [Add MmOption_onMH TP_Opt_MH_PadN]"

definition McOpt_MH_BindingRefreshAdvice :: mc where [class_defs]:
  "McOpt_MH_BindingRefreshAdvice = Mc ''McOpt_MH_BindingRefreshAdvice'' (McOpt_MH_common_member @ [
      (Member, Element ''Interval'' (MmUint 16) (Unique 0) (Unique 0) ICVCONST False)])
     [Add MmOption_onMH TP_Opt_MH_BindingRefreshAdvice]"

definition McOpt_MH_AlternateCoA :: mc where [class_defs]:
  "McOpt_MH_AlternateCoA = Mc ''McOpt_MH_AlternateCoA'' (McOpt_MH_common_member @ [
      (Member, Element ''Address'' MmV6Addr MUST MUST ICVCONST False)])
     [Add MmOption_onMH TP_Opt_MH_AlternateCoA]"

definition McOpt_MH_NonceIndices :: mc where [class_defs]:
  "McOpt_MH_NonceIndices = Mc ''McOpt_MH_NonceIndices'' (McOpt_MH_common_member @ [
      (Member, Element ''HoNonceIndex'' (MmUint 16) (Unique 0) (Unique 0) ICVCONST False),
      (Member, Element ''CoNonceIndex'' (MmUint 16) (Unique 0) (Unique 0) ICVCONST False)])
     [Add MmOption_onMH TP_Opt_MH_NonceIndices]"

definition McOpt_MH_BindingAuthData :: mc where [class_defs]:
  "McOpt_MH_BindingAuthData = Mc ''McOpt_MH_BindingAuthData'' (McOpt_MH_common_member @ [
      (Member, Element ''Authenticator'' MmMH_Auth ZEROS ZEROS ICVCONST False)])
     [Add MmOption_onMH TP_Opt_MH_BindingAuthData]"

definition McOpt_MH_MobNetworkPrefix :: mc where [class_defs]:
  "McOpt_MH_MobNetworkPrefix = Mc ''McOpt_MH_MobNetworkPrefix'' (McOpt_MH_common_member @ [
      (Member, Element ''Reserved'' (MmUint 8) (Unique 0) (Unique 0) ICVCONST False),
      (Member, Element ''PrefixLength'' (MmUint 8) (Unique 0) (Unique 0) ICVCONST False),
      (Member, Element ''Prefix'' MmV6Addr MUST MUST ICVCONST False)])
     [Add MmOption_onMH TP_Opt_MH_MobNetworkPrefix]"

definition McUpp_UDP :: mc where [class_defs]:
  "McUpp_UDP = Mc ''McUpp_UDP'' ([
      (Member, Reference (MmTopHdr ''McTopHdr_UDP'') ''header''),
      (Member, Reference MmUpper_onUpper ''payload'')])
     [Add MmUpper_onIP TP_Upp_UDP]"

definition McTopHdr_UDP :: mc where [class_defs]:
  "McTopHdr_UDP = Mc ''McTopHdr_UDP'' ([
      (SrcPort_member, Element ''SourcePort'' (MmUint 16) (HC ''SourcePort'') (HC ''SourcePort'') ICVCONST False),
      (DstPort_member, Element ''DestinationPort'' (MmUint 16) (HC ''DestinationPort'') (HC ''DestinationPort'') ICVCONST False),
      (Layerlength_member, Element ''Length'' (MmUint 16) (HC ''Length'') EVALANY ICVCONST False),
      (Member, Element ''Checksum'' (MmUppChecksum 16 True True) NoAuto NoAuto ICVCONST False)])
     []"

definition McUpp_TCP :: mc where [class_defs]:
  "McUpp_TCP = Mc ''McUpp_TCP'' ([
      (Member, Reference (MmTopHdr ''McTopHdr_TCP'') ''header''),
      (Member, Reference MmPayload ''payload'')])
     [Add MmUpper_onIP TP_Upp_TCP]"

definition McTopHdr_TCP :: mc where [class_defs]:
  "McTopHdr_TCP = Mc ''McTopHdr_TCP'' ([
      (Member, Element ''SourcePort'' (MmUint 16) MUST MUST ICVCONST False),
      (Member, Element ''DestinationPort'' (MmUint 16) MUST MUST ICVCONST False),
      (Member, Element ''SequenceNumber'' (MmUint 32) (Unique 0) (Unique 0) ICVCONST False),
      (Member, Element ''AcknowledgmentNumber'' (MmUint 32) (Unique 0) (Unique 0) ICVCONST False),
      (Length_member, Element ''DataOffset'' (MmUint 4) (HC ''DataOffset'') EVALANY ICVCONST False),
      (Member, Element ''Reserverd'' (MmUint 6) (Unique 0) (Unique 0) ICVCONST False),
      (Member, Element ''URGFlag'' (MmUint 1) (Unique 0) (Unique 0) ICVCONST False),
      (Member, Element ''ACKFlag'' (MmUint 1) (Unique 0) (Unique 0) ICVCONST False),
      (Member, Element ''PSHFlag'' (MmUint 1) (Unique 0) (Unique 0) ICVCONST False),
      (Member, Element ''RSTFlag'' (MmUint 1) (Unique 0) (Unique 0) ICVCONST False),
      (Member, Element ''SYNFlag'' (MmUint 1) (Unique 0) (Unique 0) ICVCONST False),
      (Member, Element ''FINFlag'' (MmUint 1) (Unique 0) (Unique 0) ICVCONST False),
      (Member, Element ''Window'' (MmUint 16) (Unique 0) (Unique 0) ICVCONST False),
      (Member, Element ''Checksum'' (MmUppChecksum 16 False True) NoAuto NoAuto ICVCONST False),
      (Member, Element ''UrgentPointer'' (MmUint 16) (Unique 0) (Unique 0) ICVCONST False),
      (Member, Reference MmOption_onTCP ''option''),
      (Member, Data ''Padding'' True ICVCONST)])
     []"

definition McPacket_ARP :: mc where [class_defs]:
  "McPacket_ARP = Mc ''McPacket_ARP'' ([
      (Member, Reference (MmTopHdr ''McTopHdr_ARP'') ''header'')])
     [Add MmPacket_onEther TP_NL_ARP]"

definition McTopHdr_ARP :: mc where [class_defs]:
  "McTopHdr_ARP = Mc ''McTopHdr_ARP'' ([
      (Member, Element ''Hardware'' (MmUint 16) (Unique 1) (Unique 1) ICVCONST False),
      (Member, Element ''Protocol'' (MmUint 16) (Unique 2048) (Unique 2048) ICVCONST False),
      (Member, Element ''HLEN'' (MmUint 8) (Unique 6) (Unique 6) ICVCONST False),
      (Member, Element ''PLEN'' (MmUint 8) (Unique 4) (Unique 4) ICVCONST False),
      (Member, Element ''Operation'' (MmUint 16) (Unique 2) (Unique 1) ICVCONST False),
      (Member, Element ''SenderHAddr'' MmEther ETTN ETNUT ICVCONST False),
      (Member, Element ''SenderPAddr'' MmV4Addr (Unique 0) (Unique 0) ICVCONST False),
      (Member, Element ''TargetHAddr'' MmEther ETNUT ETTN ICVCONST False),
      (Member, Element ''TargetPAddr'' MmV4Addr (Unique 0) (Unique 0) ICVCONST False)])
     []"

definition McPacket_RARP :: mc where [class_defs]:
  "McPacket_RARP = Mc ''McPacket_RARP'' ([
      (Member, Reference (MmTopHdr ''McTopHdr_RARP'') ''header'')])
     [Add MmPacket_onEther TP_NL_RARP]"

definition McTopHdr_RARP :: mc where [class_defs]:
  "McTopHdr_RARP = Mc ''McTopHdr_RARP'' ([
      (Member, Element ''Hardware'' (MmUint 16) (Unique 1) (Unique 1) ICVCONST False),
      (Member, Element ''Protocol'' (MmUint 16) (Unique 2048) (Unique 2048) ICVCONST False),
      (Member, Element ''HLEN'' (MmUint 8) (Unique 6) (Unique 6) ICVCONST False),
      (Member, Element ''PLEN'' (MmUint 8) (Unique 4) (Unique 4) ICVCONST False),
      (Member, Element ''Operation'' (MmUint 16) (Unique 3) (Unique 4) ICVCONST False),
      (Member, Element ''SenderHAddr'' MmEther ETTN ETNUT ICVCONST False),
      (Member, Element ''SenderPAddr'' MmV4Addr (Unique 0) (Unique 0) ICVCONST False),
      (Member, Element ''TargetHAddr'' MmEther ETNUT ETTN ICVCONST False),
      (Member, Element ''TargetPAddr'' MmV4Addr (Unique 0) (Unique 0) ICVCONST False)])
     []"

definition McFrame_Null :: mc where [class_defs]:
  "McFrame_Null = Mc ''McFrame_Null'' ([(Member, Reference (MmTopHdr ''McTopHdr_Null'') ''header''),
      (Member, Reference MmPacket_onNull ''packet'')])
     [Add MmFrame TP_DL_Null]"

definition McTopHdr_Null :: mc where [class_defs]:
  "McTopHdr_Null = Mc ''McTopHdr_Null'' ([(NextType_member, Element ''Family'' (MmHostUint 32) (HC ''Family'') (HC ''Family'') ICVCONST False)])
     []"

definition McHdr_Ext_AH :: mc where [class_defs]:
  "McHdr_Ext_AH = Mc ''McHdr_Ext_AH'' ([
      (NextType_member, Element ''NextHeader'' (MmUint 8) (HC ''NextHeader'') (HC ''NextHeader'') ICVCONST False),
      (Length_member, Element ''PayloadLength'' (MmUint 8) (HC ''HeaderExtLength'') EVALANY ICVCONST False),
      (Member, Element ''Reserved'' (MmUint 16) (Unique 0) (Unique 0) ICVCONST False),
      (Member, Element ''SPI'' (MmSPI 32) (Unique 0) (Unique 0) ICVCONST False),
      (Member, Element ''SequenceNumber'' (MmUint 32) (Unique 0) (Unique 0) ICVCONST False),
      (Member, Opaque ''MmAlgorithm_onAH'' ''algorithm''),
      (Member, Opaque ''MmAH_ICV'' ''ICV''),
      (Member, Data ''Padding'' True ICVCONST)])
     [Add MmExtent_onIP TP_Ext_AH]"

definition McHdr_Ext_ESP :: mc where [class_defs]:
  "McHdr_Ext_ESP = Mc ''McHdr_Ext_ESP'' ([
      (Member, Element ''SPI'' (MmSPI 32) (Unique 0) (Unique 0) ICVCONST False),
      (Member, Element ''SequenceNumber'' (MmUint 32) (Unique 0) (Unique 0) ICVCONST False),
      (Member, Opaque ''MmAlgorithm_onESP'' ''algorithm''),
      (Member, Opaque ''MmESP_Crypted'' ''Crypted''),
      (Member, Opaque ''MmESP_ICV'' ''ICV'')])
     [Add MmExtent_onIP TP_Ext_ESP]"

definition McHdr_Ext_MH_ONE :: mc where [class_defs]:
  "McHdr_Ext_MH_ONE = Mc ''McHdr_Ext_MH_ONE'' ([(Member, Reference MmHeader_onMH ''mobility'')])
     [Add MmExtent_onIP TP_Ext_MH]"

definition McUpp_ICMPv6_ONE :: mc where [class_defs]:
  "McUpp_ICMPv6_ONE = Mc ''McUpp_ICMPv6_ONE'' ([(Member, Reference MmHeader_onICMPv6 ''header'')])
     [Add MmUpper_onIP TP_Upp_ICMPv6]"

definition McUpp_VRRP_ONE :: mc where [class_defs]:
  "McUpp_VRRP_ONE = Mc ''McUpp_VRRP_ONE'' ([(Member, Reference MmHeader_onVRRP ''header'')])
     [Add MmUpper_onIP TP_Upp_VRRP]"

definition McOpt_TCP_ANY :: mc where [class_defs]:
  "McOpt_TCP_ANY = Mc ''McOpt_TCP_ANY'' (McOpt_TCP_common_member (- 1) @ [(Member, Data ''data'' False ICVCONST)])
     [AddOther MmOption_onTCP]"

definition McOpt_TCP_EndofOptionList :: mc where [class_defs]:
  "McOpt_TCP_EndofOptionList = Mc ''McOpt_TCP_EndofOptionList'' ([(Kind_member, Element ''Kind'' (MmUint 8) (Unique TP_Opt_TCP_EndofOptionList) (Unique TP_Opt_TCP_EndofOptionList) ICVCONST False)])
     [Add MmOption_onTCP TP_Opt_TCP_EndofOptionList]"

definition McOpt_TCP_NoOperation :: mc where [class_defs]:
  "McOpt_TCP_NoOperation = Mc ''McOpt_TCP_NoOperation'' ([(Kind_member, Element ''Kind'' (MmUint 8) (Unique TP_Opt_TCP_NoOperation) (Unique TP_Opt_TCP_NoOperation) ICVCONST False)])
     [Add MmOption_onTCP TP_Opt_TCP_NoOperation]"

definition McOpt_TCP_MaximumSegmentSize :: mc where [class_defs]:
  "McOpt_TCP_MaximumSegmentSize = Mc ''McOpt_TCP_MaximumSegmentSize'' (McOpt_TCP_common_member TP_Opt_TCP_MaximumSegmentSize @ [
      (Member, Element ''MaxSegSize'' (MmUint 16) (Unique 0) (Unique 0) ICVCONST False)])
     [Add MmOption_onTCP TP_Opt_TCP_MaximumSegmentSize]"

definition McOpt_IPv4_ANY :: mc where [class_defs]:
  "McOpt_IPv4_ANY = Mc ''McOpt_IPv4_ANY'' (McOpt_IPv4_common_member (- 1) @ [(Member, Data ''data'' False ICVCONST)])
     [AddOther MmOption_onIPv4]"

definition McOpt_IPv4_EndofOptionList :: mc where [class_defs]:
  "McOpt_IPv4_EndofOptionList = Mc ''McOpt_IPv4_EndofOptionList'' ([(Type_member, Element ''Type'' (MmUint 8) (Unique TP_Opt_IPv4_EndofOptionList) (Unique TP_Opt_IPv4_EndofOptionList) ICVCONST False)])
     [Add MmOption_onIPv4 TP_Opt_IPv4_EndofOptionList]"

definition McOpt_IPv4_NoOperation :: mc where [class_defs]:
  "McOpt_IPv4_NoOperation = Mc ''McOpt_IPv4_NoOperation'' ([(Type_member, Element ''Type'' (MmUint 8) (Unique TP_Opt_IPv4_NoOperation) (Unique TP_Opt_IPv4_NoOperation) ICVCONST False)])
     [Add MmOption_onIPv4 TP_Opt_IPv4_NoOperation]"

definition McOpt_IPv4_LooseSourceRoute :: mc where [class_defs]:
  "McOpt_IPv4_LooseSourceRoute = Mc ''McOpt_IPv4_LooseSourceRoute'' (McOpt_IPv4_common_member TP_Opt_IPv4_LooseSourceRoute @ [
      (Member, Element ''Pointer'' (MmUint 8) (Unique 4) EVALANY ICVCONST True),
      (Member, Multiple (Element ''RouteData'' MmV4Addr MUST MUST ICVCONST True) ''RouteData'')])
     [Add MmOption_onIPv4 TP_Opt_IPv4_LooseSourceRoute]"

definition McOpt_IPv4_StrictSourceRoute :: mc where [class_defs]:
  "McOpt_IPv4_StrictSourceRoute = Mc ''McOpt_IPv4_StrictSourceRoute'' (McOpt_IPv4_common_member TP_Opt_IPv4_StrictSourceRoute @ [
      (Member, Element ''Pointer'' (MmUint 8) (Unique 4) EVALANY ICVCONST True),
      (Member, Multiple (Element ''RouteData'' MmV4Addr MUST MUST ICVCONST True) ''RouteData'')])
     [Add MmOption_onIPv4 TP_Opt_IPv4_StrictSourceRoute]"

definition McOpt_IPv4_RecordRoute :: mc where [class_defs]:
  "McOpt_IPv4_RecordRoute = Mc ''McOpt_IPv4_RecordRoute'' (McOpt_IPv4_common_member TP_Opt_IPv4_RecordRoute @ [
      (Member, Element ''Pointer'' (MmUint 8) (Unique 4) EVALANY ICVCONST False),
      (Member, Multiple (Element ''RouteData'' MmV4Addr MUST EVALANY ICVCONST False) ''RouteData'')])
     [Add MmOption_onIPv4 TP_Opt_IPv4_RecordRoute]"

definition McOpt_IPv4_Timestamp :: mc where [class_defs]:
  "McOpt_IPv4_Timestamp = Mc ''McOpt_IPv4_Timestamp'' (McOpt_IPv4_common_member TP_Opt_IPv4_Timestamp @ [
      (Member, Element ''Pointer'' (MmUint 8) (Unique 5) EVALANY ICVCONST False),
      (Member, Element ''Overflow'' (MmUint 4) (Unique 0) EVALANY ICVCONST False),
      (Member, Element ''Flag'' (MmUint 4) (Unique 0) EVALANY ICVCONST False),
      (Member, Multiple (Element ''Timestamp'' (MmUint 32) (Unique 0) EVALANY ICVCONST False) ''Timestamp'')])
     [Add MmOption_onIPv4 TP_Opt_IPv4_Timestamp]"

definition McOpt_IPv4_RouterAlert :: mc where [class_defs]:
  "McOpt_IPv4_RouterAlert = Mc ''McOpt_IPv4_RouterAlert'' (McOpt_IPv4_common_member TP_Opt_IPv4_RouterAlert @ [
      (Member, Element ''Value'' (MmUint 16) (Unique 0) (Unique 0) ICVCONST False)])
     [Add MmOption_onIPv4 TP_Opt_IPv4_RouterAlert]"

definition McAlgorithm_ESP :: mc where [class_defs]:
  "McAlgorithm_ESP = Mc ''McAlgorithm_ESP'' ([(Member, Opaque ''MmAlgo_Pad'' ''pad''),
      (Member, Opaque ''MmAlgo_Crypt'' ''crypt''),
      (Member, Opaque ''MmAlgo_Auth'' ''auth'')])
     []"

definition McAlgorithm_AH :: mc where [class_defs]:
  "McAlgorithm_AH = Mc ''McAlgorithm_AH'' ([(Member, Opaque ''MmAlgo_Auth'' ''auth'')])
     []"

text \<open>All of them.\<close>

definition VHdrNet_classes :: "mc list" where
  "VHdrNet_classes = [McPayload,
     McFrame_Ether,
     McTopHdr_Ether,
     McPacket_IPv6,
     McTopHdr_IPv6,
     McHdr_Ext_HopByHop,
     McHdr_Ext_Destination,
     McHdr_Ext_Routing,
     McHdr_Ext_Fragment,
     McOpt_Ext_ANY,
     McOpt_Ext_Pad1,
     McOpt_Ext_PadN,
     McOpt_Ext_JumboPayload,
     McOpt_Ext_RouterAlert,
     McOpt_Ext_TunnelEncap,
     McOpt_Ext_HomeAddress,
     McPacket_IPv4,
     McTopHdr_IPv4,
     McUpp_NoNext,
     McUpp_VRRPvX,
     McUpp_VRRPv2,
     McUpp_VRRPv3,
     McUpp_ICMPv6_ANY,
     McUpp_ICMPv6_RS,
     McUpp_ICMPv6_RA,
     McUpp_ICMPv6_NS,
     McUpp_ICMPv6_NA,
     McUpp_ICMPv6_Redirect,
     McUpp_ICMPv6_MLDReport,
     McUpp_ICMPv6_MLDDone,
     McUpp_ICMPv6_EchoRequest,
     McUpp_ICMPv6_EchoReply,
     McUpp_ICMPv6_PacketTooBig,
     McUpp_ICMPv6_DestinationUnreachable,
     McUpp_ICMPv6_TimeExceeded,
     McUpp_ICMPv6_ParameterProblem,
     McUpp_ICMPv6_RouterRenumbering,
     McUpp_ICMPv6_HAADRequest,
     McUpp_ICMPv6_HAADReply,
     McUpp_ICMPv6_MobilePrefixSolicit,
     McUpp_ICMPv6_MobilePrefixAdvertise,
     McOpt_ICMPv6_ANY,
     McOpt_ICMPv6_SLL,
     McOpt_ICMPv6_TLL,
     McOpt_ICMPv6_Prefix,
     McOpt_ICMPv6_MTU,
     McOpt_ICMPv6_Redirected,
     McOpt_ICMPv6_AdvInterval,
     McOpt_ICMPv6_HomeAgentInfo,
     McOpt_ICMPv6_RouteInfo,
     McHdr_Ext_MH_ANY,
     McHdr_Ext_MH_BRR,
     McHdr_Ext_MH_HoTI,
     McHdr_Ext_MH_CoTI,
     McHdr_Ext_MH_HoT,
     McHdr_Ext_MH_CoT,
     McHdr_Ext_MH_BU,
     McHdr_Ext_MH_BA,
     McHdr_Ext_MH_BE,
     McOpt_MH_ANY,
     McOpt_MH_Pad1,
     McOpt_MH_PadN,
     McOpt_MH_BindingRefreshAdvice,
     McOpt_MH_AlternateCoA,
     McOpt_MH_NonceIndices,
     McOpt_MH_BindingAuthData,
     McOpt_MH_MobNetworkPrefix,
     McUpp_UDP,
     McTopHdr_UDP,
     McUpp_TCP,
     McTopHdr_TCP,
     McPacket_ARP,
     McTopHdr_ARP,
     McPacket_RARP,
     McTopHdr_RARP,
     McFrame_Null,
     McTopHdr_Null,
     McHdr_Ext_AH,
     McHdr_Ext_ESP,
     McHdr_Ext_MH_ONE,
     McUpp_ICMPv6_ONE,
     McUpp_VRRP_ONE,
     McOpt_TCP_ANY,
     McOpt_TCP_EndofOptionList,
     McOpt_TCP_NoOperation,
     McOpt_TCP_MaximumSegmentSize,
     McOpt_IPv4_ANY,
     McOpt_IPv4_EndofOptionList,
     McOpt_IPv4_NoOperation,
     McOpt_IPv4_LooseSourceRoute,
     McOpt_IPv4_StrictSourceRoute,
     McOpt_IPv4_RecordRoute,
     McOpt_IPv4_Timestamp,
     McOpt_IPv4_RouterAlert,
     McAlgorithm_ESP,
     McAlgorithm_AH]"

end
