(* ===== verification/VHdrUpper.thy ===== *)
theory VHdrUpper
  imports VTypes
begin

text \<open>Classes of headers: ICMPv4, RIPng and DNS.\<close>

definition McUpp_ICMPv4_common_member :: "int \<Rightarrow> (role \<times> member) list" where [class_defs]:
  "McUpp_ICMPv4_common_member type = [
      (Type_member, Element ''Type'' (MmUint 8) (Unique type) (Unique type) ICVCONST False),
      (Member, Element ''Code'' (MmUint 8) (Unique 0) (Unique 0) ICVCONST False),
      (Member, Element ''Checksum'' (MmUppChecksum 16 False False) NoAuto NoAuto ICVCONST False)]"

definition McUpp_ICMPv4_ANY :: mc where [class_defs]:
  "McUpp_ICMPv4_ANY = Mc ''McUpp_ICMPv4_ANY'' (McUpp_ICMPv4_common_member (- 1) @ [
      (Member, Data ''data'' False ICVCONST)])
     [AddOther MmHeader_onICMPv4]"

definition McUpp_ICMPv4_DestinationUnreachable :: mc where [class_defs]:
  "McUpp_ICMPv4_DestinationUnreachable = Mc ''McUpp_ICMPv4_DestinationUnreachable'' (McUpp_ICMPv4_common_member TP_ICMPv4_DestinationUnreachable @ [
      (Member, Element ''Unused'' (MmUint 32) (Unique 0) (Unique 0) ICVCONST False),
      (Member, Reference MmPayload ''payload'')])
     [Add MmHeader_onICMPv4 TP_ICMPv4_DestinationUnreachable]"

definition McUpp_ICMPv4_TimeExceeded :: mc where [class_defs]:
  "McUpp_ICMPv4_TimeExceeded = Mc ''McUpp_ICMPv4_TimeExceeded'' (McUpp_ICMPv4_common_member TP_ICMPv4_TimeExceeded @ [
      (Member, Element ''Unused'' (MmUint 32) (Unique 0) (Unique 0) ICVCONST False),
      (Member, Reference MmPayload ''payload'')])
     [Add MmHeader_onICMPv4 TP_ICMPv4_TimeExceeded]"

definition McUpp_ICMPv4_ParameterProblem :: mc where [class_defs]:
  "McUpp_ICMPv4_ParameterProblem = Mc ''McUpp_ICMPv4_ParameterProblem'' (McUpp_ICMPv4_common_member TP_ICMPv4_ParameterProblem @ [
      (Member, Element ''Pointer'' (MmUint 8) (Unique 0) (Unique 0) ICVCONST False),
      (Member, Element ''Unused'' (MmUint 24) (Unique 0) (Unique 0) ICVCONST False),
      (Member, Reference MmPayload ''payload'')])
     [Add MmHeader_onICMPv4 TP_ICMPv4_ParameterProblem]"

definition McUpp_ICMPv4_Redirect :: mc where [class_defs]:
  "McUpp_ICMPv4_Redirect = Mc ''McUpp_ICMPv4_Redirect'' (McUpp_ICMPv4_common_member TP_ICMPv4_Redirect @ [
      (Member, Element ''GatewayInternetAddress'' MmV4Addr MUST MUST ICVCONST False),
      (Member, Reference MmPayload ''payload'')])
     [Add MmHeader_onICMPv4 TP_ICMPv4_Redirect]"

definition McUpp_ICMPv4_EchoRequest :: mc where [class_defs]:
  "McUpp_ICMPv4_EchoRequest = Mc ''McUpp_ICMPv4_EchoRequest'' (McUpp_ICMPv4_common_member TP_ICMPv4_EchoRequest @ [
      (Member, Element ''Identifier'' (MmUint 16) (Unique 0) (Unique 0) ICVCONST False),
      (Member, Element ''SequenceNumber'' (MmUint 16) (Unique 0) (Unique 0) ICVCONST False),
      (Member, Reference MmPayload ''payload'')])
     [Add MmHeader_onICMPv4 TP_ICMPv4_EchoRequest]"

definition McUpp_ICMPv4_EchoReply :: mc where [class_defs]:
  "McUpp_ICMPv4_EchoReply = Mc ''McUpp_ICMPv4_EchoReply'' (McUpp_ICMPv4_common_member TP_ICMPv4_EchoReply @ [
      (Member, Element ''Identifier'' (MmUint 16) (Unique 0) (Unique 0) ICVCONST False),
      (Member, Element ''SequenceNumber'' (MmUint 16) (Unique 0) (Unique 0) ICVCONST False),
      (Member, Reference MmPayload ''payload'')])
     [Add MmHeader_onICMPv4 TP_ICMPv4_EchoReply]"

definition McUdp_RIPng :: mc where [class_defs]:
  "McUdp_RIPng = Mc ''McUdp_RIPng'' ([
      (Member, Element ''Command'' (MmUint 8) (Unique 0) (Unique 0) ICVCONST False),
      (Member, Element ''Version'' (MmUint 8) (Unique 1) (Unique 1) ICVCONST False),
      (Member, Element ''Reserved'' (MmUint 16) (Unique 0) (Unique 0) ICVCONST False),
      (Member, Reference MmRTE_onRIPng ''rte'')])
     [Add MmUpper_onUpper TP_Udp_RIPng]"

definition McRIPng_RTE :: mc where [class_defs]:
  "McRIPng_RTE = Mc ''McRIPng_RTE'' ([
      (Member, Element ''Prefix'' MmV6Addr MUST MUST ICVCONST False),
      (Member, Element ''RouteTag'' (MmUint 16) (Unique 0) (Unique 0) ICVCONST False),
      (Member, Element ''PrefixLength'' (MmUint 8) (Unique 64) (Unique 64) ICVCONST False),
      (Member, Element ''Metric'' (MmUint 8) (Unique 0) (Unique 0) ICVCONST False)])
     [AddOther MmRTE_onRIPng]"

definition McUdp_DNS :: mc where [class_defs]:
  "McUdp_DNS = Mc ''McUdp_DNS'' ([
      (Member, Element ''Identifier'' (MmUint 16) (Unique 0) (Unique 0) ICVCONST False),
      (Member, Element ''QR'' (MmUint 1) (Unique 0) (Unique 0) ICVCONST False),
      (Member, Element ''Opcode'' (MmUint 4) (Unique 0) (Unique 0) ICVCONST False),
      (Member, Element ''AA'' (MmUint 1) (Unique 0) (Unique 0) ICVCONST False),
      (Member, Element ''TC'' (MmUint 1) (Unique 0) (Unique 0) ICVCONST False),
      (Member, Element ''RD'' (MmUint 1) (Unique 0) (Unique 0) ICVCONST False),
      (Member, Element ''RA'' (MmUint 1) (Unique 0) (Unique 0) ICVCONST False),
      (Member, Element ''Reserved'' (MmUint 3) (Unique 0) (Unique 0) ICVCONST False),
      (Member, Element ''RCode'' (MmUint 4) (Unique 0) (Unique 0) ICVCONST False),
      (QDCount_member, Element ''QDCount'' (MmUint 16) (HC ''QDCount'') EVALANY ICVCONST False),
      (ANCount_member, Element ''ANCount'' (MmUint 16) (HC ''ANCount'') EVALANY ICVCONST False),
      (NSCount_member, Element ''NSCount'' (MmUint 16) (HC ''NSCount'') EVALANY ICVCONST False),
      (ARCount_member, Element ''ARCount'' (MmUint 16) (HC ''ARCount'') EVALANY ICVCONST False),
      (Member, Reference MmQuestion_onDNS ''question''),
      (Member, Reference MmAnswer_onDNS ''answer''),
      (Member, Reference MmAuthority_onDNS ''authority''),
      (Member, Reference MmAdditional_onDNS ''additional'')])
     [Add MmUpper_onUpper TP_Udp_DNS]"

definition McDNS_Question :: mc where [class_defs]:
  "McDNS_Question = Mc ''McDNS_Question'' ([
      (Member, Reference MmEntry_onQuestion ''entry'')])
     [AddOther MmQuestion_onDNS]"

definition McDNS_Answer :: mc where [class_defs]:
  "McDNS_Answer = Mc ''McDNS_Answer'' ([
      (Member, Reference MmRR_onAnswer ''rr'')])
     [AddOther MmAnswer_onDNS]"

definition McDNS_Authority :: mc where [class_defs]:
  "McDNS_Authority = Mc ''McDNS_Authority'' ([
      (Member, Reference MmRR_onAuthority ''rr'')])
     [AddOther MmAuthority_onDNS]"

definition McDNS_Additional :: mc where [class_defs]:
  "McDNS_Additional = Mc ''McDNS_Additional'' ([
      (Member, Reference MmRR_onAdditional ''rr'')])
     [AddOther MmAdditional_onDNS]"

definition McDNS_QuestionEntry :: mc where [class_defs]:
  "McDNS_QuestionEntry = Mc ''McDNS_QuestionEntry'' ([
      (Member, Element ''Name'' MmDNSName MUST MUST ICVCONST False),
      (Member, Element ''Type'' (MmQType 16) (Unique 0) (Unique 0) ICVCONST False),
      (Member, Element ''Class'' (MmUint 16) (Unique 1) (Unique 1) ICVCONST False)])
     [AddOther MmEntry_onQuestion]"

definition McDNS_RR_common_member :: "(role \<times> member) list" where [class_defs]:
  "McDNS_RR_common_member = [
      (Member, Element ''Name'' MmDNSName MUST MUST ICVCONST False),
      (Type_member, Element ''Type'' (MmUint 16) (HC ''Type'') (HC ''Type'') ICVCONST False),
      (Member, Element ''Class'' (MmUint 16) (Unique 1) (Unique 1) ICVCONST False),
      (Member, Element ''TTL'' (MmUint 32) (Unique 0) (Unique 0) ICVCONST False),
      (Length_member, Element ''Length'' (MmUint 16) (HC ''Length'') EVALANY ICVCONST False)]"

definition McDNS_RR_ANY :: mc where [class_defs]:
  "McDNS_RR_ANY = Mc ''McDNS_RR_ANY'' (McDNS_RR_common_member @ [
      (Member, Data ''data'' False ICVCONST)])
     [AddOther MmRR_onAnswer,
      AddOther MmRR_onAuthority,
      AddOther MmRR_onAdditional]"

definition McDNS_RR_A :: mc where [class_defs]:
  "McDNS_RR_A = Mc ''McDNS_RR_A'' (McDNS_RR_common_member @ [
      (Member, Element ''Address'' MmV4Addr MUST MUST ICVCONST False)])
     [Add MmRR_onAnswer TP_DNS_RR_A,
      Add MmRR_onAuthority TP_DNS_RR_A,
      Add MmRR_onAdditional TP_DNS_RR_A]"

definition McDNS_RR_NS :: mc where [class_defs]:
  "McDNS_RR_NS = Mc ''McDNS_RR_NS'' (McDNS_RR_common_member @ [
      (Member, Element ''NSDName'' MmDNSName MUST MUST ICVCONST False)])
     [Add MmRR_onAnswer TP_DNS_RR_NS,
      Add MmRR_onAuthority TP_DNS_RR_NS,
      Add MmRR_onAdditional TP_DNS_RR_NS]"

definition McDNS_RR_MD :: mc where [class_defs]:
  "McDNS_RR_MD = Mc ''McDNS_RR_MD'' (McDNS_RR_common_member @ [
      (Member, Element ''MADName'' MmDNSName MUST MUST ICVCONST False)])
     [Add MmRR_onAnswer TP_DNS_RR_MD,
      Add MmRR_onAuthority TP_DNS_RR_MD,
      Add MmRR_onAdditional TP_DNS_RR_MD]"

definition McDNS_RR_MF :: mc where [class_defs]:
  "McDNS_RR_MF = Mc ''McDNS_RR_MF'' (McDNS_RR_common_member @ [
      (Member, Element ''MADName'' MmDNSName MUST MUST ICVCONST False)])
     [Add MmRR_onAnswer TP_DNS_RR_MF,
      Add MmRR_onAuthority TP_DNS_RR_MF,
      Add MmRR_onAdditional TP_DNS_RR_MF]"

definition McDNS_RR_CNAME :: mc where [class_defs]:
  "McDNS_RR_CNAME = Mc ''McDNS_RR_CNAME'' (McDNS_RR_common_member @ [
      (Member, Element ''CName'' MmDNSName MUST MUST ICVCONST False)])
     [Add MmRR_onAnswer TP_DNS_RR_CNAME,
      Add MmRR_onAuthority TP_DNS_RR_CNAME,
      Add MmRR_onAdditional TP_DNS_RR_CNAME]"

definition McDNS_RR_SOA :: mc where [class_defs]:
  "McDNS_RR_SOA = Mc ''McDNS_RR_SOA'' (McDNS_RR_common_member @ [
      (Member, Element ''MName'' MmDNSName MUST MUST ICVCONST False),
      (Member, Element ''RName'' MmDNSName MUST MUST ICVCONST False),
      (Member, Element ''Serial'' (MmUint 32) (Unique 0) (Unique 0) ICVCONST False),
      (Member, Element ''Refresh'' (MmUint 32) (Unique 0) (Unique 0) ICVCONST False),
      (Member, Element ''Retry'' (MmUint 32) (Unique 0) (Unique 0) ICVCONST False),
      (Member, Element ''Expire'' (MmUint 32) (Unique 0) (Unique 0) ICVCONST False),
      (Member, Element ''Minimum'' (MmUint 32) (Unique 0) (Unique 0) ICVCONST False)])
     [Add MmRR_onAnswer TP_DNS_RR_SOA,
      Add MmRR_onAuthority TP_DNS_RR_SOA,
      Add MmRR_onAdditional TP_DNS_RR_SOA]"

definition McDNS_RR_MB :: mc where [class_defs]:
  "McDNS_RR_MB = Mc ''McDNS_RR_MB'' (McDNS_RR_common_member @ [
      (Member, Element ''MADName'' MmDNSName MUST MUST ICVCONST False)])
     [Add MmRR_onAnswer TP_DNS_RR_MB,
      Add MmRR_onAuthority TP_DNS_RR_MB,
      Add MmRR_onAdditional TP_DNS_RR_MB]"

definition McDNS_RR_MG :: mc where [class_defs]:
  "McDNS_RR_MG = Mc ''McDNS_RR_MG'' (McDNS_RR_common_member @ [
      (Member, Element ''MGMName'' MmDNSName MUST MUST ICVCONST False)])
     [Add MmRR_onAnswer TP_DNS_RR_MG,
      Add MmRR_onAuthority TP_DNS_RR_MG,
      Add MmRR_onAdditional TP_DNS_RR_MG]"

definition McDNS_RR_MR :: mc where [class_defs]:
  "McDNS_RR_MR = Mc ''McDNS_RR_MR'' (McDNS_RR_common_member @ [
      (Member, Element ''NewName'' MmDNSName MUST MUST ICVCONST False)])
     [Add MmRR_onAnswer TP_DNS_RR_MR,
      Add MmRR_onAuthority TP_DNS_RR_MR,
      Add MmRR_onAdditional TP_DNS_RR_MR]"

definition McDNS_RR_NULL :: mc where [class_defs]:
  "McDNS_RR_NULL = Mc ''McDNS_RR_NULL'' (McDNS_RR_common_member @ [
      (Member, Element ''data'' MmVarOctets NoAuto NoAuto ICVCONST False)])
     [Add MmRR_onAnswer TP_DNS_RR_NULL,
      Add MmRR_onAuthority TP_DNS_RR_NULL,
      Add MmRR_onAdditional TP_DNS_RR_NULL]"

definition McDNS_RR_WKS :: mc where [class_defs]:
  "McDNS_RR_WKS = Mc ''McDNS_RR_WKS'' (McDNS_RR_common_member @ [
      (Member, Element ''Address'' MmV4Addr MUST MUST ICVCONST False),
      (Member, Element ''Protocol'' (MmUint 8) (Unique 0) (Unique 0) ICVCONST False),
      (Member, Element ''BitMap'' MmVarOctets NoAuto NoAuto ICVCONST False)])
     [Add MmRR_onAnswer TP_DNS_RR_WKS,
      Add MmRR_onAuthority TP_DNS_RR_WKS,
      Add MmRR_onAdditional TP_DNS_RR_WKS]"

definition McDNS_RR_PTR :: mc where [class_defs]:
  "McDNS_RR_PTR = Mc ''McDNS_RR_PTR'' (McDNS_RR_common_member @ [
      (Member, Element ''PTRDName'' MmDNSName MUST MUST ICVCONST False)])
     [Add MmRR_onAnswer TP_DNS_RR_PTR,
      Add MmRR_onAuthority TP_DNS_RR_PTR,
      Add MmRR_onAdditional TP_DNS_RR_PTR]"

definition McDNS_RR_HINFO :: mc where [class_defs]:
  "McDNS_RR_HINFO = Mc ''McDNS_RR_HINFO'' (McDNS_RR_common_member @ [
      (Member, Element ''CPU'' MmDNSStr MUST MUST ICVCONST False),
      (Member, Element ''OS'' MmDNSStr MUST MUST ICVCONST False)])
     [Add MmRR_onAnswer TP_DNS_RR_HINFO,
      Add MmRR_onAuthority TP_DNS_RR_HINFO,
      Add MmRR_onAdditional TP_DNS_RR_HINFO]"

definition McDNS_RR_MINFO :: mc where [class_defs]:
  "McDNS_RR_MINFO = Mc ''McDNS_RR_MINFO'' (McDNS_RR_common_member @ [
      (Member, Element ''RMailbox'' MmDNSName MUST MUST ICVCONST False),
      (Member, Element ''EMailbox'' MmDNSName MUST MUST ICVCONST False)])
     [Add MmRR_onAnswer TP_DNS_RR_MINFO,
      Add MmRR_onAuthority TP_DNS_RR_MINFO,
      Add MmRR_onAdditional TP_DNS_RR_MINFO]"

definition McDNS_RR_MX :: mc where [class_defs]:
  "McDNS_RR_MX = Mc ''McDNS_RR_MX'' (McDNS_RR_common_member @ [
      (Member, Element ''Preference'' (MmUint 16) (Unique 0) (Unique 0) ICVCONST False),
      (Member, Element ''Exchange'' MmDNSName MUST MUST ICVCONST False)])
     [Add MmRR_onAnswer TP_DNS_RR_MX,
      Add MmRR_onAuthority TP_DNS_RR_MX,
      Add MmRR_onAdditional TP_DNS_RR_MX]"

definition McDNS_RR_TXT :: mc where [class_defs]:
  "McDNS_RR_TXT = Mc ''McDNS_RR_TXT'' (McDNS_RR_common_member @ [
      (Member, Multiple (Element ''TXT'' MmDNSStr MUST MUST ICVCONST False) ''TXT'')])
     [Add MmRR_onAnswer TP_DNS_RR_TXT,
      Add MmRR_onAuthority TP_DNS_RR_TXT,
      Add MmRR_onAdditional TP_DNS_RR_TXT]"

definition McDNS_RR_RP :: mc where [class_defs]:
  "McDNS_RR_RP = Mc ''McDNS_RR_RP'' (McDNS_RR_common_member @ [
      (Member, Element ''MailBox'' MmDNSName MUST MUST ICVCONST False),
      (Member, Element ''TXTDName'' MmDNSName MUST MUST ICVCONST False)])
     [Add MmRR_onAnswer TP_DNS_RR_RP,
      Add MmRR_onAuthority TP_DNS_RR_RP,
      Add MmRR_onAdditional TP_DNS_RR_RP]"

definition McDNS_RR_AFSDB :: mc where [class_defs]:
  "McDNS_RR_AFSDB = Mc ''McDNS_RR_AFSDB'' (McDNS_RR_common_member @ [
      (Member, Element ''Subtype'' (MmUint 16) (Unique 0) (Unique 0) ICVCONST False),
      (Member, Element ''Hostname'' MmDNSName MUST MUST ICVCONST False)])
     [Add MmRR_onAnswer TP_DNS_RR_AFSDB,
      Add MmRR_onAuthority TP_DNS_RR_AFSDB,
      Add MmRR_onAdditional TP_DNS_RR_AFSDB]"

definition McDNS_RR_X25 :: mc where [class_defs]:
  "McDNS_RR_X25 = Mc ''McDNS_RR_X25'' (McDNS_RR_common_member @ [
      (Member, Element ''Address'' MmDNSStr MUST MUST ICVCONST False)])
     [Add MmRR_onAnswer TP_DNS_RR_X25,
      Add MmRR_onAuthority TP_DNS_RR_X25,
      Add MmRR_onAdditional TP_DNS_RR_X25]"

definition McDNS_RR_ISDN :: mc where [class_defs]:
  "McDNS_RR_ISDN = Mc ''McDNS_RR_ISDN'' (McDNS_RR_common_member @ [
      (Member, Element ''Address'' MmDNSStr MUST MUST ICVCONST False),
      (Member, Element ''SubAddress'' MmDNSStr MUST MUST ICVCONST False)])
     [Add MmRR_onAnswer TP_DNS_RR_ISDN,
      Add MmRR_onAuthority TP_DNS_RR_ISDN,
      Add MmRR_onAdditional TP_DNS_RR_ISDN]"

definition McDNS_RR_RT :: mc where [class_defs]:
  "McDNS_RR_RT = Mc ''McDNS_RR_RT'' (McDNS_RR_common_member @ [
      (Member, Element ''Preference'' (MmUint 16) (Unique 0) (Unique 0) ICVCONST False),
      (Member, Element ''Intermediate'' MmDNSName MUST MUST ICVCONST False)])
     [Add MmRR_onAnswer TP_DNS_RR_RT,
      Add MmRR_onAuthority TP_DNS_RR_RT,
      Add MmRR_onAdditional TP_DNS_RR_RT]"

definition McDNS_RR_PX :: mc where [class_defs]:
  "McDNS_RR_PX = Mc ''McDNS_RR_PX'' (McDNS_RR_common_member @ [
      (Member, Element ''Preference'' (MmUint 16) (Unique 0) (Unique 0) ICVCONST False),
      (Member, Element ''Map822'' MmDNSName MUST MUST ICVCONST False),
      (Member, Element ''MapX400'' MmDNSName MUST MUST ICVCONST False)])
     [Add MmRR_onAnswer TP_DNS_RR_PX,
      Add MmRR_onAuthority TP_DNS_RR_PX,
      Add MmRR_onAdditional TP_DNS_RR_PX]"

definition McDNS_RR_AAAA :: mc where [class_defs]:
  "McDNS_RR_AAAA = Mc ''McDNS_RR_AAAA'' (McDNS_RR_common_member @ [
      (Member, Element ''Address'' MmV6Addr MUST MUST ICVCONST False)])
     [Add MmRR_onAnswer TP_DNS_RR_AAAA,
      Add MmRR_onAuthority TP_DNS_RR_AAAA,
      Add MmRR_onAdditional TP_DNS_RR_AAAA]"

definition McDNS_RR_SRV :: mc where [class_defs]:
  "McDNS_RR_SRV = Mc ''McDNS_RR_SRV'' (McDNS_RR_common_member @ [
      (Member, Element ''Priority'' (MmUint 16) (Unique 0) (Unique 0) ICVCONST False),
      (Member, Element ''Weight'' (MmUint 16) (Unique 0) (Unique 0) ICVCONST False),
      (Member, Element ''Port'' (MmUint 16) (Unique 0) (Unique 0) ICVCONST False),
      (Member, Element ''Target'' MmDNSName MUST MUST ICVCONST False)])
     [Add MmRR_onAnswer TP_DNS_RR_SRV,
      Add MmRR_onAuthority TP_DNS_RR_SRV,
      Add MmRR_onAdditional TP_DNS_RR_SRV]"

definition McDNS_RR_NAPTR :: mc where [class_defs]:
  "McDNS_RR_NAPTR = Mc ''McDNS_RR_NAPTR'' (McDNS_RR_common_member @ [
      (Member, Element ''Order'' (MmUint 16) (Unique 0) (Unique 0) ICVCONST False),
      (Member, Element ''Preference'' (MmUint 16) (Unique 0) (Unique 0) ICVCONST False),
      (Member, Element ''Flags'' MmDNSStr MUST MUST ICVCONST False),
      (Member, Element ''Service'' MmDNSStr MUST MUST ICVCONST False),
      (Member, Element ''Regexp'' MmDNSStr MUST MUST ICVCONST False),
      (Member, Element ''Replacement'' MmDNSName MUST MUST ICVCONST False)])
     [Add MmRR_onAnswer TP_DNS_RR_NAPTR,
      Add MmRR_onAuthority TP_DNS_RR_NAPTR,
      Add MmRR_onAdditional TP_DNS_RR_NAPTR]"

definition McUpp_ICMPv4_ONE :: mc where [class_defs]:
  "McUpp_ICMPv4_ONE = Mc ''McUpp_ICMPv4_ONE'' ([(Member, Reference MmHeader_onICMPv4 ''header'')])
     [Add MmUpper_onIP TP_Upp_ICMPv4]"

text \<open>All of them.\<close>

definition VHdrUpper_classes :: "mc list" where
  "VHdrUpper_classes = [McUpp_ICMPv4_ANY,
     McUpp_ICMPv4_DestinationUnreachable,
     McUpp_ICMPv4_TimeExceeded,
     McUpp_ICMPv4_ParameterProblem,
     McUpp_ICMPv4_Redirect,
     McUpp_ICMPv4_EchoRequest,
     McUpp_ICMPv4_EchoReply,
     McUdp_RIPng,
     McRIPng_RTE,
     McUdp_DNS,
     McDNS_Question,
     McDNS_Answer,
     McDNS_Authority,
     McDNS_Additional,
     McDNS_QuestionEntry,
     McDNS_RR_ANY,
     McDNS_RR_A,
     McDNS_RR_NS,
     McDNS_RR_MD,
     McDNS_RR_MF,
     McDNS_RR_CNAME,
     McDNS_RR_SOA,
     McDNS_RR_MB,
     McDNS_RR_MG,
     McDNS_RR_MR,
     McDNS_RR_NULL,
     McDNS_RR_WKS,
     McDNS_RR_PTR,
     McDNS_RR_HINFO,
     McDNS_RR_MINFO,
     McDNS_RR_MX,
     McDNS_RR_TXT,
     McDNS_RR_RP,
     McDNS_RR_AFSDB,
     McDNS_RR_X25,
     McDNS_RR_ISDN,
     McDNS_RR_RT,
     McDNS_RR_PX,
     McDNS_RR_AAAA,
     McDNS_RR_SRV,
     McDNS_RR_NAPTR,
     McUpp_ICMPv4_ONE]"

end
