(* ===== verification/VHdrDhcp.thy ===== *)
theory VHdrDhcp
  imports VTypes
begin

text \<open>Classes of headers: DHCPv6 and its options, and SIP.\<close>

definition McUdp_DHCPv6_common_member :: "(role \<times> member) list" where [class_defs]:
  "McUdp_DHCPv6_common_member = [
      (Type_member, Element ''Type'' (MmUint 8) (HC ''Type'') (HC ''Type'') ICVCONST False)]"

definition McUdp_DHCPv6_ANY :: mc where [class_defs]:
  "McUdp_DHCPv6_ANY = Mc ''McUdp_DHCPv6_ANY'' (McUdp_DHCPv6_common_member @ [
      (Member, Data ''data'' False ICVCONST)])
     [AddOther MmHeader_onDHCPv6]"

definition McUdp_DHCPv6_Solicit :: mc where [class_defs]:
  "McUdp_DHCPv6_Solicit = Mc ''McUdp_DHCPv6_Solicit'' (McUdp_DHCPv6_common_member @ [
      (Member, Element ''Identifier'' (MmUint 24) (Unique 0) (Unique 0) ICVCONST False),
      (Member, Reference MmOption_onDHCPv6 ''option'')])
     [Add MmHeader_onDHCPv6 TP_DHCPv6_Solicit]"

definition McUdp_DHCPv6_Advertise :: mc where [class_defs]:
  "McUdp_DHCPv6_Advertise = Mc ''McUdp_DHCPv6_Advertise'' (McUdp_DHCPv6_common_member @ [
      (Member, Element ''Identifier'' (MmUint 24) (Unique 0) (Unique 0) ICVCONST False),
      (Member, Reference MmOption_onDHCPv6 ''option'')])
     [Add MmHeader_onDHCPv6 TP_DHCPv6_Advertise]"

definition McUdp_DHCPv6_Request :: mc where [class_defs]:
  "McUdp_DHCPv6_Request = Mc ''McUdp_DHCPv6_Request'' (McUdp_DHCPv6_common_member @ [
      (Member, Element ''Identifier'' (MmUint 24) (Unique 0) (Unique 0) ICVCONST False),
      (Member, Reference MmOption_onDHCPv6 ''option'')])
     [Add MmHeader_onDHCPv6 TP_DHCPv6_Request]"

definition McUdp_DHCPv6_Confirm :: mc where [class_defs]:
  "McUdp_DHCPv6_Confirm = Mc ''McUdp_DHCPv6_Confirm'' (McUdp_DHCPv6_common_member @ [
      (Member, Element ''Identifier'' (MmUint 24) (Unique 0) (Unique 0) ICVCONST False),
      (Member, Reference MmOption_onDHCPv6 ''option'')])
     [Add MmHeader_onDHCPv6 TP_DHCPv6_Confirm]"

definition McUdp_DHCPv6_Renew :: mc where [class_defs]:
  "McUdp_DHCPv6_Renew = Mc ''McUdp_DHCPv6_Renew'' (McUdp_DHCPv6_common_member @ [
      (Member, Element ''Identifier'' (MmUint 24) (Unique 0) (Unique 0) ICVCONST False),
      (Member, Reference MmOption_onDHCPv6 ''option'')])
     [Add MmHeader_onDHCPv6 TP_DHCPv6_Renew]"

definition McUdp_DHCPv6_Rebind :: mc where [class_defs]:
  "McUdp_DHCPv6_Rebind = Mc ''McUdp_DHCPv6_Rebind'' (McUdp_DHCPv6_common_member @ [
      (Member, Element ''Identifier'' (MmUint 24) (Unique 0) (Unique 0) ICVCONST False),
      (Member, Reference MmOption_onDHCPv6 ''option'')])
     [Add MmHeader_onDHCPv6 TP_DHCPv6_Rebind]"

definition McUdp_DHCPv6_Reply :: mc where [class_defs]:
  "McUdp_DHCPv6_Reply = Mc ''McUdp_DHCPv6_Reply'' (McUdp_DHCPv6_common_member @ [
      (Member, Element ''Identifier'' (MmUint 24) (Unique 0) (Unique 0) ICVCONST False),
      (Member, Reference MmOption_onDHCPv6 ''option'')])
     [Add MmHeader_onDHCPv6 TP_DHCPv6_Reply]"

definition McUdp_DHCPv6_Release :: mc where [class_defs]:
  "McUdp_DHCPv6_Release = Mc ''McUdp_DHCPv6_Release'' (McUdp_DHCPv6_common_member @ [
      (Member, Element ''Identifier'' (MmUint 24) (Unique 0) (Unique 0) ICVCONST False),
      (Member, Reference MmOption_onDHCPv6 ''option'')])
     [Add MmHeader_onDHCPv6 TP_DHCPv6_Release]"

definition McUdp_DHCPv6_Decline :: mc where [class_defs]:
  "McUdp_DHCPv6_Decline = Mc ''McUdp_DHCPv6_Decline'' (McUdp_DHCPv6_common_member @ [
      (Member, Element ''Identifier'' (MmUint 24) (Unique 0) (Unique 0) ICVCONST False),
      (Member, Reference MmOption_onDHCPv6 ''option'')])
     [Add MmHeader_onDHCPv6 TP_DHCPv6_Decline]"

definition McUdp_DHCPv6_Reconfigure :: mc where [class_defs]:
  "McUdp_DHCPv6_Reconfigure = Mc ''McUdp_DHCPv6_Reconfigure'' (McUdp_DHCPv6_common_member @ [
      (Member, Element ''Identifier'' (MmUint 24) (Unique 0) (Unique 0) ICVCONST False),
      (Member, Reference MmOption_onDHCPv6 ''option'')])
     [Add MmHeader_onDHCPv6 TP_DHCPv6_Reconfigure]"

definition McUdp_DHCPv6_InformationRequest :: mc where [class_defs]:
  "McUdp_DHCPv6_InformationRequest = Mc ''McUdp_DHCPv6_InformationRequest'' (McUdp_DHCPv6_common_member @ [
      (Member, Element ''Identifier'' (MmUint 24) (Unique 0) (Unique 0) ICVCONST False),
      (Member, Reference MmOption_onDHCPv6 ''option'')])
     [Add MmHeader_onDHCPv6 TP_DHCPv6_InformationRequest]"

definition McUdp_DHCPv6_RelayForward :: mc where [class_defs]:
  "McUdp_DHCPv6_RelayForward = Mc ''McUdp_DHCPv6_RelayForward'' (McUdp_DHCPv6_common_member @ [
      (Member, Element ''HopCount'' (MmUint 8) (Unique 0) (Unique 0) ICVCONST False),
      (Member, Element ''LinkAddr'' MmV6Addr MUST MUST ICVCONST False),
      (Member, Element ''PeerAddr'' MmV6Addr MUST MUST ICVCONST False),
      (Member, Reference MmOption_onDHCPv6 ''option'')])
     [Add MmHeader_onDHCPv6 TP_DHCPv6_RelayForward]"

definition McUdp_DHCPv6_RelayReply :: mc where [class_defs]:
  "McUdp_DHCPv6_RelayReply = Mc ''McUdp_DHCPv6_RelayReply'' (McUdp_DHCPv6_common_member @ [
      (Member, Element ''HopCount'' (MmUint 8) (Unique 0) (Unique 0) ICVCONST False),
      (Member, Element ''LinkAddr'' MmV6Addr MUST MUST ICVCONST False),
      (Member, Element ''PeerAddr'' MmV6Addr MUST MUST ICVCONST False),
      (Member, Reference MmOption_onDHCPv6 ''option'')])
     [Add MmHeader_onDHCPv6 TP_DHCPv6_RelayReply]"

definition McOpt_DHCPv6_common_member :: "(role \<times> member) list" where [class_defs]:
  "McOpt_DHCPv6_common_member = [
      (Optcode_member, Element ''Code'' (MmUint 16) (HC ''Code'') (HC ''Code'') ICVCONST False),
      (Length_member, Element ''Length'' (MmUint 16) (HC ''Length'') EVALANY ICVCONST False)]"

definition McOpt_DHCPv6_ANY :: mc where [class_defs]:
  "McOpt_DHCPv6_ANY = Mc ''McOpt_DHCPv6_ANY'' (McOpt_DHCPv6_common_member @ [
      (Member, Data ''data'' False ICVCONST)])
     [AddOther MmOption_onDHCPv6]"

definition McOpt_DHCPv6_CID :: mc where [class_defs]:
  "McOpt_DHCPv6_CID = Mc ''McOpt_DHCPv6_CID'' (McOpt_DHCPv6_common_member @ [
      (Member, Reference MmDUID_onOption ''duid'')])
     [Add MmOption_onDHCPv6 TP_Opt_DHCPv6_CID]"

definition McOpt_DHCPv6_SID :: mc where [class_defs]:
  "McOpt_DHCPv6_SID = Mc ''McOpt_DHCPv6_SID'' (McOpt_DHCPv6_common_member @ [
      (Member, Reference MmDUID_onOption ''duid'')])
     [Add MmOption_onDHCPv6 TP_Opt_DHCPv6_SID]"

definition McOpt_DHCPv6_IA_NA :: mc where [class_defs]:
  "McOpt_DHCPv6_IA_NA = Mc ''McOpt_DHCPv6_IA_NA'' (McOpt_DHCPv6_common_member @ [
      (Member, Element ''Identifier'' (MmUint 32) (Unique 0) (Unique 0) ICVCONST False),
      (Member, Element ''Time1'' (MmUint 32) (Unique 0) (Unique 0) ICVCONST False),
      (Member, Element ''Time2'' (MmUint 32) (Unique 0) (Unique 0) ICVCONST False),
      (Member, Reference MmOption_onDHCPv6 ''option'')])
     [Add MmOption_onDHCPv6 TP_Opt_DHCPv6_IA_NA]"

definition McOpt_DHCPv6_IA_TA :: mc where [class_defs]:
  "McOpt_DHCPv6_IA_TA = Mc ''McOpt_DHCPv6_IA_TA'' (McOpt_DHCPv6_common_member @ [
      (Member, Element ''Identifier'' (MmUint 32) (Unique 0) (Unique 0) ICVCONST False),
      (Member, Reference MmOption_onDHCPv6 ''option'')])
     [Add MmOption_onDHCPv6 TP_Opt_DHCPv6_IA_TA]"

definition McOpt_DHCPv6_IA_Address :: mc where [class_defs]:
  "McOpt_DHCPv6_IA_Address = Mc ''McOpt_DHCPv6_IA_Address'' (McOpt_DHCPv6_common_member @ [
      (Member, Element ''Address'' MmV6Addr MUST MUST ICVCONST False),
      (Member, Element ''PreferredLifetime'' (MmUint 32) (Unique 0) (Unique 0) ICVCONST False),
      (Member, Element ''ValidLifetime'' (MmUint 32) (Unique 0) (Unique 0) ICVCONST False),
      (Member, Reference MmOption_onDHCPv6 ''option'')])
     [Add MmOption_onDHCPv6 TP_Opt_DHCPv6_IA_Address]"

definition McOpt_DHCPv6_OptionRequest :: mc where [class_defs]:
  "McOpt_DHCPv6_OptionRequest = Mc ''McOpt_DHCPv6_OptionRequest'' (McOpt_DHCPv6_common_member @ [
      (Member, Multiple (Element ''OptionCode'' (MmUint 16) (Unique 0) (Unique 0) ICVCONST False) ''OptionCode'')])
     [Add MmOption_onDHCPv6 TP_Opt_DHCPv6_OptionRequest]"

definition McOpt_DHCPv6_Preference :: mc where [class_defs]:
  "McOpt_DHCPv6_Preference = Mc ''McOpt_DHCPv6_Preference'' (McOpt_DHCPv6_common_member @ [
      (Member, Element ''Preference'' (MmUint 8) (Unique 0) (Unique 0) ICVCONST False)])
     [Add MmOption_onDHCPv6 TP_Opt_DHCPv6_Preference]"

definition McOpt_DHCPv6_ElapsedTime :: mc where [class_defs]:
  "McOpt_DHCPv6_ElapsedTime = Mc ''McOpt_DHCPv6_ElapsedTime'' (McOpt_DHCPv6_common_member @ [
      (Member, Element ''Time'' (MmUint 16) (Unique 0) (Unique 0) ICVCONST False)])
     [Add MmOption_onDHCPv6 TP_Opt_DHCPv6_ElapsedTime]"

definition McOpt_DHCPv6_RelayMessage :: mc where [class_defs]:
  "McOpt_DHCPv6_RelayMessage = Mc ''McOpt_DHCPv6_RelayMessage'' (McOpt_DHCPv6_common_member @ [
      (Member, Reference MmHeader_onDHCPv6 ''relay'')])
     [Add MmOption_onDHCPv6 TP_Opt_DHCPv6_RelayMessage]"

definition McOpt_DHCPv6_Authentication :: mc where [class_defs]:
  "McOpt_DHCPv6_Authentication = Mc ''McOpt_DHCPv6_Authentication'' (McOpt_DHCPv6_common_member @ [
      (Proto_member, Element ''Protocol'' (MmUint 8) (HC ''Protocol'') (HC ''Protocol'') ICVCONST False),
      (Member, Element ''Algorithm'' (MmUint 8) (Unique 1) (Unique 1) ICVCONST False),
      (Member, Element ''RDM'' (MmUint 8) (Unique 0) (Unique 0) ICVCONST False),
      (Member, Element ''ReplayDetection'' MmMH_Cookie64 ZEROS ZEROS ICVCONST False),
      (Member, Reference MmProto_onAuth ''auth'')])
     [Add MmOption_onDHCPv6 TP_Opt_DHCPv6_Authentication]"

definition McOpt_DHCPv6_ServerUnicast :: mc where [class_defs]:
  "McOpt_DHCPv6_ServerUnicast = Mc ''McOpt_DHCPv6_ServerUnicast'' (McOpt_DHCPv6_common_member @ [
      (Member, Element ''Address'' MmV6Addr MUST MUST ICVCONST False)])
     [Add MmOption_onDHCPv6 TP_Opt_DHCPv6_ServerUnicast]"

definition McOpt_DHCPv6_StatusCode :: mc where [class_defs]:
  "McOpt_DHCPv6_StatusCode = Mc ''McOpt_DHCPv6_StatusCode'' (McOpt_DHCPv6_common_member @ [
      (Member, Element ''StatusCode'' (MmUint 16) (Unique 0) (Unique 0) ICVCONST False),
      (Member, Data ''Message'' False ICVCONST)])
     [Add MmOption_onDHCPv6 TP_Opt_DHCPv6_StatusCode]"

definition McOpt_DHCPv6_RapidCommit :: mc where [class_defs]:
  "McOpt_DHCPv6_RapidCommit = Mc ''McOpt_DHCPv6_RapidCommit'' (McOpt_DHCPv6_common_member)
     [Add MmOption_onDHCPv6 TP_Opt_DHCPv6_RapidCommit]"

definition McOpt_DHCPv6_UserClass :: mc where [class_defs]:
  "McOpt_DHCPv6_UserClass = Mc ''McOpt_DHCPv6_UserClass'' (McOpt_DHCPv6_common_member @ [
      (Member, Reference MmUserClass_onOption ''data'')])
     [Add MmOption_onDHCPv6 TP_Opt_DHCPv6_UserClass]"

definition McDHCPv6_UserClassData :: mc where [class_defs]:
  "McDHCPv6_UserClassData = Mc ''McDHCPv6_UserClassData'' ([
      (Length_member, Element ''Length'' (MmUint 16) (HC ''Length'') EVALANY ICVCONST False),
      (Member, Data ''data'' False ICVCONST)])
     [AddOther MmUserClass_onOption]"

definition McOpt_DHCPv6_VendorClass :: mc where [class_defs]:
  "McOpt_DHCPv6_VendorClass = Mc ''McOpt_DHCPv6_VendorClass'' (McOpt_DHCPv6_common_member @ [
      (Member, Element ''EnterpriseNumber'' (MmUint 32) (Unique 0) (Unique 0) ICVCONST False),
      (Member, Reference MmVendorClass_onOption ''data'')])
     [Add MmOption_onDHCPv6 TP_Opt_DHCPv6_VendorClass]"

definition McDHCPv6_VendorClassData :: mc where [class_defs]:
  "McDHCPv6_VendorClassData = Mc ''McDHCPv6_VendorClassData'' ([
      (Length_member, Element ''Length'' (MmUint 16) (HC ''Length'') EVALANY ICVCONST False),
      (Member, Data ''data'' False ICVCONST)])
     [AddOther MmVendorClass_onOption]"

definition McOpt_DHCPv6_VendorSpecificInfo :: mc where [class_defs]:
  "McOpt_DHCPv6_VendorSpecificInfo = Mc ''McOpt_DHCPv6_VendorSpecificInfo'' (McOpt_DHCPv6_common_member @ [
      (Member, Element ''EnterpriseNumber'' (MmUint 32) (Unique 0) (Unique 0) ICVCONST False),
      (Member, Reference MmOptionData_onOption ''data'')])
     [Add MmOption_onDHCPv6 TP_Opt_DHCPv6_VendorSpecificInfo]"

definition McDHCPv6_OptionData :: mc where [class_defs]:
  "McDHCPv6_OptionData = Mc ''McDHCPv6_OptionData'' ([
      (Member, Element ''Code'' (MmUint 16) (Unique 0) (Unique 0) ICVCONST False),
      (Length_member, Element ''Length'' (MmUint 16) (HC ''Length'') EVALANY ICVCONST False),
      (Member, Data ''data'' False ICVCONST)])
     [AddOther MmOptionData_onOption]"

definition McOpt_DHCPv6_IID :: mc where [class_defs]:
  "McOpt_DHCPv6_IID = Mc ''McOpt_DHCPv6_IID'' (McOpt_DHCPv6_common_member @ [
      (Member, Data ''Identifier'' False ICVCONST)])
     [Add MmOption_onDHCPv6 TP_Opt_DHCPv6_IID]"

definition McOpt_DHCPv6_ReconfigureMessage :: mc where [class_defs]:
  "McOpt_DHCPv6_ReconfigureMessage = Mc ''McOpt_DHCPv6_ReconfigureMessage'' (McOpt_DHCPv6_common_member @ [
      (Member, Element ''Type'' (MmUint 8) (Unique 0) (Unique 0) ICVCONST False)])
     [Add MmOption_onDHCPv6 TP_Opt_DHCPv6_ReconfigureMessage]"

definition McOpt_DHCPv6_ReconfigureAccept :: mc where [class_defs]:
  "McOpt_DHCPv6_ReconfigureAccept = Mc ''McOpt_DHCPv6_ReconfigureAccept'' (McOpt_DHCPv6_common_member)
     [Add MmOption_onDHCPv6 TP_Opt_DHCPv6_ReconfigureAccept]"

definition McOpt_DHCPv6_IA_PD :: mc where [class_defs]:
  "McOpt_DHCPv6_IA_PD = Mc ''McOpt_DHCPv6_IA_PD'' (McOpt_DHCPv6_common_member @ [
      (Member, Element ''Identifier'' (MmUint 32) (Unique 0) (Unique 0) ICVCONST False),
      (Member, Element ''Time1'' (MmUint 32) (Unique 0) (Unique 0) ICVCONST False),
      (Member, Element ''Time2'' (MmUint 32) (Unique 0) (Unique 0) ICVCONST False),
      (Member, Reference MmOption_onDHCPv6 ''option'')])
     [Add MmOption_onDHCPv6 TP_Opt_DHCPv6_IA_PD]"

definition McOpt_DHCPv6_IA_Prefix :: mc where [class_defs]:
  "McOpt_DHCPv6_IA_Prefix = Mc ''McOpt_DHCPv6_IA_Prefix'' (McOpt_DHCPv6_common_member @ [
      (Member, Element ''PreferredLifetime'' (MmUint 32) (Unique 0) (Unique 0) ICVCONST False),
      (Member, Element ''ValidLifetime'' (MmUint 32) (Unique 0) (Unique 0) ICVCONST False),
      (Member, Element ''PrefixLength'' (MmUint 8) (Unique 0) (Unique 0) ICVCONST False),
      (Member, Element ''Prefix'' MmV6Addr MUST MUST ICVCONST False),
      (Member, Reference MmOption_onDHCPv6 ''option'')])
     [Add MmOption_onDHCPv6 TP_Opt_DHCPv6_IA_Prefix]"

definition McOpt_DHCPv6_DNS_Servers :: mc where [class_defs]:
  "McOpt_DHCPv6_DNS_Servers = Mc ''McOpt_DHCPv6_DNS_Servers'' (McOpt_DHCPv6_common_member @ [
      (Member, Multiple (Element ''Address'' MmV6Addr MUST MUST ICVCONST False) ''Address'')])
     [Add MmOption_onDHCPv6 TP_Opt_DHCPv6_DNS_Servers]"

definition McOpt_DHCPv6_DNS_SearchList :: mc where [class_defs]:
  "McOpt_DHCPv6_DNS_SearchList = Mc ''McOpt_DHCPv6_DNS_SearchList'' (McOpt_DHCPv6_common_member @ [
      (Member, Element ''SearchString'' MmDNSName MUST MUST ICVCONST False)])
     [Add MmOption_onDHCPv6 TP_Opt_DHCPv6_DNS_SearchList]"

definition McOpt_DHCPv6_NTP_Servers :: mc where [class_defs]:
  "McOpt_DHCPv6_NTP_Servers = Mc ''McOpt_DHCPv6_NTP_Servers'' (McOpt_DHCPv6_common_member @ [
      (Member, Multiple (Element ''Address'' MmV6Addr MUST MUST ICVCONST False) ''Address'')])
     [Add MmOption_onDHCPv6 TP_Opt_DHCPv6_NTP_Servers]"

definition McOpt_DHCPv6_NTP_Timezone :: mc where [class_defs]:
  "McOpt_DHCPv6_NTP_Timezone = Mc ''McOpt_DHCPv6_NTP_Timezone'' (McOpt_DHCPv6_common_member @ [
      (Member, Element ''Timezone'' MmTimezone MUST MUST ICVCONST False)])
     [Add MmOption_onDHCPv6 TP_Opt_DHCPv6_NTP_Timezone]"

definition McDHCPv6_DUID_common_member :: "(role \<times> member) list" where [class_defs]:
  "McDHCPv6_DUID_common_member = [
      (Type_member, Element ''Type'' (MmUint 16) (HC ''Type'') (HC ''Type'') ICVCONST False)]"

definition McDHCPv6_DUID_ANY :: mc where [class_defs]:
  "McDHCPv6_DUID_ANY = Mc ''McDHCPv6_DUID_ANY'' (McDHCPv6_DUID_common_member @ [
      (Member, Data ''data'' False ICVCONST)])
     [AddOther MmDUID_onOption]"

definition McDHCPv6_DUID_LLT_ANY :: mc where [class_defs]:
  "McDHCPv6_DUID_LLT_ANY = Mc ''McDHCPv6_DUID_LLT_ANY'' (McDHCPv6_DUID_common_member @ [
      (Hwtype_member, Element ''HardwareType'' (MmUint 16) (HC ''HardwareType'') (HC ''HardwareType'') ICVCONST False),
      (Member, Element ''Time'' (MmUint 32) (Unique 0) (Unique 0) ICVCONST False),
      (Member, Data ''LinkLayerAddress'' False ICVCONST)])
     [AddOther MmLLT_onDUID]"

definition McDHCPv6_DUID_LLT_Ether :: mc where [class_defs]:
  "McDHCPv6_DUID_LLT_Ether = Mc ''McDHCPv6_DUID_LLT_Ether'' (McDHCPv6_DUID_common_member @ [
      (Hwtype_member, Element ''HardwareType'' (MmUint 16) (HC ''HardwareType'') (HC ''HardwareType'') ICVCONST False),
      (Member, Element ''Time'' (MmUint 32) (Unique 0) (Unique 0) ICVCONST False),
      (Member, Element ''LinkLayerAddress'' MmEther MUST MUST ICVCONST False)])
     [Add MmLLT_onDUID TP_DUID_LL_Ether]"

definition McDHCPv6_DUID_EN :: mc where [class_defs]:
  "McDHCPv6_DUID_EN = Mc ''McDHCPv6_DUID_EN'' (McDHCPv6_DUID_common_member @ [
      (Member, Element ''EnterpriseNumber'' (MmUint 32) (Unique 0) (Unique 0) ICVCONST False),
      (Member, Data ''Identifier'' False ICVCONST)])
     [Add MmDUID_onOption TP_DHCPv6_DUID_EN]"

definition McDHCPv6_DUID_LL_ANY :: mc where [class_defs]:
  "McDHCPv6_DUID_LL_ANY = Mc ''McDHCPv6_DUID_LL_ANY'' (McDHCPv6_DUID_common_member @ [
      (Hwtype_member, Element ''HardwareType'' (MmUint 16) (HC ''HardwareType'') (HC ''HardwareType'') ICVCONST False),
      (Member, Data ''LinkLayerAddress'' False ICVCONST)])
     [AddOther MmLL_onDUID]"

definition McDHCPv6_DUID_LL_Ether :: mc where [class_defs]:
  "McDHCPv6_DUID_LL_Ether = Mc ''McDHCPv6_DUID_LL_Ether'' (McDHCPv6_DUID_common_member @ [
      (Hwtype_member, Element ''HardwareType'' (MmUint 16) (HC ''HardwareType'') (HC ''HardwareType'') ICVCONST False),
      (Member, Element ''LinkLayerAddress'' MmEther MUST MUST ICVCONST False)])
     [Add MmLL_onDUID TP_DUID_LL_Ether]"

definition McDHCPv6_Auth_ANY :: mc where [class_defs]:
  "McDHCPv6_Auth_ANY = Mc ''McDHCPv6_Auth_ANY'' ([
      (Member, Data ''data'' False ICVCONST)])
     [AddOther MmProto_onAuth]"

definition McDHCPv6_Auth_Delayed :: mc where [class_defs]:
  "McDHCPv6_Auth_Delayed = Mc ''McDHCPv6_Auth_Delayed'' ([
      (Member, Element ''Realm'' MmDHCPRealm MUST MUST ICVCONST False),
      (Member, Element ''Identifier'' (MmUint 32) (Unique 0) (Unique 0) ICVCONST False),
      (Member, Element ''Authenticator'' MmDHCPAuth ZEROS ZEROS ICVCONST False)])
     [Add MmProto_onAuth TP_DHCPv6_Auth_Delayed]"

definition McDHCPv6_Auth_ReconfigureKey :: mc where [class_defs]:
  "McDHCPv6_Auth_ReconfigureKey = Mc ''McDHCPv6_Auth_ReconfigureKey'' ([
      (Member, Element ''Type'' (MmUint 8) (Unique 0) (Unique 0) ICVCONST False),
      (Member, Element ''data'' MmDHCPAuth ZEROS ZEROS ICVCONST False)])
     [Add MmProto_onAuth TP_DHCPv6_Auth_ReconfigureKey]"

definition McUdp_DHCPv6_ONE :: mc where [class_defs]:
  "McUdp_DHCPv6_ONE = Mc ''McUdp_DHCPv6_ONE'' ([(Member, Reference MmHeader_onDHCPv6 ''header'')])
     [Add MmUpper_onUpper TP_Udp_DHCPv6_CL, Add MmUpper_onUpper TP_Udp_DHCPv6_SV]"

definition McDHCPv6_DUID_LLT_ONE :: mc where [class_defs]:
  "McDHCPv6_DUID_LLT_ONE = Mc ''McDHCPv6_DUID_LLT_ONE'' ([(Member, Reference MmLLT_onDUID ''llt'')])
     [Add MmDUID_onOption TP_DHCPv6_DUID_LLT]"

definition McDHCPv6_DUID_LL_ONE :: mc where [class_defs]:
  "McDHCPv6_DUID_LL_ONE = Mc ''McDHCPv6_DUID_LL_ONE'' ([(Member, Reference MmLL_onDUID ''ll'')])
     [Add MmDUID_onOption TP_DHCPv6_DUID_LL]"

text \<open>All of them.\<close>

definition VHdrDhcp_classes :: "mc list" where
  "VHdrDhcp_classes = [McUdp_DHCPv6_ANY,
     McUdp_DHCPv6_Solicit,
     McUdp_DHCPv6_Advertise,
     McUdp_DHCPv6_Request,
     McUdp_DHCPv6_Confirm,
     McUdp_DHCPv6_Renew,
     McUdp_DHCPv6_Rebind,
     McUdp_DHCPv6_Reply,
     McUdp_DHCPv6_Release,
     McUdp_DHCPv6_Decline,
     McUdp_DHCPv6_Reconfigure,
     McUdp_DHCPv6_InformationRequest,
     McUdp_DHCPv6_RelayForward,
     McUdp_DHCPv6_RelayReply,
     McOpt_DHCPv6_ANY,
     McOpt_DHCPv6_CID,
     McOpt_DHCPv6_SID,
     McOpt_DHCPv6_IA_NA,
     McOpt_DHCPv6_IA_TA,
     McOpt_DHCPv6_IA_Address,
     McOpt_DHCPv6_OptionRequest,
     McOpt_DHCPv6_Preference,
     McOpt_DHCPv6_ElapsedTime,
     McOpt_DHCPv6_RelayMessage,
     McOpt_DHCPv6_Authentication,
     McOpt_DHCPv6_ServerUnicast,
     McOpt_DHCPv6_StatusCode,
     McOpt_DHCPv6_RapidCommit,
     McOpt_DHCPv6_UserClass,
     McDHCPv6_UserClassData,
     McOpt_DHCPv6_VendorClass,
     McDHCPv6_VendorClassData,
     McOpt_DHCPv6_VendorSpecificInfo,
     McDHCPv6_OptionData,
     McOpt_DHCPv6_IID,
     McOpt_DHCPv6_ReconfigureMessage,
     McOpt_DHCPv6_ReconfigureAccept,
     McOpt_DHCPv6_IA_PD,
     McOpt_DHCPv6_IA_Prefix,
     McOpt_DHCPv6_DNS_Servers,
     McOpt_DHCPv6_DNS_SearchList,
     McOpt_DHCPv6_NTP_Servers,
     McOpt_DHCPv6_NTP_Timezone,
     McDHCPv6_DUID_ANY,
     McDHCPv6_DUID_LLT_ANY,
     McDHCPv6_DUID_LLT_Ether,
     McDHCPv6_DUID_EN,
     McDHCPv6_DUID_LL_ANY,
     McDHCPv6_DUID_LL_Ether,
     McDHCPv6_Auth_ANY,
     McDHCPv6_Auth_Delayed,
     McDHCPv6_Auth_ReconfigureKey,
     McUdp_DHCPv6_ONE,
     McDHCPv6_DUID_LLT_ONE,
     McDHCPv6_DUID_LL_ONE]"

end
