(* ===== verification/VHdrSnmp.thy ===== *)
theory VHdrSnmp
  imports VHdrNet
begin

text \<open>Classes of headers: IGMP, MLDv2 and SNMP.\<close>

definition McUpp_IGMP_common_member :: "int \<Rightarrow> (role \<times> member) list" where [class_defs]:
  "McUpp_IGMP_common_member type = [
      (Type_member, Element ''Type'' (MmUint 8) (Unique type) (Unique type) ICVCONST False),
      (Member, Element ''MaxRespTime'' (MmUint 8) (Unique 0) (Unique 0) ICVCONST False),
      (Member, Element ''Checksum'' (MmUppChecksum 16 False False) NoAuto NoAuto ICVCONST False)]"

definition McUpp_IGMP_ANY :: mc where [class_defs]:
  "McUpp_IGMP_ANY = Mc ''McUpp_IGMP_ANY'' (McUpp_IGMP_common_member (- 1) @ [
      (Member, Data ''data'' False ICVCONST)])
     [AddOther MmHeader_onIGMP]"

definition McUpp_IGMP_IGMPv3Report :: mc where [class_defs]:
  "McUpp_IGMP_IGMPv3Report = Mc ''McUpp_IGMP_IGMPv3Report'' (McUpp_IGMP_common_member TP_IGMP_IGMPv3Report @ [
      (Member, Element ''Reserved'' (MmUint 16) (Unique 0) (Unique 0) ICVCONST False),
      (Member, Element ''NumOfGroupAddrRecords'' (MmUint 16) (HC ''NumOfGroupAddrRecords'') EVALANY ICVCONST False),
      (Member, Reference MmIGMPv3AddrRecord_onIGMP ''IGMPv3_AddrRecord'')])
     [Add MmHeader_onIGMP TP_IGMP_IGMPv3Report]"

definition McUpp_IGMP_IGMPQuery :: mc where [class_defs]:
  "McUpp_IGMP_IGMPQuery = Mc ''McUpp_IGMP_IGMPQuery'' (McUpp_IGMP_common_member TP_IGMP_IGMPQuery @ [
      (Member, Element ''GroupAddress'' MmV4Addr MUST MUST ICVCONST False),
      (Member, Element ''Resv'' (MmUint 4) (Unique 0) (Unique 0) ICVCONST False),
      (Member, Element ''SFlag'' (MmUint 1) (Unique 0) (Unique 0) ICVCONST False),
      (Member, Element ''QRV'' (MmUint 3) (Unique 0) (Unique 0) ICVCONST False),
      (Member, Element ''QQIC'' (MmUint 8) (Unique 0) (Unique 0) ICVCONST False),
      (Member, Element ''NumOfSources'' (MmUint 16) (HC ''NumOfSources'') EVALANY ICVCONST False),
      (Member, Multiple (Element ''SourceAddress'' MmV4Addr MUST MUST ICVCONST False) ''SourceAddress'')])
     [Add MmHeader_onIGMP TP_IGMP_IGMPQuery]"

definition McUpp_IGMP_IGMPv1Report :: mc where [class_defs]:
  "McUpp_IGMP_IGMPv1Report = Mc ''McUpp_IGMP_IGMPv1Report'' (McUpp_IGMP_common_member TP_IGMP_IGMPv1Report @ [
      (Member, Element ''GroupAddress'' MmV4Addr MUST MUST ICVCONST False)])
     [Add MmHeader_onIGMP TP_IGMP_IGMPv1Report]"

definition McUpp_IGMP_IGMPv2Report :: mc where [class_defs]:
  "McUpp_IGMP_IGMPv2Report = Mc ''McUpp_IGMP_IGMPv2Report'' (McUpp_IGMP_common_member TP_IGMP_IGMPv2Report @ [
      (Member, Element ''GroupAddress'' MmV4Addr MUST MUST ICVCONST False)])
     [Add MmHeader_onIGMP TP_IGMP_IGMPv2Report]"

definition McUpp_IGMP_IGMPv2LeaveGroup :: mc where [class_defs]:
  "McUpp_IGMP_IGMPv2LeaveGroup = Mc ''McUpp_IGMP_IGMPv2LeaveGroup'' (McUpp_IGMP_common_member TP_IGMP_IGMPv2LeaveGroup @ [
      (Member, Element ''GroupAddress'' MmV4Addr MUST MUST ICVCONST False)])
     [Add MmHeader_onIGMP TP_IGMP_IGMPv2LeaveGroup]"

definition McIGMPv3_AddrRecord :: mc where [class_defs]:
  "McIGMPv3_AddrRecord = Mc ''McIGMPv3_AddrRecord'' ([
      (Type_member, Element ''Type'' (MmUint 8) (Unique 0) (Unique 0) ICVCONST False),
      (Auxdatalen_member, Element ''AuxDataLen'' (MmUint 8) (Unique 0) (Unique 0) ICVCONST False),
      (Numofsrc_member, Element ''NumOfSources'' (MmUint 16) (HC ''NumOfSources'') EVALANY ICVCONST False),
      (Mcastaddr_member, Element ''GroupAddress'' MmV4Addr MUST MUST ICVCONST False),
      (Member, Multiple (Element ''SourceAddress'' MmV4Addr MUST MUST ICVCONST False) ''SourceAddress''),
      (Member, Data ''AuxData'' False ICVCONST)])
     [Add MmIGMPv3AddrRecord_onIGMP (- 1)]"

definition McUpp_ICMPv6_MLDv2Report :: mc where [class_defs]:
  "McUpp_ICMPv6_MLDv2Report = Mc ''McUpp_ICMPv6_MLDv2Report'' (McUpp_ICMPv6_common_member TP_ICMPv6_MLDv2Report @ [
      (Member, Element ''Reserved'' (MmUint 16) (Unique 0) (Unique 0) ICVCONST False),
      (Member, Element ''NumOfMcastAddrRecords'' (MmUint 16) (HC ''NumOfMcastAddrRecords'') EVALANY ICVCONST False),
      (Member, Reference MmMLDv2AddrRecord_onICMPv6 ''MLDv2_AddrRecord'')])
     [Add MmHeader_onICMPv6 TP_ICMPv6_MLDv2Report]"

definition McUpp_ICMPv6_MLDQuery :: mc where [class_defs]:
  "McUpp_ICMPv6_MLDQuery = Mc ''McUpp_ICMPv6_MLDQuery'' (McUpp_ICMPv6_common_member TP_ICMPv6_MLDQuery @ [
      (Member, Element ''MaxResponseDelay'' (MmUint 16) (Unique 0) (Unique 0) ICVCONST False),
      (Member, Element ''Reserved'' (MmUint 16) (Unique 0) (Unique 0) ICVCONST False),
      (Member, Element ''MulticastAddress'' MmV6Addr MUST MUST ICVCONST False)])
     [Add MmHeader_onICMPv6 TP_ICMPv6_MLDQuery]"

definition McUpp_ICMPv6_MLDv2Query :: mc where [class_defs]:
  "McUpp_ICMPv6_MLDv2Query = Mc ''McUpp_ICMPv6_MLDv2Query'' ([
      (Type_member, Element ''Type'' (MmUint 8) (Unique TP_ICMPv6_MLDQuery) (Unique TP_ICMPv6_MLDQuery) ICVCONST False),
      (Code_member, Element ''Code'' (MmUint 8) (Unique 0) (Unique 0) ICVCONST False),
      (Member, Element ''Checksum'' (MmUppChecksum 16 False True) NoAuto NoAuto ICVCONST False),
      (Member, Element ''MaxResponseDelay'' (MmUint 16) (Unique 0) (Unique 0) ICVCONST False),
      (Member, Element ''Reserved'' (MmUint 16) (Unique 0) (Unique 0) ICVCONST False),
      (Member, Element ''MulticastAddress'' MmV6Addr MUST MUST ICVCONST False),
      (Member, Element ''Resv'' (MmUint 4) (Unique 0) (Unique 0) ICVCONST False),
      (Member, Element ''SFlag'' (MmUint 1) (Unique 0) (Unique 0) ICVCONST False),
      (Member, Element ''QRV'' (MmUint 3) (Unique 0) (Unique 0) ICVCONST False),
      (Member, Element ''QQIC'' (MmUint 8) (Unique 0) (Unique 0) ICVCONST False),
      (Member, Element ''NumOfSources'' (MmUint 16) (HC ''NumOfSources'') EVALANY ICVCONST False),
      (Member, Multiple (Element ''SourceAddress'' MmV6Addr MUST MUST ICVCONST False) ''SourceAddress'')])
     [Add MmHeader_onICMPv6 TP_ICMPv6_MLDv2Query]"

definition McMLDv2_AddrRecord :: mc where [class_defs]:
  "McMLDv2_AddrRecord = Mc ''McMLDv2_AddrRecord'' ([
      (Type_member, Element ''Type'' (MmUint 8) (Unique 0) (Unique 0) ICVCONST False),
      (Auxdatalen_member, Element ''AuxDataLen'' (MmUint 8) (Unique 0) (Unique 0) ICVCONST False),
      (Numofsrc_member, Element ''NumOfSources'' (MmUint 16) (HC ''NumOfSources'') EVALANY ICVCONST False),
      (Mcastaddr_member, Element ''MulticastAddress'' MmV6Addr MUST MUST ICVCONST False),
      (Member, Multiple (Element ''SourceAddress'' MmV6Addr MUST MUST ICVCONST False) ''SourceAddress''),
      (Member, Data ''AuxData'' False ICVCONST)])
     [Add MmMLDv2AddrRecord_onICMPv6 (- 1)]"

definition McUdp_SIP :: mc where [class_defs]:
  "McUdp_SIP = Mc ''McUdp_SIP'' ([
      (Member, Element ''message'' MmSIPMsg MUST MUST ICVCONST False)])
     [Add MmUpper_onUpper TP_Udp_SIP]"

definition McUdp_SNMP :: mc where [class_defs]:
  "McUdp_SNMP = Mc ''McUdp_SNMP'' ([
      (Member, Reference MmPdu_SNMP_onSNMP ''snmpmsg'')])
     [Add MmUpper_onUpper TP_Udp_SNMP]"

definition McUdp_SNMPTrap :: mc where [class_defs]:
  "McUdp_SNMPTrap = Mc ''McUdp_SNMPTrap'' ([
      (Member, Reference MmPdu_SNMP_onSNMP ''snmpmsg'')])
     [Add MmUpper_onUpper TP_Udp_SNMPTRAP]"

definition McPdu_SNMP_common_member :: "(role \<times> member) list" where [class_defs]:
  "McPdu_SNMP_common_member = [
      (Type_member, Element ''Type'' (MmUint 8) (HC ''Type'') (HC ''Type'') ICVCONST False),
      (Length_member, Element ''Length'' (MmUint 8) (HC ''Length'') EVALANY ICVCONST False)]"

definition McPdu_SNMP_ANY :: mc where [class_defs]:
  "McPdu_SNMP_ANY = Mc ''McPdu_SNMP_ANY'' (McPdu_SNMP_common_member @ [
      (Member, Data ''data'' False ICVCONST)])
     [AddOther MmPdu_SNMP_onSNMP,
      AddOther MmPdu_SNMP_onPDU,
      AddOther MmSNMP_Version_onSNMP_Message,
      AddOther MmSNMP_Community_onSNMP_Message,
      AddOther MmSNMP_RequestID_onSNMP_Message,
      AddOther MmSNMP_ErrorStatus_onSNMP_Message,
      AddOther MmSNMP_ErrorIndex_onSNMP_Message,
      AddOther MmSNMP_IPAddress_onTrap_Message,
      AddOther MmSNMP_GenericTrap_onTrap_Message,
      AddOther MmSNMP_SpecificTrap_onTrap_Message,
      AddOther MmSNMP_TimeStamp_onTrap_Message,
      AddOther MmSNMP_ObjectID_onTrap_Message,
      AddOther MmSNMP_VarBindList_onPDU,
      AddOther MmSNMP_VarBind_onPDU]"

definition McPdu_SNMP_Message :: mc where [class_defs]:
  "McPdu_SNMP_Message = Mc ''McPdu_SNMP_Message'' (McPdu_SNMP_common_member @ [
      (Member, Reference MmSNMP_Version_onSNMP_Message ''version''),
      (Member, Reference MmSNMP_Community_onSNMP_Message ''community''),
      (Member, Reference MmPdu_SNMP_onSNMP ''pdumsg'')])
     [Add MmPdu_SNMP_onSNMP TP_SNMP_Message]"

definition McPdu_SNMP_Version :: mc where [class_defs]:
  "McPdu_SNMP_Version = Mc ''McPdu_SNMP_Version'' (McPdu_SNMP_common_member @ [
      (Member, Element ''Version'' (MmSNMPVersion 8) (Unique 0) (Unique 0) ICVCONST False)])
     [Add MmSNMP_Version_onSNMP_Message TP_SNMP_Version]"

definition McPdu_SNMP_Community :: mc where [class_defs]:
  "McPdu_SNMP_Community = Mc ''McPdu_SNMP_Community'' (McPdu_SNMP_common_member @ [
      (Member, Element ''Community'' MmSNMPString MUST MUST ICVCONST False)])
     [Add MmSNMP_Community_onSNMP_Message TP_SNMP_Community]"

definition McPdu_SNMP_GetRequest :: mc where [class_defs]:
  "McPdu_SNMP_GetRequest = Mc ''McPdu_SNMP_GetRequest'' (McPdu_SNMP_common_member @ [
      (Member, Reference MmSNMP_RequestID_onSNMP_Message ''pdu_requestid''),
      (Member, Reference MmSNMP_ErrorStatus_onSNMP_Message ''pdu_errorstatus''),
      (Member, Reference MmSNMP_ErrorIndex_onSNMP_Message ''pdu_errorindex''),
      (Member, Reference MmSNMP_VarBindList_onPDU ''pdu_varbindlist'')])
     [Add MmPdu_SNMP_onSNMP TP_SNMP_GetRequest]"

definition McPdu_SNMP_GetNextRequest :: mc where [class_defs]:
  "McPdu_SNMP_GetNextRequest = Mc ''McPdu_SNMP_GetNextRequest'' (McPdu_SNMP_common_member @ [
      (Member, Reference MmSNMP_RequestID_onSNMP_Message ''pdu_requestid''),
      (Member, Reference MmSNMP_ErrorStatus_onSNMP_Message ''pdu_errorstatus''),
      (Member, Reference MmSNMP_ErrorIndex_onSNMP_Message ''pdu_errorindex''),
      (Member, Reference MmSNMP_VarBindList_onPDU ''pdu_varbindlist'')])
     [Add MmPdu_SNMP_onSNMP TP_SNMP_GetNextRequest]"

definition McPdu_SNMP_SetRequest :: mc where [class_defs]:
  "McPdu_SNMP_SetRequest = Mc ''McPdu_SNMP_SetRequest'' (McPdu_SNMP_common_member @ [
      (Member, Reference MmSNMP_RequestID_onSNMP_Message ''pdu_requestid''),
      (Member, Reference MmSNMP_ErrorStatus_onSNMP_Message ''pdu_errorstatus''),
      (Member, Reference MmSNMP_ErrorIndex_onSNMP_Message ''pdu_errorindex''),
      (Member, Reference MmSNMP_VarBindList_onPDU ''pdu_varbindlist'')])
     [Add MmPdu_SNMP_onSNMP TP_SNMP_SetRequest]"

definition McPdu_SNMP_GetResponse :: mc where [class_defs]:
  "McPdu_SNMP_GetResponse = Mc ''McPdu_SNMP_GetResponse'' (McPdu_SNMP_common_member @ [
      (Member, Reference MmSNMP_RequestID_onSNMP_Message ''pdu_requestid''),
      (Member, Reference MmSNMP_ErrorStatus_onSNMP_Message ''pdu_errorstatus''),
      (Member, Reference MmSNMP_ErrorIndex_onSNMP_Message ''pdu_errorindex''),
      (Member, Reference MmSNMP_VarBindList_onPDU ''pdu_varbindlist'')])
     [Add MmPdu_SNMP_onSNMP TP_SNMP_GetResponse]"

definition McPdu_SNMP_Trap :: mc where [class_defs]:
  "McPdu_SNMP_Trap = Mc ''McPdu_SNMP_Trap'' (McPdu_SNMP_common_member @ [
      (Member, Reference MmSNMP_ObjectID_onTrap_Message ''pdu_enterpriseoid''),
      (Member, Reference MmSNMP_IPAddress_onTrap_Message ''pdu_ipaddress''),
      (Member, Reference MmSNMP_GenericTrap_onTrap_Message ''pdu_generictrap''),
      (Member, Reference MmSNMP_SpecificTrap_onTrap_Message ''pdu_specifictrap''),
      (Member, Reference MmSNMP_TimeStamp_onTrap_Message ''pdu_timestamp''),
      (Member, Reference MmSNMP_VarBindList_onPDU ''pdu_varbindlist'')])
     [Add MmPdu_SNMP_onSNMP TP_SNMP_Trap]"

definition McPdu_SNMP_GetBulk :: mc where [class_defs]:
  "McPdu_SNMP_GetBulk = Mc ''McPdu_SNMP_GetBulk'' (McPdu_SNMP_common_member @ [
      (Member, Reference MmSNMP_RequestID_onSNMP_Message ''pdu_requestid''),
      (Member, Reference MmSNMP_ErrorStatus_onSNMP_Message ''pdu_errorstatus''),
      (Member, Reference MmSNMP_ErrorIndex_onSNMP_Message ''pdu_errorindex''),
      (Member, Reference MmSNMP_VarBindList_onPDU ''pdu_varbindlist'')])
     [Add MmPdu_SNMP_onSNMP TP_SNMP_GetBulk]"

definition McPdu_SNMP_Inform :: mc where [class_defs]:
  "McPdu_SNMP_Inform = Mc ''McPdu_SNMP_Inform'' (McPdu_SNMP_common_member @ [
      (Member, Reference MmSNMP_RequestID_onSNMP_Message ''pdu_requestid''),
      (Member, Reference MmSNMP_ErrorStatus_onSNMP_Message ''pdu_errorstatus''),
      (Member, Reference MmSNMP_ErrorIndex_onSNMP_Message ''pdu_errorindex''),
      (Member, Reference MmSNMP_VarBindList_onPDU ''pdu_varbindlist'')])
     [Add MmPdu_SNMP_onSNMP TP_SNMP_Inform]"

definition McPdu_SNMP_Trap2 :: mc where [class_defs]:
  "McPdu_SNMP_Trap2 = Mc ''McPdu_SNMP_Trap2'' (McPdu_SNMP_common_member @ [
      (Member, Reference MmSNMP_RequestID_onSNMP_Message ''pdu_requestid''),
      (Member, Reference MmSNMP_ErrorStatus_onSNMP_Message ''pdu_errorstatus''),
      (Member, Reference MmSNMP_ErrorIndex_onSNMP_Message ''pdu_errorindex''),
      (Member, Reference MmSNMP_VarBindList_onPDU ''pdu_varbindlist'')])
     [Add MmPdu_SNMP_onSNMP TP_SNMP_Trap2]"

definition McPdu_SNMP_Report :: mc where [class_defs]:
  "McPdu_SNMP_Report = Mc ''McPdu_SNMP_Report'' (McPdu_SNMP_common_member @ [
      (Member, Reference MmSNMP_RequestID_onSNMP_Message ''pdu_requestid''),
      (Member, Reference MmSNMP_ErrorStatus_onSNMP_Message ''pdu_errorstatus''),
      (Member, Reference MmSNMP_ErrorIndex_onSNMP_Message ''pdu_errorindex''),
      (Member, Reference MmSNMP_VarBindList_onPDU ''pdu_varbindlist'')])
     [Add MmPdu_SNMP_onSNMP TP_SNMP_Report]"

definition McPdu_SNMP_RequestID :: mc where [class_defs]:
  "McPdu_SNMP_RequestID = Mc ''McPdu_SNMP_RequestID'' (McPdu_SNMP_common_member @ [
      (Member, Element ''RequestID'' (MmUint 32) (Unique 0) (Unique 0) ICVCONST False)])
     [Add MmSNMP_RequestID_onSNMP_Message TP_SNMP_RequestID]"

definition McPdu_SNMP_ErrorStatus :: mc where [class_defs]:
  "McPdu_SNMP_ErrorStatus = Mc ''McPdu_SNMP_ErrorStatus'' (McPdu_SNMP_common_member @ [
      (Member, Element ''ErrorStatus'' (MmErrorStatus 8) (Unique 0) (Unique 0) ICVCONST False)])
     [Add MmSNMP_ErrorStatus_onSNMP_Message TP_SNMP_ErrorStatus]"

definition McPdu_SNMP_ErrorIndex :: mc where [class_defs]:
  "McPdu_SNMP_ErrorIndex = Mc ''McPdu_SNMP_ErrorIndex'' (McPdu_SNMP_common_member @ [
      (Member, Element ''ErrorIndex'' (MmUint 8) (Unique 0) (Unique 0) ICVCONST False)])
     [Add MmSNMP_ErrorIndex_onSNMP_Message TP_SNMP_ErrorIndex]"

definition McPdu_SNMP_GenericTrap :: mc where [class_defs]:
  "McPdu_SNMP_GenericTrap = Mc ''McPdu_SNMP_GenericTrap'' (McPdu_SNMP_common_member @ [
      (Member, Element ''GenericTrap'' (MmUint 8) (Unique 0) (Unique 0) ICVCONST False)])
     [Add MmSNMP_GenericTrap_onTrap_Message TP_SNMP_GenericTrap]"

definition McPdu_SNMP_SpecificTrap :: mc where [class_defs]:
  "McPdu_SNMP_SpecificTrap = Mc ''McPdu_SNMP_SpecificTrap'' (McPdu_SNMP_common_member @ [
      (Member, Element ''SpecificTrap'' (MmUint 8) (Unique 0) (Unique 0) ICVCONST False)])
     [Add MmSNMP_SpecificTrap_onTrap_Message TP_SNMP_SpecificTrap]"

definition McPdu_SNMP_VarBindList :: mc where [class_defs]:
  "McPdu_SNMP_VarBindList = Mc ''McPdu_SNMP_VarBindList'' (McPdu_SNMP_common_member @ [
      (Member, Reference MmSNMP_VarBind_onPDU ''pdu'')])
     [Add MmSNMP_VarBindList_onPDU TP_SNMP_VarBindList]"

definition McPdu_SNMP_VarBind :: mc where [class_defs]:
  "McPdu_SNMP_VarBind = Mc ''McPdu_SNMP_VarBind'' (McPdu_SNMP_common_member @ [
      (Member, Reference MmPdu_SNMP_onPDU ''pdu'')])
     [Add MmSNMP_VarBind_onPDU TP_SNMP_VarBind]"

definition McPdu_SNMP_Boolean :: mc where [class_defs]:
  "McPdu_SNMP_Boolean = Mc ''McPdu_SNMP_Boolean'' (McPdu_SNMP_common_member @ [
      (Member, Data ''data'' False ICVCONST)])
     [Add MmPdu_SNMP_onPDU TP_SNMP_ASN_Boolean]"

definition McPdu_SNMP_Integer :: mc where [class_defs]:
  "McPdu_SNMP_Integer = Mc ''McPdu_SNMP_Integer'' (McPdu_SNMP_common_member @ [
      (Member, Data ''data'' False ICVCONST)])
     [Add MmPdu_SNMP_onPDU TP_SNMP_ASN_Integer]"

definition McPdu_SNMP_BitString :: mc where [class_defs]:
  "McPdu_SNMP_BitString = Mc ''McPdu_SNMP_BitString'' (McPdu_SNMP_common_member @ [
      (Member, Data ''data'' False ICVCONST)])
     [Add MmPdu_SNMP_onPDU TP_SNMP_ASN_BitString]"

definition McPdu_SNMP_OctString :: mc where [class_defs]:
  "McPdu_SNMP_OctString = Mc ''McPdu_SNMP_OctString'' (McPdu_SNMP_common_member @ [
      (Member, Element ''OctString'' MmSNMPString MUST MUST ICVCONST False)])
     [Add MmPdu_SNMP_onPDU TP_SNMP_ASN_OctString]"

definition McPdu_SNMP_Null :: mc where [class_defs]:
  "McPdu_SNMP_Null = Mc ''McPdu_SNMP_Null'' (McPdu_SNMP_common_member @ [
      (Member, Data ''data'' False ICVCONST)])
     [Add MmPdu_SNMP_onPDU TP_SNMP_ASN_Null]"

definition McPdu_SNMP_ObjectID :: mc where [class_defs]:
  "McPdu_SNMP_ObjectID = Mc ''McPdu_SNMP_ObjectID'' (McPdu_SNMP_common_member @ [
      (Member, Element ''ObjectID'' MmObjectID MUST MUST ICVCONST False)])
     [Add MmSNMP_ObjectID_onTrap_Message TP_SNMP_ASN_ObjectID,
      Add MmPdu_SNMP_onPDU TP_SNMP_ASN_ObjectID]"

definition McPdu_SNMP_Sequence :: mc where [class_defs]:
  "McPdu_SNMP_Sequence = Mc ''McPdu_SNMP_Sequence'' (McPdu_SNMP_common_member @ [
      (Member, Data ''data'' False ICVCONST)])
     [Add MmPdu_SNMP_onPDU TP_SNMP_ASN_Sequence]"

definition McPdu_SNMP_Set :: mc where [class_defs]:
  "McPdu_SNMP_Set = Mc ''McPdu_SNMP_Set'' (McPdu_SNMP_common_member @ [
      (Member, Data ''data'' False ICVCONST)])
     [Add MmPdu_SNMP_onPDU TP_SNMP_ASN_Set]"

definition McPdu_SNMP_Opaque :: mc where [class_defs]:
  "McPdu_SNMP_Opaque = Mc ''McPdu_SNMP_Opaque'' (McPdu_SNMP_common_member @ [
      (Member, Reference MmPdu_SNMP_onPDU ''pdu'')])
     [Add MmPdu_SNMP_onPDU TP_SNMP_ASN_Opaque]"

definition McPdu_SNMP_IPAddress :: mc where [class_defs]:
  "McPdu_SNMP_IPAddress = Mc ''McPdu_SNMP_IPAddress'' (McPdu_SNMP_common_member @ [
      (Member, Element ''IPAddress'' MmV4Addr NoAuto NoAuto ICVCONST False)])
     [Add MmSNMP_IPAddress_onTrap_Message TP_SNMP_ASN_IPAddress,
      Add MmPdu_SNMP_onPDU TP_SNMP_ASN_IPAddress]"

definition McPdu_SNMP_Counter :: mc where [class_defs]:
  "McPdu_SNMP_Counter = Mc ''McPdu_SNMP_Counter'' (McPdu_SNMP_common_member @ [
      (Member, Data ''Counter'' False ICVCONST)])
     [Add MmPdu_SNMP_onPDU TP_SNMP_ASN_Counter]"

definition McPdu_SNMP_Gauge :: mc where [class_defs]:
  "McPdu_SNMP_Gauge = Mc ''McPdu_SNMP_Gauge'' (McPdu_SNMP_common_member @ [
      (Member, Data ''Gauge'' False ICVCONST)])
     [Add MmPdu_SNMP_onPDU TP_SNMP_ASN_Gauge]"

definition McPdu_SNMP_TimeTicks :: mc where [class_defs]:
  "McPdu_SNMP_TimeTicks = Mc ''McPdu_SNMP_TimeTicks'' (McPdu_SNMP_common_member @ [
      (Member, Data ''TimeTicks'' False ICVCONST)])
     [Add MmSNMP_TimeStamp_onTrap_Message TP_SNMP_ASN_TimeTicks,
      Add MmPdu_SNMP_onPDU TP_SNMP_ASN_TimeTicks]"

definition McUpp_IGMP_ONE :: mc where [class_defs]:
  "McUpp_IGMP_ONE = Mc ''McUpp_IGMP_ONE'' ([(Member, Reference MmHeader_onIGMP ''header'')])
     [Add MmUpper_onIP TP_Upp_IGMP]"

text \<open>All of them.\<close>

definition VHdrSnmp_classes :: "mc list" where
  "VHdrSnmp_classes = [McUpp_IGMP_ANY,
     McUpp_IGMP_IGMPv3Report,
     McUpp_IGMP_IGMPQuery,
     McUpp_IGMP_IGMPv1Report,
     McUpp_IGMP_IGMPv2Report,
     McUpp_IGMP_IGMPv2LeaveGroup,
     McIGMPv3_AddrRecord,
     McUpp_ICMPv6_MLDv2Report,
     McUpp_ICMPv6_MLDQuery,
     McUpp_ICMPv6_MLDv2Query,
     McMLDv2_AddrRecord,
     McUdp_SIP,
     McUdp_SNMP,
     McUdp_SNMPTrap,
     McPdu_SNMP_ANY,
     McPdu_SNMP_Message,
     McPdu_SNMP_Version,
     McPdu_SNMP_Community,
     McPdu_SNMP_GetRequest,
     McPdu_SNMP_GetNextRequest,
     McPdu_SNMP_SetRequest,
     McPdu_SNMP_GetResponse,
     McPdu_SNMP_Trap,
     McPdu_SNMP_GetBulk,
     McPdu_SNMP_Inform,
     McPdu_SNMP_Trap2,
     McPdu_SNMP_Report,
     McPdu_SNMP_RequestID,
     McPdu_SNMP_ErrorStatus,
     McPdu_SNMP_ErrorIndex,
     McPdu_SNMP_GenericTrap,
     McPdu_SNMP_SpecificTrap,
     McPdu_SNMP_VarBindList,
     McPdu_SNMP_VarBind,
     McPdu_SNMP_Boolean,
     McPdu_SNMP_Integer,
     McPdu_SNMP_BitString,
     McPdu_SNMP_OctString,
     McPdu_SNMP_Null,
     McPdu_SNMP_ObjectID,
     McPdu_SNMP_Sequence,
     McPdu_SNMP_Set,
     McPdu_SNMP_Opaque,
     McPdu_SNMP_IPAddress,
     McPdu_SNMP_Counter,
     McPdu_SNMP_Gauge,
     McPdu_SNMP_TimeTicks,
     McUpp_IGMP_ONE]"

end
