(* ===== verification/VHdrIke.thy ===== *)
theory VHdrIke
  imports VTypes
begin

text \<open>Classes of headers: ISAKMP.\<close>

definition McUdp_ISAKMP :: mc where [class_defs]:
  "McUdp_ISAKMP = Mc ''McUdp_ISAKMP'' ([
      (Member, Reference (MmTopHdr ''McHdr_ISAKMP'') ''header''),
      (Member, Reference MmEncrypt_onISAKMP ''encrypt''),
      (Member, Reference MmPayload_onISAKMP ''payload'')])
     [Add MmUpper_onUpper TP_Udp_ISAKMP]"

definition McHdr_ISAKMP :: mc where [class_defs]:
  "McHdr_ISAKMP = Mc ''McHdr_ISAKMP'' ([
      (Member, Element ''InitiatorCookie'' MmMH_Cookie64 ZEROS ZEROS ICVCONST False),
      (Member, Element ''ResponderCookie'' MmMH_Cookie64 ZEROS ZEROS ICVCONST False),
      (NextType_member, Element ''NextPayload'' (MmUint 8) (HC ''NextPayload'') (HC ''NextPayload'') ICVCONST False),
      (Member, Element ''MjVer'' (MmUint 4) (Unique 1) (Unique 1) ICVCONST False),
      (Member, Element ''MnVer'' (MmUint 4) (Unique 0) (Unique 0) ICVCONST False),
      (Member, Element ''ExchangeType'' (MmUint 8) (Unique 0) (Unique 0) ICVCONST False),
      (Member, Element ''Reserved'' (MmUint 5) (Unique 0) (Unique 0) ICVCONST False),
      (Member, Element ''AFlag'' (MmUint 1) (Unique 0) (Unique 0) ICVCONST False),
      (Member, Element ''CFlag'' (MmUint 1) (Unique 0) (Unique 0) ICVCONST False),
      (EFlag_member, Element ''EFlag'' (MmUint 1) (HC ''EFlag'') (HC ''EFlag'') ICVCONST False),
      (MIDmember, Element ''MessageID'' (MmISAKMP_MessageID 32) (Unique 0) (Unique 0) ICVCONST False),
      (Layerlength_member, Element ''Length'' (MmUint 32) (HC ''Length'') EVALANY ICVCONST False)])
     []"

definition McPld_ISAKMP_common_member :: "(role \<times> member) list" where [class_defs]:
  "McPld_ISAKMP_common_member = [
      (NextType_member, Element ''NextPayload'' (MmUint 8) (HC ''NextPayload'') (HC ''NextPayload'') ICVCONST False),
      (Member, Element ''Reserved1'' (MmUint 8) (Unique 0) (Unique 0) ICVCONST False),
      (Layerlength_member, Element ''PayloadLength'' (MmUint 16) (HC ''PayloadLength'') EVALANY ICVCONST False)]"

definition McPld_ISAKMP_ANY :: mc where [class_defs]:
  "McPld_ISAKMP_ANY = Mc ''McPld_ISAKMP_ANY'' (McPld_ISAKMP_common_member @ [
      (Member, Element ''data'' MmVarOctets NoAuto EVALZERO ICVCONST False)])
     [AddOther MmPayload_onISAKMP,
      AddOther MmISAKMP_PonSA,
      AddOther MmISAKMP_TonP]"

definition McPld_ISAKMP_SA_common_member :: "(role \<times> member) list" where [class_defs]:
  "McPld_ISAKMP_SA_common_member = McPld_ISAKMP_common_member @ [
      (DOImember, Element ''DOI'' (MmUint 32) (HC ''DOI'') (HC ''DOI'') ICVCONST False)]"

definition McPld_ISAKMP_SA_ANY :: mc where [class_defs]:
  "McPld_ISAKMP_SA_ANY = Mc ''McPld_ISAKMP_SA_ANY'' (McPld_ISAKMP_SA_common_member @ [
      (Member, Element ''Situation'' MmVarOctets NoAuto EVALZERO ICVCONST False)])
     [AddOther MmDOIonSA]"

definition McPld_ISAKMP_SA_IPsec_common_member :: "(role \<times> member) list" where [class_defs]:
  "McPld_ISAKMP_SA_IPsec_common_member = McPld_ISAKMP_SA_common_member @ [
      (SITmember, Element ''Situation'' (MmUint 32) (HC ''Situation'') (HC ''Situation'') ICVCONST False)]"

definition McPld_ISAKMP_SA_IPsec_ANY :: mc where [class_defs]:
  "McPld_ISAKMP_SA_IPsec_ANY = Mc ''McPld_ISAKMP_SA_IPsec_ANY'' (McPld_ISAKMP_SA_IPsec_common_member @ [
      (Member, Element ''data'' MmVarOctets NoAuto EVALZERO ICVCONST False)])
     [AddOther MmSIT_onSA_IPsec]"

definition McPld_ISAKMP_SA_IPsec_IDonly :: mc where [class_defs]:
  "McPld_ISAKMP_SA_IPsec_IDonly = Mc ''McPld_ISAKMP_SA_IPsec_IDonly'' (McPld_ISAKMP_SA_IPsec_common_member @ [
      (Member, Reference MmISAKMP_PonSA ''proposal'')])
     [Add MmSIT_onSA_IPsec TP_IPSECDOI_SIT_IDENTITY_ONLY]"

definition McPld_ISAKMP_P_common_member :: "(role \<times> member) list" where [class_defs]:
  "McPld_ISAKMP_P_common_member = McPld_ISAKMP_common_member @ [
      (Member, Element ''ProposalNumber'' (MmUint 8) (Unique 0) (Unique 0) ICVCONST False),
      (ProtocolIDmember, Element ''ProtocolID'' (MmUint 8) (HC ''ProtocolID'') (HC ''ProtocolID'') ICVCONST False)]"

definition McPld_ISAKMP_P_spisize_member :: "(role \<times> member) list" where [class_defs]:
  "McPld_ISAKMP_P_spisize_member = [
      (SPIsize_member, Element ''SPIsize'' (MmUint 8) (HC ''SPIsize'') EVALANY ICVCONST False)]"

definition McPld_ISAKMP_P_transnum_member :: "(role \<times> member) list" where [class_defs]:
  "McPld_ISAKMP_P_transnum_member = [
      (Member, Element ''NumOfTransforms'' (MmUint 8) (HC ''NumOfTransforms'') (HC ''NumOfTransforms'') ICVCONST False)]"

definition McPld_ISAKMP_P :: mc where [class_defs]:
  "McPld_ISAKMP_P = Mc ''McPld_ISAKMP_P'' (McPld_ISAKMP_P_common_member @ McPld_ISAKMP_P_spisize_member @ McPld_ISAKMP_P_transnum_member @ [
      (SPImember, Element ''SPI'' MmISAKMP_SPI NoAuto EVALZERO ICVCONST False),
      (Member, Reference MmISAKMP_TonP ''transform'')])
     [AddOther MmProtocolIDonP]"

definition McPld_ISAKMP_P_ISAKMP :: mc where [class_defs]:
  "McPld_ISAKMP_P_ISAKMP = Mc ''McPld_ISAKMP_P_ISAKMP'' (McPld_ISAKMP_P_common_member @ McPld_ISAKMP_P_spisize_member @ McPld_ISAKMP_P_transnum_member @ [
      (SPImember, Element ''SPI'' MmISAKMP_SPI NoAuto EVALZERO ICVCONST False),
      (Member, Reference MmISAKMP_TonP ''transform'')])
     [Add MmProtocolIDonP TP_IPSECDOI_PROTO_ISAKMP]"

definition McPld_ISAKMP_P_IPsec_AH :: mc where [class_defs]:
  "McPld_ISAKMP_P_IPsec_AH = Mc ''McPld_ISAKMP_P_IPsec_AH'' (McPld_ISAKMP_P_common_member @ [
      (Member, Element ''SPIsize'' (MmUint 8) (Unique 4) (Unique 4) ICVCONST False)] @ McPld_ISAKMP_P_transnum_member @ [
      (Member, Element ''SPI'' (MmUint 32) (Unique 0) (Unique 0) ICVCONST False),
      (Member, Reference MmISAKMP_TonP ''transform'')])
     [Add MmProtocolIDonP TP_IPSECDOI_PROTO_AH]"

definition McPld_ISAKMP_P_IPsec_ESP :: mc where [class_defs]:
  "McPld_ISAKMP_P_IPsec_ESP = Mc ''McPld_ISAKMP_P_IPsec_ESP'' (McPld_ISAKMP_P_common_member @ [
      (Member, Element ''SPIsize'' (MmUint 8) (Unique 4) (Unique 4) ICVCONST False)] @ McPld_ISAKMP_P_transnum_member @ [
      (Member, Element ''SPI'' (MmUint 32) (Unique 0) (Unique 0) ICVCONST False),
      (Member, Reference MmISAKMP_TonP ''transform'')])
     [Add MmProtocolIDonP TP_IPSECDOI_PROTO_ESP]"

definition McPld_ISAKMP_P_IPCOMP :: mc where [class_defs]:
  "McPld_ISAKMP_P_IPCOMP = Mc ''McPld_ISAKMP_P_IPCOMP'' (McPld_ISAKMP_P_common_member @ McPld_ISAKMP_P_spisize_member @ McPld_ISAKMP_P_transnum_member @ [
      (SPImember, Element ''SPI'' MmISAKMP_SPI NoAuto EVALZERO ICVCONST False),
      (Member, Reference MmISAKMP_TonP ''transform'')])
     [Add MmProtocolIDonP TP_IPSECDOI_PROTO_IPCOMP]"

definition McPld_ISAKMP_T :: mc where [class_defs]:
  "McPld_ISAKMP_T = Mc ''McPld_ISAKMP_T'' (McPld_ISAKMP_common_member @ [
      (Member, Element ''TransformNumber'' (MmUint 8) (Unique 0) (Unique 0) ICVCONST False),
      (Member, Element ''TransformID'' (MmUint 8) (Unique 0) (Unique 0) ICVCONST False),
      (Member, Element ''Reserved2'' (MmUint 16) (Unique 0) (Unique 0) ICVCONST False),
      (Member, Reference MmAttr_onT ''attribute'')])
     [Add MmPayload_onISAKMP TP_ISAKMP_NPTYPE_T,
      Add MmISAKMP_PonSA TP_ISAKMP_NPTYPE_T,
      Add MmISAKMP_TonP TP_ISAKMP_NPTYPE_T]"

definition McPld_ISAKMP_KE :: mc where [class_defs]:
  "McPld_ISAKMP_KE = Mc ''McPld_ISAKMP_KE'' (McPld_ISAKMP_common_member @ [
      (Member, Element ''KeyExchangeData'' MmVarOctets NoAuto EVALZERO ICVCONST False)])
     [Add MmPayload_onISAKMP TP_ISAKMP_NPTYPE_KE,
      Add MmISAKMP_PonSA TP_ISAKMP_NPTYPE_KE,
      Add MmISAKMP_TonP TP_ISAKMP_NPTYPE_KE]"

definition McPld_ISAKMP_ID_common_member :: "(role \<times> member) list" where [class_defs]:
  "McPld_ISAKMP_ID_common_member = McPld_ISAKMP_common_member @ [
      (IDtype_member, Element ''IDtype'' (MmUint 8) (HC ''IDtype'') (HC ''IDtype'') ICVCONST False),
      (Member, Element ''ProtocolID'' (MmUint 8) (Unique 0) (Unique 0) ICVCONST False),
      (Member, Element ''Port'' (MmUint 16) (Unique 0) (Unique 0) ICVCONST False)]"

definition McPld_ISAKMP_ID :: mc where [class_defs]:
  "McPld_ISAKMP_ID = Mc ''McPld_ISAKMP_ID'' (McPld_ISAKMP_ID_common_member @ [
      (Member, Element ''ID'' MmVarOctets NoAuto EVALZERO ICVCONST False)])
     [AddOther MmIDtype_onID]"

definition McPld_ISAKMP_ID_IPV4_ADDR :: mc where [class_defs]:
  "McPld_ISAKMP_ID_IPV4_ADDR = Mc ''McPld_ISAKMP_ID_IPV4_ADDR'' (McPld_ISAKMP_ID_common_member @ [
      (Member, Element ''ID'' MmV4Addr MUST MUST ICVCONST False)])
     [Add MmIDtype_onID TP_IPSECDOI_ID_IPV4_ADDR]"

definition McPld_ISAKMP_ID_FQDN :: mc where [class_defs]:
  "McPld_ISAKMP_ID_FQDN = Mc ''McPld_ISAKMP_ID_FQDN'' (McPld_ISAKMP_ID_common_member @ [
      (Member, Element ''ID'' MmAsciiString NoAuto EVALZERO ICVCONST False)])
     [Add MmIDtype_onID TP_IPSECDOI_ID_FQDN]"

definition McPld_ISAKMP_ID_USER_FQDN :: mc where [class_defs]:
  "McPld_ISAKMP_ID_USER_FQDN = Mc ''McPld_ISAKMP_ID_USER_FQDN'' (McPld_ISAKMP_ID_common_member @ [
      (Member, Element ''ID'' MmAsciiString NoAuto EVALZERO ICVCONST False)])
     [Add MmIDtype_onID TP_IPSECDOI_ID_USER_FQDN]"

definition McPld_ISAKMP_ID_IPV4_ADDR_SUBNET :: mc where [class_defs]:
  "McPld_ISAKMP_ID_IPV4_ADDR_SUBNET = Mc ''McPld_ISAKMP_ID_IPV4_ADDR_SUBNET'' (McPld_ISAKMP_ID_common_member @ [
      (Member, Element ''ID1'' MmV4Addr MUST MUST ICVCONST False),
      (Member, Element ''ID2'' MmV4Addr MUST MUST ICVCONST False)])
     [Add MmIDtype_onID TP_IPSECDOI_ID_IPV4_ADDR_SUBNET]"

definition McPld_ISAKMP_ID_IPV6_ADDR :: mc where [class_defs]:
  "McPld_ISAKMP_ID_IPV6_ADDR = Mc ''McPld_ISAKMP_ID_IPV6_ADDR'' (McPld_ISAKMP_ID_common_member @ [
      (Member, Element ''ID'' MmV6Addr MUST MUST ICVCONST False)])
     [Add MmIDtype_onID TP_IPSECDOI_ID_IPV6_ADDR]"

definition McPld_ISAKMP_ID_IPV6_ADDR_SUBNET :: mc where [class_defs]:
  "McPld_ISAKMP_ID_IPV6_ADDR_SUBNET = Mc ''McPld_ISAKMP_ID_IPV6_ADDR_SUBNET'' (McPld_ISAKMP_ID_common_member @ [
      (Member, Element ''ID1'' MmV6Addr MUST MUST ICVCONST False),
      (Member, Element ''ID2'' MmV6Addr MUST MUST ICVCONST False)])
     [Add MmIDtype_onID TP_IPSECDOI_ID_IPV6_ADDR_SUBNET]"

definition McPld_ISAKMP_ID_IPV4_ADDR_RANGE :: mc where [class_defs]:
  "McPld_ISAKMP_ID_IPV4_ADDR_RANGE = Mc ''McPld_ISAKMP_ID_IPV4_ADDR_RANGE'' (McPld_ISAKMP_ID_common_member @ [
      (Member, Element ''ID1'' MmV4Addr MUST MUST ICVCONST False),
      (Member, Element ''ID2'' MmV4Addr MUST MUST ICVCONST False)])
     [Add MmIDtype_onID TP_IPSECDOI_ID_IPV4_ADDR_RANGE]"

definition McPld_ISAKMP_ID_IPV6_ADDR_RANGE :: mc where [class_defs]:
  "McPld_ISAKMP_ID_IPV6_ADDR_RANGE = Mc ''McPld_ISAKMP_ID_IPV6_ADDR_RANGE'' (McPld_ISAKMP_ID_common_member @ [
      (Member, Element ''ID1'' MmV6Addr MUST MUST ICVCONST False),
      (Member, Element ''ID2'' MmV6Addr MUST MUST ICVCONST False)])
     [Add MmIDtype_onID TP_IPSECDOI_ID_IPV6_ADDR_RANGE]"

definition McPld_ISAKMP_ID_DER_ASN1_DN :: mc where [class_defs]:
  "McPld_ISAKMP_ID_DER_ASN1_DN = Mc ''McPld_ISAKMP_ID_DER_ASN1_DN'' (McPld_ISAKMP_ID_common_member @ [
      (Member, Element ''ID'' MmVarOctets NoAuto EVALZERO ICVCONST False)])
     [Add MmIDtype_onID TP_IPSECDOI_ID_DER_ASN1_DN]"

definition McPld_ISAKMP_ID_DER_ASN1_GN :: mc where [class_defs]:
  "McPld_ISAKMP_ID_DER_ASN1_GN = Mc ''McPld_ISAKMP_ID_DER_ASN1_GN'' (McPld_ISAKMP_ID_common_member @ [
      (Member, Element ''ID'' MmVarOctets NoAuto EVALZERO ICVCONST False)])
     [Add MmIDtype_onID TP_IPSECDOI_ID_DER_ASN1_GN]"

definition McPld_ISAKMP_ID_KEY_ID :: mc where [class_defs]:
  "McPld_ISAKMP_ID_KEY_ID = Mc ''McPld_ISAKMP_ID_KEY_ID'' (McPld_ISAKMP_ID_common_member @ [
      (Member, Element ''ID'' MmVarOctets NoAuto EVALZERO ICVCONST False)])
     [Add MmIDtype_onID TP_IPSECDOI_ID_KEY_ID]"

definition McPld_ISAKMP_CERT :: mc where [class_defs]:
  "McPld_ISAKMP_CERT = Mc ''McPld_ISAKMP_CERT'' (McPld_ISAKMP_common_member @ [
      (Member, Element ''CertEncoding'' (MmUint 8) (Unique 0) (Unique 0) ICVCONST False),
      (Member, Element ''CertData'' MmVarOctets NoAuto EVALZERO ICVCONST False)])
     [Add MmPayload_onISAKMP TP_ISAKMP_NPTYPE_CERT,
      Add MmISAKMP_PonSA TP_ISAKMP_NPTYPE_CERT,
      Add MmISAKMP_TonP TP_ISAKMP_NPTYPE_CERT]"

definition McPld_ISAKMP_CR :: mc where [class_defs]:
  "McPld_ISAKMP_CR = Mc ''McPld_ISAKMP_CR'' (McPld_ISAKMP_common_member @ [
      (Member, Element ''CertType'' (MmUint 8) (Unique 0) (Unique 0) ICVCONST False),
      (Member, Element ''CertAuthority'' MmVarOctets NoAuto EVALZERO ICVCONST False)])
     [Add MmPayload_onISAKMP TP_ISAKMP_NPTYPE_CR,
      Add MmISAKMP_PonSA TP_ISAKMP_NPTYPE_CR,
      Add MmISAKMP_TonP TP_ISAKMP_NPTYPE_CR]"

definition McPld_ISAKMP_HASH :: mc where [class_defs]:
  "McPld_ISAKMP_HASH = Mc ''McPld_ISAKMP_HASH'' (McPld_ISAKMP_common_member @ [
      (Member, Element ''HashData'' MmP2_HASH_2 NoAuto EVALZERO ICVCONST False)])
     [Add MmPayload_onISAKMP TP_ISAKMP_NPTYPE_HASH,
      Add MmISAKMP_PonSA TP_ISAKMP_NPTYPE_HASH,
      Add MmISAKMP_TonP TP_ISAKMP_NPTYPE_HASH]"

definition McPld_ISAKMP_SIG :: mc where [class_defs]:
  "McPld_ISAKMP_SIG = Mc ''McPld_ISAKMP_SIG'' (McPld_ISAKMP_common_member @ [
      (Member, Element ''SignatureData'' MmVarOctets NoAuto EVALZERO ICVCONST False)])
     [Add MmPayload_onISAKMP TP_ISAKMP_NPTYPE_SIG,
      Add MmISAKMP_PonSA TP_ISAKMP_NPTYPE_SIG,
      Add MmISAKMP_TonP TP_ISAKMP_NPTYPE_SIG]"

definition McPld_ISAKMP_NONCE :: mc where [class_defs]:
  "McPld_ISAKMP_NONCE = Mc ''McPld_ISAKMP_NONCE'' (McPld_ISAKMP_common_member @ [
      (Member, Element ''NonceData'' MmVarOctets NoAuto EVALZERO ICVCONST False)])
     [Add MmPayload_onISAKMP TP_ISAKMP_NPTYPE_NONCE,
      Add MmISAKMP_PonSA TP_ISAKMP_NPTYPE_NONCE,
      Add MmISAKMP_TonP TP_ISAKMP_NPTYPE_NONCE]"

definition McPld_ISAKMP_N_common_member :: "(role \<times> member) list" where [class_defs]:
  "McPld_ISAKMP_N_common_member = McPld_ISAKMP_common_member @ [
      (DOImember, Element ''DOI'' (MmUint 32) (HC ''DOI'') (HC ''DOI'') ICVCONST False),
      (Member, Element ''ProtocolID'' (MmUint 8) (Unique 0) (Unique 0) ICVCONST False),
      (SPIsize_member, Element ''SPIsize'' (MmUint 8) (HC ''SPIsize'') EVALANY ICVCONST False),
      (NotifyMessageType_member, Element ''NotifyMessageType'' (MmUint 16) (HC ''NotifyMessageType'') (HC ''NotifyMessageType'') ICVCONST False)]"

definition McPld_ISAKMP_N_ANY :: mc where [class_defs]:
  "McPld_ISAKMP_N_ANY = Mc ''McPld_ISAKMP_N_ANY'' (McPld_ISAKMP_N_common_member @ [
      (SPImember, Element ''SPI'' MmISAKMP_SPI NoAuto EVALZERO ICVCONST False),
      (Member, Element ''NotificationData'' MmVarOctets NoAuto EVALZERO ICVCONST False)])
     [AddOther MmDOIonN]"

definition McPld_ISAKMP_N_ISAKMP :: mc where [class_defs]:
  "McPld_ISAKMP_N_ISAKMP = Mc ''McPld_ISAKMP_N_ISAKMP'' (McPld_ISAKMP_N_common_member @ [
      (SPImember, Element ''SPI'' MmISAKMP_SPI NoAuto EVALZERO ICVCONST False),
      (Member, Element ''NotificationData'' MmVarOctets NoAuto EVALZERO ICVCONST False)])
     [Add MmDOIonN 0]"

definition McPld_ISAKMP_N_IPsec_ANY :: mc where [class_defs]:
  "McPld_ISAKMP_N_IPsec_ANY = Mc ''McPld_ISAKMP_N_IPsec_ANY'' (McPld_ISAKMP_N_common_member @ [
      (SPImember, Element ''SPI'' MmISAKMP_SPI NoAuto EVALZERO ICVCONST False),
      (Member, Element ''NotificationData'' MmVarOctets NoAuto EVALZERO ICVCONST False)])
     [AddOther MmType_onN_IPsec]"

definition McPld_ISAKMP_N_IPsec_ResponderLT :: mc where [class_defs]:
  "McPld_ISAKMP_N_IPsec_ResponderLT = Mc ''McPld_ISAKMP_N_IPsec_ResponderLT'' (McPld_ISAKMP_N_common_member @ [
      (SPImember, Element ''SPI'' MmISAKMP_SPI NoAuto EVALZERO ICVCONST False),
      (Member, Reference MmAttr_onT ''attribute'')])
     [Add MmType_onN_IPsec TP_ISAKMP_NTYPE_RESPONDER_LIFETIME]"

definition McPld_ISAKMP_N_IPsec_ReplayStat :: mc where [class_defs]:
  "McPld_ISAKMP_N_IPsec_ReplayStat = Mc ''McPld_ISAKMP_N_IPsec_ReplayStat'' (McPld_ISAKMP_N_common_member @ [
      (SPImember, Element ''SPI'' MmISAKMP_SPI_ReplayStat NoAuto EVALZERO ICVCONST False),
      (Member, Element ''NotificationData'' (MmUint 32) (Unique 0) (Unique 0) ICVCONST False)])
     [Add MmType_onN_IPsec TP_ISAKMP_NTYPE_REPLAY_STATUS]"

definition McPld_ISAKMP_D :: mc where [class_defs]:
  "McPld_ISAKMP_D = Mc ''McPld_ISAKMP_D'' (McPld_ISAKMP_common_member @ [
      (Member, Element ''DOI'' (MmUint 32) (Unique 0) (Unique 0) ICVCONST False),
      (Member, Element ''ProtocolID'' (MmUint 8) (Unique 0) (Unique 0) ICVCONST False),
      (SPIsize_member, Element ''SPIsize'' (MmSPIsize 8) (HC ''SPIsize'') EVALANY ICVCONST False),
      (NumberOfSPI_member, Element ''NumberOfSPI'' (MmNumberOfSPI 16) (HC ''NumberOfSPI'') EVALANY ICVCONST False),
      (Member, Multiple (Element ''SPI'' MmSPI_onD NoAuto EVALZERO ICVCONST False) ''SPI'')])
     [Add MmPayload_onISAKMP TP_ISAKMP_NPTYPE_D,
      Add MmISAKMP_PonSA TP_ISAKMP_NPTYPE_D,
      Add MmISAKMP_TonP TP_ISAKMP_NPTYPE_D]"

definition McPld_ISAKMP_VID :: mc where [class_defs]:
  "McPld_ISAKMP_VID = Mc ''McPld_ISAKMP_VID'' (McPld_ISAKMP_common_member @ [
      (Member, Element ''VID'' MmVarOctets NoAuto EVALZERO ICVCONST False)])
     [Add MmPayload_onISAKMP TP_ISAKMP_NPTYPE_VID,
      Add MmISAKMP_PonSA TP_ISAKMP_NPTYPE_VID,
      Add MmISAKMP_TonP TP_ISAKMP_NPTYPE_VID]"

definition McAttr_ISAKMP_common_member :: "(role \<times> member) list" where [class_defs]:
  "McAttr_ISAKMP_common_member = [
      (Attr_member, Element ''AF'' (MmUint 1) (HC ''AF'') (HC ''AF'') ICVCONST False),
      (Member, Element ''Type'' (MmUint 15) (Unique 0) (Unique 0) ICVCONST False)]"

definition McAttr_ISAKMP :: mc where [class_defs]:
  "McAttr_ISAKMP = Mc ''McAttr_ISAKMP'' (McAttr_ISAKMP_common_member @ [
      (Member, Element ''data'' MmVarOctets NoAuto EVALZERO ICVCONST False)])
     [AddOther MmAttr_onT]"

definition McAttr_ISAKMP_TLV :: mc where [class_defs]:
  "McAttr_ISAKMP_TLV = Mc ''McAttr_ISAKMP_TLV'' (McAttr_ISAKMP_common_member @ [
      (TlvLength_member, Element ''Length'' (MmUint 16) (HC ''Length'') EVALANY ICVCONST False),
      (Member, Element ''Value'' MmVarOctets NoAuto EVALZERO ICVCONST False)])
     [Add MmAttr_onT 0]"

definition McAttr_ISAKMP_TV :: mc where [class_defs]:
  "McAttr_ISAKMP_TV = Mc ''McAttr_ISAKMP_TV'' (McAttr_ISAKMP_common_member @ [
      (Member, Element ''Value'' (MmUint 16) (Unique 0) (Unique 0) ICVCONST False)])
     [Add MmAttr_onT 1]"

definition McPld_ISAKMP_SA_ONE :: mc where [class_defs]:
  "McPld_ISAKMP_SA_ONE = Mc ''McPld_ISAKMP_SA_ONE'' ([(Member, Reference MmDOIonSA ''payload'')])
     [Add MmPayload_onISAKMP TP_ISAKMP_NPTYPE_SA, Add MmISAKMP_PonSA TP_ISAKMP_NPTYPE_SA, Add MmISAKMP_TonP TP_ISAKMP_NPTYPE_SA]"

definition McPld_ISAKMP_SA_IPsec_ONE :: mc where [class_defs]:
  "McPld_ISAKMP_SA_IPsec_ONE = Mc ''McPld_ISAKMP_SA_IPsec_ONE'' ([(Member, Reference MmSIT_onSA_IPsec ''payload'')])
     [Add MmDOIonSA TP_ISAKMP_IPDOI]"

definition McPld_ISAKMP_P_ONE :: mc where [class_defs]:
  "McPld_ISAKMP_P_ONE = Mc ''McPld_ISAKMP_P_ONE'' ([(Member, Reference MmProtocolIDonP ''payload'')])
     [Add MmPayload_onISAKMP TP_ISAKMP_NPTYPE_P, Add MmISAKMP_PonSA TP_ISAKMP_NPTYPE_P, Add MmISAKMP_TonP TP_ISAKMP_NPTYPE_P]"

definition McPld_ISAKMP_ID_ONE :: mc where [class_defs]:
  "McPld_ISAKMP_ID_ONE = Mc ''McPld_ISAKMP_ID_ONE'' ([(Member, Reference MmIDtype_onID ''payload'')])
     [Add MmPayload_onISAKMP TP_ISAKMP_NPTYPE_ID, Add MmISAKMP_PonSA TP_ISAKMP_NPTYPE_ID, Add MmISAKMP_TonP TP_ISAKMP_NPTYPE_ID]"

definition McPld_ISAKMP_N_ONE :: mc where [class_defs]:
  "McPld_ISAKMP_N_ONE = Mc ''McPld_ISAKMP_N_ONE'' ([(Member, Reference MmDOIonN ''payload'')])
     [Add MmPayload_onISAKMP TP_ISAKMP_NPTYPE_N, Add MmISAKMP_PonSA TP_ISAKMP_NPTYPE_N, Add MmISAKMP_TonP TP_ISAKMP_NPTYPE_N]"

definition McPld_ISAKMP_N_IPsec_ONE :: mc where [class_defs]:
  "McPld_ISAKMP_N_IPsec_ONE = Mc ''McPld_ISAKMP_N_IPsec_ONE'' ([(Member, Reference MmType_onN_IPsec ''payload'')])
     [Add MmDOIonN TP_ISAKMP_IPDOI]"

definition McISAKMP_Encryption :: mc where [class_defs]:
  "McISAKMP_Encryption = Mc ''McISAKMP_Encryption'' ([(Member, Opaque ''MmAlgorithm_onISAKMP'' ''algorithm''),
      (Member, Opaque ''MmIVEC_onISAKMP'' ''IVEC''),
      (Member, Opaque ''MmISAKMP_Crypted'' ''Crypted'')])
     [AddOther MmEncrypt_onISAKMP]"

definition McISAKMP_Algorithm :: mc where [class_defs]:
  "McISAKMP_Algorithm = Mc ''McISAKMP_Algorithm'' ([(Member, Opaque ''MmAlgo_Crypt'' ''crypt''),
      (Member, Opaque ''MmAlgo_Pad'' ''pad'')])
     []"

text \<open>All of them.\<close>

definition VHdrIke_classes :: "mc list" where
  "VHdrIke_classes = [McUdp_ISAKMP,
     McHdr_ISAKMP,
     McPld_ISAKMP_ANY,
     McPld_ISAKMP_SA_ANY,
     McPld_ISAKMP_SA_IPsec_ANY,
     McPld_ISAKMP_SA_IPsec_IDonly,
     McPld_ISAKMP_P,
     McPld_ISAKMP_P_ISAKMP,
     McPld_ISAKMP_P_IPsec_AH,
     McPld_ISAKMP_P_IPsec_ESP,
     McPld_ISAKMP_P_IPCOMP,
     McPld_ISAKMP_T,
     McPld_ISAKMP_KE,
     McPld_ISAKMP_ID,
     McPld_ISAKMP_ID_IPV4_ADDR,
     McPld_ISAKMP_ID_FQDN,
     McPld_ISAKMP_ID_USER_FQDN,
     McPld_ISAKMP_ID_IPV4_ADDR_SUBNET,
     McPld_ISAKMP_ID_IPV6_ADDR,
     McPld_ISAKMP_ID_IPV6_ADDR_SUBNET,
     McPld_ISAKMP_ID_IPV4_ADDR_RANGE,
     McPld_ISAKMP_ID_IPV6_ADDR_RANGE,
     McPld_ISAKMP_ID_DER_ASN1_DN,
     McPld_ISAKMP_ID_DER_ASN1_GN,
     McPld_ISAKMP_ID_KEY_ID,
     McPld_ISAKMP_CERT,
     McPld_ISAKMP_CR,
     McPld_ISAKMP_HASH,
     McPld_ISAKMP_SIG,
     McPld_ISAKMP_NONCE,
     McPld_ISAKMP_N_ANY,
     McPld_ISAKMP_N_ISAKMP,
     McPld_ISAKMP_N_IPsec_ANY,
     McPld_ISAKMP_N_IPsec_ResponderLT,
     McPld_ISAKMP_N_IPsec_ReplayStat,
     McPld_ISAKMP_D,
     McPld_ISAKMP_VID,
     McAttr_ISAKMP,
     McAttr_ISAKMP_TLV,
     McAttr_ISAKMP_TV,
     McPld_ISAKMP_SA_ONE,
     McPld_ISAKMP_SA_IPsec_ONE,
     McPld_ISAKMP_P_ONE,
     McPld_ISAKMP_ID_ONE,
     McPld_ISAKMP_N_ONE,
     McPld_ISAKMP_N_IPsec_ONE,
     McISAKMP_Encryption,
     McISAKMP_Algorithm]"

end
