(* ===== verification/VHeaders.thy ===== *)
theory VHeaders
  imports VHdrNet VHdrUpper VHdrDhcp VHdrSnmp VHdrIke
begin

text \<open>
  All classes of headers, the names packet definitions use for them, and what holds for every one of them.
\<close>

definition classes :: "mc list" where
  "classes = VHdrNet_classes @ VHdrUpper_classes @ VHdrDhcp_classes @ VHdrSnmp_classes @ VHdrIke_classes"

text \<open>\<open>McObject::initialize\<close>: the classes in the order they are created, with their names in the language.\<close>

definition lexicon :: "(string \<times> mc) list" where
  "lexicon = [
    (''Payload'', McPayload),
    (''Hdr_Ether'', McTopHdr_Ether),
    (''Frame_Ether'', McFrame_Ether),
    (''Hdr_Null'', McTopHdr_Null),
    (''Frame_Null'', McFrame_Null),
    (''Hdr_IPv6'', McTopHdr_IPv6),
    (''Packet_IPv6'', McPacket_IPv6),
    (''Hdr_HopByHop'', McHdr_Ext_HopByHop),
    (''Hdr_Destination'', McHdr_Ext_Destination),
    (''Hdr_Routing'', McHdr_Ext_Routing),
    (''Hdr_Fragment'', McHdr_Ext_Fragment),
    (''Opt_ANY'', McOpt_Ext_ANY),
    (''Opt_Pad1'', McOpt_Ext_Pad1),
    (''Opt_PadN'', McOpt_Ext_PadN),
    (''Opt_JumboPayload'', McOpt_Ext_JumboPayload),
    (''Opt_RouterAlert'', McOpt_Ext_RouterAlert),
    (''Opt_TunnelEncapslation'', McOpt_Ext_TunnelEncap),
    (''Opt_HomeAddress'', McOpt_Ext_HomeAddress),
    (''Hdr_AH'', McHdr_Ext_AH),
    (''AHAlgorithm'', McAlgorithm_AH),
    (''Hdr_ESP'', McHdr_Ext_ESP),
    (''ESPAlgorithm'', McAlgorithm_ESP),
    (''Hdr_IPv4'', McTopHdr_IPv4),
    (''Packet_IPv4'', McPacket_IPv4),
    (''Opt_IPv4_ANY'', McOpt_IPv4_ANY),
    (''Opt_IPv4_EndofOptionList'', McOpt_IPv4_EndofOptionList),
    (''Opt_IPv4_NoOperation'', McOpt_IPv4_NoOperation),
    (''Opt_IPv4_LooseSourceRoute'', McOpt_IPv4_LooseSourceRoute),
    (''Opt_IPv4_StrictSourceRoute'', McOpt_IPv4_StrictSourceRoute),
    (''Opt_IPv4_RecordRoute'', McOpt_IPv4_RecordRoute),
    (''Opt_IPv4_Timestamp'', McOpt_IPv4_Timestamp),
    (''Opt_IPv4_RouterAlert'', McOpt_IPv4_RouterAlert),
    (''Hdr_ARP'', McTopHdr_ARP),
    (''Packet_ARP'', McPacket_ARP),
    (''Hdr_RARP'', McTopHdr_RARP),
    (''Packet_RARP'', McPacket_RARP),
    (''Upp_NoNext'', McUpp_NoNext),
    (''Upp_VRRPvX'', McUpp_VRRPvX),
    (''Upp_VRRPv2'', McUpp_VRRPv2),
    (''Upp_VRRPv3'', McUpp_VRRPv3),
    (''ICMPv6_ANY'', McUpp_ICMPv6_ANY),
    (''ICMPv6_RS'', McUpp_ICMPv6_RS),
    (''ICMPv6_RA'', McUpp_ICMPv6_RA),
    (''ICMPv6_NS'', McUpp_ICMPv6_NS),
    (''ICMPv6_NA'', McUpp_ICMPv6_NA),
    (''ICMPv6_Redirect'', McUpp_ICMPv6_Redirect),
    (''ICMPv6_MLDQuery'', McUpp_ICMPv6_MLDQuery),
    (''ICMPv6_MLDv2Query'', McUpp_ICMPv6_MLDv2Query),
    (''ICMPv6_MLDReport'', McUpp_ICMPv6_MLDReport),
    (''ICMPv6_MLDDone'', McUpp_ICMPv6_MLDDone),
    (''ICMPv6_MLDv2Report'', McUpp_ICMPv6_MLDv2Report),
    (''ICMPv6_EchoRequest'', McUpp_ICMPv6_EchoRequest),
    (''ICMPv6_EchoReply'', McUpp_ICMPv6_EchoReply),
    (''ICMPv6_PacketTooBig'', McUpp_ICMPv6_PacketTooBig),
    (''ICMPv6_DestinationUnreachable'', McUpp_ICMPv6_DestinationUnreachable),
    (''ICMPv6_TimeExceeded'', McUpp_ICMPv6_TimeExceeded),
    (''ICMPv6_ParameterProblem'', McUpp_ICMPv6_ParameterProblem),
    (''ICMPv6_RouterRenumbering'', McUpp_ICMPv6_RouterRenumbering),
    (''ICMPv6_HAADRequest'', McUpp_ICMPv6_HAADRequest),
    (''ICMPv6_HAADReply'', McUpp_ICMPv6_HAADReply),
    (''ICMPv6_MobilePrefixSol'', McUpp_ICMPv6_MobilePrefixSolicit),
    (''ICMPv6_MobilePrefixAdvertise'', McUpp_ICMPv6_MobilePrefixAdvertise),
    (''Opt_ICMPv6_ANY'', McOpt_ICMPv6_ANY),
    (''Opt_ICMPv6_SLL'', McOpt_ICMPv6_SLL),
    (''Opt_ICMPv6_TLL'', McOpt_ICMPv6_TLL),
    (''Opt_ICMPv6_Prefix'', McOpt_ICMPv6_Prefix),
    (''Opt_ICMPv6_Redirected'', McOpt_ICMPv6_Redirected),
    (''Opt_ICMPv6_MTU'', McOpt_ICMPv6_MTU),
    (''Opt_ICMPv6_AdvInterval'', McOpt_ICMPv6_AdvInterval),
    (''Opt_ICMPv6_HomeAgentInfo'', McOpt_ICMPv6_HomeAgentInfo),
    (''Opt_ICMPv6_RouteInfo'', McOpt_ICMPv6_RouteInfo),
    (''Hdr_MH_ANY'', McHdr_Ext_MH_ANY),
    (''Hdr_MH_BRR'', McHdr_Ext_MH_BRR),
    (''Hdr_MH_HoTI'', McHdr_Ext_MH_HoTI),
    (''Hdr_MH_CoTI'', McHdr_Ext_MH_CoTI),
    (''Hdr_MH_HoT'', McHdr_Ext_MH_HoT),
    (''Hdr_MH_CoT'', McHdr_Ext_MH_CoT),
    (''Hdr_MH_BU'', McHdr_Ext_MH_BU),
    (''Hdr_MH_BA'', McHdr_Ext_MH_BA),
    (''Hdr_MH_BE'', McHdr_Ext_MH_BE),
    (''Opt_MH_ANY'', McOpt_MH_ANY),
    (''Opt_MH_Pad1'', McOpt_MH_Pad1),
    (''Opt_MH_PadN'', McOpt_MH_PadN),
    (''Opt_MH_BindingRefreshAdvice'', McOpt_MH_BindingRefreshAdvice),
    (''Opt_MH_AlternateCoA'', McOpt_MH_AlternateCoA),
    (''Opt_MH_NonceIndices'', McOpt_MH_NonceIndices),
    (''Opt_MH_BindingAuthData'', McOpt_MH_BindingAuthData),
    (''Opt_MH_MobNetworkPrefix'', McOpt_MH_MobNetworkPrefix),
    (''ICMPv4_ANY'', McUpp_ICMPv4_ANY),
    (''ICMPv4_DestinationUnreachable'', McUpp_ICMPv4_DestinationUnreachable),
    (''ICMPv4_TimeExceeded'', McUpp_ICMPv4_TimeExceeded),
    (''ICMPv4_ParameterProblem'', McUpp_ICMPv4_ParameterProblem),
    (''ICMPv4_Redirect'', McUpp_ICMPv4_Redirect),
    (''ICMPv4_EchoRequest'', McUpp_ICMPv4_EchoRequest),
    (''ICMPv4_EchoReply'', McUpp_ICMPv4_EchoReply),
    (''IGMP_ANY'', McUpp_IGMP_ANY),
    (''IGMP_IGMPQuery'', McUpp_IGMP_IGMPQuery),
    (''IGMP_IGMPv1Report'', McUpp_IGMP_IGMPv1Report),
    (''IGMP_IGMPv2Report'', McUpp_IGMP_IGMPv2Report),
    (''IGMP_IGMPv2LeaveGroup'', McUpp_IGMP_IGMPv2LeaveGroup),
    (''IGMP_IGMPv3Report'', McUpp_IGMP_IGMPv3Report),
    (''Hdr_UDP'', McTopHdr_UDP),
    (''Upp_UDP'', McUpp_UDP),
    (''Udp_RIPng'', McUdp_RIPng),
    (''RIPng_RTE'', McRIPng_RTE),
    (''DNS_Question'', McDNS_Question),
    (''DNS_Answer'', McDNS_Answer),
    (''DNS_Authority'', McDNS_Authority),
    (''DNS_Additional'', McDNS_Additional),
    (''Udp_DNS'', McUdp_DNS),
    (''DNS_QuestionEntry'', McDNS_QuestionEntry),
    (''DNS_RR_ANY'', McDNS_RR_ANY),
    (''DNS_RR_A'', McDNS_RR_A),
    (''DNS_RR_NS'', McDNS_RR_NS),
    (''DNS_RR_MD'', McDNS_RR_MD),
    (''DNS_RR_MF'', McDNS_RR_MF),
    (''DNS_RR_CNAME'', McDNS_RR_CNAME),
    (''DNS_RR_SOA'', McDNS_RR_SOA),
    (''DNS_RR_MB'', McDNS_RR_MB),
    (''DNS_RR_MG'', McDNS_RR_MG),
    (''DNS_RR_MR'', McDNS_RR_MR),
    (''DNS_RR_NULL'', McDNS_RR_NULL),
    (''DNS_RR_WKS'', McDNS_RR_WKS),
    (''DNS_RR_PTR'', McDNS_RR_PTR),
    (''DNS_RR_HINFO'', McDNS_RR_HINFO),
    (''DNS_RR_MINFO'', McDNS_RR_MINFO),
    (''DNS_RR_MX'', McDNS_RR_MX),
    (''DNS_RR_TXT'', McDNS_RR_TXT),
    (''DNS_RR_RP'', McDNS_RR_RP),
    (''DNS_RR_AFSDB'', McDNS_RR_AFSDB),
    (''DNS_RR_X25'', McDNS_RR_X25),
    (''DNS_RR_ISDN'', McDNS_RR_ISDN),
    (''DNS_RR_RT'', McDNS_RR_RT),
    (''DNS_RR_PX'', McDNS_RR_PX),
    (''DNS_RR_AAAA'', McDNS_RR_AAAA),
    (''DNS_RR_SRV'', McDNS_RR_SRV),
    (''DNS_RR_NAPTR'', McDNS_RR_NAPTR),
    (''Udp_DHCPv6_ANY'', McUdp_DHCPv6_ANY),
    (''Udp_DHCPv6_Solicit'', McUdp_DHCPv6_Solicit),
    (''Udp_DHCPv6_Advertise'', McUdp_DHCPv6_Advertise),
    (''Udp_DHCPv6_Request'', McUdp_DHCPv6_Request),
    (''Udp_DHCPv6_Confirm'', McUdp_DHCPv6_Confirm),
    (''Udp_DHCPv6_Renew'', McUdp_DHCPv6_Renew),
    (''Udp_DHCPv6_Rebind'', McUdp_DHCPv6_Rebind),
    (''Udp_DHCPv6_Reply'', McUdp_DHCPv6_Reply),
    (''Udp_DHCPv6_Release'', McUdp_DHCPv6_Release),
    (''Udp_DHCPv6_Decline'', McUdp_DHCPv6_Decline),
    (''Udp_DHCPv6_Reconfigure'', McUdp_DHCPv6_Reconfigure),
    (''Udp_DHCPv6_InformationRequest'', McUdp_DHCPv6_InformationRequest),
    (''Udp_DHCPv6_RelayForward'', McUdp_DHCPv6_RelayForward),
    (''Udp_DHCPv6_RelayReply'', McUdp_DHCPv6_RelayReply),
    (''Opt_DHCPv6_ANY'', McOpt_DHCPv6_ANY),
    (''Opt_DHCPv6_CID'', McOpt_DHCPv6_CID),
    (''Opt_DHCPv6_SID'', McOpt_DHCPv6_SID),
    (''Opt_DHCPv6_IA_NA'', McOpt_DHCPv6_IA_NA),
    (''Opt_DHCPv6_IA_TA'', McOpt_DHCPv6_IA_TA),
    (''Opt_DHCPv6_IA_Address'', McOpt_DHCPv6_IA_Address),
    (''Opt_DHCPv6_OptionRequest'', McOpt_DHCPv6_OptionRequest),
    (''Opt_DHCPv6_Preference'', McOpt_DHCPv6_Preference),
    (''Opt_DHCPv6_ElapsedTime'', McOpt_DHCPv6_ElapsedTime),
    (''Opt_DHCPv6_RelayMessage'', McOpt_DHCPv6_RelayMessage),
    (''Opt_DHCPv6_Authentication'', McOpt_DHCPv6_Authentication),
    (''Opt_DHCPv6_ServerUnicast'', McOpt_DHCPv6_ServerUnicast),
    (''Opt_DHCPv6_StatusCode'', McOpt_DHCPv6_StatusCode),
    (''Opt_DHCPv6_RapidCommit'', McOpt_DHCPv6_RapidCommit),
    (''Opt_DHCPv6_UserClass'', McOpt_DHCPv6_UserClass),
    (''Opt_DHCPv6_VendorClass'', McOpt_DHCPv6_VendorClass),
    (''Opt_DHCPv6_VendorSpecificInfo'', McOpt_DHCPv6_VendorSpecificInfo),
    (''Opt_DHCPv6_IID'', McOpt_DHCPv6_IID),
    (''Opt_DHCPv6_ReconfigureMessage'', McOpt_DHCPv6_ReconfigureMessage),
    (''Opt_DHCPv6_ReconfigureAccept'', McOpt_DHCPv6_ReconfigureAccept),
    (''Opt_DHCPv6_IA_PD'', McOpt_DHCPv6_IA_PD),
    (''Opt_DHCPv6_IA_Prefix'', McOpt_DHCPv6_IA_Prefix),
    (''Opt_DHCPv6_DNS_Servers'', McOpt_DHCPv6_DNS_Servers),
    (''Opt_DHCPv6_DNS_SearchList'', McOpt_DHCPv6_DNS_SearchList),
    (''Opt_DHCPv6_NTP_Servers'', McOpt_DHCPv6_NTP_Servers),
    (''Opt_DHCPv6_NTP_Timezone'', McOpt_DHCPv6_NTP_Timezone),
    (''DHCPv6_DUID_ANY'', McDHCPv6_DUID_ANY),
    (''DHCPv6_DUID_LLT_ANY'', McDHCPv6_DUID_LLT_ANY),
    (''DHCPv6_DUID_LLT_Ether'', McDHCPv6_DUID_LLT_Ether),
    (''DHCPv6_DUID_EN'', McDHCPv6_DUID_EN),
    (''DHCPv6_DUID_LL_ANY'', McDHCPv6_DUID_LL_ANY),
    (''DHCPv6_DUID_LL_Ether'', McDHCPv6_DUID_LL_Ether),
    (''DHCPv6_UserClassData'', McDHCPv6_UserClassData),
    (''DHCPv6_VendorClassData'', McDHCPv6_VendorClassData),
    (''DHCPv6_OptionData'', McDHCPv6_OptionData),
    (''DHCPv6_Auth_ANY'', McDHCPv6_Auth_ANY),
    (''DHCPv6_Auth_Delayed'', McDHCPv6_Auth_Delayed),
    (''DHCPv6_Auth_ReconfigureKey'', McDHCPv6_Auth_ReconfigureKey),
    (''Udp_SIP'', McUdp_SIP),
    (''MLDv2_AddrRecord'', McMLDv2_AddrRecord),
    (''IGMPv3_AddrRecord'', McIGMPv3_AddrRecord),
    (''Udp_SNMP'', McUdp_SNMP),
    (''Udp_SNMPTrap'', McUdp_SNMPTrap),
    (''Pdu_SNMP_Message'', McPdu_SNMP_Message),
    (''Pdu_SNMP_Version'', McPdu_SNMP_Version),
    (''Pdu_SNMP_Community'', McPdu_SNMP_Community),
    (''Pdu_SNMP_GetRequest'', McPdu_SNMP_GetRequest),
    (''Pdu_SNMP_GetNextRequest'', McPdu_SNMP_GetNextRequest),
    (''Pdu_SNMP_SetRequest'', McPdu_SNMP_SetRequest),
    (''Pdu_SNMP_GetResponse'', McPdu_SNMP_GetResponse),
    (''Pdu_SNMP_Trap'', McPdu_SNMP_Trap),
    (''Pdu_SNMP_GetBulk'', McPdu_SNMP_GetBulk),
    (''Pdu_SNMP_Inform'', McPdu_SNMP_Inform),
    (''Pdu_SNMP_Trap2'', McPdu_SNMP_Trap2),
    (''Pdu_SNMP_Report'', McPdu_SNMP_Report),
    (''Pdu_SNMP_RequestID'', McPdu_SNMP_RequestID),
    (''Pdu_SNMP_ErrorStatus'', McPdu_SNMP_ErrorStatus),
    (''Pdu_SNMP_ErrorIndex'', McPdu_SNMP_ErrorIndex),
    (''Pdu_SNMP_GenericTrap'', McPdu_SNMP_GenericTrap),
    (''Pdu_SNMP_SpecificTrap'', McPdu_SNMP_SpecificTrap),
    (''Pdu_SNMP_VarBindList'', McPdu_SNMP_VarBindList),
    (''Pdu_SNMP_VarBind'', McPdu_SNMP_VarBind),
    (''Pdu_SNMP_ANY'', McPdu_SNMP_ANY),
    (''Pdu_SNMP_Boolean'', McPdu_SNMP_Boolean),
    (''Pdu_SNMP_Integer'', McPdu_SNMP_Integer),
    (''Pdu_SNMP_BitString'', McPdu_SNMP_BitString),
    (''Pdu_SNMP_OctString'', McPdu_SNMP_OctString),
    (''Pdu_SNMP_Null'', McPdu_SNMP_Null),
    (''Pdu_SNMP_ObjectID'', McPdu_SNMP_ObjectID),
    (''Pdu_SNMP_Sequence'', McPdu_SNMP_Sequence),
    (''Pdu_SNMP_Set'', McPdu_SNMP_Set),
    (''Pdu_SNMP_Opaque'', McPdu_SNMP_Opaque),
    (''Pdu_SNMP_IPAddress'', McPdu_SNMP_IPAddress),
    (''Pdu_SNMPCounter'', McPdu_SNMP_Counter),
    (''Pdu_SNMP_Gauge'', McPdu_SNMP_Gauge),
    (''Pdu_SNMP_TimeTicks'', McPdu_SNMP_TimeTicks),
    (''Hdr_TCP'', McTopHdr_TCP),
    (''Upp_TCP'', McUpp_TCP),
    (''Opt_TCP_ANY'', McOpt_TCP_ANY),
    (''Opt_TCP_EndofOptionList'', McOpt_TCP_EndofOptionList),
    (''Opt_TCP_NoOperation'', McOpt_TCP_NoOperation),
    (''Opt_TCP_MaximumSegmentSize'', McOpt_TCP_MaximumSegmentSize),
    (''Hdr_ISAKMP'', McHdr_ISAKMP),
    (''Udp_ISAKMP'', McUdp_ISAKMP),
    (''ISAKMP_Encryption'', McISAKMP_Encryption),
    (''ISAKMP_Algorithm'', McISAKMP_Algorithm),
    (''Pld_ISAKMP_ANY'', McPld_ISAKMP_ANY),
    (''Pld_ISAKMP_SA_ANY'', McPld_ISAKMP_SA_ANY),
    (''Pld_ISAKMP_SA_IPsec_ANY'', McPld_ISAKMP_SA_IPsec_ANY),
    (''Pld_ISAKMP_SA_IPsec_IDonly'', McPld_ISAKMP_SA_IPsec_IDonly),
    (''Pld_ISAKMP_P_ANY'', McPld_ISAKMP_P),
    (''Pld_ISAKMP_P_ISAKMP'', McPld_ISAKMP_P_ISAKMP),
    (''Pld_ISAKMP_P_IPsec_AH'', McPld_ISAKMP_P_IPsec_AH),
    (''Pld_ISAKMP_P_IPsec_ESP'', McPld_ISAKMP_P_IPsec_ESP),
    (''Pld_ISAKMP_P_IPCOMP'', McPld_ISAKMP_P_IPCOMP),
    (''Pld_ISAKMP_T'', McPld_ISAKMP_T),
    (''Pld_ISAKMP_KE'', McPld_ISAKMP_KE),
    (''Pld_ISAKMP_ID_ANY'', McPld_ISAKMP_ID),
    (''Pld_ISAKMP_ID_IPV4_ADDR'', McPld_ISAKMP_ID_IPV4_ADDR),
    (''Pld_ISAKMP_ID_FQDN'', McPld_ISAKMP_ID_FQDN),
    (''Pld_ISAKMP_ID_USER_FQDN'', McPld_ISAKMP_ID_USER_FQDN),
    (''Pld_ISAKMP_ID_IPV4_ADDR_SUBNET'', McPld_ISAKMP_ID_IPV4_ADDR_SUBNET),
    (''Pld_ISAKMP_ID_IPV6_ADDR'', McPld_ISAKMP_ID_IPV6_ADDR),
    (''Pld_ISAKMP_ID_IPV6_ADDR_SUBNET'', McPld_ISAKMP_ID_IPV6_ADDR_SUBNET),
    (''Pld_ISAKMP_ID_IPV4_ADDR_RANGE'', McPld_ISAKMP_ID_IPV4_ADDR_RANGE),
    (''Pld_ISAKMP_ID_IPV6_ADDR_RANGE'', McPld_ISAKMP_ID_IPV6_ADDR_RANGE),
    (''Pld_ISAKMP_ID_DER_ASN1_DN'', McPld_ISAKMP_ID_DER_ASN1_DN),
    (''Pld_ISAKMP_ID_DER_ASN1_GN'', McPld_ISAKMP_ID_DER_ASN1_GN),
    (''Pld_ISAKMP_ID_KEY_ID'', McPld_ISAKMP_ID_KEY_ID),
    (''Pld_ISAKMP_CERT'', McPld_ISAKMP_CERT),
    (''Pld_ISAKMP_CR'', McPld_ISAKMP_CR),
    (''Pld_ISAKMP_HASH'', McPld_ISAKMP_HASH),
    (''Pld_ISAKMP_SIG'', McPld_ISAKMP_SIG),
    (''Pld_ISAKMP_NONCE'', McPld_ISAKMP_NONCE),
    (''Pld_ISAKMP_N_ANY'', McPld_ISAKMP_N_ANY),
    (''Pld_ISAKMP_N_ISAKMP'', McPld_ISAKMP_N_ISAKMP),
    (''Pld_ISAKMP_N_IPsec_ANY'', McPld_ISAKMP_N_IPsec_ANY),
    (''Pld_ISAKMP_N_IPsec_ResponderLT'', McPld_ISAKMP_N_IPsec_ResponderLT),
    (''Pld_ISAKMP_N_IPsec_ReplayStat'', McPld_ISAKMP_N_IPsec_ReplayStat),
    (''Pld_ISAKMP_D'', McPld_ISAKMP_D),
    (''Pld_ISAKMP_VID'', McPld_ISAKMP_VID),
    (''Attr_ISAKMP_ANY'', McAttr_ISAKMP),
    (''Attr_ISAKMP_TLV'', McAttr_ISAKMP_TLV),
    (''Attr_ISAKMP_TV'', McAttr_ISAKMP_TV)]"

lemmas table_defs = VHdrNet_classes_def VHdrUpper_classes_def VHdrDhcp_classes_def VHdrSnmp_classes_def
  VHdrIke_classes_def class_defs

section \<open>Places\<close>

lemma octet_runs_net: "list_all (\<lambda>c. list_all octet_run (class_runs c)) VHdrNet_classes"
  by (simp add: table_defs class_runs_def octet_run_def bits_of_def)

lemma octet_runs_upper: "list_all (\<lambda>c. list_all octet_run (class_runs c)) VHdrUpper_classes"
  by (simp add: table_defs class_runs_def octet_run_def bits_of_def)

lemma octet_runs_dhcp: "list_all (\<lambda>c. list_all octet_run (class_runs c)) VHdrDhcp_classes"
  by (simp add: table_defs class_runs_def octet_run_def bits_of_def)

lemma octet_runs_snmp: "list_all (\<lambda>c. list_all octet_run (class_runs c)) VHdrSnmp_classes"
  by (simp add: table_defs class_runs_def octet_run_def bits_of_def)

lemma octet_runs_ike: "list_all (\<lambda>c. list_all octet_run (class_runs c)) VHdrIke_classes"
  by (simp add: table_defs class_runs_def octet_run_def bits_of_def)

lemma classes_octet_runs: "c \<in> set classes \<Longrightarrow> ks \<in> set (class_runs c) \<Longrightarrow> octet_run ks"
  using octet_runs_net octet_runs_upper octet_runs_dhcp octet_runs_snmp octet_runs_ike
  by (auto simp: classes_def list_all_iff)

definition ends_narrow :: "string list" where
  "ends_narrow = [''McUpp_VRRPvX'', ''McOpt_IPv4_Timestamp'']"

lemma wide_net: "list_all (\<lambda>c. mc_name c \<in> set ends_narrow \<or> list_all wide_end (class_runs c)) VHdrNet_classes"
  by (simp add: table_defs class_runs_def bits_of_def ends_narrow_def)

lemma wide_upper: "list_all (\<lambda>c. list_all wide_end (class_runs c)) VHdrUpper_classes"
  by (simp add: table_defs class_runs_def bits_of_def)

lemma wide_dhcp: "list_all (\<lambda>c. list_all wide_end (class_runs c)) VHdrDhcp_classes"
  by (simp add: table_defs class_runs_def bits_of_def)

lemma wide_snmp: "list_all (\<lambda>c. list_all wide_end (class_runs c)) VHdrSnmp_classes"
  by (simp add: table_defs class_runs_def bits_of_def)

lemma wide_ike: "list_all (\<lambda>c. list_all wide_end (class_runs c)) VHdrIke_classes"
  by (simp add: table_defs class_runs_def bits_of_def)

lemma classes_wide_end:
  "c \<in> set classes \<Longrightarrow> mc_name c \<notin> set ends_narrow \<Longrightarrow> ks \<in> set (class_runs c) \<Longrightarrow> wide_end ks"
  using wide_net wide_upper wide_dhcp wide_snmp wide_ike by (auto simp: classes_def list_all_iff)

text \<open>
  C6: In every class of the tool, the members between two parts of variable size fill whole octets, their octet strings
  begin at octets, and values written into them at any octet of a packet with room for them are read back, also when the
  packet ends behind them; only the class for unknown VRRP versions and the IPv4 time stamp option end such a part
  with a number of less than eight bits, which needs one more octet of room.
\<close>

theorem class_members_roundtrip:
  assumes "c \<in> set classes" "ks \<in> set (class_runs c)" "list_all2 fits_kind ks vs"
    "8 * q + total_bits ks + (if mc_name c \<in> set ends_narrow then 8 else 0) \<le> 8 * length dst" "8 * length dst < 2147483648"
  shows "total_bits ks mod 8 = 0 \<and>
    (\<exists>dst'. members_generate (zip ks vs) (pos (8 * q)) dst = Inr dst' \<and> length dst' = length dst \<and>
      (\<forall>j. \<not> (8 * q \<le> j \<and> j < 8 * q + total_bits ks) \<longrightarrow> obit dst' j = obit dst j) \<and>
      members_reverse ks (pos (8 * q)) (ob_of dst') = Inr (map2 truncated ks vs, pos (8 * q + total_bits ks), True))"
proof -
  note run = classes_octet_runs [OF assms(1,2)]
  have "room_for ks q dst"
    using classes_wide_end [OF assms(1) _ assms(2)] assms(4,5) by (auto simp: room_for_def split: if_splits)
  then show ?thesis using octet_run_roundtrip [OF run assms(3)] run by (simp add: octet_run_def)
qed

text \<open>The echo request of ICMPv6 with its payload, at the end of an IPv6 packet that has no room for the payload.\<close>

theorem class_members_roundtrip_witness:
  "\<exists>dst'. members_generate (zip [Uint 8, Uint 8, Uint 16, Uint 16, Uint 16] (map Number [128, 0, 0xabcd, 7, 1])) (pos 320)
      (replicate 48 0) = Inr dst' \<and>
    members_reverse [Uint 8, Uint 8, Uint 16, Uint 16, Uint 16] (pos 320) (ob_of dst') =
      Inr (map Number [128, 0, 0xabcd, 7, 1], pos 384, True)"
proof -
  let ?ks = "[Uint 8, Uint 8, Uint 16, Uint 16, Uint 16]" and ?vs = "map Number [128, 0, 0xabcd, 7, 1]"
    and ?dst = "replicate 48 (0 :: byte)"
  have "McUpp_ICMPv6_EchoRequest \<in> set classes" by (simp add: classes_def VHdrNet_classes_def)
  moreover have "?ks \<in> set (class_runs McUpp_ICMPv6_EchoRequest)" by (simp add: class_defs class_runs_def)
  moreover have "list_all2 fits_kind ?ks ?vs" by simp
  moreover have "8 * 40 + total_bits ?ks + (if mc_name McUpp_ICMPv6_EchoRequest \<in> set ends_narrow then 8 else 0) \<le> 8 * length ?dst"
    "8 * length ?dst < 2147483648" by (simp_all add: bits_of_def class_defs ends_narrow_def)
  moreover have "map2 truncated ?ks ?vs = ?vs" "8 * 40 + total_bits ?ks = 384" "8 * 40 = (320 :: nat)"
    by (simp_all add: bits_of_def)
  ultimately show ?thesis using class_members_roundtrip [of McUpp_ICMPv6_EchoRequest ?ks ?vs 40 ?dst] by (simp only:) blast
qed

text \<open>
  C7: A packet that ends within the members of a header is refused: reading stops with an error before it has read all
  members and never reads behind the packet, unless a number of less than eight bits ends where the packet does.
\<close>

theorem truncated_packet_refused:
  assumes "c \<in> set classes" "ks \<in> set (class_runs c)"
    "8 * q \<le> 8 * length src" "8 * length src < 8 * q + total_bits ks" "8 * length src < 2147418112"
    "\<forall>i < length ks. \<forall>w. ks ! i = Uint w \<longrightarrow> 0 < w \<longrightarrow> w < 8 \<longrightarrow> 8 * q + total_bits (take (Suc i) ks) \<noteq> 8 * length src"
  shows "\<exists>vs at. members_reverse ks (pos (8 * q)) (ob_of src) = Inr (vs, at, False) \<and> length vs < length ks"
  using members_reverse_truncated [of ks "8 * q" src] aligned_shift [of ks 0 q] classes_octet_runs [OF assms(1,2)] assms(3-6)
  by (simp add: octet_run_def)

text \<open>A UDP header of which two octets are missing.\<close>

theorem truncated_packet_refused_witness:
  "\<exists>vs at. members_reverse [Uint 16, Uint 16, Uint 16, Uint 16] (pos 0) (ob_of [0, 53, 0, 53, 0, 8]) = Inr (vs, at, False) \<and>
    length vs < 4"
proof -
  let ?ks = "[Uint 16, Uint 16, Uint 16, Uint 16]" and ?src = "[0, 53, 0, 53, 0, 8] :: byte list"
  have "McTopHdr_UDP \<in> set classes" by (simp add: classes_def VHdrNet_classes_def)
  moreover have "?ks \<in> set (class_runs McTopHdr_UDP)" by (simp add: class_defs class_runs_def)
  moreover have "\<forall>i < length ?ks. \<forall>w. ?ks ! i = Uint w \<longrightarrow> 0 < w \<longrightarrow> w < 8 \<longrightarrow> 8 * 0 + total_bits (take (Suc i) ?ks) \<noteq> 8 * length ?src"
    by (simp add: nth_Cons' bits_of_def)
  moreover have "8 * 0 \<le> 8 * length ?src" "8 * length ?src < 8 * 0 + total_bits ?ks" "8 * length ?src < 2147418112"
    by (simp_all add: bits_of_def)
  moreover have "length ?ks = 4" "8 * 0 = (0 :: nat)" by simp_all
  ultimately show ?thesis using truncated_packet_refused [of McTopHdr_UDP ?ks 0 ?src] by (simp only:)
qed

section \<open>Dictionaries\<close>

lemma registered_net: "distinct (concat (map (\<lambda>c. registered (mc_dicts c)) VHdrNet_classes))"
  by (simp add: table_defs)

lemma registered_others:
  "distinct (concat (map (\<lambda>c. registered (mc_dicts c)) (VHdrUpper_classes @ VHdrDhcp_classes @ VHdrSnmp_classes @ VHdrIke_classes)))"
  by (simp add: table_defs)

lemma registered_apart:
  "list_all (\<lambda>p. p \<notin> set (concat (map (\<lambda>c. registered (mc_dicts c)) VHdrNet_classes)))
    (concat (map (\<lambda>c. registered (mc_dicts c)) (VHdrUpper_classes @ VHdrDhcp_classes @ VHdrSnmp_classes @ VHdrIke_classes)))"
  by (simp add: table_defs)

lemma registered_distinct: "distinct (concat (map (\<lambda>c. registered (mc_dicts c)) classes))"
proof -
  let ?f = "\<lambda>cs. concat (map (\<lambda>c. registered (mc_dicts c)) cs)"
    and ?r = "VHdrUpper_classes @ VHdrDhcp_classes @ VHdrSnmp_classes @ VHdrIke_classes"
  have "distinct (?f VHdrNet_classes @ ?f ?r)"
    using registered_net registered_others registered_apart unfolding distinct_append list_all_iff by blast
  then show ?thesis by (simp only: classes_def map_append concat_append)
qed

text \<open>
  C11: No dictionary has two classes for one type: a class that registers itself under a type of a protocol is the one
  found for this type, and a type under which no class registers itself leads to the class for other types.
\<close>

theorem class_found_by_type:
  assumes "c \<in> set classes" "Add r t \<in> set (mc_dicts c)" "u \<notin> set (dict_types r classes)"
  shows "dict_find (Effect t) (dict_of r classes) = Some (mc_name c) \<and>
    dict_check (Effect t) (dict_of r classes) \<and>
    dict_find (Effect u) (dict_of r classes) = dict_other (dict_of r classes)"
  using dict_of_find_type [OF distinct_dict_types [OF registered_distinct] assms(1,2)] dict_of_other [OF assms(3)]
  by (simp add: dict_check_def dict_find_def)

text \<open>A packet after an IPv6 header whose next header is 58 is an ICMPv6 message, and 99 leads to a payload.\<close>

theorem class_found_by_type_witness:
  "dict_find (Effect TP_Upp_ICMPv6) (dict_of MmUpper_onIP classes) = Some (mc_name McUpp_ICMPv6_ONE) \<and>
   dict_find (Effect 99) (dict_of MmUpper_onIP classes) = dict_other (dict_of MmUpper_onIP classes)"
proof -
  have "McUpp_ICMPv6_ONE \<in> set classes" by (simp add: classes_def VHdrNet_classes_def)
  moreover have "Add MmUpper_onIP TP_Upp_ICMPv6 \<in> set (mc_dicts McUpp_ICMPv6_ONE)" by (simp add: McUpp_ICMPv6_ONE_def)
  moreover have "99 \<notin> set (dict_types MmUpper_onIP classes)"
    by (simp add: dict_types_def classes_def table_defs)
  ultimately show ?thesis by (simp add: class_found_by_type)
qed

section \<open>Names\<close>


lemma names_net: "list_all (\<lambda>c. distinct (map (member_name \<circ> snd) (mc_members c))) VHdrNet_classes"
  by (simp add: table_defs)

lemma names_upper: "list_all (\<lambda>c. distinct (map (member_name \<circ> snd) (mc_members c))) VHdrUpper_classes"
  by (simp add: table_defs)

lemma names_dhcp: "list_all (\<lambda>c. distinct (map (member_name \<circ> snd) (mc_members c))) VHdrDhcp_classes"
  by (simp add: table_defs)

lemma names_snmp: "list_all (\<lambda>c. distinct (map (member_name \<circ> snd) (mc_members c))) VHdrSnmp_classes"
  by (simp add: table_defs)

lemma names_ike: "list_all (\<lambda>c. distinct (map (member_name \<circ> snd) (mc_members c))) VHdrIke_classes"
  by (simp add: table_defs)

lemma member_names: "c \<in> set classes \<Longrightarrow> distinct (map (member_name \<circ> snd) (mc_members c))"
  using names_net names_upper names_dhcp names_snmp names_ike by (auto simp: classes_def list_all_iff)

lemma in_classes:
  "list_all (\<lambda>c. c \<in> set classes) VHdrNet_classes" "list_all (\<lambda>c. c \<in> set classes) VHdrUpper_classes"
  "list_all (\<lambda>c. c \<in> set classes) VHdrDhcp_classes" "list_all (\<lambda>c. c \<in> set classes) VHdrSnmp_classes"
  "list_all (\<lambda>c. c \<in> set classes) VHdrIke_classes"
  by (simp_all add: classes_def list_all_iff)

lemmas in_classes_all = in_classes [unfolded VHdrNet_classes_def VHdrUpper_classes_def VHdrDhcp_classes_def
  VHdrSnmp_classes_def VHdrIke_classes_def list.pred_inject]

lemma lexicon_classes: "list_all (\<lambda>p. snd p \<in> set classes) lexicon"
  by (simp only: lexicon_def snd_conv list.pred_inject in_classes_all simp_thms)

text \<open>
  Every class that packet definitions can name is one of those above, and each of its members is the one found under
  the name of that member: no name stands for two members.
\<close>

theorem member_found_by_name:
  assumes "(n, c) \<in> set lexicon" "(r, m) \<in> set (mc_members c)"
  shows "c \<in> set classes \<and> findMember c (member_name m) = Some m"
  using findMember_distinct [OF member_names assms(2)] assms(1) lexicon_classes by (force simp: list_all_iff)

theorem member_found_by_name_witness: "findMember McUpp_ICMPv6_RA ''HFlag'' = Some (Element ''HFlag'' (MmUint 1) (Unique 0) (Unique 0) ICVCONST False)"
proof -
  let ?m = "Element ''HFlag'' (MmUint 1) (Unique 0) (Unique 0) ICVCONST False"
  have "(''ICMPv6_RA'', McUpp_ICMPv6_RA) \<in> set lexicon" by (simp add: lexicon_def)
  moreover have "(Member, ?m) \<in> set (mc_members McUpp_ICMPv6_RA)" by (simp add: McUpp_ICMPv6_RA_def)
  ultimately show ?thesis using member_found_by_name [of "''ICMPv6_RA''" McUpp_ICMPv6_RA Member ?m] by simp
qed

end
