(* ===== verification/VChecksum.thy ===== *)
theory VChecksum
  imports VMember
begin

text \<open>
  Checksums of the packet tool (\<open>lib/Pz/MmChecksum.cc\<close>): computing the Internet checksum over a header and its
  payload, with or without the pseudo header, filling it in after a packet has been generated, and
  checking it after a packet has been taken apart.
\<close>

section \<open>Computing\<close>

definition xSum :: "32 word \<Rightarrow> 32 word" where
  "xSum s = (let s = drop_bit 16 s + (s AND 0xffff); s = s + drop_bit 16 s in NOT s AND 0xffff)"

text \<open>The addresses a layer above IP is given for the pseudo header (\<open>Con_IPinfo\<close>).\<close>

record ipinfo =
  SrcAddr :: "byte list option"
  LastDstAddr :: "byte list option"

text \<open>\<open>If the computed checksum is zero, it is transmitted as all ones\<close>\<close>

definition optional_zero :: "bool \<Rightarrow> 32 word \<Rightarrow> 32 word" where
  "optional_zero optionable checksum = (if optionable \<and> checksum = 0 then NOT checksum else checksum)"

definition calculateWithLength :: "ipinfo \<Rightarrow> int \<Rightarrow> byte list \<Rightarrow> bool \<Rightarrow> 32 word \<Rightarrow> 32 word" where
  "calculateWithLength info upptype uppbuf optionable targetlength = (case (SrcAddr info, LastDstAddr info) of
       (Some src, Some dst) \<Rightarrow> if upptype = - 1 then 0 else
         optional_zero optionable (xSum (sum2Octets src + sum2Octets dst + targetlength + word_of_int upptype + sum2Octets uppbuf))
     | _ \<Rightarrow> 0)"

definition calculate :: "ipinfo \<Rightarrow> int \<Rightarrow> byte list \<Rightarrow> bool \<Rightarrow> 32 word" where
  "calculate info upptype uppbuf optionable = (case (SrcAddr info, LastDstAddr info) of
       (Some src, Some dst) \<Rightarrow> if upptype = - 1 then 0 else
         optional_zero optionable
           (xSum (sum2Octets src + sum2Octets dst + of_nat (length uppbuf) + word_of_int upptype + sum2Octets uppbuf))
     | _ \<Rightarrow> 0)"

definition calculate_buf :: "byte list \<Rightarrow> bool \<Rightarrow> 32 word" where
  "calculate_buf buf optionable = optional_zero optionable (xSum (sum2Octets buf))"

section \<open>Generating and checking\<close>

text \<open>
  A checksum is a number of 16 bits at \<open>at\<close>, of the data of a header \<open>base\<close>; while it is computed its own place is
  zero. \<open>basetype\<close> is the header type of the base.
\<close>

definition checksum_of :: "ipinfo \<Rightarrow> int \<Rightarrow> bool \<Rightarrow> bool \<Rightarrow> itpos \<Rightarrow> byte list \<Rightarrow> (32 word) res" where
  "checksum_of info basetype optionable usepseudo at base = bind_res (encodeZero at (it_pos 0 16) base)
     (\<lambda>checkbuf. Inr (if usepseudo then calculate info basetype checkbuf optionable else calculate_buf checkbuf optionable))"

text \<open>\<open>post_reverse\<close>: the value the checksum should have, and whether another was received.\<close>

definition post_reverse :: "ipinfo \<Rightarrow> int \<Rightarrow> bool \<Rightarrow> bool \<Rightarrow> itpos \<Rightarrow> byte list \<Rightarrow> 32 word \<Rightarrow> (32 word \<times> bool) res" where
  "post_reverse info basetype optionable usepseudo at base dec =
     bind_res (checksum_of info basetype optionable usepseudo at base) (\<lambda>calc. Inr (calc, dec \<noteq> calc))"

text \<open>
  \<open>post_generate\<close>: the checksum at \<open>at\<close> of the frame \<open>buf\<close> is filled in. The base lies in the frame at
  \<open>base_at\<close> and has \<open>base_len\<close> octets.
\<close>

definition post_generate :: "ipinfo \<Rightarrow> int \<Rightarrow> bool \<Rightarrow> bool \<Rightarrow> itpos \<Rightarrow> nat \<Rightarrow> itpos \<Rightarrow> byte list \<Rightarrow> byte list res" where
  "post_generate info basetype optionable usepseudo base_at base_len at buf =
     (let base = take base_len (drop (nat (it_bytes base_at)) buf) in
      bind_res (checksum_of info basetype optionable usepseudo (it_subtract base_at at) base)
        (\<lambda>calc. member_encode (Uint 16) (Number calc) at buf))"

definition post_generateWithLength :: "ipinfo \<Rightarrow> int \<Rightarrow> bool \<Rightarrow> bool \<Rightarrow> itpos \<Rightarrow> nat \<Rightarrow> itpos \<Rightarrow> nat \<Rightarrow> byte list \<Rightarrow> byte list res" where
  "post_generateWithLength info basetype optionable usepseudo base_at base_len at Xlength buf =
     (let base = take (min Xlength base_len) (drop (nat (it_bytes base_at)) buf) in
      bind_res (encodeZero (it_subtract base_at at) (it_pos 0 16) base) (\<lambda>checkbuf.
        member_encode (Uint 16) (Number (if usepseudo then calculateWithLength info basetype checkbuf optionable (of_nat Xlength)
          else calculate_buf checkbuf optionable)) at buf))"

section \<open>The sum of 16-bit numbers\<close>

fun word_sum :: "byte list \<Rightarrow> nat" where
  "word_sum (a # b # s) = 256 * unat a + unat b + word_sum s"
| "word_sum [a] = 256 * unat a"
| "word_sum [] = 0"

lemma unat_byte: "unat (a :: byte) < 256"
  using unsigned_less [of a] by simp

lemma octet_pair:
  "push_bit 8 (ucast (a :: byte)) OR ucast (b :: byte) = (word_of_nat (256 * unat a + unat b) :: 32 word)"
proof -
  have "push_bit 8 (ucast a :: 32 word) OR ucast b = push_bit 8 (ucast a) + ucast b"
    by (rule disjunctive_add [symmetric]) (auto simp: bit_simps dest: bit_imp_le_length)
  then show ?thesis by (simp add: push_bit_eq_mult of_nat_unat)
qed

lemma sum2Octets_word_sum: "sum2Octets s = word_of_nat (word_sum s)"
proof (induction s rule: sum2Octets.induct)
  case (2 a)
  then show ?case using octet_pair [of a 0] by simp
qed (simp_all add: octet_pair)

lemma word_sum_append: "even (length xs) \<Longrightarrow> word_sum (xs @ ys) = word_sum xs + word_sum ys"
  by (induction xs rule: word_sum.induct) auto

lemma word_sum_bound: "word_sum s \<le> 65535 * ((length s + 1) div 2)"
proof (induction s rule: word_sum.induct)
  case (1 a b s)
  then show ?case using unat_byte [of a] unat_byte [of b] by simp
next
  case (2 a)
  then show ?case using unat_byte [of a] by simp
qed simp

lemma unat_sum2Octets: "length s < 65536 \<Longrightarrow> unat (sum2Octets s) = word_sum s"
  using word_sum_bound [of s] by (simp add: sum2Octets_word_sum unat_of_nat take_bit_nat_eq_self)

text \<open>The number of 16 bits that added to \<open>n\<close> gives a multiple of \<open>0xffff\<close>; \<open>0xffff\<close> for zero only.\<close>

definition complement :: "nat \<Rightarrow> nat" where
  "complement n = (if n = 0 then 65535 else 65534 - (n - 1) mod 65535)"

lemma complement_mod: "(n + complement n) mod 65535 = 0"
proof (cases n)
  case (Suc m)
  define k r where "k = m div 65535" "r = m mod 65535"
  then have "m = 65535 * k + r" "r \<le> 65534" by simp_all
  moreover have "complement n = 65534 - r" using Suc k_r_def by (simp add: complement_def)
  ultimately have "n + complement n = 65535 * (k + 1)" using Suc by simp
  then show ?thesis by (simp only: mod_mult_self1_is_0)
qed (simp add: complement_def)

lemma unat_word_of_nat: "n < 4294967296 \<Longrightarrow> unat (word_of_nat n :: 32 word) = n"
  by (simp add: unat_of_nat take_bit_nat_eq_self)

lemma word_of_nat_halves:
  "drop_bit 16 (s :: 32 word) = word_of_nat (unat s div 65536)" "s AND 0xffff = word_of_nat (unat s mod 65536)"
proof -
  have m: "(0xffff :: 32 word) = mask 16" by (simp add: mask_eq_exp_minus_1)
  have "unat (drop_bit 16 s) = unat s div 65536"
    by (simp add: drop_bit_eq_div unat_div_distrib)
  then show "drop_bit 16 s = word_of_nat (unat s div 65536)" by (metis of_nat_unat ucast_id)
  have "unat (take_bit 16 s) = unat s mod 65536" by (simp add: take_bit_eq_mod unat_mod)
  then show "s AND 0xffff = word_of_nat (unat s mod 65536)"
    unfolding m take_bit_eq_mask [symmetric] by (metis of_nat_unat ucast_id)
qed

lemma unat_not_low: "unat (NOT s AND 0xffff :: 32 word) = 65535 - unat s mod 65536"
proof -
  have m: "(0xffff :: 32 word) = mask 16" by (simp add: mask_eq_exp_minus_1)
  have "NOT s AND 0xffff = mask 16 - (s AND 0xffff)"
    unfolding m take_bit_eq_mask [symmetric] by (rule take_bit_not_eq_mask_diff)
  also have "\<dots> = word_of_nat (65535 - unat s mod 65536)"
    unfolding word_of_nat_halves(2) by (simp add: m [symmetric] of_nat_diff)
  finally have "NOT s AND 0xffff = word_of_nat (65535 - unat s mod 65536)" .
  then show ?thesis using unat_word_of_nat [of "65535 - unat s mod 65536"] by (simp only:)
qed

lemma xSum_complement: "unat (xSum s) = complement (unat s)"
proof -
  define n where "n = unat s"
  have n: "n < 4294967296" using unsigned_less [of s] by (simp add: n_def)
  define t where "t = n div 65536 + n mod 65536"
  have t: "t \<le> 131070" using n by (simp add: t_def)
  have 1: "drop_bit 16 s + (s AND 0xffff) = word_of_nat t"
    by (simp add: word_of_nat_halves t_def n_def)
  have 2: "word_of_nat t + drop_bit 16 (word_of_nat t :: 32 word) = word_of_nat (t + t div 65536)"
    using t by (simp add: word_of_nat_halves unat_word_of_nat)
  have 3: "unat (word_of_nat (t + t div 65536) :: 32 word) = t + t div 65536"
    by (rule unat_word_of_nat) (use t in simp)
  have "unat (xSum s) = 65535 - (t + t div 65536) mod 65536"
    by (simp only: xSum_def 1 2 3 Let_def unat_not_low)
  also have "\<dots> = complement n"
  proof (cases "n = 0")
    case False
    then have "0 < t" using div_mult_mod_eq [of n 65536] unfolding t_def by linarith
    moreover have "(n - 1) mod 65535 = (t - 1) mod 65535"
    proof -
      have "n = t + 65535 * (n div 65536)" by (simp add: t_def)
      then have "n - 1 = (t - 1) + 65535 * (n div 65536)" using \<open>0 < t\<close> by linarith
      then show ?thesis by (metis mod_mult_self2)
    qed
    moreover have "t div 65536 = (if t < 65536 then 0 else 1)" using t by (auto simp: le_div_geq)
    moreover have "(t - 1) mod 65535 = t - 65536" if "65536 \<le> t"
    proof -
      have "t - 1 = 65535 + (t - 65536)" "t - 65536 < 65535" using t that by linarith+
      then show ?thesis by (metis mod_add_self1 mod_less)
    qed
    moreover have "(t + 1) mod 65536 = t - 65535" if "65536 \<le> t"
    proof -
      have "t + 1 = 65536 + (t - 65535)" "t - 65535 < 65536" using t that by linarith+
      then show ?thesis by (metis mod_add_self1 mod_less)
    qed
    moreover have "(t - 1) mod 65535 = t - 1" "t mod 65536 = t" if "t < 65536" using that by simp_all
    ultimately show ?thesis using t False by (auto simp: complement_def)
  qed (simp add: complement_def t_def)
  finally show ?thesis by (simp add: n_def)
qed

section \<open>A checksum that is filled in is the one that is expected\<close>

text \<open>Two octets of a buffer.\<close>

definition put2 :: "nat \<Rightarrow> byte \<Rightarrow> byte \<Rightarrow> byte list \<Rightarrow> byte list" where
  "put2 q a b bs = take q bs @ [a, b] @ drop (q + 2) bs"

lemma length_put2 [simp]: "q + 2 \<le> length bs \<Longrightarrow> length (put2 q a b bs) = length bs"
  by (simp add: put2_def)

lemma put2_put2 [simp]: "q + 2 \<le> length bs \<Longrightarrow> put2 q a b (put2 q c d bs) = put2 q a b bs"
  by (simp add: put2_def)

lemma put2_window:
  assumes "q + 2 \<le> l" "p + l \<le> length bs"
  shows "take l (drop p (put2 (p + q) a b bs)) = put2 q a b (take l (drop p bs))"
proof -
  obtain k where "l = q + 2 + k" using assms(1) le_Suc_ex by blast
  then show ?thesis using assms(2) by (simp add: put2_def drop_take add.commute [of _ p])
qed

lemma word_sum_put2:
  assumes "q + 2 \<le> length bs" "even q"
  shows "word_sum (put2 q a b bs) = word_sum (put2 q 0 0 bs) + (256 * unat a + unat b)"
  using assms by (simp add: put2_def word_sum_append)

lemma encodeUint_put2:
  assumes "q + 2 \<le> length dst" "8 * length dst < 2147483648"
  shows "encodeUint h (pos (8 * q)) 16 dst = Inr (put2 q (ucast (drop_bit 8 h)) (ucast h) dst)"
proof -
  have "field_fits (8 * q) 16 dst" using assms(1) by (auto simp: field_fits_def)
  then obtain d where d: "encodeUint h (pos (8 * q)) 16 dst = Inr d" "length d = length dst"
    "\<And>j. obit d j = (if 8 * q \<le> j \<and> j < 8 * q + 16 then bit h (8 * q + 16 - 1 - j) else obit dst j)"
    using encodeUint_bits [of "8 * q" 16 dst h] assms by auto
  let ?s = "[ucast (drop_bit 8 h), ucast h] :: byte list"
  have s: "obit ?s k = bit h (15 - k)" if "k < 16" for k
  proof (cases "k < 8")
    case True
    then show ?thesis by (auto simp: obit_def bit_simps)
  next
    case False
    then have "k div 8 = 1" "7 - k mod 8 = 15 - k" "15 - k < 8" using that by (simp_all add: div_nat_eqI mod_if le_mod_geq)
    then show ?thesis by (simp add: obit_def bit_simps)
  qed
  have "d = put2 q (ucast (drop_bit 8 h)) (ucast h) dst"
  proof (rule obit_eqI)
    fix j
    have "8 * q + 15 - j = 15 - (j - 8 * q)" if "8 * q \<le> j" using that by simp
    then show "obit d j = obit (put2 q (ucast (drop_bit 8 h)) (ucast h) dst) j"
      using obit_splice [of q ?s dst j] assms(1) s [of "j - 8 * q"] by (auto simp: d(3) put2_def)
  qed (use assms d in simp)
  then show ?thesis using d(1) by simp
qed

lemma encodeZero_put2:
  assumes "q + 2 \<le> length dst" "8 * length dst < 2147483648"
  shows "encodeZero (pos (8 * q)) (it_pos 0 16) dst = Inr (put2 q 0 0 dst)"
proof -
  have "it_bytes (it_pos 0 16) = 2" "it_bits (it_pos 0 16) = 0" by (simp_all add: it_pos_def it_bytes_def it_bits_def)
  moreover have "8 * q < 2147483648" using assms by simp
  ultimately show ?thesis
    using assms by (simp add: encodeZero_def pos_copy pos_sel encode_octets_def put2_def numeral_2_eq_2)
qed

lemma it_near_posI:
  assumes "it_near i m" "offset i = int k"
  shows "i = pos k"
proof -
  have k: "int k = 8 * pos_bytes i + pos_bits i" "0 \<le> pos_bits i" "pos_bits i < 8"
    using assms by (simp_all add: it_near_def offset_def)
  have "int k div 8 = pos_bytes i" "int k mod 8 = pos_bits i" using k(2,3) unfolding k(1) by simp_all
  then show ?thesis by (cases i) (simp add: pos_def it_pos_def zdiv_int zmod_int)
qed

lemma it_subtract_pos:
  assumes "8 * (p + q) < 2147483648"
  shows "it_subtract (pos (8 * p)) (pos (8 * (p + q))) = pos (8 * q)"
proof -
  have "it_near (pos (8 * (p + q))) 268435455" "it_near (pos (8 * p)) 268435455"
    using assms by (simp_all add: it_near_pos)
  from it_subtract_near [OF this]
  have "it_near (it_subtract (pos (8 * p)) (pos (8 * (p + q)))) 536870911"
    "offset (it_subtract (pos (8 * p)) (pos (8 * (p + q)))) = int (8 * q)"
    by (simp_all add: it_ok_pos(3))
  then show ?thesis by (rule it_near_posI)
qed

text \<open>The sum a checksum is made of.\<close>

definition covered :: "ipinfo \<Rightarrow> int \<Rightarrow> bool \<Rightarrow> byte list \<Rightarrow> nat" where
  "covered info basetype usepseudo base = (if usepseudo then
     word_sum (the (SrcAddr info)) + word_sum (the (LastDstAddr info)) + length base + nat basetype else 0) + word_sum base"

definition usual :: "ipinfo \<Rightarrow> int \<Rightarrow> byte list \<Rightarrow> bool" where
  "usual info basetype base \<longleftrightarrow> (\<exists>s d. SrcAddr info = Some s \<and> LastDstAddr info = Some d \<and> length s \<le> 16 \<and> length d \<le> 16) \<and>
     0 \<le> basetype \<and> basetype < 256 \<and> length base \<le> 65535"

lemma calculate_covered:
  assumes "usual info basetype base"
  shows "unat (if usepseudo then calculate info basetype base False else calculate_buf base False) =
    complement (covered info basetype usepseudo base)"
proof -
  obtain s d where sd: "SrcAddr info = Some s" "LastDstAddr info = Some d" "length s \<le> 16" "length d \<le> 16"
    and b: "0 \<le> basetype" "basetype < 256" "length base \<le> 65535" using assms by (auto simp: usual_def)
  have w: "word_sum s \<le> 65535 * 8" "word_sum d \<le> 65535 * 8" "word_sum base \<le> 65535 * 32768"
    using word_sum_bound [of s] word_sum_bound [of d] word_sum_bound [of base] sd(3,4) b(3)
    by (auto intro: order_trans mult_le_mono2)
  have "(word_of_int basetype :: 32 word) = word_of_nat (nat basetype)" using b by simp
  then have "sum2Octets s + sum2Octets d + of_nat (length base) + word_of_int basetype + sum2Octets base =
      word_of_nat (word_sum s + word_sum d + length base + nat basetype + word_sum base)"
    by (simp add: sum2Octets_word_sum)
  then have "unat (sum2Octets s + sum2Octets d + of_nat (length base) + word_of_int basetype + sum2Octets base) =
      word_sum s + word_sum d + length base + nat basetype + word_sum base"
    using b w by (simp only:) (rule unat_word_of_nat, simp)
  then have "unat (calculate info basetype base False) =
      complement (word_sum s + word_sum d + length base + nat basetype + word_sum base)"
    using sd b by (simp add: calculate_def optional_zero_def xSum_complement del: of_nat_add)
  moreover have "unat (calculate_buf base False) = complement (word_sum base)"
    using w unat_word_of_nat [of "word_sum base"]
    by (simp add: calculate_buf_def optional_zero_def xSum_complement sum2Octets_word_sum)
  ultimately show ?thesis using sd by (simp add: covered_def)
qed

lemma complement_less: "complement n < 65536"
  by (auto simp: complement_def intro: le_less_trans [OF diff_le_self])

definition checksum_value :: "ipinfo \<Rightarrow> int \<Rightarrow> bool \<Rightarrow> byte list \<Rightarrow> 32 word" where
  "checksum_value info basetype usepseudo base =
     (if usepseudo then calculate info basetype base False else calculate_buf base False)"

lemma checksum_of_value:
  assumes "usual info basetype base" "q + 2 \<le> length base" "8 * length base < 2147483648"
  shows "checksum_of info basetype optionable usepseudo (pos (8 * q)) base =
    Inr (optional_zero optionable (checksum_value info basetype usepseudo (put2 q 0 0 base)))"
  using assms by (auto simp: checksum_of_def checksum_value_def encodeZero_put2 calculate_def calculate_buf_def
      optional_zero_def usual_def)

lemma covered_put2:
  "q + 2 \<le> length base \<Longrightarrow> even q \<Longrightarrow>
   covered info t u (put2 q a b base) = covered info t u (put2 q 0 0 base) + (256 * unat a + unat b)"
  using word_sum_put2 [of q base a b] by (simp add: covered_def)

lemma low_octets: "256 * unat (ucast (drop_bit 8 h) :: byte) + unat (ucast h :: byte) = unat (h :: 32 word) mod 65536"
proof -
  have "unat (ucast w :: byte) = unat w mod 256" for w :: "32 word"
    by (simp add: unsigned_ucast_eq take_bit_eq_mod)
  then have "unat (ucast (drop_bit 8 h) :: byte) = unat h div 256 mod 256" "unat (ucast h :: byte) = unat h mod 256"
    by (simp_all add: drop_bit_eq_div unat_div_distrib)
  moreover have "unat h mod (256 * 256) = 256 * (unat h div 256 mod 256) + unat h mod 256" by (rule mod_mult2_eq)
  moreover have "256 * 256 = (65536 :: nat)" by simp
  ultimately show ?thesis by (simp only:)
qed

text \<open>
  C10: Filling in the checksum of a header at octet \<open>p\<close> of a frame changes the two octets of the checksum only, and makes
  the sum of the header, its payload and the pseudo header a multiple of \<open>0xffff\<close>, so that every receiver accepts it. When the
  tool reads such a packet it finds its own checksum correct, except when the checksum of a protocol that may leave
  it out is zero: then all ones are sent, and expected in 32 bits, which no received number equals.
\<close>

theorem generated_checksum_accepted:
  assumes "usual info basetype (take l (drop p buf))" "even q" "q + 2 \<le> l" "p + l \<le> length buf" "8 * length buf < 2147483648"
  shows "\<exists>buf' dec calc wrong.
    post_generate info basetype optionable usepseudo (pos (8 * p)) l (pos (8 * (p + q))) buf = Inr buf' \<and>
    (\<exists>a b. buf' = put2 (p + q) a b buf) \<and>
    covered info basetype usepseudo (take l (drop p buf')) mod 65535 = 0 \<and>
    uint_decode 16 (pos (8 * (p + q))) (ob_of buf') = Inr dec \<and>
    post_reverse info basetype optionable usepseudo (pos (8 * q)) (take l (drop p buf')) dec = Inr (calc, wrong) \<and>
    (wrong \<longleftrightarrow> optionable \<and> complement (covered info basetype usepseudo (put2 q 0 0 (take l (drop p buf)))) = 0)"
proof -
  define base where "base = take l (drop p buf)"
  define z where "z = checksum_value info basetype usepseudo (put2 q 0 0 base)"
  define h where "h = optional_zero optionable z"
  define a b where "a = (ucast (drop_bit 8 h) :: byte)" "b = (ucast h :: byte)"
  define buf' where "buf' = put2 (p + q) a b buf"
  have len: "length base = l" "q + 2 \<le> length base" "8 * length base < 2147483648" "p + q + 2 \<le> length buf"
    using assms(3-5) by (simp_all add: base_def)
  have u: "usual info basetype base" "usual info basetype (put2 q 0 0 base)"
    using assms(1) len by (simp_all add: base_def usual_def)
  have z: "unat z = complement (covered info basetype usepseudo (put2 q 0 0 base))"
    using calculate_covered [OF u(2)] by (simp add: z_def checksum_value_def)
  have calc: "checksum_of info basetype optionable usepseudo (pos (8 * q)) base = Inr h"
    using checksum_of_value [OF u(1) len(2,3)] by (simp add: h_def z_def)
  have sub: "it_subtract (pos (8 * p)) (pos (8 * (p + q))) = pos (8 * q)" "it_bytes (pos (8 * p)) = int p"
    using it_subtract_pos [of p q] pos_sel(1) [of "8 * p"] assms(3-5) by simp_all
  have enc: "member_encode (Uint 16) (Number h) (pos (8 * (p + q))) buf = Inr buf'"
    using encodeUint_put2 [of "p + q" buf h] len(4) assms(5) by (simp add: member_encode_def buf'_def a_b_def)
  have gen: "post_generate info basetype optionable usepseudo (pos (8 * p)) l (pos (8 * (p + q))) buf = Inr buf'"
    by (simp only: post_generate_def sub nat_int base_def [symmetric] Let_def calc bind_res_Inr enc)
  have base': "take l (drop p buf') = put2 q a b base"
    using put2_window [of q l p buf a b] assms(3,4) by (simp add: buf'_def base_def)
  have low: "256 * unat a + unat b = unat h mod 65536" using low_octets [of h] by (simp add: a_b_def)
  have h: "unat h mod 65536 = (if optionable \<and> unat z = 0 then 65535 else unat z)"
  proof (cases "optionable \<and> z = 0")
    case True
    then have "h = - 1" by (simp add: h_def optional_zero_def)
    then show ?thesis using True by (simp add: unsigned_minus_1_eq_mask mask_eq_exp_minus_1)
  next
    case False
    then have "h = z" "\<not> (optionable \<and> unat z = 0)" by (auto simp: h_def optional_zero_def unat_eq_0)
    moreover have "unat z < 65536" unfolding z by (rule complement_less)
    ultimately show ?thesis by simp
  qed
  have sum: "covered info basetype usepseudo (put2 q a b base) mod 65535 = 0"
    unfolding covered_put2 [OF len(2) assms(2), of _ _ _ a b] low h
    using complement_mod [of "covered info basetype usepseudo (put2 q 0 0 base)"]
    by (auto simp: z mod_add_self2)
  have dec: "uint_decode 16 (pos (8 * (p + q))) (ob_of buf') = Inr (take_bit 16 h)"
  proof -
    have "member_at (Uint 16) (8 * (p + q)) (length buf)" using len(4) by (simp add: member_at_def bits_of_def)
    from member_encode_bits [of "Uint 16" "Number h", OF _ this assms(5)]
    obtain d where "member_encode (Uint 16) (Number h) (pos (8 * (p + q))) buf = Inr d"
      "member_reverse (Uint 16) (pos (8 * (p + q))) (ob_of d) =
         Inr (Some (truncated (Uint 16) (Number h), pos (8 * (p + q) + bits_of (Uint 16))))"
      by (auto simp: bits_of_def same_bits_def)
    moreover note enc
    ultimately show ?thesis
      by (auto simp: member_reverse_def reversePv_def Let_def bind_res_def split: if_splits sum.splits)
  qed
  have rev: "post_reverse info basetype optionable usepseudo (pos (8 * q)) (put2 q a b base) (take_bit 16 h) = Inr (h, take_bit 16 h \<noteq> h)"
    using checksum_of_value [of info basetype "put2 q a b base" q optionable usepseudo] u(1) len
    by (simp add: post_reverse_def usual_def h_def z_def)
  have "take_bit 16 h \<noteq> h \<longleftrightarrow> optionable \<and> unat z = 0"
  proof -
    have "take_bit 16 h = h \<longleftrightarrow> unat h mod 65536 = unat h"
      by (simp add: take_bit_eq_mod word_unat_eq_iff unat_mod)
    also have "\<dots> \<longleftrightarrow> \<not> (optionable \<and> unat z = 0)"
    proof (cases "optionable \<and> unat z = 0")
      case True
      then have "h = - 1" by (simp add: h_def optional_zero_def unat_eq_0)
      then show ?thesis using True h by (simp add: unsigned_minus_1_eq_mask mask_eq_exp_minus_1)
    next
      case False
      then have "h = z" by (auto simp: h_def optional_zero_def unat_eq_0)
      then show ?thesis using False h by simp
    qed
    finally show ?thesis by blast
  qed
  with gen base' sum dec rev z show ?thesis
    unfolding base_def [symmetric] by (intro exI [of _ buf'] exI [of _ "take_bit 16 h"] exI [of _ h]) (auto simp: buf'_def)
qed

text \<open>A UDP header with eight octets of data in a frame of 62 octets: no other checksum is sent, and none is wrong.\<close>

definition demo_info :: ipinfo where
  "demo_info = \<lparr>SrcAddr = Some [10, 0, 0, 1], LastDstAddr = Some [10, 0, 0, 2]\<rparr>"

theorem generated_checksum_accepted_witness:
  "\<exists>buf'. post_generate demo_info 17 True True (pos 272) 16 (pos 320) (replicate 50 1) = Inr buf' \<and>
    covered demo_info 17 True (take 16 (drop 34 buf')) mod 65535 = 0"
proof -
  let ?buf = "replicate 50 (1 :: byte)"
  have "usual demo_info 17 (take 16 (drop 34 ?buf))" by (simp add: usual_def demo_info_def)
  from generated_checksum_accepted [OF this, of 6 True True]
  obtain buf' where "post_generate demo_info 17 True True (pos (8 * 34)) 16 (pos (8 * (34 + 6))) ?buf = Inr buf'"
    "covered demo_info 17 True (take 16 (drop 34 buf')) mod 65535 = 0"
    by (auto simp del: take_replicate drop_replicate)
  then show ?thesis by auto
qed

end
