(* ===== verification/VReverse.thy ===== *)
theory VReverse
  imports VLayout
begin

text \<open>
  Taking a received packet apart (\<open>lib/Pz/McObject.cc\<close>, \<open>MmObject.cc\<close>, \<open>MmData.cc\<close>, \<open>MmHeader.cc\<close>): one
  object with its members, and the loop over the objects of a list, which options are read with. The loop is a partial
  function, so that not to end would be the value \<open>None\<close>.
\<close>

section \<open>The controller and the objects it creates\<close>

text \<open>
  \<open>rc_noted\<close> are the members handed to the functions that collect addresses for the pseudo header, in order.
\<close>

record rcontrol =
  rc_error :: bool
  rc_code :: int
  rc_type :: dict_type
  rc_noted :: "(string \<times> mval) list"

definition set_error_code :: "int \<Rightarrow> rcontrol \<Rightarrow> rcontrol" where
  "set_error_code ecode c = c\<lparr>rc_error := True, rc_code := ecode\<rparr>"

definition set_warning_code :: "int \<Rightarrow> rcontrol \<Rightarrow> rcontrol" where
  "set_warning_code wcode c = (if \<not> rc_error c then c\<lparr>rc_code := wcode\<rparr> else c)"

text \<open>A member, the data of a member of variable size, or an object with its members: name, offset, size, contents.\<close>

datatype robject =
    RmObject string itpos itpos mval
  | RmData string itpos itpos octbuf
  | RcObject string itpos octbuf "robject list"

type_synonym reverser = "rcontrol \<Rightarrow> itpos \<Rightarrow> octbuf \<Rightarrow> (rcontrol \<times> itpos \<times> robject list) res"

section \<open>Members\<close>

definition MmElement_reverse :: "string \<Rightarrow> mkind \<Rightarrow> bool \<Rightarrow> reverser" where
  "MmElement_reverse n k noted c at buf = bind_res (member_reverse k at buf) (\<lambda>r. case r of
       None \<Rightarrow> Inr (set_error_code 1 c, at, [])
     | Some (v, at') \<Rightarrow> Inr (if noted then c\<lparr>rc_noted := rc_noted c @ [(n, v)]\<rparr> else c, at',
         [RmObject n at (member_length k at buf) v]))"

definition MmData_reverse :: "string \<Rightarrow> bool \<Rightarrow> reverser" where
  "MmData_reverse n evalskip c at buf = (let l = ulong_of (remainLength (it_bytes at) buf) in
     if evalskip \<and> l = 0 then Inr (c, at, [])
     else let sz = it_pos (long_of l) 0 in
       if \<not> check_decode_limit at sz buf then Inr (set_error_code 1 c, at, [])
       else bind_res (ob_substr (it_bytes at) l buf) (\<lambda>pv. Inr (c, it_add sz at, [RmData n at sz pv])))"

text \<open>\<open>MmMultiple\<close>: as often as the class says, whether an error occurs or not.\<close>

fun MmMultiple_reverse :: "nat \<Rightarrow> reverser \<Rightarrow> reverser" where
  "MmMultiple_reverse 0 mbody c at buf = Inr (c, at, [])"
| "MmMultiple_reverse (Suc cou) mbody c at buf = bind_res (mbody c at buf) (\<lambda>(c, at, xs).
     bind_res (MmMultiple_reverse cou mbody c at buf) (\<lambda>(c, at, ys). Inr (c, at, xs @ ys)))"

section \<open>Objects\<close>

fun members_loop :: "reverser list \<Rightarrow> reverser" where
  "members_loop [] c at buf = Inr (c, at, [])"
| "members_loop (m # ms) c at buf = bind_res (m c at buf) (\<lambda>(c, at, xs).
     if rc_error c then Inr (c, at, xs)
     else bind_res (members_loop ms c at buf) (\<lambda>(c, at, ys). Inr (c, at, xs @ ys)))"

definition McObject_members_reverse :: "reverser \<Rightarrow> reverser list \<Rightarrow> rcontrol \<Rightarrow> octbuf \<Rightarrow> (rcontrol \<times> robject list) res" where
  "McObject_members_reverse needless ms c buf = bind_res (members_loop ms c (it_pos 0 0) buf) (\<lambda>(c, at, xs).
     if remainLength (it_bytes at) buf > 0
     then bind_res (needless c at buf) (\<lambda>(c, at, ys). Inr (c, xs @ ys))
     else Inr (c, xs))"

definition padcount_alignment_requirement :: "32 word \<Rightarrow> 32 word \<Rightarrow> 32 word \<Rightarrow> 32 word" where
  "padcount_alignment_requirement X H S = (if X = 0 then 0 else (X - (H + S) mod X) mod X)"

definition check_decode_alignment_requirement :: "32 word \<Rightarrow> itpos \<Rightarrow> itpos \<Rightarrow> bool" where
  "check_decode_alignment_requirement ali at sz \<longleftrightarrow>
     padcount_alignment_requirement ali (word_of_int (it_bytes at)) (word_of_int (it_bytes sz)) = 0"

definition McObject_reverse :: "string \<Rightarrow> (itpos \<Rightarrow> octbuf \<Rightarrow> 32 word res) \<Rightarrow> 32 word \<Rightarrow>
    (rcontrol \<Rightarrow> octbuf \<Rightarrow> (rcontrol \<times> robject list) res) \<Rightarrow> reverser" where
  "McObject_reverse n length_for_reverse ali mems c at buf = bind_res (length_for_reverse at buf) (\<lambda>l.
     let sz = it_pos (long_of (uint l)) 0 in
     if \<not> check_decode_limit at sz buf then Inr (set_error_code 1 c, at, [])
     else let c = (if \<not> check_decode_alignment_requirement ali at sz then set_warning_code 3 c else c) in
       bind_res (ob_substr (it_bytes at) (uint l) buf) (\<lambda>buf_self.
       bind_res (mems c buf_self) (\<lambda>(c, xs).
       Inr (c, addBytes (uint l) at, [RcObject n at buf_self xs]))))"

text \<open>
  \<open>McNeedless\<close> and \<open>McPayload\<close> have one member of data, behind which nothing remains; their lengths are what is left.
\<close>

definition remain_for_reverse :: "itpos \<Rightarrow> octbuf \<Rightarrow> 32 word res" where
  "remain_for_reverse at buf = Inr (word_of_int (remainLength (it_bytes at) buf))"

definition McPayload_reverse :: "string \<Rightarrow> reverser" where
  "McPayload_reverse n = McObject_reverse n remain_for_reverse 0
     (McObject_members_reverse (\<lambda>c at buf. Inl Endless) [MmData_reverse ''data'' False])"

definition McNeedless_reverse :: reverser where
  "McNeedless_reverse c at buf = (if word_of_int (remainLength (it_bytes at) buf) = (0 :: 32 word) then Inr (c, at, [])
     else McPayload_reverse McNeedless c at buf)"

section \<open>Lists of objects\<close>

text \<open>
  The loop of \<open>MmReference_More0::reverse\<close>: \<open>overwrite\<close> finds the type of the next object, \<open>dict\<close> the class to read
  it with.
\<close>

partial_function (option) More0_loop :: "(rcontrol \<Rightarrow> itpos \<Rightarrow> octbuf \<Rightarrow> (rcontrol \<times> bool) res) \<Rightarrow> (dict_type \<Rightarrow> reverser option) \<Rightarrow>
    rcontrol \<Rightarrow> itpos \<Rightarrow> octbuf \<Rightarrow> robject list \<Rightarrow> (rcontrol \<times> itpos \<times> robject list) res option" where
  "More0_loop overwrite dict c at buf acc = (case overwrite c at buf of
       Inl e \<Rightarrow> Some (Inl e)
     | Inr (c, found) \<Rightarrow> if \<not> found then Some (Inr (c, at, acc)) else (case dict (rc_type c) of
         None \<Rightarrow> Some (Inr (c, at, acc))
       | Some mc \<Rightarrow> (case mc c at buf of
           Inl e \<Rightarrow> Some (Inl e)
         | Inr (c, at, rc) \<Rightarrow> if rc \<noteq> [] \<and> \<not> rc_error c then More0_loop overwrite dict c at buf (acc @ rc)
             else Some (Inr (c, at, acc @ rc)))))"

definition MmReference_More0_reverse :: "(rcontrol \<Rightarrow> itpos \<Rightarrow> octbuf \<Rightarrow> (rcontrol \<times> bool) res) \<Rightarrow> (dict_type \<Rightarrow> reverser option) \<Rightarrow>
    bool \<Rightarrow> rcontrol \<Rightarrow> itpos \<Rightarrow> octbuf \<Rightarrow> (rcontrol \<times> itpos \<times> robject list) res option" where
  "MmReference_More0_reverse overwrite dict keepType c at buf = map_option
     (map_sum id (\<lambda>(c', at, xs). (if keepType then c'\<lparr>rc_type := rc_type c\<rparr> else c', at, xs)))
     (More0_loop overwrite dict c at buf [])"

text \<open>A reference to one object, which must have a class.\<close>

definition MmReference_Must1_reverse :: "(rcontrol \<Rightarrow> itpos \<Rightarrow> octbuf \<Rightarrow> (rcontrol \<times> bool) res) \<Rightarrow> (dict_type \<Rightarrow> reverser option) \<Rightarrow>
    bool \<Rightarrow> reverser" where
  "MmReference_Must1_reverse overwrite dict keepType c at buf = bind_res (overwrite c at buf) (\<lambda>(c1, found).
     bind_res (if \<not> found then Inr (c1, at, [])
       else case dict (rc_type c1) of None \<Rightarrow> Inr (set_error_code 1 c1, at, []) | Some mc \<Rightarrow> mc c1 at buf) (\<lambda>(c2, at, xs).
     Inr (if keepType then c2\<lparr>rc_type := rc_type c\<rparr> else c2, at, xs)))"

section \<open>What reading an object consumes\<close>

text \<open>A window within the frame, of less than 256 MB.\<close>

definition ob_ok :: "octbuf \<Rightarrow> bool" where
  "ob_ok b \<longleftrightarrow> 0 \<le> ob_len b \<and> 8 * ob_len b < 2147418112 \<and> int (ob_off b) + ob_len b \<le> int (length (ob_mem b))"

definition sub_window :: "octbuf \<Rightarrow> nat \<Rightarrow> nat \<Rightarrow> octbuf" where
  "sub_window b q l = b\<lparr>ob_off := ob_off b + q, ob_len := int l\<rparr>"

lemma ob_ok_sub: "ob_ok b \<Longrightarrow> int q + int l \<le> ob_len b \<Longrightarrow> ob_ok (sub_window b q l)"
  by (simp add: ob_ok_def sub_window_def)

lemma ob_substr_sub:
  assumes "ob_ok b" "int q + int l \<le> ob_len b"
  shows "ob_substr (int q) (int l) b = Inr (sub_window b q l)"
  using assms by (auto simp: ob_ok_def ob_substr_def sub_window_def ulong_of_def)

lemma octet_pos: "pos (8 * q) = it_pos (int q) 0"
  by (simp add: pos_def)

lemma limit_octets:
  assumes "ob_ok b" "int q \<le> ob_len b" "l < 65536"
  shows "check_decode_limit (pos (8 * q)) (it_pos (int l) 0) b \<longleftrightarrow> int q + int l \<le> ob_len b"
  using check_decode_limit_pos [of "8 * q" "8 * l" b] assms by (auto simp: ob_ok_def octet_pos)

lemma addBytes_octets: "q + l < 268435456 \<Longrightarrow> addBytes (int l) (pos (8 * q)) = pos (8 * (q + l))"
  unfolding octet_pos by (simp add: it_pos_def addBytes_def)

lemma McObject_reverse_cases:
  assumes "McObject_reverse n len ali mems c (pos (8 * q)) b = Inr (c', at, xs)"
    "ob_ok b" "int q \<le> ob_len b" "\<And>l. len (pos (8 * q)) b = Inr l \<Longrightarrow> unat l < 65536"
  obtains "xs = []" "at = pos (8 * q)" "rc_error c'"
  | l c1 ys where "len (pos (8 * q)) b = Inr l" "int q + int (unat l) \<le> ob_len b" "at = pos (8 * (q + unat l))"
      "mems c1 (sub_window b q (unat l)) = Inr (c', ys)" "xs = [RcObject n (pos (8 * q)) (sub_window b q (unat l)) ys]"
proof -
  obtain l where l: "len (pos (8 * q)) b = Inr l" using assms(1) by (auto simp: McObject_reverse_def bind_res_eq_Inr)
  define m where "m = unat l"
  have m: "m < 65536" using assms(4) [OF l] by (simp add: m_def)
  have u: "uint l = int m" by (simp add: m_def)
  have q: "it_bytes (pos (8 * q)) = int q" using assms(2,3) pos_sel(1) [of "8 * q"] by (simp add: ob_ok_def)
  note limit = limit_octets [OF assms(2,3) m]
  show thesis
  proof (cases "int q + int m \<le> ob_len b")
    case True
    then have a: "addBytes (int m) (pos (8 * q)) = pos (8 * (q + m))"
      using assms(2) unfolding ob_ok_def by (intro addBytes_octets) linarith
    obtain c1 ys where "mems c1 (sub_window b q m) = Inr (c', ys)" "at = pos (8 * (q + m))"
      "xs = [RcObject n (pos (8 * q)) (sub_window b q m) ys]"
      using assms(1) l True m
      by (auto simp: McObject_reverse_def Let_def u limit ob_substr_sub [OF assms(2) True] q a bind_res_eq_Inr)
    then show thesis using that(2) [OF l] True by (simp add: m_def)
  next
    case False
    then show thesis
      using assms(1) l m that(1) by (auto simp: McObject_reverse_def Let_def u limit set_error_code_def)
  qed
qed

lemma element_refused:
  assumes "ob_ok b" "p \<le> 8 * nat (ob_len b)" "k \<noteq> VarOcts" "bits_of k < 65529" "8 * nat (ob_len b) < p + bits_of k"
  shows "MmElement_reverse n k f c (pos p) b = Inr (set_error_code 1 c, pos p, [])"
proof -
  have "\<not> check_decode_limit (pos p) (pos (bits_of k)) b"
    using check_decode_limit_pos [of p "bits_of k" b] assms unfolding ob_ok_def by linarith
  then show ?thesis
    using assms(3,4) by (simp add: MmElement_reverse_def member_reverse_def member_length_pos Let_def)
qed

lemma empty_window_refused:
  assumes "ob_ok b" "ob_len b = 0" "k \<noteq> VarOcts" "0 < bits_of k" "bits_of k < 65529"
  shows "McObject_members_reverse needless (MmElement_reverse n k f # ms) c b = Inr (set_error_code 1 c, [])"
  using element_refused [OF assms(1), of 0 k n f c] assms
  by (simp add: McObject_members_reverse_def octet_pos [of 0, simplified, symmetric] set_error_code_def remainLength_def
      pos_sel [of 0, simplified])

section \<open>Reading within the frame\<close>

text \<open>At least two octets of the frame follow the window.\<close>

definition roomy :: "octbuf \<Rightarrow> bool" where
  "roomy b \<longleftrightarrow> int (ob_off b) + ob_len b + 1 < int (length (ob_mem b))"

lemma roomy_sub: "roomy b \<Longrightarrow> int q + int l \<le> ob_len b \<Longrightarrow> roomy (sub_window b q l)"
  by (simp add: roomy_def sub_window_def)

text \<open>A reader that returns, at a position in the window that is not before the one it began at.\<close>

definition total_reverser :: "reverser \<Rightarrow> bool" where
  "total_reverser m \<longleftrightarrow> (\<forall>c p b. ob_ok b \<and> roomy b \<and> p \<le> 8 * nat (ob_len b) \<longrightarrow>
     (\<exists>c' p' xs. m c (pos p) b = Inr (c', pos p', xs) \<and> p \<le> p' \<and> p' \<le> 8 * nat (ob_len b)))"

lemma total_reverserE:
  assumes "total_reverser m" "ob_ok b" "roomy b" "p \<le> 8 * nat (ob_len b)"
  obtains c' p' xs where "m c (pos p) b = Inr (c', pos p', xs)" "p \<le> p'" "p' \<le> 8 * nat (ob_len b)"
  using assms unfolding total_reverser_def by blast

lemma ob_ok_small: "ob_ok b \<Longrightarrow> p \<le> 8 * nat (ob_len b) \<Longrightarrow> p < 2147418112"
  unfolding ob_ok_def by linarith

lemma limit_bits:
  assumes "ob_ok b" "p \<le> 8 * nat (ob_len b)" "m < 2147483648"
  shows "check_decode_limit (pos p) (pos m) b \<longleftrightarrow> p + m \<le> 8 * nat (ob_len b)"
proof -
  have "0 \<le> ob_len b" "8 * ob_len b < 2147483648" using assms(1) by (simp_all add: ob_ok_def)
  then show ?thesis using check_decode_limit_pos [of p m b] assms(3) ob_ok_small [OF assms(1,2)] by linarith
qed

lemma field_fits_roomy:
  assumes "ob_ok b" "roomy b" "p + w \<le> 8 * nat (ob_len b)"
  shows "field_fits p w (ob_string b)"
proof -
  have "nat (ob_len b) < length (ob_string b)" using assms(1,2) by (auto simp: ob_ok_def roomy_def ob_string_def)
  then show ?thesis using assms(3) by (simp add: field_fits_def)
qed

definition plain_kind :: "mkind \<Rightarrow> bool" where
  "plain_kind k \<longleftrightarrow> (case k of Uint w \<Rightarrow> w \<le> 32 | Octs n \<Rightarrow> n < 8000 | VarOcts \<Rightarrow> False)"

lemma total_element: "plain_kind k \<Longrightarrow> total_reverser (MmElement_reverse n k f)"
  unfolding total_reverser_def
proof (intro allI impI, elim conjE)
  fix c p b
  assume k: "plain_kind k" and b: "ob_ok b" "roomy b" "p \<le> 8 * nat (ob_len b)"
  have small: "k \<noteq> VarOcts" "bits_of k < 65529" using k by (auto simp: plain_kind_def bits_of_def split: mkind.splits)
  note len = member_length_pos [OF small]
  show "\<exists>c' p' xs. MmElement_reverse n k f c (pos p) b = Inr (c', pos p', xs) \<and> p \<le> p' \<and> p' \<le> 8 * nat (ob_len b)"
  proof (cases "p + bits_of k \<le> 8 * nat (ob_len b)")
    case False
    then show ?thesis using element_refused [OF b(1,3) small] b(3) by auto
  next
    case True
    have p: "p < 2147418112" using ob_ok_small [OF b(1,3)] .
    have "\<exists>v. reversePv k (pos p) (pos (bits_of k)) b = Inr v"
    proof (cases k)
      case (Uint w)
      then have "p + w < 2147483648" "w \<le> 32" "field_fits p w (ob_string b)"
        using p k field_fits_roomy [OF b(1,2) True] by (simp_all add: plain_kind_def bits_of_def)
      then obtain h where "decodeUint (pos p) w (ob_string b) = Inr h" using decodeUint_bits by blast
      then show ?thesis using Uint k by (simp add: reversePv_def uint_decode_def plain_kind_def)
    next
      case (Octs m)
      then have "p div 8 + m \<le> nat (ob_len b)" using True by (simp add: bits_of_def)
      then have "int (p div 8) + int m \<le> int (length (ob_string b))" using b(1) by (auto simp: ob_ok_def ob_string_def)
      then show ?thesis using Octs p by (simp add: reversePv_def octets_at_def pos_sel(1) Let_def)
    qed (use small in simp)
    moreover have "it_add (pos (bits_of k)) (pos p) = pos (p + bits_of k)" by (rule it_add_pos) (use p small in simp)
    ultimately have "\<exists>v. member_reverse k (pos p) b = Inr (Some (v, pos (p + bits_of k)))"
      using limit_bits [OF b(1,3), of "bits_of k"] True small by (auto simp: member_reverse_def len Let_def)
    then show ?thesis using True by (auto simp: MmElement_reverse_def intro!: exI [of _ "p + bits_of k"])
  qed
qed

lemma remain_at:
  assumes "ob_ok b" "p \<le> 8 * nat (ob_len b)"
  shows "it_bytes (pos p) = int (p div 8)" "remainLength (int (p div 8)) b = int (nat (ob_len b) - p div 8)"
    "p div 8 \<le> nat (ob_len b)"
proof -
  show le: "p div 8 \<le> nat (ob_len b)" using assms(2) by simp
  show "it_bytes (pos p) = int (p div 8)" using ob_ok_small [OF assms] by (simp add: pos_sel(1))
  have n: "0 \<le> ob_len b" "ob_len b < 268427264" using assms(1) by (simp_all add: ob_ok_def)
  then have "ob_len b - int (p div 8) = int (nat (ob_len b) - p div 8)" using le by linarith
  moreover have "long_of (int (nat (ob_len b) - p div 8)) = int (nat (ob_len b) - p div 8)"
    by (rule long_of_id) (use n in linarith)+
  ultimately show "remainLength (int (p div 8)) b = int (nat (ob_len b) - p div 8)"
    by (simp only: remainLength_def)
qed

lemma it_pos_octets: "it_pos (int l) 0 = pos (8 * l)"
  by (simp add: pos_def)

lemma total_data: "total_reverser (MmData_reverse n skip)"
  unfolding total_reverser_def
proof (intro allI impI, elim conjE)
  fix c p b
  assume b: "ob_ok b" "roomy b" "p \<le> 8 * nat (ob_len b)"
  define l where "l = nat (ob_len b) - p div 8"
  note r = remain_at [OF b(1,3), folded l_def]
  have l: "l < 268427264" "int (p div 8) + int l \<le> ob_len b" using b(1) r(3) by (auto simp: ob_ok_def l_def)
  have u: "ulong_of (int l) = int l" "long_of (int l) = int l" using l(1) by (simp_all add: ulong_of_def)
  have "it_add (pos (8 * l)) (pos p) = pos (p + 8 * l)" if "p + 8 * l \<le> 8 * nat (ob_len b)"
    by (rule it_add_pos) (use ob_ok_small [OF b(1) that] in simp)
  then show "\<exists>c' p' xs. MmData_reverse n skip c (pos p) b = Inr (c', pos p', xs) \<and> p \<le> p' \<and> p' \<le> 8 * nat (ob_len b)"
    using b(3) limit_bits [OF b(1,3), of "8 * l"] l(1) ob_substr_sub [OF b(1) l(2)]
    by (auto simp: MmData_reverse_def Let_def r u it_pos_octets)
qed

lemma total_multiple: "total_reverser m \<Longrightarrow> total_reverser (MmMultiple_reverse cou m)"
proof (induction cou)
  case 0
  then show ?case by (auto simp: total_reverser_def)
next
  case (Suc cou)
  show ?case
    unfolding total_reverser_def
  proof (intro allI impI, elim conjE)
    fix c p b
    assume b: "ob_ok b" "roomy b" "p \<le> 8 * nat (ob_len b)"
    obtain c1 p1 xs where 1: "m c (pos p) b = Inr (c1, pos p1, xs)" "p \<le> p1" "p1 \<le> 8 * nat (ob_len b)"
      by (rule total_reverserE [OF Suc.prems b])
    obtain c2 p2 ys where 2: "MmMultiple_reverse cou m c1 (pos p1) b = Inr (c2, pos p2, ys)" "p1 \<le> p2" "p2 \<le> 8 * nat (ob_len b)"
      by (rule total_reverserE [OF Suc.IH [OF Suc.prems] b(1,2) 1(3)])
    show "\<exists>c' p' xs. MmMultiple_reverse (Suc cou) m c (pos p) b = Inr (c', pos p', xs) \<and> p \<le> p' \<and> p' \<le> 8 * nat (ob_len b)"
      using 1 2 by auto
  qed
qed

lemma total_members: "list_all total_reverser ms \<Longrightarrow> total_reverser (members_loop ms)"
proof (induction ms)
  case Nil
  then show ?case by (auto simp: total_reverser_def)
next
  case (Cons m ms)
  then have t: "total_reverser m" "total_reverser (members_loop ms)" by simp_all
  show ?case
    unfolding total_reverser_def
  proof (intro allI impI, elim conjE)
    fix c p b
    assume b: "ob_ok b" "roomy b" "p \<le> 8 * nat (ob_len b)"
    obtain c1 p1 xs where 1: "m c (pos p) b = Inr (c1, pos p1, xs)" "p \<le> p1" "p1 \<le> 8 * nat (ob_len b)"
      by (rule total_reverserE [OF t(1) b])
    obtain c2 p2 ys where 2: "members_loop ms c1 (pos p1) b = Inr (c2, pos p2, ys)" "p1 \<le> p2" "p2 \<le> 8 * nat (ob_len b)"
      by (rule total_reverserE [OF t(2) b(1,2) 1(3)])
    show "\<exists>c' p' xs. members_loop (m # ms) c (pos p) b = Inr (c', pos p', xs) \<and> p \<le> p' \<and> p' \<le> 8 * nat (ob_len b)"
      using 1 2 by auto
  qed
qed

text \<open>The members of an object in its own window.\<close>

definition total_object :: "(rcontrol \<Rightarrow> octbuf \<Rightarrow> (rcontrol \<times> robject list) res) \<Rightarrow> bool" where
  "total_object mems \<longleftrightarrow> (\<forall>c b. ob_ok b \<and> roomy b \<longrightarrow> (\<exists>c' xs. mems c b = Inr (c', xs)))"

lemma total_members_object:
  assumes "list_all total_reverser ms" "total_reverser needless"
  shows "total_object (McObject_members_reverse needless ms)"
  unfolding total_object_def
proof (intro allI impI, elim conjE)
  fix c b
  assume b: "ob_ok b" "roomy b"
  obtain c1 p1 xs where 1: "members_loop ms c (pos 0) b = Inr (c1, pos p1, xs)" "p1 \<le> 8 * nat (ob_len b)"
    by (rule total_reverserE [OF total_members [OF assms(1)] b, of 0 c]) simp_all
  obtain c2 p2 ys where 2: "needless c1 (pos p1) b = Inr (c2, pos p2, ys)"
    by (rule total_reverserE [OF assms(2) b 1(2)])
  show "\<exists>c' xs. McObject_members_reverse needless ms c b = Inr (c', xs)"
    using 1 2 by (simp add: McObject_members_reverse_def pos0)
qed

lemma total_McObject:
  assumes "total_object mems" "\<And>p b. ob_ok b \<Longrightarrow> roomy b \<Longrightarrow> p \<le> 8 * nat (ob_len b) \<Longrightarrow>
    \<exists>l. len (pos p) b = Inr l \<and> unat l < 268427264"
  shows "total_reverser (McObject_reverse n len ali mems)"
  unfolding total_reverser_def
proof (intro allI impI, elim conjE)
  fix c p b
  assume b: "ob_ok b" "roomy b" "p \<le> 8 * nat (ob_len b)"
  obtain l where l: "len (pos p) b = Inr l" "unat l < 268427264" using assms(2) [OF b] by blast
  define m where "m = unat l"
  have m: "m < 268427264" and u: "uint l = int m" using l(2) by (simp_all add: m_def)
  then have u: "uint l = int m" "long_of (int m) = int m" by simp_all
  have lim: "check_decode_limit (pos p) (it_pos (int m) 0) b \<longleftrightarrow> p + 8 * m \<le> 8 * nat (ob_len b)"
    using limit_bits [OF b(1,3), of "8 * m"] m by (simp add: it_pos_octets)
  show "\<exists>c' p' xs. McObject_reverse n len ali mems c (pos p) b = Inr (c', pos p', xs) \<and> p \<le> p' \<and> p' \<le> 8 * nat (ob_len b)"
  proof (cases "p + 8 * m \<le> 8 * nat (ob_len b)")
    case False
    then show ?thesis using b(3) by (auto simp: McObject_reverse_def l(1) u lim Let_def intro!: exI [of _ p])
  next
    case True
    then have w: "int (p div 8) + int m \<le> ob_len b" using b(1) by (auto simp: ob_ok_def)
    have "p + 8 * m < 2147483648" using ob_ok_small [OF b(1) True] by simp
    then have a: "addBytes (int m) (pos p) = pos (p + 8 * m)" by (rule pos_addBytes)
    have "\<exists>c' xs. mems c1 (sub_window b (p div 8) m) = Inr (c', xs)" for c1
      using assms(1) ob_ok_sub [OF b(1) w] roomy_sub [OF b(2) w] by (simp add: total_object_def)
    then obtain c' xs where "mems (if \<not> check_decode_alignment_requirement ali (pos p) (it_pos (int m) 0) then set_warning_code 3 c else c)
        (sub_window b (p div 8) m) = Inr (c', xs)" by blast
    then show ?thesis
      using True by (auto simp: McObject_reverse_def l(1) u lim Let_def remain_at(1) [OF b(1,3)] ob_substr_sub [OF b(1) w] a
          intro!: exI [of _ "p + 8 * m"])
  qed
qed

lemma total_payload: "total_reverser (McPayload_reverse n)"
proof -
  have "total_object (McObject_members_reverse (\<lambda>c at buf. Inl Endless) [MmData_reverse ''data'' False])"
    unfolding total_object_def
  proof (intro allI impI, elim conjE)
    fix c b
    assume b: "ob_ok b" "roomy b"
    define l where "l = nat (ob_len b)"
    have l: "l < 268427264" "int 0 + int l \<le> ob_len b" using b(1) by (auto simp: ob_ok_def l_def)
    have r: "it_bytes (pos 0) = 0" "remainLength 0 b = int l" using remain_at(1,2) [OF b(1), of 0] by (simp_all add: l_def)
    have u: "ulong_of (int l) = int l" "long_of (int l) = int l" using l(1) by (simp_all add: ulong_of_def)
    have lim: "check_decode_limit (pos 0) (pos (8 * l)) b" using limit_bits [OF b(1), of 0 "8 * l"] l(1) by (simp add: l_def)
    have a: "it_add (pos (8 * l)) (pos 0) = pos (8 * l)" using it_add_pos [of 0 "8 * l"] l(1) by simp
    have d: "MmData_reverse ''data'' False c (pos 0) b = Inr (c, pos (8 * l), [RmData ''data'' (pos 0) (pos (8 * l)) (sub_window b 0 l)])"
      using lim ob_substr_sub [OF b(1) l(2)] by (simp add: MmData_reverse_def Let_def r u it_pos_octets a)
    have "remainLength (it_bytes (pos (8 * l))) b = 0"
      using remain_at(1,2) [OF b(1), of "8 * l"] by (simp add: l_def)
    then show "\<exists>c' xs. McObject_members_reverse (\<lambda>c at buf. Inl Endless) [MmData_reverse ''data'' False] c b = Inr (c', xs)"
      by (simp add: McObject_members_reverse_def pos0 d)
  qed
  then show ?thesis
    unfolding McPayload_reverse_def
  proof (rule total_McObject)
    fix p b
    assume b: "ob_ok b" "roomy b" "p \<le> 8 * nat (ob_len b)"
    note r = remain_at [OF b(1,3)]
    define m where "m = nat (ob_len b) - p div 8"
    have m: "m < 268427264" using b(1) unfolding ob_ok_def m_def by linarith
    then have "unat (word_of_nat m :: 32 word) < 268427264" by (simp add: unat_of_nat take_bit_nat_eq_self)
    then show "\<exists>l. remain_for_reverse (pos p) b = Inr l \<and> unat l < 268427264"
      by (simp add: remain_for_reverse_def r(1) r(2) [folded m_def])
  qed
qed

lemma total_needless: "total_reverser McNeedless_reverse"
  using total_payload [of McNeedless] by (force simp: total_reverser_def McNeedless_reverse_def)

section \<open>The loop ends\<close>

text \<open>
  The interface of the loop: an object that is created without an error ends at an octet behind its beginning, within
  the window, and reading it is without a fault when two octets of the frame follow the window.
\<close>

locale object_list =
  fixes overwrite :: "rcontrol \<Rightarrow> itpos \<Rightarrow> octbuf \<Rightarrow> (rcontrol \<times> bool) res"
    and dict :: "dict_type \<Rightarrow> reverser option"
  assumes step: "ob_ok b \<Longrightarrow> int q \<le> ob_len b \<Longrightarrow> overwrite c (pos (8 * q)) b = Inr (c1, True) \<Longrightarrow> dict (rc_type c1) = Some mc \<Longrightarrow>
      mc c1 (pos (8 * q)) b = Inr (c2, at, xs) \<Longrightarrow>
      length xs \<le> 1 \<and> (\<exists>q'. at = pos (8 * q') \<and> q \<le> q' \<and> int q' \<le> ob_len b \<and> (q = q' \<longrightarrow> xs = [] \<or> rc_error c2))"
    and type_found: "ob_ok b \<Longrightarrow> roomy b \<Longrightarrow> int q \<le> ob_len b \<Longrightarrow> \<exists>r. overwrite c (pos (8 * q)) b = Inr r"
    and readers: "dict t = Some mc \<Longrightarrow> total_reverser mc"
begin

lemma reader_returns:
  assumes "dict t = Some mc" "ob_ok b" "roomy b" "int q \<le> ob_len b"
  shows "\<exists>r. mc c (pos (8 * q)) b = Inr r"
proof -
  have "8 * q \<le> 8 * nat (ob_len b)" using assms(4) by simp
  from total_reverserE [OF readers [OF assms(1)] assms(2,3) this] show ?thesis by metis
qed

lemma loop_ends:
  "ob_ok b \<Longrightarrow> int q \<le> ob_len b \<Longrightarrow> \<exists>r. More0_loop overwrite dict c (pos (8 * q)) b acc = Some r \<and> (roomy b \<longrightarrow> \<not> isl r) \<and>
     (case r of Inl e \<Rightarrow> True | Inr (c', at, xs) \<Rightarrow>
        \<exists>q' ys. at = pos (8 * q') \<and> q \<le> q' \<and> int q' \<le> ob_len b \<and> xs = acc @ ys \<and> length ys \<le> q' - q + 1)"
proof (induction "nat (ob_len b) - q" arbitrary: q c acc rule: less_induct)
  case less
  note unfold = More0_loop.simps [of overwrite dict c "pos (8 * q)" b acc]
  show ?case
  proof (cases "overwrite c (pos (8 * q)) b")
    case (Inl e)
    then have "\<not> roomy b" using type_found [OF less.prems(1) _ less.prems(2), of c] by auto
    then show ?thesis using Inl by (simp add: unfold)
  next
    case (Inr r)
    then obtain c1 found where r: "overwrite c (pos (8 * q)) b = Inr (c1, found)" by (cases r) auto
    show ?thesis
    proof (cases "found \<and> dict (rc_type c1) \<noteq> None")
      case False
      then have "More0_loop overwrite dict c (pos (8 * q)) b acc = Some (Inr (c1, pos (8 * q), acc))"
        by (auto simp: unfold r)
      then show ?thesis using less.prems by auto
    next
      case True
      then obtain mc where mc: "found" "dict (rc_type c1) = Some mc" by auto
      show ?thesis
      proof (cases "mc c1 (pos (8 * q)) b")
        case (Inl e)
        then have "\<not> roomy b" using reader_returns [OF mc(2) less.prems(1) _ less.prems(2), of c1] by auto
        then show ?thesis using Inl by (simp add: unfold r mc)
      next
        case (Inr s)
        then obtain c2 at xs where s: "mc c1 (pos (8 * q)) b = Inr (c2, at, xs)" by (cases s) auto
        from step [OF less.prems r [unfolded eqTrueI [OF mc(1)]] mc(2) s]
        obtain q' where q': "length xs \<le> 1" "at = pos (8 * q')" "q \<le> q'" "int q' \<le> ob_len b" "q = q' \<longrightarrow> xs = [] \<or> rc_error c2"
          by blast
        show ?thesis
        proof (cases "xs \<noteq> [] \<and> \<not> rc_error c2")
          case True
          then have "q < q'" using q' by (cases "q = q'") auto
          then have "nat (ob_len b) - q' < nat (ob_len b) - q" using q'(4) by linarith
          from less.hyps [OF this less.prems(1) q'(4), of c2 "acc @ xs"] obtain r' where
            r': "More0_loop overwrite dict c2 (pos (8 * q')) b (acc @ xs) = Some r'" "roomy b \<longrightarrow> \<not> isl r'"
            "case r' of Inl e \<Rightarrow> True | Inr (c', at, zs) \<Rightarrow>
               \<exists>q'' ys. at = pos (8 * q'') \<and> q' \<le> q'' \<and> int q'' \<le> ob_len b \<and> zs = (acc @ xs) @ ys \<and> length ys \<le> q'' - q' + 1"
            by blast
          have "More0_loop overwrite dict c (pos (8 * q)) b acc = Some r'" using True r'(1) by (simp add: unfold r mc s q'(2))
          moreover have "\<exists>q'' ys. at = pos (8 * q'') \<and> q \<le> q'' \<and> int q'' \<le> ob_len b \<and> zs = acc @ ys \<and> length ys \<le> q'' - q + 1"
            if res: "r' = Inr (c', at, zs)" for c' at zs
          proof -
            obtain q'' ys where "at = pos (8 * q'')" "q' \<le> q''" "int q'' \<le> ob_len b" "zs = acc @ xs @ ys" "length ys \<le> q'' - q' + 1"
              using r'(3) unfolding res sum.case prod.case append_assoc by blast
            then show ?thesis using \<open>q < q'\<close> q'(1) by (intro exI [of _ q''] exI [of _ "xs @ ys"]) auto
          qed
          ultimately show ?thesis using r'(2) by (auto split: sum.split)
        next
          case False
          then have "More0_loop overwrite dict c (pos (8 * q)) b acc = Some (Inr (c2, pos (8 * q'), acc @ xs))"
            by (auto simp: unfold r mc s q'(2))
          then show ?thesis using q'(1,3,4) by auto
        qed
      qed
    qed
  qed
qed

end

end
