(* ===== verification/VOptions.thy ===== *)
theory VOptions
  imports VHeaders VReverse
begin

text \<open>
  The options of IPv6 extension headers, IPv4, TCP, ICMPv6 and mobility headers (\<open>lib/Pz/McIPv6.cc\<close>,
  \<open>McIPv4.cc\<close>, \<open>McTCP.cc\<close>, \<open>McICMPv6.cc\<close>, \<open>McMobility.cc\<close>): how a received list of options is taken apart.
\<close>

section \<open>Members a class keeps in a field\<close>

fun member_step :: "member \<Rightarrow> itpos \<Rightarrow> itpos" where
  "member_step (Element n e g v i f) it = (case kind_of e of Some k \<Rightarrow> stepPostion k it | None \<Rightarrow> it)"
| "member_step (Multiple m n) it = member_step m it"
| "member_step m it = it"

text \<open>The member of a role, and the place \<open>confirmed\<close> gives it.\<close>

fun field_at :: "role \<Rightarrow> (role \<times> member) list \<Rightarrow> itpos \<Rightarrow> (member \<times> itpos) option" where
  "field_at r [] it = None"
| "field_at r ((r', m) # ms) it = (if r' = r then Some (m, it) else field_at r ms (member_step m it))"

definition field :: "role \<Rightarrow> mc \<Rightarrow> (member \<times> itpos) option" where
  "field r cls = field_at r (mc_members cls) (it_pos 0 0)"

text \<open>\<open>length_->value(at, buf)\<close>, where the class has that member.\<close>

definition length_value :: "mc \<Rightarrow> itpos \<Rightarrow> octbuf \<Rightarrow> 32 word res option" where
  "length_value cls at buf = (case field Length_member cls of
       Some (Element n (MmUint w) g v i f, it) \<Rightarrow> Some (uint_value w (it_bytes it, it_bits it) at buf)
     | _ \<Rightarrow> None)"

definition McObject_length_for_reverse :: "mc \<Rightarrow> 32 word res" where
  "McObject_length_for_reverse cls = Inr (word_of_int (it_bytes (fold (\<lambda>(r, m). member_step m) (mc_members cls) (it_pos 0 0))))"

fun pvalue :: "robject list \<Rightarrow> 32 word option" where
  "pvalue [RmObject n at sz (Number h)] = Some h"
| "pvalue _ = None"

text \<open>\<open>type_->reverse(c, 0, tmpat, buf)\<close>, and the type that is set.\<close>

definition own_type :: "role \<Rightarrow> mc \<Rightarrow> rcontrol \<Rightarrow> itpos \<Rightarrow> octbuf \<Rightarrow> (rcontrol \<times> bool) res" where
  "own_type r any c at buf = (case field r any of
       Some (Element n (MmUint w) g v i f, it) \<Rightarrow> bind_res (MmElement_reverse n (Uint w) f c at buf) (\<lambda>(c, _, rtype).
         case pvalue rtype of
           Some typevalue \<Rightarrow> Inr (c\<lparr>rc_type := Effect (long_of (uint typevalue))\<rparr>, True)
         | None \<Rightarrow> Inr (c, False))
     | _ \<Rightarrow> Inl NullDeref)"

section \<open>The five kinds of options\<close>

definition McOpt_Ext_length_for_reverse :: "mc \<Rightarrow> itpos \<Rightarrow> octbuf \<Rightarrow> 32 word res" where
  "McOpt_Ext_length_for_reverse cls at buf = (case length_value cls at buf of
       None \<Rightarrow> McObject_length_for_reverse cls
     | Some r \<Rightarrow> bind_res r (\<lambda>valulen. Inr (valulen + 2)))"

definition McOpt_Ext_overwrite_DictType :: "mc \<Rightarrow> rcontrol \<Rightarrow> itpos \<Rightarrow> octbuf \<Rightarrow> (rcontrol \<times> bool) res" where
  "McOpt_Ext_overwrite_DictType any c at buf =
     (if ulong_of (remainLength (it_bytes at) buf) = 0 then Inr (c, False) else own_type Type_member any c at buf)"

definition McOpt_IPv4_length_for_reverse :: "mc \<Rightarrow> itpos \<Rightarrow> octbuf \<Rightarrow> 32 word res" where
  "McOpt_IPv4_length_for_reverse cls at buf = (case length_value cls at buf of
       None \<Rightarrow> McObject_length_for_reverse cls
     | Some r \<Rightarrow> bind_res r (\<lambda>valulen. Inr valulen))"

definition McOpt_IPv4_overwrite_DictType :: "mc \<Rightarrow> rcontrol \<Rightarrow> itpos \<Rightarrow> octbuf \<Rightarrow> (rcontrol \<times> bool) res" where
  "McOpt_IPv4_overwrite_DictType any c at buf = (if rc_type c = Finish then Inr (c, False)
     else if ulong_of (remainLength (it_bytes at) buf) = 0 then Inr (c, False) else own_type Type_member any c at buf)"

definition McOpt_TCP_length_for_reverse :: "mc \<Rightarrow> itpos \<Rightarrow> octbuf \<Rightarrow> 32 word res" where
  "McOpt_TCP_length_for_reverse cls at buf = (case length_value cls at buf of
       None \<Rightarrow> McObject_length_for_reverse cls
     | Some r \<Rightarrow> bind_res r (\<lambda>valulen. Inr valulen))"

definition McOpt_TCP_overwrite_DictType :: "mc \<Rightarrow> rcontrol \<Rightarrow> itpos \<Rightarrow> octbuf \<Rightarrow> (rcontrol \<times> bool) res" where
  "McOpt_TCP_overwrite_DictType any c at buf = (if rc_type c = Finish then Inr (c, False)
     else if ulong_of (remainLength (it_bytes at) buf) = 0 then Inr (c, False) else own_type Kind_member any c at buf)"

definition McOpt_ICMPv6_length_for_reverse :: "mc \<Rightarrow> itpos \<Rightarrow> octbuf \<Rightarrow> 32 word res" where
  "McOpt_ICMPv6_length_for_reverse cls at buf = (case length_value cls at buf of
       None \<Rightarrow> McObject_length_for_reverse cls
     | Some r \<Rightarrow> bind_res r (\<lambda>valulen. Inr (valulen * 8)))"

definition McOpt_ICMPv6_overwrite_DictType :: "mc \<Rightarrow> rcontrol \<Rightarrow> itpos \<Rightarrow> octbuf \<Rightarrow> (rcontrol \<times> bool) res" where
  "McOpt_ICMPv6_overwrite_DictType any c at buf =
     (if ulong_of (remainLength (it_bytes at) buf) = 0 then Inr (c, False) else own_type Type_member any c at buf)"

definition McOpt_MH_length_for_reverse :: "mc \<Rightarrow> itpos \<Rightarrow> octbuf \<Rightarrow> 32 word res" where
  "McOpt_MH_length_for_reverse cls at buf = (case length_value cls at buf of
       None \<Rightarrow> McObject_length_for_reverse cls
     | Some r \<Rightarrow> bind_res r (\<lambda>valulen. Inr (valulen + 2)))"

definition McOpt_MH_overwrite_DictType :: "mc \<Rightarrow> rcontrol \<Rightarrow> itpos \<Rightarrow> octbuf \<Rightarrow> (rcontrol \<times> bool) res" where
  "McOpt_MH_overwrite_DictType any c at buf =
     (if ulong_of (remainLength (it_bytes at) buf) = 0 then Inr (c, False) else own_type Type_member any c at buf)"

section \<open>Their members\<close>

text \<open>How many addresses or time stamps an IPv4 option has.\<close>

definition HC_MLC_RouteData :: "mc \<Rightarrow> itpos \<Rightarrow> octbuf \<Rightarrow> 32 word res" where
  "HC_MLC_RouteData cls at buf = (case length_value cls at buf of
       None \<Rightarrow> Inl NullDeref
     | Some r \<Rightarrow> bind_res r (\<lambda>l. Inr ((l - 3) div 4)))"

definition HC_MLC_Timestamp :: "mc \<Rightarrow> itpos \<Rightarrow> octbuf \<Rightarrow> 32 word res" where
  "HC_MLC_Timestamp cls at buf = (case length_value cls at buf of
       None \<Rightarrow> Inl NullDeref
     | Some r \<Rightarrow> bind_res r (\<lambda>l. Inr ((l - 4) div 4)))"

definition alignment_requirement :: "string \<Rightarrow> 32 word" where
  "alignment_requirement n = (case map_of [
       (''McOpt_Ext_JumboPayload'', 4), (''McOpt_Ext_RouterAlert'', 2), (''McOpt_Ext_TunnelEncap'', 2),
       (''McOpt_IPv4_LooseSourceRoute'', 4), (''McOpt_IPv4_StrictSourceRoute'', 4), (''McOpt_IPv4_RecordRoute'', 4),
       (''McOpt_IPv4_Timestamp'', 4), (''McOpt_TCP_MaximumSegmentSize'', 2)] n of Some x \<Rightarrow> x | None \<Rightarrow> 0)"

definition class_named :: "string \<Rightarrow> mc option" where
  "class_named n = find (\<lambda>cls. mc_name cls = n) classes"

definition dict_reverser :: "reference \<Rightarrow> (mc \<Rightarrow> reverser) \<Rightarrow> dict_type \<Rightarrow> reverser option" where
  "dict_reverser r mk dt = (case dict_find dt (dict_of r classes) of
       None \<Rightarrow> None
     | Some n \<Rightarrow> if n = McNeedless then Some McNeedless_reverse else map_option mk (class_named n))"

definition MmPayload_overwrite_DictType :: "rcontrol \<Rightarrow> itpos \<Rightarrow> octbuf \<Rightarrow> (rcontrol \<times> bool) res" where
  "MmPayload_overwrite_DictType c at buf = Inr (c\<lparr>rc_type := Other\<rparr>, True)"

text \<open>The members that options have.\<close>

fun member_reverser :: "mc \<Rightarrow> member \<Rightarrow> reverser" where
  "member_reverser cls (Element n e g v i f) = (case kind_of e of
       Some k \<Rightarrow> MmElement_reverse n k f
     | None \<Rightarrow> (\<lambda>c at buf. Inl TypeConfusion))"
| "member_reverser cls (Data n skip i) = MmData_reverse n skip"
| "member_reverser cls (Multiple m n) = (\<lambda>c at buf.
     bind_res (if n = ''Timestamp'' then HC_MLC_Timestamp cls (it_pos 0 0) buf else HC_MLC_RouteData cls (it_pos 0 0) buf)
       (\<lambda>cou. MmMultiple_reverse (unat cou) (member_reverser cls m) c at buf))"
| "member_reverser cls (Reference r n) = (if r = MmPayload
     then MmReference_Must1_reverse MmPayload_overwrite_DictType (dict_reverser MmPayload (\<lambda>cls. McPayload_reverse (mc_name cls))) True
     else (\<lambda>c at buf. Inl TypeConfusion))"
| "member_reverser cls (Opaque k n) = (\<lambda>c at buf. Inl TypeConfusion)"

definition option_reverse :: "(mc \<Rightarrow> itpos \<Rightarrow> octbuf \<Rightarrow> 32 word res) \<Rightarrow> mc \<Rightarrow> reverser" where
  "option_reverse length_for_reverse cls = McObject_reverse (mc_name cls) (length_for_reverse cls) (alignment_requirement (mc_name cls))
     (McObject_members_reverse McNeedless_reverse (map (\<lambda>(r, m). member_reverser cls m) (mc_members cls)))"

text \<open>The end of an option list: nothing is read behind it.\<close>

definition EndofOptionList_reverse :: "reverser \<Rightarrow> reverser" where
  "EndofOptionList_reverse super c at buf = bind_res (super c at buf) (\<lambda>(c, at, xs). Inr (c\<lparr>rc_type := Finish\<rparr>, at, xs))"

definition McOpt_Ext_reverse :: "mc \<Rightarrow> reverser" where
  "McOpt_Ext_reverse = option_reverse McOpt_Ext_length_for_reverse"

definition McOpt_IPv4_reverse :: "mc \<Rightarrow> reverser" where
  "McOpt_IPv4_reverse cls = (if mc_name cls = ''McOpt_IPv4_EndofOptionList'' then EndofOptionList_reverse else id)
     (option_reverse McOpt_IPv4_length_for_reverse cls)"

definition McOpt_TCP_reverse :: "mc \<Rightarrow> reverser" where
  "McOpt_TCP_reverse cls = (if mc_name cls = ''McOpt_TCP_EndofOptionList'' then EndofOptionList_reverse else id)
     (option_reverse McOpt_TCP_length_for_reverse cls)"

definition McOpt_ICMPv6_reverse :: "mc \<Rightarrow> reverser" where
  "McOpt_ICMPv6_reverse = option_reverse McOpt_ICMPv6_length_for_reverse"

definition McOpt_MH_reverse :: "mc \<Rightarrow> reverser" where
  "McOpt_MH_reverse = option_reverse McOpt_MH_length_for_reverse"

section \<open>The lists\<close>

text \<open>\<open>overwrite_DictType\<close> of the reference asks the class for unknown types, which is taken out of the dictionary.\<close>

definition any_overwrite :: "reference \<Rightarrow> (mc \<Rightarrow> rcontrol \<Rightarrow> itpos \<Rightarrow> octbuf \<Rightarrow> (rcontrol \<times> bool) res) \<Rightarrow>
    rcontrol \<Rightarrow> itpos \<Rightarrow> octbuf \<Rightarrow> (rcontrol \<times> bool) res" where
  "any_overwrite r overwrite c at buf = (case dict_other (dict_of r classes) of
       None \<Rightarrow> Inl NullDeref
     | Some n \<Rightarrow> (case class_named n of None \<Rightarrow> Inl NullDeref | Some any \<Rightarrow> overwrite any c at buf))"

definition MmOption_onExt_reverse :: "rcontrol \<Rightarrow> itpos \<Rightarrow> octbuf \<Rightarrow> (rcontrol \<times> itpos \<times> robject list) res option" where
  "MmOption_onExt_reverse = MmReference_More0_reverse (any_overwrite MmOption_onExt McOpt_Ext_overwrite_DictType)
     (dict_reverser MmOption_onExt McOpt_Ext_reverse) True"

definition MmOption_onIPv4_reverse :: "rcontrol \<Rightarrow> itpos \<Rightarrow> octbuf \<Rightarrow> (rcontrol \<times> itpos \<times> robject list) res option" where
  "MmOption_onIPv4_reverse = MmReference_More0_reverse (any_overwrite MmOption_onIPv4 McOpt_IPv4_overwrite_DictType)
     (dict_reverser MmOption_onIPv4 McOpt_IPv4_reverse) True"

definition MmOption_onTCP_reverse :: "rcontrol \<Rightarrow> itpos \<Rightarrow> octbuf \<Rightarrow> (rcontrol \<times> itpos \<times> robject list) res option" where
  "MmOption_onTCP_reverse = MmReference_More0_reverse (any_overwrite MmOption_onTCP McOpt_TCP_overwrite_DictType)
     (dict_reverser MmOption_onTCP McOpt_TCP_reverse) True"

definition MmOption_onICMPv6_reverse :: "rcontrol \<Rightarrow> itpos \<Rightarrow> octbuf \<Rightarrow> (rcontrol \<times> itpos \<times> robject list) res option" where
  "MmOption_onICMPv6_reverse = MmReference_More0_reverse (any_overwrite MmOption_onICMPv6 McOpt_ICMPv6_overwrite_DictType)
     (dict_reverser MmOption_onICMPv6 McOpt_ICMPv6_reverse) True"

definition MmOption_onMH_reverse :: "rcontrol \<Rightarrow> itpos \<Rightarrow> octbuf \<Rightarrow> (rcontrol \<times> itpos \<times> robject list) res option" where
  "MmOption_onMH_reverse = MmReference_More0_reverse (any_overwrite MmOption_onMH McOpt_MH_overwrite_DictType)
     (dict_reverser MmOption_onMH McOpt_MH_reverse) True"

section \<open>Lengths\<close>

lemma unat_ucast_octet: "unat (ucast (x :: byte) :: 32 word) = unat x"
  by (simp add: unsigned_ucast_eq take_bit_nat_eq_self less_trans [OF unsigned_less])

lemma decodeUint_octet:
  assumes "k < 268435456"
  shows "decodeUint (pos (8 * k)) 8 src = (if k < length src then Inr (ucast (src ! k)) else Inl OutOfBounds)"
proof -
  have sel: "it_copy (pos (8 * k)) = pos (8 * k)" "it_bytes (pos (8 * k)) = int k" "it_bits (pos (8 * k)) = 0"
    using assms pos_copy [of "8 * k"] pos_sel [of "8 * k"] by simp_all
  have net: "of_net [0, 0, 0, x] = ucast x" for x by (simp add: of_net_def)
  show ?thesis
    by (simp add: decodeUint_def decodeRAs_def sel decodeRAs_loop.simps [of _ 8] decodeRAs_loop.simps [of _ 0] get_octet_def
        net numeral_3_eq_3)
qed

text \<open>A class whose first member is the octet of the type and which has the octet of the length next, or is one octet.\<close>

definition typed_option :: "mc \<Rightarrow> bool" where
  "typed_option cls \<longleftrightarrow> (case mc_members cls of
       (r, Element n (MmUint w) g v i f) # ms \<Rightarrow> w = 8 \<and> (r = Type_member \<or> r = Kind_member) \<and>
         (case ms of
            [] \<Rightarrow> True
          | (r', Element n' (MmUint w') g' v' i' f') # _ \<Rightarrow> w' = 8 \<and> r' = Length_member
          | _ \<Rightarrow> False)
     | _ \<Rightarrow> False)"

definition registers :: "reference \<Rightarrow> mc \<Rightarrow> bool" where
  "registers r cls \<longleftrightarrow> list_ex (\<lambda>a. case a of Add r' t \<Rightarrow> r' = r | AddOther r' \<Rightarrow> r' = r) (mc_dicts cls)"

definition option_refs :: "reference list" where
  "option_refs = [MmOption_onExt, MmOption_onIPv4, MmOption_onTCP, MmOption_onICMPv6, MmOption_onMH]"

lemma typed_net: "list_all (\<lambda>c. list_all (\<lambda>r. registers r c \<longrightarrow> typed_option c) option_refs) VHdrNet_classes"
  by (simp add: table_defs registers_def typed_option_def option_refs_def)

lemma options_in_net:
  "list_all (\<lambda>c. list_all (\<lambda>r. \<not> registers r c) option_refs) (VHdrUpper_classes @ VHdrDhcp_classes @ VHdrSnmp_classes @ VHdrIke_classes)"
  by (simp add: table_defs registers_def option_refs_def)

lemma option_class:
  assumes "cls \<in> set classes" "registers r cls" "r \<in> set option_refs"
  shows "cls \<in> set VHdrNet_classes" "typed_option cls"
proof -
  show net: "cls \<in> set VHdrNet_classes"
    using options_in_net assms by (auto simp: classes_def list_all_iff)
  show "typed_option cls" using typed_net net assms(2,3) by (auto simp: list_all_iff)
qed

lemma net_names: "distinct (map mc_name VHdrNet_classes)"
  by (simp add: VHdrNet_classes_def class_defs)

lemma find_name: "distinct (map mc_name cs) \<Longrightarrow> c \<in> set cs \<Longrightarrow> find (\<lambda>cls. mc_name cls = mc_name c) (cs @ ds) = Some c"
  by (induction cs) (auto simp: image_iff)

lemma class_named_option:
  "cls \<in> set classes \<Longrightarrow> registers r cls \<Longrightarrow> r \<in> set option_refs \<Longrightarrow> class_named (mc_name cls) = Some cls"
  unfolding class_named_def classes_def by (rule find_name [OF net_names option_class(1)]) (simp_all add: classes_def)

lemma register_other: "dict_other (register r c as d) = Some n \<Longrightarrow> dict_other d = Some n \<or> n = c \<and> AddOther r \<in> set as"
  by (induction r c as d rule: register.induct) (auto simp: dict_add_def dict_add_other_def split: if_splits)

lemma find_type_in: "find_type t ds = Some n \<Longrightarrow> (t, n) \<in> set ds"
  by (induction t ds rule: find_type.induct) (auto split: if_splits)

lemma added_registers: "t \<in> set (added r as) \<Longrightarrow> Add r t \<in> set as"
  by (induction r as rule: added.induct) (auto split: if_splits)

lemma dict_of_other_registers:
  assumes "dict_other (dict_of r cs) = Some n"
  shows "\<exists>c \<in> set cs. registers r c \<and> mc_name c = n"
proof -
  have "dict_other (fold (\<lambda>c. register r (mc_name c) (mc_dicts c)) cs d) = Some n \<Longrightarrow>
    dict_other d = Some n \<or> (\<exists>c \<in> set cs. registers r c \<and> mc_name c = n)" for d
  proof (induction cs arbitrary: d)
    case (Cons c cs)
    then show ?case
      using register_other [of r "mc_name c" "mc_dicts c" d n] by (force simp: registers_def list_ex_iff)
  qed simp
  from this [of "\<lparr>dict_list = [], dict_other = None\<rparr>"] assms show ?thesis by (simp add: dict_of_def)
qed

lemma dict_find_registers:
  assumes "dict_find dt (dict_of r cs) = Some n"
  shows "dt = Finish \<and> n = McNeedless \<or> (\<exists>c \<in> set cs. registers r c \<and> mc_name c = n)"
proof (cases dt)
  case (Effect t)
  show ?thesis
  proof (cases "find_type t (dict_list (dict_of r cs))")
    case None
    then show ?thesis using assms Effect by (simp add: dict_find_def dict_of_other_registers)
  next
    case (Some m)
    then have "(t, n) \<in> set (dict_list (dict_of r cs))" using assms Effect by (auto simp: dict_find_def dest: find_type_in)
    then obtain c where "c \<in> set cs" "mc_name c = n" "Add r t \<in> set (mc_dicts c)"
      by (auto simp: dict_of_list dest: added_registers)
    then show ?thesis by (force simp: registers_def list_ex_iff)
  qed
qed (use assms in \<open>auto simp: dict_find_def dict_of_other_registers\<close>)

lemma dict_reverser_cases:
  assumes "dict_reverser r mk dt = Some body" "r \<in> set option_refs"
  obtains "dt = Finish" "body = McNeedless_reverse" | cls where "cls \<in> set classes" "registers r cls" "typed_option cls" "body = mk cls"
proof -
  obtain n where n: "dict_find dt (dict_of r classes) = Some n" using assms(1) by (auto simp: dict_reverser_def split: option.splits)
  show thesis
  proof (cases "n = McNeedless")
    case True
    show thesis
    proof (cases "dt = Finish")
      case True
      then show thesis using assms(1) n that(1) \<open>n = McNeedless\<close> by (simp add: dict_reverser_def)
    next
      case False
      then obtain c where c: "c \<in> set classes" "registers r c" "mc_name c = McNeedless"
        using dict_find_registers [OF n] True by auto
      have "list_all (\<lambda>c. mc_name c \<noteq> McNeedless) VHdrNet_classes" by (simp add: VHdrNet_classes_def class_defs McNeedless_def)
      then show thesis using c option_class(1) [OF c(1,2) assms(2)] by (auto simp: list_all_iff)
    qed
  next
    case False
    then obtain c where c: "c \<in> set classes" "registers r c" "mc_name c = n"
      using dict_find_registers [OF n] by auto
    then have "class_named n = Some c" using class_named_option [OF c(1,2) assms(2)] by simp
    then show thesis using that(2) [OF c(1,2) option_class(2) [OF c(1,2) assms(2)]] assms(1) n False
      by (simp add: dict_reverser_def)
  qed
qed

section \<open>Every list of options ends\<close>

text \<open>The lengths of the five kinds differ in what is made of the octet of the length.\<close>

definition option_length :: "(32 word \<Rightarrow> 32 word) \<Rightarrow> mc \<Rightarrow> itpos \<Rightarrow> octbuf \<Rightarrow> 32 word res" where
  "option_length f cls at buf = (case length_value cls at buf of
       None \<Rightarrow> McObject_length_for_reverse cls
     | Some r \<Rightarrow> bind_res r (\<lambda>valulen. Inr (f valulen)))"

lemma option_lengths:
  "McOpt_Ext_length_for_reverse = option_length (\<lambda>v. v + 2)" "McOpt_MH_length_for_reverse = option_length (\<lambda>v. v + 2)"
  "McOpt_IPv4_length_for_reverse = option_length (\<lambda>v. v)" "McOpt_TCP_length_for_reverse = option_length (\<lambda>v. v)"
  "McOpt_ICMPv6_length_for_reverse = option_length (\<lambda>v. v * 8)"
  by (simp_all add: fun_eq_iff option_length_def McOpt_Ext_length_for_reverse_def McOpt_MH_length_for_reverse_def
      McOpt_IPv4_length_for_reverse_def McOpt_TCP_length_for_reverse_def McOpt_ICMPv6_length_for_reverse_def)

definition small_length :: "(32 word \<Rightarrow> 32 word) \<Rightarrow> bool" where
  "small_length f \<longleftrightarrow> (\<forall>x :: byte. unat (f (ucast x)) < 65536)"

lemma small_lengths: "small_length (\<lambda>v. v + 2)" "small_length (\<lambda>v. v)" "small_length (\<lambda>v. v * 8)"
proof -
  have x: "unat (ucast x :: 32 word) < 256" for x :: byte
    using unsigned_less [of x] by (simp add: unat_ucast_octet)
  have "unat (y + 2) < 65536 \<and> unat (y * 8) < 65536 \<and> unat y < 65536" if "unat y < 256" for y :: "32 word"
    using that by (simp add: unat_word_ariths)
  then have "unat (ucast x + 2 :: 32 word) < 65536 \<and> unat (ucast x * 8 :: 32 word) < 65536 \<and> unat (ucast x :: 32 word) < 65536"
    for x :: byte using x [of x] by blast
  then show "small_length (\<lambda>v. v + 2)" "small_length (\<lambda>v. v)" "small_length (\<lambda>v. v * 8)"
    by (simp_all add: small_length_def)
qed

text \<open>What the length function of a class reads: one octet for the type, and the octet behind it.\<close>

lemma typed_option_members:
  assumes "typed_option cls"
  obtains (octet) r n g v i f where "mc_members cls = [(r, Element n (MmUint 8) g v i f)]" "r \<noteq> Length_member"
  | (length) r n g v i f n' g' v' i' f' ms where "mc_members cls = (r, Element n (MmUint 8) g v i f) #
      (Length_member, Element n' (MmUint 8) g' v' i' f') # ms" "r \<noteq> Length_member"
  using assms by (auto simp: typed_option_def split: list.splits prod.splits member.splits element.splits)

lemma uint8_step: "stepPostion (Uint 8) (it_pos 0 0) = it_pos 1 0" "it_bytes (it_pos 1 0) = 1" "it_bits (it_pos 1 0) = 0"
  by (simp_all add: stepPostion_def width_def objectLength_def it_pos_def it_bytes_def it_bits_def addBits_def addBytes_def Let_def)

lemma uint_value_octet:
  assumes "ob_ok b" "int q \<le> ob_len b"
  shows "uint_value 8 (1, 0) (pos (8 * q)) b =
    (if Suc q < length (ob_string b) then Inr (ucast (ob_string b ! Suc q)) else Inl OutOfBounds)"
proof -
  have q: "8 * q + 8 < 2147483648" "Suc q < 268435456" using assms unfolding ob_ok_def by linarith+
  have "it_add (it_pos 1 0) (pos (8 * q)) = pos (8 * Suc q)"
    using it_add_pos [of "8 * q" 8] q(1) it_pos_octets [of 1] by (simp add: add.commute)
  then show ?thesis
    using decodeUint_octet [OF q(2)] q(1) by (simp add: uint_value_def uint_decode_def pos_copy)
qed

lemma option_length_octet:
  assumes "typed_option cls" "ob_ok b" "int q \<le> ob_len b"
  shows "option_length f cls (pos (8 * q)) b = (if length (mc_members cls) = 1 then Inr 1
     else if Suc q < length (ob_string b) then Inr (f (ucast (ob_string b ! Suc q))) else Inl OutOfBounds)"
  using assms(1)
proof (cases rule: typed_option_members)
  case (octet r n g v i f)
  then show ?thesis
    by (simp add: option_length_def length_value_def field_def McObject_length_for_reverse_def uint8_step)
next
  case (length r n g v i f n' g' v' i' f' ms)
  then show ?thesis
    using uint_value_octet [OF assms(2,3)]
    by (simp add: option_length_def length_value_def field_def uint8_step)
qed

lemma option_step:
  assumes "typed_option cls" "small_length f" "ob_ok b" "int q \<le> ob_len b"
    "option_reverse (option_length f) cls c (pos (8 * q)) b = Inr (c2, at, xs)"
  shows "length xs \<le> 1 \<and> (\<exists>q'. at = pos (8 * q') \<and> q \<le> q' \<and> int q' \<le> ob_len b \<and> (q = q' \<longrightarrow> xs = [] \<or> rc_error c2))"
proof -
  have small: "unat l < 65536" if "option_length f cls (pos (8 * q)) b = Inr l" for l
    using that assms(2) by (auto simp: option_length_octet [OF assms(1,3,4)] small_length_def split: if_splits)
  obtain n e g v i f' ms r where mems: "mc_members cls = (r, Element n (MmUint 8) g v i f') # ms"
    using assms(1) by (cases rule: typed_option_members) auto
  show ?thesis
  proof (rule McObject_reverse_cases [OF assms(5) [unfolded option_reverse_def] assms(3,4) small])
    assume "xs = []" "at = pos (8 * q)" "rc_error c2"
    then show ?thesis using assms(4) by auto
  next
    fix l c1 ys
    assume l: "int q + int (unat l) \<le> ob_len b" "at = pos (8 * (q + unat l))"
      "McObject_members_reverse McNeedless_reverse (map (\<lambda>(r, m). member_reverser cls m) (mc_members cls)) c1
         (sub_window b q (unat l)) = Inr (c2, ys)"
      "xs = [RcObject (mc_name cls) (pos (8 * q)) (sub_window b q (unat l)) ys]"
    have "rc_error c2" if "unat l = 0"
    proof -
      have "ob_ok (sub_window b q (unat l))" "ob_len (sub_window b q (unat l)) = 0"
        using ob_ok_sub [OF assms(3) l(1)] that by (simp_all add: sub_window_def)
      from empty_window_refused [OF this, of "Uint 8"] show ?thesis
        using l(3) by (auto simp: mems bits_of_def set_error_code_def)
    qed
    then show ?thesis using l by (intro conjI exI [of _ "q + unat l"]) auto
  qed
qed

lemma EndofOptionList_step:
  assumes "(if e then EndofOptionList_reverse else id) m c at0 b = Inr (c2, at, xs)"
  obtains c1 where "m c at0 b = Inr (c1, at, xs)" "rc_error c2 = rc_error c1"
  using assms by (cases e) (auto simp: EndofOptionList_reverse_def bind_res_eq_Inr)

text \<open>The members of options can always be read.\<close>

fun can_read :: "bool \<Rightarrow> member \<Rightarrow> bool" where
  "can_read len (Element n e g v i f) \<longleftrightarrow> (case kind_of e of Some k \<Rightarrow> plain_kind k | None \<Rightarrow> False)"
| "can_read len (Data n s i) \<longleftrightarrow> True"
| "can_read len (Multiple m n) \<longleftrightarrow> len \<and> can_read len m"
| "can_read len (Reference r n) \<longleftrightarrow> r = MmPayload"
| "can_read len (Opaque k n) \<longleftrightarrow> False"

definition can_read_option :: "mc \<Rightarrow> bool" where
  "can_read_option cls \<longleftrightarrow> list_all (\<lambda>(r, m). can_read (length (mc_members cls) \<noteq> 1) m) (mc_members cls)"

lemma can_read_net: "list_all (\<lambda>c. list_all (\<lambda>r. registers r c \<longrightarrow> can_read_option c) option_refs) VHdrNet_classes"
  by (simp add: table_defs registers_def can_read_option_def option_refs_def plain_kind_def)

lemma ob_string_roomy: "ob_ok b \<Longrightarrow> roomy b \<Longrightarrow> int q \<le> ob_len b \<Longrightarrow> Suc q < length (ob_string b)"
  by (auto simp: ob_ok_def roomy_def ob_string_def)

lemma total_count:
  assumes "total_reverser m" "\<And>b. ob_ok b \<Longrightarrow> roomy b \<Longrightarrow> \<exists>l. cou b = Inr l"
  shows "total_reverser (\<lambda>c at b. bind_res (cou b) (\<lambda>l. MmMultiple_reverse (unat l) m c at b))"
  unfolding total_reverser_def
proof (intro allI impI, elim conjE)
  fix c p b
  assume b: "ob_ok b" "roomy b" "p \<le> 8 * nat (ob_len b)"
  obtain l where "cou b = Inr l" using assms(2) [OF b(1,2)] by blast
  then show "\<exists>c' p' xs. bind_res (cou b) (\<lambda>l. MmMultiple_reverse (unat l) m c (pos p) b) = Inr (c', pos p', xs) \<and> p \<le> p' \<and> p' \<le> 8 * nat (ob_len b)"
    using total_multiple [OF assms(1), of "unat l", unfolded total_reverser_def] b by simp
qed

lemma total_must1:
  assumes "\<And>t mc. dict t = Some mc \<Longrightarrow> total_reverser mc" "\<And>c at b. \<exists>c1. overwrite c at b = Inr (c1, True)"
  shows "total_reverser (MmReference_Must1_reverse overwrite dict k)"
  unfolding total_reverser_def
proof (intro allI impI, elim conjE)
  fix c p b
  assume b: "ob_ok b" "roomy b" "p \<le> 8 * nat (ob_len b)"
  obtain c1 where 1: "overwrite c (pos p) b = Inr (c1, True)" using assms(2) by blast
  show "\<exists>c' p' xs. MmReference_Must1_reverse overwrite dict k c (pos p) b = Inr (c', pos p', xs) \<and> p \<le> p' \<and> p' \<le> 8 * nat (ob_len b)"
  proof (cases "dict (rc_type c1)")
    case None
    then show ?thesis using 1 b(3) by (auto simp: MmReference_Must1_reverse_def intro!: exI [of _ p])
  next
    case (Some mc)
    obtain c2 p2 xs where "mc c1 (pos p) b = Inr (c2, pos p2, xs)" "p \<le> p2" "p2 \<le> 8 * nat (ob_len b)"
      by (rule total_reverserE [OF assms(1) [OF Some] b])
    then show ?thesis using 1 Some by (auto simp: MmReference_Must1_reverse_def intro!: exI [of _ p2])
  qed
qed

lemma total_dict:
  assumes "\<And>cls. total_reverser (mk cls)" "dict_reverser r mk dt = Some m"
  shows "total_reverser m"
  using assms total_needless by (auto simp: dict_reverser_def split: option.splits if_splits)

lemma total_member:
  assumes "typed_option cls" "can_read (length (mc_members cls) \<noteq> 1) m"
  shows "total_reverser (member_reverser cls m)"
  using assms(2)
proof (induction m)
  case (Element n e g v i f)
  then show ?case by (auto simp: total_element split: option.splits)
next
  case (Multiple m n)
  have "\<exists>l. (if n = ''Timestamp'' then HC_MLC_Timestamp cls (it_pos 0 0) b else HC_MLC_RouteData cls (it_pos 0 0) b) = Inr l"
    if b: "ob_ok b" "roomy b" for b
  proof -
    have "int 0 \<le> ob_len b" using b by (simp add: ob_ok_def)
    with option_length_octet [OF assms(1) b(1), of 0 id] ob_string_roomy [OF b, of 0] Multiple.prems
    obtain x where x: "option_length id cls (it_pos 0 0) b = Inr x" "length (mc_members cls) \<noteq> 1" by (auto simp: pos0)
    show ?thesis
      using assms(1) x
      by (cases rule: typed_option_members)
        (auto simp: option_length_def HC_MLC_Timestamp_def HC_MLC_RouteData_def length_value_def field_def uint8_step bind_res_eq_Inr)
  qed
  moreover have "total_reverser (member_reverser cls m)" by (rule Multiple.IH) (use Multiple.prems in \<open>unfold can_read.simps, blast\<close>)
  ultimately show ?case by (simp add: total_count)
next
  case (Reference r n)
  have "total_reverser (MmReference_Must1_reverse MmPayload_overwrite_DictType
    (dict_reverser MmPayload (\<lambda>cls. McPayload_reverse (mc_name cls))) True)"
    by (rule total_must1) (auto simp: MmPayload_overwrite_DictType_def intro: total_dict total_payload)
  then show ?case using Reference by simp
qed (simp_all add: total_data)

lemma option_length_bits:
  assumes "typed_option cls" "small_length f" "ob_ok b" "roomy b" "p \<le> 8 * nat (ob_len b)"
  shows "\<exists>l. option_length f cls (pos p) b = Inr l \<and> unat l < 65536"
proof -
  have p: "p + 16 < 2147483648" using ob_ok_small [OF assms(3,5)] by simp
  have "nat (ob_len b) + 2 \<le> length (ob_string b)" using assms(3,4) by (auto simp: ob_ok_def roomy_def ob_string_def)
  then have "field_fits (p + 8) 8 (ob_string b)" using assms(5) by (auto simp: field_fits_def)
  then obtain h where h: "decodeUint (pos (p + 8)) 8 (ob_string b) = Inr h" "\<And>i. bit h i \<Longrightarrow> i < 8"
    using decodeUint_bits [of "p + 8" 8 "ob_string b"] p by auto
  have "it_add (it_pos 1 0) (pos p) = pos (p + 8)" using it_add_pos [of p 8] p it_pos_octets [of 1] by simp
  then have v: "uint_value 8 (1, 0) (pos p) b = Inr h" using h(1) p by (simp add: uint_value_def uint_decode_def pos_copy)
  have "h = ucast (ucast h :: byte)" by (rule bit_eqI) (auto simp: bit_simps dest: h(2))
  then have f: "unat (f h) < 65536" using assms(2) unfolding small_length_def by metis
  from assms(1) show ?thesis
  proof (cases rule: typed_option_members)
    case octet
    then show ?thesis by (simp add: option_length_def length_value_def field_def McObject_length_for_reverse_def uint8_step)
  next
    case length
    then show ?thesis using v f by (simp add: option_length_def length_value_def field_def uint8_step)
  qed
qed

lemma total_option:
  assumes "typed_option cls" "can_read_option cls" "small_length f"
  shows "total_reverser (option_reverse (option_length f) cls)"
  unfolding option_reverse_def
proof (rule total_McObject)
  show "total_object (McObject_members_reverse McNeedless_reverse (map (\<lambda>(r, m). member_reverser cls m) (mc_members cls)))"
    using assms(2) total_member [OF assms(1)]
    by (intro total_members_object total_needless) (auto simp: can_read_option_def list_all_iff)
next
  fix p b
  assume b: "ob_ok b" "roomy b" "p \<le> 8 * nat (ob_len b)"
  from option_length_bits [OF assms(1,3) b] show "\<exists>l. option_length f cls (pos p) b = Inr l \<and> unat l < 268427264" by force
qed

text \<open>The five lists are lists in the sense of the loop.\<close>

lemma own_type_effect: "own_type r any c at b = Inr (c1, True) \<Longrightarrow> rc_type c1 \<noteq> Finish"
  by (auto simp: own_type_def bind_res_eq_Inr split: option.splits prod.splits member.splits element.splits)

lemma own_type_total:
  assumes "field r any = Some (Element n (MmUint 8) g v i f, it)" "ob_ok b" "roomy b" "int q \<le> ob_len b"
  shows "\<exists>s. own_type r any c (pos (8 * q)) b = Inr s"
proof -
  have "plain_kind (Uint 8)" by (simp add: plain_kind_def)
  from total_element [OF this, of n f] obtain c1 p1 xs where "MmElement_reverse n (Uint 8) f c (pos (8 * q)) b = Inr (c1, pos p1, xs)"
    by (rule total_reverserE [OF _ assms(2,3), of _ "8 * q" c]) (use assms(4) in simp)
  then show ?thesis by (auto simp: own_type_def assms(1) split: option.split)
qed

lemma total_end: "total_reverser m \<Longrightarrow> total_reverser (EndofOptionList_reverse m)"
  unfolding total_reverser_def
proof (intro allI impI, elim conjE)
  fix c p b
  assume m: "\<forall>c p b. ob_ok b \<and> roomy b \<and> p \<le> 8 * nat (ob_len b) \<longrightarrow>
      (\<exists>c' p' xs. m c (pos p) b = Inr (c', pos p', xs) \<and> p \<le> p' \<and> p' \<le> 8 * nat (ob_len b))"
    and b: "ob_ok b" "roomy b" "p \<le> 8 * nat (ob_len b)"
  obtain c' p' xs where "m c (pos p) b = Inr (c', pos p', xs)" "p \<le> p'" "p' \<le> 8 * nat (ob_len b)" using m b by blast
  then show "\<exists>c' p' xs. EndofOptionList_reverse m c (pos p) b = Inr (c', pos p', xs) \<and> p \<le> p' \<and> p' \<le> 8 * nat (ob_len b)"
    by (auto simp: EndofOptionList_reverse_def intro!: exI [of _ p'])
qed

text \<open>What the five lists share: how the type of an option is found, what is made of its length, and what may end the list.\<close>

lemma option_list:
  assumes "r \<in> set option_refs" "small_length f"
    and any: "dict_other (dict_of r classes) = Some (mc_name any)" "any \<in> set classes" "registers r any"
      "field ro any = Some (Element n (MmUint 8) g v i nf, it)"
    and overwrite: "\<And>c at b. overwrite any c at b = (if stop c at b then Inr (c, False) else own_type ro any c at b)"
    and mk: "\<And>cls. mk cls = (if ends cls then EndofOptionList_reverse else id) (option_reverse (option_length f) cls)"
  shows "object_list (any_overwrite r overwrite) (dict_reverser r mk)"
proof
  have over: "any_overwrite r overwrite c at b = (if stop c at b then Inr (c, False) else own_type ro any c at b)" for c at b
    using class_named_option [OF any(2,3) assms(1)] by (simp add: any_overwrite_def any(1) overwrite)
  fix b q c c1 m c2 at xs
  assume b: "ob_ok b" "int q \<le> ob_len b" and o: "any_overwrite r overwrite c (pos (8 * q)) b = Inr (c1, True)"
    and m: "dict_reverser r mk (rc_type c1) = Some m" "m c1 (pos (8 * q)) b = Inr (c2, at, xs)"
  have "rc_type c1 \<noteq> Finish" using o own_type_effect by (auto simp: over split: if_splits)
  then obtain cls where cls: "typed_option cls" "m = mk cls" using dict_reverser_cases [OF m(1) assms(1)] by metis
  obtain c3 where c3: "option_reverse (option_length f) cls c1 (pos (8 * q)) b = Inr (c3, at, xs)" "rc_error c2 = rc_error c3"
    using m(2) unfolding cls(2) mk by (rule EndofOptionList_step)
  show "length xs \<le> 1 \<and> (\<exists>q'. at = pos (8 * q') \<and> q \<le> q' \<and> int q' \<le> ob_len b \<and> (q = q' \<longrightarrow> xs = [] \<or> rc_error c2))"
    using option_step [OF cls(1) assms(2) b c3(1)] c3(2) by simp
next
  fix b q c
  assume b: "ob_ok b" "roomy b" "int q \<le> ob_len b"
  show "\<exists>s. any_overwrite r overwrite c (pos (8 * q)) b = Inr s"
    using own_type_total [OF any(4) b, of c] class_named_option [OF any(2,3) assms(1)]
    by (auto simp: any_overwrite_def any(1) overwrite)
next
  fix t m
  assume "dict_reverser r mk t = Some m"
  then show "total_reverser m"
    using assms(1)
  proof (cases rule: dict_reverser_cases)
    case 1
    then show ?thesis using total_needless by simp
  next
    case (2 cls)
    have "can_read_option cls"
      using can_read_net option_class(1) [OF 2(1,2) assms(1)] 2(2) assms(1) by (auto simp: list_all_iff)
    note total = total_option [OF 2(3) this assms(2)]
    with total_end [OF total] show ?thesis by (simp add: 2(4) mk)
  qed
qed

definition others :: "reference \<Rightarrow> mc list \<Rightarrow> string list" where
  "others r cs = concat (map (\<lambda>c. if AddOther r \<in> set (mc_dicts c) then [mc_name c] else []) cs)"

lemma register_other_eq: "dict_other (register r c as d) = (if AddOther r \<in> set as then Some c else dict_other d)"
  by (induction r c as d rule: register.induct) (auto simp: dict_add_def dict_add_other_def)

lemma dict_of_other_last: "dict_other (dict_of r cs) = (if others r cs = [] then None else Some (last (others r cs)))"
proof -
  have "dict_other (fold (\<lambda>c. register r (mc_name c) (mc_dicts c)) cs d) =
    (if others r cs = [] then dict_other d else Some (last (others r cs)))" for d
    by (induction cs arbitrary: d) (auto simp: others_def register_other_eq)
  then show ?thesis by (simp add: dict_of_def)
qed

lemma others_net:
  "others MmOption_onExt VHdrNet_classes = [''McOpt_Ext_ANY'']" "others MmOption_onIPv4 VHdrNet_classes = [''McOpt_IPv4_ANY'']"
  "others MmOption_onTCP VHdrNet_classes = [''McOpt_TCP_ANY'']" "others MmOption_onICMPv6 VHdrNet_classes = [''McOpt_ICMPv6_ANY'']"
  "others MmOption_onMH VHdrNet_classes = [''McOpt_MH_ANY'']"
  by (simp_all add: others_def VHdrNet_classes_def class_defs)

lemma others_net_only:
  assumes "r \<in> set option_refs"
  shows "others r classes = others r VHdrNet_classes"
proof -
  have "others r cs = []" if "list_all (\<lambda>c. \<not> registers r c) cs" for cs
    using that by (induction cs) (auto simp: others_def registers_def list_ex_iff)
  moreover have "list_all (\<lambda>c. \<not> registers r c) (VHdrUpper_classes @ VHdrDhcp_classes @ VHdrSnmp_classes @ VHdrIke_classes)"
    using options_in_net assms by (auto simp: list_all_iff)
  ultimately have "others r (VHdrUpper_classes @ VHdrDhcp_classes @ VHdrSnmp_classes @ VHdrIke_classes) = []" by blast
  moreover have "others r (VHdrNet_classes @ ds) = others r VHdrNet_classes @ others r ds" for ds by (simp add: others_def)
  ultimately show ?thesis by (simp only: classes_def append_Nil2)
qed

lemma option_any:
  "dict_other (dict_of MmOption_onExt classes) = Some (mc_name McOpt_Ext_ANY)"
  "dict_other (dict_of MmOption_onIPv4 classes) = Some (mc_name McOpt_IPv4_ANY)"
  "dict_other (dict_of MmOption_onTCP classes) = Some (mc_name McOpt_TCP_ANY)"
  "dict_other (dict_of MmOption_onICMPv6 classes) = Some (mc_name McOpt_ICMPv6_ANY)"
  "dict_other (dict_of MmOption_onMH classes) = Some (mc_name McOpt_MH_ANY)"
  by (simp_all add: dict_of_other_last others_net_only others_net option_refs_def class_defs)

lemma any_classes:
  "McOpt_Ext_ANY \<in> set classes" "McOpt_IPv4_ANY \<in> set classes" "McOpt_TCP_ANY \<in> set classes"
  "McOpt_ICMPv6_ANY \<in> set classes" "McOpt_MH_ANY \<in> set classes"
  by (simp_all add: classes_def VHdrNet_classes_def)

lemma any_registers:
  "registers MmOption_onExt McOpt_Ext_ANY" "registers MmOption_onIPv4 McOpt_IPv4_ANY" "registers MmOption_onTCP McOpt_TCP_ANY"
  "registers MmOption_onICMPv6 McOpt_ICMPv6_ANY" "registers MmOption_onMH McOpt_MH_ANY"
  by (simp_all add: registers_def class_defs)

lemma any_fields:
  "field Type_member McOpt_Ext_ANY = Some (Element ''OptionType'' (MmUint 8) (Unique (- 1)) (Unique (- 1)) ICVCONST False, it_pos 0 0)"
  "field Type_member McOpt_IPv4_ANY = Some (Element ''Type'' (MmUint 8) (Unique (- 1)) (Unique (- 1)) ICVCONST False, it_pos 0 0)"
  "field Kind_member McOpt_TCP_ANY = Some (Element ''Kind'' (MmUint 8) (Unique (- 1)) (Unique (- 1)) ICVCONST False, it_pos 0 0)"
  "field Type_member McOpt_ICMPv6_ANY = Some (Element ''Type'' (MmUint 8) (Unique (- 1)) (Unique (- 1)) ICVCONST False, it_pos 0 0)"
  "field Type_member McOpt_MH_ANY = Some (Element ''Type'' (MmUint 8) (HC ''Type'') (HC ''Type'') ICVCONST False, it_pos 0 0)"
  by (simp_all add: field_def class_defs)

abbreviation list_done :: "itpos \<Rightarrow> octbuf \<Rightarrow> bool" where
  "list_done at b \<equiv> ulong_of (remainLength (it_bytes at) b) = 0"

interpretation ext: object_list "any_overwrite MmOption_onExt McOpt_Ext_overwrite_DictType" "dict_reverser MmOption_onExt McOpt_Ext_reverse"
  by (rule option_list [where stop = "\<lambda>c. list_done" and ends = "\<lambda>cls. False", OF _ small_lengths(1) option_any(1) any_classes(1) any_registers(1) any_fields(1)])
    (simp_all add: option_refs_def McOpt_Ext_overwrite_DictType_def McOpt_Ext_reverse_def option_lengths)

interpretation ipv4: object_list "any_overwrite MmOption_onIPv4 McOpt_IPv4_overwrite_DictType" "dict_reverser MmOption_onIPv4 McOpt_IPv4_reverse"
  by (rule option_list [where stop = "\<lambda>c at b. rc_type c = Finish \<or> list_done at b" and ends = "\<lambda>cls. mc_name cls = ''McOpt_IPv4_EndofOptionList''", OF _ small_lengths(2) option_any(2) any_classes(2) any_registers(2) any_fields(2)])
    (simp_all add: option_refs_def McOpt_IPv4_overwrite_DictType_def McOpt_IPv4_reverse_def option_lengths)

interpretation tcp: object_list "any_overwrite MmOption_onTCP McOpt_TCP_overwrite_DictType" "dict_reverser MmOption_onTCP McOpt_TCP_reverse"
  by (rule option_list [where stop = "\<lambda>c at b. rc_type c = Finish \<or> list_done at b" and ends = "\<lambda>cls. mc_name cls = ''McOpt_TCP_EndofOptionList''", OF _ small_lengths(2) option_any(3) any_classes(3) any_registers(3) any_fields(3)])
    (simp_all add: option_refs_def McOpt_TCP_overwrite_DictType_def McOpt_TCP_reverse_def option_lengths)

interpretation icmpv6: object_list "any_overwrite MmOption_onICMPv6 McOpt_ICMPv6_overwrite_DictType" "dict_reverser MmOption_onICMPv6 McOpt_ICMPv6_reverse"
  by (rule option_list [where stop = "\<lambda>c. list_done" and ends = "\<lambda>cls. False", OF _ small_lengths(3) option_any(4) any_classes(4) any_registers(4) any_fields(4)])
    (simp_all add: option_refs_def McOpt_ICMPv6_overwrite_DictType_def McOpt_ICMPv6_reverse_def option_lengths)

interpretation mobility: object_list "any_overwrite MmOption_onMH McOpt_MH_overwrite_DictType" "dict_reverser MmOption_onMH McOpt_MH_reverse"
  by (rule option_list [where stop = "\<lambda>c. list_done" and ends = "\<lambda>cls. False", OF _ small_lengths(1) option_any(5) any_classes(5) any_registers(5) any_fields(5)])
    (simp_all add: option_refs_def McOpt_MH_overwrite_DictType_def McOpt_MH_reverse_def option_lengths)

text \<open>The five lists of options.\<close>

definition option_lists :: "(rcontrol \<Rightarrow> itpos \<Rightarrow> octbuf \<Rightarrow> (rcontrol \<times> itpos \<times> robject list) res option) list" where
  "option_lists = [MmOption_onExt_reverse, MmOption_onIPv4_reverse, MmOption_onTCP_reverse, MmOption_onICMPv6_reverse,
     MmOption_onMH_reverse]"

lemma more0_ends:
  assumes "object_list overwrite dict" "ob_ok b" "int q \<le> ob_len b"
  shows "\<exists>r. MmReference_More0_reverse overwrite dict True c (pos (8 * q)) b = Some r \<and> (roomy b \<longrightarrow> \<not> isl r) \<and>
    (\<forall>c' at xs. r = Inr (c', at, xs) \<longrightarrow>
       (\<exists>q'. at = pos (8 * q') \<and> q \<le> q' \<and> int q' \<le> ob_len b \<and> length xs \<le> q' - q + 1) \<and> rc_type c' = rc_type c)"
proof -
  obtain r where r: "More0_loop overwrite dict c (pos (8 * q)) b [] = Some r" "roomy b \<longrightarrow> \<not> isl r"
    "case r of Inl e \<Rightarrow> True | Inr (c', at, xs) \<Rightarrow>
       \<exists>q' ys. at = pos (8 * q') \<and> q \<le> q' \<and> int q' \<le> ob_len b \<and> xs = [] @ ys \<and> length ys \<le> q' - q + 1"
    using object_list.loop_ends [OF assms, of c "[]"] by blast
  then show ?thesis by (cases r) (auto simp: MmReference_More0_reverse_def)
qed

text \<open>
  C8: Taking a list of options apart ends for every packet: whatever the octets are, options of length zero included, each
  pass of the loop either moves behind an option or stops with the error set, so that there are at most as many options as
  octets, and one that is refused; the position stays within the window, and the type found before the list is
  restored. When two octets follow the list in the frame nothing is read behind the frame.
\<close>

theorem option_lists_end:
  assumes "reader \<in> set option_lists" "ob_ok b" "int q \<le> ob_len b"
  shows "\<exists>r. reader c (pos (8 * q)) b = Some r \<and> (roomy b \<longrightarrow> \<not> isl r) \<and>
    (\<forall>c' at xs. r = Inr (c', at, xs) \<longrightarrow>
       (\<exists>q'. at = pos (8 * q') \<and> q \<le> q' \<and> int q' \<le> ob_len b \<and> length xs \<le> q' - q + 1) \<and> rc_type c' = rc_type c)"
  using assms(1) more0_ends [OF ext.object_list_axioms assms(2,3)] more0_ends [OF ipv4.object_list_axioms assms(2,3)]
    more0_ends [OF tcp.object_list_axioms assms(2,3)] more0_ends [OF icmpv6.object_list_axioms assms(2,3)]
    more0_ends [OF mobility.object_list_axioms assms(2,3)]
  by (auto simp: option_lists_def MmOption_onExt_reverse_def MmOption_onIPv4_reverse_def MmOption_onTCP_reverse_def
      MmOption_onICMPv6_reverse_def MmOption_onMH_reverse_def)

text \<open>An ICMPv6 option of length zero, in a window of eight octets.\<close>

definition idle :: rcontrol where
  "idle = \<lparr>rc_error = False, rc_code = 0, rc_type = Uneffect, rc_noted = []\<rparr>"

theorem option_lists_end_witness:
  "\<exists>r. MmOption_onICMPv6_reverse idle (pos 0) \<lparr>ob_mem = [1, 0, 0, 0, 0, 0, 0, 0, 96, 0], ob_off = 0, ob_len = 8\<rparr> = Some r \<and> \<not> isl r"
proof -
  let ?b = "\<lparr>ob_mem = [1, 0, 0, 0, 0, 0, 0, 0, 96, 0], ob_off = 0, ob_len = 8\<rparr>"
  have "ob_ok ?b" "int 0 \<le> ob_len ?b" "roomy ?b" "MmOption_onICMPv6_reverse \<in> set option_lists"
    by (simp_all add: ob_ok_def roomy_def option_lists_def)
  then show ?thesis using option_lists_end [of MmOption_onICMPv6_reverse ?b 0 idle] by auto
qed

end
