(* ===== verification/VExtOptions.thy ===== *)
theory VExtOptions
  imports VOptions
begin

text \<open>
  What a well-formed list of IPv6 options is taken apart into, and what happens to one whose last option is too long.
\<close>

section \<open>Members that find enough octets\<close>

lemma element_read:
  assumes "plain_kind k" "ob_ok b" "roomy b" "p + bits_of k \<le> 8 * nat (ob_len b)"
  shows "\<exists>c' xs. MmElement_reverse n k f c (pos p) b = Inr (c', pos (p + bits_of k), xs) \<and> rc_error c' = rc_error c"
proof -
  have p: "p \<le> 8 * nat (ob_len b)" using assms(4) by simp
  have small: "k \<noteq> VarOcts" "bits_of k < 65529" using assms(1) by (auto simp: plain_kind_def bits_of_def split: mkind.splits)
  obtain c' p' xs where r: "MmElement_reverse n k f c (pos p) b = Inr (c', pos p', xs)"
    by (rule total_reverserE [OF total_element [OF assms(1)] assms(2,3) p])
  have "it_add (pos (bits_of k)) (pos p) = pos (p + bits_of k)"
    by (rule it_add_pos) (use ob_ok_small [OF assms(2,4)] in simp)
  then obtain v where "member_reverse k (pos p) b = Inr (Some (v, pos (p + bits_of k)))"
    using r limit_bits [OF assms(2) p, of "bits_of k"] assms(4) small
    by (auto simp: MmElement_reverse_def member_reverse_def member_length_pos Let_def bind_res_eq_Inr)
  then show ?thesis by (auto simp: MmElement_reverse_def)
qed

lemma remain_octets:
  assumes "ob_ok b" "q \<le> nat (ob_len b)"
  shows "it_bytes (pos (8 * q)) = int q" "remainLength (int q) b = int (nat (ob_len b) - q)"
  using remain_at [OF assms(1), of "8 * q"] assms(2) by simp_all

lemma data_read:
  assumes "ob_ok b" "q \<le> nat (ob_len b)"
  shows "\<exists>xs. MmData_reverse n s c (pos (8 * q)) b = Inr (c, pos (8 * nat (ob_len b)), xs)"
proof -
  define l where "l = nat (ob_len b) - q"
  have l: "l < 268427264" "int q + int l \<le> ob_len b" "nat (ob_len b) = q + l" using assms by (auto simp: ob_ok_def l_def)
  have u: "ulong_of (int l) = int l" "long_of (int l) = int l" using l(1) by (simp_all add: ulong_of_def)
  have lim: "check_decode_limit (pos (8 * q)) (pos (8 * l)) b" using limit_bits [OF assms(1), of "8 * q" "8 * l"] l by simp
  have a: "it_add (pos (8 * l)) (pos (8 * q)) = pos (8 * (q + l))"
    using it_add_pos [of "8 * q" "8 * l"] ob_ok_small [OF assms(1), of "8 * (q + l)"] l(3) by simp
  show ?thesis
    using lim ob_substr_sub [OF assms(1) l(2)]
    by (simp add: MmData_reverse_def Let_def remain_octets [OF assms] l_def [symmetric] u it_pos_octets a l(3))
qed

lemma payload_read:
  assumes "ob_ok b" "q \<le> nat (ob_len b)"
  shows "\<exists>xs. McPayload_reverse n c (pos (8 * q)) b = Inr (c, pos (8 * nat (ob_len b)), xs)"
proof -
  define l where "l = nat (ob_len b) - q"
  have l: "l < 268427264" "int q + int l \<le> ob_len b" "nat (ob_len b) = q + l" using assms by (auto simp: ob_ok_def l_def)
  have u: "uint (word_of_nat l :: 32 word) = int l" "long_of (int l) = int l"
    using l(1) by (simp_all add: uint_word_of_int unsigned_of_nat take_bit_nat_eq_self)
  have lim: "check_decode_limit (pos (8 * q)) (pos (8 * l)) b" using limit_bits [OF assms(1), of "8 * q" "8 * l"] l by simp
  have a: "addBytes (int l) (pos (8 * q)) = pos (8 * (q + l))" using l by (intro addBytes_octets) (use assms(1) in \<open>auto simp: ob_ok_def\<close>)
  let ?w = "sub_window b q l"
  have w: "ob_ok ?w" "nat (ob_len ?w) = l" using ob_ok_sub [OF assms(1) l(2)] by (simp_all add: sub_window_def)
  obtain xs where d: "MmData_reverse ''data'' False c (pos 0) ?w = Inr (c, pos (8 * l), xs)"
    using data_read [OF w(1), of 0 "''data''" False c] w(2) by auto
  have "McObject_members_reverse (\<lambda>c at buf. Inl Endless) [MmData_reverse ''data'' False] c ?w = Inr (c, xs)"
    using remain_octets [OF w(1), of l] w(2) by (simp add: McObject_members_reverse_def pos0 d)
  then show ?thesis
    using lim ob_substr_sub [OF assms(1) l(2)]
    by (simp add: McPayload_reverse_def McObject_reverse_def remain_for_reverse_def remain_octets [OF assms] l_def [symmetric] Let_def u
        it_pos_octets a l(3) check_decode_alignment_requirement_def padcount_alignment_requirement_def)
qed

lemma needless_read:
  assumes "ob_ok b" "q \<le> nat (ob_len b)" "0 < remainLength (it_bytes (pos (8 * q))) b"
  shows "\<exists>xs. McNeedless_reverse c (pos (8 * q)) b = Inr (c, pos (8 * nat (ob_len b)), xs)"
proof -
  define l where "l = nat (ob_len b) - q"
  have "0 < l" "l < 268427264" using assms(1,3) remain_octets [OF assms(1,2)] by (auto simp: ob_ok_def l_def)
  then have "unat (word_of_nat l :: 32 word) \<noteq> 0" by (simp add: unat_of_nat take_bit_nat_eq_self)
  then have "word_of_nat l \<noteq> (0 :: 32 word)" by auto
  then show ?thesis
    using payload_read [OF assms(1,2), of McNeedless c]
    by (simp add: McNeedless_reverse_def remain_octets [OF assms(1,2)] l_def [symmetric])
qed

text \<open>Members of whole octets, and data at most at the end.\<close>

fun octet_members :: "member list \<Rightarrow> bool" where
  "octet_members [] \<longleftrightarrow> True"
| "octet_members (Element n e g v i f # ms) \<longleftrightarrow> (case kind_of e of
     Some k \<Rightarrow> plain_kind k \<and> bits_of k mod 8 = 0 | None \<Rightarrow> False) \<and> octet_members ms"
| "octet_members [Data n s i] \<longleftrightarrow> True"
| "octet_members _ \<longleftrightarrow> False"

fun octets_needed :: "member list \<Rightarrow> nat" where
  "octets_needed (Element n e g v i f # ms) = (case kind_of e of Some k \<Rightarrow> bits_of k div 8 | None \<Rightarrow> 0) + octets_needed ms"
| "octets_needed _ = 0"

lemma members_read:
  assumes "ob_ok b" "roomy b"
  shows "octet_members ms \<Longrightarrow> q + octets_needed ms \<le> nat (ob_len b) \<Longrightarrow> \<not> rc_error c \<Longrightarrow>
    \<exists>c' q' xs. members_loop (map (member_reverser cls) ms) c (pos (8 * q)) b = Inr (c', pos (8 * q'), xs) \<and>
      q' \<le> nat (ob_len b) \<and> \<not> rc_error c'"
proof (induction ms arbitrary: q c rule: octet_members.induct)
  case 1
  then show ?case by auto
next
  case (2 n e g v i f ms)
  then obtain k where k: "kind_of e = Some k" "plain_kind k" "bits_of k mod 8 = 0" by (auto split: option.splits)
  define m where "m = bits_of k div 8"
  have m: "bits_of k = 8 * m" using k(3) by (auto simp: m_def)
  then have "8 * q + bits_of k \<le> 8 * nat (ob_len b)" using 2(3) by (simp add: k(1))
  from element_read [OF k(2) assms this, of n f c] obtain c1 xs where
    1: "MmElement_reverse n k f c (pos (8 * q)) b = Inr (c1, pos (8 * (q + m)), xs)" "rc_error c1 = rc_error c"
    unfolding m by (metis add_mult_distrib2)
  have "octet_members ms" "q + m + octets_needed ms \<le> nat (ob_len b)" "\<not> rc_error c1"
    using 2(2-4) k(1) 1(2) m by simp_all
  from 2(1) [OF this] show ?case using 1 2(4) by (auto simp: k(1))
next
  case (3 n s i)
  then show ?case using data_read [OF assms(1), of q n s c] by auto
qed simp_all

lemma option_read:
  assumes "octet_members (map snd (mc_members cls))" "octets_needed (map snd (mc_members cls)) \<le> unat l"
    "len cls (pos (8 * q)) b = Inr l" "unat l < 65536" "ob_ok b" "roomy b" "q + unat l \<le> nat (ob_len b)" "\<not> rc_error c"
  shows "\<exists>c' ys. option_reverse len cls c (pos (8 * q)) b =
      Inr (c', pos (8 * (q + unat l)), [RcObject (mc_name cls) (pos (8 * q)) (sub_window b q (unat l)) ys]) \<and> \<not> rc_error c'"
proof -
  define m where "m = unat l"
  have m: "m < 65536" "uint l = int m" using assms(4) by (simp_all add: m_def)
  have "q + m \<le> nat (ob_len b)" "0 \<le> ob_len b" using assms(5,7) by (simp_all add: m_def ob_ok_def)
  then have w: "int q + int m \<le> ob_len b" "q \<le> nat (ob_len b)" by linarith+
  let ?w = "sub_window b q m"
  have win: "ob_ok ?w" "roomy ?w" "nat (ob_len ?w) = m"
    using ob_ok_sub [OF assms(5) w(1)] roomy_sub [OF assms(6) w(1)] by (simp_all add: sub_window_def)
  define c0 where "c0 = (if \<not> check_decode_alignment_requirement (alignment_requirement (mc_name cls)) (pos (8 * q)) (it_pos (int m) 0)
    then set_warning_code 3 c else c)"
  have c0: "\<not> rc_error c0" using assms(8) by (simp add: c0_def set_warning_code_def)
  obtain c1 q1 xs where 1: "members_loop (map (member_reverser cls) (map snd (mc_members cls))) c0 (pos 0) ?w = Inr (c1, pos (8 * q1), xs)"
    "q1 \<le> m" "\<not> rc_error c1"
    using members_read [OF win(1,2) assms(1) _ c0, of 0 cls] assms(2) [folded m_def] by (auto simp: win(3))
  have eq: "map (\<lambda>(r, m). member_reverser cls m) (mc_members cls) = map (member_reverser cls) (map snd (mc_members cls))"
    by (simp add: split_def comp_def)
  have "\<exists>ys. McObject_members_reverse McNeedless_reverse (map (member_reverser cls) (map snd (mc_members cls))) c0 ?w = Inr (c1, ys)"
    using 1 needless_read [OF win(1), of q1 c1] win(3)
    by (cases "remainLength (it_bytes (pos (8 * q1))) ?w > 0") (auto simp: McObject_members_reverse_def pos0 simp del: map_map)
  then obtain ys where ys: "McObject_members_reverse McNeedless_reverse (map (\<lambda>(r, m). member_reverser cls m) (mc_members cls)) c0 ?w = Inr (c1, ys)"
    unfolding eq by blast
  have "check_decode_limit (pos (8 * q)) (it_pos (int m) 0) b"
    using limit_bits [OF assms(5), of "8 * q" "8 * m"] w m(1) assms(5) by (auto simp: it_pos_octets ob_ok_def)
  moreover have "addBytes (int m) (pos (8 * q)) = pos (8 * (q + m))"
    using w(1) assms(5) unfolding ob_ok_def by (intro addBytes_octets) linarith
  moreover have "long_of (int m) = int m" using m(1) by simp
  ultimately show ?thesis
    using ys 1(3) ob_substr_sub [OF assms(5) w(1)] unfolding m_def [symmetric]
    by (simp add: option_reverse_def McObject_reverse_def assms(3) m(2) Let_def remain_octets(1) [OF assms(5) w(2)] c0_def [symmetric])
qed

section \<open>The options of IPv6 extension headers\<close>

text \<open>An option of one octet, or one with a type and data.\<close>

datatype ext_option = Pad1 | Opt byte "byte list"

fun ext_octets :: "ext_option \<Rightarrow> byte list" where
  "ext_octets Pad1 = [0]"
| "ext_octets (Opt t d) = t # word_of_nat (length d) # d"

text \<open>The class for a type, and the octets its members need.\<close>

fun ext_class :: "ext_option \<Rightarrow> mc" where
  "ext_class Pad1 = McOpt_Ext_Pad1"
| "ext_class (Opt t d) = (if t = 1 then McOpt_Ext_PadN else if t = 194 then McOpt_Ext_JumboPayload
     else if t = 5 then McOpt_Ext_RouterAlert else if t = 4 then McOpt_Ext_TunnelEncap
     else if t = 201 then McOpt_Ext_HomeAddress else McOpt_Ext_ANY)"

fun ext_valid :: "ext_option \<Rightarrow> bool" where
  "ext_valid Pad1 \<longleftrightarrow> True"
| "ext_valid (Opt t d) \<longleftrightarrow> t \<noteq> 0 \<and> length d < 256 \<and>
     (t = 194 \<longrightarrow> 4 \<le> length d) \<and> (t = 5 \<longrightarrow> 2 \<le> length d) \<and> (t = 4 \<longrightarrow> 1 \<le> length d) \<and> (t = 201 \<longrightarrow> 16 \<le> length d)"

fun ext_type :: "ext_option \<Rightarrow> byte" where
  "ext_type Pad1 = 0"
| "ext_type (Opt t d) = t"

lemma ext_entries_net:
  "concat (map (\<lambda>c. map (\<lambda>t. (t, mc_name c)) (added MmOption_onExt (mc_dicts c))) VHdrNet_classes) =
    [(0, mc_name McOpt_Ext_Pad1), (1, mc_name McOpt_Ext_PadN), (194, mc_name McOpt_Ext_JumboPayload),
     (5, mc_name McOpt_Ext_RouterAlert), (4, mc_name McOpt_Ext_TunnelEncap), (201, mc_name McOpt_Ext_HomeAddress)]"
  by (simp add: VHdrNet_classes_def class_defs)

lemma ext_entries:
  "dict_list (dict_of MmOption_onExt classes) =
    [(0, mc_name McOpt_Ext_Pad1), (1, mc_name McOpt_Ext_PadN), (194, mc_name McOpt_Ext_JumboPayload),
     (5, mc_name McOpt_Ext_RouterAlert), (4, mc_name McOpt_Ext_TunnelEncap), (201, mc_name McOpt_Ext_HomeAddress)]"
proof -
  let ?f = "\<lambda>cs. concat (map (\<lambda>c. map (\<lambda>t. (t, mc_name c)) (added MmOption_onExt (mc_dicts c))) cs)"
  have "?f cs = []" if "list_all (\<lambda>c. \<not> registers MmOption_onExt c) cs" for cs
    using that
  proof (induction cs)
    case (Cons c cs)
    have "added MmOption_onExt (mc_dicts c) = []"
    proof (rule ccontr)
      assume "added MmOption_onExt (mc_dicts c) \<noteq> []"
      then obtain t where "t \<in> set (added MmOption_onExt (mc_dicts c))" by (cases "added MmOption_onExt (mc_dicts c)") auto
      then have "registers MmOption_onExt c" by (force simp: registers_def list_ex_iff dest: added_registers)
      then show False using Cons.prems by simp
    qed
    then show ?case using Cons by simp
  qed simp
  moreover have "list_all (\<lambda>c. \<not> registers MmOption_onExt c) (VHdrUpper_classes @ VHdrDhcp_classes @ VHdrSnmp_classes @ VHdrIke_classes)"
    using options_in_net by (auto simp: list_all_iff option_refs_def)
  ultimately have "?f (VHdrUpper_classes @ VHdrDhcp_classes @ VHdrSnmp_classes @ VHdrIke_classes) = []" by blast
  then have "?f classes = ?f VHdrNet_classes" by (simp only: classes_def map_append concat_append append_Nil2)
  then show ?thesis by (simp only: dict_of_list ext_entries_net)
qed

lemma ext_classes:
  "McOpt_Ext_Pad1 \<in> set classes" "McOpt_Ext_PadN \<in> set classes" "McOpt_Ext_JumboPayload \<in> set classes"
  "McOpt_Ext_RouterAlert \<in> set classes" "McOpt_Ext_TunnelEncap \<in> set classes" "McOpt_Ext_HomeAddress \<in> set classes"
  by (simp_all add: classes_def VHdrNet_classes_def)

lemma ext_registers:
  "registers MmOption_onExt McOpt_Ext_Pad1" "registers MmOption_onExt McOpt_Ext_PadN" "registers MmOption_onExt McOpt_Ext_JumboPayload"
  "registers MmOption_onExt McOpt_Ext_RouterAlert" "registers MmOption_onExt McOpt_Ext_TunnelEncap"
  "registers MmOption_onExt McOpt_Ext_HomeAddress"
  by (simp_all add: registers_def class_defs)

lemma ext_class_ok: "ext_class x \<in> set classes" "registers MmOption_onExt (ext_class x)"
  using ext_classes any_classes(1) ext_registers any_registers(1) by (cases x; simp)+

lemma uint_octet: "0 \<le> k \<Longrightarrow> k < 256 \<Longrightarrow> uint (t :: byte) = k \<longleftrightarrow> t = word_of_int k"
proof -
  assume "0 \<le> k" "k < 256"
  then have "uint (word_of_int k :: byte) = k" by (simp add: uint_word_of_int)
  then show ?thesis by (metis word_of_int_uint)
qed

lemma ext_find:
  "dict_find (Effect (uint t)) (dict_of MmOption_onExt classes) = Some (mc_name (if t = 0 then McOpt_Ext_Pad1 else ext_class (Opt t d)))"
proof -
  have t: "uint t = 0 \<longleftrightarrow> t = 0" "uint t = 1 \<longleftrightarrow> t = 1" "uint t = 194 \<longleftrightarrow> t = 194" "uint t = 5 \<longleftrightarrow> t = 5" "uint t = 4 \<longleftrightarrow> t = 4"
    "uint t = 201 \<longleftrightarrow> t = 201"
    using uint_octet [of 0 t] uint_octet [of 1 t] uint_octet [of 194 t] uint_octet [of 5 t] uint_octet [of 4 t] uint_octet [of 201 t]
    by simp_all
  show ?thesis
    unfolding dict_find_def dict_type.case ext_entries find_type.simps t option_any(1) ext_class.simps by simp
qed

lemma ext_in_dict:
  assumes "ext_valid x"
  shows "dict_reverser MmOption_onExt McOpt_Ext_reverse (Effect (uint (ext_type x))) = Some (McOpt_Ext_reverse (ext_class x))"
proof -
  have "dict_find (Effect (uint (ext_type x))) (dict_of MmOption_onExt classes) = Some (mc_name (ext_class x))"
  proof (cases x)
    case Pad1
    then show ?thesis using ext_find [of 0] by simp
  next
    case (Opt t d)
    then show ?thesis using assms ext_find [of t d] by (simp del: ext_class.simps)
  qed
  moreover have "class_named (mc_name (ext_class x)) = Some (ext_class x)"
    by (rule class_named_option [OF ext_class_ok]) (simp add: option_refs_def)
  moreover have "mc_name (ext_class x) \<noteq> McNeedless"
    by (cases x) (simp_all add: class_defs McNeedless_def)
  ultimately show ?thesis by (simp add: dict_reverser_def)
qed

lemma ext_shapes:
  "octet_members (map snd (mc_members McOpt_Ext_Pad1))" "octets_needed (map snd (mc_members McOpt_Ext_Pad1)) = 1"
  "octet_members (map snd (mc_members McOpt_Ext_PadN))" "octets_needed (map snd (mc_members McOpt_Ext_PadN)) = 2"
  "octet_members (map snd (mc_members McOpt_Ext_JumboPayload))" "octets_needed (map snd (mc_members McOpt_Ext_JumboPayload)) = 6"
  "octet_members (map snd (mc_members McOpt_Ext_RouterAlert))" "octets_needed (map snd (mc_members McOpt_Ext_RouterAlert)) = 4"
  "octet_members (map snd (mc_members McOpt_Ext_TunnelEncap))" "octets_needed (map snd (mc_members McOpt_Ext_TunnelEncap)) = 3"
  "octet_members (map snd (mc_members McOpt_Ext_HomeAddress))" "octets_needed (map snd (mc_members McOpt_Ext_HomeAddress)) = 18"
  "octet_members (map snd (mc_members McOpt_Ext_ANY))" "octets_needed (map snd (mc_members McOpt_Ext_ANY)) = 2"
  by (simp_all add: class_defs plain_kind_def bits_of_def)

lemma ext_members:
  assumes "ext_valid x"
  shows "octet_members (map snd (mc_members (ext_class x))) \<and>
    octets_needed (map snd (mc_members (ext_class x))) \<le> length (ext_octets x)"
proof (cases x)
  case Pad1
  then show ?thesis by (simp add: ext_shapes)
next
  case (Opt t d)
  then have d: "t = 194 \<longrightarrow> 4 \<le> length d" "t = 5 \<longrightarrow> 2 \<le> length d" "t = 4 \<longrightarrow> 1 \<le> length d" "t = 201 \<longrightarrow> 16 \<le> length d"
    using assms by simp_all
  then show ?thesis unfolding Opt ext_class.simps ext_octets.simps by (auto simp: ext_shapes)
qed

text \<open>The length of an option is the octet behind its type.\<close>

lemma ext_length:
  assumes "ext_valid x" "ob_ok b" "roomy b" "q < nat (ob_len b)"
    "take (length (ext_octets x)) (drop q (ob_string b)) = ext_octets x"
  shows "option_length (\<lambda>v. v + 2) (ext_class x) (pos (8 * q)) b = Inr (word_of_nat (length (ext_octets x)))"
proof -
  have ok: "typed_option (ext_class x)" by (rule option_class(2) [OF ext_class_ok]) (simp add: option_refs_def)
  have q: "int q \<le> ob_len b" using assms(4) by simp
  have s: "Suc q < length (ob_string b)" by (rule ob_string_roomy [OF assms(2,3) q])
  show ?thesis
  proof (cases x)
    case Pad1
    then show ?thesis using option_length_octet [OF ok assms(2) q, of "\<lambda>v. v + 2"] by (simp add: class_defs)
  next
    case (Opt t d)
    have "ob_string b ! Suc q = take (length (ext_octets x)) (drop q (ob_string b)) ! 1" using s by (simp add: Opt)
    then have "ob_string b ! Suc q = word_of_nat (length d)" unfolding assms(5) by (simp add: Opt)
    moreover have "length (mc_members (ext_class x)) \<noteq> 1" unfolding Opt ext_class.simps by (simp add: class_defs)
    moreover have "(ucast (word_of_nat (length d) :: byte) + 2 :: 32 word) = word_of_nat (length (ext_octets x))"
      using assms(1) by (simp add: Opt unsigned_of_nat take_bit_nat_eq_self)
    ultimately show ?thesis using option_length_octet [OF ok assms(2) q, of "\<lambda>v. v + 2"] s by simp
  qed
qed

lemma octet_less: "unat (x :: byte) < 256"
  using unsigned_less [of x] by simp

lemma octet_bound: "0 \<le> uint (x :: byte) \<and> uint x < 256"
  using unsigned_less [of x] by simp

text \<open>The type of the option at an octet of the window.\<close>

lemma ext_type_found:
  assumes "ob_ok b" "q < nat (ob_len b)"
  shows "any_overwrite MmOption_onExt McOpt_Ext_overwrite_DictType c (pos (8 * q)) b =
    Inr (c\<lparr>rc_type := Effect (uint (ob_string b ! q))\<rparr>, True)"
proof -
  have q: "8 * q + 8 \<le> 8 * nat (ob_len b)" "8 * q \<le> 8 * nat (ob_len b)" "q \<le> nat (ob_len b)" using assms(2) by simp_all
  have n: "q < 268435456" "q < length (ob_string b)" using assms by (auto simp: ob_ok_def ob_string_def)
  have b8: "bits_of (Uint 8) = 8" by (simp add: bits_of_def)
  have "member_reverse (Uint 8) (pos (8 * q)) b = Inr (Some (Number (ucast (ob_string b ! q)), it_add (pos 8) (pos (8 * q))))"
    using limit_bits [OF assms(1) q(2), of 8] q(1) decodeUint_octet [OF n(1), of "ob_string b"] n(2)
      member_length_pos [of "Uint 8"]
    by (simp add: member_reverse_def reversePv_def uint_decode_def b8 Let_def)
  moreover have "uint (ucast (ob_string b ! q) :: 32 word) = uint (ob_string b ! q)"
    using octet_bound [of "ob_string b ! q"] by (simp add: unsigned_ucast_eq take_bit_int_eq_self)
  moreover have "long_of (uint (ob_string b ! q)) = uint (ob_string b ! q)"
    using octet_bound [of "ob_string b ! q"] by (intro long_of_id) linarith+
  moreover have "ulong_of (int (nat (ob_len b) - q)) \<noteq> 0" using assms by (auto simp: ob_ok_def ulong_of_def)
  moreover have "class_named (mc_name McOpt_Ext_ANY) = Some McOpt_Ext_ANY"
    by (rule class_named_option [OF any_classes(1) any_registers(1)]) (simp add: option_refs_def)
  ultimately show ?thesis
    by (simp add: any_overwrite_def option_any(1) McOpt_Ext_overwrite_DictType_def remain_octets [OF assms(1) q(3)]
        own_type_def any_fields(1) MmElement_reverse_def)
qed

section \<open>Taking the list apart\<close>

definition window :: "octbuf \<Rightarrow> byte list" where
  "window b = take (nat (ob_len b)) (ob_string b)"

lemma window_length: "ob_ok b \<Longrightarrow> length (window b) = nat (ob_len b)"
  by (auto simp: window_def ob_ok_def ob_string_def)

lemma window_part:
  assumes "ob_ok b" "window b = pre @ s @ post"
  shows "take (length s) (drop (length pre) (ob_string b)) = s" "length pre + length s \<le> nat (ob_len b)"
proof -
  have len: "length pre + length s + length post = nat (ob_len b)" using window_length [OF assms(1)] by (simp add: assms(2))
  then show "length pre + length s \<le> nat (ob_len b)" by simp
  have "take (length s) (drop (length pre) (window b)) = s" by (simp add: assms(2))
  moreover have "take (length s) (drop (length pre) (window b)) = take (length s) (drop (length pre) (ob_string b))"
    using len by (simp add: window_def drop_take min_def)
  ultimately show "take (length s) (drop (length pre) (ob_string b)) = s" by simp
qed

text \<open>The class and the octets of an object.\<close>

fun object_parts :: "robject \<Rightarrow> string \<times> byte list" where
  "object_parts (RcObject n at w xs) = (n, window w)"
| "object_parts (RmObject n at sz v) = (n, [])"
| "object_parts (RmData n at sz w) = (n, window w)"

text \<open>An option whose length leads behind the list.\<close>

definition too_long :: "byte list \<Rightarrow> bool" where
  "too_long s \<longleftrightarrow> (\<exists>t n r. s = t # n # r \<and> t \<noteq> 0 \<and> length r < unat n)"

abbreviation ext_loop :: "rcontrol \<Rightarrow> itpos \<Rightarrow> octbuf \<Rightarrow> robject list \<Rightarrow> (rcontrol \<times> itpos \<times> robject list) res option" where
  "ext_loop \<equiv> More0_loop (any_overwrite MmOption_onExt McOpt_Ext_overwrite_DictType) (dict_reverser MmOption_onExt McOpt_Ext_reverse)"

lemma ext_loop_end:
  assumes "ob_ok b" "q = nat (ob_len b)"
  shows "ext_loop c (pos (8 * q)) b acc = Some (Inr (c, pos (8 * q), acc))"
proof -
  have "class_named (mc_name McOpt_Ext_ANY) = Some McOpt_Ext_ANY"
    by (rule class_named_option [OF any_classes(1) any_registers(1)]) (simp add: option_refs_def)
  then have "any_overwrite MmOption_onExt McOpt_Ext_overwrite_DictType c (pos (8 * q)) b = Inr (c, False)"
    using remain_octets [OF assms(1), of q] assms(2)
    by (simp add: any_overwrite_def option_any(1) McOpt_Ext_overwrite_DictType_def ulong_of_def)
  then show ?thesis by (simp add: More0_loop.simps)
qed

lemma ext_loop_refused:
  assumes "ob_ok b" "roomy b" "window b = pre @ rest" "too_long rest"
  shows "\<exists>c'. ext_loop c (pos (8 * length pre)) b acc = Some (Inr (c', pos (8 * length pre), acc)) \<and> rc_error c'"
proof -
  obtain t n r where r: "rest = t # n # r" "t \<noteq> 0" "length r < unat n" using assms(4) by (auto simp: too_long_def)
  let ?q = "length pre" and ?cls = "ext_class (Opt t [])"
  have part: "take 2 (drop ?q (ob_string b)) = [t, n]" and le: "?q + 2 \<le> nat (ob_len b)"
    using window_part [OF assms(1), of pre "[t, n]" r] assms(3) r(1) by (simp_all add: numeral_2_eq_2)
  have len: "nat (ob_len b) = ?q + 2 + length r" using window_length [OF assms(1)] by (simp add: assms(3) r(1))
  have q: "int ?q \<le> ob_len b" "?q \<le> nat (ob_len b)" "?q < nat (ob_len b)" using le by simp_all
  have s: "Suc ?q < length (ob_string b)" by (rule ob_string_roomy [OF assms(1,2) q(1)])
  have "ob_string b ! ?q = take 2 (drop ?q (ob_string b)) ! 0" "ob_string b ! Suc ?q = take 2 (drop ?q (ob_string b)) ! 1"
    using s by simp_all
  then have nth: "ob_string b ! ?q = t" "ob_string b ! Suc ?q = n" by (simp_all add: part)
  have ok: "typed_option ?cls" by (rule option_class(2) [OF ext_class_ok]) (simp add: option_refs_def)
  have "length (mc_members ?cls) \<noteq> 1" unfolding ext_class.simps by (simp add: class_defs)
  then have l: "option_length (\<lambda>v. v + 2) ?cls (pos (8 * ?q)) b = Inr (ucast n + 2)"
    using option_length_octet [OF ok assms(1) q(1), of "\<lambda>v. v + 2"] s nth(2) by simp
  have u: "uint (ucast n + 2 :: 32 word) = int (unat n + 2)"
  proof -
    define m where "m = unat n + 2"
    have "ucast n + 2 = (word_of_nat (unat n + 2) :: 32 word)" by simp
    moreover have "m < 258" using octet_less [of n] by (simp add: m_def)
    then have "uint (word_of_nat m :: 32 word) = int m" by (simp add: unsigned_of_nat take_bit_nat_eq_self)
    ultimately show ?thesis unfolding m_def by (simp only:)
  qed
  have "\<not> check_decode_limit (pos (8 * ?q)) (it_pos (int (unat n + 2)) 0) b"
    using limit_bits [OF assms(1), of "8 * ?q" "8 * (unat n + 2)"] q r(3) len octet_less [of n] by (simp only: it_pos_octets) simp
  moreover have "long_of (int (unat n + 2)) = int (unat n + 2)" using octet_bound [of n] by (intro long_of_id) auto
  ultimately have "option_reverse (option_length (\<lambda>v. v + 2)) ?cls c' (pos (8 * ?q)) b = Inr (set_error_code 1 c', pos (8 * ?q), [])" for c'
    by (simp only: option_reverse_def McObject_reverse_def l bind_res_Inr u Let_def if_True simp_thms)
  moreover have "class_named (mc_name ?cls) = Some ?cls"
    by (rule class_named_option [OF ext_class_ok]) (simp add: option_refs_def)
  moreover have "mc_name ?cls \<noteq> McNeedless" unfolding ext_class.simps by (simp add: class_defs McNeedless_def)
  ultimately show ?thesis
    using ext_find [of t "[]"] r(2) ext_type_found [OF assms(1) q(3)]
    by (simp add: More0_loop.simps [of _ _ c] nth dict_reverser_def McOpt_Ext_reverse_def option_lengths(1) set_error_code_def del: ext_class.simps)
qed

lemma ext_loop_split:
  assumes "ob_ok b" "roomy b" "rest = [] \<or> too_long rest"
  shows "window b = pre @ concat (map ext_octets os) @ rest \<Longrightarrow> list_all ext_valid os \<Longrightarrow> \<not> rc_error c \<Longrightarrow>
    \<exists>c' xs. ext_loop c (pos (8 * length pre)) b acc = Some (Inr (c', pos (8 * (nat (ob_len b) - length rest)), acc @ xs)) \<and>
      map object_parts xs = map (\<lambda>x. (mc_name (ext_class x), ext_octets x)) os \<and> rc_error c' = (rest \<noteq> [])"
proof (induction os arbitrary: pre c acc)
  case Nil
  have len: "nat (ob_len b) = length pre + length rest" using window_length [OF assms(1)] Nil.prems(1) by simp
  show ?case
  proof (cases "rest = []")
    case True
    then show ?thesis using ext_loop_end [OF assms(1), of "length pre" c acc] len Nil.prems(3) by simp
  next
    case False
    then have "too_long rest" using assms(3) by simp
    from ext_loop_refused [OF assms(1,2) _ this, of pre c acc] show ?thesis using Nil.prems(1) len False by auto
  qed
next
  case (Cons x os)
  let ?q = "length pre" and ?s = "ext_octets x"
  have x: "ext_valid x" "list_all ext_valid os" using Cons.prems(2) by simp_all
  note part = window_part [OF assms(1), of pre ?s "concat (map ext_octets os) @ rest"]
  have part: "take (length ?s) (drop ?q (ob_string b)) = ?s" "?q + length ?s \<le> nat (ob_len b)"
    using part Cons.prems(1) by simp_all
  have pos: "0 < length ?s" "length ?s < 258" using x(1) by (cases x; simp)+
  have q: "?q < nat (ob_len b)" "int ?q \<le> ob_len b" using part(2) pos by linarith+
  define l where "l = (word_of_nat (length ?s) :: 32 word)"
  have l: "unat l = length ?s" using pos(2) by (simp add: l_def unat_of_nat take_bit_nat_eq_self)
  have "Suc ?q < length (ob_string b)" by (rule ob_string_roomy [OF assms(1,2) q(2)])
  then have "ob_string b ! ?q = take (length ?s) (drop ?q (ob_string b)) ! 0" using pos(1) by simp
  then have type: "ob_string b ! ?q = ext_type x" unfolding part(1) by (cases x) simp_all
  define c1 where "c1 = c\<lparr>rc_type := Effect (uint (ext_type x))\<rparr>"
  have c1: "any_overwrite MmOption_onExt McOpt_Ext_overwrite_DictType c (pos (8 * ?q)) b = Inr (c1, True)" "\<not> rc_error c1"
    "rc_type c1 = Effect (uint (ext_type x))"
    using ext_type_found [OF assms(1) q(1), of c] Cons.prems(3) by (simp_all add: type c1_def)
  have "octet_members (map snd (mc_members (ext_class x)))" "octets_needed (map snd (mc_members (ext_class x))) \<le> unat l"
    using ext_members [OF x(1)] l by simp_all
  from option_read [where len = "option_length (\<lambda>v. v + 2)", OF this ext_length [OF x(1) assms(1,2) q(1) part(1), folded l_def] _ assms(1,2) _ c1(2)]
  obtain c2 ys where r: "McOpt_Ext_reverse (ext_class x) c1 (pos (8 * ?q)) b = Inr (c2, pos (8 * (?q + length ?s)),
      [RcObject (mc_name (ext_class x)) (pos (8 * ?q)) (sub_window b ?q (length ?s)) ys])" "\<not> rc_error c2"
    using pos(2) part(2) unfolding l McOpt_Ext_reverse_def option_lengths(1) by auto
  let ?o = "RcObject (mc_name (ext_class x)) (pos (8 * ?q)) (sub_window b ?q (length ?s)) ys"
  have "ext_loop c (pos (8 * ?q)) b acc = ext_loop c2 (pos (8 * length (pre @ ?s))) b (acc @ [?o])"
    using r ext_in_dict [OF x(1)] by (simp add: More0_loop.simps [of _ _ c] c1 del: ext_class.simps)
  moreover have "window b = (pre @ ?s) @ concat (map ext_octets os) @ rest" using Cons.prems(1) by simp
  from Cons.IH [OF this x(2) r(2), of "acc @ [?o]"] obtain c' xs where
    "ext_loop c2 (pos (8 * length (pre @ ?s))) b (acc @ [?o]) = Some (Inr (c', pos (8 * (nat (ob_len b) - length rest)), acc @ ?o # xs))"
    "map object_parts xs = map (\<lambda>x. (mc_name (ext_class x), ext_octets x)) os" "rc_error c' = (rest \<noteq> [])"
    by auto
  moreover have "object_parts ?o = (mc_name (ext_class x), ?s)"
    using part(1) by (simp add: window_def sub_window_def ob_string_def add.commute)
  ultimately show ?case by (intro exI [of _ c'] exI [of _ "?o # xs"]) (simp del: ext_class.simps)
qed



text \<open>
  C40: The octet of the length of an option is read before it is known to be there: a list that ends with the type of an
  option at the end of the frame makes the reader read behind the frame.
\<close>

theorem cut_option_overreads:
  assumes "ob_ok b" "ob_off b + nat (ob_len b) = length (ob_mem b)" "window b = pre @ [t]" "t \<noteq> 0"
  shows "MmOption_onExt_reverse c (pos (8 * length pre)) b = Some (Inl OutOfBounds)"
proof -
  let ?q = "length pre" and ?cls = "ext_class (Opt t [])"
  have len: "nat (ob_len b) = Suc ?q" using window_length [OF assms(1)] by (simp add: assms(3))
  have str: "length (ob_string b) = Suc ?q" using assms(2) len by (simp add: ob_string_def)
  have "window b = ob_string b" using len str by (simp add: window_def)
  then have nth: "ob_string b ! ?q = t" by (metis assms(3) nth_append_length)
  have q: "?q < nat (ob_len b)" "int ?q \<le> ob_len b" using len by linarith+
  have ok: "typed_option ?cls" by (rule option_class(2) [OF ext_class_ok]) (simp add: option_refs_def)
  have "length (mc_members ?cls) \<noteq> 1" unfolding ext_class.simps by (simp add: class_defs)
  then have "option_length (\<lambda>v. v + 2) ?cls (pos (8 * ?q)) b = Inl OutOfBounds"
    using option_length_octet [OF ok assms(1) q(2), of "\<lambda>v. v + 2"] str by simp
  then have "option_reverse (option_length (\<lambda>v. v + 2)) ?cls c' (pos (8 * ?q)) b = Inl OutOfBounds" for c'
    by (simp only: option_reverse_def McObject_reverse_def bind_res_Inl)
  moreover have "class_named (mc_name ?cls) = Some ?cls"
    by (rule class_named_option [OF ext_class_ok]) (simp add: option_refs_def)
  moreover have "mc_name ?cls \<noteq> McNeedless" unfolding ext_class.simps by (simp add: class_defs McNeedless_def)
  ultimately have "ext_loop c (pos (8 * ?q)) b [] = Some (Inl OutOfBounds)"
    using ext_find [of t "[]"] assms(4) ext_type_found [OF assms(1) q(1)]
    by (simp add: More0_loop.simps [of _ _ c] nth dict_reverser_def McOpt_Ext_reverse_def option_lengths(1) del: ext_class.simps)
  then show ?thesis by (simp add: MmOption_onExt_reverse_def MmReference_More0_reverse_def)
qed

theorem cut_option_overreads_witness:
  "MmOption_onExt_reverse idle (pos 8) \<lparr>ob_mem = [0, 5], ob_off = 0, ob_len = 2\<rparr> = Some (Inl OutOfBounds)"
  using cut_option_overreads [of "\<lparr>ob_mem = [0, 5], ob_off = 0, ob_len = 2\<rparr>" "[0]" 5 idle]
  by (simp add: ob_ok_def window_def ob_string_def)

end
