(* ===== verification/VSet.thy ===== *)
theory VSet
  imports Koi_Prelude "HOL-Library.Multiset"
begin

text \<open>
  The hashed set of the packet tool (\<open>lib/Cm/BtSet.cc\<close> over \<open>lib/Cm/BtArray.cc\<close>), which holds its names, header
  classes, numbers and interfaces: an array of pointers searched by linear probing, that grows when
  it is two thirds full and closes the gap when an element is removed. An element is what the pointer
  points to; \<open>None\<close> is the null pointer. \<open>hash\<close> and \<open>same\<close> stand for the virtual methods
  \<open>hashElement\<close> and \<open>isSame\<close>. Capacities are natural numbers: an array of \<open>c\<close> pointers occupies
  \<open>4 * c\<close> octets of a 32-bit memory, so \<open>n * 3\<close> and \<open>c * 2\<close> do not wrap around.
\<close>

section \<open>The array and its operations\<close>

record 'a btset =
  bt_elements :: "'a option list"
  bt_count :: nat

definition BtSet_new :: "nat \<Rightarrow> 'a btset" where
  "BtSet_new s = \<lparr>bt_elements = replicate (if s > 1 then s * 2 else 2) None, bt_count = 0\<rparr>"

definition home :: "('a \<Rightarrow> 32 word) \<Rightarrow> nat \<Rightarrow> 'a \<Rightarrow> nat" where
  "home hash c x = unat (hash x) mod c"

fun findAt_loop :: "('a \<Rightarrow> 'a \<Rightarrow> bool) \<Rightarrow> 'a option list \<Rightarrow> 'a \<Rightarrow> nat \<Rightarrow> nat \<Rightarrow> 'a option \<times> nat option" where
  "findAt_loop same t x p 0 = (None, None)"
| "findAt_loop same t x p (Suc u) = (let p = (if p \<ge> length t then 0 else p) in
     case t ! p of
       None \<Rightarrow> (None, Some p)
     | Some c \<Rightarrow> if same c x then (Some c, Some p) else findAt_loop same t x (Suc p) u)"

definition findAt :: "('a \<Rightarrow> 32 word) \<Rightarrow> ('a \<Rightarrow> 'a \<Rightarrow> bool) \<Rightarrow> 'a option list \<Rightarrow> 'a \<Rightarrow> 'a option \<times> nat option" where
  "findAt hash same t x = (if length t = 0 then (None, None)
     else findAt_loop same t x (home hash (length t) x) (length t))"

fun rehash_loop :: "('a \<Rightarrow> 32 word) \<Rightarrow> 'a option list \<Rightarrow> nat \<Rightarrow> nat \<Rightarrow> nat \<Rightarrow> 'a option list" where
  "rehash_loop hash t at i 0 = t"
| "rehash_loop hash t at i (Suc u) = (let i = (if i \<ge> length t then 0 else i) in
     case t ! i of
       None \<Rightarrow> t
     | Some x \<Rightarrow> let h = home hash (length t) x in
         if (if at < i then h \<le> at \<or> i < h else i < h \<and> h \<le> at)
         then rehash_loop hash (t[at := Some x, i := None]) i (Suc i) u
         else rehash_loop hash t at (Suc i) u)"

definition rehash :: "('a \<Rightarrow> 32 word) \<Rightarrow> 'a option list \<Rightarrow> nat \<Rightarrow> 'a option list" where
  "rehash hash t at = rehash_loop hash t at (at + 1) (length t - 1)"

definition atPut :: "nat \<Rightarrow> 'a \<Rightarrow> 'a option list \<Rightarrow> 'a option list res" where
  "atPut n x t = (if n \<ge> length t then Inl Abort else Inr (t[n := Some x]))"

fun copy_from :: "('a btset \<Rightarrow> 'a \<Rightarrow> 'a btset res) \<Rightarrow> 'a option list \<Rightarrow> 'a btset \<Rightarrow> 'a btset res" where
  "copy_from add [] s = Inr s"
| "copy_from add (None # xs) s = copy_from add xs s"
| "copy_from add (Some x # xs) s = bind_res (add s x) (copy_from add xs)"

definition newCapacity :: "nat \<Rightarrow> 'a btset \<Rightarrow> 'a btset" where
  "newCapacity c s = s\<lparr>bt_elements := replicate c None\<rparr>"

definition copyElements :: "('a btset \<Rightarrow> 'a \<Rightarrow> 'a btset res) \<Rightarrow> 'a option list \<Rightarrow> 'a btset \<Rightarrow> 'a btset res" where
  "copyElements add from s = (let c = length (bt_elements s) in
     copy_from add from (newCapacity (if length from > c then length from else c) s))"

definition expand :: "('a btset \<Rightarrow> 'a \<Rightarrow> 'a btset res) \<Rightarrow> 'a btset \<Rightarrow> 'a btset res" where
  "expand add s = (let old = bt_elements s in
     copyElements add old (newCapacity ((length old + 1) * 2) (s\<lparr>bt_count := 0\<rparr>)))"

text \<open>
  Adding may expand, which adds the old elements again; the first argument bounds how deep that goes.
\<close>

fun addIfAbsent :: "nat \<Rightarrow> ('a \<Rightarrow> 32 word) \<Rightarrow> ('a \<Rightarrow> 'a \<Rightarrow> bool) \<Rightarrow> 'a btset \<Rightarrow> 'a \<Rightarrow>
    ('a option \<times> nat option \<times> 'a btset) res" where
  "addIfAbsent 0 hash same s x = Inl OutOfFuel"
| "addIfAbsent (Suc d) hash same s x =
     bind_res (if bt_count s * 3 > length (bt_elements s) * 2
               then expand (\<lambda>s x. bind_res (addIfAbsent d hash same s x) (\<lambda>(_, _, s). Inr s)) s
               else Inr s) (\<lambda>s.
     case findAt hash same (bt_elements s) x of
       (None, Some u) \<Rightarrow> bind_res (atPut u x (bt_elements s)) (\<lambda>t.
         Inr (Some x, Some u, s\<lparr>bt_elements := t, bt_count := bt_count s + 1\<rparr>))
     | (old, u) \<Rightarrow> Inr (old, u, s))"

definition BtSet_add where
  "BtSet_add d hash same s p = (case p of None \<Rightarrow> Inr (None, s) | Some x \<Rightarrow>
     bind_res (addIfAbsent d hash same s x) (\<lambda>(a, _, s). Inr (if a = Some x then Some x else None, s)))"

text \<open>\<open>filter\<close> also deletes the object it does not keep: the second result.\<close>

definition BtSet_filter where
  "BtSet_filter d hash same s p = (case p of None \<Rightarrow> Inr (None, None, s) | Some x \<Rightarrow>
     bind_res (addIfAbsent d hash same s x) (\<lambda>(a, _, s).
       Inr (a, if a \<noteq> None \<and> a \<noteq> Some x then Some x else None, s)))"

definition BtSet_replace where
  "BtSet_replace d hash same s p = (case p of None \<Rightarrow> Inr (None, s) | Some x \<Rightarrow>
     bind_res (addIfAbsent d hash same s x) (\<lambda>(a, n, s).
       if a = None then Inr (None, s)
       else if a = Some x then Inr (None, s)
       else bind_res (atPut (the n) x (bt_elements s)) (\<lambda>t. Inr (a, s\<lparr>bt_elements := t\<rparr>))))"

definition BtSet_find where
  "BtSet_find hash same s x = fst (findAt hash same (bt_elements s) x)"

definition BtSet_remove where
  "BtSet_remove hash same s x = (case findAt hash same (bt_elements s) x of
       (Some old, Some n) \<Rightarrow> (Some old, s\<lparr>bt_elements := rehash hash ((bt_elements s)[n := None]) n,
                                          bt_count := bt_count s - 1\<rparr>)
     | _ \<Rightarrow> (None, s))"

definition BtSet_deleteContents :: "'a btset \<Rightarrow> 'a btset" where
  "BtSet_deleteContents s = \<lparr>bt_elements = replicate (length (bt_elements s)) None, bt_count = 0\<rparr>"

text \<open>
  \<open>operator=\<close> is the one of the array, for two different sets: the count of the target is not reset. In the copy
  constructor the virtual methods are those of \<open>BtSet\<close> itself, whatever the class of the new set.
\<close>

definition BtSet_assign where
  "BtSet_assign d hash same s a =
     copyElements (\<lambda>s x. bind_res (BtSet_add d hash same s (Some x)) (\<lambda>(_, s). Inr s)) (bt_elements a) s"

definition BtSet_copy where
  "BtSet_copy d hash same a =
     BtSet_assign d hash same \<lparr>bt_elements = replicate (length (bt_elements a)) None, bt_count = 0\<rparr> a"

section \<open>Distances on the probe sequence\<close>

text \<open>
  \<open>off c h k\<close> is the number of steps from \<open>h\<close> to \<open>k\<close>; \<open>lin c e k\<close> numbers the slots from
  the one behind the empty slot \<open>e\<close>, so that no probe sequence of an element wraps around.
\<close>

definition off :: "nat \<Rightarrow> nat \<Rightarrow> nat \<Rightarrow> nat" where
  "off c h k = (if h \<le> k then k - h else k + c - h)"

definition lin :: "nat \<Rightarrow> nat \<Rightarrow> nat \<Rightarrow> nat" where
  "lin c e k = (if k \<le> e then k + c - 1 - e else k - e - 1)"

lemma home_less: "0 < c \<Longrightarrow> home hash c x < c"
  by (simp add: home_def)

lemma off_lin: "\<lbrakk>h < c; k < c; j < c; e < c; lin c e h \<le> lin c e j\<rbrakk> \<Longrightarrow>
    off c h k < off c h j \<longleftrightarrow> lin c e h \<le> lin c e k \<and> lin c e k < lin c e j"
  by (auto simp: off_def lin_def split: if_splits)

lemma off_empty: "\<lbrakk>h < c; j < c; e < c; j \<noteq> e\<rbrakk> \<Longrightarrow>
    \<not> off c h e < off c h j \<longleftrightarrow> lin c e h \<le> lin c e j"
  by (auto simp: off_def lin_def split: if_splits)

lemma off_less: "\<lbrakk>h < c; k < c\<rbrakk> \<Longrightarrow> off c h k < c"
  by (auto simp: off_def)

lemma off_inj: "\<lbrakk>h < c; k < c; j < c; off c h k = off c h j\<rbrakk> \<Longrightarrow> k = j"
  by (auto simp: off_def split: if_splits)

lemma off_next: "\<lbrakk>h < c; p < c; off c h p < c - 1\<rbrakk> \<Longrightarrow>
    off c h (if Suc p \<ge> c then 0 else Suc p) = Suc (off c h p)"
  by (auto simp: off_def split: if_splits)

lemma lin_next: "\<lbrakk>i < c; e < c; i \<noteq> e\<rbrakk> \<Longrightarrow>
    lin c e (if Suc i \<ge> c then 0 else Suc i) = Suc (lin c e i)"
  by (auto simp: lin_def split: if_splits)

lemma lin_inj: "\<lbrakk>j < c; k < c; e < c; lin c e j = lin c e k\<rbrakk> \<Longrightarrow> j = k"
  by (auto simp: lin_def split: if_splits)

lemma lin_less: "\<lbrakk>j < c; e < c\<rbrakk> \<Longrightarrow> lin c e j \<le> c - 1 \<and> (lin c e j = c - 1 \<longleftrightarrow> j = e)"
  by (auto simp: lin_def split: if_splits)

text \<open>The test of \<open>rehash\<close>: the home slot does not lie behind the gap.\<close>

lemma rehash_test: "\<lbrakk>h < c; i < c; at < c; e < c; i \<noteq> e; at \<noteq> e; lin c e at < lin c e i; lin c e h \<le> lin c e i\<rbrakk> \<Longrightarrow>
    (if at < i then h \<le> at \<or> i < h else i < h \<and> h \<le> at) \<longleftrightarrow> lin c e h \<le> lin c e at"
  by (auto simp: lin_def split: if_splits)

section \<open>Searching\<close>

text \<open>Every slot between the home of an element and its place is occupied.\<close>

definition probed :: "('a \<Rightarrow> 32 word) \<Rightarrow> 'a option list \<Rightarrow> bool" where
  "probed hash t = (let c = length t in \<forall>j < c. \<forall>x. t ! j = Some x \<longrightarrow>
     (\<forall>k < c. off c (home hash c x) k < off c (home hash c x) j \<longrightarrow> t ! k \<noteq> None))"

definition other :: "('a \<Rightarrow> 'a \<Rightarrow> bool) \<Rightarrow> 'a option list \<Rightarrow> 'a \<Rightarrow> nat \<Rightarrow> bool" where
  "other same t x k \<longleftrightarrow> (\<exists>y. t ! k = Some y \<and> \<not> same y x)"

lemma findAt_loop_spec:
  assumes "c = length t" "h < c" "u \<le> c" "q = (if p \<ge> c then 0 else p)" "p \<le> c"
    and "0 < u \<Longrightarrow> off c h q = c - u" and "\<forall>k < c. off c h k < c - u \<longrightarrow> other same t x k"
  shows "case findAt_loop same t x p u of
      (Some y, i) \<Rightarrow> \<exists>j < c. i = Some j \<and> t ! j = Some y \<and> same y x
    | (None, Some j) \<Rightarrow> j < c \<and> t ! j = None \<and> (\<forall>k < c. off c h k < off c h j \<longrightarrow> other same t x k)
    | (None, None) \<Rightarrow> \<forall>k < c. other same t x k"
  using assms
proof (induction u arbitrary: p q)
  case 0
  then show ?case by (auto simp: off_less)
next
  case (Suc u)
  have q: "q < c" "off c h q = c - Suc u" using Suc.prems by auto
  show ?case
  proof (cases "t ! q")
    case None
    then show ?thesis using Suc.prems q by (auto simp: Let_def)
  next
    case (Some y)
    show ?thesis
    proof (cases "same y x")
      case True
      then show ?thesis using Suc.prems q Some by (auto simp: Let_def)
    next
      case False
      have "other same t x k" if "k < c" "off c h k < c - u" for k
      proof (cases "off c h k = off c h q")
        case True
        then have "k = q" using off_inj[OF \<open>h < c\<close> that(1) q(1)] by blast
        then show ?thesis using Some False by (auto simp: other_def)
      next
        case False
        then show ?thesis using Suc.prems that q by auto
      qed
      moreover have "off c h (if Suc q \<ge> c then 0 else Suc q) = c - u" if "0 < u"
        using off_next[OF \<open>h < c\<close> q(1)] q(2) that Suc.prems by auto
      ultimately have "case findAt_loop same t x (Suc q) u of
          (Some y, i) \<Rightarrow> \<exists>j < c. i = Some j \<and> t ! j = Some y \<and> same y x
        | (None, Some j) \<Rightarrow> j < c \<and> t ! j = None \<and> (\<forall>k < c. off c h k < off c h j \<longrightarrow> other same t x k)
        | (None, None) \<Rightarrow> \<forall>k < c. other same t x k"
        using Suc.prems q by (intro Suc.IH[of "if Suc q \<ge> c then 0 else Suc q" "Suc q"]) auto
      then show ?thesis using Some False Suc.prems by (simp add: Let_def)
    qed
  qed
qed

lemma findAt_spec:
  assumes "c = length t" "0 < c" "h = home hash c x"
  shows "case findAt hash same t x of
      (Some y, i) \<Rightarrow> \<exists>j < c. i = Some j \<and> t ! j = Some y \<and> same y x
    | (None, Some j) \<Rightarrow> j < c \<and> t ! j = None \<and> (\<forall>k < c. off c h k < off c h j \<longrightarrow> other same t x k)
    | (None, None) \<Rightarrow> \<forall>k < c. other same t x k"
  using findAt_loop_spec[of c t h c h h same x] assms home_less[of c hash x]
  by (simp add: findAt_def) (simp add: off_def)

section \<open>Closing the gap\<close>

definition lprobed :: "('a \<Rightarrow> 32 word) \<Rightarrow> nat \<Rightarrow> 'a option list \<Rightarrow> bool" where
  "lprobed hash e t = (let c = length t in \<forall>j < c. \<forall>x. t ! j = Some x \<longrightarrow>
     lin c e (home hash c x) \<le> lin c e j \<and>
     (\<forall>k < c. lin c e (home hash c x) \<le> lin c e k \<and> lin c e k < lin c e j \<longrightarrow> t ! k \<noteq> None))"

lemma probed_lin:
  assumes "e < length t" "t ! e = None"
  shows "probed hash t \<longleftrightarrow> lprobed hash e t"
proof -
  let ?c = "length t"
  have H: "home hash ?c x < ?c" for x using assms(1) by (intro home_less) auto
  have "(\<forall>k < ?c. off ?c (home hash ?c x) k < off ?c (home hash ?c x) j \<longrightarrow> t ! k \<noteq> None) \<longleftrightarrow>
      lin ?c e (home hash ?c x) \<le> lin ?c e j \<and>
      (\<forall>k < ?c. lin ?c e (home hash ?c x) \<le> lin ?c e k \<and> lin ?c e k < lin ?c e j \<longrightarrow> t ! k \<noteq> None)"
    if "j < ?c" "t ! j = Some x" for j x
  proof -
    have "j \<noteq> e" using that assms by auto
    then have E: "\<not> off ?c (home hash ?c x) e < off ?c (home hash ?c x) j \<longleftrightarrow>
        lin ?c e (home hash ?c x) \<le> lin ?c e j" using off_empty[OF H that(1) assms(1)] by blast
    have F: "lin ?c e (home hash ?c x) \<le> lin ?c e j \<Longrightarrow> k < ?c \<Longrightarrow>
        off ?c (home hash ?c x) k < off ?c (home hash ?c x) j \<longleftrightarrow>
        lin ?c e (home hash ?c x) \<le> lin ?c e k \<and> lin ?c e k < lin ?c e j" for k
      using off_lin[OF H _ that(1) assms(1)] by blast
    show ?thesis using E F assms by blast
  qed
  then show ?thesis unfolding probed_def lprobed_def Let_def by blast
qed

text \<open>While the gap is at \<open>at\<close> and the scan at \<open>i\<close>, only elements not yet seen may need the gap.\<close>

definition gap_inv :: "('a \<Rightarrow> 32 word) \<Rightarrow> nat \<Rightarrow> 'a option list \<Rightarrow> nat \<Rightarrow> nat \<Rightarrow> bool" where
  "gap_inv hash e t at i = (let c = length t in
     e < c \<and> t ! e = None \<and> at < c \<and> at \<noteq> e \<and> t ! at = None \<and> i < c \<and> lin c e at < lin c e i \<and>
     (\<forall>j < c. \<forall>x. t ! j = Some x \<longrightarrow> lin c e (home hash c x) \<le> lin c e j \<and>
       (\<forall>k < c. lin c e (home hash c x) \<le> lin c e k \<and> lin c e k < lin c e j \<longrightarrow>
          t ! k \<noteq> None \<or> (k = at \<and> lin c e i \<le> lin c e j))))"

lemma gap_inv_end:
  assumes "gap_inv hash e t at i" "t ! i = None"
  shows "lprobed hash e t"
proof -
  have "False" if "j < length t" "t ! j = Some x" "at < length t" "t ! at = None"
    "lin (length t) e (home hash (length t) x) \<le> lin (length t) e at" "lin (length t) e at < lin (length t) e j"
    "lin (length t) e i \<le> lin (length t) e j" for j x
  proof -
    have "j \<noteq> i" using that assms by auto
    then have "lin (length t) e i < lin (length t) e j"
      using that assms lin_inj[of i "length t" j e] unfolding gap_inv_def Let_def by fastforce
    then have "t ! i \<noteq> None \<or> i = at"
      using that assms unfolding gap_inv_def Let_def by (meson less_le_trans less_imp_le_nat le_trans)
    then show False using assms unfolding gap_inv_def Let_def by auto
  qed
  then show ?thesis using assms unfolding gap_inv_def lprobed_def Let_def by metis
qed

lemma gap_inv_skip:
  assumes "gap_inv hash e t at i" "t ! i = Some x" "c = length t"
    "\<not> lin c e (home hash c x) \<le> lin c e at"
  shows "gap_inv hash e t at (if Suc i \<ge> c then 0 else Suc i)"
proof -
  have i: "i < c" "e < c" "i \<noteq> e" using assms unfolding gap_inv_def Let_def by auto
  have n: "lin c e (if Suc i \<ge> c then 0 else Suc i) = Suc (lin c e i)" by (rule lin_next[OF i])
  have m: "(if Suc i \<ge> c then 0 else Suc i) < c" using i by auto
  have old: "lin c e (home hash c y) \<le> lin c e j"
    "k < c \<Longrightarrow> lin c e (home hash c y) \<le> lin c e k \<Longrightarrow> lin c e k < lin c e j \<Longrightarrow>
      t ! k \<noteq> None \<or> (k = at \<and> lin c e i \<le> lin c e j)" if "j < c" "t ! j = Some y" for j y k
    using assms(1,3) that unfolding gap_inv_def Let_def by blast+
  have s: "Suc (lin c e i) \<le> lin c e j" if "j < c" "t ! j = Some y" "lin c e (home hash c y) \<le> lin c e at"
    "lin c e i \<le> lin c e j" for j y
  proof -
    have "j \<noteq> i" using that assms by auto
    then have "lin c e j \<noteq> lin c e i" using that i lin_inj[of i c j e] by auto
    then show ?thesis using that by simp
  qed
  have "t ! k \<noteq> None \<or> (k = at \<and> Suc (lin c e i) \<le> lin c e j)"
    if "j < c" "t ! j = Some y" "k < c" "lin c e (home hash c y) \<le> lin c e k" "lin c e k < lin c e j" for j y k
    using old(2)[OF that] s[OF that(1,2)] that(4) by blast
  then show ?thesis using assms(1) m old(1) n unfolding gap_inv_def Let_def assms(3)[symmetric] by simp
qed

lemma gap_inv_move:
  assumes "gap_inv hash e t at i" "t ! i = Some x" "c = length t"
    "lin c e (home hash c x) \<le> lin c e at"
  shows "gap_inv hash e (t[at := Some x, i := None]) i (if Suc i \<ge> c then 0 else Suc i)"
proof -
  let ?t = "t[at := Some x, i := None]"
  have i: "i < c" "e < c" "i \<noteq> e" "at < c" "at \<noteq> e" "at \<noteq> i" "lin c e at < lin c e i"
    using assms unfolding gap_inv_def Let_def by auto
  have n: "lin c e (if Suc i \<ge> c then 0 else Suc i) = Suc (lin c e i)" by (rule lin_next[OF i(1-3)])
  have m: "(if Suc i \<ge> c then 0 else Suc i) < c" using i by auto
  have old: "lin c e (home hash c y) \<le> lin c e j"
    "k < c \<Longrightarrow> lin c e (home hash c y) \<le> lin c e k \<Longrightarrow> lin c e k < lin c e j \<Longrightarrow>
      t ! k \<noteq> None \<or> (k = at \<and> lin c e i \<le> lin c e j)" if "j < c" "t ! j = Some y" for j y k
    using assms(1,3) that unfolding gap_inv_def Let_def by blast+
  have "lin c e (home hash c y) \<le> lin c e j \<and>
     (\<forall>k < c. lin c e (home hash c y) \<le> lin c e k \<and> lin c e k < lin c e j \<longrightarrow>
        ?t ! k \<noteq> None \<or> (k = i \<and> Suc (lin c e i) \<le> lin c e j))"
    if j: "j < c" "?t ! j = Some y" for j y
  proof (cases "j = at")
    case True
    then have y: "y = x" using j i assms(3) by simp
    have "?t ! k \<noteq> None" if "k < c" "lin c e (home hash c x) \<le> lin c e k" "lin c e k < lin c e at" for k
    proof -
      have "k \<noteq> at" "k \<noteq> i" using that i by auto
      then show ?thesis using old(2)[OF i(1) assms(2), of k] that i assms(3) by auto
    qed
    then show ?thesis using True y assms(4) by auto
  next
    case False
    have ji: "j \<noteq> i" and tj: "t ! j = Some y" using j False i assms(3)
      by (auto simp: nth_list_update split: if_splits)
    have "?t ! k \<noteq> None \<or> (k = i \<and> Suc (lin c e i) \<le> lin c e j)"
      if "k < c" "lin c e (home hash c y) \<le> lin c e k" "lin c e k < lin c e j" for k
      using old(2)[OF j(1) tj that] that i assms(3) by (cases "k = i"; cases "k = at") (auto simp: nth_list_update)
    then show ?thesis using old(1)[OF j(1) tj] by blast
  qed
  then show ?thesis using i m assms(1,3) n unfolding gap_inv_def Let_def by (auto simp: nth_list_update)
qed

lemma rehash_loop_spec:
  assumes "gap_inv hash e t at (if i \<ge> length t then 0 else i)"
    "length t \<le> u + lin (length t) e (if i \<ge> length t then 0 else i)"
  shows "length (rehash_loop hash t at i u) = length t \<and> mset (rehash_loop hash t at i u) = mset t
    \<and> probed hash (rehash_loop hash t at i u)"
  using assms
proof (induction u arbitrary: t at i)
  case 0
  then show ?case using lin_less[of "if i \<ge> length t then 0 else i" "length t" e]
    unfolding gap_inv_def Let_def by fastforce
next
  case (Suc u)
  define c q where "c = length t" and "q = (if i \<ge> length t then 0 else i)"
  have q: "gap_inv hash e t at q" "q < c" "e < c" "at < c" "t ! e = None" "t ! at = None" "at \<noteq> e" "lin c e at < lin c e q"
    "c \<le> Suc u + lin c e q"
    using Suc.prems unfolding gap_inv_def Let_def q_def[symmetric] c_def by auto
  show ?case
  proof (cases "t ! q")
    case None
    then show ?thesis using gap_inv_end[OF q(1)] probed_lin[of e t hash] q by (simp add: q_def[symmetric] c_def)
  next
    case (Some x)
    have qe: "q \<noteq> e" using Some q by auto
    have n: "lin c e (if Suc q \<ge> c then 0 else Suc q) = Suc (lin c e q)" by (rule lin_next[OF q(2,3) qe])
    have h: "home hash c x < c" using q by (simp add: home_def)
    have hq: "lin c e (home hash c x) \<le> lin c e q" using q Some unfolding gap_inv_def Let_def c_def by blast
    note test = rehash_test[OF h q(2) q(4) q(3) qe q(7) q(8) hq]
    have step: "rehash_loop hash t at i (Suc u) =
        (if (if at < q then home hash c x \<le> at \<or> q < home hash c x else q < home hash c x \<and> home hash c x \<le> at)
         then rehash_loop hash (t[at := Some x, q := None]) q (Suc q) u
         else rehash_loop hash t at (Suc q) u)"
      unfolding rehash_loop.simps Let_def q_def[symmetric] Some option.case c_def by (rule refl)
    show ?thesis
    proof (cases "lin c e (home hash c x) \<le> lin c e at")
      case True
      have s: "mset (t[at := Some x, q := None]) = mset t"
        using mset_swap[of q t at] Some q by (simp add: c_def)
      have "gap_inv hash e (t[at := Some x, q := None]) q (if Suc q \<ge> c then 0 else Suc q)"
        by (rule gap_inv_move[OF q(1) Some c_def True])
      moreover have "rehash_loop hash t at i (Suc u) = rehash_loop hash (t[at := Some x, q := None]) q (Suc q) u"
        using step test True by simp
      ultimately show ?thesis using Suc.IH[of "t[at := Some x, q := None]" q "Suc q"] n q s
        by (simp add: c_def)
    next
      case False
      have "gap_inv hash e t at (if Suc q \<ge> c then 0 else Suc q)"
        by (rule gap_inv_skip[OF q(1) Some c_def False])
      moreover have "rehash_loop hash t at i (Suc u) = rehash_loop hash t at (Suc q) u"
        using step test False by simp
      ultimately show ?thesis using Suc.IH[of t at "Suc q"] n q by (simp add: c_def)
    qed
  qed
qed

lemma probed_empty: "probed hash (replicate c None)"
  by (simp add: probed_def)

lemma gap_inv_start:
  assumes "probed hash t" "n < length t" "e < length t" "e \<noteq> n" "t ! e = None"
  shows "gap_inv hash e (t[n := None]) n (if Suc n \<ge> length t then 0 else Suc n)"
proof -
  let ?c = "length t" and ?i = "if Suc n \<ge> length t then 0 else Suc n"
  have s: "lin ?c e ?i = Suc (lin ?c e n)" by (rule lin_next) (use assms in auto)
  have l: "lprobed hash e t" using probed_lin[OF assms(3,5)] assms(1) by blast
  have P: "lin ?c e (home hash ?c x) \<le> lin ?c e j \<and>
      (\<forall>k < ?c. lin ?c e (home hash ?c x) \<le> lin ?c e k \<and> lin ?c e k < lin ?c e j \<longrightarrow>
        t[n := None] ! k \<noteq> None \<or> (k = n \<and> lin ?c e ?i \<le> lin ?c e j))"
    if "j < ?c" "t[n := None] ! j = Some x" for j x
  proof -
    have "t ! j = Some x" using that assms(2) by (cases "j = n") auto
    then have "lin ?c e (home hash ?c x) \<le> lin ?c e j"
      "\<And>k. k < ?c \<Longrightarrow> lin ?c e (home hash ?c x) \<le> lin ?c e k \<Longrightarrow> lin ?c e k < lin ?c e j \<Longrightarrow> t ! k \<noteq> None"
      using l that(1) unfolding lprobed_def Let_def by blast+
    moreover have "t[n := None] ! k = t ! k" if "k \<noteq> n" for k using that by simp
    ultimately show ?thesis using s by (metis Suc_leI)
  qed
  then have "\<forall>j < ?c. \<forall>x. t[n := None] ! j = Some x \<longrightarrow> lin ?c e (home hash ?c x) \<le> lin ?c e j \<and>
      (\<forall>k < ?c. lin ?c e (home hash ?c x) \<le> lin ?c e k \<and> lin ?c e k < lin ?c e j \<longrightarrow>
        t[n := None] ! k \<noteq> None \<or> (k = n \<and> lin ?c e ?i \<le> lin ?c e j))" by blast
  moreover have "t[n := None] ! e = None" "t[n := None] ! n = None" "?i < ?c" "lin ?c e n < lin ?c e ?i"
    using assms s by auto
  ultimately show ?thesis using assms(2-4) unfolding gap_inv_def Let_def length_list_update by blast
qed

lemma rehash_two:
  assumes "length t = 2" "n < 2" "t ! n = None"
  shows "length (rehash hash t n) = 2 \<and> mset (rehash hash t n) = mset t \<and> probed hash (rehash hash t n)"
proof -
  obtain a b where t: "t = [a, b]" using assms(1) by (auto simp: length_Suc_conv numeral_2_eq_2)
  have h: "home hash 2 x = 0 \<or> home hash 2 x = 1" for x using home_less[of 2 hash x] by auto
  have n: "n = 0 \<or> n = 1" using assms(2) by auto
  show ?thesis using n
  proof
    assume "n = 0"
    then show ?thesis using t assms(3) h[of "the b"]
      by (cases b) (auto simp: rehash_def probed_def off_def Let_def numeral_2_eq_2 less_Suc_eq)
  next
    assume "n = 1"
    then show ?thesis using t assms(3) h[of "the a"]
      by (cases a) (auto simp: rehash_def probed_def off_def Let_def numeral_2_eq_2 less_Suc_eq)
  qed
qed

lemma rehash_spec:
  assumes "probed hash t" "n < length t" "length t = 2 \<or> (\<exists>e < length t. e \<noteq> n \<and> t ! e = None)"
  shows "length (rehash hash (t[n := None]) n) = length t \<and>
    mset (rehash hash (t[n := None]) n) = mset (t[n := None]) \<and> probed hash (rehash hash (t[n := None]) n)"
proof (cases "\<exists>e < length t. e \<noteq> n \<and> t ! e = None")
  case True
  then obtain e where e: "e < length t" "e \<noteq> n" "t ! e = None" by blast
  note g = gap_inv_start[OF assms(1,2) e]
  then have "length t \<le> length t - 1 + lin (length t) e (if Suc n \<ge> length t then 0 else Suc n)"
    using lin_next[OF assms(2) e(1)] e(2) by auto
  then show ?thesis using rehash_loop_spec[of hash e "t[n := None]" n "Suc n" "length t - 1"] g
    by (simp add: rehash_def)
next
  case False
  then show ?thesis using assms rehash_two[of "t[n := None]" n hash] by auto
qed

end
