(* ===== verification/VSetSpec.thy ===== *)
theory VSetSpec
  imports VSet
begin

text \<open>
  What the hashed set of the packet tool promises: its elements are a map from keys to objects, when
  equal keys give equal hash values. The contract of the two virtual methods is a locale, and
  every operation is proved in it against the map.
\<close>

section \<open>Contents of an array\<close>

fun contents :: "'a option list \<Rightarrow> 'a list" where
  "contents [] = []"
| "contents (None # t) = contents t"
| "contents (Some x # t) = x # contents t"

lemma set_contents: "x \<in> set (contents t) \<longleftrightarrow> Some x \<in> set t"
  by (induction t rule: contents.induct) auto

lemma contents_nth: "x \<in> set (contents t) \<longleftrightarrow> (\<exists>k < length t. t ! k = Some x)"
  unfolding set_contents by (auto simp: in_set_conv_nth)

lemma mset_contents: "mset (contents t) = image_mset the (filter_mset (\<lambda>z. z \<noteq> None) (mset t))"
  by (induction t rule: contents.induct) auto

lemma contents_replicate [simp]: "contents (replicate c None) = []"
  by (induction c) auto

lemma length_contents: "length (contents t) \<le> length t"
  by (induction t rule: contents.induct) auto

lemma length_contents_full: "\<forall>k < length t. t ! k \<noteq> None \<Longrightarrow> length (contents t) = length t"
proof (induction t rule: contents.induct)
  case (2 t)
  then show ?case by (metis length_greater_0_conv list.distinct(1) nth_Cons_0)
next
  case (3 x t)
  then show ?case by (metis Suc_less_eq contents.simps(3) length_Cons nth_Cons_Suc)
qed simp

lemma contents_gap: "\<lbrakk>e < length t; t ! e = None\<rbrakk> \<Longrightarrow> length (contents t) < length t"
proof (induction t arbitrary: e rule: contents.induct)
  case (2 t)
  then show ?case using length_contents[of t] by simp
next
  case (3 x t)
  then show ?case by (cases e) auto
qed simp

lemma contents_gap_ex: "length (contents t) < length t \<Longrightarrow> \<exists>e < length t. t ! e = None"
  using length_contents_full[of t] by (metis less_irrefl)

lemma contents_put:
  "\<lbrakk>i < length t; t ! i = None\<rbrakk> \<Longrightarrow> mset (contents (t[i := Some x])) = add_mset x (mset (contents t))"
  by (simp add: mset_contents mset_update filter_diff_mset)

lemma contents_clear:
  "\<lbrakk>i < length t; t ! i = Some x\<rbrakk> \<Longrightarrow> mset (contents t) = add_mset x (mset (contents (t[i := None])))"
  using contents_put[of i "t[i := None]" x] list_update_id[of t i] by simp

lemma contents_swap:
  "\<lbrakk>i < length t; t ! i = Some y\<rbrakk> \<Longrightarrow>
     \<exists>M. mset (contents t) = add_mset y M \<and> mset (contents (t[i := Some x])) = add_mset x M"
  using contents_clear[of i t y] contents_put[of i "t[i := None]" x] by auto

lemma distinct_mset: "mset xs = mset ys \<Longrightarrow> distinct (map f xs) = distinct (map f ys)"
  by (metis mset_eq_imp_distinct_iff mset_map)

section \<open>Invariant and abstraction\<close>

definition set_ok :: "('a \<Rightarrow> 'k) \<Rightarrow> ('a \<Rightarrow> 32 word) \<Rightarrow> 'a btset \<Rightarrow> bool" where
  "set_ok key hash s = (let t = bt_elements s in
     bt_count s = length (contents t) \<and> distinct (map key (contents t)) \<and> probed hash t \<and>
     (length t = 2 \<or> 4 \<le> length t \<and> bt_count s < length t))"

definition set_abs :: "('a \<Rightarrow> 'k) \<Rightarrow> 'a btset \<Rightarrow> 'k \<Rightarrow> 'a option" where
  "set_abs key s = map_of (map (\<lambda>x. (key x, x)) (contents (bt_elements s)))"

lemma set_abs_Some: "set_ok key hash s \<Longrightarrow>
    set_abs key s k = Some x \<longleftrightarrow> x \<in> set (contents (bt_elements s)) \<and> key x = k"
  by (auto simp: set_ok_def set_abs_def Let_def comp_def map_of_eq_Some_iff)

lemma set_abs_None: "set_abs key s k = None \<longleftrightarrow> (\<forall>x \<in> set (contents (bt_elements s)). key x \<noteq> k)"
  by (auto simp: set_abs_def map_of_eq_None_iff image_image)

lemma set_abs_dom: "dom (set_abs key s) = key ` set (contents (bt_elements s))"
  by (auto simp: set_abs_def dom_map_of_conv_image_fst image_image)

lemma set_abs_card: "set_ok key hash s \<Longrightarrow> bt_count s = card (dom (set_abs key s))"
  by (auto simp: set_ok_def set_abs_dom Let_def distinct_card simp flip: set_map)

lemma set_abs_eqI:
  assumes "set_ok key hash s" "\<And>k x. m k = Some x \<longleftrightarrow> x \<in> set (contents (bt_elements s)) \<and> key x = k"
  shows "set_abs key s = m"
proof
  fix k show "set_abs key s k = m k"
    using set_abs_Some[OF assms(1)] assms(2) by (metis option.exhaust)
qed

lemma set_abs_insert:
  assumes "set_ok key hash s" "set_ok key hash s'" "set_abs key s (key x) = None"
    "mset (contents (bt_elements s')) = add_mset x (mset (contents (bt_elements s)))"
  shows "set_abs key s' = (set_abs key s)(key x \<mapsto> x)"
proof (rule set_abs_eqI[OF assms(2)])
  fix k y
  have "set (contents (bt_elements s')) = insert x (set (contents (bt_elements s)))"
    using assms(4) by (metis set_mset_add_mset_insert set_mset_mset)
  then show "((set_abs key s)(key x \<mapsto> x)) k = Some y \<longleftrightarrow> y \<in> set (contents (bt_elements s')) \<and> key y = k"
    using set_abs_Some[OF assms(1)] assms(3) by (auto simp: set_abs_None)
qed

lemma set_abs_delete:
  assumes "set_ok key hash s" "set_ok key hash s'"
    "mset (contents (bt_elements s)) = add_mset x (mset (contents (bt_elements s')))"
  shows "set_abs key s' = (set_abs key s)(key x := None)"
proof (rule set_abs_eqI[OF assms(2)])
  fix k y
  have i: "set (contents (bt_elements s)) = insert x (set (contents (bt_elements s')))"
    using assms(3) by (metis set_mset_add_mset_insert set_mset_mset)
  have d: "distinct (map key (x # contents (bt_elements s')))"
    using distinct_mset[of "contents (bt_elements s)" "x # contents (bt_elements s')" key] assms(1,3)
    by (simp add: set_ok_def Let_def)
  show "((set_abs key s)(key x := None)) k = Some y \<longleftrightarrow> y \<in> set (contents (bt_elements s')) \<and> key y = k"
    using set_abs_Some[OF assms(1), of k y] i d by (auto simp: image_iff)
qed

lemma set_abs_mset: "\<lbrakk>set_ok key hash s; set_ok key hash s';
    mset (contents (bt_elements s)) = mset (contents (bt_elements s'))\<rbrakk> \<Longrightarrow> set_abs key s' = set_abs key s"
  by (rule set_abs_eqI) (auto simp: set_abs_Some dest: mset_eq_setD)

section \<open>The contract of the virtual methods\<close>

locale hashed_elements =
  fixes hash :: "'a \<Rightarrow> 32 word" and same :: "'a \<Rightarrow> 'a \<Rightarrow> bool" and key :: "'a \<Rightarrow> 'k"
  assumes same_key: "same a b \<longleftrightarrow> key a = key b"
    and hash_key: "key a = key b \<Longrightarrow> hash a = hash b"
begin

lemma home_same: "same a b \<Longrightarrow> home hash c a = home hash c b"
  using hash_key[of a b] by (simp add: home_def same_key)

lemma other_contents:
  assumes "\<forall>k < length t. other same t x k" "y \<in> set (contents t)"
  shows "key y \<noteq> key x"
proof -
  obtain k where "k < length t" "t ! k = Some y" using assms(2) by (auto simp: contents_nth)
  then show ?thesis using assms(1) same_key by (auto simp: other_def)
qed

lemma probed_free:
  assumes "probed hash t" "j < length t" "t ! j = None" "y \<in> set (contents t)"
    "\<forall>k < length t. off (length t) (home hash (length t) x) k < off (length t) (home hash (length t) x) j \<longrightarrow> other same t x k"
  shows "key y \<noteq> key x"
proof
  let ?c = "length t" and ?h = "home hash (length t) x"
  assume e: "key y = key x"
  obtain k where k: "k < ?c" "t ! k = Some y" using assms(4) by (auto simp: contents_nth)
  have h: "home hash ?c y = ?h" using home_same[of y x ?c] e same_key by blast
  have H: "?h < ?c" using k by (intro home_less) auto
  have p: "off ?c ?h j < off ?c ?h k \<Longrightarrow> t ! j \<noteq> None"
    using assms(1,2) k h unfolding probed_def Let_def by metis
  have o: "off ?c ?h k < off ?c ?h j \<Longrightarrow> other same t x k" using assms(5) k by blast
  have "off ?c ?h k = off ?c ?h j \<Longrightarrow> k = j" using off_inj[OF H k(1) assms(2)] by blast
  then show False using p o assms(3) k(2) e same_key by (cases "off ?c ?h k" "off ?c ?h j" rule: linorder_cases) (auto simp: other_def)
qed

lemma probed_put:
  assumes "probed hash t" "j < length t" "t ! j = None"
    "\<forall>k < length t. off (length t) (home hash (length t) x) k < off (length t) (home hash (length t) x) j \<longrightarrow> other same t x k"
  shows "probed hash (t[j := Some x])"
  unfolding probed_def Let_def
proof (intro allI impI)
  fix i y k
  let ?c = "length (t[j := Some x])"
  assume i: "i < ?c" "t[j := Some x] ! i = Some y" and k: "k < ?c" "off ?c (home hash ?c y) k < off ?c (home hash ?c y) i"
  show "t[j := Some x] ! k \<noteq> None"
  proof (cases "k = j")
    case False
    show ?thesis
    proof (cases "i = j")
      case True
      then have "other same t x k" using i k assms(2,4) by auto
      then show ?thesis using False by (auto simp: other_def)
    next
      case ne: False
      then have "t ! k \<noteq> None" using assms(1) i k unfolding probed_def Let_def by auto
      then show ?thesis using False by simp
    qed
  qed (use assms(2) in simp)
qed

lemma findAt_cases [consumes 1, case_names found free full]:
  assumes "set_ok key hash s"
  obtains y j where "findAt hash same (bt_elements s) x = (Some y, Some j)" "j < length (bt_elements s)"
      "bt_elements s ! j = Some y" "key y = key x" "set_abs key s (key x) = Some y"
  | j where "findAt hash same (bt_elements s) x = (None, Some j)" "j < length (bt_elements s)"
      "bt_elements s ! j = None" "set_abs key s (key x) = None" "probed hash ((bt_elements s)[j := Some x])"
  | "findAt hash same (bt_elements s) x = (None, None)" "set_abs key s (key x) = None"
      "length (bt_elements s) = 2" "bt_count s = 2"
proof -
  let ?t = "bt_elements s"
  have c: "0 < length ?t" "probed hash ?t" using assms by (auto simp: set_ok_def Let_def)
  note spec = findAt_spec[OF refl c(1) refl, where hash = hash and same = same and x = x]
  obtain p q where pq: "findAt hash same ?t x = (p, q)" by force
  show ?thesis
  proof (cases p)
    case (Some y)
    then obtain j where j: "j < length ?t" "q = Some j" "?t ! j = Some y" "same y x" using spec pq by auto
    then have "set_abs key s (key x) = Some y"
      using set_abs_Some[OF assms] by (auto simp: contents_nth same_key)
    then show ?thesis using that(1) pq Some j same_key by auto
  next
    case None
    show ?thesis
    proof (cases q)
      case (Some j)
      then have j: "j < length ?t" "?t ! j = None"
        "\<forall>k < length ?t. off (length ?t) (home hash (length ?t) x) k < off (length ?t) (home hash (length ?t) x) j \<longrightarrow> other same ?t x k"
        using spec pq None by auto
      have "set_abs key s (key x) = None"
        using probed_free[OF c(2) j(1,2) _ j(3)] by (auto simp: set_abs_None)
      then show ?thesis using that(2) pq None Some j probed_put[OF c(2) j] by auto
    next
      case n: None
      then have o: "\<forall>k < length ?t. other same ?t x k" using spec pq None by auto
      then have "\<forall>k < length ?t. ?t ! k \<noteq> None" by (auto simp: other_def)
      then have "length (contents ?t) = length ?t" by (rule length_contents_full)
      then have "length ?t = 2" "bt_count s = 2" using assms by (auto simp: set_ok_def Let_def)
      moreover have "set_abs key s (key x) = None" using other_contents[OF o] by (auto simp: set_abs_None)
      ultimately show ?thesis using that(3) pq None n by auto
    qed
  qed
qed

lemma find_abs: "set_ok key hash s \<Longrightarrow> BtSet_find hash same s x = set_abs key s (key x)"
  by (cases rule: findAt_cases[of s x]) (auto simp: BtSet_find_def)

end

section \<open>Adding\<close>

text \<open>The result of \<open>addIfAbsent\<close> against the map; \<open>s'\<close> is the set before the element is entered.\<close>

definition added :: "('a \<Rightarrow> 'k) \<Rightarrow> ('a \<Rightarrow> 32 word) \<Rightarrow> 'a btset \<Rightarrow> 'a \<Rightarrow> 'a option \<times> nat option \<times> 'a btset \<Rightarrow> bool" where
  "added key hash s x r = (case r of (a, u, s') \<Rightarrow> set_ok key hash s' \<and>
     (case set_abs key s (key x) of
        None \<Rightarrow> a = Some x \<and> set_abs key s' = (set_abs key s)(key x \<mapsto> x)
      | Some y \<Rightarrow> a = Some y \<and> set_abs key s' = set_abs key s \<and>
          (\<exists>j < length (bt_elements s'). u = Some j \<and> bt_elements s' ! j = Some y)))"

context hashed_elements
begin

lemma put_new:
  assumes "set_ok key hash s" "bt_count s * 3 \<le> length (bt_elements s) * 2" "set_abs key s (key x) = None"
  shows "\<exists>u s'. addIfAbsent (Suc d) hash same s x = Inr (Some x, u, s') \<and> set_ok key hash s' \<and>
    mset (contents (bt_elements s')) = add_mset x (mset (contents (bt_elements s))) \<and>
    length (bt_elements s') = length (bt_elements s)"
  using assms(1)
proof (cases rule: findAt_cases[of s x])
  case (free j)
  let ?t = "(bt_elements s)[j := Some x]" and ?s = "s\<lparr>bt_elements := (bt_elements s)[j := Some x], bt_count := bt_count s + 1\<rparr>"
  have m: "mset (contents ?t) = add_mset x (mset (contents (bt_elements s)))"
    by (rule contents_put[OF free(2,3)])
  have "distinct (map key (contents ?t)) = distinct (map key (x # contents (bt_elements s)))"
    by (rule distinct_mset) (simp add: m)
  moreover have "length (contents ?t) = Suc (length (contents (bt_elements s)))"
    using m by (metis size_add_mset size_mset)
  ultimately have "set_ok key hash ?s"
    using assms free by (auto simp: set_ok_def Let_def set_abs_None)
  then show ?thesis using assms(2) free m by (simp add: atPut_def)
qed (use assms in auto)

lemma keep_old:
  assumes "set_ok key hash s" "bt_count s * 3 \<le> length (bt_elements s) * 2" "set_abs key s (key x) = Some y"
  shows "\<exists>j < length (bt_elements s). addIfAbsent (Suc d) hash same s x = Inr (Some y, Some j, s) \<and> bt_elements s ! j = Some y"
  using assms(1) by (cases rule: findAt_cases[of s x]) (use assms in auto)

lemma copy_from_ok:
  assumes "set_ok key hash s" "distinct (map key (contents xs @ contents (bt_elements s)))"
    "(bt_count s + length (contents xs)) * 3 \<le> length (bt_elements s) * 2"
  shows "\<exists>s'. copy_from (\<lambda>s x. bind_res (addIfAbsent (Suc d) hash same s x) (\<lambda>(_, _, s). Inr s)) xs s = Inr s' \<and>
    set_ok key hash s' \<and> mset (contents (bt_elements s')) = mset (contents xs) + mset (contents (bt_elements s)) \<and>
    length (bt_elements s') = length (bt_elements s)"
  using assms
proof (induction xs arbitrary: s rule: contents.induct)
  case (3 x xs)
  have "set_abs key s (key x) = None" using 3(3) by (simp add: set_abs_None) (metis UnCI image_eqI)
  then obtain u s1 where a: "addIfAbsent (Suc d) hash same s x = Inr (Some x, u, s1)" "set_ok key hash s1"
    "mset (contents (bt_elements s1)) = add_mset x (mset (contents (bt_elements s)))"
    "length (bt_elements s1) = length (bt_elements s)"
    using put_new[OF 3(2), of x d] 3(4) by auto
  have n: "bt_count s1 = Suc (bt_count s)"
    using a(2,3) 3(2) by (metis set_ok_def size_add_mset size_mset)
  have "mset (contents xs @ contents (bt_elements s1)) = mset (contents (Some x # xs) @ contents (bt_elements s))"
    using a(3) by simp
  then have "distinct (map key (contents xs @ contents (bt_elements s1)))"
    using 3(3) distinct_mset by blast
  then show ?case using "3.IH"[OF a(2)] 3(4) a n by (auto simp: bind_res_def)
qed auto

lemma expand_ok:
  assumes "set_ok key hash s"
  shows "\<exists>s'. expand (\<lambda>s x. bind_res (addIfAbsent (Suc d) hash same s x) (\<lambda>(_, _, s). Inr s)) s = Inr s' \<and>
    set_ok key hash s' \<and> set_abs key s' = set_abs key s \<and> bt_count s' = bt_count s \<and>
    bt_count s' * 3 \<le> length (bt_elements s') * 2"
proof -
  let ?t = "bt_elements s" and ?n = "s\<lparr>bt_count := 0, bt_elements := replicate ((length (bt_elements s) + 1) * 2) None\<rparr>"
  have e: "set_ok key hash ?n"
    using assms probed_empty[of hash "(length ?t + 1) * 2"] by (auto simp: set_ok_def Let_def simp del: replicate_Suc)
  have l: "length (contents ?t) \<le> length ?t" by (rule length_contents)
  obtain s' where s': "copy_from (\<lambda>s x. bind_res (addIfAbsent (Suc d) hash same s x) (\<lambda>(_, _, s). Inr s)) ?t ?n = Inr s'"
    "set_ok key hash s'" "mset (contents (bt_elements s')) = mset (contents ?t)"
    "length (bt_elements s') = (length ?t + 1) * 2"
    using copy_from_ok[OF e, of ?t d] assms l by (auto simp: set_ok_def Let_def)
  have n: "bt_count s' = bt_count s"
    using s'(2,3) assms by (metis set_ok_def size_mset)
  moreover have "bt_count s = length (contents ?t)" using assms by (auto simp: set_ok_def Let_def)
  moreover have "set_abs key s' = set_abs key s" by (rule set_abs_mset[OF assms s'(2)]) (simp add: s'(3))
  moreover have "expand (\<lambda>s x. bind_res (addIfAbsent (Suc d) hash same s x) (\<lambda>(_, _, s). Inr s)) s = Inr s'"
    using s'(1) by (simp add: expand_def copyElements_def newCapacity_def Let_def)
  ultimately show ?thesis using s'(2,4) l by auto
qed

lemma addIfAbsent_roomy:
  assumes "set_ok key hash s" "bt_count s * 3 \<le> length (bt_elements s) * 2"
  shows "\<exists>r. addIfAbsent (Suc d) hash same s x = Inr r \<and> added key hash s x r"
proof (cases "set_abs key s (key x)")
  case None
  obtain u s' where a: "addIfAbsent (Suc d) hash same s x = Inr (Some x, u, s')" "set_ok key hash s'"
    "mset (contents (bt_elements s')) = add_mset x (mset (contents (bt_elements s)))"
    using put_new[OF assms None, of d] by blast
  have "set_abs key s' = (set_abs key s)(key x \<mapsto> x)"
    by (rule set_abs_insert[where hash = hash]) (use assms None a in auto)
  then show ?thesis using a None by (auto simp: added_def)
next
  case (Some y)
  then show ?thesis using keep_old[OF assms Some, of d] assms(1) by (auto simp: added_def)
qed

text \<open>Expanding adds the old elements with room to spare, so it never expands again.\<close>

lemma addIfAbsent_added:
  assumes "set_ok key hash s"
  shows "\<exists>r. addIfAbsent (Suc (Suc d)) hash same s x = Inr r \<and> added key hash s x r"
proof (cases "bt_count s * 3 > length (bt_elements s) * 2")
  case True
  obtain s1 where s1: "expand (\<lambda>s x. bind_res (addIfAbsent (Suc d) hash same s x) (\<lambda>(_, _, s). Inr s)) s = Inr s1"
    "set_ok key hash s1" "set_abs key s1 = set_abs key s" "bt_count s1 * 3 \<le> length (bt_elements s1) * 2"
    using expand_ok[OF assms] by blast
  have "addIfAbsent (Suc (Suc d)) hash same s x = addIfAbsent (Suc (Suc d)) hash same s1 x"
    using True s1 by (simp del: addIfAbsent.simps add: addIfAbsent.simps(2)[of "Suc d"])
  moreover have "added key hash s1 x = added key hash s x" by (simp add: added_def s1(3) fun_eq_iff split: option.split)
  ultimately show ?thesis using addIfAbsent_roomy[OF s1(2,4), of "Suc d" x] by metis
qed (use addIfAbsent_roomy[OF assms, of "Suc d" x] in auto)

section \<open>Removing and replacing\<close>

lemma remove_ok:
  assumes "set_ok key hash s" "BtSet_remove hash same s x = (a, s')"
  shows "set_ok key hash s' \<and> a = set_abs key s (key x) \<and> set_abs key s' = (set_abs key s)(key x := None)"
  using assms(1)
proof (cases rule: findAt_cases[of s x])
  case (found y n)
  let ?t = "bt_elements s" and ?r = "rehash hash ((bt_elements s)[n := None]) n"
  have ok: "bt_count s = length (contents ?t)" "distinct (map key (contents ?t))" "probed hash ?t"
    "length ?t = 2 \<or> 4 \<le> length ?t \<and> length (contents ?t) < length ?t"
    using assms(1) by (auto simp: set_ok_def Let_def)
  have gap: "length ?t = 2 \<or> (\<exists>e < length ?t. e \<noteq> n \<and> ?t ! e = None)"
    using ok(4) contents_gap_ex[of ?t] found(3) by (metis option.distinct(1))
  note r = rehash_spec[OF ok(3) found(2) gap]
  have m: "mset (contents ?t) = add_mset y (mset (contents ?r))"
    using contents_clear[OF found(2,3)] r by (simp add: mset_contents)
  have n: "length (contents ?t) = Suc (length (contents ?r))"
    using m by (metis size_add_mset size_mset)
  have "distinct (map key (y # contents ?r))"
    using distinct_mset[of "contents ?t" "y # contents ?r" key] m ok(2) by simp
  moreover have s': "s' = s\<lparr>bt_elements := ?r, bt_count := bt_count s - 1\<rparr>" "a = Some y"
    using assms(2) found(1) by (auto simp: BtSet_remove_def)
  ultimately have ok': "set_ok key hash s'" using ok n r by (auto simp: set_ok_def Let_def)
  have "set_abs key s' = (set_abs key s)(key y := None)"
    by (rule set_abs_delete[OF assms(1) ok']) (use m s' in simp)
  then show ?thesis using ok' s' found by simp
next
  case (free j)
  then show ?thesis using assms by (auto simp: BtSet_remove_def)
next
  case full
  then show ?thesis using assms by (auto simp: BtSet_remove_def)
qed

lemma probed_swap:
  assumes "probed hash t" "n < length t" "t ! n = Some y" "key y = key x"
  shows "probed hash (t[n := Some x])"
proof -
  have "home hash c x = home hash c y" for c using home_same assms(4) same_key by metis
  then show ?thesis using assms unfolding probed_def Let_def
    by (auto simp: nth_list_update split: if_splits)
qed

lemma swap_ok:
  assumes "set_ok key hash s" "n < length (bt_elements s)" "bt_elements s ! n = Some y" "key y = key x"
  shows "set_ok key hash (s\<lparr>bt_elements := (bt_elements s)[n := Some x]\<rparr>) \<and>
    set_abs key (s\<lparr>bt_elements := (bt_elements s)[n := Some x]\<rparr>) = (set_abs key s)(key x \<mapsto> x)"
proof -
  let ?t = "bt_elements s" and ?s = "s\<lparr>bt_elements := (bt_elements s)[n := Some x]\<rparr>"
  obtain M where M: "mset (contents ?t) = add_mset y M" "mset (contents (?t[n := Some x])) = add_mset x M"
    using contents_swap[OF assms(2,3)] by blast
  have k: "mset (map key (contents (?t[n := Some x]))) = mset (map key (contents ?t))"
    using M assms(4) by simp
  have "length (contents (?t[n := Some x])) = length (contents ?t)"
    "distinct (map key (contents (?t[n := Some x]))) = distinct (map key (contents ?t))"
    using k by (metis size_mset length_map, metis mset_eq_imp_distinct_iff)
  then have ok: "set_ok key hash ?s"
    using assms(1) probed_swap[OF _ assms(2-4)] by (auto simp: set_ok_def Let_def)
  obtain ys where ys: "mset ys = M" by (metis ex_mset)
  have d: "distinct (map key (y # ys))"
    using distinct_mset[of "contents ?t" "y # ys" key] M ys assms(1) by (simp add: set_ok_def Let_def)
  have in_set: "set (contents ?t) = insert y (set ys)" "set (contents (?t[n := Some x])) = insert x (set ys)"
    using M ys by (metis set_mset_add_mset_insert set_mset_mset)+
  have "set_abs key ?s = (set_abs key s)(key x \<mapsto> x)"
    by (rule set_abs_eqI[OF ok]) (use set_abs_Some[OF assms(1)] d assms(4) in_set in \<open>auto simp: image_iff\<close>)
  then show ?thesis using ok by simp
qed

end

section \<open>Sequences of operations\<close>

datatype 'a set_op = Find 'a | Add 'a | Filter 'a | Replace 'a | Remove 'a | Clear

definition set_step where
  "set_step hash same op s = (case op of
       Find x \<Rightarrow> Inr (BtSet_find hash same s x, s)
     | Add x \<Rightarrow> BtSet_add 2 hash same s (Some x)
     | Filter x \<Rightarrow> bind_res (BtSet_filter 2 hash same s (Some x)) (\<lambda>(a, _, s). Inr (a, s))
     | Replace x \<Rightarrow> BtSet_replace 2 hash same s (Some x)
     | Remove x \<Rightarrow> Inr (BtSet_remove hash same s x)
     | Clear \<Rightarrow> Inr (None, BtSet_deleteContents s))"

fun set_run where
  "set_run hash same [] s = Inr ([], s)"
| "set_run hash same (op # ops) s = bind_res (set_step hash same op s) (\<lambda>(a, s).
     bind_res (set_run hash same ops s) (\<lambda>(as, s). Inr (a # as, s)))"

text \<open>The same operations on a map from keys to objects.\<close>

definition map_step :: "('a \<Rightarrow> 'k) \<Rightarrow> 'a set_op \<Rightarrow> ('k \<rightharpoonup> 'a) \<Rightarrow> 'a option \<times> ('k \<rightharpoonup> 'a)" where
  "map_step key op m = (case op of
       Find x \<Rightarrow> (m (key x), m)
     | Add x \<Rightarrow> (case m (key x) of None \<Rightarrow> (Some x, m(key x \<mapsto> x)) | Some y \<Rightarrow> (if y = x then Some x else None, m))
     | Filter x \<Rightarrow> (case m (key x) of None \<Rightarrow> (Some x, m(key x \<mapsto> x)) | Some y \<Rightarrow> (Some y, m))
     | Replace x \<Rightarrow> (case m (key x) of None \<Rightarrow> None | Some y \<Rightarrow> if y = x then None else Some y, m(key x \<mapsto> x))
     | Remove x \<Rightarrow> (m (key x), m(key x := None))
     | Clear \<Rightarrow> (None, Map.empty))"

fun map_run where
  "map_run key [] m = ([], m)"
| "map_run key (op # ops) m = (let (a, m) = map_step key op m; (as, m) = map_run key ops m in (a # as, m))"

lemma set_ok_new: "set_ok key hash (BtSet_new n)"
  by (auto simp: set_ok_def BtSet_new_def probed_empty Let_def)

lemma set_ok_clear: "set_ok key hash s \<Longrightarrow> set_ok key hash (BtSet_deleteContents s) \<and> set_abs key (BtSet_deleteContents s) = Map.empty"
  by (auto simp: set_ok_def set_abs_def BtSet_deleteContents_def probed_empty Let_def)

lemma set_abs_new: "set_abs key (BtSet_new n) = Map.empty"
  by (simp add: set_abs_def BtSet_new_def)

context hashed_elements
begin

lemma add_steps:
  assumes "set_ok key hash s"
  obtains a u s' where "addIfAbsent 2 hash same s x = Inr (a, u, s')" "added key hash s x (a, u, s')"
  using addIfAbsent_added[OF assms, of 0 x] by (auto simp: numeral_2_eq_2)

lemma replace_step:
  assumes "set_ok key hash s"
  shows "\<exists>s'. BtSet_replace 2 hash same s (Some x) = Inr (fst (map_step key (Replace x) (set_abs key s)), s') \<and>
    set_ok key hash s' \<and> set_abs key s' = (set_abs key s)(key x \<mapsto> x)"
proof -
  obtain a u s1 where a: "addIfAbsent 2 hash same s x = Inr (a, u, s1)" "added key hash s x (a, u, s1)"
    by (rule add_steps[OF assms])
  have ok: "set_ok key hash s1" using a(2) by (simp add: added_def)
  show ?thesis
  proof (cases "set_abs key s (key x)")
    case None
    then show ?thesis using a ok by (auto simp: BtSet_replace_def added_def map_step_def)
  next
    case (Some y)
    then obtain j where j: "a = Some y" "u = Some j" "j < length (bt_elements s1)" "bt_elements s1 ! j = Some y"
      "set_abs key s1 = set_abs key s" using a(2) by (auto simp: added_def)
    have k: "key y = key x" using Some set_abs_Some[OF assms] by blast
    show ?thesis
    proof (cases "y = x")
      case True
      then show ?thesis using a j Some ok by (auto simp: BtSet_replace_def map_step_def fun_upd_triv)
    next
      case False
      then show ?thesis using a j Some ok swap_ok[OF ok j(3,4) k]
        by (auto simp: BtSet_replace_def map_step_def atPut_def)
    qed
  qed
qed

lemma set_step_refines:
  assumes "set_ok key hash s"
  shows "\<exists>s'. set_step hash same op s = Inr (fst (map_step key op (set_abs key s)), s') \<and>
    set_ok key hash s' \<and> set_abs key s' = snd (map_step key op (set_abs key s))"
proof (cases op)
  case (Find x)
  then show ?thesis using assms find_abs by (simp add: set_step_def map_step_def)
next
  case (Add x)
  then show ?thesis using assms
    by (auto simp: set_step_def map_step_def BtSet_add_def added_def split: option.splits
        intro: add_steps[OF assms, of x])
next
  case (Filter x)
  then show ?thesis using assms
    by (auto simp: set_step_def map_step_def BtSet_filter_def added_def split: option.splits
        intro: add_steps[OF assms, of x])
next
  case (Replace x)
  then show ?thesis using replace_step[OF assms, of x] by (simp add: set_step_def map_step_def)
next
  case (Remove x)
  obtain a s' where "BtSet_remove hash same s x = (a, s')" by force
  then show ?thesis using Remove remove_ok[OF assms] by (simp add: set_step_def map_step_def)
next
  case Clear
  then show ?thesis using set_ok_clear[OF assms] by (simp add: set_step_def map_step_def)
qed

lemma set_run_refines:
  assumes "set_ok key hash s"
  shows "\<exists>s'. set_run hash same ops s = Inr (fst (map_run key ops (set_abs key s)), s') \<and>
    set_ok key hash s' \<and> set_abs key s' = snd (map_run key ops (set_abs key s))"
  using assms
proof (induction ops arbitrary: s)
  case (Cons op ops)
  obtain s1 where s1: "set_step hash same op s = Inr (fst (map_step key op (set_abs key s)), s1)"
    "set_ok key hash s1" "set_abs key s1 = snd (map_step key op (set_abs key s))"
    using set_step_refines[OF Cons.prems] by blast
  then show ?case using Cons.IH[OF s1(2)] by (auto simp: Let_def split: prod.splits)
qed auto

lemma new_set_refines: "\<exists>s. set_run hash same ops (BtSet_new n) = Inr (fst (map_run key ops Map.empty), s) \<and>
    bt_count s = card (dom (snd (map_run key ops Map.empty))) \<and>
    (\<forall>x. BtSet_find hash same s x = snd (map_run key ops Map.empty) (key x))"
  using set_run_refines[OF set_ok_new, of ops n] find_abs set_abs_card[of key hash] by (auto simp: set_abs_new)

end

section \<open>The sets of the packet tool\<close>

text \<open>
  \<open>basicHash\<close> (\<open>lib/Cm/CmTypes.cc\<close>) mixes the characters of a string, which are signed. The definitions of
  the names of a packet file (\<open>NameDefine\<close>, \<open>lib/Pz/PvName.cc\<close>) are found by their string: the octets
  before the terminating zero. Numbers (\<open>PvNumber\<close>) are found by their value, and the elements of a plain
  \<open>BtSet\<close> by their address.
\<close>

definition basicHash :: "byte list \<Rightarrow> 32 word" where
  "basicHash s = (let v = fold (\<lambda>c v. xor (push_bit 1 v) (scast c)) s 0; t = drop_bit 10 v; t = xor t (drop_bit 10 t) in xor v t)"

record name_define =
  nd_address :: nat
  nd_string :: "byte list"

definition NameDefine :: "nat \<Rightarrow> byte list \<Rightarrow> name_define" where
  "NameDefine a s = \<lparr>nd_address = a, nd_string = s\<rparr>"

definition name_hash :: "name_define \<Rightarrow> 32 word" where
  "name_hash d = basicHash (nd_string d)"

definition name_isEqual :: "name_define \<Rightarrow> name_define \<Rightarrow> bool" where
  "name_isEqual a b \<longleftrightarrow> nd_string a = nd_string b"

record pv_number =
  pn_address :: nat
  pn_value :: "32 word"

definition number_hash :: "pv_number \<Rightarrow> 32 word" where
  "number_hash n = pn_value n"

definition number_isEqual :: "pv_number \<Rightarrow> pv_number \<Rightarrow> bool" where
  "number_isEqual a b \<longleftrightarrow> pn_value a = pn_value b"

definition hashElement :: "32 word \<Rightarrow> 32 word" where
  "hashElement p = p"

definition isSame :: "32 word \<Rightarrow> 32 word \<Rightarrow> bool" where
  "isSame a b \<longleftrightarrow> a = b"

interpretation names: hashed_elements name_hash name_isEqual nd_string
  by unfold_locales (auto simp: name_isEqual_def name_hash_def)

interpretation numbers: hashed_elements number_hash number_isEqual pn_value
  by unfold_locales (auto simp: number_isEqual_def number_hash_def)

interpretation pointers: hashed_elements hashElement isSame id
  by unfold_locales (auto simp: isSame_def)

section \<open>Interning\<close>

text \<open>
  A name token refers to the definition of its string, which is entered when the string is met for the
  first time; \<open>a\<close> is the address of the new object, \<open>tmp\<close> the address of the local one that is searched with.
  The number of a literal is shared in the same way.
\<close>

record pv_name =
  pv_definition :: name_define
  pv_file :: string
  pv_line :: int

definition tokenObject :: "nat \<Rightarrow> nat \<Rightarrow> byte list \<Rightarrow> int \<Rightarrow> string \<Rightarrow> name_define btset \<Rightarrow> (pv_name \<times> name_define btset) res" where
  "tokenObject tmp a s l f ns = bind_res (case BtSet_find name_hash name_isEqual ns (NameDefine tmp s) of
       None \<Rightarrow> bind_res (BtSet_add 2 name_hash name_isEqual ns (Some (NameDefine a s)))
                (\<lambda>(_, ns). Inr (NameDefine a s, ns))
     | Some nd \<Rightarrow> Inr (nd, ns))
     (\<lambda>(nd, ns). Inr (\<lparr>pv_definition = nd, pv_file = f, pv_line = l\<rparr>, ns))"

definition unique :: "nat \<Rightarrow> nat \<Rightarrow> 32 word \<Rightarrow> pv_number btset \<Rightarrow> (pv_number \<times> pv_number btset) res" where
  "unique tmp a n ns = (case BtSet_find number_hash number_isEqual ns \<lparr>pn_address = tmp, pn_value = n\<rparr> of
       None \<Rightarrow> bind_res (BtSet_add 2 number_hash number_isEqual ns (Some \<lparr>pn_address = a, pn_value = n\<rparr>))
                (\<lambda>(_, ns). Inr (\<lparr>pn_address = a, pn_value = n\<rparr>, ns))
     | Some p \<Rightarrow> Inr (p, ns))"

lemma tokenObject_interns:
  assumes "set_ok nd_string name_hash ns"
  shows "\<exists>nd ns'. tokenObject tmp a s l f ns = Inr (\<lparr>pv_definition = nd, pv_file = f, pv_line = l\<rparr>, ns') \<and>
    set_ok nd_string name_hash ns' \<and> set_abs nd_string ns' = (set_abs nd_string ns)(s \<mapsto> nd) \<and>
    nd = (case set_abs nd_string ns s of None \<Rightarrow> NameDefine a s | Some old \<Rightarrow> old)"
proof -
  have f: "BtSet_find name_hash name_isEqual ns (NameDefine tmp s) = set_abs nd_string ns s"
    using names.find_abs[OF assms] by (simp add: NameDefine_def)
  show ?thesis
  proof (cases "set_abs nd_string ns s")
    case None
    obtain u1 u2 s1 where s1: "addIfAbsent 2 name_hash name_isEqual ns (NameDefine a s) = Inr (u1, u2, s1)"
      "added nd_string name_hash ns (NameDefine a s) (u1, u2, s1)"
      by (rule names.add_steps[OF assms])
    then have "set_ok nd_string name_hash s1" "set_abs nd_string s1 = (set_abs nd_string ns)(s \<mapsto> NameDefine a s)"
      using None by (simp_all add: added_def NameDefine_def)
    then show ?thesis using None f s1(1) by (simp add: tokenObject_def BtSet_add_def)
  next
    case (Some nd)
    then show ?thesis using f assms by (simp add: tokenObject_def fun_upd_idem)
  qed
qed

lemma unique_interns:
  assumes "set_ok pn_value number_hash ns"
  shows "\<exists>p ns'. unique tmp a n ns = Inr (p, ns') \<and>
    set_ok pn_value number_hash ns' \<and> set_abs pn_value ns' = (set_abs pn_value ns)(n \<mapsto> p) \<and>
    p = (case set_abs pn_value ns n of None \<Rightarrow> \<lparr>pn_address = a, pn_value = n\<rparr> | Some old \<Rightarrow> old)"
proof -
  have f: "BtSet_find number_hash number_isEqual ns \<lparr>pn_address = tmp, pn_value = n\<rparr> = set_abs pn_value ns n"
    using numbers.find_abs[OF assms] by simp
  show ?thesis
  proof (cases "set_abs pn_value ns n")
    case None
    obtain u1 u2 s1 where s1: "addIfAbsent 2 number_hash number_isEqual ns \<lparr>pn_address = a, pn_value = n\<rparr> = Inr (u1, u2, s1)"
      "added pn_value number_hash ns \<lparr>pn_address = a, pn_value = n\<rparr> (u1, u2, s1)"
      by (rule numbers.add_steps[OF assms])
    then have "set_ok pn_value number_hash s1" "set_abs pn_value s1 = (set_abs pn_value ns)(n \<mapsto> \<lparr>pn_address = a, pn_value = n\<rparr>)"
      using None by (simp_all add: added_def)
    then show ?thesis using None f s1(1) by (simp add: unique_def BtSet_add_def)
  next
    case (Some p)
    then show ?thesis using f assms by (simp add: unique_def fun_upd_idem)
  qed
qed

text \<open>The tokens of a packet file: one per name, in the order of the text, the objects at the given addresses.\<close>

fun tokens :: "nat \<Rightarrow> (nat \<times> byte list \<times> int \<times> string) list \<Rightarrow> name_define btset \<Rightarrow> (pv_name list \<times> name_define btset) res" where
  "tokens tmp [] ns = Inr ([], ns)"
| "tokens tmp ((a, s, l, f) # ts) ns = bind_res (tokenObject tmp a s l f ns) (\<lambda>(p, ns).
     bind_res (tokens tmp ts ns) (\<lambda>(ps, ns). Inr (p # ps, ns)))"

text \<open>Whatever the order, every token of a string refers to the one definition that the table holds for it in the end.\<close>

lemma tokens_share:
  assumes "set_ok nd_string name_hash ns"
  shows "\<exists>ps ns'. tokens tmp ts ns = Inr (ps, ns') \<and> set_ok nd_string name_hash ns' \<and>
    set_abs nd_string ns \<subseteq>\<^sub>m set_abs nd_string ns' \<and>
    map (\<lambda>p. Some (pv_definition p)) ps = map (\<lambda>t. set_abs nd_string ns' (fst (snd t))) ts \<and>
    dom (set_abs nd_string ns') = dom (set_abs nd_string ns) \<union> (\<lambda>t. fst (snd t)) ` set ts"
  using assms
proof (induction ts arbitrary: ns)
  case Nil
  then show ?case by auto
next
  case (Cons t ts)
  obtain a s l f where t: "t = (a, s, l, f)" by (cases t)
  obtain nd s1 where s1: "tokenObject tmp a s l f ns = Inr (\<lparr>pv_definition = nd, pv_file = f, pv_line = l\<rparr>, s1)"
    "set_ok nd_string name_hash s1" "set_abs nd_string s1 = (set_abs nd_string ns)(s \<mapsto> nd)"
    "nd = (case set_abs nd_string ns s of None \<Rightarrow> NameDefine a s | Some old \<Rightarrow> old)"
    using tokenObject_interns[OF Cons.prems] by blast
  obtain ps s2 where s2: "tokens tmp ts s1 = Inr (ps, s2)" "set_ok nd_string name_hash s2"
    "set_abs nd_string s1 \<subseteq>\<^sub>m set_abs nd_string s2"
    "map (\<lambda>p. Some (pv_definition p)) ps = map (\<lambda>t. set_abs nd_string s2 (fst (snd t))) ts"
    "dom (set_abs nd_string s2) = dom (set_abs nd_string s1) \<union> (\<lambda>t. fst (snd t)) ` set ts"
    using Cons.IH[OF s1(2)] by blast
  have le: "set_abs nd_string ns \<subseteq>\<^sub>m set_abs nd_string s1" using s1(3,4) by (auto simp: map_le_def split: option.splits)
  have "set_abs nd_string s2 s = Some nd" using s2(3) s1(3) unfolding map_le_def by (metis domI fun_upd_same)
  moreover have "tokens tmp (t # ts) ns = Inr (\<lparr>pv_definition = nd, pv_file = f, pv_line = l\<rparr> # ps, s2)"
    using t s1(1) s2(1) by simp
  moreover have "dom (set_abs nd_string s2) = dom (set_abs nd_string ns) \<union> (\<lambda>t. fst (snd t)) ` set (t # ts)"
    using s2(5) s1(3) t by auto
  ultimately show ?case using s2(2,4) t map_le_trans[OF le s2(3)] by simp
qed

text \<open>Assigning one set of one number to another leaves one element and a count of two.\<close>

lemma assign_miscounts:
  "BtSet_assign 2 number_hash number_isEqual
     \<lparr>bt_elements = [Some \<lparr>pn_address = 1, pn_value = 4\<rparr>, None], bt_count = 1\<rparr>
     \<lparr>bt_elements = [None, Some \<lparr>pn_address = 2, pn_value = 5\<rparr>], bt_count = 1\<rparr> =
   Inr \<lparr>bt_elements = [None, Some \<lparr>pn_address = 2, pn_value = 5\<rparr>], bt_count = 2\<rparr>"
  by code_simp

section \<open>The set is a map\<close>



end
