(* ===== verification/Spec2Isabelle.thy ===== *)
theory Spec2Isabelle
  imports KSystem KTcp KSocketChecks KDataFlush KOpenFacts KHandlers KTyped VHeaders VChecksum VExtOptions VSetSpec
begin

text \<open>
  A verification library for two programs of the TAHI conformance test suite: the socket server \<open>koid\<close> of KOI
  (\<open>koi-2.2.0\<close>), which opens sockets, sends, and waits for data on behalf of test scripts, and the packet tool
  of \<open>v6eval-3.3.2\<close>, which makes packets from definitions and takes received packets apart. Both run on FreeBSD on
  32-bit little-endian machines: an \<open>int\<close> or \<open>long\<close> has 32 bits, and conversions are written out
  (\<open>long_of\<close>, \<open>ushort_of\<close>, \<open>short_of\<close> in \<open>Koi_Prelude\<close>).

  \<^bold>\<open>Results.\<close> A C function becomes a function of the state it reads. Where it can read or write outside of an object,
  follow a dangling or null pointer, or call \<open>abort\<close>, its result is a sum: \<open>Inl\<close> of a \<open>fault\<close>, or \<open>Inr\<close> of what
  it returns. Error returns are ordinary values.

  \<^bold>\<open>The daemon.\<close> \<open>Koi_Heap\<close> is the dynamic memory and the singly linked tables kept in it, with the relation
  between the table in memory and the list of its entries. Each module of \<open>koi-2.2.0/lib\<close> has a theory with its static
  variables as a record and one definition per function: \<open>KBuffer\<close> (left-over bytes), \<open>KData\<close> and \<open>KDataFlush\<close>
  (messages), \<open>KParser\<close> (how byte streams are cut into messages), \<open>KSocket\<close> and \<open>KSocketChecks\<close> (the table of
  sockets), \<open>KTls\<close>, \<open>KIF\<close>, \<open>KCloseTimer\<close>, \<open>KRecvTimer\<close>. \<open>KAck\<close> holds the answers of \<open>kDispatcher\<close>,
  \<open>KUnixd\<close> the control connection, \<open>KCommand\<close> the eleven commands, \<open>KListen\<close> the connections from the network and
  the dispatcher, \<open>KOpen\<close> and \<open>KSend\<close> opening sockets and sending. \<open>KDaemon\<close> joins the states of all modules into
  one record with the environment as a parameter: what the system calls return, the data on each descriptor, the time,
  the allocator. \<open>KMain\<close> is \<open>koid.c\<close>: a round of the main loop waits, dispatches and runs the two timers.

  The lemmas of a module give the result of each operation on every branch, that it keeps the invariant of the module
  (\<open>*_inv\<close>), and where there is one the abstract object it implements: a bounded map of deadlines, a bounded map of
  parsers, a list of waiting readers. \<open>KStep\<close> and \<open>KSystem\<close> show what every step keeps of the socket table and
  carry it to the states that the main loop reaches before the 32767 socket ids are used up and without undefined
  behaviour, \<open>KTyped\<close> that the entries of reachable tables have the types their tags say, and which check reads one
  as another, \<open>KTcp\<close> how a received piece of a TCP stream is joined with what was left over and cut into messages,
  \<open>KHandlers\<close> what a client is told and what is sent, also by a \<open>send\<close> that takes only some of the bytes,
  \<open>KLive\<close> that sockets to be closed are closed and waiting clients answered, and which are dropped.
  \<open>KOpenFacts\<close>, \<open>KDataFlush\<close>, \<open>KRecvTimer\<close> and \<open>KBuffer\<close> also show on which inputs the code goes wrong.

  \<^bold>\<open>The packet tool.\<close> \<open>VPosition\<close> is \<open>ItPosition\<close>: a place in a packet in octets and bits. \<open>VOctets\<close> is
  \<open>PvOctets\<close>: writing and reading numbers of up to 32 bits at any bit, octet strings, comparison, sums, and addresses made
  of others; the reference is the packet as a sequence of bits (\<open>obit\<close>). \<open>VMember\<close> has the members of headers
  (\<open>MmObject.cc\<close>, \<open>McObject.cc\<close>): their places, writing and reading them one after the other, and the check that the
  packet is long enough. \<open>VLayout\<close>, \<open>VTypes\<close>, the five theories \<open>VHdr*\<close> and \<open>VHeaders\<close> are the tables of
  \<open>McInit.cc\<close>: one definition per class with its members in order, their default values, and the dictionaries it
  registers itself in; what is proved holds of all classes.
  \<open>VChecksum\<close> computes checksums, fills them in and checks them. \<open>VReverse\<close> takes a received packet apart:
  \<open>McObject::reverse\<close> with its members in a window of the packet (\<open>octbuf\<close>), and the loop of
  \<open>MmReference_More0::reverse\<close>, which is a partial function with the value \<open>None\<close> for not ending; its locale
  \<open>object_list\<close> says what makes it end. \<open>VOptions\<close> has the option lists of IPv6 extension headers, IPv4, TCP,
  ICMPv6 and mobility headers, each an instance of that locale, and \<open>VExtOptions\<close> what the first of them yields.
  \<open>VSet\<close> is the hashed set (\<open>BtSet.cc\<close>) that names, numbers and tokens are looked up in; \<open>VSetSpec\<close> states the
  contract of its virtual methods as the locale \<open>hashed_elements\<close>, proves in it that the set implements a finite map,
  and interprets it for names, numbers and addresses; the objects of names and numbers are shared through it.

  \<^bold>\<open>Bounds and fuel.\<close> Loops over tables in memory take as fuel the number of nodes of the heap, and the lemmas show that
  a well-formed table needs no more. Sizes of packets are below \<open>2 ^ 28\<close> octets, where positions in bits fit an
  \<open>int\<close>. Adding to a hashed set expands it at most once (the depth 2 of \<open>addIfAbsent\<close>).

  \<^bold>\<open>Not modelled.\<close> Logging and debugging output; the Kerberos helpers, which only call a library; \<open>koi-1.1.1\<close>, an older
  copy of the daemon; of the packet tool the language of packet definitions, the choice of values for lengths and next headers,
  cryptography (OpenSSL calls), name lookups, and the capture of packets; the test suites in Perl. What OpenSSL, the
  system calls and shared objects loaded at run time return is a parameter.
\<close>

end
